(* ===== verification/Prelude.thy ===== *)
theory Prelude
  imports Main "HOL-Library.Sublist"
begin

text \<open>
  Shared vocabulary of the development: the result type of fallible Rust functions, the
  collections of rewrite rules the component theories fill, and the facts on lists and options
  that several components need.
\<close>

type_synonym ('e, 'a) result = "'e + 'a"
type_synonym bytes = string

text \<open>
  Simplification sets: \<open>str_simps\<close> evaluates the string functions, \<open>apply_simps\<close> unfolds the
  stages of the apply/verify pipeline, \<open>strategy_simps\<close> the strategy walkers.
\<close>

named_theorems str_simps
named_theorems fs_simps
named_theorems apply_simps
named_theorems strategy_simps

subsection \<open>Results\<close>

definition is_ok :: "('e, 'a) result \<Rightarrow> bool" where
  "is_ok r = (case r of Inl _ \<Rightarrow> False | Inr _ \<Rightarrow> True)"

definition is_err :: "('e, 'a) result \<Rightarrow> bool" where
  "is_err r = (\<not> is_ok r)"

lemma is_ok_simps [simp]:
  "is_ok (Inr x)" "\<not> is_ok (Inl e)" "is_err (Inl e)" "\<not> is_err (Inr x)"
  by (simp_all add: is_ok_def is_err_def)

lemma is_ok_iff: "is_ok r \<longleftrightarrow> (\<exists>x. r = Inr x)"
  by (cases r) simp_all

definition map_err :: "('e \<Rightarrow> 'f) \<Rightarrow> ('e, 'a) result \<Rightarrow> ('f, 'a) result" where
  "map_err f r = (case r of Inl e \<Rightarrow> Inl (f e) | Inr x \<Rightarrow> Inr x)"

lemma map_err_simps [simp]:
  "map_err f (Inl e) = Inl (f e)" "map_err f (Inr x) = Inr x"
  by (simp_all add: map_err_def)

text \<open>The operator \<open>?\<close>.\<close>

definition rbind :: "('e, 'a) result \<Rightarrow> ('a \<Rightarrow> ('e, 'b) result) \<Rightarrow> ('e, 'b) result" where
  "rbind r f = (case r of Inl e \<Rightarrow> Inl e | Inr x \<Rightarrow> f x)"

lemma rbind_simps [simp]: "rbind (Inl e) f = Inl e" "rbind (Inr x) f = f x"
  by (simp_all add: rbind_def)

lemma rbind_Inr: "rbind r f = Inr y \<longleftrightarrow> (\<exists>x. r = Inr x \<and> f x = Inr y)"
  by (cases r) simp_all

subsection \<open>Options and lists\<close>

definition or_else :: "'a option \<Rightarrow> 'a option \<Rightarrow> 'a option" where
  "or_else a b = (case a of None \<Rightarrow> b | Some x \<Rightarrow> Some x)"

lemma or_else_simps [simp]:
  "or_else None b = b" "or_else (Some x) b = Some x" "or_else a None = a"
  by (simp_all add: or_else_def split: option.splits)

definition unwrap_or :: "'a \<Rightarrow> 'a option \<Rightarrow> 'a" where
  "unwrap_or d a = (case a of None \<Rightarrow> d | Some x \<Rightarrow> x)"

lemma unwrap_or_simps [simp]: "unwrap_or d None = d" "unwrap_or d (Some x) = x"
  by (simp_all add: unwrap_or_def)

definition opt_filter :: "('a \<Rightarrow> bool) \<Rightarrow> 'a option \<Rightarrow> 'a option" where
  "opt_filter p a = (case a of None \<Rightarrow> None | Some x \<Rightarrow> if p x then Some x else None)"

lemma opt_filter_simps [simp]:
  "opt_filter p None = None"
  "opt_filter p (Some x) = (if p x then Some x else None)"
  by (simp_all add: opt_filter_def)

lemma opt_filter_eq_Some: "opt_filter p a = Some x \<longleftrightarrow> a = Some x \<and> p x"
  by (cases a) auto

text \<open>The element \<open>Iterator::min_by_key\<close> returns: the first one with the least key.\<close>

fun min_by_key :: "('a \<Rightarrow> 'k::linorder) \<Rightarrow> 'a list \<Rightarrow> 'a option" where
  "min_by_key f [] = None"
| "min_by_key f (x # xs) =
     (case min_by_key f xs of None \<Rightarrow> Some x | Some y \<Rightarrow> if f x \<le> f y then Some x else Some y)"

lemma min_by_key_None [simp]: "min_by_key f xs = None \<longleftrightarrow> xs = []"
  by (cases xs) (auto split: option.splits)

lemma min_by_key_Some:
  "min_by_key f xs = Some y \<Longrightarrow> y \<in> set xs \<and> (\<forall>x \<in> set xs. f y \<le> f x)"
proof (induction xs arbitrary: y)
  case Nil
  then show ?case by simp
next
  case (Cons x xs)
  then show ?case
    by (cases "min_by_key f xs") (auto split: if_splits simp: not_le intro: less_imp_le order_trans)
qed

lemma min_by_key_unique:
  assumes "inj_on f (set xs)" "x \<in> set xs" "\<And>z. z \<in> set xs \<Longrightarrow> f x \<le> f z"
  shows "min_by_key f xs = Some x"
proof (cases "min_by_key f xs")
  case None
  with assms(2) show ?thesis by simp
next
  case (Some y)
  then have y: "y \<in> set xs" "\<forall>z \<in> set xs. f y \<le> f z"
    by (auto dest: min_by_key_Some)
  with assms(2,3) have "f x = f y" by (meson antisym)
  with assms(1,2) y(1) have "x = y" by (simp add: inj_on_eq_iff)
  with Some show ?thesis by simp
qed

lemma list_find_None: "List.find p xs = None \<longleftrightarrow> (\<forall>x \<in> set xs. \<not> p x)"
  by (induction xs) auto

lemma list_find_Some: "List.find p xs = Some x \<Longrightarrow> x \<in> set xs \<and> p x"
  by (induction xs) (auto split: if_splits)

lemma set_enumerate_snd: "(i, x) \<in> set (enumerate n xs) \<Longrightarrow> x \<in> set xs"
  by (induction xs arbitrary: n) auto

lemma foldr_max_ge: "x \<in> set xs \<Longrightarrow> x \<le> foldr max xs (0::nat)"
  by (induction xs) auto

lemma foldr_max_in: "xs \<noteq> [] \<Longrightarrow> foldr max xs (0::nat) \<in> set xs"
  by (induction xs rule: list_nonempty_induct) (auto simp: max_def)

end
