(* ===== verification/RustStr.thy ===== *)
theory RustStr
  imports Prelude
begin

text \<open>
  The part of Rust's \<open>str\<close> and \<open>String\<close> that the crate uses, over the UTF-8 bytes of the
  string: a \<open>char\<close> of Isabelle is one byte, so \<open>length\<close> is \<open>str::len\<close> and slices are byte
  slices. Whitespace is Unicode \<open>White_Space\<close>, listed by its UTF-8 encodings, so trimming is
  exact on valid UTF-8. \<open>to_lowercase\<close> is exact for the ASCII characters of its result; the
  Unicode case tables are not part of the model.
\<close>

subsection \<open>Prefixes, suffixes, search\<close>

fun strip_prefix :: "string \<Rightarrow> string \<Rightarrow> string option" where
  "strip_prefix [] s = Some s"
| "strip_prefix (p # ps) [] = None"
| "strip_prefix (p # ps) (c # cs) = (if p = c then strip_prefix ps cs else None)"

lemma strip_prefix_eq_Some: "strip_prefix p s = Some r \<longleftrightarrow> s = p @ r"
  by (induction p s rule: strip_prefix.induct) auto

lemma strip_prefix_append [simp]: "strip_prefix p (p @ r) = Some r"
  by (simp add: strip_prefix_eq_Some)

lemma strip_prefix_self [simp]: "strip_prefix p p = Some []"
  using strip_prefix_append [of p "[]"] by simp

definition starts_with :: "string \<Rightarrow> string \<Rightarrow> bool" where
  "starts_with s p = (strip_prefix p s \<noteq> None)"

lemma starts_with_iff: "starts_with s p \<longleftrightarrow> (\<exists>r. s = p @ r)"
  by (auto simp: starts_with_def strip_prefix_eq_Some)

lemma starts_with_simps [simp, str_simps]:
  "starts_with s []"
  "\<not> starts_with [] (p # ps)"
  "starts_with (c # cs) (p # ps) \<longleftrightarrow> p = c \<and> starts_with cs ps"
  by (auto simp: starts_with_def)

lemma starts_with_prefix: "starts_with s p = prefix p s"
  by (auto simp: starts_with_iff prefix_def)

definition strip_suffix :: "string \<Rightarrow> string \<Rightarrow> string option" where
  "strip_suffix p s = map_option rev (strip_prefix (rev p) (rev s))"

lemma strip_suffix_eq_Some: "strip_suffix p s = Some r \<longleftrightarrow> s = r @ p"
proof -
  have "strip_suffix p s = Some r \<longleftrightarrow> rev s = rev p @ rev r"
    by (auto simp: strip_suffix_def strip_prefix_eq_Some)
  also have "\<dots> \<longleftrightarrow> s = r @ p"
    by (metis rev_append rev_rev_ident)
  finally show ?thesis .
qed

definition ends_with :: "string \<Rightarrow> string \<Rightarrow> bool" where
  "ends_with s p = (strip_suffix p s \<noteq> None)"

text \<open>\<open>str::find\<close>: the byte offset of the first occurrence.\<close>

fun find_sub :: "string \<Rightarrow> string \<Rightarrow> nat option" where
  "find_sub p [] = (if p = [] then Some 0 else None)"
| "find_sub p (c # cs) =
     (if starts_with (c # cs) p then Some 0 else map_option Suc (find_sub p cs))"

lemma find_sub_Some:
  "find_sub p s = Some i \<Longrightarrow> i + length p \<le> length s \<and> s = take i s @ p @ drop (i + length p) s"
proof (induction s arbitrary: i)
  case Nil
  then show ?case by (auto split: if_splits)
next
  case (Cons c cs)
  show ?case
  proof (cases "starts_with (c # cs) p")
    case True
    with Cons.prems have "i = 0" by simp
    moreover from True obtain r where "c # cs = p @ r" by (auto simp: starts_with_iff)
    then have "length p \<le> length (c # cs)" "c # cs = p @ drop (length p) (c # cs)"
      by simp_all
    ultimately show ?thesis by simp
  next
    case False
    with Cons.prems obtain j where j: "find_sub p cs = Some j" "i = Suc j" by auto
    with Cons.IH [OF j(1)] show ?thesis by simp
  qed
qed

lemma find_sub_None: "find_sub p s = None \<longleftrightarrow> (\<nexists>a b. s = a @ p @ b)"
proof (induction s)
  case Nil
  then show ?case by auto
next
  case (Cons c cs)
  have "(\<exists>a b. c # cs = a @ p @ b) \<longleftrightarrow> starts_with (c # cs) p \<or> (\<exists>a b. cs = a @ p @ b)"
    unfolding starts_with_iff by (metis append_Cons append_Nil list.exhaust list.inject)
  with Cons.IH show ?case by auto
qed

lemma find_sub_least:
  "find_sub p s = Some i \<Longrightarrow> j < i \<Longrightarrow> \<not> starts_with (drop j s) p"
proof (induction s arbitrary: i j)
  case Nil
  then show ?case by (auto split: if_splits)
next
  case (Cons c cs)
  then show ?case by (cases j) (auto split: if_splits)
qed

definition contains :: "string \<Rightarrow> string \<Rightarrow> bool" where
  "contains s p = (find_sub p s \<noteq> None)"

lemma contains_iff: "contains s p \<longleftrightarrow> (\<exists>a b. s = a @ p @ b)"
  using find_sub_None [of p s] by (auto simp: contains_def)

lemma contains_sublist: "contains s p = sublist p s"
  by (auto simp: contains_iff sublist_def)

fun find_char :: "char \<Rightarrow> string \<Rightarrow> nat option" where
  "find_char c [] = None"
| "find_char c (x # xs) = (if x = c then Some 0 else map_option Suc (find_char c xs))"

lemma find_char_Some:
  "find_char c s = Some i \<Longrightarrow> i < length s \<and> s ! i = c \<and> c \<notin> set (take i s)"
  by (induction s arbitrary: i) (auto split: if_splits)

lemma find_char_None: "find_char c s = None \<longleftrightarrow> c \<notin> set s"
  by (induction s) auto

lemma find_char_split:
  "find_char c s = Some i \<Longrightarrow> s = take i s @ c # drop (Suc i) s"
  using find_char_Some id_take_nth_drop by blast

lemma find_char_append [simp]:
  "c \<notin> set a \<Longrightarrow> find_char c (a @ c # b) = Some (length a)"
  by (induction a) auto

definition rfind_char :: "char \<Rightarrow> string \<Rightarrow> nat option" where
  "rfind_char c s = map_option (\<lambda>i. length s - 1 - i) (find_char c (rev s))"

lemma rfind_char_None: "rfind_char c s = None \<longleftrightarrow> c \<notin> set s"
  by (simp add: rfind_char_def find_char_None)

lemma rfind_char_append [simp]:
  "c \<notin> set b \<Longrightarrow> rfind_char c (a @ c # b) = Some (length a)"
  by (simp add: rfind_char_def)

subsection \<open>Counting and replacing occurrences\<close>

text \<open>
  \<open>str::matches(p).count()\<close> and \<open>str::replace\<close> scan left to right and skip over each match, so
  occurrences never overlap. The counter argument is the number of bytes of the current match
  still to be skipped. Both are used with non-empty patterns only.
\<close>

fun count_from :: "string \<Rightarrow> nat \<Rightarrow> string \<Rightarrow> nat" where
  "count_from p k [] = 0"
| "count_from p (Suc k) (c # cs) = count_from p k cs"
| "count_from p 0 (c # cs) =
     (if starts_with (c # cs) p then Suc (count_from p (length p - 1) cs)
      else count_from p 0 cs)"

definition count_matches :: "string \<Rightarrow> string \<Rightarrow> nat" where
  "count_matches p s = count_from p 0 s"

fun replace_from :: "string \<Rightarrow> string \<Rightarrow> nat \<Rightarrow> string \<Rightarrow> string" where
  "replace_from p r k [] = []"
| "replace_from p r (Suc k) (c # cs) = replace_from p r k cs"
| "replace_from p r 0 (c # cs) =
     (if starts_with (c # cs) p then r @ replace_from p r (length p - 1) cs
      else c # replace_from p r 0 cs)"

definition str_replace :: "string \<Rightarrow> string \<Rightarrow> string \<Rightarrow> string" where
  "str_replace p r s = replace_from p r 0 s"

text \<open>\<open>str::replacen(p, r, 1)\<close>.\<close>

definition replace_first :: "string \<Rightarrow> string \<Rightarrow> string \<Rightarrow> string" where
  "replace_first p r s =
     (case find_sub p s of None \<Rightarrow> s | Some i \<Rightarrow> take i s @ r @ drop (i + length p) s)"

lemma count_matches_0: "p \<noteq> [] \<Longrightarrow> count_matches p s = 0 \<longleftrightarrow> \<not> contains s p"
proof (induction s)
  case Nil
  then show ?case by (simp add: count_matches_def contains_def)
next
  case (Cons c cs)
  then show ?case by (auto simp: count_matches_def contains_def)
qed

lemma count_from_skip: "k \<le> length s \<Longrightarrow> count_from p k s = count_from p 0 (drop k s)"
  by (induction p k s rule: count_from.induct) auto

lemma count_matches_find:
  assumes "p \<noteq> []" "find_sub p s = Some i"
  shows "count_matches p s = Suc (count_matches p (drop (i + length p) s))"
  using assms(2)
proof (induction s arbitrary: i)
  case Nil
  with assms(1) show ?case by simp
next
  case (Cons c cs)
  show ?case
  proof (cases "starts_with (c # cs) p")
    case True
    with Cons.prems have "i = 0" by simp
    from assms(1) obtain q qs where p: "p = q # qs" by (cases p) auto
    from True p have "length qs \<le> length cs"
      by (auto simp: starts_with_iff)
    then have "count_from p (length qs) cs = count_from p 0 (drop (length qs) cs)"
      by (rule count_from_skip)
    with True p \<open>i = 0\<close> show ?thesis
      by (simp add: count_matches_def)
  next
    case False
    with Cons.prems obtain j where "find_sub p cs = Some j" "i = Suc j" by auto
    with Cons.IH False show ?thesis by (simp add: count_matches_def)
  qed
qed

lemma replace_first_split:
  "find_sub p s = Some i \<Longrightarrow>
     s = take i s @ p @ drop (i + length p) s \<and>
     replace_first p r s = take i s @ r @ drop (i + length p) s"
  by (simp add: replace_first_def find_sub_Some)

lemma replace_none: "p \<noteq> [] \<Longrightarrow> \<not> contains s p \<Longrightarrow> str_replace p r s = s"
proof (induction s)
  case Nil
  then show ?case by (simp add: str_replace_def)
next
  case (Cons c cs)
  then show ?case by (auto simp: str_replace_def contains_def split: if_splits)
qed


subsection \<open>Trimming\<close>

text \<open>The UTF-8 encodings of the code points with the \<open>White_Space\<close> property.\<close>

definition ws_encodings :: "string list" where
  "ws_encodings =
     [[CHR 0x20], [CHR 0x09], [CHR 0x0A], [CHR 0x0B], [CHR 0x0C], [CHR 0x0D],
      [CHR 0xC2, CHR 0x85], [CHR 0xC2, CHR 0xA0], [CHR 0xE1, CHR 0x9A, CHR 0x80]] @
     map (\<lambda>n. [CHR 0xE2, CHR 0x80, char_of n]) [0x80..<0x8B] @
     [[CHR 0xE2, CHR 0x80, CHR 0xA8], [CHR 0xE2, CHR 0x80, CHR 0xA9],
      [CHR 0xE2, CHR 0x80, CHR 0xAF], [CHR 0xE2, CHR 0x81, CHR 0x9F],
      [CHR 0xE3, CHR 0x80, CHR 0x80]]"

fun strip_any :: "string list \<Rightarrow> string \<Rightarrow> string option" where
  "strip_any [] s = None"
| "strip_any (e # es) s = (if e = [] then strip_any es s else
     (case strip_prefix e s of Some r \<Rightarrow> Some r | None \<Rightarrow> strip_any es s))"

lemma strip_any_Some: "strip_any es s = Some r \<Longrightarrow> \<exists>e \<in> set es. e \<noteq> [] \<and> s = e @ r"
  by (induction es) (auto simp: strip_prefix_eq_Some split: if_splits option.splits)

lemma strip_any_None:
  "strip_any es s = None \<longleftrightarrow> (\<forall>e \<in> set es. e \<noteq> [] \<longrightarrow> \<not> starts_with s e)"
  by (induction es) (auto simp: starts_with_def split: option.splits)

function trim_with :: "string list \<Rightarrow> string \<Rightarrow> string" where
  "trim_with es s = (case strip_any es s of None \<Rightarrow> s | Some r \<Rightarrow> trim_with es r)"
  by pat_completeness auto
termination
  by (relation "measure (\<lambda>(es, s). length s)") (auto dest!: strip_any_Some)

declare trim_with.simps [simp del]

definition trim_start :: "string \<Rightarrow> string" where
  "trim_start s = trim_with ws_encodings s"

definition trim_end :: "string \<Rightarrow> string" where
  "trim_end s = rev (trim_with (map rev ws_encodings) (rev s))"

definition trim :: "string \<Rightarrow> string" where
  "trim s = trim_end (trim_start s)"

lemma trim_with_stop: "strip_any es (trim_with es s) = None"
proof (induction es s rule: trim_with.induct)
  case (1 es s)
  show ?case
    by (subst trim_with.simps) (use 1 in \<open>auto split: option.splits\<close>)
qed

lemma trim_with_suffix: "suffix (trim_with es s) s"
proof (induction es s rule: trim_with.induct)
  case (1 es s)
  show ?case
  proof (cases "strip_any es s")
    case None
    then show ?thesis by (subst trim_with.simps) simp
  next
    case (Some r)
    then obtain e where "s = e @ r" by (blast dest: strip_any_Some)
    then have "suffix r s" by (simp add: suffix_def)
    with 1 Some show ?thesis
      by (subst trim_with.simps) (auto intro: suffix_order.trans)
  qed
qed

lemma trim_with_id: "strip_any es s = None \<Longrightarrow> trim_with es s = s"
  by (subst trim_with.simps) simp

lemma trim_with_idem [simp]: "trim_with es (trim_with es s) = trim_with es s"
  by (simp add: trim_with_id trim_with_stop)

lemma trim_with_Nil [simp]: "trim_with es [] = []"
  using trim_with_suffix [of es "[]"] by simp

lemma trim_end_prefix: "prefix (trim_end s) s"
  using trim_with_suffix [of "map rev ws_encodings" "rev s"]
  by (simp add: trim_end_def suffix_to_prefix)

lemma trim_sublist: "\<exists>a b. s = a @ trim s @ b"
proof -
  have "suffix (trim_start s) s"
    by (simp add: trim_start_def trim_with_suffix)
  moreover have "prefix (trim s) (trim_start s)"
    by (simp add: trim_def trim_end_prefix)
  ultimately obtain a b where "s = a @ trim_start s" "trim_start s = trim s @ b"
    by (auto simp: suffix_def prefix_def)
  then have "s = a @ trim s @ b" by metis
  then show ?thesis by blast
qed

lemma length_trim: "length (trim s) \<le> length s"
proof -
  obtain a b where "s = a @ trim s @ b" using trim_sublist by blast
  then have "length s = length a + length (trim s) + length b"
    by (metis length_append add.assoc)
  then show ?thesis by simp
qed

lemma trim_start_trim: "trim_start (trim s) = trim s"
proof -
  have "strip_any ws_encodings (trim s) = None"
    unfolding strip_any_None
  proof (intro ballI impI notI)
    fix e assume e: "e \<in> set ws_encodings" "e \<noteq> []" "starts_with (trim s) e"
    have "prefix (trim s) (trim_start s)"
      by (simp add: trim_def trim_end_prefix)
    with e(3) have "starts_with (trim_start s) e"
      by (auto simp: starts_with_prefix intro: prefix_order.trans)
    with e(1,2) trim_with_stop [of ws_encodings s] show False
      by (auto simp: trim_start_def strip_any_None)
  qed
  then show ?thesis by (simp add: trim_start_def trim_with_id)
qed

lemma trim_idem [simp]: "trim (trim s) = trim s"
proof -
  have "trim_end (trim s) = trim s" by (simp add: trim_def trim_end_def)
  moreover have "trim (trim s) = trim_end (trim_start (trim s))" by (simp only: trim_def)
  ultimately show ?thesis by (simp add: trim_start_trim)
qed

lemma trim_Nil [simp]: "trim [] = []"
  by (simp add: trim_def trim_start_def trim_end_def)

text \<open>\<open>s.trim_end_matches('/')\<close>.\<close>

definition trim_end_slashes :: "string \<Rightarrow> string" where
  "trim_end_slashes s = rev (dropWhile (\<lambda>c. c = CHR ''/'') (rev s))"

text \<open>\<open>s.trim_end_matches('\n')\<close>.\<close>

definition trim_end_nl :: "string \<Rightarrow> string" where
  "trim_end_nl s = rev (dropWhile (\<lambda>c. c = CHR 0x0A) (rev s))"

lemma trim_end_nl_idem [simp]: "trim_end_nl (trim_end_nl s) = trim_end_nl s"
  by (simp add: trim_end_nl_def dropWhile_idem)

lemma trim_end_nl_no_nl: "s = [] \<or> last s \<noteq> CHR 0x0A \<Longrightarrow> trim_end_nl s = s"
  by (cases s rule: rev_cases) (auto simp: trim_end_nl_def)

lemma trim_end_nl_snoc [simp]: "trim_end_nl (s @ [CHR 0x0A]) = trim_end_nl s"
  by (simp add: trim_end_nl_def)

subsection \<open>Lines, joining\<close>

fun split_nl :: "string \<Rightarrow> string list" where
  "split_nl [] = [[]]"
| "split_nl (c # cs) =
     (if c = CHR 0x0A then [] # split_nl cs
      else (case split_nl cs of [] \<Rightarrow> [[c]] | l # ls \<Rightarrow> (c # l) # ls))"

lemma split_nl_ne [simp]: "split_nl s \<noteq> []"
  by (induction s) (auto split: list.splits)

lemma split_nl_no_nl: "CHR 0x0A \<notin> set l \<Longrightarrow> split_nl l = [l]"
  by (induction l) auto

lemma split_nl_cons:
  "CHR 0x0A \<notin> set l \<Longrightarrow> split_nl (l @ CHR 0x0A # s) = l # split_nl s"
  by (induction l) auto

definition strip_cr :: "string \<Rightarrow> string" where
  "strip_cr l = (if l \<noteq> [] \<and> last l = CHR 0x0D then butlast l else l)"

text \<open>
  \<open>str::lines\<close>: pieces between newlines, each newline-terminated one without its carriage
  return; a trailing newline opens no further line.
\<close>

definition str_lines :: "string \<Rightarrow> string list" where
  "str_lines s = (let ls = split_nl s in
     map strip_cr (butlast ls) @ (if last ls = [] then [] else [last ls]))"

definition line_ok :: "string \<Rightarrow> bool" where
  "line_ok l \<longleftrightarrow> CHR 0x0A \<notin> set l \<and> CHR 0x0D \<notin> set l"

definition unlines :: "string list \<Rightarrow> string" where
  "unlines ls = concat (map (\<lambda>l. l @ [CHR 0x0A]) ls)"

lemma unlines_simps [simp]:
  "unlines [] = []" "unlines (l # ls) = l @ CHR 0x0A # unlines ls"
  "unlines (as @ bs) = unlines as @ unlines bs"
  by (simp_all add: unlines_def)

lemma unlines_eq_Nil [simp]: "unlines ls = [] \<longleftrightarrow> ls = []"
  by (cases ls) auto

lemma split_nl_unlines:
  "\<forall>l \<in> set ls. CHR 0x0A \<notin> set l \<Longrightarrow> split_nl (unlines ls @ s) = ls @ split_nl s"
  by (induction ls) (auto simp: split_nl_cons)

lemma strip_cr_ok [simp]: "line_ok l \<Longrightarrow> strip_cr l = l"
  by (cases l rule: rev_cases) (auto simp: strip_cr_def line_ok_def)

lemma str_lines_unlines:
  assumes "\<forall>l \<in> set ls. line_ok l"
  shows "str_lines (unlines ls) = ls"
proof -
  have "split_nl (unlines ls) = ls @ [[]]"
    using assms split_nl_unlines [of ls "[]"] by (auto simp: line_ok_def)
  then show ?thesis
    using assms by (simp add: str_lines_def map_idI)
qed

fun str_join :: "string \<Rightarrow> string list \<Rightarrow> string" where
  "str_join sep [] = []"
| "str_join sep [x] = x"
| "str_join sep (x # y # ys) = x @ sep @ str_join sep (y # ys)"

lemma str_lines_join:
  assumes "\<forall>l \<in> set ls. line_ok l" "ls \<noteq> []" "last ls \<noteq> []"
  shows "str_lines (str_join [CHR 0x0A] ls) = ls"
proof -
  have split: "split_nl (str_join [CHR 0x0A] xs) = xs" if "\<forall>l \<in> set xs. line_ok l" "xs \<noteq> []" for xs
    using that
  proof (induction xs)
    case (Cons x xs)
    then show ?case
      by (cases xs) (auto simp: split_nl_no_nl split_nl_cons line_ok_def)
  qed simp
  have "map strip_cr (butlast ls) @ [last ls] = ls"
    using assms by (simp add: map_idI in_set_butlastD)
  then show ?thesis
    using assms split [of ls] by (simp add: str_lines_def)
qed

subsection \<open>Numbers, case, characters\<close>

fun nat_str :: "nat \<Rightarrow> string" where
  "nat_str n = (if n < 10 then [char_of (48 + n)] else nat_str (n div 10) @ [char_of (48 + n mod 10)])"

declare nat_str.simps [simp del]

lemma nat_str_ne [simp]: "nat_str n \<noteq> []"
  by (subst nat_str.simps) simp

lemma nat_str_snoc: "nat_str n = (if n < 10 then [] else nat_str (n div 10)) @ [char_of (48 + n mod 10)]"
  by (subst nat_str.simps) simp

lemma digit_char_inj:
  "x < 10 \<Longrightarrow> y < 10 \<Longrightarrow> (char_of (48 + x :: nat) :: char) = char_of (48 + y) \<longleftrightarrow> x = y"
  by (auto dest: arg_cong [where f = "of_char :: char \<Rightarrow> nat"])

lemma nat_str_inj: "nat_str a = nat_str b \<longleftrightarrow> a = b"
proof
  show "nat_str a = nat_str b \<Longrightarrow> a = b"
  proof (induction a arbitrary: b rule: less_induct)
    case (less a)
    let ?init = "\<lambda>n. if n < 10 then [] else nat_str (n div 10)"
    have "?init a @ [char_of (48 + a mod 10)] = ?init b @ [char_of (48 + b mod 10)]"
      using less.prems nat_str_snoc [of a] nat_str_snoc [of b] by simp
    then have init: "?init a = ?init b" and "(char_of (48 + a mod 10) :: char) = char_of (48 + b mod 10)"
      by (simp_all only: append1_eq_conv)
    then have "a mod 10 = b mod 10" by (simp add: digit_char_inj)
    moreover have "a div 10 = b div 10"
    proof (cases "a < 10")
      case True
      have "b < 10"
      proof (rule ccontr)
        assume "\<not> b < 10"
        with init [symmetric] True show False by simp
      qed
      with True show ?thesis by simp
    next
      case False
      with init have "\<not> b < 10" by (auto split: if_splits)
      with False init have "nat_str (a div 10) = nat_str (b div 10)" by simp
      from less.IH [OF _ this] False show ?thesis by simp
    qed
    ultimately show ?case by (metis div_mult_mod_eq)
  qed
qed simp

lemma nat_str_digits: "c \<in> set (nat_str n) \<Longrightarrow> 48 \<le> (of_char c :: nat) \<and> (of_char c :: nat) \<le> 57"
proof (induction n rule: less_induct)
  case (less n)
  have "48 \<le> (of_char (char_of (48 + n mod 10 :: nat) :: char) :: nat) \<and>
      (of_char (char_of (48 + n mod 10 :: nat) :: char) :: nat) \<le> 57"
    by simp
  moreover have "n div 10 < n \<and> c \<in> set (nat_str (n div 10)) \<or> c = char_of (48 + n mod 10)"
    using less.prems nat_str_snoc [of n] by (cases "n < 10") auto
  ultimately show ?case using less.IH by blast
qed

definition is_upper :: "char \<Rightarrow> bool" where
  "is_upper c \<longleftrightarrow> 65 \<le> (of_char c :: nat) \<and> (of_char c :: nat) \<le> 90"

definition lower_char :: "char \<Rightarrow> char" where
  "lower_char c = (if is_upper c then char_of (of_char c + 32 :: nat) else c)"

text \<open>
  \<open>str::to_lowercase\<close>, exact for the ASCII part of the result, which is all the crate looks at:
  besides the ASCII capitals only U+0130 and U+212A have a lower case with an ASCII character in
  it. Other letters beyond ASCII stay as they are here.
\<close>

fun to_lowercase :: "string \<Rightarrow> string" where
  "to_lowercase [] = []"
| "to_lowercase (c # cs) =
     (if starts_with (c # cs) [CHR 0xE2, CHR 0x84, CHR 0xAA] then CHR ''k'' # to_lowercase (drop 2 cs)
      else if starts_with (c # cs) [CHR 0xC4, CHR 0xB0]
        then CHR ''i'' # CHR 0xCC # CHR 0x87 # to_lowercase (drop 1 cs)
      else lower_char c # to_lowercase cs)"

lemma lower_char_idem [simp]: "lower_char (lower_char c) = lower_char c"
proof -
  have "\<not> is_upper (lower_char c)"
  proof (cases "is_upper c")
    case True
    then have "(of_char c :: nat) + 32 < 256" by (simp add: is_upper_def)
    then have "(of_char (char_of (of_char c + 32 :: nat)) :: nat) = of_char c + 32"
      by simp
    with True show ?thesis by (simp add: lower_char_def is_upper_def)
  qed (simp add: lower_char_def)
  then show ?thesis by (simp add: lower_char_def)
qed

lemma to_lowercase_ascii:
  "\<forall>c \<in> set s. (of_char c :: nat) < 128 \<Longrightarrow> to_lowercase s = map lower_char s"
  by (induction s) (auto simp: starts_with_iff)

lemma to_lowercase_eq_Nil [simp]: "to_lowercase s = [] \<longleftrightarrow> s = []"
  by (cases s) simp_all

definition is_ascii_alnum :: "char \<Rightarrow> bool" where
  "is_ascii_alnum c = (let n = (of_char c :: nat) in
     (48 \<le> n \<and> n \<le> 57) \<or> (65 \<le> n \<and> n \<le> 90) \<or> (97 \<le> n \<and> n \<le> 122))"

text \<open>A continuation byte of UTF-8; every other byte starts a character.\<close>

definition is_cont :: "char \<Rightarrow> bool" where
  "is_cont c \<longleftrightarrow> 128 \<le> (of_char c :: nat) \<and> (of_char c :: nat) < 192"

definition is_char_boundary :: "string \<Rightarrow> nat \<Rightarrow> bool" where
  "is_char_boundary s i \<longleftrightarrow> i = 0 \<or> i = length s \<or> (i < length s \<and> \<not> is_cont (s ! i))"

text \<open>\<open>s.chars().take(n).collect()\<close>, and the number of characters.\<close>

fun take_chars :: "nat \<Rightarrow> string \<Rightarrow> string" where
  "take_chars n [] = []"
| "take_chars n (c # cs) =
     (if is_cont c then c # take_chars n cs
      else (case n of 0 \<Rightarrow> [] | Suc m \<Rightarrow> c # take_chars m cs))"

definition char_count :: "string \<Rightarrow> nat" where
  "char_count s = length (filter (\<lambda>c. \<not> is_cont c) s)"

lemma take_chars_prefix: "prefix (take_chars n s) s"
  by (induction n s rule: take_chars.induct) (auto split: nat.splits)

lemma char_count_take_chars: "char_count (take_chars n s) \<le> n"
  by (induction n s rule: take_chars.induct) (auto simp: char_count_def split: nat.splits)

definition hex_digit :: "nat \<Rightarrow> char" where
  "hex_digit n = (if n < 10 then char_of (48 + n) else char_of (87 + n))"

text \<open>
  The \<open>Debug\<close> form of a string: quoted, with quotes, backslashes and ASCII control characters
  escaped. Rust also escapes non-printable characters beyond ASCII; those bytes stay as they
  are here.
\<close>

definition debug_char :: "char \<Rightarrow> string" where
  "debug_char c = (let n = (of_char c :: nat) in
     if c = CHR 0x22 then [CHR 0x5C, CHR 0x22]
     else if c = CHR 0x5C then [CHR 0x5C, CHR 0x5C]
     else if c = CHR 0x0A then [CHR 0x5C, CHR ''n'']
     else if c = CHR 0x0D then [CHR 0x5C, CHR ''r'']
     else if c = CHR 0x09 then [CHR 0x5C, CHR ''t'']
     else if c = CHR 0x00 then [CHR 0x5C, CHR ''0'']
     else if n < 16 then [CHR 0x5C, CHR ''u'', CHR ''{'', hex_digit n, CHR ''}'']
     else if n < 32 \<or> n = 127
       then [CHR 0x5C, CHR ''u'', CHR ''{'', hex_digit (n div 16), hex_digit (n mod 16), CHR ''}'']
     else [c])"

definition debug_str :: "string \<Rightarrow> string" where
  "debug_str s = [CHR 0x22] @ concat (map debug_char s) @ [CHR 0x22]"

definition quoted :: "string \<Rightarrow> string" where
  "quoted s = CHR 0x27 # s @ [CHR 0x27]"

definition int_str :: "int \<Rightarrow> string" where
  "int_str n = (if n < 0 then CHR ''-'' # nat_str (nat (- n)) else nat_str (nat n))"

definition bool_str :: "bool \<Rightarrow> string" where
  "bool_str b = (if b then ''true'' else ''false'')"

end
