(* ===== verification/RustMap.thy ===== *)
theory RustMap
  imports Prelude
begin

text \<open>
  The map interface the crate's components use: the entry API
  (\<open>*m.entry(k).or_default() \<dots>\<close>), lookup, and iteration. \<open>entry_map\<close> is what \<open>HashMap\<close> promises,
  \<open>ordered_map\<close> adds the key order of \<open>BTreeMap\<close>. Two clients are defined over the interface:
  counting occurrences and bucketing positions. Their laws are proved once in the locale, and
  both providers (an insertion-ordered and a key-ordered association list) interpret it.
\<close>

subsection \<open>Clients of the interface\<close>

text \<open>\<open>for x in xs { *m.entry(x).or_insert(0) += 1 }\<close>\<close>

definition tally :: "('k \<Rightarrow> (nat option \<Rightarrow> nat) \<Rightarrow> 'm \<Rightarrow> 'm) \<Rightarrow> 'k list \<Rightarrow> 'm \<Rightarrow> 'm" where
  "tally upd xs m = foldl (\<lambda>m x. upd x (\<lambda>ov. Suc (unwrap_or 0 ov)) m) m xs"

text \<open>\<open>for (v, k) in \<dots> { m.entry(k).or_default().push(v) }\<close>\<close>

definition bucket_all ::
  "('k \<Rightarrow> ('v list option \<Rightarrow> 'v list) \<Rightarrow> 'm \<Rightarrow> 'm) \<Rightarrow> ('v \<times> 'k) list \<Rightarrow> 'm \<Rightarrow> 'm" where
  "bucket_all upd xs m = foldl (\<lambda>m (v, k). upd k (\<lambda>ov. unwrap_or [] ov @ [v]) m) m xs"

text \<open>\<open>for (i, k) in \<dots> { m.entry(k).or_insert(i) }\<close>\<close>

definition first_insert ::
  "('k \<Rightarrow> ('v option \<Rightarrow> 'v) \<Rightarrow> 'm \<Rightarrow> 'm) \<Rightarrow> ('v \<times> 'k) list \<Rightarrow> 'm \<Rightarrow> 'm" where
  "first_insert upd xs m = foldl (\<lambda>m (v, k). upd k (unwrap_or v) m) m xs"

lemma tally_simps [simp]:
  "tally upd [] m = m"
  "tally upd (x # xs) m = tally upd xs (upd x (\<lambda>ov. Suc (unwrap_or 0 ov)) m)"
  by (simp_all add: tally_def)

lemma bucket_all_simps [simp]:
  "bucket_all upd [] m = m"
  "bucket_all upd ((v, k) # xs) m = bucket_all upd xs (upd k (\<lambda>ov. unwrap_or [] ov @ [v]) m)"
  by (simp_all add: bucket_all_def)

lemma first_insert_simps [simp]:
  "first_insert upd [] m = m"
  "first_insert upd ((v, k) # xs) m = first_insert upd xs (upd k (unwrap_or v) m)"
  by (simp_all add: first_insert_def)

subsection \<open>The interface\<close>

locale entry_map =
  fixes emp :: 'm
    and upd :: "'k \<Rightarrow> ('v option \<Rightarrow> 'v) \<Rightarrow> 'm \<Rightarrow> 'm"
    and look :: "'m \<Rightarrow> 'k \<Rightarrow> 'v option"
    and entries :: "'m \<Rightarrow> ('k \<times> 'v) list"
    and inv :: "'m \<Rightarrow> bool"
  assumes inv_emp: "inv emp"
    and look_emp: "look emp k = None"
    and inv_upd: "inv m \<Longrightarrow> inv (upd k f m)"
    and look_upd: "inv m \<Longrightarrow> look (upd k f m) k' = (if k' = k then Some (f (look m k)) else look m k')"
    and look_entries: "inv m \<Longrightarrow> map_of (entries m) = look m"
    and distinct_entries: "inv m \<Longrightarrow> distinct (map fst (entries m))"
begin

lemma entries_iff: "inv m \<Longrightarrow> (k, v) \<in> set (entries m) \<longleftrightarrow> look m k = Some v"
  by (metis look_entries distinct_entries map_of_eq_Some_iff)

lemma keys_iff: "inv m \<Longrightarrow> k \<in> fst ` set (entries m) \<longleftrightarrow> look m k \<noteq> None"
  by (simp add: dom_map_of_conv_image_fst [symmetric] look_entries dom_def)

lemma inv_foldl:
  assumes "inv m" "\<And>m x. inv m \<Longrightarrow> inv (g m x)"
  shows "inv (foldl g m xs)"
  using assms(1) by (induction xs arbitrary: m) (auto intro: assms(2))

end

locale counting_map = entry_map emp upd look entries inv
  for emp :: 'm and upd :: "'k \<Rightarrow> (nat option \<Rightarrow> nat) \<Rightarrow> 'm \<Rightarrow> 'm" and look entries inv
begin

lemma inv_tally: "inv m \<Longrightarrow> inv (tally upd xs m)"
  unfolding tally_def by (rule inv_foldl) (auto intro: inv_upd)

lemma look_tally:
  "inv m \<Longrightarrow> look (tally upd xs m) k =
     (if k \<in> set xs then Some (unwrap_or 0 (look m k) + count_list xs k) else look m k)"
proof (induction xs arbitrary: m)
  case Nil
  then show ?case by simp
next
  case (Cons x xs)
  then show ?case
    by (auto simp: inv_upd look_upd count_notin)
qed

lemma tally_entries:
  "(k, n) \<in> set (entries (tally upd xs emp)) \<longleftrightarrow> k \<in> set xs \<and> n = count_list xs k"
  by (auto simp: entries_iff inv_tally inv_emp look_tally look_emp)

lemma tally_keys: "fst ` set (entries (tally upd xs emp)) = set xs"
  by (rule set_eqI) (simp add: keys_iff inv_tally inv_emp look_tally look_emp)

end

locale bucket_map = entry_map emp upd look entries inv
  for emp :: 'm and upd :: "'k \<Rightarrow> ('v list option \<Rightarrow> 'v list) \<Rightarrow> 'm \<Rightarrow> 'm" and look entries inv
begin

lemma inv_bucket_all: "inv m \<Longrightarrow> inv (bucket_all upd xs m)"
  unfolding bucket_all_def by (rule inv_foldl) (auto intro: inv_upd)

lemma look_bucket_all:
  "inv m \<Longrightarrow> look (bucket_all upd xs m) k =
     (if k \<in> snd ` set xs
      then Some (unwrap_or [] (look m k) @ map fst (filter (\<lambda>p. snd p = k) xs))
      else look m k)"
proof (induction xs arbitrary: m)
  case Nil
  then show ?case by simp
next
  case (Cons x xs)
  obtain v k' where x: "x = (v, k')" by (cases x)
  have "filter (\<lambda>p. snd p = k') xs = []" if "k' \<notin> snd ` set xs"
    using that by (auto simp: filter_empty_conv image_iff)
  with Cons x show ?case
    by (auto simp: inv_upd look_upd)
qed

lemma bucket_entries:
  "(k, vs) \<in> set (entries (bucket_all upd xs emp)) \<longleftrightarrow>
     k \<in> snd ` set xs \<and> vs = map fst (filter (\<lambda>p. snd p = k) xs)"
  by (auto simp: entries_iff inv_bucket_all inv_emp look_bucket_all look_emp)

lemma bucket_keys: "fst ` set (entries (bucket_all upd xs emp)) = snd ` set xs"
  by (rule set_eqI) (simp add: keys_iff inv_bucket_all inv_emp look_bucket_all look_emp)

end

locale ordered_map = entry_map emp upd look entries inv
  for emp :: 'm and upd :: "'k::linorder \<Rightarrow> ('v option \<Rightarrow> 'v) \<Rightarrow> 'm \<Rightarrow> 'm" and look entries inv +
  assumes sorted_entries: "inv m \<Longrightarrow> sorted (map fst (entries m))"
begin

text \<open>The first entry with a property, in iteration order, has the least key with it.\<close>

lemma find_least:
  assumes "inv m" "List.find (\<lambda>(k, v). P k v) (entries m) = Some (k, v)"
    and "(k', v') \<in> set (entries m)" "P k' v'"
  shows "k \<le> k'"
proof -
  obtain i where i: "i < length (entries m)" "(k, v) = entries m ! i"
      "\<forall>j < i. \<not> (case entries m ! j of (k, v) \<Rightarrow> P k v)"
    using assms(2) unfolding find_Some_iff by blast
  obtain j where j: "j < length (entries m)" "entries m ! j = (k', v')"
    using assms(3) by (auto simp: in_set_conv_nth)
  with i(3) assms(4) have "i \<le> j" by (metis (mono_tags, lifting) case_prod_conv not_le)
  with sorted_entries [OF assms(1)] i(1,2) j have "map fst (entries m) ! i \<le> map fst (entries m) ! j"
    by (intro sorted_nth_mono) auto
  with i(1) j show ?thesis by (simp flip: i(2))
qed

end

subsection \<open>\<open>BTreeMap\<close>: an association list kept in key order\<close>

fun bt_upd :: "'k::linorder \<Rightarrow> ('v option \<Rightarrow> 'v) \<Rightarrow> ('k \<times> 'v) list \<Rightarrow> ('k \<times> 'v) list" where
  "bt_upd k f [] = [(k, f None)]"
| "bt_upd k f ((a, b) # ps) =
     (if k < a then (k, f None) # (a, b) # ps
      else if k = a then (a, f (Some b)) # ps
      else (a, b) # bt_upd k f ps)"

definition bt_inv :: "('k::linorder \<times> 'v) list \<Rightarrow> bool" where
  "bt_inv ps \<longleftrightarrow> sorted_wrt (<) (map fst ps)"

lemma bt_inv_facts:
  "bt_inv []" "bt_inv ps \<Longrightarrow> distinct (map fst ps)" "bt_inv ps \<Longrightarrow> sorted (map fst ps)"
  by (simp_all add: bt_inv_def strict_sorted_iff)

lemma bt_upd_keys: "fst ` set (bt_upd k f ps) = insert k (fst ` set ps)"
  by (induction k f ps rule: bt_upd.induct) auto

lemma bt_inv_upd: "bt_inv ps \<Longrightarrow> bt_inv (bt_upd k f ps)"
proof (induction k f ps rule: bt_upd.induct)
  case (1 k f)
  then show ?case by (simp add: bt_inv_def)
next
  case (2 k f a b ps)
  have keys: "\<And>x. x \<in> set (bt_upd k f ps) \<Longrightarrow> fst x = k \<or> fst x \<in> fst ` set ps"
    using bt_upd_keys [of k f ps] by (metis image_eqI insertE)
  from 2 show ?case
    by (force simp: bt_inv_def dest!: keys)
qed

lemma bt_map_of_upd:
  "bt_inv ps \<Longrightarrow> map_of (bt_upd k f ps) k' = (if k' = k then Some (f (map_of ps k)) else map_of ps k')"
proof (induction k f ps rule: bt_upd.induct)
  case (1 k f)
  then show ?case by simp
next
  case (2 k f a b ps)
  have "map_of ps k = None" if "k < a"
    using 2(2) that by (fastforce simp: bt_inv_def map_of_eq_None_iff)
  with 2 show ?case
    by (auto simp: bt_inv_def)
qed

interpretation bt: ordered_map "[]" bt_upd map_of "\<lambda>m. m" bt_inv
  by unfold_locales (simp_all add: bt_inv_upd bt_map_of_upd bt_inv_facts)

interpretation bt_count: counting_map "[]" bt_upd map_of "\<lambda>m. m" bt_inv ..

interpretation bt_bucket: bucket_map "[]" bt_upd map_of "\<lambda>m. m" bt_inv ..

subsection \<open>\<open>HashMap\<close>: an association list in insertion order\<close>

text \<open>
  The iteration order of a \<open>HashMap\<close> is unspecified. The model keeps the entries in insertion
  order; a function that iterates over one takes the order as an argument.
\<close>

fun hm_upd :: "'k \<Rightarrow> ('v option \<Rightarrow> 'v) \<Rightarrow> ('k \<times> 'v) list \<Rightarrow> ('k \<times> 'v) list" where
  "hm_upd k f [] = [(k, f None)]"
| "hm_upd k f ((a, b) # ps) = (if k = a then (a, f (Some b)) # ps else (a, b) # hm_upd k f ps)"

definition hm_inv :: "('k \<times> 'v) list \<Rightarrow> bool" where
  "hm_inv ps \<longleftrightarrow> distinct (map fst ps)"

lemma hm_inv_facts: "hm_inv []" "hm_inv ps \<Longrightarrow> distinct (map fst ps)"
  by (simp_all add: hm_inv_def)

lemma hm_upd_keys: "fst ` set (hm_upd k f ps) = insert k (fst ` set ps)"
  by (induction k f ps rule: hm_upd.induct) auto

lemma hm_inv_upd: "hm_inv ps \<Longrightarrow> hm_inv (hm_upd k f ps)"
proof (induction k f ps rule: hm_upd.induct)
  case (2 k f a b ps)
  have "a \<notin> fst ` set (hm_upd k f ps)" if "k \<noteq> a"
    using 2(2) that unfolding hm_upd_keys by (auto simp: hm_inv_def)
  with 2 show ?case by (auto simp: hm_inv_def)
qed (simp add: hm_inv_def)

lemma hm_map_of_upd:
  "map_of (hm_upd k f ps) k' = (if k' = k then Some (f (map_of ps k)) else map_of ps k')"
  by (induction k f ps rule: hm_upd.induct) auto

interpretation hm: entry_map "[]" hm_upd map_of "\<lambda>m. m" hm_inv
  by unfold_locales (simp_all add: hm_inv_upd hm_map_of_upd hm_inv_facts)

interpretation hm_count: counting_map "[]" hm_upd map_of "\<lambda>m. m" hm_inv ..

end
