(* ===== verification/Family.thy ===== *)
theory Family
  imports RustStr RustMap "HOL-Library.List_Lexorder" "HOL-Library.Char_ord"
begin

text \<open>
  \<open>src/family.rs\<close>: the \<open>Family\<close> enum with its derived order, the lookup of a backend
  identifier, and the cross-family check over a \<open>BTreeMap\<close> of counts.
\<close>

datatype family = Anthropic | Google | OpenAI | Zhipu | Local | Other string

subsection \<open>The derived order\<close>

text \<open>\<open>derive(PartialOrd, Ord)\<close>: variants in declaration order, \<open>Other\<close> by its payload.\<close>

fun family_rank :: "family \<Rightarrow> nat" where
  "family_rank Anthropic = 0"
| "family_rank Google = 1"
| "family_rank OpenAI = 2"
| "family_rank Zhipu = 3"
| "family_rank Local = 4"
| "family_rank (Other _) = 5"

fun family_payload :: "family \<Rightarrow> string" where
  "family_payload (Other s) = s"
| "family_payload _ = []"

lemma family_eqI: "family_rank a = family_rank b \<Longrightarrow> family_payload a = family_payload b \<Longrightarrow> a = b"
  by (cases a; cases b) simp_all

instantiation family :: linorder
begin

definition less_eq_family :: "family \<Rightarrow> family \<Rightarrow> bool" where
  "less_eq_family a b \<longleftrightarrow> family_rank a < family_rank b \<or>
     (family_rank a = family_rank b \<and> family_payload a \<le> family_payload b)"

definition less_family :: "family \<Rightarrow> family \<Rightarrow> bool" where
  "less_family a b \<longleftrightarrow> family_rank a < family_rank b \<or>
     (family_rank a = family_rank b \<and> family_payload a < family_payload b)"

instance
proof
  fix x y z :: family
  show "(x < y) = (x \<le> y \<and> \<not> y \<le> x)"
    by (auto simp: less_eq_family_def less_family_def less_le_not_le)
  show "x \<le> x" by (simp add: less_eq_family_def)
  show "x \<le> y \<Longrightarrow> y \<le> z \<Longrightarrow> x \<le> z"
    by (auto simp: less_eq_family_def intro: order_trans)
  show "x \<le> y \<Longrightarrow> y \<le> x \<Longrightarrow> x = y"
    by (auto simp: less_eq_family_def intro: family_eqI)
  show "x \<le> y \<or> y \<le> x"
    by (auto simp: less_eq_family_def)
qed

end

subsection \<open>Labels and lookup\<close>

fun family_str :: "family \<Rightarrow> string" where
  "family_str Anthropic = ''anthropic''"
| "family_str Google = ''google''"
| "family_str OpenAI = ''openai''"
| "family_str Zhipu = ''zhipu''"
| "family_str Local = ''local''"
| "family_str (Other _) = ''other''"

definition family_of_suffix :: "string \<Rightarrow> family" where
  "family_of_suffix token =
     (if token = ''openai'' then OpenAI
      else if token = ''anthropic'' then Anthropic
      else if token = ''google'' \<or> token = ''gemini'' then Google
      else if token = ''zhipu'' then Zhipu
      else if token = ''local'' \<or> token = ''ollama'' then Local
      else Other token)"

text \<open>The identifier table, after the two prefixes have been looked at.\<close>

definition family_of_plain :: "string \<Rightarrow> family" where
  "family_of_plain backend_id =
     (if backend_id = ''claude'' then Anthropic
      else if backend_id = ''gemini'' then Google
      else if backend_id = ''openai'' \<or> backend_id = ''codex'' then OpenAI
      else if backend_id = ''zhipu'' then Zhipu
      else if backend_id = ''ollama'' then Local
      else if backend_id = ''bedrock'' then Other ''bedrock''
      else if backend_id = ''tensorzero'' then Other ''tensorzero''
      else Other backend_id)"

definition family_of_loker :: "string \<Rightarrow> family option" where
  "family_of_loker backend_id =
     (case strip_prefix ''loker_'' backend_id of
        None \<Rightarrow> None
      | Some suff \<Rightarrow> (case rfind_char (CHR ''_'') suff of
            None \<Rightarrow> None
          | Some pos \<Rightarrow> Some (family_of_suffix (drop (pos + 1) suff))))"

function family_of :: "string \<Rightarrow> family" where
  "family_of backend_id =
     (case strip_prefix ''tensorzero/'' backend_id of
        Some suff \<Rightarrow> family_of suff
      | None \<Rightarrow> (case family_of_loker backend_id of
            Some f \<Rightarrow> f
          | None \<Rightarrow> family_of_plain backend_id))"
  by pat_completeness auto
termination
  by (relation "measure length") (auto simp: strip_prefix_eq_Some)

declare family_of.simps [simp del]

lemma family_of_gateway: "family_of (''tensorzero/'' @ s) = family_of s"
  by (subst family_of.simps) (simp only: strip_prefix_append option.case)

lemma family_of_no_gateway:
  "strip_prefix ''tensorzero/'' s = None \<Longrightarrow>
     family_of s = (case family_of_loker s of Some f \<Rightarrow> f | None \<Rightarrow> family_of_plain s)"
  by (subst family_of.simps) simp

lemma family_of_loker_token:
  assumes "CHR ''_'' \<notin> set tok"
  shows "family_of (''loker_'' @ purpose @ ''_'' @ tok) = family_of_suffix tok"
proof -
  have "strip_prefix ''tensorzero/'' (''loker_'' @ purpose @ ''_'' @ tok) = None"
    by simp
  moreover have "family_of_loker (''loker_'' @ purpose @ ''_'' @ tok) = Some (family_of_suffix tok)"
    using rfind_char_append [OF assms, of purpose] by (simp add: family_of_loker_def)
  ultimately show ?thesis by (simp add: family_of_no_gateway)
qed

subsection \<open>Cross-family enforcement\<close>

datatype phase_error =
    FamilyOverlap family nat
  | AggregatorContract string
  | QuorumLost nat nat
  | AggregatorRejected string
  | JudgeUnavailable string
  | ArtefactSchemaMismatch string

text \<open>The loop over the counts returns at the first family, in key order, seen twice.\<close>

fun first_overlap :: "(family \<times> nat) list \<Rightarrow> (family \<times> nat) option" where
  "first_overlap [] = None"
| "first_overlap ((f, n) # rest) = (if n > 1 then Some (f, n) else first_overlap rest)"

definition family_counts :: "string list \<Rightarrow> (family \<times> nat) list" where
  "family_counts targets = tally bt_upd (map family_of targets) []"

definition enforce_cross_family :: "string list \<Rightarrow> (phase_error, unit) result" where
  "enforce_cross_family targets =
     (case first_overlap (family_counts targets) of
        Some (f, n) \<Rightarrow> Inl (FamilyOverlap f n)
      | None \<Rightarrow> Inr ())"

lemma first_overlap_find: "first_overlap m = List.find (\<lambda>(f, n). n > 1) m"
  by (induction m rule: first_overlap.induct) auto

lemma count_list_le_1: "(\<forall>x. count_list xs x \<le> 1) \<longleftrightarrow> distinct xs"
proof (induction xs)
  case Nil
  then show ?case by simp
next
  case (Cons a xs)
  have "(\<forall>x. count_list (a # xs) x \<le> 1) \<longleftrightarrow> a \<notin> set xs \<and> (\<forall>x. count_list xs x \<le> 1)"
  proof
    assume le: "\<forall>x. count_list (a # xs) x \<le> 1"
    then have "count_list (a # xs) a \<le> 1" ..
    then have "a \<notin> set xs" by (simp add: count_list_0_iff)
    moreover have "count_list xs x \<le> 1" for x
      using le [rule_format, of x] by (simp split: if_splits)
    ultimately show "a \<notin> set xs \<and> (\<forall>x. count_list xs x \<le> 1)" by blast
  qed (simp add: count_notin)
  with Cons show ?case by simp
qed

lemma count_list_gt_1: "(\<exists>x. count_list xs x > 1) \<longleftrightarrow> \<not> distinct xs"
  unfolding count_list_le_1 [symmetric] by (simp add: not_le)

lemma family_counts_iff:
  "(f, n) \<in> set (family_counts ts) \<longleftrightarrow> f \<in> family_of ` set ts \<and> n = count_list (map family_of ts) f"
  by (auto simp: family_counts_def bt_count.tally_entries)

lemma enforce_cross_family_Inl:
  "enforce_cross_family ts = Inl e \<longleftrightarrow>
     (\<exists>f n. e = FamilyOverlap f n \<and> List.find (\<lambda>(f, n). n > 1) (family_counts ts) = Some (f, n))"
  by (auto simp: enforce_cross_family_def first_overlap_find split: option.splits)

text \<open>
  The cross-family check accepts a list of targets exactly when no two of them resolve to
  the same family.
\<close>

theorem enforce_cross_family_ok_iff:
  "enforce_cross_family ts = Inr () \<longleftrightarrow> distinct (map family_of ts)"
proof -
  have "enforce_cross_family ts = Inr () \<longleftrightarrow> (\<forall>(f, n) \<in> set (family_counts ts). n \<le> 1)"
    unfolding enforce_cross_family_def first_overlap_find
    by (fastforce simp: list_find_None not_less split: option.splits dest: list_find_Some)
  also have "\<dots> \<longleftrightarrow> (\<forall>f. count_list (map family_of ts) f \<le> 1)"
  proof
    assume le: "\<forall>(f, n) \<in> set (family_counts ts). n \<le> 1"
    show "\<forall>f. count_list (map family_of ts) f \<le> 1"
    proof
      fix f
      show "count_list (map family_of ts) f \<le> 1"
        using le family_counts_iff [of f "count_list (map family_of ts) f" ts]
        by (cases "f \<in> family_of ` set ts") (auto simp: count_notin)
    qed
  qed (auto simp: family_counts_iff)
  finally show ?thesis by (simp only: count_list_le_1)
qed

text \<open>
  When the check rejects, the reported family is the least one (in the derived order of the
  enum) that occurs more than once, with its exact number of targets: the error does not depend
  on the order of the targets.
\<close>

theorem enforce_cross_family_least:
  assumes "enforce_cross_family ts = Inl (FamilyOverlap f n)"
  shows "n = count_list (map family_of ts) f \<and> n > 1 \<and>
    (\<forall>g. count_list (map family_of ts) g > 1 \<longrightarrow> f \<le> g)"
proof -
  have find: "List.find (\<lambda>(f, n). n > 1) (family_counts ts) = Some (f, n)"
    using assms by (auto simp: enforce_cross_family_Inl)
  then have "(f, n) \<in> set (family_counts ts)" "n > 1"
    by (auto dest: list_find_Some)
  moreover have "f \<le> g" if "count_list (map family_of ts) g > 1" for g
  proof -
    have "g \<in> family_of ` set ts"
      using that count_notin [of g "map family_of ts"] by (cases "g \<in> family_of ` set ts") simp_all
    then have "(g, count_list (map family_of ts) g) \<in> set (family_counts ts)"
      by (simp add: family_counts_iff)
    moreover have "bt_inv (family_counts ts)"
      by (simp add: family_counts_def bt_count.inv_tally bt_inv_facts)
    ultimately show ?thesis
      using find that
      by (intro bt.find_least [where P = "\<lambda>_ n. n > 1" and m = "family_counts ts" and k' = g])
  qed
  ultimately show ?thesis by (auto simp: family_counts_iff)
qed

theorem enforce_cross_family_least_witness:
  "enforce_cross_family [''ollama'', ''codex'', ''claude'', ''openai'', ''ollama''] = Inl (FamilyOverlap OpenAI 2)
   \<and> count_list (map family_of [''ollama'', ''codex'', ''claude'', ''openai'', ''ollama'']) OpenAI = 2"
proof -
  have h: "enforce_cross_family [''ollama'', ''codex'', ''claude'', ''openai'', ''ollama''] =
      Inl (FamilyOverlap OpenAI 2)"
    by (simp add: enforce_cross_family_def family_counts_def family_of_no_gateway family_of_loker_def
        family_of_plain_def less_family_def)
  from enforce_cross_family_least [OF h, THEN conjunct1] h show ?thesis by simp
qed

text \<open>
  The gateway prefix is transparent, however often it is repeated, and a gateway function
  name \<open>loker_<purpose>_<family>\<close> resolves by its last underscore-separated token whatever the
  purpose contains.
\<close>

theorem family_of_gateway_routing:
  "family_of (concat (replicate n ''tensorzero/'') @ s) = family_of s \<and>
   (CHR ''_'' \<in> set tok \<or>
    family_of (concat (replicate n ''tensorzero/'') @ ''loker_'' @ purpose @ ''_'' @ tok) =
      family_of_suffix tok)"
proof -
  have *: "family_of (concat (replicate n ''tensorzero/'') @ t) = family_of t" for t
    by (induction n) (simp_all only: replicate.simps concat.simps append_assoc append_Nil family_of_gateway)
  show ?thesis using family_of_loker_token [of tok purpose] by (simp only: *) blast
qed

end
