(* ===== verification/EditParser.thy ===== *)
theory EditParser
  imports RustStr
begin

text \<open>
  \<open>src/apply_verify/edit_parser.rs\<close>: LLM output to a list of file edits. Code-block extraction,
  format detection, and the three parsers (unified diff, JSON, full file). The JSON reader
  (\<open>serde_json\<close>) is a parameter: the two \<open>from_str\<close> calls of the source.
\<close>

record file_edit =
  fe_file :: string
  fe_old :: string
  fe_new :: string

datatype edit_format = UnifiedDiff | JsonOldNew | FullFile

record parsed_edits =
  pe_edits :: "file_edit list"
  pe_format :: edit_format
  pe_summary :: "string option"

datatype edit_parse_error =
    NoContent
  | InputTooLarge
  | InvalidDiff string
  | InvalidJson string
  | InvalidFormat string
  | AmbiguousFormat string

definition MAX_INPUT_SIZE :: nat where
  "MAX_INPUT_SIZE = 1024 * 1024"

text \<open>The \<open>Display\<close> text of the errors (\<open>thiserror\<close> attributes).\<close>

fun edit_parse_error_str :: "edit_parse_error \<Rightarrow> string" where
  "edit_parse_error_str NoContent = ''no content to parse''"
| "edit_parse_error_str InputTooLarge =
     ''input exceeds maximum size of '' @ nat_str MAX_INPUT_SIZE @ '' bytes''"
| "edit_parse_error_str (InvalidDiff m) = ''invalid unified diff: '' @ m"
| "edit_parse_error_str (InvalidJson m) = ''invalid JSON edits: '' @ m"
| "edit_parse_error_str (InvalidFormat m) = ''invalid format: '' @ m"
| "edit_parse_error_str (AmbiguousFormat m) = ''ambiguous format: '' @ m"

record json_wrapper =
  jw_edits :: "file_edit list"
  jw_summary :: "string option"
  jw_message :: "string option"

record json_reader =
  read_wrapper :: "string \<Rightarrow> json_wrapper option"
  read_array :: "string \<Rightarrow> file_edit list option"

subsection \<open>Markdown code blocks and format detection\<close>

definition find_closing_fence :: "string \<Rightarrow> nat option" where
  "find_closing_fence s =
     (case find_sub (CHR 0x0A # ''```'') s of
        Some pos \<Rightarrow> Some pos
      | None \<Rightarrow> if starts_with s ''```'' then Some 0 else None)"

definition extract_code_block :: "string \<Rightarrow> string \<times> string option" where
  "extract_code_block input =
     (case find_sub ''```'' input of
        None \<Rightarrow> (input, None)
      | Some start \<Rightarrow>
          let after_backticks = drop (start + 3) input;
              (lang_hint, content_start) =
                (case find_char (CHR 0x0A) after_backticks of
                   Some nl \<Rightarrow> (let hint = trim (take nl after_backticks) in
                     (if hint = [] then None else Some hint, nl + 1))
                 | None \<Rightarrow> (None, 0));
              remaining = drop content_start after_backticks
          in (case find_closing_fence remaining of
                Some e \<Rightarrow> (take e remaining, lang_hint)
              | None \<Rightarrow> (input, None)))"

definition detect_format :: "string \<Rightarrow> string option \<Rightarrow> edit_format" where
  "detect_format content lang_hint =
     (let hint = map_option to_lowercase lang_hint in
      if hint = Some ''diff'' \<or> hint = Some ''patch'' then UnifiedDiff
      else if hint = Some ''json'' then JsonOldNew
      else if (contains content (CHR 0x0A # ''--- '') \<or> starts_with content ''--- '')
           \<and> (contains content (CHR 0x0A # ''+++ '') \<or> contains content (CHR 0x0A # ''@@ ''))
        then UnifiedDiff
      else if contains content (CHR 0x0A # ''@@ -'') \<or> starts_with content ''@@ -''
        then UnifiedDiff
      else if starts_with content ''{'' \<or> starts_with content ''['' then JsonOldNew
      else FullFile)"

subsection \<open>JSON edits\<close>

definition normalize_edits :: "file_edit list \<Rightarrow> file_edit list" where
  "normalize_edits es =
     map (\<lambda>e. e\<lparr>fe_old := trim_end_nl (fe_old e), fe_new := trim_end_nl (fe_new e)\<rparr>) es"

text \<open>
  The state of the scanner is whether it is inside a string and whether the previous character
  was a backslash. A control character is an ASCII one or one of U+0080 to U+009F, whose UTF-8
  form is the byte C2 and one byte from 80 to 9F.
\<close>

definition is_ascii_control :: "char \<Rightarrow> bool" where
  "is_ascii_control c \<longleftrightarrow> (of_char c :: nat) < 32 \<or> (of_char c :: nat) = 127"

definition is_c1_tail :: "char \<Rightarrow> bool" where
  "is_c1_tail c \<longleftrightarrow> 128 \<le> (of_char c :: nat) \<and> (of_char c :: nat) < 160"

definition unicode_escape :: "char \<Rightarrow> string" where
  "unicode_escape c = CHR 0x5C # ''u00'' @
     [hex_digit ((of_char c :: nat) div 16), hex_digit ((of_char c :: nat) mod 16)]"

fun sanitize_from :: "bool \<Rightarrow> bool \<Rightarrow> string \<Rightarrow> string" where
  "sanitize_from in_string bs [] = []"
| "sanitize_from False bs (c # cs) = c # sanitize_from (c = CHR 0x22) bs cs"
| "sanitize_from True True (c # cs) = c # sanitize_from True False cs"
| "sanitize_from True False (c # cs) =
     (if c = CHR 0x5C then c # sanitize_from True True cs
      else if c = CHR 0x22 then c # sanitize_from False False cs
      else if c = CHR 0x0A then CHR 0x5C # CHR ''n'' # sanitize_from True False cs
      else if c = CHR 0x09 then CHR 0x5C # CHR ''t'' # sanitize_from True False cs
      else if c = CHR 0x0D then CHR 0x5C # CHR ''r'' # sanitize_from True False cs
      else if is_ascii_control c then unicode_escape c @ sanitize_from True False cs
      else if c = CHR 0xC2 \<and> cs \<noteq> [] \<and> is_c1_tail (hd cs)
        then unicode_escape (hd cs) @ sanitize_from True False (tl cs)
      else c # sanitize_from True False cs)"

definition sanitize_json_strings :: "string \<Rightarrow> string" where
  "sanitize_json_strings input = sanitize_from False False input"

definition try_parse_json :: "json_reader \<Rightarrow> string \<Rightarrow> parsed_edits option" where
  "try_parse_json js c =
     or_else
       (case read_wrapper js c of
          Some w \<Rightarrow> if jw_edits w \<noteq> []
            then Some \<lparr>pe_edits = normalize_edits (jw_edits w), pe_format = JsonOldNew,
                       pe_summary = or_else (jw_summary w) (jw_message w)\<rparr>
            else None
        | None \<Rightarrow> None)
       (case read_array js c of
          Some edits \<Rightarrow> if edits \<noteq> []
            then Some \<lparr>pe_edits = normalize_edits edits, pe_format = JsonOldNew, pe_summary = None\<rparr>
            else None
        | None \<Rightarrow> None)"

definition parse_json_edits :: "json_reader \<Rightarrow> string \<Rightarrow> (edit_parse_error, parsed_edits) result" where
  "parse_json_edits js content =
     (case try_parse_json js content of
        Some r \<Rightarrow> Inr r
      | None \<Rightarrow> (case try_parse_json js (sanitize_json_strings content) of
            Some r \<Rightarrow> Inr r
          | None \<Rightarrow> Inl (InvalidJson ''could not parse as AgenticOutput or bare FileEdit array'')))"

subsection \<open>Unified diffs\<close>

definition extract_diff_path :: "string \<Rightarrow> string option" where
  "extract_diff_path line =
     (case or_else (strip_prefix ''--- '' line) (strip_prefix ''+++ '' line) of
        None \<Rightarrow> None
      | Some rest \<Rightarrow>
          let path = trim rest in
          if path = ''/dev/null'' then None
          else Some (unwrap_or path (or_else (strip_prefix ''a/'' path) (strip_prefix ''b/'' path))))"

definition hunk_stop :: "string \<Rightarrow> bool" where
  "hunk_stop line \<longleftrightarrow> starts_with line ''--- '' \<or> starts_with line ''@@ '' \<or> starts_with line ''diff ''"

definition push_line :: "string \<Rightarrow> string \<Rightarrow> string" where
  "push_line acc l = acc @ l @ [CHR 0x0A]"

text \<open>The loop over the lines of one hunk; the position \<open>i\<close> is the list of remaining lines.\<close>

fun diff_hunk :: "string list \<Rightarrow> string \<Rightarrow> string \<Rightarrow> string list \<times> string \<times> string" where
  "diff_hunk [] old new = ([], old, new)"
| "diff_hunk (l # ls) old new =
     (if hunk_stop l then (l # ls, old, new)
      else if l = (CHR 0x5C # '' No newline at end of file'') then diff_hunk ls old new
      else (case strip_prefix ''-'' l of Some s \<Rightarrow> diff_hunk ls (push_line old s) new
      | None \<Rightarrow> (case strip_prefix ''+'' l of Some s \<Rightarrow> diff_hunk ls old (push_line new s)
      | None \<Rightarrow> (case strip_prefix '' '' l of
            Some s \<Rightarrow> diff_hunk ls (push_line old s) (push_line new s)
          | None \<Rightarrow> diff_hunk ls (push_line old l) (push_line new l)))))"

lemma diff_hunk_length: "diff_hunk ls old new = (rest, o', n') \<Longrightarrow> length rest \<le> length ls"
  by (induction ls old new rule: diff_hunk.induct)
    (auto split: if_splits option.splits intro: le_SucI)

lemma diff_hunk_fst_length: "length (fst (diff_hunk ls old new)) \<le> length ls"
  using diff_hunk_length by (cases "diff_hunk ls old new") simp

text \<open>The loop over the hunks of one file.\<close>

function diff_hunks :: "string list \<Rightarrow> string \<Rightarrow> string \<Rightarrow> string list \<times> string \<times> string" where
  "diff_hunks [] old new = ([], old, new)"
| "diff_hunks (l # ls) old new =
     (if starts_with l ''@@ '' then
        (case diff_hunk ls old new of (rest, o', n') \<Rightarrow> diff_hunks rest o' n')
      else if starts_with l ''--- '' \<or> starts_with l ''diff '' then (l # ls, old, new)
      else diff_hunks ls old new)"
  by pat_completeness auto
termination
  by (relation "measure (\<lambda>(ls, _). length ls)")
    (auto simp: case_prod_beta le_imp_less_Suc diff_hunk_fst_length)

lemma diff_hunks_length: "diff_hunks ls old new = (rest, o', n') \<Longrightarrow> length rest \<le> length ls"
proof (induction ls old new rule: diff_hunks.induct)
  case (2 l ls old new)
  then show ?case
    by (auto split: if_splits prod.splits dest: diff_hunk_length intro: le_SucI)
      (meson diff_hunk_length le_SucI le_trans)
qed simp

lemma diff_hunks_fst_length: "length (fst (diff_hunks ls old new)) \<le> length ls"
  using diff_hunks_length by (cases "diff_hunks ls old new") simp

text \<open>The outer loop over file headers.\<close>

function diff_files :: "string list \<Rightarrow> file_edit list \<Rightarrow> (edit_parse_error, file_edit list) result" where
  "diff_files [] edits = Inr edits"
| "diff_files (l # ls) edits =
     (if starts_with l ''--- '' then
        (case ls of
           [] \<Rightarrow> Inl (InvalidDiff ''expected +++ header after ---'')
         | l2 # ls2 \<Rightarrow>
             if \<not> starts_with l2 ''+++ '' then Inl (InvalidDiff ''expected +++ header after ---'')
             else
               let file_path = unwrap_or (unwrap_or ''unknown'' (extract_diff_path l)) (extract_diff_path l2)
               in case diff_hunks ls2 [] [] of (rest, old, new) \<Rightarrow>
                 if old = [] \<and> new = []
                 then Inl (InvalidDiff (''no hunks found for file: '' @ file_path))
                 else diff_files rest
                   (edits @ [\<lparr>fe_file = file_path, fe_old = trim_end_nl old, fe_new = trim_end_nl new\<rparr>]))
      else diff_files ls edits)"
  by pat_completeness auto
termination
  by (relation "measure (\<lambda>(ls, _). length ls)")
    (auto simp: less_Suc_eq_le dest: diff_hunks_length [OF sym] intro: le_SucI)

definition parse_unified_diff :: "string \<Rightarrow> (edit_parse_error, parsed_edits) result" where
  "parse_unified_diff content =
     (case diff_files (str_lines content) [] of
        Inl e \<Rightarrow> Inl e
      | Inr edits \<Rightarrow>
          if edits = [] then Inl (InvalidDiff ''no file headers found in diff'')
          else Inr \<lparr>pe_edits = edits, pe_format = UnifiedDiff, pe_summary = None\<rparr>)"

subsection \<open>Full file content\<close>

definition full_file_header :: "string \<Rightarrow> string option" where
  "full_file_header line =
     or_else (strip_prefix ''File: '' line) (or_else (strip_prefix ''File:'' line)
       (or_else (strip_prefix ''file: '' line) (strip_prefix ''file:'' line)))"

definition full_file_path :: "string \<Rightarrow> (edit_parse_error, string) result" where
  "full_file_path line =
     (case full_file_header line of
        Some p \<Rightarrow> Inr (trim p)
      | None \<Rightarrow> (case strip_prefix ''--- '' line of
            Some p \<Rightarrow> Inr (unwrap_or (trim p) (strip_prefix ''a/'' (trim p)))
          | None \<Rightarrow> Inl (InvalidFormat
              ''full file content requires a 'File: path' or '--- a/path' header on the first line'')))"

definition parse_full_file :: "string \<Rightarrow> (edit_parse_error, parsed_edits) result" where
  "parse_full_file content =
     (case str_lines content of
        [] \<Rightarrow> Inl NoContent
      | first # rest \<Rightarrow>
          (case full_file_path first of
             Inl e \<Rightarrow> Inl e
           | Inr file_path \<Rightarrow>
               if file_path = [] then Inl (InvalidFormat ''file path is empty'')
               else Inr \<lparr>pe_edits = [\<lparr>fe_file = file_path, fe_old = [],
                                     fe_new = trim_end_nl (str_join [CHR 0x0A] rest)\<rparr>],
                         pe_format = FullFile, pe_summary = None\<rparr>))"

subsection \<open>The entry point\<close>

definition parse :: "json_reader \<Rightarrow> string \<Rightarrow> (edit_parse_error, parsed_edits) result" where
  "parse js input =
     (if length input > MAX_INPUT_SIZE then Inl InputTooLarge
      else
        let trimmed = trim (str_replace [CHR 0x0D, CHR 0x0A] [CHR 0x0A] input) in
        if trimmed = [] then Inl NoContent
        else
          let (content0, lang_hint) = extract_code_block trimmed;
              content = trim content0
          in if content = [] then Inl NoContent
             else case detect_format content lang_hint of
                 UnifiedDiff \<Rightarrow> parse_unified_diff content
               | JsonOldNew \<Rightarrow> parse_json_edits js content
               | FullFile \<Rightarrow> parse_full_file content)"


lemmas diff_line_defs = hunk_stop_def push_line_def

subsection \<open>Rendering a diff\<close>

text \<open>
  The specification side of the diff parser: a file change is a path and a list of hunks, a
  hunk a header tail and its lines, printed the way \<open>diff -u\<close> and \<open>git diff\<close> print them.
\<close>

datatype diff_line = Ctx string | Del string | Add string

record file_change =
  fc_path :: string
  fc_hunks :: "(string \<times> diff_line list) list"

fun render_line :: "diff_line \<Rightarrow> string" where
  "render_line (Ctx s) = CHR '' '' # s"
| "render_line (Del s) = CHR ''-'' # s"
| "render_line (Add s) = CHR ''+'' # s"

definition render_hunk :: "string \<times> diff_line list \<Rightarrow> string list" where
  "render_hunk h = (''@@ '' @ fst h) # map render_line (snd h)"

definition render_change :: "file_change \<Rightarrow> string list" where
  "render_change fc =
     (''--- a/'' @ fc_path fc) # (''+++ b/'' @ fc_path fc) # concat (map render_hunk (fc_hunks fc))"

fun old_part :: "diff_line \<Rightarrow> string list" where
  "old_part (Ctx s) = [s]" | "old_part (Del s) = [s]" | "old_part (Add s) = []"

fun new_part :: "diff_line \<Rightarrow> string list" where
  "new_part (Ctx s) = [s]" | "new_part (Del s) = []" | "new_part (Add s) = [s]"

definition change_lines :: "file_change \<Rightarrow> diff_line list" where
  "change_lines fc = concat (map snd (fc_hunks fc))"

definition change_edit :: "file_change \<Rightarrow> file_edit" where
  "change_edit fc =
     \<lparr>fe_file = fc_path fc,
      fe_old = trim_end_nl (unlines (concat (map old_part (change_lines fc)))),
      fe_new = trim_end_nl (unlines (concat (map new_part (change_lines fc))))\<rparr>"

text \<open>
  A removed line must not start with \<open>-- \<close>: printed, it would read as a file header. Such a
  diff is the subject of \<open>diff_dashed_removal_rejected\<close> below.
\<close>

fun line_wf :: "diff_line \<Rightarrow> bool" where
  "line_wf (Ctx s) = line_ok s"
| "line_wf (Del s) = (line_ok s \<and> \<not> starts_with s ''-- '')"
| "line_wf (Add s) = line_ok s"

definition change_wf :: "file_change \<Rightarrow> bool" where
  "change_wf fc \<longleftrightarrow> line_ok (fc_path fc) \<and> trim (''a/'' @ fc_path fc) = ''a/'' @ fc_path fc \<and>
     trim (''b/'' @ fc_path fc) = ''b/'' @ fc_path fc \<and>
     change_lines fc \<noteq> [] \<and> (\<forall>(h, ls) \<in> set (fc_hunks fc). line_ok h \<and> (\<forall>l \<in> set ls. line_wf l))"

lemma render_line_no_stop: "line_wf l \<Longrightarrow> \<not> hunk_stop (render_line l)"
  by (cases l) (simp_all add: hunk_stop_def)

lemma render_line_no_marker: "render_line l \<noteq> CHR 0x5C # s"
  by (cases l) simp_all

lemma diff_hunk_render:
  assumes "\<forall>l \<in> set ls. line_wf l"
  shows "diff_hunk (map render_line ls @ rest) old new =
    diff_hunk rest (old @ unlines (concat (map old_part ls))) (new @ unlines (concat (map new_part ls)))"
  using assms
proof (induction ls arbitrary: old new)
  case Nil
  then show ?case by simp
next
  case (Cons l ls)
  from Cons.prems have wf: "line_wf l" by simp
  show ?case
    using Cons.IH Cons.prems render_line_no_stop [OF wf]
    by (cases l) (simp_all add: push_line_def)
qed

lemma diff_hunk_at_stop: "rest = [] \<or> hunk_stop (hd rest) \<Longrightarrow> diff_hunk rest old new = (rest, old, new)"
  by (cases rest) auto

lemma render_hunk_Cons: "render_hunk (t, ls) @ tail = (''@@ '' @ t) # map render_line ls @ tail"
  by (simp add: render_hunk_def)

lemma diff_hunks_render:
  assumes "\<forall>(h, ls) \<in> set hs. \<forall>l \<in> set ls. line_wf l"
    and "rest = [] \<or> starts_with (hd rest) ''--- ''"
  shows "diff_hunks (concat (map render_hunk hs) @ rest) old new =
    (rest, old @ unlines (concat (map old_part (concat (map snd hs)))),
           new @ unlines (concat (map new_part (concat (map snd hs)))))"
  using assms(1)
proof (induction hs arbitrary: old new)
  case Nil
  then show ?case
    using assms(2) by (cases rest) (auto simp: starts_with_iff)
next
  case (Cons h hs)
  obtain t ls where h: "h = (t, ls)" by (cases h)
  let ?more = "concat (map render_hunk hs) @ rest"
  have stop: "?more = [] \<or> hunk_stop (hd ?more)"
    using assms(2) by (cases hs) (auto simp: hunk_stop_def render_hunk_def)
  show ?case
    using Cons h diff_hunk_at_stop [OF stop]
    by (simp add: render_hunk_Cons diff_hunk_render)
qed

lemma extract_diff_path_render:
  assumes "change_wf fc"
  shows "extract_diff_path (''+++ b/'' @ fc_path fc) = Some (fc_path fc)"
  using assms by (simp add: extract_diff_path_def change_wf_def Let_def)

lemma diff_files_render:
  assumes "\<forall>fc \<in> set fcs. change_wf fc"
  shows "diff_files (concat (map render_change fcs)) edits = Inr (edits @ map change_edit fcs)"
  using assms
proof (induction fcs arbitrary: edits)
  case Nil
  then show ?case by simp
next
  case (Cons fc fcs)
  let ?rest = "concat (map render_change fcs)"
  have wf: "change_wf fc" using Cons.prems by simp
  have rest: "?rest = [] \<or> starts_with (hd ?rest) ''--- ''"
    by (cases fcs) (simp_all add: render_change_def)
  have ne: "concat (map old_part (change_lines fc)) \<noteq> [] \<or> concat (map new_part (change_lines fc)) \<noteq> []"
    using wf by (cases "change_lines fc"; cases "hd (change_lines fc)") (auto simp: change_wf_def)
  have hunks: "diff_hunks (concat (map render_hunk (fc_hunks fc)) @ ?rest) [] [] =
      (?rest, unlines (concat (map old_part (change_lines fc))),
              unlines (concat (map new_part (change_lines fc))))"
    using wf rest by (subst diff_hunks_render) (auto simp: change_wf_def change_lines_def)
  have "diff_files (concat (map render_change (fc # fcs))) edits = diff_files ?rest (edits @ [change_edit fc])"
    using hunks ne extract_diff_path_render [OF wf]
    by (auto simp: render_change_def change_edit_def Let_def simp del: concat_eq_Nil_conv)
  then show ?case using Cons by simp
qed

lemma render_line_ok: "line_wf l \<Longrightarrow> line_ok (render_line l)"
  by (cases l) (auto simp: line_ok_def)

lemma render_change_ok: "change_wf fc \<Longrightarrow> l \<in> set (render_change fc) \<Longrightarrow> line_ok l"
  by (fastforce simp: render_change_def render_hunk_def change_wf_def line_ok_def
      dest: render_line_ok [unfolded line_ok_def])


subsection \<open>Properties\<close>

text \<open>
  C1: Parsing the printed form of any non-empty list of well-formed file changes gives back one
  edit per change, in order, whose old text is the context and removed lines and whose new text
  is the context and added lines, over any number of hunks per file.
\<close>

theorem unified_diff_roundtrip:
  assumes "fcs \<noteq> []" "\<forall>fc \<in> set fcs. change_wf fc"
  shows "parse_unified_diff (unlines (concat (map render_change fcs))) =
    Inr \<lparr>pe_edits = map change_edit fcs, pe_format = UnifiedDiff, pe_summary = None\<rparr>"
proof -
  have "\<forall>l \<in> set (concat (map render_change fcs)). line_ok l"
    using assms(2) render_change_ok by auto
  then have "str_lines (unlines (concat (map render_change fcs))) = concat (map render_change fcs)"
    by (rule str_lines_unlines)
  with assms show ?thesis
    by (simp add: parse_unified_diff_def diff_files_render)
qed

theorem unified_diff_roundtrip_witness:
  "let fcs = [\<lparr>fc_path = ''src/a.rs'',
        fc_hunks = [(''-1 +1 @@'', [Ctx ''fn a() {'', Del ''old();'', Add ''new();''])]\<rparr>,
      \<lparr>fc_path = ''b'', fc_hunks = [(''-3 +3 @@'', [Add ''x''])]\<rparr>]
   in parse_unified_diff (unlines (concat (map render_change fcs))) =
     Inr \<lparr>pe_edits = map change_edit fcs, pe_format = UnifiedDiff, pe_summary = None\<rparr>"
proof -
  let ?fcs = "[\<lparr>fc_path = ''src/a.rs'',
        fc_hunks = [(''-1 +1 @@'', [Ctx ''fn a() {'', Del ''old();'', Add ''new();''])]\<rparr>,
      \<lparr>fc_path = ''b'', fc_hunks = [(''-3 +3 @@'', [Add ''x''])]\<rparr>]"
  have "\<forall>fc \<in> set ?fcs. change_wf fc"
    by (simp add: change_wf_def line_ok_def change_lines_def trim_def trim_start_def trim_end_def
        ws_encodings_def trim_with_id)
  then show ?thesis
    unfolding Let_def by (intro unified_diff_roundtrip) simp_all
qed

text \<open>
  A hunk that removes a line starting with \<open>-- \<close> (a SQL, Lua or Haskell comment) is not
  parsed: printed, the line reads \<open>--- \<close>, the hunk ends there, and the parser rejects the diff
  although it is a valid unified diff. Whatever comes after the line is irrelevant.
\<close>

theorem diff_dashed_removal_rejected:
  assumes "line_ok s" "line_ok f" "line_ok t" "\<forall>l \<in> set ls. line_ok l"
    and "trim (''b/'' @ f) = ''b/'' @ f"
  shows "parse_unified_diff (unlines
      ([''--- a/'' @ f, ''+++ b/'' @ f, ''@@ '' @ t, render_line (Del (''-- '' @ s))] @ ls)) =
    Inl (InvalidDiff (''no hunks found for file: '' @ f))"
proof -
  let ?ls = "[''--- a/'' @ f, ''+++ b/'' @ f, ''@@ '' @ t, render_line (Del (''-- '' @ s))] @ ls"
  have "\<forall>l \<in> set ?ls. line_ok l"
    using assms by (auto simp: line_ok_def)
  then have "str_lines (unlines ?ls) = ?ls" by (rule str_lines_unlines)
  with assms(5) show ?thesis
    by (simp add: parse_unified_diff_def Let_def hunk_stop_def extract_diff_path_def)
qed

theorem diff_dashed_removal_rejected_witness:
  "parse_unified_diff (unlines [''--- a/q.sql'', ''+++ b/q.sql'', ''@@ -1 +1 @@'', ''--- drop me'', ''+x'']) =
     Inl (InvalidDiff ''no hunks found for file: q.sql'')"
  using diff_dashed_removal_rejected [of "''drop me''" "''q.sql''" "''-1 +1 @@''" "[''+x'']"]
  by (simp add: line_ok_def trim_def trim_start_def trim_end_def ws_encodings_def trim_with_id)

lemma hex_digit_neq:
  assumes "n < 16" "(of_char c :: nat) < 48 \<or> (57 < (of_char c :: nat) \<and> (of_char c :: nat) < 97) \<or> 102 < (of_char c :: nat)"
  shows "hex_digit n \<noteq> c"
proof
  assume "hex_digit n = c"
  then have "(of_char c :: nat) = (if n < 10 then 48 + n else 87 + n)"
    using assms(1) by (auto simp: hex_digit_def)
  with assms show False by (auto split: if_splits)
qed

lemma hex_digit_plain:
  assumes "n < 16"
  shows "hex_digit n \<noteq> CHR 0x5C" "hex_digit n \<noteq> CHR 0x22" "hex_digit n \<noteq> CHR 0x0A"
    "hex_digit n \<noteq> CHR 0x09" "hex_digit n \<noteq> CHR 0x0D" "\<not> is_ascii_control (hex_digit n)"
    "hex_digit n \<noteq> CHR 0xC2"
  using assms by (simp_all add: hex_digit_neq) (auto simp: is_ascii_control_def hex_digit_def)

declare sanitize_from.simps(4) [simp del]

lemma sanitize_plain:
  "c \<noteq> CHR 0x5C \<Longrightarrow> c \<noteq> CHR 0x22 \<Longrightarrow> c \<noteq> CHR 0x0A \<Longrightarrow> c \<noteq> CHR 0x09 \<Longrightarrow> c \<noteq> CHR 0x0D \<Longrightarrow>
   \<not> is_ascii_control c \<Longrightarrow> \<not> (c = CHR 0xC2 \<and> cs \<noteq> [] \<and> is_c1_tail (hd cs)) \<Longrightarrow>
   sanitize_from True False (c # cs) = c # sanitize_from True False cs"
  by (auto simp: sanitize_from.simps(4))

lemma is_ascii_control_not_special:
  "is_ascii_control c \<Longrightarrow> c \<noteq> CHR 0x5C" "is_ascii_control c \<Longrightarrow> c \<noteq> CHR 0x22"
  by (auto simp: is_ascii_control_def)

lemma sanitize_control:
  "c \<noteq> CHR 0x0A \<Longrightarrow> c \<noteq> CHR 0x09 \<Longrightarrow> c \<noteq> CHR 0x0D \<Longrightarrow> is_ascii_control c \<Longrightarrow>
   sanitize_from True False (c # cs) = unicode_escape c @ sanitize_from True False cs"
  using is_ascii_control_not_special [of c] by (simp only: sanitize_from.simps(4) if_False if_True)

lemma sanitize_c1:
  "is_c1_tail d \<Longrightarrow>
   sanitize_from True False (CHR 0xC2 # d # ds) = unicode_escape d @ sanitize_from True False ds"
  by (simp add: is_ascii_control_def sanitize_from.simps(4))

lemma sanitize_unicode_escape:
  "sanitize_from True False (unicode_escape c @ s) = unicode_escape c @ sanitize_from True False s"
proof -
  have hex: "sanitize_from True False (hex_digit n # t) = hex_digit n # sanitize_from True False t"
    if "n < 16" for n t
    using hex_digit_plain [OF that] by (intro sanitize_plain) auto
  have esc: "sanitize_from True False (CHR 0x5C # t) = CHR 0x5C # sanitize_from True True t"
      "sanitize_from True False (CHR ''0'' # t) = CHR ''0'' # sanitize_from True False t" for t
    by (simp_all add: sanitize_from.simps(4) is_ascii_control_def)
  have "(of_char c :: nat) < 16 * 16" by simp
  then have "(of_char c :: nat) div 16 < 16" by (rule less_mult_imp_div_less)
  moreover have "(of_char c :: nat) mod 16 < 16" by simp
  ultimately show ?thesis
    by (simp add: unicode_escape_def hex esc)
qed

lemma sanitize_special:
  "sanitize_from True False (CHR 0x5C # cs) = CHR 0x5C # sanitize_from True True cs"
  "sanitize_from True False (CHR 0x22 # cs) = CHR 0x22 # sanitize_from False False cs"
  "sanitize_from True False (CHR 0x0A # cs) = CHR 0x5C # CHR ''n'' # sanitize_from True False cs"
  "sanitize_from True False (CHR 0x09 # cs) = CHR 0x5C # CHR ''t'' # sanitize_from True False cs"
  "sanitize_from True False (CHR 0x0D # cs) = CHR 0x5C # CHR ''r'' # sanitize_from True False cs"
  by (simp_all add: sanitize_from.simps(4))

lemma sanitize_cases [case_names bslash quote nl tab cr control c1 plain]:
  assumes "c = CHR 0x5C \<Longrightarrow> P" "c = CHR 0x22 \<Longrightarrow> P" "c = CHR 0x0A \<Longrightarrow> P" "c = CHR 0x09 \<Longrightarrow> P"
    "c = CHR 0x0D \<Longrightarrow> P"
    "\<lbrakk>c \<noteq> CHR 0x0A; c \<noteq> CHR 0x09; c \<noteq> CHR 0x0D; is_ascii_control c\<rbrakk> \<Longrightarrow> P"
    "\<And>d ds. \<lbrakk>c = CHR 0xC2; cs = d # ds; is_c1_tail d\<rbrakk> \<Longrightarrow> P"
    "\<lbrakk>c \<noteq> CHR 0x5C; c \<noteq> CHR 0x22; c \<noteq> CHR 0x0A; c \<noteq> CHR 0x09; c \<noteq> CHR 0x0D; \<not> is_ascii_control c;
      \<not> (c = CHR 0xC2 \<and> cs \<noteq> [] \<and> is_c1_tail (hd cs))\<rbrakk> \<Longrightarrow> P"
  shows P
proof (cases "c = CHR 0xC2 \<and> cs \<noteq> [] \<and> is_c1_tail (hd cs)")
  case True
  then show P using assms(7) by (cases cs) simp_all
next
  case False
  then show P using assms(1-6,8) by blast
qed

lemma sanitize_hd_no_tail:
  assumes "\<not> is_c1_tail d"
  shows "sanitize_from True False (d # ds) \<noteq> [] \<and> \<not> is_c1_tail (hd (sanitize_from True False (d # ds)))"
  by (cases rule: sanitize_cases [where c = d and cs = ds])
    (use assms in \<open>auto simp: sanitize_special sanitize_control sanitize_c1 sanitize_plain
      unicode_escape_def is_c1_tail_def simp del: append_Cons\<close>)

lemma sanitize_from_idem_aux:
  "length s < n \<Longrightarrow> sanitize_from a b (sanitize_from a b s) = sanitize_from a b s"
proof (induction n arbitrary: a b s)
  case (Suc n)
  show ?case
  proof (cases s)
    case (Cons c cs)
    with Suc.prems have IH: "sanitize_from x y (sanitize_from x y cs) = sanitize_from x y cs"
        "sanitize_from x y (sanitize_from x y (tl cs)) = sanitize_from x y (tl cs)" for x y
      using Suc.IH by simp_all
    have "sanitize_from True False (sanitize_from True False (c # cs)) = sanitize_from True False (c # cs)"
    proof (cases rule: sanitize_cases [where c = c and cs = cs])
      case control
      then show ?thesis using IH by (simp add: sanitize_control sanitize_unicode_escape)
    next
      case (c1 d ds)
      then show ?thesis using IH(2) by (simp add: sanitize_c1 sanitize_unicode_escape)
    next
      case plain
      then have "\<not> (c = CHR 0xC2 \<and> sanitize_from True False cs \<noteq> [] \<and>
          is_c1_tail (hd (sanitize_from True False cs)))"
        using sanitize_hd_no_tail by (cases cs) auto
      with plain show ?thesis using IH by (simp add: sanitize_plain)
    qed (simp_all add: sanitize_special sanitize_plain is_ascii_control_def IH)
    then show ?thesis
      using IH Cons by (cases a; cases b) simp_all
  qed (cases a; cases b; simp)
qed simp

lemma sanitize_from_idem: "sanitize_from a b (sanitize_from a b s) = sanitize_from a b s"
  by (rule sanitize_from_idem_aux [of s "Suc (length s)"]) simp

text \<open>
  Escaping the control characters of JSON strings is idempotent.\<close>

theorem sanitize_json_strings_idem:
  "sanitize_json_strings (sanitize_json_strings s) = sanitize_json_strings s"
  by (simp add: sanitize_json_strings_def sanitize_from_idem)

subsection \<open>What a successful parse returns\<close>

definition edit_trimmed :: "file_edit \<Rightarrow> bool" where
  "edit_trimmed e \<longleftrightarrow> trim_end_nl (fe_old e) = fe_old e \<and> trim_end_nl (fe_new e) = fe_new e"

lemma normalize_edits_trimmed: "e \<in> set (normalize_edits es) \<Longrightarrow> edit_trimmed e"
  by (auto simp: normalize_edits_def edit_trimmed_def)

lemma try_parse_json_Some:
  "try_parse_json js c = Some p \<Longrightarrow>
     pe_edits p \<noteq> [] \<and> (\<forall>e \<in> set (pe_edits p). edit_trimmed e) \<and> pe_format p = JsonOldNew"
  by (auto simp: try_parse_json_def or_else_def normalize_edits_trimmed
      split: option.splits if_splits) (auto simp: normalize_edits_def)

lemma diff_files_step:
  assumes "diff_files (l # ls) edits = Inr es"
  obtains "diff_files ls edits = Inr es"
  | rest f old new where "length rest \<le> length ls"
      "diff_files rest (edits @ [\<lparr>fe_file = f, fe_old = trim_end_nl old, fe_new = trim_end_nl new\<rparr>]) = Inr es"
proof (cases "starts_with l ''--- ''")
  case False
  with assms that(1) show thesis by simp
next
  case True
  show thesis
  proof (cases ls)
    case Nil
    with True assms show thesis by simp
  next
    case (Cons l2 ls2)
    obtain rest old new where h: "diff_hunks ls2 [] [] = (rest, old, new)"
      by (cases "diff_hunks ls2 [] []") auto
    have len: "length rest \<le> length ls" using diff_hunks_length [OF h] Cons by simp
    from assms True Cons h show thesis
      by (intro that(2) [OF len]) (simp add: Let_def split: if_splits)
  qed
qed

lemma diff_files_trimmed:
  "diff_files ls edits = Inr es \<Longrightarrow> \<forall>e \<in> set edits. edit_trimmed e \<Longrightarrow> \<forall>e \<in> set es. edit_trimmed e"
proof (induction "length ls" arbitrary: ls edits rule: less_induct)
  case less
  show ?case
  proof (cases ls)
    case Nil
    with less.prems show ?thesis by simp
  next
    case (Cons l ls')
    from less.prems(1) [unfolded Cons] show ?thesis
    proof (cases rule: diff_files_step)
      case 1
      show ?thesis by (rule less.hyps [OF _ 1 less.prems(2)]) (simp add: Cons)
    next
      case (2 rest f old new)
      from less.prems(2) have t:
        "\<forall>e \<in> set (edits @ [\<lparr>fe_file = f, fe_old = trim_end_nl old, fe_new = trim_end_nl new\<rparr>]). edit_trimmed e"
        by (auto simp: edit_trimmed_def)
      show ?thesis by (rule less.hyps [OF _ 2(2) t]) (use 2(1) Cons in simp)
    qed
  qed
qed

text \<open>A small full-file output, for the examples.\<close>

definition small_file :: string where
  "small_file = ''File: a'' @ CHR 0x0A # ''x''"

lemma parse_small_file:
  "parse js small_file =
     Inr \<lparr>pe_edits = [\<lparr>fe_file = ''a'', fe_old = [], fe_new = ''x''\<rparr>], pe_format = FullFile, pe_summary = None\<rparr>"
proof -
  have trims: "trim (''File: a'' @ CHR 0x0A # ''x'') = ''File: a'' @ CHR 0x0A # ''x''" "trim ''a'' = ''a''"
    by (simp_all add: trim_def trim_start_def trim_end_def ws_encodings_def trim_with_id)
  have "parse_full_file (''File: a'' @ CHR 0x0A # ''x'') =
      Inr \<lparr>pe_edits = [\<lparr>fe_file = ''a'', fe_old = [], fe_new = ''x''\<rparr>], pe_format = FullFile, pe_summary = None\<rparr>"
    using trims(2) by (simp add: parse_full_file_def str_lines_def strip_cr_def full_file_path_def
        full_file_header_def trim_end_nl_def)
  moreover have "detect_format (''File: a'' @ CHR 0x0A # ''x'') None = FullFile"
    by (simp add: detect_format_def contains_def)
  moreover have "extract_code_block (''File: a'' @ CHR 0x0A # ''x'') = (''File: a'' @ CHR 0x0A # ''x'', None)"
    by (simp add: extract_code_block_def)
  moreover have "str_replace [CHR 0x0D, CHR 0x0A] [CHR 0x0A] (''File: a'' @ CHR 0x0A # ''x'') =
      ''File: a'' @ CHR 0x0A # ''x''"
    by (simp add: str_replace_def)
  ultimately show ?thesis
    using trims by (simp add: small_file_def parse_def MAX_INPUT_SIZE_def)
qed

lemma parse_nothing: "parse js [] = Inl NoContent"
  by (simp add: parse_def MAX_INPUT_SIZE_def trim_def trim_start_def trim_end_def str_replace_def
      trim_with_id ws_encodings_def)

text \<open>
  C39: A successful parse of any input returns at least one edit, every edit without trailing
  newlines in its texts, within the size limit; a full-file result is a single edit with an
  empty old text and a non-empty path.
\<close>

theorem parse_result_wf:
  assumes "parse js input = Inr p"
  shows "pe_edits p \<noteq> [] \<and> (\<forall>e \<in> set (pe_edits p). edit_trimmed e) \<and>
    length input \<le> MAX_INPUT_SIZE \<and>
    (pe_format p = FullFile \<longrightarrow> (\<exists>f c. pe_edits p = [\<lparr>fe_file = f, fe_old = [], fe_new = c\<rparr>] \<and> f \<noteq> []))"
proof -
  have size: "length input \<le> MAX_INPUT_SIZE"
    using assms by (auto simp: parse_def split: if_splits)
  from assms obtain c where
    "parse_unified_diff c = Inr p \<or> parse_json_edits js c = Inr p \<or> parse_full_file c = Inr p"
    by (auto simp: parse_def Let_def split: if_splits prod.splits edit_format.splits)
  then consider "parse_unified_diff c = Inr p" | "parse_json_edits js c = Inr p" | "parse_full_file c = Inr p"
    by blast
  then show ?thesis
  proof cases
    case 1
    then have "diff_files (str_lines c) [] = Inr (pe_edits p)" "pe_edits p \<noteq> []" "pe_format p = UnifiedDiff"
      by (auto simp: parse_unified_diff_def split: sum.splits if_splits)
    with size diff_files_trimmed [of "str_lines c" "[]"] show ?thesis by simp
  next
    case 2
    then show ?thesis
      using size by (auto simp: parse_json_edits_def split: option.splits dest!: try_parse_json_Some)
  next
    case 3
    then show ?thesis
      using size
      by (auto simp: parse_full_file_def edit_trimmed_def trim_end_nl_def split: list.splits sum.splits if_splits)
  qed
qed

theorem parse_result_wf_witness:
  "let js = \<lparr>read_wrapper = (\<lambda>_. None), read_array = (\<lambda>_. None)\<rparr>;
       p = \<lparr>pe_edits = [\<lparr>fe_file = ''a'', fe_old = [], fe_new = ''x''\<rparr>], pe_format = FullFile, pe_summary = None\<rparr>
   in parse js small_file = Inr p \<and> (\<forall>e \<in> set (pe_edits p). edit_trimmed e)"
  using parse_result_wf [OF parse_small_file [of "\<lparr>read_wrapper = (\<lambda>_. None), read_array = (\<lambda>_. None)\<rparr>"]]
    parse_small_file [of "\<lparr>read_wrapper = (\<lambda>_. None), read_array = (\<lambda>_. None)\<rparr>"]
  by (simp add: Let_def)

end
