(* ===== verification/FileStore.thy ===== *)
theory FileStore
  imports RustStr
begin

text \<open>
  Paths (\<open>std::path\<close>, Unix rules) and the file operations the crate calls
  (\<open>read_to_string\<close>, \<open>write\<close>, \<open>remove_file\<close>, \<open>create_dir_all\<close>). The operations are a record
  of functions over a world, so that every component takes them as an argument;
  \<open>file_store\<close> states what the components rely on, and an in-memory store with per-path
  faults provides it. A failed write may leave any content behind: the contract says nothing
  about it.
\<close>

subsection \<open>Paths\<close>

type_synonym path = string

datatype component = RootDir | CurDir | ParentDir | Normal string

fun split_slash :: "string \<Rightarrow> string list" where
  "split_slash [] = [[]]"
| "split_slash (c # cs) =
     (if c = CHR ''/'' then [] # split_slash cs
      else (case split_slash cs of [] \<Rightarrow> [[c]] | l # ls \<Rightarrow> (c # l) # ls))"

definition to_component :: "string \<Rightarrow> component" where
  "to_component s = (if s = ''..'' then ParentDir else Normal s)"

definition is_absolute :: "path \<Rightarrow> bool" where
  "is_absolute p = starts_with p ''/''"

definition body_components :: "path \<Rightarrow> component list" where
  "body_components p = map to_component (filter (\<lambda>s. s \<noteq> [] \<and> s \<noteq> ''.'') (split_slash p))"

definition lead_components :: "path \<Rightarrow> component list" where
  "lead_components p =
     (if is_absolute p then [RootDir] else if hd (split_slash p) = ''.'' then [CurDir] else [])"

text \<open>\<open>Path::components\<close>: empty pieces and inner \<open>.\<close> vanish, a leading \<open>.\<close> stays.\<close>

definition components :: "path \<Rightarrow> component list" where
  "components p = lead_components p @ body_components p"

definition path_join :: "path \<Rightarrow> path \<Rightarrow> path" where
  "path_join base p =
     (if is_absolute p then p
      else if base = [] \<or> last base = CHR ''/'' then base @ p
      else base @ ''/'' @ p)"

definition path_starts_with :: "path \<Rightarrow> path \<Rightarrow> bool" where
  "path_starts_with p base = prefix (components base) (components p)"

definition path_parent :: "path \<Rightarrow> component list option" where
  "path_parent p = (let ks = components p in
     if ks = [] \<or> last ks = RootDir then None else Some (butlast ks))"

text \<open>A path in an error message is printed in normal form.\<close>

fun component_str :: "component \<Rightarrow> string" where
  "component_str RootDir = []"
| "component_str CurDir = ''.''"
| "component_str ParentDir = ''..''"
| "component_str (Normal s) = s"

definition show_dir :: "component list \<Rightarrow> string" where
  "show_dir ks = (if ks = [RootDir] then ''/'' else str_join ''/'' (map component_str ks))"

lemma split_slash_ne [simp]: "split_slash s \<noteq> []"
  by (induction s) (auto split: list.splits)

lemma split_slash_append:
  "split_slash (a @ CHR ''/'' # b) = split_slash a @ split_slash b"
  by (induction a) (auto split: list.splits)

lemma body_components_append:
  "body_components (a @ CHR ''/'' # b) = body_components a @ body_components b"
  by (simp add: body_components_def split_slash_append)

lemma body_components_slash: "body_components (a @ ''/'') = body_components a"
  using body_components_append [of a "[]"] by (simp add: body_components_def)

lemma body_components_Nil [simp]: "body_components [] = []"
  by (simp add: body_components_def)

lemma is_absolute_append: "a \<noteq> [] \<Longrightarrow> is_absolute (a @ b) = is_absolute a"
  by (cases a) (simp_all add: is_absolute_def)

lemma lead_components_append:
  "a \<noteq> [] \<Longrightarrow> lead_components (a @ CHR ''/'' # b) = lead_components a"
  by (simp add: lead_components_def is_absolute_append split_slash_append)

text \<open>Joining a relative path appends its components to those of a non-empty base.\<close>

lemma components_join:
  assumes "\<not> is_absolute p" "base \<noteq> []"
  shows "components (path_join base p) = components base @ body_components p"
proof (cases "last base = CHR ''/''")
  case True
  with assms(2) obtain b where b: "base = b @ ''/''"
    by (metis append_butlast_last_id)
  show ?thesis
  proof (cases "b = []")
    case True
    have "body_components (CHR ''/'' # p) = body_components p"
      using body_components_append [of "[]" p] by (simp add: body_components_def)
    with True b assms show ?thesis
      by (simp add: path_join_def components_def lead_components_def is_absolute_def
          body_components_def)
  next
    case False
    with b assms show ?thesis
      by (simp add: path_join_def components_def body_components_append lead_components_append
          body_components_slash)
  qed
next
  case False
  with assms show ?thesis
    by (simp add: path_join_def components_def body_components_append lead_components_append)
qed

lemma components_join_empty: "\<not> is_absolute p \<Longrightarrow> path_join [] p = p"
  by (simp add: path_join_def)

subsection \<open>File operations\<close>

datatype io_error = NotFound | Io string

fun io_str :: "io_error \<Rightarrow> string" where
  "io_str NotFound = ''No such file or directory (os error 2)''"
| "io_str (Io m) = m"

type_synonym ('w, 'a) io = "'w \<Rightarrow> (io_error, 'a) result \<times> 'w"

record 'w fs_ops =
  fs_read :: "path \<Rightarrow> 'w \<Rightarrow> (io_error, string) result"
  fs_write :: "path \<Rightarrow> string \<Rightarrow> ('w, unit) io"
  fs_remove :: "path \<Rightarrow> ('w, unit) io"
  fs_mkdir :: "component list \<Rightarrow> ('w, unit) io"

text \<open>The contract: successful operations do what they say, and nothing else.\<close>

locale file_store =
  fixes ops :: "'w fs_ops"
    and view :: "'w \<Rightarrow> component list \<rightharpoonup> string"
  assumes read_ok: "fs_read ops p w = Inr c \<Longrightarrow> view w (components p) = Some c"
    and read_missing: "fs_read ops p w = Inl NotFound \<Longrightarrow> view w (components p) = None"
    and write_ok: "fs_write ops p c w = (Inr (), w') \<Longrightarrow> view w' = (view w)(components p \<mapsto> c)"
    and remove_ok: "fs_remove ops p w = (Inr (), w') \<Longrightarrow> view w' = (view w)(components p := None)"
    and remove_missing:
      "fs_remove ops p w = (Inl NotFound, w') \<Longrightarrow> view w' = view w \<and> view w (components p) = None"
    and write_frame:
      "fs_write ops p c w = (Inl e, w') \<Longrightarrow> k \<noteq> components p \<Longrightarrow> view w' k = view w k"
    and remove_fail: "fs_remove ops p w = (Inl e, w') \<Longrightarrow> view w' = view w"
    and mkdir_view: "fs_mkdir ops k w = (r, w') \<Longrightarrow> view w' = view w"

text \<open>
  A store in a good state also restores: existing files can be rewritten and removed, and the
  operations keep the state good.
\<close>

locale reliable_store = file_store ops view for ops :: "'w fs_ops" and view +
  fixes good :: "'w \<Rightarrow> bool"
  assumes good_write:
      "good w \<Longrightarrow> view w (components p) \<noteq> None \<Longrightarrow> \<exists>w'. fs_write ops p c w = (Inr (), w')"
    and good_remove: "good w \<Longrightarrow> view w (components p) \<noteq> None \<Longrightarrow> \<exists>w'. fs_remove ops p w = (Inr (), w')"
    and good_write_keep: "good w \<Longrightarrow> fs_write ops p c w = (r, w') \<Longrightarrow> good w'"
    and good_remove_keep: "good w \<Longrightarrow> fs_remove ops p w = (r, w') \<Longrightarrow> good w'"
    and good_mkdir_keep: "good w \<Longrightarrow> fs_mkdir ops k w = (r, w') \<Longrightarrow> good w'"
    and good_write_fail: "good w \<Longrightarrow> fs_write ops p c w = (Inl e, w') \<Longrightarrow> view w' = view w"

text \<open>Creating the directory of a file, as every writer of the crate does first.\<close>

definition create_parent :: "'w fs_ops \<Rightarrow> path \<Rightarrow> ('w, unit) io" where
  "create_parent ops fp w =
     (case path_parent fp of
        Some parent \<Rightarrow> if parent \<noteq> [] then fs_mkdir ops parent w else (Inr (), w)
      | None \<Rightarrow> (Inr (), w))"

context file_store
begin

lemma create_parent_view: "create_parent ops fp w = (r, w') \<Longrightarrow> view w' = view w"
  by (auto simp: create_parent_def split: option.splits if_splits dest: mkdir_view)

end

context reliable_store
begin

lemma create_parent_good: "good w \<Longrightarrow> create_parent ops fp w = (r, w') \<Longrightarrow> good w'"
  by (auto simp: create_parent_def split: option.splits if_splits dest: good_mkdir_keep)

end

subsection \<open>An in-memory store\<close>

text \<open>
  Files and directories by their component lists, and the faults the environment injects: a
  write may fail before touching the file or after truncating it to some content.
\<close>

datatype write_fault = WriteOk | WriteDenied string | WriteTorn string string

record mem_fs =
  files :: "component list \<rightharpoonup> string"
  dirs :: "component list \<Rightarrow> bool"
  read_fault :: "component list \<rightharpoonup> string"
  write_faults :: "component list \<Rightarrow> write_fault"
  remove_fault :: "component list \<rightharpoonup> string"
  mkdir_fault :: "component list \<rightharpoonup> string"

definition mem_read :: "path \<Rightarrow> mem_fs \<Rightarrow> (io_error, string) result" where
  "mem_read p w = (let k = components p in
     case files w k of
       None \<Rightarrow> Inl NotFound
     | Some c \<Rightarrow> (case read_fault w k of Some m \<Rightarrow> Inl (Io m) | None \<Rightarrow> Inr c))"

definition mem_write :: "path \<Rightarrow> string \<Rightarrow> (mem_fs, unit) io" where
  "mem_write p c w = (let k = components p in
     case write_faults w k of
       WriteDenied m \<Rightarrow> (Inl (Io m), w)
     | WriteTorn m c' \<Rightarrow> (Inl (Io m), w\<lparr>files := (files w)(k \<mapsto> c')\<rparr>)
     | WriteOk \<Rightarrow> if dirs w (butlast k) then (Inr (), w\<lparr>files := (files w)(k \<mapsto> c)\<rparr>)
         else (Inl NotFound, w))"

definition mem_remove :: "path \<Rightarrow> (mem_fs, unit) io" where
  "mem_remove p w = (let k = components p in
     case files w k of
       None \<Rightarrow> (Inl NotFound, w)
     | Some c \<Rightarrow> (case remove_fault w k of
           Some m \<Rightarrow> (Inl (Io m), w)
         | None \<Rightarrow> (Inr (), w\<lparr>files := (files w)(k := None)\<rparr>)))"

definition mem_mkdir :: "component list \<Rightarrow> (mem_fs, unit) io" where
  "mem_mkdir k w = (case mkdir_fault w k of
       Some m \<Rightarrow> (Inl (Io m), w)
     | None \<Rightarrow> (Inr (), w\<lparr>dirs := (\<lambda>d. dirs w d \<or> prefix d k)\<rparr>))"

definition mem_ops :: "mem_fs fs_ops" where
  "mem_ops = \<lparr>fs_read = mem_read, fs_write = mem_write, fs_remove = mem_remove, fs_mkdir = mem_mkdir\<rparr>"

lemma mem_ops_simps [simp]:
  "fs_read mem_ops = mem_read" "fs_write mem_ops = mem_write"
  "fs_remove mem_ops = mem_remove" "fs_mkdir mem_ops = mem_mkdir"
  by (simp_all add: mem_ops_def)

lemmas mem_defs = mem_read_def mem_write_def mem_remove_def mem_mkdir_def Let_def

text \<open>A healthy store injects no fault, and the directory of every file exists.\<close>

definition healthy :: "mem_fs \<Rightarrow> bool" where
  "healthy w \<longleftrightarrow> (\<forall>k. write_faults w k = WriteOk) \<and> (\<forall>k. remove_fault w k = None) \<and>
     (\<forall>k. files w k \<noteq> None \<longrightarrow> dirs w (butlast k))"

interpretation mem: file_store mem_ops files
proof
  fix p w c w' k r e
  show "fs_write mem_ops p c w = (Inl e, w') \<Longrightarrow> k \<noteq> components p \<Longrightarrow> files w' k = files w k"
    by (auto simp: mem_defs split: write_fault.splits if_splits)
  show "fs_remove mem_ops p w = (Inl e, w') \<Longrightarrow> files w' = files w"
    by (auto simp: mem_defs split: option.splits)
  show "fs_read mem_ops p w = Inr c \<Longrightarrow> files w (components p) = Some c"
    by (auto simp: mem_defs split: option.splits)
  show "fs_read mem_ops p w = Inl NotFound \<Longrightarrow> files w (components p) = None"
    by (auto simp: mem_defs split: option.splits)
  show "fs_write mem_ops p c w = (Inr (), w') \<Longrightarrow> files w' = (files w)(components p \<mapsto> c)"
    by (auto simp: mem_defs split: write_fault.splits if_splits)
  show "fs_remove mem_ops p w = (Inr (), w') \<Longrightarrow> files w' = (files w)(components p := None)"
    by (auto simp: mem_defs split: option.splits)
  show "fs_remove mem_ops p w = (Inl NotFound, w') \<Longrightarrow>
      files w' = files w \<and> files w (components p) = None"
    by (auto simp: mem_defs split: option.splits)
  show "fs_mkdir mem_ops k w = (r, w') \<Longrightarrow> files w' = files w"
    by (auto simp: mem_defs split: option.splits)
qed

interpretation mem: reliable_store mem_ops files healthy
proof
  fix p w c w' k r e
  show "healthy w \<Longrightarrow> files w (components p) \<noteq> None \<Longrightarrow> \<exists>w'. fs_write mem_ops p c w = (Inr (), w')"
    by (auto simp: healthy_def mem_defs)
  show "healthy w \<Longrightarrow> files w (components p) \<noteq> None \<Longrightarrow> \<exists>w'. fs_remove mem_ops p w = (Inr (), w')"
    by (auto simp: healthy_def mem_defs)
  show "healthy w \<Longrightarrow> fs_write mem_ops p c w = (r, w') \<Longrightarrow> healthy w'"
    by (auto simp: healthy_def mem_defs split: if_splits)
  show "healthy w \<Longrightarrow> fs_remove mem_ops p w = (r, w') \<Longrightarrow> healthy w'"
    by (auto simp: healthy_def mem_defs split: option.splits if_splits)
  show "healthy w \<Longrightarrow> fs_mkdir mem_ops k w = (r, w') \<Longrightarrow> healthy w'"
    by (auto simp: healthy_def mem_defs split: option.splits)
  show "healthy w \<Longrightarrow> fs_write mem_ops p c w = (Inl e, w') \<Longrightarrow> files w' = files w"
    by (auto simp: healthy_def mem_defs split: if_splits)
qed

end
