(* ===== verification/DiffApplier.thy ===== *)
theory DiffApplier
  imports EditParser FileStore
begin

text \<open>
  \<open>src/apply_verify/diff_applier.rs\<close> and \<open>src/apply_verify/rollback.rs\<close>: writing parsed edits to
  files under a working directory, and undoing what was written. Both take the file operations
  as an argument; their correctness is proved over the \<open>file_store\<close> contract.
\<close>

record file_backup =
  fb_path :: path
  fb_original :: "string option"
  fb_new :: string

record apply_result =
  ar_files :: "file_backup list"
  ar_format :: edit_format

definition empty_result :: "edit_format \<Rightarrow> apply_result" where
  "empty_result fmt = \<lparr>ar_files = [], ar_format = fmt\<rparr>"

datatype apply_error_kind =
    FileNotFound path
  | ReadFailed path io_error
  | WriteFailed path io_error
  | OldTextNotFound path string
  | AmbiguousMatch path nat
  | MultiHunkDiffNotContiguous path
  | InvalidEdit string

record apply_error =
  ae_kind :: apply_error_kind
  ae_partial :: apply_result

definition SNIPPET_LEN :: nat where
  "SNIPPET_LEN = 80"

fun apply_error_kind_str :: "apply_error_kind \<Rightarrow> string" where
  "apply_error_kind_str (FileNotFound p) = ''file not found: '' @ p"
| "apply_error_kind_str (ReadFailed p e) = ''failed to read '' @ p @ '': '' @ io_str e"
| "apply_error_kind_str (WriteFailed p e) = ''failed to write '' @ p @ '': '' @ io_str e"
| "apply_error_kind_str (OldTextNotFound p s) = ''old text not found in '' @ p @ '': '' @ s"
| "apply_error_kind_str (AmbiguousMatch p n) =
     ''ambiguous match in '' @ p @ '': '' @ nat_str n @ '' occurrences''"
| "apply_error_kind_str (MultiHunkDiffNotContiguous p) =
     ''multi-hunk diff not contiguous in '' @ p @ '': re-emit as JSON old/new or single-hunk diff''"
| "apply_error_kind_str (InvalidEdit r) = ''invalid edit: '' @ r"

subsection \<open>Applying one edit\<close>

definition apply_fail :: "apply_error_kind \<Rightarrow> apply_result \<Rightarrow> (apply_error, 'a) result" where
  "apply_fail k p = Inl \<lparr>ae_kind = k, ae_partial = p\<rparr>"

text \<open>The write both kinds of edit end with, and the backup it returns.\<close>

definition write_backup ::
  "'w fs_ops \<Rightarrow> path \<Rightarrow> string option \<Rightarrow> string \<Rightarrow> apply_result \<Rightarrow> 'w \<Rightarrow>
     (apply_error, file_backup) result \<times> 'w" where
  "write_backup ops fp orig content p w =
     (case fs_write ops fp content w of
        (Inl e, w') \<Rightarrow> (apply_fail (WriteFailed fp e) p, w')
      | (Inr _, w') \<Rightarrow> (Inr \<lparr>fb_path = fp, fb_original = orig, fb_new = content\<rparr>, w'))"

definition apply_full_file ::
  "'w fs_ops \<Rightarrow> file_edit \<Rightarrow> path \<Rightarrow> apply_result \<Rightarrow> 'w \<Rightarrow> (apply_error, file_backup) result \<times> 'w" where
  "apply_full_file ops e fp p w =
     (case fs_read ops fp w of
        Inl (Io m) \<Rightarrow> (apply_fail (ReadFailed fp (Io m)) p, w)
      | Inr c \<Rightarrow> write_backup ops fp (Some c) (fe_new e) p w
      | Inl NotFound \<Rightarrow>
          (case create_parent ops fp w of
             (Inl err, w') \<Rightarrow> (apply_fail (WriteFailed fp err) p, w')
           | (Inr _, w') \<Rightarrow> write_backup ops fp None (fe_new e) p w'))"

definition apply_find_replace ::
  "'w fs_ops \<Rightarrow> file_edit \<Rightarrow> path \<Rightarrow> edit_format \<Rightarrow> apply_result \<Rightarrow> 'w \<Rightarrow>
     (apply_error, file_backup) result \<times> 'w" where
  "apply_find_replace ops e fp fmt p w =
     (case fs_read ops fp w of
        Inl NotFound \<Rightarrow> (apply_fail (FileNotFound fp) p, w)
      | Inl (Io m) \<Rightarrow> (apply_fail (ReadFailed fp (Io m)) p, w)
      | Inr content \<Rightarrow>
          if fe_old e = [] then
            (apply_fail (InvalidEdit ''find/replace edit requires non-empty old text'') p, w)
          else let match_count = count_matches (fe_old e) content in
            if match_count = 0 then
              (apply_fail (if fmt = UnifiedDiff then MultiHunkDiffNotContiguous fp
                 else OldTextNotFound fp (take_chars SNIPPET_LEN (fe_old e))) p, w)
            else if match_count > 1 then (apply_fail (AmbiguousMatch fp match_count) p, w)
            else write_backup ops fp (Some content) (replace_first (fe_old e) (fe_new e) content) p w)"

subsection \<open>Applying a list of edits\<close>

definition path_escapes :: "path \<Rightarrow> path \<Rightarrow> bool" where
  "path_escapes cwd f \<longleftrightarrow>
     is_absolute f \<or> ParentDir \<in> set (components f) \<or> \<not> path_starts_with (path_join cwd f) cwd"

definition apply_one ::
  "'w fs_ops \<Rightarrow> edit_format \<Rightarrow> path \<Rightarrow> file_edit \<Rightarrow> apply_result \<Rightarrow> 'w \<Rightarrow>
     (apply_error, file_backup) result \<times> 'w" where
  "apply_one ops fmt cwd e p w =
     (if fe_file e = [] then (apply_fail (InvalidEdit ''empty file path'') p, w)
      else if path_escapes cwd (fe_file e) then
        (apply_fail (InvalidEdit (''path escapes working directory: '' @ fe_file e)) p, w)
      else case fmt of
          FullFile \<Rightarrow> apply_full_file ops e (path_join cwd (fe_file e)) p w
        | _ \<Rightarrow> apply_find_replace ops e (path_join cwd (fe_file e)) fmt p w)"

fun apply_edits ::
  "'w fs_ops \<Rightarrow> edit_format \<Rightarrow> path \<Rightarrow> file_edit list \<Rightarrow> apply_result \<Rightarrow> 'w \<Rightarrow>
     (apply_error, apply_result) result \<times> 'w" where
  "apply_edits ops fmt cwd [] p w = (Inr p, w)"
| "apply_edits ops fmt cwd (e # es) p w =
     (case apply_one ops fmt cwd e p w of
        (Inl err, w') \<Rightarrow> (Inl err, w')
      | (Inr b, w') \<Rightarrow> apply_edits ops fmt cwd es (p\<lparr>ar_files := ar_files p @ [b]\<rparr>) w')"

definition apply_parsed ::
  "'w fs_ops \<Rightarrow> parsed_edits \<Rightarrow> path \<Rightarrow> 'w \<Rightarrow> (apply_error, apply_result) result \<times> 'w" where
  "apply_parsed ops parsed cwd w =
     apply_edits ops (pe_format parsed) cwd (pe_edits parsed) (empty_result (pe_format parsed)) w"

subsection \<open>Rollback\<close>

record rollback_failure =
  rf_path :: path
  rf_reason :: string

record rollback_report =
  rr_restored :: "path list"
  rr_failed :: "rollback_failure list"
  rr_deleted :: "path list"

definition empty_report :: rollback_report where
  "empty_report = \<lparr>rr_restored = [], rr_failed = [], rr_deleted = []\<rparr>"

definition is_fully_restored :: "rollback_report \<Rightarrow> bool" where
  "is_fully_restored r \<longleftrightarrow> rr_failed r = []"

definition push_failed :: "path \<Rightarrow> string \<Rightarrow> rollback_report \<Rightarrow> rollback_report" where
  "push_failed p m r = r\<lparr>rr_failed := rr_failed r @ [\<lparr>rf_path = p, rf_reason = m\<rparr>]\<rparr>"

definition push_deleted :: "path \<Rightarrow> rollback_report \<Rightarrow> rollback_report" where
  "push_deleted p r = r\<lparr>rr_deleted := rr_deleted r @ [p]\<rparr>"

definition push_restored :: "path \<Rightarrow> rollback_report \<Rightarrow> rollback_report" where
  "push_restored p r = r\<lparr>rr_restored := rr_restored r @ [p]\<rparr>"

definition rollback_one ::
  "'w fs_ops \<Rightarrow> file_backup \<Rightarrow> rollback_report \<Rightarrow> 'w \<Rightarrow> rollback_report \<times> 'w" where
  "rollback_one ops b r w =
     (case fb_original b of
        Some original \<Rightarrow>
          (case fs_write ops (fb_path b) original w of
             (Inr _, w') \<Rightarrow> (push_restored (fb_path b) r, w')
           | (Inl e, w') \<Rightarrow> (push_failed (fb_path b) (''failed to restore: '' @ io_str e) r, w'))
      | None \<Rightarrow>
          (case fs_remove ops (fb_path b) w of
             (Inr _, w') \<Rightarrow> (push_deleted (fb_path b) r, w')
           | (Inl NotFound, w') \<Rightarrow> (push_deleted (fb_path b) r, w')
           | (Inl (Io m), w') \<Rightarrow>
               (push_failed (fb_path b) (''failed to delete created file: '' @ m) r, w')))"

fun rollback_list ::
  "'w fs_ops \<Rightarrow> file_backup list \<Rightarrow> rollback_report \<Rightarrow> 'w \<Rightarrow> rollback_report \<times> 'w" where
  "rollback_list ops [] r w = (r, w)"
| "rollback_list ops (b # bs) r w =
     (case rollback_one ops b r w of (r', w') \<Rightarrow> rollback_list ops bs r' w')"

definition rollback :: "'w fs_ops \<Rightarrow> apply_result \<Rightarrow> 'w \<Rightarrow> rollback_report \<times> 'w" where
  "rollback ops res w = rollback_list ops (rev (ar_files res)) empty_report w"

lemmas push_defs = push_failed_def push_deleted_def push_restored_def


subsection \<open>The abstract undo\<close>

text \<open>
  Undoing a list of backups on the abstract content map, the most recent one first.
  \<open>undoable\<close> says that every file exists at the moment its backup is put back.
\<close>

definition undo_one :: "file_backup \<Rightarrow> (component list \<rightharpoonup> string) \<Rightarrow> (component list \<rightharpoonup> string)" where
  "undo_one b m = m(components (fb_path b) := fb_original b)"

definition undo_all :: "file_backup list \<Rightarrow> (component list \<rightharpoonup> string) \<Rightarrow> (component list \<rightharpoonup> string)" where
  "undo_all bs m = fold undo_one bs m"

fun undoable :: "file_backup list \<Rightarrow> (component list \<rightharpoonup> string) \<Rightarrow> bool" where
  "undoable [] m = True"
| "undoable (b # bs) m = (m (components (fb_path b)) \<noteq> None \<and> undoable bs (undo_one b m))"

definition write_fail_path :: "apply_error_kind \<Rightarrow> path option" where
  "write_fail_path k = (case k of WriteFailed p _ \<Rightarrow> Some p | _ \<Rightarrow> None)"

lemma write_fail_path_simps [simp]:
  "write_fail_path (WriteFailed p e) = Some p"
  "write_fail_path (FileNotFound p) = None" "write_fail_path (ReadFailed p e) = None"
  "write_fail_path (OldTextNotFound p s) = None" "write_fail_path (AmbiguousMatch p n) = None"
  "write_fail_path (MultiHunkDiffNotContiguous p) = None" "write_fail_path (InvalidEdit s) = None"
  by (simp_all add: write_fail_path_def)

text \<open>A backup that describes one successful write, and the damage of a failed one.\<close>

definition wrote ::
  "path \<Rightarrow> file_backup \<Rightarrow> (component list \<rightharpoonup> string) \<Rightarrow> (component list \<rightharpoonup> string) \<Rightarrow> bool" where
  "wrote fp b m m' \<longleftrightarrow> fb_path b = fp \<and> fb_original b = m (components fp) \<and>
     m' = m(components fp \<mapsto> fb_new b)"

definition damaged ::
  "path \<Rightarrow> apply_error_kind \<Rightarrow> (component list \<rightharpoonup> string) \<Rightarrow> (component list \<rightharpoonup> string) \<Rightarrow> bool" where
  "damaged fp k m m' \<longleftrightarrow> (write_fail_path k = None \<longrightarrow> m' = m) \<and>
     (\<forall>q. write_fail_path k = Some q \<longrightarrow> q = fp) \<and> (\<forall>j. j \<noteq> components fp \<longrightarrow> m' j = m j)"

lemma damaged_same [simp]: "write_fail_path k = None \<Longrightarrow> damaged fp k m m"
  by (simp add: damaged_def)

lemma undo_wrote: "wrote fp b m m' \<Longrightarrow> undo_one b m' = m"
  by (auto simp: wrote_def undo_one_def)

lemma undo_all_simps [simp]:
  "undo_all [] m = m" "undo_all (b # bs) m = undo_all bs (undo_one b m)"
  "undo_all (bs @ cs) m = undo_all cs (undo_all bs m)"
  by (simp_all add: undo_all_def)

lemma undoable_append [simp]:
  "undoable (bs @ cs) m \<longleftrightarrow> undoable bs m \<and> undoable cs (undo_all bs m)"
  by (induction bs arbitrary: m) auto

lemma undo_all_frame:
  "\<forall>b \<in> set bs. k \<noteq> components (fb_path b) \<Longrightarrow> undo_all bs m k = m k"
  by (induction bs arbitrary: m) (simp_all add: undo_one_def)

lemma undo_all_cong:
  "\<forall>k. k \<noteq> j \<longrightarrow> m k = m' k \<Longrightarrow> k \<noteq> j \<Longrightarrow> undo_all bs m k = undo_all bs m' k"
proof (induction bs arbitrary: m m')
  case (Cons b bs)
  show ?case
    unfolding undo_all_simps
    by (rule Cons.IH) (use Cons.prems in \<open>auto simp: undo_one_def\<close>)
qed simp

subsection \<open>Rollback over the file store\<close>

context file_store
begin

lemma rollback_one_view:
  assumes "rollback_one ops b r w = (r', w')"
  shows "(rr_failed r' = rr_failed r \<and> view w' = undo_one b (view w)) \<or> rr_failed r' \<noteq> []"
proof (cases "fb_original b")
  case None
  with assms show ?thesis
    by (auto simp: rollback_one_def push_defs undo_one_def split: prod.splits sum.splits io_error.splits
        dest!: remove_ok remove_missing)
next
  case (Some c)
  with assms show ?thesis
    by (auto simp: rollback_one_def push_defs undo_one_def split: prod.splits sum.splits dest!: write_ok)
qed

lemma rollback_one_failed_mono:
  "rollback_one ops b r w = (r', w') \<Longrightarrow> \<exists>fs. rr_failed r' = rr_failed r @ fs"
  by (auto simp: rollback_one_def push_defs split: option.splits prod.splits sum.splits io_error.splits)

lemma rollback_list_failed_mono:
  "rollback_list ops bs r w = (r', w') \<Longrightarrow> \<exists>fs. rr_failed r' = rr_failed r @ fs"
proof (induction bs arbitrary: r w)
  case (Cons b bs)
  obtain r1 w1 where r1: "rollback_one ops b r w = (r1, w1)"
    by (cases "rollback_one ops b r w") auto
  with Cons.prems have "rollback_list ops bs r1 w1 = (r', w')" by simp
  with Cons.IH rollback_one_failed_mono [OF r1] show ?case by fastforce
qed simp

lemma rollback_list_view:
  "rollback_list ops bs r w = (r', w') \<Longrightarrow> rr_failed r' = [] \<Longrightarrow> view w' = undo_all bs (view w)"
proof (induction bs arbitrary: r w)
  case (Cons b bs)
  obtain r1 w1 where r1: "rollback_one ops b r w = (r1, w1)"
    by (cases "rollback_one ops b r w") auto
  with Cons.prems have rest: "rollback_list ops bs r1 w1 = (r', w')" by simp
  with Cons.prems(2) have "rr_failed r1 = []"
    by (auto dest: rollback_list_failed_mono)
  then have "view w1 = undo_one b (view w)"
    using rollback_one_view [OF r1] by auto
  with Cons.IH [OF rest Cons.prems(2)] show ?case by simp
qed simp

lemma rollback_view:
  "rollback ops res w = (rep, w') \<Longrightarrow> is_fully_restored rep \<Longrightarrow>
     view w' = undo_all (rev (ar_files res)) (view w)"
  unfolding rollback_def is_fully_restored_def by (rule rollback_list_view)

text \<open>What one edit does: a successful one is undone by its backup, a failed one touches at most
  the file it could not write.\<close>

lemma write_backup_effect:
  assumes "write_backup ops fp orig c p w = (r, w')" "orig = view w (components fp)"
  shows "(\<exists>b. r = Inr b \<and> wrote fp b (view w) (view w')) \<or>
         (\<exists>k. r = apply_fail k p \<and> damaged fp k (view w) (view w'))"
  using assms
  by (auto simp: write_backup_def wrote_def damaged_def split: prod.splits sum.splits
      dest: write_ok write_frame)

lemma apply_full_file_effect:
  assumes "apply_full_file ops e fp p w = (r, w')"
  shows "(\<exists>b. r = Inr b \<and> wrote fp b (view w) (view w')) \<or>
         (\<exists>k. r = apply_fail k p \<and> damaged fp k (view w) (view w'))"
proof (cases "fs_read ops fp w")
  case (Inr c)
  with assms show ?thesis
    by (intro write_backup_effect) (auto simp: apply_full_file_def dest: read_ok)
next
  case (Inl err)
  show ?thesis
  proof (cases err)
    case (Io m)
    with Inl assms show ?thesis by (auto simp: apply_full_file_def)
  next
    case NotFound
    obtain r1 w1 where cp: "create_parent ops fp w = (r1, w1)"
      by (cases "create_parent ops fp w") auto
    have v: "view w1 = view w" using cp by (rule create_parent_view)
    show ?thesis
    proof (cases r1)
      case (Inl e1)
      with \<open>fs_read ops fp w = Inl err\<close> NotFound cp v assms show ?thesis
        by (auto simp: apply_full_file_def damaged_def)
    next
      case (Inr u)
      have "view w1 (components fp) = None"
        using \<open>fs_read ops fp w = Inl err\<close> NotFound v by (simp add: read_missing)
      moreover have "write_backup ops fp None (fe_new e) p w1 = (r, w')"
        using Inr \<open>fs_read ops fp w = Inl err\<close> NotFound cp assms by (simp add: apply_full_file_def)
      ultimately show ?thesis
        using write_backup_effect v by metis
    qed
  qed
qed

lemma apply_find_replace_effect:
  assumes "apply_find_replace ops e fp fmt p w = (r, w')"
  shows "(\<exists>b. r = Inr b \<and> wrote fp b (view w) (view w')) \<or>
         (\<exists>k. r = apply_fail k p \<and> damaged fp k (view w) (view w'))"
proof (cases "fs_read ops fp w")
  case (Inl err)
  with assms show ?thesis
    by (cases err) (auto simp: apply_find_replace_def)
next
  case (Inr c)
  consider (early) k where "r = apply_fail k p" "w' = w" "write_fail_path k = None"
    | (wr) "write_backup ops fp (Some c) (replace_first (fe_old e) (fe_new e) c) p w = (r, w')"
    using assms Inr by (force simp: apply_find_replace_def Let_def split: if_splits)
  then show ?thesis
  proof cases
    case early
    then show ?thesis by auto
  next
    case wr
    then show ?thesis by (rule write_backup_effect) (simp add: read_ok [OF Inr])
  qed
qed

lemma apply_one_effect:
  assumes "apply_one ops fmt cwd e p w = (r, w')"
  obtains (ok) b where "r = Inr b" "wrote (path_join cwd (fe_file e)) b (view w) (view w')"
      "\<not> path_escapes cwd (fe_file e)" "fe_file e \<noteq> []"
  | (err) k where "r = apply_fail k p" "damaged (path_join cwd (fe_file e)) k (view w) (view w')"
      "view w' \<noteq> view w \<longrightarrow> \<not> path_escapes cwd (fe_file e)"
proof (cases "fe_file e = [] \<or> path_escapes cwd (fe_file e)")
  case True
  with assms err show thesis by (auto simp: apply_one_def split: if_splits)
next
  case False
  then have "(\<exists>b. r = Inr b \<and> wrote (path_join cwd (fe_file e)) b (view w) (view w')) \<or>
     (\<exists>k. r = apply_fail k p \<and> damaged (path_join cwd (fe_file e)) k (view w) (view w'))"
    using assms
    by (cases fmt) (auto simp: apply_one_def dest!: apply_full_file_effect apply_find_replace_effect)
  with False ok err show thesis by blast
qed

text \<open>The backups a run adds undo the run, but for the file a failed write may have damaged.\<close>

lemma apply_edits_undo:
  assumes "apply_edits ops fmt cwd es p w = (r, w')"
  shows "\<exists>new. ar_files (case r of Inr res \<Rightarrow> res | Inl err \<Rightarrow> ae_partial err) = ar_files p @ new \<and>
     (\<forall>k. (\<forall>err q. r = Inl err \<and> write_fail_path (ae_kind err) = Some q \<longrightarrow> k \<noteq> components q) \<longrightarrow>
        undo_all (rev new) (view w') k = view w k)"
  using assms
proof (induction es arbitrary: p w)
  case Nil
  then show ?case by (intro exI [of _ "[]"]) auto
next
  case (Cons e es)
  obtain r1 w1 where one: "apply_one ops fmt cwd e p w = (r1, w1)"
    by (cases "apply_one ops fmt cwd e p w") auto
  from one show ?case
  proof (cases rule: apply_one_effect)
    case (ok b)
    with one Cons.prems have
      "apply_edits ops fmt cwd es (p\<lparr>ar_files := ar_files p @ [b]\<rparr>) w1 = (r, w')" by simp
    from Cons.IH [OF this] obtain new where new:
      "ar_files (case r of Inr res \<Rightarrow> res | Inl err \<Rightarrow> ae_partial err) = (ar_files p @ [b]) @ new"
      "\<And>k. (\<forall>err q. r = Inl err \<and> write_fail_path (ae_kind err) = Some q \<longrightarrow> k \<noteq> components q) \<Longrightarrow>
        undo_all (rev new) (view w') k = view w1 k"
      by auto
    have "undo_one b (undo_all (rev new) (view w')) k = view w k"
      if "\<forall>err q. r = Inl err \<and> write_fail_path (ae_kind err) = Some q \<longrightarrow> k \<noteq> components q" for k
    proof -
      have "undo_one b (undo_all (rev new) (view w')) k = undo_one b (view w1) k"
        using new(2) [OF that] by (simp add: undo_one_def)
      then show ?thesis using undo_wrote [OF ok(2)] by simp
    qed
    with new(1) show ?thesis by (intro exI [of _ "b # new"]) simp
  next
    case (err k)
    with one Cons.prems have "r = Inl \<lparr>ae_kind = k, ae_partial = p\<rparr>" "w' = w1"
      by (auto simp: apply_fail_def)
    with err(2) show ?thesis
      by (intro exI [of _ "[]"]) (auto simp: damaged_def; cases "write_fail_path k"; auto)
  qed
qed

end


context reliable_store
begin

lemma write_backup_good:
  "good w \<Longrightarrow> write_backup ops fp orig c p w = (r, w') \<Longrightarrow>
     good w' \<and> (is_err r \<longrightarrow> view w' = view w)"
  by (auto simp: write_backup_def split: prod.splits sum.splits dest: good_write_keep good_write_fail)

lemma apply_full_file_good:
  assumes "good w" "apply_full_file ops e fp p w = (r, w')"
  shows "good w' \<and> (is_err r \<longrightarrow> view w' = view w)"
proof -
  obtain r1 w1 where cp: "create_parent ops fp w = (r1, w1)"
    by (cases "create_parent ops fp w") auto
  have w1: "good w1" "view w1 = view w"
    using create_parent_good [OF assms(1) cp] create_parent_view [OF cp] by simp_all
  with assms cp write_backup_good [OF assms(1)] write_backup_good [OF w1(1)] show ?thesis
    by (auto simp: apply_full_file_def apply_fail_def split: sum.splits io_error.splits)
qed

lemma apply_find_replace_good:
  assumes "good w" "apply_find_replace ops e fp fmt p w = (r, w')"
  shows "good w' \<and> (is_err r \<longrightarrow> view w' = view w)"
  using assms write_backup_good [OF assms(1)]
  by (auto simp: apply_find_replace_def apply_fail_def Let_def split: sum.splits io_error.splits if_splits)

lemma apply_one_good:
  assumes "good w" "apply_one ops fmt cwd e p w = (r, w')"
  shows "good w' \<and> (is_err r \<longrightarrow> view w' = view w)"
  using assms apply_full_file_good [OF assms(1)] apply_find_replace_good [OF assms(1)]
  by (cases fmt) (auto simp: apply_one_def apply_fail_def split: if_splits)

lemma apply_edits_undoable:
  assumes "good w" "apply_edits ops fmt cwd es p w = (r, w')"
  shows "good w' \<and> (\<exists>new. ar_files (case r of Inr res \<Rightarrow> res | Inl err \<Rightarrow> ae_partial err) = ar_files p @ new \<and>
     undoable (rev new) (view w') \<and> undo_all (rev new) (view w') = view w)"
  using assms
proof (induction es arbitrary: p w)
  case Nil
  then show ?case by (auto intro: exI [of _ "[]"])
next
  case (Cons e es)
  obtain r1 w1 where one: "apply_one ops fmt cwd e p w = (r1, w1)"
    by (cases "apply_one ops fmt cwd e p w") auto
  have g: "good w1" "is_err r1 \<longrightarrow> view w1 = view w"
    using apply_one_good [OF Cons.prems(1) one] by simp_all
  from one show ?case
  proof (cases rule: apply_one_effect)
    case (ok b)
    with one Cons.prems have
      "apply_edits ops fmt cwd es (p\<lparr>ar_files := ar_files p @ [b]\<rparr>) w1 = (r, w')" by simp
    from Cons.IH [OF g(1) this] obtain new where new: "good w'"
      "ar_files (case r of Inr res \<Rightarrow> res | Inl err \<Rightarrow> ae_partial err) = (ar_files p @ [b]) @ new"
      "undoable (rev new) (view w')" "undo_all (rev new) (view w') = view w1"
      by auto
    moreover have "view w1 (components (fb_path b)) \<noteq> None" "undo_one b (view w1) = view w"
      using ok(2) undo_wrote [OF ok(2)] by (auto simp: wrote_def)
    ultimately show ?thesis by (intro conjI exI [of _ "b # new"]) simp_all
  next
    case (err k)
    with one Cons.prems have "r = Inl \<lparr>ae_kind = k, ae_partial = p\<rparr>" "w' = w1"
      by (auto simp: apply_fail_def)
    with g err(1) show ?thesis
      by (auto simp: apply_fail_def intro: exI [of _ "[]"])
  qed
qed

lemma rollback_one_good:
  assumes "good w" "view w (components (fb_path b)) \<noteq> None" "rollback_one ops b r w = (r', w')"
  shows "good w' \<and> rr_failed r' = rr_failed r \<and> view w' = undo_one b (view w)"
proof (cases "fb_original b")
  case None
  obtain w1 where w1: "fs_remove ops (fb_path b) w = (Inr (), w1)"
    using good_remove [OF assms(1,2)] by blast
  with None assms(3) have "w' = w1" "r' = push_deleted (fb_path b) r"
    by (auto simp: rollback_one_def)
  with good_remove_keep [OF assms(1) w1] remove_ok [OF w1] None show ?thesis
    by (simp add: push_defs undo_one_def)
next
  case (Some c)
  obtain w1 where w1: "fs_write ops (fb_path b) c w = (Inr (), w1)"
    using good_write [OF assms(1,2)] by blast
  with Some assms(3) have "w' = w1" "r' = push_restored (fb_path b) r"
    by (auto simp: rollback_one_def)
  with good_write_keep [OF assms(1) w1] write_ok [OF w1] Some show ?thesis
    by (simp add: push_defs undo_one_def)
qed

lemma rollback_list_good:
  assumes "good w" "undoable bs (view w)" "rollback_list ops bs r w = (r', w')"
  shows "good w' \<and> rr_failed r' = rr_failed r \<and> view w' = undo_all bs (view w)"
  using assms
proof (induction bs arbitrary: r w)
  case (Cons b bs)
  obtain r1 w1 where r1: "rollback_one ops b r w = (r1, w1)"
    by (cases "rollback_one ops b r w") auto
  with Cons.prems have "rollback_list ops bs r1 w1 = (r', w')" by simp
  moreover have "good w1 \<and> rr_failed r1 = rr_failed r \<and> view w1 = undo_one b (view w)"
    using Cons.prems(1,2) r1 by (intro rollback_one_good) auto
  ultimately show ?case using Cons.IH [of w1 r1] Cons.prems(2) by auto
qed simp

lemma apply_rollback_good:
  assumes "good w" "apply_parsed ops parsed cwd w = (r, w1)"
    and "rollback ops (case r of Inr res \<Rightarrow> res | Inl err \<Rightarrow> ae_partial err) w1 = (rep, w2)"
  shows "good w2 \<and> is_fully_restored rep \<and> view w2 = view w"
proof -
  have "good w1 \<and> (\<exists>new. ar_files (case r of Inr res \<Rightarrow> res | Inl err \<Rightarrow> ae_partial err) = new \<and>
     undoable (rev new) (view w1) \<and> undo_all (rev new) (view w1) = view w)"
    using apply_edits_undoable [OF assms(1) assms(2) [unfolded apply_parsed_def]]
    by (simp add: empty_result_def)
  with assms(3) rollback_list_good [of w1 _ empty_report rep w2] show ?thesis
    by (auto simp: rollback_def is_fully_restored_def empty_report_def)
qed

end

subsection \<open>Path confinement\<close>

lemma body_components_normal:
  "ParentDir \<notin> set (body_components f) \<Longrightarrow> \<exists>ns. body_components f = map Normal ns"
proof -
  assume "ParentDir \<notin> set (body_components f)"
  then have "\<forall>s \<in> set (filter (\<lambda>s. s \<noteq> [] \<and> s \<noteq> ''.'') (split_slash f)). to_component s = Normal s"
    by (auto simp: body_components_def to_component_def split: if_splits)
  then show ?thesis
    unfolding body_components_def by (intro exI [of _ "filter (\<lambda>s. s \<noteq> [] \<and> s \<noteq> ''.'') (split_slash f)"]) simp
qed

lemma join_starts_with:
  assumes "\<not> is_absolute f"
  shows "path_starts_with (path_join cwd f) cwd"
proof (cases "cwd = []")
  case True
  then show ?thesis
    by (simp add: path_starts_with_def components_def lead_components_def is_absolute_def)
next
  case False
  with assms show ?thesis by (simp add: path_starts_with_def components_join)
qed

lemma not_escapes_components:
  assumes "\<not> path_escapes cwd f" "cwd \<noteq> []"
  shows "\<exists>ns. components (path_join cwd f) = components cwd @ map Normal ns"
proof -
  have "\<not> is_absolute f" "ParentDir \<notin> set (body_components f)"
    using assms(1) by (auto simp: path_escapes_def components_def)
  with assms(2) body_components_normal components_join show ?thesis by metis
qed

context file_store
begin

lemma apply_edits_confined:
  assumes "apply_edits ops fmt cwd es p w = (r, w')" "cwd \<noteq> []" "view w' k \<noteq> view w k"
  shows "\<exists>ns. k = components cwd @ map Normal ns"
  using assms(1,3)
proof (induction es arbitrary: p w)
  case (Cons e es)
  obtain r1 w1 where one: "apply_one ops fmt cwd e p w = (r1, w1)"
    by (cases "apply_one ops fmt cwd e p w") auto
  have step: "\<exists>ns. k = components cwd @ map Normal ns" if "view w1 k \<noteq> view w k"
    using one
  proof (cases rule: apply_one_effect)
    case (ok b)
    with that have "k = components (path_join cwd (fe_file e))"
      by (auto simp: wrote_def split: if_splits)
    with not_escapes_components [OF ok(3) assms(2)] show ?thesis by simp
  next
    case (err k')
    with that have "k = components (path_join cwd (fe_file e))" "\<not> path_escapes cwd (fe_file e)"
      by (auto simp: damaged_def)
    with not_escapes_components assms(2) show ?thesis by simp
  qed
  show ?case
  proof (cases r1)
    case (Inl err)
    with one Cons.prems have "w' = w1" by simp
    with step Cons.prems show ?thesis by simp
  next
    case (Inr b)
    with one Cons.prems have
      rest: "apply_edits ops fmt cwd es (p\<lparr>ar_files := ar_files p @ [b]\<rparr>) w1 = (r, w')" by simp
    show ?thesis
    proof (cases "view w1 k = view w k")
      case True
      with Cons.IH [OF rest] Cons.prems(2) show ?thesis by simp
    qed (rule step)
  qed
qed simp

end

end
