(* ===== verification/ApplyProps.thy ===== *)
theory ApplyProps
  imports DiffApplier
begin

text \<open>
  The properties of the apply and rollback components, on the in-memory store, from the lemmas
  of the \<open>file_store\<close> and \<open>reliable_store\<close> contracts.
\<close>

text \<open>What the caller hands to the rollback: the result, or the partial result of an error.\<close>

definition applied :: "(apply_error, apply_result) result \<Rightarrow> apply_result" where
  "applied r = (case r of Inr res \<Rightarrow> res | Inl err \<Rightarrow> ae_partial err)"

definition demo_fs :: mem_fs where
  "demo_fs = \<lparr>files = [[Normal ''w'', Normal ''a''] \<mapsto> ''one two''],
     dirs = (\<lambda>d. d = [] \<or> d = [Normal ''w'']), read_fault = Map.empty,
     write_faults = (\<lambda>_. WriteOk), remove_fault = Map.empty, mkdir_fault = Map.empty\<rparr>"

lemma demo_fs_healthy: "healthy demo_fs"
  by (simp add: healthy_def demo_fs_def)

lemmas path_eval = path_join_def is_absolute_def components_def lead_components_def
  body_components_def to_component_def path_escapes_def path_starts_with_def path_parent_def

lemmas apply_eval = apply_parsed_def apply_one_def apply_full_file_def apply_find_replace_def
  write_backup_def create_parent_def empty_result_def apply_fail_def count_matches_def
  replace_first_def

text \<open>
  With arbitrary faults injected, if the rollback reports every file restored, then every
  file has its old content again, except possibly the one file whose write failed during the
  apply: the backups name only completed writes.
\<close>

lemma rollback_restores_under_faults:
  assumes "apply_parsed mem_ops parsed cwd w = (r, w1)"
    and "rollback mem_ops (applied r) w1 = (rep, w2)" "is_fully_restored rep"
    and "\<forall>err q. r = Inl err \<and> write_fail_path (ae_kind err) = Some q \<longrightarrow> k \<noteq> components q"
  shows "files w2 k = files w k"
proof -
  have "undo_all (rev (ar_files (applied r))) (files w1) k = files w k"
    using mem.apply_edits_undo [OF assms(1) [unfolded apply_parsed_def]] assms(4)
    by (auto simp: applied_def empty_result_def)
  with mem.rollback_view [OF assms(2,3)] show ?thesis by simp
qed

text \<open>
  C2: An apply (complete, or failed half-way) followed by the rollback of what it reports, also when
  several edits hit the same file or spell its path differently. On a store without write faults every
  file is as it was before, created files are gone, and the report is complete. With faults, a report
  that is complete means that every file is as it was before, but for the one whose write failed
  during the apply.
\<close>

theorem apply_then_rollback_restores:
  assumes "apply_parsed mem_ops parsed cwd w = (r, w1)" "rollback mem_ops (applied r) w1 = (rep, w2)"
  shows "(healthy w \<longrightarrow> files w2 = files w \<and> is_fully_restored rep) \<and>
    (is_fully_restored rep \<longrightarrow> (\<forall>k. files w2 k \<noteq> files w k \<longrightarrow>
       (\<exists>err q. r = Inl err \<and> write_fail_path (ae_kind err) = Some q \<and> k = components q)))"
  using mem.apply_rollback_good [OF _ assms(1) assms(2) [unfolded applied_def]] rollback_restores_under_faults [OF assms] by blast

definition demo_edits :: parsed_edits where
  "demo_edits = \<lparr>pe_edits =
     [\<lparr>fe_file = ''a'', fe_old = ''one'', fe_new = ''1''\<rparr>,
      \<lparr>fe_file = ''./a'', fe_old = ''1 t'', fe_new = ''T''\<rparr>,
      \<lparr>fe_file = ''missing'', fe_old = ''x'', fe_new = ''y''\<rparr>],
     pe_format = JsonOldNew, pe_summary = None\<rparr>"

theorem apply_then_rollback_restores_witness:
  "let (r, w1) = apply_parsed mem_ops demo_edits ''w'' demo_fs;
       (rep, w2) = rollback mem_ops (applied r) w1
   in length (ar_files (applied r)) = 2 \<and> files w1 \<noteq> files demo_fs \<and>
      files w2 = files demo_fs \<and> is_fully_restored rep"
proof -
  obtain r w1 where a: "apply_parsed mem_ops demo_edits ''w'' demo_fs = (r, w1)"
    by (cases "apply_parsed mem_ops demo_edits ''w'' demo_fs") auto
  obtain rep w2 where b: "rollback mem_ops (applied r) w1 = (rep, w2)"
    by (cases "rollback mem_ops (applied r) w1") auto
  have "length (ar_files (applied r)) = 2 \<and> files w1 [Normal ''w'', Normal ''a''] = Some ''Two''"
    using a by (simp add: apply_eval demo_edits_def demo_fs_def mem_defs path_eval)
      (auto simp: applied_def)
  moreover have "files demo_fs [Normal ''w'', Normal ''a''] = Some ''one two''"
    by (simp add: demo_fs_def)
  ultimately have "length (ar_files (applied r)) = 2 \<and> files w1 \<noteq> files demo_fs" by auto
  with a b apply_then_rollback_restores [OF a b] demo_fs_healthy show ?thesis by simp
qed

definition torn_fs :: mem_fs where
  "torn_fs = demo_fs\<lparr>files := (files demo_fs)([Normal ''w'', Normal ''b''] \<mapsto> ''keep''),
     write_faults := (\<lambda>k. if k = [Normal ''w'', Normal ''b''] then WriteTorn ''disk full'' [] else WriteOk)\<rparr>"

definition torn_edits :: parsed_edits where
  "torn_edits = \<lparr>pe_edits =
     [\<lparr>fe_file = ''a'', fe_old = ''one'', fe_new = ''1''\<rparr>, \<lparr>fe_file = ''b'', fe_old = ''keep'', fe_new = ''k''\<rparr>],
     pe_format = JsonOldNew, pe_summary = None\<rparr>"

lemma torn_apply:
  "apply_parsed mem_ops torn_edits ''w'' torn_fs =
     (Inl \<lparr>ae_kind = WriteFailed ''w/b'' (Io ''disk full''),
           ae_partial = \<lparr>ar_files = [\<lparr>fb_path = ''w/a'', fb_original = Some ''one two'', fb_new = ''1 two''\<rparr>],
                         ar_format = JsonOldNew\<rparr>\<rparr>,
      torn_fs\<lparr>files := (files torn_fs)([Normal ''w'', Normal ''a''] \<mapsto> ''1 two'', [Normal ''w'', Normal ''b''] \<mapsto> [])\<rparr>)"
  by (simp add: apply_eval torn_edits_def torn_fs_def demo_fs_def mem_defs path_eval)

theorem rollback_restores_under_faults_witness:
  "let (r, w1) = apply_parsed mem_ops torn_edits ''w'' torn_fs;
       (rep, w2) = rollback mem_ops (applied r) w1
   in is_fully_restored rep \<and> files w2 [Normal ''w'', Normal ''a''] = files torn_fs [Normal ''w'', Normal ''a'']"
proof -
  obtain r w1 where a: "apply_parsed mem_ops torn_edits ''w'' torn_fs = (r, w1)"
    by (cases "apply_parsed mem_ops torn_edits ''w'' torn_fs") auto
  obtain rep w2 where b: "rollback mem_ops (applied r) w1 = (rep, w2)"
    by (cases "rollback mem_ops (applied r) w1") auto
  have rw: "ar_files (applied r) = [\<lparr>fb_path = ''w/a'', fb_original = Some ''one two'', fb_new = ''1 two''\<rparr>]"
      "w1 = torn_fs\<lparr>files := (files torn_fs)([Normal ''w'', Normal ''a''] \<mapsto> ''1 two'', [Normal ''w'', Normal ''b''] \<mapsto> [])\<rparr>"
    using a by (auto simp: torn_apply applied_def)
  have rep: "is_fully_restored rep"
    using b by (auto simp: rw rollback_def rollback_one_def mem_defs torn_fs_def
        demo_fs_def path_eval push_defs empty_report_def is_fully_restored_def)
  have "\<forall>err q. r = Inl err \<and> write_fail_path (ae_kind err) = Some q \<longrightarrow>
      [Normal ''w'', Normal ''a''] \<noteq> components q"
    using a by (auto simp: torn_apply path_eval)
  from rollback_restores_under_faults [OF a b rep this] a b rep show ?thesis by simp
qed

text \<open>
  The exception of the previous property is real: a write that fails after truncating its
  file leaves it truncated, the rollback does not touch it, and still reports success.
\<close>

theorem torn_write_not_rolled_back:
  "let (r, w1) = apply_parsed mem_ops torn_edits ''w'' torn_fs;
       (rep, w2) = rollback mem_ops (applied r) w1
   in is_fully_restored rep \<and> files torn_fs [Normal ''w'', Normal ''b''] = Some ''keep'' \<and>
      files w2 [Normal ''w'', Normal ''b''] = Some []"
  by (simp add: torn_apply)
    (simp add: applied_def rollback_def rollback_one_def mem_defs torn_fs_def
        demo_fs_def path_eval push_defs empty_report_def is_fully_restored_def)

text \<open>
  C32: An apply under a working directory changes only files below it: every path whose content
  differs afterwards consists of the components of the working directory followed by plain
  names, no parent steps and no absolute path, whatever file names the model produced and
  whether the apply succeeds or fails.
\<close>

theorem apply_confined_to_cwd:
  assumes "apply_parsed mem_ops parsed cwd w = (r, w')" "cwd \<noteq> []" "files w' k \<noteq> files w k"
  shows "\<exists>ns. k = components cwd @ map Normal ns"
  using mem.apply_edits_confined [OF assms(1) [unfolded apply_parsed_def] assms(2,3)] .

theorem apply_confined_to_cwd_witness:
  "let (r, w') = apply_parsed mem_ops demo_edits ''w'' demo_fs; k = [Normal ''w'', Normal ''a'']
   in files w' k \<noteq> files demo_fs k \<and> (\<exists>ns. k = components ''w'' @ map Normal ns)"
proof -
  obtain r w' where a: "apply_parsed mem_ops demo_edits ''w'' demo_fs = (r, w')"
    by (cases "apply_parsed mem_ops demo_edits ''w'' demo_fs") auto
  have d: "files w' [Normal ''w'', Normal ''a''] \<noteq> files demo_fs [Normal ''w'', Normal ''a'']"
    using a by (auto simp: apply_eval demo_edits_def demo_fs_def mem_defs path_eval)
  from apply_confined_to_cwd [OF a _ d] a d show ?thesis by simp
qed

text \<open>
  The third part of the path check, that the joined path starts with the working
  directory, is implied by the first: the check is exactly "absolute or with a parent step".
\<close>

theorem path_escapes_iff:
  "path_escapes cwd f \<longleftrightarrow> is_absolute f \<or> ParentDir \<in> set (components f)"
  using join_starts_with by (auto simp: path_escapes_def)

text \<open>
  A find-and-replace that succeeds rewrites the one occurrence of the old text: the file
  was a prefix without the old text, the old text, and a suffix without it; the new content has
  the new text in its place; and the backup holds the content before.
\<close>

theorem find_replace_unique:
  assumes "apply_find_replace mem_ops e fp fmt p w = (Inr b, w')"
  shows "\<exists>pre post. files w (components fp) = Some (pre @ fe_old e @ post) \<and>
    fb_original b = Some (pre @ fe_old e @ post) \<and>
    fb_new b = pre @ fe_new e @ post \<and> files w' = (files w)(components fp \<mapsto> pre @ fe_new e @ post) \<and>
    \<not> contains pre (fe_old e) \<and> \<not> contains post (fe_old e)"
proof -
  obtain c where c: "fs_read mem_ops fp w = Inr c"
    using assms by (cases "fs_read mem_ops fp w")
      (auto simp: apply_find_replace_def apply_fail_def split: io_error.splits)
  have ne: "fe_old e \<noteq> []" and one: "count_matches (fe_old e) c = 1"
    and wr: "write_backup mem_ops fp (Some c) (replace_first (fe_old e) (fe_new e) c) p w = (Inr b, w')"
    using assms c by (auto simp: apply_find_replace_def apply_fail_def Let_def split: if_splits)
  from one ne obtain i where i: "find_sub (fe_old e) c = Some i"
    using count_matches_0 [OF ne, of c] by (auto simp: contains_def)
  let ?pre = "take i c" and ?post = "drop (i + length (fe_old e)) c"
  have "count_matches (fe_old e) ?post = 0"
    using count_matches_find [OF ne i] one by simp
  then have post: "\<not> contains ?post (fe_old e)" using count_matches_0 [OF ne] by blast
  have pre: "\<not> contains ?pre (fe_old e)"
  proof
    assume "contains ?pre (fe_old e)"
    then obtain a d where ad: "?pre = a @ fe_old e @ d" by (auto simp: contains_iff)
    have "c = ?pre @ drop i c" by simp
    then have "drop (length a) c = fe_old e @ d @ drop i c"
      unfolding ad by (metis append.assoc append_eq_conv_conj)
    then have "starts_with (drop (length a) c) (fe_old e)" by (auto simp: starts_with_iff)
    moreover have "length (a @ fe_old e @ d) \<le> i" unfolding ad [symmetric] by simp
    with ne have "length a < i" by (cases "fe_old e") auto
    ultimately show False using find_sub_least [OF i] by blast
  qed
  note split = replace_first_split [OF i, of "fe_new e"]
  have b: "b = \<lparr>fb_path = fp, fb_original = Some c, fb_new = replace_first (fe_old e) (fe_new e) c\<rparr>"
    and w': "files w' = (files w)(components fp \<mapsto> replace_first (fe_old e) (fe_new e) c)"
    using wr by (auto simp: write_backup_def apply_fail_def split: prod.splits sum.splits
        dest: mem.write_ok [simplified])
  have "files w (components fp) = Some c" using c mem.read_ok by blast
  moreover obtain a d where "c = a @ fe_old e @ d"
      "replace_first (fe_old e) (fe_new e) c = a @ fe_new e @ d"
      "\<not> contains a (fe_old e)" "\<not> contains d (fe_old e)"
    using split pre post by blast
  ultimately show ?thesis using b w' by (intro exI [of _ a] exI [of _ d]) simp
qed

theorem find_replace_unique_witness:
  "let e = \<lparr>fe_file = ''a'', fe_old = ''one'', fe_new = ''1''\<rparr>;
       (r, w') = apply_find_replace mem_ops e ''w/a'' JsonOldNew (empty_result JsonOldNew) demo_fs
   in \<exists>b. r = Inr b \<and> fb_new b = ''1 two'' \<and>
     (\<exists>pre post. fb_original b = Some (pre @ ''one'' @ post) \<and> fb_new b = pre @ ''1'' @ post)"
proof -
  let ?e = "\<lparr>fe_file = ''a'', fe_old = ''one'', fe_new = ''1''\<rparr>"
  obtain r w' where a: "apply_find_replace mem_ops ?e ''w/a'' JsonOldNew (empty_result JsonOldNew) demo_fs = (r, w')"
    by (cases "apply_find_replace mem_ops ?e ''w/a'' JsonOldNew (empty_result JsonOldNew) demo_fs") auto
  then obtain b where b: "r = Inr b" "fb_new b = ''1 two''"
    by (auto simp: apply_eval demo_fs_def mem_defs path_eval)
  from find_replace_unique [OF a [unfolded b(1)]] a b show ?thesis by auto
qed

text \<open>
  The count of the uniqueness check is of non-overlapping matches, so an ambiguous edit can
  pass it: the old text occurs at two positions of the file, and the edit is applied to the
  first one instead of being rejected.
\<close>

theorem overlapping_match_not_ambiguous:
  "let e = \<lparr>fe_file = ''a'', fe_old = ''aba'', fe_new = ''X''\<rparr>;
       w = demo_fs\<lparr>files := [[Normal ''w'', Normal ''a''] \<mapsto> ''ababa'']\<rparr>;
       (r, w') = apply_find_replace mem_ops e ''w/a'' JsonOldNew (empty_result JsonOldNew) w
   in starts_with (drop 0 ''ababa'') ''aba'' \<and> starts_with (drop 2 ''ababa'') ''aba'' \<and>
      is_ok r \<and> files w' [Normal ''w'', Normal ''a''] = Some ''Xba''"
  by (simp add: apply_eval demo_fs_def mem_defs path_eval)

lemma rollback_list_counts:
  "rollback_list ops bs r w = (r', w') \<Longrightarrow>
     length (rr_restored r') + length (rr_failed r') + length (rr_deleted r') =
     length (rr_restored r) + length (rr_failed r) + length (rr_deleted r) + length bs"
proof (induction bs arbitrary: r w)
  case (Cons b bs)
  obtain r1 w1 where r1: "rollback_one ops b r w = (r1, w1)"
    by (cases "rollback_one ops b r w") auto
  then have "length (rr_restored r1) + length (rr_failed r1) + length (rr_deleted r1) =
     Suc (length (rr_restored r) + length (rr_failed r) + length (rr_deleted r))"
    by (auto simp: rollback_one_def push_defs split: option.splits prod.splits sum.splits io_error.splits)
  with Cons r1 show ?case by simp
qed simp

text \<open>
  A rollback accounts for every backup exactly once: the restored, failed and deleted
  entries together are as many as the backups, whatever fails.
\<close>

theorem rollback_report_complete:
  assumes "rollback ops res w = (rep, w')"
  shows "length (rr_restored rep) + length (rr_failed rep) + length (rr_deleted rep) =
    length (ar_files res)"
  using rollback_list_counts [OF assms [unfolded rollback_def]] by (simp add: empty_report_def)

theorem rollback_report_complete_witness:
  "let rep = fst (rollback mem_ops \<lparr>ar_files = [\<lparr>fb_path = ''w/a'', fb_original = None, fb_new = ''x''\<rparr>],
      ar_format = FullFile\<rparr> demo_fs)
   in length (rr_restored rep) + length (rr_failed rep) + length (rr_deleted rep) = 1"
proof -
  let ?res = "\<lparr>ar_files = [\<lparr>fb_path = ''w/a'', fb_original = None, fb_new = ''x''\<rparr>], ar_format = FullFile\<rparr>"
  from rollback_report_complete [of mem_ops ?res demo_fs "fst (rollback mem_ops ?res demo_fs)"
      "snd (rollback mem_ops ?res demo_fs)"]
  show ?thesis by (simp add: Let_def)
qed

text \<open>
  The lists of a report need not be disjoint: a file created by one edit and rewritten by a
  second one of the same batch is reported both as restored and as deleted.
\<close>

theorem rollback_report_not_disjoint:
  "let parsed = \<lparr>pe_edits = [\<lparr>fe_file = ''n'', fe_old = [], fe_new = ''1''\<rparr>,
         \<lparr>fe_file = ''n'', fe_old = [], fe_new = ''2''\<rparr>], pe_format = FullFile, pe_summary = None\<rparr>;
       (r, w1) = apply_parsed mem_ops parsed ''w'' demo_fs;
       (rep, w2) = rollback mem_ops (applied r) w1
   in rr_restored rep = [''w/n''] \<and> rr_deleted rep = [''w/n'']"
  by (simp add: apply_eval demo_fs_def mem_defs path_eval applied_def)
    (simp add: rollback_def rollback_one_def mem_defs path_eval push_defs empty_report_def)

end
