(* ===== verification/Verification.thy ===== *)
theory Verification
  imports RustStr
begin

text \<open>
  \<open>src/apply_verify/verification.rs\<close>: the bounded capture of a child's output and the result
  built from how the child ended. The child itself (spawning, its output, its exit, the clock)
  is the argument of \<open>verification_run\<close>.
\<close>

subsection \<open>Lossy UTF-8 decoding\<close>

definition in_range :: "nat \<Rightarrow> nat \<Rightarrow> char \<Rightarrow> bool" where
  "in_range lo hi c \<longleftrightarrow> lo \<le> (of_char c :: nat) \<and> (of_char c :: nat) \<le> hi"

text \<open>The ranges of the bytes that may follow a lead byte; \<open>None\<close> for an invalid lead byte.\<close>

definition utf8_tails :: "char \<Rightarrow> (nat \<times> nat) list option" where
  "utf8_tails c =
     (if in_range 0x00 0x7F c then Some []
      else if in_range 0xC2 0xDF c then Some [(0x80, 0xBF)]
      else if c = CHR 0xE0 then Some [(0xA0, 0xBF), (0x80, 0xBF)]
      else if c = CHR 0xED then Some [(0x80, 0x9F), (0x80, 0xBF)]
      else if in_range 0xE1 0xEF c then Some [(0x80, 0xBF), (0x80, 0xBF)]
      else if c = CHR 0xF0 then Some [(0x90, 0xBF), (0x80, 0xBF), (0x80, 0xBF)]
      else if in_range 0xF1 0xF3 c then Some [(0x80, 0xBF), (0x80, 0xBF), (0x80, 0xBF)]
      else if c = CHR 0xF4 then Some [(0x80, 0x8F), (0x80, 0xBF), (0x80, 0xBF)]
      else None)"

text \<open>How many of the expected tail bytes are there.\<close>

fun match_tails :: "(nat \<times> nat) list \<Rightarrow> string \<Rightarrow> nat" where
  "match_tails [] s = 0"
| "match_tails (r # rs) [] = 0"
| "match_tails ((lo, hi) # rs) (c # cs) = (if in_range lo hi c then Suc (match_tails rs cs) else 0)"

definition replacement :: string where
  "replacement = [CHR 0xEF, CHR 0xBF, CHR 0xBD]"

text \<open>Each maximal invalid prefix of a character becomes one replacement character.\<close>

function from_utf8_lossy :: "string \<Rightarrow> string" where
  "from_utf8_lossy [] = []"
| "from_utf8_lossy (c # cs) =
     (case utf8_tails c of
        None \<Rightarrow> replacement @ from_utf8_lossy cs
      | Some rs \<Rightarrow> let n = match_tails rs cs in
          if n = length rs then c # take n cs @ from_utf8_lossy (drop n cs)
          else replacement @ from_utf8_lossy (drop n cs))"
  by pat_completeness auto
termination
  by (relation "measure length") auto

lemma from_utf8_lossy_ascii: "\<forall>c \<in> set s. in_range 0 127 c \<Longrightarrow> from_utf8_lossy s = s"
  by (induction s) (auto simp: utf8_tails_def)

subsection \<open>Bounded reading\<close>

text \<open>
  What the pipe yields, one entry per \<open>read\<close>: a chunk (the empty one is end of file, as is the
  end of the list) or an error.
\<close>

datatype read_event = Chunk string | ReadError

fun drain :: "read_event list \<Rightarrow> read_event list" where
  "drain [] = []"
| "drain (ReadError # evs) = evs"
| "drain (Chunk c # evs) = (if c = [] then evs else drain evs)"

fun read_bounded :: "nat \<Rightarrow> string \<Rightarrow> read_event list \<Rightarrow> (string \<times> bool) \<times> read_event list" where
  "read_bounded max_bytes buf [] = ((buf, False), [])"
| "read_bounded max_bytes buf (ReadError # evs) = ((buf, False), evs)"
| "read_bounded max_bytes buf (Chunk c # evs) =
     (if c = [] then ((buf, False), evs)
      else
        let remaining = max_bytes - length buf in
        if remaining = 0 then ((buf, True), drain evs)
        else
          let n = min (length c) remaining; buf' = buf @ take n c in
          if n < length c then ((buf', True), drain evs)
          else read_bounded max_bytes buf' evs)"

text \<open>All that arrives before end of file or an error.\<close>

fun stream_data :: "read_event list \<Rightarrow> string" where
  "stream_data [] = []"
| "stream_data (ReadError # evs) = []"
| "stream_data (Chunk c # evs) = (if c = [] then [] else c @ stream_data evs)"

lemma drain_stop: "drain evs = drop (Suc (length (takeWhile (\<lambda>e. e \<noteq> ReadError \<and> e \<noteq> Chunk []) evs))) evs"
  by (induction evs rule: drain.induct) auto

lemma read_bounded_fst:
  "length buf \<le> max_bytes \<Longrightarrow>
     fst (read_bounded max_bytes buf evs) =
       (take max_bytes (buf @ stream_data evs), max_bytes < length buf + length (stream_data evs))"
proof (induction max_bytes buf evs rule: read_bounded.induct)
  case (3 max_bytes buf c evs)
  show ?case
  proof (cases "c = []")
    case True
    with 3 show ?thesis by simp
  next
    case False
    then have "0 < length c" by simp
    show ?thesis
    proof (cases "length c \<le> max_bytes - length buf")
      case True
      with False 3 show ?thesis by (auto simp: Let_def)
    next
      case short: False
      with False 3(2) show ?thesis by (auto simp: Let_def min_def)
    qed
  qed
qed simp_all

lemma read_bounded_snd: "snd (read_bounded max_bytes buf evs) = drain evs"
  by (induction max_bytes buf evs rule: read_bounded.induct) (simp_all add: Let_def)

text \<open>
  The bounded reader returns exactly the first \<open>max_bytes\<close> bytes of what the child wrote,
  however the pipe cuts it into chunks; the truncation flag is set if and only if there was
  more; and, cut or not, the pipe has been read up to and including its end.
\<close>

theorem read_bounded_exact:
  "read_bounded max_bytes [] evs =
     ((take max_bytes (stream_data evs), max_bytes < length (stream_data evs)),
      drop (Suc (length (takeWhile (\<lambda>e. e \<noteq> ReadError \<and> e \<noteq> Chunk []) evs))) evs)"
  using read_bounded_fst [of "[]" max_bytes evs] read_bounded_snd [of max_bytes "[]" evs]
  by (simp add: prod_eq_iff drain_stop)

subsection \<open>The result of a run\<close>

record verify_result =
  vr_success :: bool
  vr_stdout :: string
  vr_stderr :: string
  vr_exit_code :: "int option"
  vr_elapsed_ms :: nat
  vr_timed_out :: bool
  vr_truncated :: bool

text \<open>How a child ends: with an exit code (\<open>None\<close> when killed by a signal), a failed wait, or
  the timeout.\<close>

datatype wait_result = Exited "int option" | WaitFailed string | TimedOut

datatype child_run =
    SpawnFailed string
  | NoPipes
  | Child "read_event list" "read_event list" wait_result

definition failed_run :: "string \<Rightarrow> nat \<Rightarrow> verify_result" where
  "failed_run err elapsed = \<lparr>vr_success = False, vr_stdout = [], vr_stderr = err,
     vr_exit_code = None, vr_elapsed_ms = elapsed, vr_timed_out = False, vr_truncated = False\<rparr>"

definition verification_run :: "nat \<Rightarrow> child_run \<Rightarrow> nat \<Rightarrow> verify_result" where
  "verification_run max_bytes run elapsed =
     (case run of
        SpawnFailed e \<Rightarrow> failed_run (''spawn failed: '' @ e) elapsed
      | NoPipes \<Rightarrow> failed_run ''failed to capture stdout/stderr pipes'' elapsed
      | Child out err wait \<Rightarrow>
          let (stdout_bytes, stdout_trunc) = fst (read_bounded max_bytes [] out);
              (stderr_bytes, stderr_trunc) = fst (read_bounded max_bytes [] err)
          in (case wait of
                Exited code \<Rightarrow>
                  \<lparr>vr_success = (code = Some 0), vr_stdout = from_utf8_lossy stdout_bytes,
                   vr_stderr = from_utf8_lossy stderr_bytes, vr_exit_code = code,
                   vr_elapsed_ms = elapsed, vr_timed_out = False,
                   vr_truncated = (stdout_trunc \<or> stderr_trunc)\<rparr>
              | WaitFailed e \<Rightarrow> failed_run (''wait failed: '' @ e) elapsed
              | TimedOut \<Rightarrow>
                  \<lparr>vr_success = False, vr_stdout = from_utf8_lossy stdout_bytes,
                   vr_stderr = from_utf8_lossy stderr_bytes, vr_exit_code = None,
                   vr_elapsed_ms = elapsed, vr_timed_out = True,
                   vr_truncated = (stdout_trunc \<or> stderr_trunc)\<rparr>))"

text \<open>
  A verification succeeds only when the child was spawned and exited by itself with code
  zero: a timeout, a signal, a failed wait or a failed spawn never count as success; and a
  timed-out result carries no exit code.
\<close>

theorem verification_success_iff:
  "(vr_success (verification_run max_bytes run elapsed) \<longleftrightarrow> (\<exists>out err. run = Child out err (Exited (Some 0))))
   \<and> (vr_timed_out (verification_run max_bytes run elapsed) \<longleftrightarrow> (\<exists>out err. run = Child out err TimedOut))
   \<and> (vr_timed_out (verification_run max_bytes run elapsed) \<longrightarrow>
        vr_exit_code (verification_run max_bytes run elapsed) = None)
   \<and> vr_elapsed_ms (verification_run max_bytes run elapsed) = elapsed"
  by (cases run) (auto simp: verification_run_def failed_run_def split: wait_result.splits prod.splits)

end
