(* ===== verification/RetryLoop.thy ===== *)
theory RetryLoop
  imports ApplyProps Verification
begin

text \<open>
  \<open>src/apply_verify/retry_loop.rs\<close>: parse, apply, verify, roll back, ask again. The verification
  command and the edit requester act on the same world as the file operations and are arguments
  of the loop; the JSON reader is that of \<open>EditParser\<close>.
\<close>

datatype retry_reason =
    RParseError string
  | RApplyError string "path list"
  | RVerifyError verify_result

record retry_context =
  rc_attempt :: nat
  rc_previous_raw :: string
  rc_reason :: retry_reason

record attempt_record =
  at_num :: nat
  at_raw :: string
  at_parse_error :: "string option"
  at_apply_error :: "string option"
  at_verify :: "verify_result option"
  at_rolled_back :: bool

record retry_outcome =
  ro_success :: bool
  ro_attempts :: "attempt_record list"
  ro_final_verify :: "verify_result option"
  ro_final_apply :: "apply_result option"

record 'w retry_loop =
  rl_max_retries :: nat
  rl_stop_on_parse_error :: bool
  rl_verify :: "path \<Rightarrow> 'w \<Rightarrow> verify_result \<times> 'w"
  rl_request :: "retry_context \<Rightarrow> 'w \<Rightarrow> (string, string) result \<times> 'w"
  rl_json :: json_reader
  rl_ops :: "'w fs_ops"

subsection \<open>The loop\<close>

definition new_record :: "nat \<Rightarrow> string \<Rightarrow> attempt_record" where
  "new_record n raw = \<lparr>at_num = n, at_raw = raw, at_parse_error = None, at_apply_error = None,
     at_verify = None, at_rolled_back = False\<rparr>"

text \<open>What an attempt ends with: the loop returns with this outcome, or goes on with new edits.\<close>

datatype verdict = Return bool "verify_result option" "apply_result option" | Again string

text \<open>The end of each failed attempt: give up when no attempt is left, else ask the requester,
  whose error is recorded in the attempt and ends the loop.\<close>

definition give_up_or_ask ::
  "'w retry_loop \<Rightarrow> bool \<Rightarrow> retry_reason \<Rightarrow> verify_result option \<Rightarrow> attempt_record \<Rightarrow> 'w \<Rightarrow>
     (attempt_record \<times> verdict) \<times> 'w" where
  "give_up_or_ask rl final reason fv rec w =
     (if final then ((rec, Return False fv None), w)
      else case rl_request rl \<lparr>rc_attempt = at_num rec + 2, rc_previous_raw = at_raw rec, rc_reason = reason\<rparr> w of
          (Inr new_raw, w') \<Rightarrow> ((rec, Again new_raw), w')
        | (Inl req_err, w') \<Rightarrow> ((rec\<lparr>at_apply_error := Some req_err\<rparr>, Return False fv None), w'))"

definition rollback_partial :: "'w retry_loop \<Rightarrow> apply_result \<Rightarrow> 'w \<Rightarrow> bool \<times> 'w" where
  "rollback_partial rl res w =
     (if ar_files res = [] then (False, w) else (True, snd (rollback (rl_ops rl) res w)))"

definition verify_stage ::
  "'w retry_loop \<Rightarrow> path \<Rightarrow> apply_result \<Rightarrow> attempt_record \<Rightarrow> 'w \<Rightarrow> (attempt_record \<times> verdict) \<times> 'w" where
  "verify_stage rl cwd res rec w =
     (case rl_verify rl cwd w of (vr, w1) \<Rightarrow>
        let rec1 = rec\<lparr>at_verify := Some vr\<rparr> in
        if vr_success vr then ((rec1, Return True (Some vr) (Some res)), w1)
        else let w2 = snd (rollback (rl_ops rl) res w1) in
          give_up_or_ask rl (at_num rec = rl_max_retries rl) (RVerifyError vr) (Some vr)
            (rec1\<lparr>at_rolled_back := True\<rparr>) w2)"

definition apply_stage ::
  "'w retry_loop \<Rightarrow> path \<Rightarrow> parsed_edits \<Rightarrow> attempt_record \<Rightarrow> 'w \<Rightarrow> (attempt_record \<times> verdict) \<times> 'w" where
  "apply_stage rl cwd parsed rec w =
     (case apply_parsed (rl_ops rl) parsed cwd w of
        (Inr res, w1) \<Rightarrow> verify_stage rl cwd res rec w1
      | (Inl err, w1) \<Rightarrow>
          let msg = apply_error_kind_str (ae_kind err);
              (rolled, w2) = rollback_partial rl (ae_partial err) w1
          in give_up_or_ask rl (at_num rec = rl_max_retries rl)
               (RApplyError msg (map fb_path (ar_files (ae_partial err)))) None
               (rec\<lparr>at_apply_error := Some msg, at_rolled_back := rolled\<rparr>) w2)"

definition retry_attempt ::
  "'w retry_loop \<Rightarrow> path \<Rightarrow> nat \<Rightarrow> string \<Rightarrow> 'w \<Rightarrow> (attempt_record \<times> verdict) \<times> 'w" where
  "retry_attempt rl cwd n raw w =
     (case parse (rl_json rl) raw of
        Inl e \<Rightarrow> let msg = edit_parse_error_str e in
          give_up_or_ask rl (rl_stop_on_parse_error rl \<or> n = rl_max_retries rl) (RParseError msg) None
            ((new_record n raw)\<lparr>at_parse_error := Some msg\<rparr>) w
      | Inr parsed \<Rightarrow> apply_stage rl cwd parsed (new_record n raw) w)"

text \<open>
  The \<open>for\<close> loop over the attempt numbers that are left, and the defensive value behind it.
\<close>

fun retry_from ::
  "'w retry_loop \<Rightarrow> path \<Rightarrow> nat list \<Rightarrow> string \<Rightarrow> attempt_record list \<Rightarrow> 'w \<Rightarrow> retry_outcome \<times> 'w" where
  "retry_from rl cwd [] raw attempts w =
     (\<lparr>ro_success = False, ro_attempts = attempts, ro_final_verify = None, ro_final_apply = None\<rparr>, w)"
| "retry_from rl cwd (n # ns) raw attempts w =
     (case retry_attempt rl cwd n raw w of
        ((rec, Return ok fv fa), w') \<Rightarrow>
          (\<lparr>ro_success = ok, ro_attempts = attempts @ [rec], ro_final_verify = fv, ro_final_apply = fa\<rparr>, w')
      | ((rec, Again new_raw), w') \<Rightarrow> retry_from rl cwd ns new_raw (attempts @ [rec]) w')"

definition execute :: "'w retry_loop \<Rightarrow> string \<Rightarrow> path \<Rightarrow> 'w \<Rightarrow> retry_outcome \<times> 'w" where
  "execute rl initial_raw cwd w =
     retry_from rl cwd [0..<Suc (rl_max_retries rl)] initial_raw [] w"

lemmas retry_defs = give_up_or_ask_def verify_stage_def apply_stage_def retry_attempt_def
  new_record_def Let_def

subsection \<open>The record of an attempt\<close>

text \<open>What the record says about the verdict.\<close>

definition verified :: "verify_result option \<Rightarrow> bool" where
  "verified v = (case v of None \<Rightarrow> False | Some vr \<Rightarrow> vr_success vr)"

definition verdict_ok :: "'w retry_loop \<Rightarrow> attempt_record \<Rightarrow> verdict \<Rightarrow> bool" where
  "verdict_ok rl rec v = (case v of
       Again _ \<Rightarrow> at_num rec \<noteq> rl_max_retries rl \<and> \<not> verified (at_verify rec) \<and>
         (rl_stop_on_parse_error rl \<longrightarrow> at_parse_error rec = None)
     | Return ok fv fa \<Rightarrow> fv = at_verify rec \<and> (ok \<longleftrightarrow> verified fv) \<and> (ok \<longleftrightarrow> fa \<noteq> None))"

lemma give_up_or_ask_record:
  assumes "give_up_or_ask rl final reason fv rec w = ((rec', v), w')"
    and "fv = at_verify rec" "\<not> verified fv" "\<not> final \<Longrightarrow> at_num rec \<noteq> rl_max_retries rl"
    and "\<not> final \<Longrightarrow> rl_stop_on_parse_error rl \<Longrightarrow> at_parse_error rec = None"
  shows "at_num rec' = at_num rec \<and> at_raw rec' = at_raw rec \<and> verdict_ok rl rec' v"
  using assms
  by (auto simp: give_up_or_ask_def verdict_ok_def split: if_splits prod.splits sum.splits)

lemma verify_stage_record:
  assumes "verify_stage rl cwd res rec w = ((rec', v), w')" "at_parse_error rec = None"
  shows "at_num rec' = at_num rec \<and> at_raw rec' = at_raw rec \<and> verdict_ok rl rec' v"
proof -
  obtain vr w1 where vr: "rl_verify rl cwd w = (vr, w1)" by (cases "rl_verify rl cwd w") auto
  show ?thesis
  proof (cases "vr_success vr")
    case True
    with assms vr show ?thesis
      by (auto simp: verify_stage_def verdict_ok_def verified_def)
  next
    case False
    let ?rec = "rec\<lparr>at_verify := Some vr, at_rolled_back := True\<rparr>"
    have "give_up_or_ask rl (at_num rec = rl_max_retries rl) (RVerifyError vr) (Some vr) ?rec
        (snd (rollback (rl_ops rl) res w1)) = ((rec', v), w')"
      using assms(1) vr False by (simp add: verify_stage_def Let_def)
    from give_up_or_ask_record [OF this] False assms(2) show ?thesis
      by (simp add: verified_def)
  qed
qed

lemma apply_stage_record:
  assumes "apply_stage rl cwd parsed rec w = ((rec', v), w')" "at_parse_error rec = None"
    "at_verify rec = None"
  shows "at_num rec' = at_num rec \<and> at_raw rec' = at_raw rec \<and> verdict_ok rl rec' v"
proof (cases "apply_parsed (rl_ops rl) parsed cwd w")
  case (Pair r w1)
  show ?thesis
  proof (cases r)
    case (Inr res)
    with Pair assms verify_stage_record show ?thesis by (simp add: apply_stage_def)
  next
    case (Inl err)
    obtain rb w2 where rb: "rollback_partial rl (ae_partial err) w1 = (rb, w2)"
      by (cases "rollback_partial rl (ae_partial err) w1") auto
    let ?msg = "apply_error_kind_str (ae_kind err)"
    have "give_up_or_ask rl (at_num rec = rl_max_retries rl)
        (RApplyError ?msg (map fb_path (ar_files (ae_partial err)))) None
        (rec\<lparr>at_apply_error := Some ?msg, at_rolled_back := rb\<rparr>) w2 = ((rec', v), w')"
      using assms(1) Pair Inl rb by (simp add: apply_stage_def Let_def)
    from give_up_or_ask_record [OF this] assms(2,3) show ?thesis
      by (simp add: verified_def)
  qed
qed

lemma retry_attempt_record:
  assumes "retry_attempt rl cwd n raw w = ((rec, v), w')"
  shows "at_num rec = n \<and> at_raw rec = raw \<and> verdict_ok rl rec v"
proof (cases "parse (rl_json rl) raw")
  case (Inl e)
  let ?msg = "edit_parse_error_str e"
  have "give_up_or_ask rl (rl_stop_on_parse_error rl \<or> n = rl_max_retries rl) (RParseError ?msg) None
      ((new_record n raw)\<lparr>at_parse_error := Some ?msg\<rparr>) w = ((rec, v), w')"
    using assms Inl by (simp add: retry_attempt_def Let_def)
  from give_up_or_ask_record [OF this] show ?thesis
    by (simp add: verified_def new_record_def)
next
  case (Inr parsed)
  with assms have "apply_stage rl cwd parsed (new_record n raw) w = ((rec, v), w')"
    by (simp add: retry_attempt_def)
  from apply_stage_record [OF this] show ?thesis by (simp add: new_record_def)
qed

text \<open>The attempts of an outcome, from the first one of the loop on.\<close>

definition attempts_ok :: "'w retry_loop \<Rightarrow> nat \<Rightarrow> string \<Rightarrow> attempt_record list \<Rightarrow> bool" where
  "attempts_ok rl n raw recs \<longleftrightarrow> recs \<noteq> [] \<and> map at_num recs = [n..<n + length recs] \<and>
     n + length recs \<le> Suc (rl_max_retries rl) \<and> at_raw (hd recs) = raw \<and>
     (\<forall>r \<in> set (butlast recs). \<not> verified (at_verify r) \<and>
        (rl_stop_on_parse_error rl \<longrightarrow> at_parse_error r = None))"

lemma retry_from_attempts:
  assumes "retry_from rl cwd [n..<Suc (rl_max_retries rl)] raw acc w = (out, w')"
    "n \<le> rl_max_retries rl"
  shows "\<exists>recs. ro_attempts out = acc @ recs \<and> attempts_ok rl n raw recs \<and>
    ro_final_verify out = at_verify (last recs) \<and> (ro_success out \<longleftrightarrow> verified (ro_final_verify out)) \<and>
    (ro_success out \<longleftrightarrow> ro_final_apply out \<noteq> None)"
  using assms
proof (induction "Suc (rl_max_retries rl) - n" arbitrary: n raw acc w)
  case (Suc d)
  have upt: "[n..<Suc (rl_max_retries rl)] = n # [Suc n..<Suc (rl_max_retries rl)]"
    using Suc.prems(2) by (simp add: upt_rec)
  obtain rec v w1 where one: "retry_attempt rl cwd n raw w = ((rec, v), w1)"
    by (cases "retry_attempt rl cwd n raw w") (metis surj_pair)
  note rec = retry_attempt_record [OF one]
  show ?case
  proof (cases v)
    case (Return ok fv fa)
    with Suc.prems one rec show ?thesis
      unfolding upt by (intro exI [of _ "[rec]"]) (auto simp: attempts_ok_def verdict_ok_def)
  next
    case (Again new_raw)
    with rec have less: "Suc n \<le> rl_max_retries rl"
      using Suc.prems(2) by (auto simp: verdict_ok_def)
    have rest: "retry_from rl cwd [Suc n..<Suc (rl_max_retries rl)] new_raw (acc @ [rec]) w1 = (out, w')"
      using Suc.prems(1) one Again unfolding upt by (simp del: upt_Suc)
    have "d = Suc (rl_max_retries rl) - Suc n" using Suc.hyps(2) by simp
    from Suc.hyps(1) [OF this rest less] obtain recs where recs:
      "ro_attempts out = (acc @ [rec]) @ recs" "attempts_ok rl (Suc n) new_raw recs"
      "ro_final_verify out = at_verify (last recs)" "ro_success out \<longleftrightarrow> verified (ro_final_verify out)"
      "ro_success out \<longleftrightarrow> ro_final_apply out \<noteq> None"
      by blast
    then have "attempts_ok rl n raw (rec # recs)"
      using rec Again by (auto simp: attempts_ok_def verdict_ok_def upt_conv_Cons simp del: upt_Suc)
    with recs show ?thesis by (intro exI [of _ "rec # recs"]) (auto simp: attempts_ok_def)
  qed
qed simp

subsection \<open>The files after the loop\<close>

text \<open>The verification command and the requester leave the files alone.\<close>

definition quiet :: "('w \<Rightarrow> component list \<rightharpoonup> string) \<Rightarrow> ('w \<Rightarrow> bool) \<Rightarrow> 'w retry_loop \<Rightarrow> bool" where
  "quiet view good rl \<longleftrightarrow>
     (\<forall>cwd w vr w'. good w \<longrightarrow> rl_verify rl cwd w = (vr, w') \<longrightarrow> good w' \<and> view w' = view w) \<and>
     (\<forall>c w r w'. good w \<longrightarrow> rl_request rl c w = (r, w') \<longrightarrow> good w' \<and> view w' = view w)"

lemma quiet_verify:
  "quiet view good rl \<Longrightarrow> good w \<Longrightarrow> rl_verify rl cwd w = (vr, w') \<Longrightarrow> good w' \<and> view w' = view w"
  unfolding quiet_def by blast

lemma quiet_request:
  "quiet view good rl \<Longrightarrow> good w \<Longrightarrow> rl_request rl c w = (r, w') \<Longrightarrow> good w' \<and> view w' = view w"
  unfolding quiet_def by blast

text \<open>The outcome of an attempt (or of the loop) in terms of the files before and after it.\<close>

definition leaves ::
  "('w \<Rightarrow> component list \<rightharpoonup> string) \<Rightarrow> 'w retry_loop \<Rightarrow> path \<Rightarrow> string \<Rightarrow> apply_result option \<Rightarrow>
     (component list \<rightharpoonup> string) \<Rightarrow> (component list \<rightharpoonup> string) \<Rightarrow> bool" where
  "leaves view rl cwd raw fa m m' = (case fa of
       None \<Rightarrow> m' = m
     | Some res \<Rightarrow> (\<exists>parsed w0 w1. parse (rl_json rl) raw = Inr parsed \<and> view w0 = m \<and>
         apply_parsed (rl_ops rl) parsed cwd w0 = (Inr res, w1) \<and> m' = view w1))"

lemma leaves_None [simp]: "leaves view rl cwd raw None m m' \<longleftrightarrow> m' = m"
  by (simp add: leaves_def)

context reliable_store
begin

lemma give_up_or_ask_quiet:
  assumes "give_up_or_ask rl final reason fv rec w = ((rec', v), w')" "quiet view good rl" "good w"
  shows "good w' \<and> view w' = view w \<and> (\<forall>ok fv' fa. v = Return ok fv' fa \<longrightarrow> fa = None)"
  using assms(1,3) quiet_request [OF assms(2,3)]
  by (auto simp: give_up_or_ask_def split: if_splits prod.splits sum.splits)

lemma apply_rollback_restores:
  assumes "good w" "apply_parsed ops parsed cwd w = (r, w1)" "good w2" "view w2 = view w1"
    and "rollback ops (case r of Inr res \<Rightarrow> res | Inl err \<Rightarrow> ae_partial err) w2 = (rep, w3)"
  shows "good w3 \<and> view w3 = view w"
proof -
  have "\<exists>new. ar_files (case r of Inr res \<Rightarrow> res | Inl err \<Rightarrow> ae_partial err) = new \<and>
     undoable (rev new) (view w1) \<and> undo_all (rev new) (view w1) = view w"
    using apply_edits_undoable [OF assms(1) assms(2) [unfolded apply_parsed_def]]
    by (simp add: empty_result_def)
  with assms(3-5) rollback_list_good [of w2 _ empty_report rep w3] show ?thesis
    by (auto simp: rollback_def)
qed

lemma verify_stage_quiet:
  assumes "verify_stage rl cwd res rec w1 = ((rec', v), w')" "quiet view good rl" "rl_ops rl = ops"
    and "good w" "apply_parsed ops parsed cwd w = (Inr res, w1)" "good w1"
  shows "good w' \<and> (v = Return True (at_verify rec') (Some res) \<and> view w' = view w1 \<or>
     view w' = view w \<and> (\<forall>ok fv fa. v = Return ok fv fa \<longrightarrow> fa = None))"
proof -
  obtain vr w2 where vr: "rl_verify rl cwd w1 = (vr, w2)" by (cases "rl_verify rl cwd w1") auto
  note q = quiet_verify [OF assms(2,6) vr]
  show ?thesis
  proof (cases "vr_success vr")
    case True
    with assms(1) vr q show ?thesis by (auto simp: verify_stage_def)
  next
    case False
    obtain rep w3 where rb: "rollback ops res w2 = (rep, w3)" by (cases "rollback ops res w2") auto
    have w3: "good w3 \<and> view w3 = view w"
      by (rule apply_rollback_restores [OF assms(4,5)]) (use q rb in auto)
    have "give_up_or_ask rl (at_num rec = rl_max_retries rl) (RVerifyError vr) (Some vr)
        (rec\<lparr>at_verify := Some vr, at_rolled_back := True\<rparr>) w3 = ((rec', v), w')"
      using assms(1,3) vr False rb by (simp add: verify_stage_def Let_def)
    from give_up_or_ask_quiet [OF this assms(2)] w3 show ?thesis by auto
  qed
qed

lemma rollback_partial_quiet:
  assumes "rollback_partial rl (ae_partial err) w1 = (rb, w2)" "rl_ops rl = ops"
    and "good w" "apply_parsed ops parsed cwd w = (Inl err, w1)"
  shows "good w2 \<and> view w2 = view w"
proof -
  have und: "good w1" "undo_all (rev (ar_files (ae_partial err))) (view w1) = view w"
    using apply_edits_undoable [OF assms(3) assms(4) [unfolded apply_parsed_def]]
    by (auto simp: empty_result_def)
  show ?thesis
  proof (cases "ar_files (ae_partial err) = []")
    case True
    with und assms(1) show ?thesis by (simp add: rollback_partial_def)
  next
    case False
    obtain rep w3 where rb: "rollback ops (ae_partial err) w1 = (rep, w3)"
      by (cases "rollback ops (ae_partial err) w1") auto
    with False assms(1,2) have "w2 = w3" by (auto simp: rollback_partial_def)
    with apply_rollback_restores [OF assms(3,4) und(1) refl, of rep w3] rb show ?thesis by simp
  qed
qed

lemma retry_attempt_quiet:
  assumes "retry_attempt rl cwd n raw w = ((rec, v), w')" "quiet view good rl" "rl_ops rl = ops" "good w"
  shows "good w' \<and> (case v of Again _ \<Rightarrow> view w' = view w
     | Return ok fv fa \<Rightarrow> leaves view rl cwd raw fa (view w) (view w'))"
proof (cases "parse (rl_json rl) raw")
  case (Inl e)
  with assms(1) obtain final reason fv rec0 where
    "give_up_or_ask rl final reason fv rec0 w = ((rec, v), w')"
    by (auto simp: retry_attempt_def Let_def)
  from give_up_or_ask_quiet [OF this assms(2,4)] show ?thesis
    by (cases v) (auto simp: leaves_def)
next
  case (Inr parsed)
  obtain r w1 where ap: "apply_parsed ops parsed cwd w = (r, w1)"
    by (cases "apply_parsed ops parsed cwd w") auto
  show ?thesis
  proof (cases r)
    case r: (Inr res)
    have "good w1"
      using apply_edits_undoable [OF assms(4) ap [unfolded apply_parsed_def]] by simp
    moreover have "verify_stage rl cwd res (new_record n raw) w1 = ((rec, v), w')"
      using assms(1,3) Inr ap r by (simp add: retry_attempt_def apply_stage_def)
    ultimately have "good w' \<and> (v = Return True (at_verify rec) (Some res) \<and> view w' = view w1 \<or>
       view w' = view w \<and> (\<forall>ok fv fa. v = Return ok fv fa \<longrightarrow> fa = None))"
      using verify_stage_quiet assms(2,3,4) ap r by blast
    moreover have "leaves view rl cwd raw (Some res) (view w) (view w1)"
      using Inr ap r assms(3) by (auto simp: leaves_def)
    ultimately show ?thesis by (cases v) auto
  next
    case r: (Inl err)
    obtain rb w2 where rb: "rollback_partial rl (ae_partial err) w1 = (rb, w2)"
      by (cases "rollback_partial rl (ae_partial err) w1") auto
    note w2 = rollback_partial_quiet [OF rb assms(3,4) ap [unfolded r]]
    obtain final reason fv rec0 where "give_up_or_ask rl final reason fv rec0 w2 = ((rec, v), w')"
      using assms(1,3) Inr ap r rb by (auto simp: retry_attempt_def apply_stage_def Let_def)
    from give_up_or_ask_quiet [OF this assms(2)] w2 show ?thesis
      by (cases v) (auto simp: leaves_def)
  qed
qed

lemma retry_from_quiet:
  assumes "retry_from rl cwd ns raw acc w = (out, w')" "quiet view good rl" "rl_ops rl = ops" "good w"
    "ns \<noteq> []" "\<forall>n \<in> set (butlast ns). n \<noteq> rl_max_retries rl" "last ns = rl_max_retries rl"
  shows "leaves view rl cwd (at_raw (last (ro_attempts out))) (ro_final_apply out) (view w) (view w')"
  using assms
proof (induction ns arbitrary: raw acc w)
  case (Cons n ns)
  obtain rec v w1 where one: "retry_attempt rl cwd n raw w = ((rec, v), w1)"
    by (cases "retry_attempt rl cwd n raw w") (metis surj_pair)
  note q = retry_attempt_quiet [OF one Cons.prems(2,3,4)]
  note rec = retry_attempt_record [OF one]
  show ?case
  proof (cases v)
    case (Return ok fv fa)
    with Cons.prems(1) one q rec show ?thesis by auto
  next
    case (Again new_raw)
    with one Cons.prems(1) have rest: "retry_from rl cwd ns new_raw (acc @ [rec]) w1 = (out, w')"
      by simp
    have "n \<noteq> rl_max_retries rl" using rec Again by (auto simp: verdict_ok_def)
    with Cons.prems(7) have "ns \<noteq> []" by auto
    with Cons.IH [OF rest Cons.prems(2,3)] q Again Cons.prems(6,7) show ?thesis
      by auto
  qed
qed simp

end

subsection \<open>Properties\<close>

definition demo_loop :: "nat \<Rightarrow> int \<Rightarrow> mem_fs retry_loop" where
  "demo_loop n code = \<lparr>rl_max_retries = n, rl_stop_on_parse_error = False,
     rl_verify = (\<lambda>cwd w. (verification_run 100 (Child [] [] (Exited (Some code))) 7, w)),
     rl_request = (\<lambda>c w. (if rc_attempt c = 2 then Inr small_file else Inl ''gone'', w)),
     rl_json = \<lparr>read_wrapper = (\<lambda>_. None), read_array = (\<lambda>_. None)\<rparr>, rl_ops = mem_ops\<rparr>"

lemma demo_loop_quiet: "quiet files healthy (demo_loop n code)"
  by (simp add: quiet_def demo_loop_def)

lemmas demo_eval = execute_def retry_attempt_def apply_stage_def verify_stage_def give_up_or_ask_def
  demo_loop_def parse_nothing parse_small_file new_record_def verification_run_def

text \<open>The empty output, then a file that is verified with the given exit code.\<close>

lemma demo_loop_ok:
  "\<exists>rec rec' fa. execute (demo_loop 3 0) [] ''w'' demo_fs =
     (\<lparr>ro_success = True, ro_attempts = [rec, rec'], ro_final_verify = at_verify rec', ro_final_apply = Some fa\<rparr>,
      demo_fs\<lparr>files := (files demo_fs)([Normal ''w'', Normal ''a''] \<mapsto> ''x'')\<rparr>) \<and>
     at_parse_error rec = Some ''no content to parse'' \<and> at_raw rec' = small_file"
  by (simp add: demo_eval upt_rec apply_eval demo_fs_def mem_defs path_eval)

lemma demo_loop_fails:
  "\<exists>rec rec' fv. execute (demo_loop 3 1) [] ''w'' demo_fs =
     (\<lparr>ro_success = False, ro_attempts = [rec, rec'], ro_final_verify = fv, ro_final_apply = None\<rparr>,
      demo_fs\<lparr>files := (files demo_fs)([Normal ''w'', Normal ''a''] \<mapsto> ''x'', [Normal ''w'', Normal ''a''] \<mapsto> ''one two'')\<rparr>) \<and>
     at_rolled_back rec' \<and> at_apply_error rec' = Some ''gone''"
  by (simp add: demo_eval upt_rec apply_eval demo_fs_def mem_defs path_eval rollback_def rollback_one_def)

text \<open>
  C40: The loop makes between one and \<open>max_retries + 1\<close> attempts, numbered from zero, the first on
  the initial output; it succeeds if and only if its last attempt was verified, and then and
  only then returns an apply result; no earlier attempt was verified (nor, when the loop stops on
  parse errors, had one); the returned verify result is that of the last attempt.
\<close>

theorem retry_attempts_bounded:
  assumes "execute rl raw cwd w = (out, w')"
  shows "attempts_ok rl 0 raw (ro_attempts out) \<and>
    ro_final_verify out = at_verify (last (ro_attempts out)) \<and>
    (ro_success out \<longleftrightarrow> verified (at_verify (last (ro_attempts out)))) \<and>
    (ro_success out \<longleftrightarrow> ro_final_apply out \<noteq> None)"
  using retry_from_attempts [OF assms [unfolded execute_def]] by auto

theorem retry_attempts_bounded_witness:
  "let (out, w') = execute (demo_loop 3 0) [] ''w'' demo_fs
   in ro_success out \<and> length (ro_attempts out) = 2 \<and> attempts_ok (demo_loop 3 0) 0 [] (ro_attempts out)"
proof -
  obtain out w' where x: "execute (demo_loop 3 0) [] ''w'' demo_fs = (out, w')"
    by (cases "execute (demo_loop 3 0) [] ''w'' demo_fs") auto
  with demo_loop_ok have "ro_success out" "length (ro_attempts out) = 2" by auto
  with retry_attempts_bounded [OF x] x show ?thesis by simp
qed

text \<open>
  C3: On a store without write faults, and with a verification and a requester that leave the
  files alone, a failed loop leaves every file as it was before the first attempt; a successful
  one leaves exactly the original files with the edits of the last attempt applied, and nothing
  of the earlier attempts.
\<close>

theorem retry_loop_transactional:
  assumes "healthy w" "rl_ops rl = mem_ops" "quiet files healthy rl" "execute rl raw cwd w = (out, w')"
  shows "(\<not> ro_success out \<and> files w' = files w) \<or>
    (ro_success out \<and> (\<exists>parsed res w0 w1. ro_final_apply out = Some res \<and>
       parse (rl_json rl) (at_raw (last (ro_attempts out))) = Inr parsed \<and> files w0 = files w \<and>
       apply_parsed mem_ops parsed cwd w0 = (Inr res, w1) \<and> files w' = files w1))"
proof -
  have "\<forall>n \<in> set (butlast [0..<Suc (rl_max_retries rl)]). n \<noteq> rl_max_retries rl" by simp
  then have "leaves files rl cwd (at_raw (last (ro_attempts out))) (ro_final_apply out) (files w) (files w')"
    using mem.retry_from_quiet [OF assms(4) [unfolded execute_def] assms(3,2,1)] by simp
  moreover have "ro_success out \<longleftrightarrow> ro_final_apply out \<noteq> None"
    using retry_from_attempts [OF assms(4) [unfolded execute_def]] by auto
  ultimately show ?thesis
    using assms(2) by (cases "ro_final_apply out") (auto simp: leaves_def)
qed

theorem retry_loop_transactional_witness:
  "let (out, w') = execute (demo_loop 3 1) [] ''w'' demo_fs
   in \<not> ro_success out \<and> at_rolled_back (last (ro_attempts out)) \<and> files w' = files demo_fs"
proof -
  obtain out w' where x: "execute (demo_loop 3 1) [] ''w'' demo_fs = (out, w')"
    by (cases "execute (demo_loop 3 1) [] ''w'' demo_fs") auto
  with demo_loop_fails have "\<not> ro_success out" "at_rolled_back (last (ro_attempts out))" by auto
  moreover have "rl_ops (demo_loop 3 1) = mem_ops" by (simp add: demo_loop_def)
  ultimately show ?thesis
    using retry_loop_transactional [OF demo_fs_healthy _ demo_loop_quiet x] x by simp
qed

text \<open>
  The loop drops the report of its rollbacks. When a created file cannot be removed again,
  the outcome is that of a clean rollback (one attempt, rolled back, no apply result), and the
  file is still there.
\<close>

theorem failed_rollback_unreported:
  "let w = demo_fs\<lparr>files := Map.empty, remove_fault := [[Normal ''w'', Normal ''a''] \<mapsto> ''busy'']\<rparr>;
       raw = small_file;
       (out, w') = execute (demo_loop 0 1) raw ''w'' w
   in map at_rolled_back (ro_attempts out) = [True] \<and> ro_final_apply out = None \<and>
      map at_apply_error (ro_attempts out) = [None] \<and> files w' [Normal ''w'', Normal ''a''] = Some ''x''"
  by (simp add: demo_eval apply_eval demo_fs_def mem_defs path_eval rollback_def rollback_one_def)

end
