(* ===== verification/Json.thy ===== *)
theory Json
  imports RustStr
begin

text \<open>
  JSON values as \<open>serde_json::Value\<close> has them, with the accessors the crate uses. Reading and
  printing JSON text is the library's and an argument of the model.
\<close>

datatype json =
    JNull
  | JBool bool
  | JInt int
  | JFloat string
  | JStr string
  | JArr "json list"
  | JObj "(string \<times> json) list"

record json_lib =
  js_parse :: "string \<Rightarrow> (string, json) result"
  js_show :: "json \<Rightarrow> string"

fun json_get :: "string \<Rightarrow> json \<Rightarrow> json option" where
  "json_get k (JObj m) = map_of m k"
| "json_get k _ = None"

text \<open>Integers outside \<open>i64\<close> and \<open>u64\<close> are read as floating-point numbers.\<close>

fun as_u64 :: "json \<Rightarrow> nat option" where
  "as_u64 (JInt n) = (if 0 \<le> n \<and> n < 2 ^ 64 then Some (nat n) else None)"
| "as_u64 _ = None"

fun as_str :: "json \<Rightarrow> string option" where
  "as_str (JStr s) = Some s"
| "as_str _ = None"

fun json_keys :: "json \<Rightarrow> string list" where
  "json_keys (JObj m) = map fst m"
| "json_keys _ = []"

end
