(* ===== verification/Backend.thy ===== *)
theory Backend
  imports FileStore Json "HOL-Library.Word"
begin

text \<open>
  \<open>src/backend/mod.rs\<close> (typed errors, token counts, query outputs, capabilities), the error
  classification of \<open>src/utils.rs\<close> and the HTTP mapping of \<open>src/backend/genai_error.rs\<close>. A
  backend is a record of a name and a query over a world.
\<close>

subsection \<open>Errors\<close>

datatype backend_error =
    Timeout string "64 word"
  | RateLimit string "64 word option"
  | Auth string
  | Network string
  | ParseFailed string
  | ExecutionFailed string "int option"
  | Unavailable string
  | ConfigError string

fun backend_error_str :: "backend_error \<Rightarrow> string" where
  "backend_error_str (Timeout m _) = ''timeout: '' @ m"
| "backend_error_str (RateLimit m _) = ''rate limited: '' @ m"
| "backend_error_str (Auth m) = ''auth: '' @ m"
| "backend_error_str (Network m) = ''network: '' @ m"
| "backend_error_str (ParseFailed m) = ''parse: '' @ m"
| "backend_error_str (ExecutionFailed m _) = ''execution failed: '' @ m"
| "backend_error_str (Unavailable m) = ''unavailable: '' @ m"
| "backend_error_str (ConfigError m) = ''config: '' @ m"

fun is_retryable :: "backend_error \<Rightarrow> bool" where
  "is_retryable (Timeout _ _) = True"
| "is_retryable (RateLimit _ _) = True"
| "is_retryable (Network _) = True"
| "is_retryable _ = False"

text \<open>The elapsed time is a \<open>u128\<close> number of milliseconds, clamped to \<open>u64\<close>.\<close>

fun with_elapsed :: "nat \<Rightarrow> backend_error \<Rightarrow> backend_error" where
  "with_elapsed ms (Timeout m _) = Timeout m (if ms < 2 ^ 64 then of_nat ms else - 1)"
| "with_elapsed ms e = e"

lemma with_elapsed_retryable [simp]: "is_retryable (with_elapsed ms e) = is_retryable e"
  by (cases e) simp_all

subsection \<open>Classification by message\<close>

datatype backend_error_kind =
  RateLimited | CapacityExhausted | AuthError | NetworkError | NotInstalled | Unknown

fun kind_description :: "backend_error_kind \<Rightarrow> string" where
  "kind_description RateLimited = ''rate limited''"
| "kind_description CapacityExhausted = ''no capacity available''"
| "kind_description AuthError = ''authentication failed''"
| "kind_description NetworkError = ''network error''"
| "kind_description NotInstalled = ''not installed''"
| "kind_description Unknown = ''failed''"

fun kind_hint :: "backend_error_kind \<Rightarrow> string option" where
  "kind_hint RateLimited = Some ''try again later or use fewer backends''"
| "kind_hint CapacityExhausted = Some ''try again later''"
| "kind_hint AuthError = Some ''check your API credentials''"
| "kind_hint NetworkError = Some ''check your internet connection''"
| "kind_hint NotInstalled = Some ''install the backend CLI tool''"
| "kind_hint Unknown = None"

fun kind_of_error :: "backend_error \<Rightarrow> backend_error_kind" where
  "kind_of_error (Timeout _ _) = NetworkError"
| "kind_of_error (RateLimit _ _) = RateLimited"
| "kind_of_error (Auth _) = AuthError"
| "kind_of_error (Network _) = NetworkError"
| "kind_of_error (ParseFailed _) = Unknown"
| "kind_of_error (ExecutionFailed _ _) = Unknown"
| "kind_of_error (Unavailable _) = CapacityExhausted"
| "kind_of_error (ConfigError _) = Unknown"

definition truncate :: "string \<Rightarrow> nat \<Rightarrow> string" where
  "truncate s max_chars = (if char_count s \<le> max_chars then s else take_chars max_chars s @ ''...'')"

definition summarize_backend_error :: "backend_error \<Rightarrow> string" where
  "summarize_backend_error err =
     (case kind_of_error err of
        Unknown \<Rightarrow>
          let msg = backend_error_str err;
              clean = trim (case str_lines msg of [] \<Rightarrow> msg | l # _ \<Rightarrow> l)
          in truncate clean 80
      | kind \<Rightarrow> (case kind_hint kind of
            Some hint \<Rightarrow> kind_description kind @ '' ('' @ hint @ '')''
          | None \<Rightarrow> kind_description kind))"

definition classify_backend_error :: "string \<Rightarrow> backend_error_kind" where
  "classify_backend_error error =
     (let error_lower = to_lowercase error; has = contains error_lower in
      if has ''429'' \<or> has ''rate limit'' \<or> has ''ratelimit'' \<or> has ''too many requests'' \<or> has ''quota''
        then RateLimited
      else if has ''capacity'' \<or> has ''resource_exhausted'' \<or> has ''no capacity'' \<or> has ''overloaded''
        then CapacityExhausted
      else if has ''401'' \<or> has ''403'' \<or> has ''unauthorized'' \<or> has ''forbidden'' \<or>
          has ''invalid api key'' \<or> has ''authentication''
        then AuthError
      else if has ''econnrefused'' \<or> has ''etimedout'' \<or> has ''enetunreach'' \<or>
          has ''connection refused'' \<or> has ''network'' \<or> has ''dns''
        then NetworkError
      else if has ''command not found'' \<or> has ''not found'' \<or> has ''no such file'' \<or> has ''enoent''
        then NotInstalled
      else Unknown)"

text \<open>\<open>From<anyhow::Error>\<close>, on the message of the error.\<close>

definition error_of_message :: "string \<Rightarrow> backend_error" where
  "error_of_message msg =
     (case classify_backend_error msg of
        RateLimited \<Rightarrow> RateLimit msg None
      | CapacityExhausted \<Rightarrow> Unavailable msg
      | AuthError \<Rightarrow> Auth msg
      | NetworkError \<Rightarrow> Network msg
      | NotInstalled \<Rightarrow> Unavailable msg
      | Unknown \<Rightarrow> ExecutionFailed msg None)"

text \<open>
  \<open>truncate_utf8\<close>: the characters (a lead byte and its continuation bytes) that end within the
  limit.
\<close>

fun char_len :: "string \<Rightarrow> nat" where
  "char_len s = (case s of [] \<Rightarrow> 0 | c # cs \<Rightarrow> Suc (length (takeWhile is_cont cs)))"

declare char_len.simps [simp del]

lemma char_len_pos: "s \<noteq> [] \<Longrightarrow> 0 < char_len s"
  by (cases s) (simp_all add: char_len.simps)

lemma char_len_le: "char_len s \<le> length s"
  by (cases s) (simp_all add: char_len.simps length_takeWhile_le)

function whole_chars :: "nat \<Rightarrow> string \<Rightarrow> string" where
  "whole_chars max_bytes s =
     (if s = [] \<or> max_bytes < char_len s then []
      else take (char_len s) s @ whole_chars (max_bytes - char_len s) (drop (char_len s) s))"
  by pat_completeness auto
termination
  by (relation "measure (length \<circ> snd)") (auto simp: char_len_pos)

declare whole_chars.simps [simp del]

definition truncate_utf8 :: "string \<Rightarrow> nat \<Rightarrow> string" where
  "truncate_utf8 s max_bytes = (if length s \<le> max_bytes then s else whole_chars max_bytes s)"

subsection \<open>Token counts, outputs, capabilities\<close>

definition sat_add :: "32 word \<Rightarrow> 32 word \<Rightarrow> 32 word" where
  "sat_add a b = (if unat a + unat b < 2 ^ 32 then a + b else - 1)"

record token_usage =
  prompt_tokens :: "32 word"
  completion_tokens :: "32 word"
  total_tokens :: "32 word"

definition token_usage_new :: "32 word \<Rightarrow> 32 word \<Rightarrow> token_usage" where
  "token_usage_new p c = \<lparr>prompt_tokens = p, completion_tokens = c, total_tokens = sat_add p c\<rparr>"

definition token_usage_add :: "token_usage \<Rightarrow> token_usage \<Rightarrow> token_usage" where
  "token_usage_add a b = token_usage_new (sat_add (prompt_tokens a) (prompt_tokens b))
     (sat_add (completion_tokens a) (completion_tokens b))"

text \<open>
  The parsed JSON of an output is not modelled: no modelled component reads it. Durations are
  in nanoseconds.
\<close>

record query_output =
  qo_stdout :: string
  qo_stderr :: "string option"
  qo_exit_code :: "int option"
  qo_model :: "string option"
  qo_duration :: nat
  qo_usage :: "token_usage option"
  qo_structured :: "json option"
  qo_backend :: string

definition from_text :: "string \<Rightarrow> string \<Rightarrow> nat \<Rightarrow> query_output" where
  "from_text txt backend duration = \<lparr>qo_stdout = txt, qo_stderr = None, qo_exit_code = None,
     qo_model = None, qo_duration = duration, qo_usage = None, qo_structured = None, qo_backend = backend\<rparr>"

definition from_process :: "string \<Rightarrow> string \<Rightarrow> int \<Rightarrow> string \<Rightarrow> nat \<Rightarrow> query_output" where
  "from_process out err code backend duration =
     \<lparr>qo_stdout = out, qo_stderr = opt_filter (\<lambda>s. s \<noteq> []) (Some err), qo_exit_code = Some code,
      qo_model = None, qo_duration = duration, qo_usage = None, qo_structured = None, qo_backend = backend\<rparr>"

record backend_capabilities =
  cap_tool_use :: bool
  cap_streaming :: bool
  cap_file_edit :: bool

definition no_capabilities :: backend_capabilities where
  "no_capabilities = \<lparr>cap_tool_use = False, cap_streaming = False, cap_file_edit = False\<rparr>"

text \<open>The lookup with the optional \<open>bedrock\<close> feature of the build as an argument.\<close>

definition capabilities_for_name :: "bool \<Rightarrow> string \<Rightarrow> backend_capabilities option" where
  "capabilities_for_name bedrock name =
     (if name \<in> {''tensorzero'', ''claude'', ''codex'', ''gemini''}
        then Some (no_capabilities\<lparr>cap_file_edit := True\<rparr>)
      else if name = ''ollama'' then Some no_capabilities
      else if bedrock \<and> name = ''bedrock'' then Some (no_capabilities\<lparr>cap_file_edit := True\<rparr>)
      else None)"

record 'w backend =
  bk_name :: string
  bk_query :: "string \<Rightarrow> path \<Rightarrow> string option \<Rightarrow> 'w \<Rightarrow> (backend_error, query_output) result \<times> 'w"

subsection \<open>HTTP status mapping\<close>

text \<open>The search for a status code between boundaries, from an offset on. It is called with
  non-empty codes only; with an empty one the loop would not advance.\<close>

function status_code_from :: "string \<Rightarrow> string \<Rightarrow> nat \<Rightarrow> bool" where
  "status_code_from haystack code start =
     (if code = [] then False
      else case find_sub code (drop start haystack) of
          None \<Rightarrow> False
        | Some rel \<Rightarrow>
            let i = start + rel;
                before_ok = (i = 0 \<or> \<not> is_ascii_alnum (haystack ! (i - 1)));
                after = i + length code;
                after_ok = (after = length haystack \<or> \<not> is_ascii_alnum (haystack ! after))
            in if before_ok \<and> after_ok then True else status_code_from haystack code after)"
  by pat_completeness auto
termination
proof (relation "measure (\<lambda>(h, c, s). length h - s)", goal_cases)
  case (2 haystack code start rel)
  from find_sub_Some [OF 2(2)] have "rel + length code \<le> length haystack - start" by simp
  with 2 show ?case by (cases code) auto
qed simp

declare status_code_from.simps [simp del]

definition contains_status_code :: "string \<Rightarrow> string \<Rightarrow> bool" where
  "contains_status_code haystack code = status_code_from haystack code 0"

definition auth_match :: "string \<Rightarrow> bool" where
  "auth_match lower \<longleftrightarrow> contains lower ''authentication_error'' \<or> contains lower ''unauthorized'' \<or>
     contains lower ''invalid x-api-key'' \<or> contains lower ''invalid api key'' \<or>
     contains_status_code lower ''401''"

definition rate_match :: "string \<Rightarrow> bool" where
  "rate_match lower \<longleftrightarrow> contains lower ''rate_limit'' \<or> contains lower ''rate limit'' \<or>
     contains lower ''too many requests'' \<or> contains_status_code lower ''429''"

definition classify_5xx_body :: "nat \<Rightarrow> string \<Rightarrow> backend_error option" where
  "classify_5xx_body status body =
     (let lower = to_lowercase body in
      if auth_match lower then
        Some (Auth (''genai HTTP '' @ nat_str status @ '' (upstream auth failure): '' @ body))
      else if rate_match lower then
        Some (RateLimit (''genai HTTP '' @ nat_str status @ '' (upstream rate limit): '' @ body) None)
      else None)"

definition classify_404_body :: "string \<Rightarrow> backend_error option" where
  "classify_404_body body =
     (if contains (to_lowercase body) ''unknown function''
      then Some (ConfigError (''genai unknown function: '' @ body)) else None)"

definition map_status :: "nat \<Rightarrow> string \<Rightarrow> backend_error" where
  "map_status status body =
     (let msg = ''genai HTTP '' @ nat_str status @ '': '' @ body in
      if status = 401 \<or> status = 403 then Auth msg
      else if status = 404 then unwrap_or (ExecutionFailed msg None) (classify_404_body body)
      else if status = 429 then RateLimit msg None
      else if status = 502 then unwrap_or (Network msg) (classify_5xx_body status body)
      else if 500 \<le> status \<and> status \<le> 599 then Network msg
      else ExecutionFailed msg None)"

text \<open>The errors of the \<open>genai\<close> client, as far as the mapping looks at them: their variant, the
  texts it prints, and how a transport error classifies itself.\<close>

datatype webc_error =
    ResponseFailedStatus nat string
  | ResponseFailedInvalidJson string string
  | ResponseFailedNotJson string string
  | Reqwest bool bool string
  | JsonValueExt string

datatype genai_error =
    WebModelCall webc_error
  | WebAdapterCall webc_error
  | ChatResponseGeneration string
  | StreamParse string
  | Resolver string
  | RequiresApiKey string
  | NoAuthData string
  | NoAuthResolver string
  | HttpError nat string
  | OtherError string

fun map_webc_error :: "webc_error \<Rightarrow> backend_error" where
  "map_webc_error (ResponseFailedStatus status body) = map_status status body"
| "map_webc_error (ResponseFailedInvalidJson body cause) =
     ParseFailed (''genai invalid JSON response: '' @ cause @ ''; body: '' @ body)"
| "map_webc_error (ResponseFailedNotJson ctype body) =
     ParseFailed (''genai non-JSON response (content-type '' @ ctype @ ''): '' @ body)"
| "map_webc_error (Reqwest timed_out connect e) =
     (if timed_out then Timeout (''genai request timed out: '' @ e) 0
      else if connect then Network (''genai connection failed: '' @ e)
      else Network (''genai request failed: '' @ e))"
| "map_webc_error (JsonValueExt e) = ParseFailed (''genai JSON value error: '' @ e)"

fun map_genai_error :: "genai_error \<Rightarrow> backend_error" where
  "map_genai_error (WebModelCall e) = map_webc_error e"
| "map_genai_error (WebAdapterCall e) = map_webc_error e"
| "map_genai_error (ChatResponseGeneration cause) = ParseFailed (''genai response parse error: '' @ cause)"
| "map_genai_error (StreamParse e) = ParseFailed (''genai stream parse error: '' @ e)"
| "map_genai_error (Resolver e) = ConfigError (''genai resolver error: '' @ e)"
| "map_genai_error (RequiresApiKey e) = Auth (''genai auth missing: '' @ e)"
| "map_genai_error (NoAuthData e) = Auth (''genai auth missing: '' @ e)"
| "map_genai_error (NoAuthResolver e) = Auth (''genai auth missing: '' @ e)"
| "map_genai_error (HttpError status body) = map_status status body"
| "map_genai_error (OtherError e) = ExecutionFailed (''genai call failed: '' @ e) None"

subsection \<open>Properties\<close>

lemma is_ascii_alnum_infix:
  assumes "\<forall>c \<in> set code. is_ascii_alnum c" "starts_with (drop i h) code" "i \<le> j" "j < i + length code"
  shows "is_ascii_alnum (h ! j)"
proof -
  obtain r where r: "drop i h = code @ r" using assms(2) by (auto simp: starts_with_iff)
  have len: "i + length code \<le> length h \<or> code = []"
    using arg_cong [OF r, of length] by (cases code) auto
  with assms(4) have "h ! j = drop i h ! (j - i)" using assms(3) by auto
  moreover have lt: "j - i < length code" using assms(3,4) by simp
  ultimately have "h ! j = code ! (j - i)" using r by (simp add: nth_append)
  with lt assms(1) show ?thesis by simp
qed

definition code_at :: "string \<Rightarrow> string \<Rightarrow> nat \<Rightarrow> bool" where
  "code_at h code i \<longleftrightarrow> starts_with (drop i h) code \<and> (i = 0 \<or> \<not> is_ascii_alnum (h ! (i - 1))) \<and>
     (i + length code = length h \<or> \<not> is_ascii_alnum (h ! (i + length code)))"

lemma status_code_from_iff:
  assumes "code \<noteq> []" "\<forall>c \<in> set code. is_ascii_alnum c"
  shows "start \<le> length h \<Longrightarrow> status_code_from h code start \<longleftrightarrow> (\<exists>i \<ge> start. i < length h \<and> code_at h code i)"
proof (induction "length h - start" arbitrary: start rule: less_induct)
  case less
  show ?case
  proof (cases "find_sub code (drop start h)")
    case None
    have "\<not> code_at h code i" if "start \<le> i" for i
    proof
      assume "code_at h code i"
      then obtain r where "drop i h = code @ r" by (auto simp: code_at_def starts_with_iff)
      moreover have "drop start h = take (i - start) (drop start h) @ drop i h"
        using that by (metis append_take_drop_id drop_drop le_add_diff_inverse2)
      ultimately have "drop start h = take (i - start) (drop start h) @ code @ r" by simp
      with None show False by (auto simp: find_sub_None)
    qed
    with None assms(1) show ?thesis by (subst status_code_from.simps) auto
  next
    case (Some rel)
    let ?i = "start + rel"
    have at: "starts_with (drop ?i h) code"
      using find_sub_Some [OF Some] unfolding starts_with_iff
      by (metis add.commute append_eq_conv_conj append_take_drop_id drop_drop length_take min.absorb2
          add_leD1)
    have bound: "?i + length code \<le> length h"
      using find_sub_Some [OF Some] less.prems by (simp add: le_diff_conv2)
    have least: "\<not> starts_with (drop j h) code" if "start \<le> j" "j < ?i" for j
      using find_sub_least [OF Some, of "j - start"] that by simp
    show ?thesis
    proof (cases "code_at h code ?i")
      case True
      with assms(1) Some bound have "status_code_from h code start"
        by (subst status_code_from.simps) (auto simp: code_at_def Let_def)
      moreover have "?i < length h" using bound assms(1) by (cases code) auto
      ultimately show ?thesis using True by (meson le_add1)
    next
      case False
      then have rest: "status_code_from h code start = status_code_from h code (?i + length code)"
        using assms(1) Some at by (subst status_code_from.simps) (auto simp: code_at_def Let_def)
      have skip: "\<not> code_at h code j" if "start \<le> j" "j < ?i + length code" for j
      proof (cases "?i < j")
        case True
        with that have "is_ascii_alnum (h ! (j - 1))"
          by (intro is_ascii_alnum_infix [OF assms(2) at]) auto
        with True show ?thesis by (auto simp: code_at_def)
      next
        case le: False
        show ?thesis
        proof (cases "j = ?i")
          case True with False show ?thesis by simp
        next
          case ne: False
          with le that least [of j] show ?thesis by (auto simp: code_at_def)
        qed
      qed
      have "length h - (?i + length code) < length h - start"
        using bound assms(1) by (cases code) auto
      note IH = less.hyps [OF this bound]
      have "(\<exists>k \<ge> start. k < length h \<and> code_at h code k) \<longleftrightarrow>
          (\<exists>k \<ge> ?i + length code. k < length h \<and> code_at h code k)" (is "?A \<longleftrightarrow> ?B")
      proof
        assume ?A
        then obtain k where k: "start \<le> k" "k < length h" "code_at h code k" by blast
        with skip [of k] have "?i + length code \<le> k" by (meson not_less)
        with k show ?B by blast
      next
        assume ?B
        then obtain k where k: "?i + length code \<le> k" "k < length h" "code_at h code k" by blast
        moreover from this(1) have "start \<le> k" by simp
        ultimately show ?A by blast
      qed
      with IH rest show ?thesis by simp
    qed
  qed
qed

text \<open>
  The status-code search finds a code exactly when it occurs somewhere as a whole token,
  delimited on both sides by the end of the text or a character that is not an ASCII letter or
  digit; that it skips over a rejected match loses nothing. For any non-empty alphanumeric code.
\<close>

theorem contains_status_code_iff:
  assumes "code \<noteq> []" "\<forall>c \<in> set code. is_ascii_alnum c"
  shows "contains_status_code h code \<longleftrightarrow>
    (\<exists>a b. h = a @ code @ b \<and> (a = [] \<or> \<not> is_ascii_alnum (last a)) \<and> (b = [] \<or> \<not> is_ascii_alnum (hd b)))"
    (is "_ \<longleftrightarrow> ?R")
proof -
  have "contains_status_code h code \<longleftrightarrow> (\<exists>i. i < length h \<and> code_at h code i)"
    using status_code_from_iff [OF assms, of 0 h] by (simp add: contains_status_code_def)
  also have "\<dots> \<longleftrightarrow> ?R"
  proof
    assume "\<exists>i. i < length h \<and> code_at h code i"
    then obtain i r where i: "i < length h" "drop i h = code @ r" "code_at h code i"
      by (auto simp: code_at_def starts_with_iff)
    have h: "h = take i h @ code @ r" using i(2) append_take_drop_id [of i h] by simp
    have len: "length h = i + length code + length r"
      using i(1) arg_cong [OF i(2), of length] by simp
    have "take i h = [] \<or> \<not> is_ascii_alnum (last (take i h))"
      using i(1,3) by (auto simp: code_at_def last_conv_nth)
    moreover have "r = [] \<or> \<not> is_ascii_alnum (hd r)"
    proof (cases r)
      case (Cons c cs)
      have "h ! (i + length code) = c"
        using i(1) by (subst h) (simp add: nth_append Cons)
      with i(3) len Cons show ?thesis by (auto simp: code_at_def)
    qed simp
    ultimately show ?R using h by blast
  next
    assume ?R
    then obtain a b where ab: "h = a @ code @ b" "a = [] \<or> \<not> is_ascii_alnum (last a)"
      "b = [] \<or> \<not> is_ascii_alnum (hd b)" by blast
    then have "code_at h code (length a)"
      by (cases b) (auto simp: code_at_def starts_with_iff nth_append last_conv_nth)
    moreover have "length a < length h" using ab(1) assms(1) by (cases code) auto
    ultimately show "\<exists>i. i < length h \<and> code_at h code i" by blast
  qed
  finally show ?thesis .
qed

theorem contains_status_code_iff_witness:
  "contains_status_code ''x4011 (401)'' ''401'' \<and> \<not> contains_status_code ''x4011'' ''401''"
proof -
  have code: "''401'' \<noteq> []" "\<forall>c \<in> set ''401''. is_ascii_alnum c" by (simp_all add: is_ascii_alnum_def)
  have "''x4011 (401)'' = ''x4011 ('' @ ''401'' @ '')''" by simp
  then have "contains_status_code ''x4011 (401)'' ''401''"
    unfolding contains_status_code_iff [OF code]
    by (intro exI [of _ "''x4011 (''"] exI [of _ "'')''"]) (simp add: is_ascii_alnum_def)
  moreover have "\<not> contains_status_code ''x4011'' ''401''"
    by (simp add: contains_status_code_def status_code_from.simps Let_def is_ascii_alnum_def)
  ultimately show ?thesis by blast
qed

text \<open>
  Which HTTP statuses are retried: exactly 429 and the 5xx ones, except a 502 whose body
  shows an upstream authentication failure. A 404 is never retried, whatever its body.
\<close>

theorem map_status_retryable_iff:
  "is_retryable (map_status status body) \<longleftrightarrow>
     status = 429 \<or> (500 \<le> status \<and> status \<le> 599 \<and> \<not> (status = 502 \<and> auth_match (to_lowercase body)))"
  by (auto simp: map_status_def classify_5xx_body_def classify_404_body_def Let_def)

text \<open>
  Token totals never wrap: the total of any sum of usages is at least each of its counts,
  and it is the exact sum whenever that fits 32 bits.
\<close>

lemma sat_add_unat: "unat (sat_add a b) = min (unat a + unat b) (2 ^ 32 - 1)"
proof (cases "unat a + unat b < 2 ^ 32")
  case True
  then show ?thesis by (simp add: sat_add_def unat_word_ariths)
next
  case False
  then show ?thesis by (simp add: sat_add_def unsigned_minus_1_eq_mask mask_eq_exp_minus_1)
qed

theorem token_usage_add_saturates:
  "unat (total_tokens (token_usage_add a b)) =
     min (unat (prompt_tokens a) + unat (prompt_tokens b) + unat (completion_tokens a) + unat (completion_tokens b))
       (2 ^ 32 - 1)"
  by (simp add: token_usage_add_def token_usage_new_def sat_add_unat)

end
