(* ===== verification/BackendRetry.thy ===== *)
theory BackendRetry
  imports Backend
begin

text \<open>
  \<open>src/backend/retry.rs\<close>: exponential backoff and the retrying decorator. Durations are
  nanoseconds; the random jitter is a function of the delay; a panic is the value \<open>None\<close>.
\<close>

record retry_policy =
  rp_max_retries :: nat
  rp_base_delay :: nat
  rp_max_delay :: nat

definition default_policy :: retry_policy where
  "default_policy = \<lparr>rp_max_retries = 3, rp_base_delay = 10 ^ 9, rp_max_delay = 30 * 10 ^ 9\<rparr>"

subsection \<open>The delay\<close>

text \<open>\<open>2_u32.pow(e)\<close>: an overflow panics in a checked build and wraps in an unchecked one.\<close>

definition pow2_u32 :: "bool \<Rightarrow> nat \<Rightarrow> nat option" where
  "pow2_u32 checked e = (if e < 32 then Some (2 ^ e) else if checked then None else Some 0)"

text \<open>A \<open>Duration\<close> holds less than \<open>2^64\<close> seconds; arithmetic beyond panics in every build.\<close>

definition MAX_DURATION :: nat where
  "MAX_DURATION = 2 ^ 64 * 10 ^ 9"

definition duration :: "nat \<Rightarrow> nat option" where
  "duration d = (if d < MAX_DURATION then Some d else None)"

text \<open>\<open>attempt as u32 - 1\<close>.\<close>

definition attempt_exponent :: "bool \<Rightarrow> nat \<Rightarrow> nat option" where
  "attempt_exponent checked attempt =
     (let a = attempt mod 2 ^ 32 in
      if 0 < a then Some (a - 1) else if checked then None else Some (2 ^ 32 - 1))"

definition get_delay :: "bool \<Rightarrow> (nat \<Rightarrow> nat) \<Rightarrow> retry_policy \<Rightarrow> nat \<Rightarrow> nat option" where
  "get_delay checked jitter pol attempt =
     (if attempt = 0 then Some 0
      else case attempt_exponent checked attempt of
          None \<Rightarrow> None
        | Some e \<Rightarrow> (case pow2_u32 checked e of
              None \<Rightarrow> None
            | Some ex \<Rightarrow> (case duration (rp_base_delay pol * ex) of
                  None \<Rightarrow> None
                | Some delay \<Rightarrow> map_option (\<lambda>d. min d (rp_max_delay pol)) (duration (jitter delay)))))"

subsection \<open>The decorator\<close>

text \<open>The pause before an attempt: the server's \<open>retry_after\<close> when the last error carries one.\<close>

definition retry_pause :: "(nat \<Rightarrow> nat option) \<Rightarrow> backend_error option \<Rightarrow> nat \<Rightarrow> nat list option" where
  "retry_pause delay last_error attempt =
     (if attempt = 0 then Some []
      else case last_error of
          Some (RateLimit _ (Some ms)) \<Rightarrow> Some [unat ms * 10 ^ 6]
        | _ \<Rightarrow> map_option (\<lambda>d. [d]) (delay attempt))"

definition loop_exhausted :: backend_error where
  "loop_exhausted = ExecutionFailed ''Retry loop exhausted without error'' None"

text \<open>The attempts that are left, the last error, the pauses so far and the world.\<close>

fun retry_query_from ::
  "(nat \<Rightarrow> nat option) \<Rightarrow> ('w \<Rightarrow> (backend_error, query_output) result \<times> 'w) \<Rightarrow> nat list \<Rightarrow>
     backend_error option \<Rightarrow> nat list \<Rightarrow> 'w \<Rightarrow>
     ((backend_error, query_output) result option \<times> nat list) \<times> 'w" where
  "retry_query_from delay inner [] last_error pauses w =
     ((Some (Inl (unwrap_or loop_exhausted last_error)), pauses), w)"
| "retry_query_from delay inner (n # ns) last_error pauses w =
     (case retry_pause delay last_error n of
        None \<Rightarrow> ((None, pauses), w)
      | Some p \<Rightarrow> (case inner w of
            (Inr out, w') \<Rightarrow> ((Some (Inr out), pauses @ p), w')
          | (Inl e, w') \<Rightarrow>
              if is_retryable e then retry_query_from delay inner ns (Some e) (pauses @ p) w'
              else ((Some (Inl e), pauses @ p), w')))"

definition retry_query ::
  "bool \<Rightarrow> (nat \<Rightarrow> nat) \<Rightarrow> retry_policy \<Rightarrow> 'w backend \<Rightarrow> string \<Rightarrow> path \<Rightarrow> string option \<Rightarrow> 'w \<Rightarrow>
     ((backend_error, query_output) result option \<times> nat list) \<times> 'w" where
  "retry_query checked jitter pol inner prompt cwd model w =
     retry_query_from (get_delay checked jitter pol) (bk_query inner prompt cwd model)
       [0..<Suc (rp_max_retries pol)] None [] w"

subsection \<open>The specification\<close>

text \<open>The results of successive calls, and the first of them that ends a run.\<close>

fun calls :: "('w \<Rightarrow> 'r \<times> 'w) \<Rightarrow> nat \<Rightarrow> 'w \<Rightarrow> 'r list" where
  "calls q 0 w = []"
| "calls q (Suc n) w = fst (q w) # calls q n (snd (q w))"

definition retryable_failure :: "(backend_error, 'a) result \<Rightarrow> bool" where
  "retryable_failure r = (case r of Inl e \<Rightarrow> is_retryable e | Inr _ \<Rightarrow> False)"

text \<open>The results up to and including the first conclusive one.\<close>

fun conclusive :: "(backend_error, 'a) result list \<Rightarrow> (backend_error, 'a) result list" where
  "conclusive [] = []"
| "conclusive (r # rs) = (if retryable_failure r then r # conclusive rs else [r])"

lemma conclusive_ne [simp]: "conclusive rs = [] \<longleftrightarrow> rs = []"
  by (cases rs) auto

lemma conclusive_length: "length (conclusive rs) \<le> length rs"
  by (induction rs) auto

lemma calls_length [simp]: "length (calls q n w) = n"
  by (induction n arbitrary: w) auto

lemma retry_pause_total:
  assumes "delay n \<noteq> None"
  shows "\<exists>p. retry_pause delay le n = Some p \<and> length p = (if n = 0 then 0 else 1)"
proof -
  obtain d where "delay n = Some d" using assms by auto
  then show ?thesis by (auto simp: retry_pause_def split: option.splits backend_error.splits)
qed

lemma retry_query_from_spec:
  assumes total: "\<forall>n \<in> set ns. delay n \<noteq> None"
  shows "\<exists>pauses'. fst (retry_query_from delay inner ns le pauses w) =
      (Some (if ns = [] then Inl (unwrap_or loop_exhausted le) else last (conclusive (calls inner (length ns) w))), pauses') \<and>
    length pauses' = length pauses + length (filter (\<lambda>n. n \<noteq> 0) (take (length (conclusive (calls inner (length ns) w))) ns))"
  using total
proof (induction ns arbitrary: le pauses w)
  case (Cons n ns)
  have "delay n \<noteq> None" and total: "\<forall>n \<in> set ns. delay n \<noteq> None" using Cons.prems by simp_all
  then obtain p where p: "retry_pause delay le n = Some p" "length p = (if n = 0 then 0 else 1)"
    using retry_pause_total by blast
  obtain r w' where q: "inner w = (r, w')" by (cases "inner w") auto
  show ?case
  proof (cases "retryable_failure r")
    case True
    then obtain e where e: "r = Inl e" "is_retryable e"
      by (auto simp: retryable_failure_def split: sum.splits)
    have step: "retry_query_from delay inner (n # ns) le pauses w =
        retry_query_from delay inner ns (Some e) (pauses @ p) w'"
      using p q e by simp
    from Cons.IH [OF total, of "Some e" "pauses @ p" w'] show ?thesis
      unfolding step using p(2) q e True by (cases ns) auto
  next
    case False
    then have "retry_query_from delay inner (n # ns) le pauses w = ((Some r, pauses @ p), w')"
      using p q by (auto simp: retryable_failure_def split: sum.splits)
    with False p(2) q show ?thesis by simp
  qed
qed simp

text \<open>
  C31: As long as the delays are defined, the decorator returns what the first conclusive call
  returns (a success or a fatal error), or the last of \<open>max_retries + 1\<close> transient errors; it
  makes no call after that, and sleeps exactly once between two calls.
\<close>

theorem retry_query_spec:
  assumes "\<forall>n \<le> rp_max_retries pol. get_delay checked jitter pol n \<noteq> None"
  shows "\<exists>pauses. fst (retry_query checked jitter pol b prompt cwd model w) =
      (Some (last (conclusive (calls (bk_query b prompt cwd model) (Suc (rp_max_retries pol)) w))), pauses) \<and>
    Suc (length pauses) = length (conclusive (calls (bk_query b prompt cwd model) (Suc (rp_max_retries pol)) w))"
proof -
  let ?rs = "calls (bk_query b prompt cwd model) (Suc (rp_max_retries pol)) w"
  let ?k = "length (conclusive ?rs)"
  have k: "0 < ?k" "?k \<le> Suc (rp_max_retries pol)"
    using conclusive_length [of ?rs] by auto
  have "take ?k [0..<Suc (rp_max_retries pol)] = [0..<?k]"
    using k(2) by (simp only: take_upt add_0)
  moreover have "[0..<?k] = 0 # [1..<?k]" using k(1) by (simp add: upt_conv_Cons)
  ultimately have "length (filter (\<lambda>n. n \<noteq> 0) (take ?k [0..<Suc (rp_max_retries pol)])) = ?k - 1"
    by (simp add: filter_id_conv)
  moreover have "\<forall>n \<in> set [0..<Suc (rp_max_retries pol)]. get_delay checked jitter pol n \<noteq> None"
    using assms by auto
  ultimately show ?thesis
    using k retry_query_from_spec [of "[0..<Suc (rp_max_retries pol)]" "get_delay checked jitter pol" "bk_query b prompt cwd model" None "[]" w]
    by (auto simp: retry_query_def simp del: upt_Suc calls.simps)
qed

text \<open>A backend that fails once with the given error, then answers.\<close>

definition flaky_backend :: "backend_error \<Rightarrow> nat backend" where
  "flaky_backend e = \<lparr>bk_name = ''codex'', bk_query = (\<lambda>prompt cwd model n.
     (if n = 0 then Inl e else Inr (from_text prompt ''codex'' 5), Suc n))\<rparr>"

definition zero_policy :: retry_policy where
  "zero_policy = \<lparr>rp_max_retries = 2, rp_base_delay = 0, rp_max_delay = 7\<rparr>"

lemma zero_policy_total: "get_delay False (\<lambda>d. d) zero_policy n \<noteq> None"
  by (auto simp: get_delay_def zero_policy_def attempt_exponent_def pow2_u32_def duration_def
      MAX_DURATION_def Let_def split: option.splits)

theorem retry_query_spec_witness:
  "(\<exists>p. fst (retry_query False (\<lambda>d. d) zero_policy (flaky_backend (Network ''down'')) ''hi'' ''w'' None 0) =
     (Some (Inr (from_text ''hi'' ''codex'' 5)), p) \<and> length p = 1) \<and>
   (\<exists>p. fst (retry_query False (\<lambda>d. d) zero_policy (flaky_backend (Auth ''no'')) ''hi'' ''w'' None 0) =
     (Some (Inl (Auth ''no'')), p) \<and> p = [])"
proof -
  have total: "\<forall>n \<le> rp_max_retries zero_policy. get_delay False (\<lambda>d. d) zero_policy n \<noteq> None" using zero_policy_total by blast
  have 1: "conclusive (calls (bk_query (flaky_backend (Network ''down'')) ''hi'' ''w'' None) (Suc (rp_max_retries zero_policy)) 0)
      = [Inl (Network ''down''), Inr (from_text ''hi'' ''codex'' 5)]"
    by (simp add: zero_policy_def flaky_backend_def numeral_2_eq_2 retryable_failure_def)
  have 2: "conclusive (calls (bk_query (flaky_backend (Auth ''no'')) ''hi'' ''w'' None) (Suc (rp_max_retries zero_policy)) 0)
      = [Inl (Auth ''no'')]"
    by (simp add: zero_policy_def flaky_backend_def numeral_2_eq_2 retryable_failure_def)
  show ?thesis
    using retry_query_spec [OF total, of "flaky_backend (Network ''down'')" "''hi''" "''w''" None 0]
      retry_query_spec [OF total, of "flaky_backend (Auth ''no'')" "''hi''" "''w''" None 0]
    unfolding 1 2 by simp
qed

text \<open>
  The computed delay never exceeds the policy's maximum; it is the doubled base delay with
  jitter for the first 32 attempts. From attempt 33 on the power of two overflows 32 bits: a
  checked build panics, an unchecked one retries with a factor of zero, so with no pause at all
  for a proportional jitter.
\<close>

theorem get_delay_backoff:
  "(\<forall>d. get_delay checked jitter pol attempt = Some d \<longrightarrow> d \<le> rp_max_delay pol) \<and>
   (0 < attempt \<and> attempt \<le> 32 \<and> duration (rp_base_delay pol * 2 ^ (attempt - 1)) \<noteq> None \<longrightarrow>
      get_delay checked jitter pol attempt =
        map_option (\<lambda>d. min d (rp_max_delay pol)) (duration (jitter (rp_base_delay pol * 2 ^ (attempt - 1))))) \<and>
   (32 < attempt \<and> attempt < 2 ^ 32 \<longrightarrow> get_delay True jitter pol attempt = None \<and>
      (jitter 0 = 0 \<longrightarrow> get_delay False jitter pol attempt = Some 0))"
proof -
  have exp: "attempt_exponent checked attempt = Some (attempt - 1)" if "0 < attempt" "attempt < 2 ^ 32" for checked
    using that by (simp add: attempt_exponent_def Let_def)
  show ?thesis
    by (intro conjI impI allI)
      (auto simp: get_delay_def exp pow2_u32_def duration_def MAX_DURATION_def split: option.splits if_splits)
qed

theorem get_delay_backoff_witness:
  "get_delay True (\<lambda>d. d) default_policy 33 = None \<and> get_delay False (\<lambda>d. d) default_policy 33 = Some 0 \<and>
   get_delay True (\<lambda>d. d) default_policy 3 = Some (4 * 10 ^ 9)"
proof -
  have "get_delay True (\<lambda>d. d) default_policy 3 = Some (4 * 10 ^ 9)"
    using get_delay_backoff [of True "\<lambda>d. d" default_policy 3]
    by (simp add: default_policy_def duration_def MAX_DURATION_def)
  with get_delay_backoff [of True "\<lambda>d. d" default_policy 33] show ?thesis by simp
qed

end
