(* ===== verification/Aggregator.thy ===== *)
theory Aggregator
  imports Json Backend Family
begin

text \<open>
  \<open>src/aggregator/mod.rs\<close> and \<open>src/aggregator/concat.rs\<close>: the verdict of a branch, and the
  folding of branch outcomes into one text. The configuration types of \<open>vote.rs\<close> are here too,
  since the \<open>Aggregator\<close> enum carries them.
\<close>

subsection \<open>Branches and configuration\<close>

record branch_success =
  bs_backend :: string
  bs_family :: string
  bs_index :: nat
  bs_output :: string

record branch_failure =
  bf_backend :: string
  bf_family :: string
  bf_index :: nat
  bf_reason :: string

datatype branch_outcome = Success branch_success | Failure branch_failure

record aggregated_artifact =
  aa_text :: string
  aa_successful :: nat
  aa_failed :: nat

datatype aggregator_error =
    Unsupported string
  | NoSuccessfulBranches
  | BranchFailures string

datatype ballot_schema = FreeText

datatype tie_break = ClosestToFamily family | RandomSeed nat | FirstResponder

record vote_config =
  vc_schema :: ballot_schema
  vc_tie_break :: tie_break
  vc_abstain_threshold :: nat

datatype aggregator =
    First
  | Concat string
  | AnyFail
  | AllPass
  | LLMJudge string string bool
  | Vote vote_config

text \<open>The schema-facing label of \<open>src/strategy/mod.rs\<close>.\<close>

datatype aggregator_label = LFirst | LConcat | LAnyFail | LAllPass | LVote | LLLMJudge

fun label_str :: "aggregator_label \<Rightarrow> string" where
  "label_str LFirst = ''first''"
| "label_str LConcat = ''concat''"
| "label_str LAnyFail = ''any_fail''"
| "label_str LAllPass = ''all_pass''"
| "label_str LVote = ''vote''"
| "label_str LLLMJudge = ''llm_judge''"

fun aggregator_kind :: "aggregator \<Rightarrow> aggregator_label" where
  "aggregator_kind First = LFirst"
| "aggregator_kind (Concat _) = LConcat"
| "aggregator_kind AnyFail = LAnyFail"
| "aggregator_kind AllPass = LAllPass"
| "aggregator_kind (LLMJudge _ _ _) = LLLMJudge"
| "aggregator_kind (Vote _) = LVote"

subsection \<open>Verdicts\<close>

datatype any_fail_reason =
    VerdictRejected string
  | VerdictContract string
  | VerdictBackendError string

definition strip_markdown_fences :: "string \<Rightarrow> string" where
  "strip_markdown_fences txt =
     (let t1 = unwrap_or txt (strip_prefix ''```json'' txt);
          t2 = unwrap_or t1 (strip_prefix ''```'' t1);
          t3 = unwrap_or t2 (strip_suffix ''```'' t2)
      in trim t3)"

definition any_fail_evaluate :: "json_lib \<Rightarrow> string \<Rightarrow> (any_fail_reason, unit) result" where
  "any_fail_evaluate js txt =
     (let stripped = strip_markdown_fences (trim txt) in
      case js_parse js stripped of
        Inl e \<Rightarrow> Inl (VerdictContract (''JSON parse error: '' @ e))
      | Inr v \<Rightarrow> (case json_get ''pass'' v of
            Some (JBool True) \<Rightarrow> Inr ()
          | Some (JBool False) \<Rightarrow> Inl (VerdictRejected stripped)
          | Some other \<Rightarrow> Inl (VerdictContract (''expected bool, got '' @ js_show js other))
          | None \<Rightarrow> Inl (VerdictContract (''missing required field '' @ quoted ''pass''))))"

subsection \<open>First and all-pass\<close>

fun first_from :: "nat \<Rightarrow> branch_outcome list \<Rightarrow> (aggregator_error, aggregated_artifact) result" where
  "first_from failed [] = Inl NoSuccessfulBranches"
| "first_from failed (Success s # bs) =
     Inr \<lparr>aa_text = bs_output s, aa_successful = 1, aa_failed = failed\<rparr>"
| "first_from failed (Failure f # bs) = first_from (failed + 1) bs"

definition aggregate_first :: "branch_outcome list \<Rightarrow> (aggregator_error, aggregated_artifact) result" where
  "aggregate_first branches = first_from 0 branches"

text \<open>The successes and the failures of a list of branches, each in order.\<close>

fun successes_of :: "branch_outcome list \<Rightarrow> branch_success list" where
  "successes_of [] = []"
| "successes_of (Success s # bs) = s # successes_of bs"
| "successes_of (Failure f # bs) = successes_of bs"

fun failures_of :: "branch_outcome list \<Rightarrow> branch_failure list" where
  "failures_of [] = []"
| "failures_of (Success s # bs) = failures_of bs"
| "failures_of (Failure f # bs) = f # failures_of bs"

definition blank_line :: string where
  "blank_line = [CHR 0x0A, CHR 0x0A]"

definition aggregate_all_pass :: "branch_outcome list \<Rightarrow> (aggregator_error, aggregated_artifact) result" where
  "aggregate_all_pass branches =
     (let outputs = map bs_output (successes_of branches);
          failures = map (\<lambda>f. ''#'' @ nat_str (bf_index f) @ '' '' @ bf_backend f @ '': '' @ bf_reason f)
            (failures_of branches)
      in if failures \<noteq> [] then Inl (BranchFailures (str_join ''; '' failures))
         else Inr \<lparr>aa_text = str_join blank_line outputs, aa_successful = length outputs, aa_failed = 0\<rparr>)"

subsection \<open>Concatenation\<close>

definition EMPTY_CONCAT_SENTINEL :: string where
  "EMPTY_CONCAT_SENTINEL = ''<!-- loker: concat aggregator received no target outputs -->''"

function render_heading :: "string \<Rightarrow> string \<Rightarrow> string \<Rightarrow> nat \<Rightarrow> string" where
  "render_heading template backend_id fam index =
     (case find_char (CHR ''{'') template of
        None \<Rightarrow> template
      | Some start \<Rightarrow>
          take start template @
          (let rest = drop start template in
           case strip_prefix ''{backend_id}'' rest of
             Some r \<Rightarrow> backend_id @ render_heading r backend_id fam index
           | None \<Rightarrow> (case strip_prefix ''{family}'' rest of
                 Some r \<Rightarrow> fam @ render_heading r backend_id fam index
               | None \<Rightarrow> (case strip_prefix ''{index}'' rest of
                     Some r \<Rightarrow> nat_str index @ render_heading r backend_id fam index
                   | None \<Rightarrow> (case find_char (CHR ''}'') rest of
                         Some e \<Rightarrow> take (e + 1) rest @ render_heading (drop (e + 1) rest) backend_id fam index
                       | None \<Rightarrow> rest)))))"
  by pat_completeness auto
termination
  by (relation "measure (\<lambda>(t, b, f, i). length t)")
    (auto simp: strip_prefix_eq_Some dest!: find_char_Some dest: arg_cong [where f = length])

declare render_heading.simps [simp del]

definition render_success :: "string \<Rightarrow> branch_success \<Rightarrow> string" where
  "render_success heading_template s =
     (let heading = render_heading heading_template (bs_backend s) (bs_family s) (bs_index s);
          out = trim (bs_output s)
      in if out = [] then heading else heading @ blank_line @ out)"

definition render_reason :: "string \<Rightarrow> string" where
  "render_reason reason =
     str_replace [CHR 0x0A] [CHR 0x5C, CHR ''n'']
       (str_replace [CHR 0x0D] [CHR 0x0A] (str_replace [CHR 0x0D, CHR 0x0A] [CHR 0x0A] (trim reason)))"

definition render_error :: "branch_failure \<Rightarrow> string" where
  "render_error f =
     ''- backend_id: '' @ bf_backend f @ CHR 0x0A # ''  family: '' @ bf_family f @
     CHR 0x0A # ''  index: '' @ nat_str (bf_index f) @
     CHR 0x0A # ''  reason: '' @ render_reason (bf_reason f)"

definition render_errors :: "branch_failure list \<Rightarrow> string" where
  "render_errors failures = ''## Errors'' @ concat (map (\<lambda>f. blank_line @ render_error f) failures)"

definition aggregate_concat :: "string \<Rightarrow> branch_outcome list \<Rightarrow> (aggregator_error, aggregated_artifact) result" where
  "aggregate_concat heading_template branches =
     (if branches = [] then
        Inr \<lparr>aa_text = EMPTY_CONCAT_SENTINEL, aa_successful = 0, aa_failed = 0\<rparr>
      else
        let sections = map (render_success heading_template) (successes_of branches);
            failures = failures_of branches;
            parts = (if failures \<noteq> [] then sections @ [render_errors failures] else sections);
            txt = (if parts = [] then [] else str_join blank_line parts) @ [CHR 0x0A]
        in Inr \<lparr>aa_text = txt, aa_successful = length sections, aa_failed = length failures\<rparr>)"

fun aggregate :: "aggregator \<Rightarrow> branch_outcome list \<Rightarrow> (aggregator_error, aggregated_artifact) result" where
  "aggregate First input = aggregate_first input"
| "aggregate (Concat heading_template) input = aggregate_concat heading_template input"
| "aggregate AnyFail input =
     Inl (Unsupported ''AnyFail is evaluated inline by ParallelFanOut, not via aggregate()'')"
| "aggregate AllPass input = aggregate_all_pass input"
| "aggregate (LLMJudge _ _ _) input =
     Inl (Unsupported ''LLMJudge requires async backend access; use aggregate_llm_judge()'')"
| "aggregate (Vote _) input =
     Inl (Unsupported ''Vote is evaluated inline by ParallelFanOut, not via aggregate()'')"

end
