(* ===== verification/AggregatorProps.thy ===== *)
theory AggregatorProps
  imports Aggregator
begin

text \<open>Properties of the pure aggregators.\<close>

subsection \<open>Headings\<close>

lemma find_char_append_lit:
  "c \<notin> set a \<Longrightarrow> find_char c (a @ s) = map_option (\<lambda>i. length a + i) (find_char c s)"
  by (induction a; cases "find_char c s") auto

lemma render_heading_lit:
  assumes "CHR ''{'' \<notin> set lit"
  shows "render_heading (lit @ t) b f i = lit @ render_heading t b f i"
  using assms
  by (subst (1 2) render_heading.simps) (simp add: find_char_append_lit split: option.split)

lemma render_heading_placeholders:
  "render_heading (''{backend_id}'' @ t) b f i = b @ render_heading t b f i"
  "render_heading (''{family}'' @ t) b f i = f @ render_heading t b f i"
  "render_heading (''{index}'' @ t) b f i = nat_str i @ render_heading t b f i"
  by (subst render_heading.simps, simp)+

text \<open>A heading template as the documentation describes it: literal text and placeholders.\<close>

datatype piece = Lit string | PBackend | PFamily | PIndex

fun piece_src :: "piece \<Rightarrow> string" where
  "piece_src (Lit s) = s"
| "piece_src PBackend = ''{backend_id}''"
| "piece_src PFamily = ''{family}''"
| "piece_src PIndex = ''{index}''"

fun piece_val :: "string \<Rightarrow> string \<Rightarrow> nat \<Rightarrow> piece \<Rightarrow> string" where
  "piece_val b f i (Lit s) = s"
| "piece_val b f i PBackend = b"
| "piece_val b f i PFamily = f"
| "piece_val b f i PIndex = nat_str i"

text \<open>
  A heading template of literal text and placeholders renders to the literal text with each
  placeholder replaced by its value; a value that looks like a placeholder is not expanded again.
\<close>

theorem render_heading_substitutes:
  assumes "\<forall>s. Lit s \<in> set ps \<longrightarrow> CHR ''{'' \<notin> set s"
  shows "render_heading (concat (map piece_src ps)) b f i = concat (map (piece_val b f i) ps)"
  using assms
proof (induction ps)
  case Nil
  show ?case by (simp add: render_heading.simps)
next
  case (Cons p ps)
  have IH: "render_heading (concat (map piece_src ps)) b f i = concat (map (piece_val b f i) ps)"
    using Cons by simp
  show ?case
  proof (cases p)
    case (Lit s)
    with Cons.prems have "CHR ''{'' \<notin> set s" by simp
    with Lit IH show ?thesis by (simp add: render_heading_lit)
  qed (simp_all only: list.map concat.simps piece_src.simps piece_val.simps render_heading_placeholders IH)
qed

theorem render_heading_substitutes_witness:
  "render_heading ''## {backend_id} #{index}'' ''x{index}'' ''local'' 7 = ''## x{index} #7''"
  using render_heading_substitutes [of "[Lit ''## '', PBackend, Lit '' #'', PIndex]" "''x{index}''" "''local''" 7]
  by (simp add: nat_str.simps char_of_def bit_Suc_0_iff)

subsection \<open>Concatenation and the other folds\<close>

lemma successes_failures_length: "length (successes_of bs) + length (failures_of bs) = length bs"
  by (induction bs rule: successes_of.induct) auto

lemma contains_infix [intro]: "contains (a @ p @ b) p"
  by (auto simp: contains_iff)

lemma contains_append: "contains s p \<Longrightarrow> contains (a @ s @ b) p"
  by (metis append.assoc contains_iff)

lemma contains_join: "x \<in> set xs \<Longrightarrow> contains (str_join sep xs) x"
proof (induction sep xs rule: str_join.induct)
  case (2 sep x')
  then show ?case by (simp add: contains_iff) (metis append_Nil append_Nil2)
next
  case (3 sep x' y ys)
  show ?case
  proof (cases "x = x'")
    case True
    then show ?thesis using contains_infix [of "[]" x' "sep @ str_join sep (y # ys)"] by simp
  next
    case False
    with 3 have "contains (str_join sep (y # ys)) x" by simp
    from contains_append [OF this, of "x' @ sep" "[]"] show ?thesis by simp
  qed
qed simp

lemma contains_trans: "contains s t \<Longrightarrow> contains t p \<Longrightarrow> contains s p"
  by (metis append.assoc contains_iff)

lemma render_success_contains: "contains (render_success h s) (trim (bs_output s))"
proof (cases "trim (bs_output s) = []")
  case True
  then show ?thesis by (auto simp: contains_iff)
next
  case False
  then show ?thesis
    using contains_infix [of "render_heading h (bs_backend s) (bs_family s) (bs_index s) @ blank_line" "trim (bs_output s)" "[]"]
    by (simp add: render_success_def Let_def)
qed

lemma render_errors_contains: "f \<in> set fs \<Longrightarrow> contains (render_errors fs) (render_error f)"
proof -
  assume "f \<in> set fs"
  then obtain a b where "fs = a @ f # b" by (metis split_list)
  then have "render_errors fs = (''## Errors'' @ concat (map (\<lambda>f. blank_line @ render_error f) a) @ blank_line) @
      render_error f @ concat (map (\<lambda>f. blank_line @ render_error f) b)"
    by (simp add: render_errors_def)
  then show ?thesis using contains_infix by metis
qed

text \<open>
  The concatenation loses no branch: it never fails, counts every branch as a success or a
  failure, and its text contains the output of every successful branch and the error entry of
  every failed one.
\<close>

theorem aggregate_concat_complete:
  "\<exists>a. aggregate (Concat h) bs = Inr a \<and> aa_successful a + aa_failed a = length bs \<and>
     aa_successful a = length (successes_of bs) \<and>
     (\<forall>s \<in> set (successes_of bs). contains (aa_text a) (trim (bs_output s))) \<and>
     (\<forall>f \<in> set (failures_of bs). contains (aa_text a) (render_error f))"
proof (cases "bs = []")
  case True
  then show ?thesis by (simp add: aggregate_concat_def)
next
  case False
  let ?parts = "map (render_success h) (successes_of bs) @
    (if failures_of bs \<noteq> [] then [render_errors (failures_of bs)] else [])"
  have ne: "?parts \<noteq> []" using False successes_failures_length [of bs] by auto
  have shape: "aggregate (Concat h) bs = Inr \<lparr>aa_text = str_join blank_line ?parts @ [CHR 0x0A],
      aa_successful = length (successes_of bs), aa_failed = length (failures_of bs)\<rparr>"
    using False ne by (auto simp: aggregate_concat_def Let_def)
  have part: "contains (str_join blank_line ?parts @ [CHR 0x0A]) p" if "q \<in> set ?parts" "contains q p" for p q
    using contains_append [OF contains_trans [OF contains_join [OF that(1), of blank_line] that(2)], of "[]"] by simp
  have "contains (str_join blank_line ?parts @ [CHR 0x0A]) (trim (bs_output s))" if "s \<in> set (successes_of bs)" for s
    by (rule part [OF _ render_success_contains]) (use that in auto)
  moreover have "contains (str_join blank_line ?parts @ [CHR 0x0A]) (render_error f)" if "f \<in> set (failures_of bs)" for f
    by (rule part [OF _ render_errors_contains [OF that]]) (use that in auto)
  ultimately show ?thesis
    using shape successes_failures_length [of bs] by auto
qed

theorem aggregate_concat_complete_witness:
  "\<exists>a. aggregate (Concat ''## {backend_id}'')
       [Success \<lparr>bs_backend = ''b'', bs_family = ''google'', bs_index = 1, bs_output = ''yes''\<rparr>,
        Failure \<lparr>bf_backend = ''c'', bf_family = ''local'', bf_index = 2, bf_reason = ''down''\<rparr>] = Inr a \<and>
     aa_successful a + aa_failed a = 2 \<and> contains (aa_text a) (trim ''yes'')"
  using aggregate_concat_complete [of "''## {backend_id}''"
      "[Success \<lparr>bs_backend = ''b'', bs_family = ''google'', bs_index = 1, bs_output = ''yes''\<rparr>,
        Failure \<lparr>bf_backend = ''c'', bf_family = ''local'', bf_index = 2, bf_reason = ''down''\<rparr>]"]
  by auto

text \<open>
  An error entry takes exactly four lines: whatever the failure reason contains, the
  rendered reason has no line break, so a reason cannot forge further entries of the footer.
\<close>

lemma replace_from_absent:
  "c \<notin> set r \<Longrightarrow> c \<notin> set (replace_from [c] r k s)"
  by (induction "[c]" r k s rule: replace_from.induct) (auto simp: starts_with_iff)

theorem render_reason_single_line:
  "CHR 0x0A \<notin> set (render_reason reason)"
  unfolding render_reason_def str_replace_def by (rule replace_from_absent) simp

text \<open>
  The all-pass fold succeeds exactly when no branch failed, and then joins every output;
  the first-success fold returns the first successful branch and how many failed before it.
\<close>

lemma first_from_spec:
  "first_from n bs = (case successes_of bs of
     [] \<Rightarrow> Inl NoSuccessfulBranches
   | s # _ \<Rightarrow> Inr \<lparr>aa_text = bs_output s, aa_successful = 1,
       aa_failed = n + length (takeWhile (\<lambda>b. \<exists>f. b = Failure f) bs)\<rparr>)"
  by (induction n bs rule: first_from.induct) (auto split: list.splits)

theorem aggregate_first_all_pass_spec:
  "(is_ok (aggregate AllPass bs) \<longleftrightarrow> failures_of bs = []) \<and>
   (failures_of bs = [] \<longrightarrow> aggregate AllPass bs =
      Inr \<lparr>aa_text = str_join blank_line (map bs_output (successes_of bs)), aa_successful = length bs, aa_failed = 0\<rparr>) \<and>
   aggregate First bs = (case successes_of bs of
     [] \<Rightarrow> Inl NoSuccessfulBranches
   | s # _ \<Rightarrow> Inr \<lparr>aa_text = bs_output s, aa_successful = 1,
       aa_failed = length (takeWhile (\<lambda>b. \<exists>f. b = Failure f) bs)\<rparr>)"
  using successes_failures_length [of bs]
  by (auto simp: aggregate_all_pass_def aggregate_first_def first_from_spec Let_def split: list.splits)

theorem aggregate_first_all_pass_spec_witness:
  "aggregate AllPass [Success \<lparr>bs_backend = ''codex'', bs_family = ''openai'', bs_index = 1, bs_output = ''hi''\<rparr>] =
     Inr \<lparr>aa_text = ''hi'', aa_successful = 1, aa_failed = 0\<rparr>"
  using aggregate_first_all_pass_spec
    [of "[Success \<lparr>bs_backend = ''codex'', bs_family = ''openai'', bs_index = 1, bs_output = ''hi''\<rparr>]"]
  by simp

text \<open>
  A branch passes the inline verdict check exactly when its output, without Markdown fences
  and surrounding space, parses to an object whose \<open>pass\<close> is the boolean true: anything else, a
  missing or non-boolean field included, is an error and never a pass.
\<close>

theorem any_fail_evaluate_ok_iff:
  "any_fail_evaluate js txt = Inr () \<longleftrightarrow>
     (\<exists>m. js_parse js (strip_markdown_fences (trim txt)) = Inr (JObj m) \<and> map_of m ''pass'' = Some (JBool True))"
proof -
  have get: "json_get k v = Some x \<longleftrightarrow> (\<exists>m. v = JObj m \<and> map_of m k = Some x)" for k v x
    by (cases v) auto
  show ?thesis
    by (auto simp: any_fail_evaluate_def Let_def get split: sum.splits option.splits json.splits bool.splits)
qed

end
