(* ===== verification/Vote.thy ===== *)
theory Vote
  imports Aggregator
begin

text \<open>
  \<open>src/aggregator/vote.rs\<close>: the vote over branch outcomes. Lower-casing and the seeded random
  choice are arguments: ballots are compared by the full Unicode lower case, and the seeded
  generator is a library.
\<close>

record vote_candidate =
  cd_backend :: string
  cd_family :: string
  cd_normalised :: string
  cd_original :: string
  cd_arrival :: nat

record vote_result =
  vt_winner :: string
  vt_counts :: "(string \<times> nat) list"
  vt_abstain :: nat
  vt_total :: nat
  vt_tie_broken :: bool
  vt_rule :: string

datatype vote_error = VoteQuorumLost nat nat | NoCandidates

definition normalise_ballot :: "(string \<Rightarrow> string) \<Rightarrow> string \<Rightarrow> string" where
  "normalise_ballot lower txt = lower (trim txt)"

subsection \<open>Ballots\<close>

text \<open>Abstentions (failures and blank outputs) and candidates, from an arrival position on.\<close>

fun collect_votes :: "(string \<Rightarrow> string) \<Rightarrow> nat \<Rightarrow> branch_outcome list \<Rightarrow> nat \<times> vote_candidate list" where
  "collect_votes lower n [] = (0, [])"
| "collect_votes lower n (Failure f # bs) =
     (let (abstains, cs) = collect_votes lower (n + 1) bs in (abstains + 1, cs))"
| "collect_votes lower n (Success s # bs) =
     (let (abstains, cs) = collect_votes lower (n + 1) bs;
          normalised = normalise_ballot lower (bs_output s)
      in if normalised = [] then (abstains + 1, cs)
         else (abstains, \<lparr>cd_backend = bs_backend s, cd_family = bs_family s, cd_normalised = normalised,
                          cd_original = bs_output s, cd_arrival = n\<rparr> # cs))"

definition vote_buckets :: "vote_candidate list \<Rightarrow> (string \<times> nat list) list" where
  "vote_buckets cs = bucket_all bt_upd (enumerate 0 (map cd_normalised cs)) []"

definition max_votes :: "(string \<times> nat list) list \<Rightarrow> nat" where
  "max_votes buckets = foldr max (map (\<lambda>(k, v). length v) buckets) 0"

definition tied_buckets :: "(string \<times> nat list) list \<Rightarrow> string list" where
  "tied_buckets buckets = map fst (filter (\<lambda>(k, v). length v = max_votes buckets) buckets)"

subsection \<open>Ties\<close>

definition USIZE_MAX :: nat where
  "USIZE_MAX = 2 ^ 64 - 1"

definition bucket_members :: "(string \<times> nat list) list \<Rightarrow> vote_candidate list \<Rightarrow> string \<Rightarrow> vote_candidate list" where
  "bucket_members buckets cs k = map (\<lambda>i. cs ! i) (unwrap_or [] (map_of buckets k))"

definition first_arrival :: "(string \<times> nat list) list \<Rightarrow> vote_candidate list \<Rightarrow> string \<Rightarrow> nat" where
  "first_arrival buckets cs k =
     (case map cd_arrival (bucket_members buckets cs k) of
        [] \<Rightarrow> USIZE_MAX
      | a # as \<Rightarrow> foldr min as a)"

definition first_responder :: "string list \<Rightarrow> vote_candidate list \<Rightarrow> (string \<times> nat list) list \<Rightarrow> string" where
  "first_responder tied cs buckets = unwrap_or (hd tied) (min_by_key (first_arrival buckets cs) tied)"

fun resolve_tie ::
  "(nat \<Rightarrow> nat \<Rightarrow> nat) \<Rightarrow> string list \<Rightarrow> vote_candidate list \<Rightarrow> (string \<times> nat list) list \<Rightarrow> tie_break \<Rightarrow> string" where
  "resolve_tie rng tied cs buckets FirstResponder = first_responder tied cs buckets"
| "resolve_tie rng tied cs buckets (ClosestToFamily target) =
     (let matching = filter (\<lambda>k. \<exists>c \<in> set (bucket_members buckets cs k). family_of (cd_backend c) = target) tied
      in case matching of
           [] \<Rightarrow> first_responder tied cs buckets
         | [k] \<Rightarrow> k
         | _ \<Rightarrow> first_responder matching cs buckets)"
| "resolve_tie rng tied cs buckets (RandomSeed seed) = tied ! rng seed (length tied)"

fun format_tie_break_rule :: "tie_break \<Rightarrow> string" where
  "format_tie_break_rule (ClosestToFamily f) = ''closest_to_family('' @ family_str f @ '')''"
| "format_tie_break_rule (RandomSeed seed) = ''random(seed='' @ nat_str seed @ '')''"
| "format_tie_break_rule FirstResponder = ''first_responder''"

subsection \<open>The aggregate\<close>

definition sanitize_comment :: "string \<Rightarrow> string" where
  "sanitize_comment s = str_replace ''-->'' ''-- >'' s"

definition vote_metadata :: "vote_result \<Rightarrow> string list" where
  "vote_metadata r =
     [''<!-- loker: Vote aggregator metadata'',
      ''  winner: '' @ sanitize_comment (vt_winner r),
      ''  total_branches: '' @ nat_str (vt_total r),
      ''  vote_counts:''] @
     map (\<lambda>(s, n). ''    '' @ sanitize_comment s @ '': '' @ nat_str n) (vt_counts r) @
     [''  abstain_count: '' @ nat_str (vt_abstain r),
      ''  tie_broken: '' @ bool_str (vt_tie_broken r),
      ''  tie_break_rule: '' @ sanitize_comment (vt_rule r),
      ''-->'', '''']"

definition build_aggregated_text ::
  "vote_result \<Rightarrow> vote_candidate list \<Rightarrow> (string \<times> nat list) list \<Rightarrow> string" where
  "build_aggregated_text r cs buckets =
     (let winner_original = (case map_of buckets (vt_winner r) of
            Some (i # _) \<Rightarrow> if i < length cs then cd_original (cs ! i) else vt_winner r
          | _ \<Rightarrow> vt_winner r)
      in str_join [CHR 0x0A] ([winner_original, ''''] @ vote_metadata r))"

definition aggregate_vote ::
  "(string \<Rightarrow> string) \<Rightarrow> (nat \<Rightarrow> nat \<Rightarrow> nat) \<Rightarrow> branch_outcome list \<Rightarrow> vote_config \<Rightarrow>
     (vote_error, aggregated_artifact \<times> vote_result) result" where
  "aggregate_vote lower rng branches config =
     (let (abstain_count, candidates) = collect_votes lower 0 branches in
      if abstain_count > vc_abstain_threshold config then
        Inl (VoteQuorumLost abstain_count (vc_abstain_threshold config))
      else if candidates = [] then Inl NoCandidates
      else
        let buckets = vote_buckets candidates;
            winners = tied_buckets buckets;
            strict_majority = max_votes buckets * 2 > length candidates;
            counts = map (\<lambda>(k, v). (k, length v)) buckets;
            result =
              (if strict_majority then
                 \<lparr>vt_winner = hd winners, vt_counts = counts, vt_abstain = abstain_count,
                  vt_total = length branches, vt_tie_broken = False, vt_rule = ''none (strict majority)''\<rparr>
               else
                 \<lparr>vt_winner = resolve_tie rng winners candidates buckets (vc_tie_break config),
                  vt_counts = counts, vt_abstain = abstain_count, vt_total = length branches,
                  vt_tie_broken = True, vt_rule = format_tie_break_rule (vc_tie_break config)\<rparr>);
            sorted_result = result\<lparr>vt_counts := sort_key (\<lambda>(k, n). - int n) (vt_counts result)\<rparr>
        in Inr (\<lparr>aa_text = build_aggregated_text sorted_result candidates buckets,
                 aa_successful = length candidates, aa_failed = abstain_count\<rparr>, sorted_result))"

subsection \<open>Lemmas\<close>

lemma collect_votes_length:
  "collect_votes lower n bs = (a, cs) \<Longrightarrow> a + length cs = length bs"
  by (induction lower n bs arbitrary: a cs rule: collect_votes.induct)
    (auto simp: Let_def split: prod.splits if_splits)

definition ballots :: "vote_candidate list \<Rightarrow> string list" where
  "ballots cs = map cd_normalised cs"

lemma bucket_entry:
  "(k, v) \<in> set (vote_buckets cs) \<longleftrightarrow> k \<in> set (ballots cs) \<and>
     v = map fst (filter (\<lambda>p. snd p = k) (enumerate 0 (ballots cs)))"
proof -
  have "snd ` set (enumerate 0 (ballots cs)) = set (ballots cs)"
    by (metis list.set_map map_snd_enumerate)
  then show ?thesis
    unfolding vote_buckets_def ballots_def [symmetric] bt_bucket.bucket_entries by simp
qed

lemma positions_count:
  "length (map fst (filter (\<lambda>p. snd p = k) (enumerate n xs))) = count_list xs k"
  by (induction xs arbitrary: n) auto

lemma bt_inv_buckets: "bt_inv (vote_buckets cs)"
  unfolding vote_buckets_def by (rule bt_bucket.inv_bucket_all) (rule bt_inv_facts)

lemma bucket_look:
  "map_of (vote_buckets cs) k = (if k \<in> set (ballots cs)
     then Some (map fst (filter (\<lambda>p. snd p = k) (enumerate 0 (ballots cs)))) else None)"
proof (cases "k \<in> set (ballots cs)")
  case True
  then show ?thesis
    using bucket_entry [of k _ cs] bt_inv_facts(2) [OF bt_inv_buckets] by simp
next
  case False
  then have "k \<notin> fst ` set (vote_buckets cs)" by (auto simp: bucket_entry)
  with False show ?thesis by (simp add: map_of_eq_None_iff)
qed

lemma max_votes_count:
  assumes "cs \<noteq> []"
  shows "(\<forall>k. count_list (ballots cs) k \<le> max_votes (vote_buckets cs)) \<and>
    (\<exists>k \<in> set (ballots cs). count_list (ballots cs) k = max_votes (vote_buckets cs))"
proof -
  let ?ls = "map (\<lambda>(k, v). length v) (vote_buckets cs)"
  have set_ls: "set ?ls = count_list (ballots cs) ` set (ballots cs)"
  proof (rule set_eqI)
    fix n
    have "n \<in> set ?ls \<longleftrightarrow> (\<exists>k v. (k, v) \<in> set (vote_buckets cs) \<and> n = length v)" by force
    also have "\<dots> \<longleftrightarrow> n \<in> count_list (ballots cs) ` set (ballots cs)"
      unfolding bucket_entry by (auto simp: positions_count simp del: length_map)
    finally show "n \<in> set ?ls \<longleftrightarrow> n \<in> count_list (ballots cs) ` set (ballots cs)" .
  qed
  have "count_list (ballots cs) k \<le> foldr max ?ls 0" for k
  proof (cases "k \<in> set (ballots cs)")
    case True
    with set_ls show ?thesis by (intro foldr_max_ge) auto
  qed (simp add: count_notin)
  moreover have "?ls \<noteq> []" using set_ls assms by (auto simp: ballots_def)
  from foldr_max_in [OF this] set_ls
  have "\<exists>k \<in> set (ballots cs). count_list (ballots cs) k = foldr max ?ls 0" by auto
  ultimately show ?thesis unfolding max_votes_def by blast
qed

lemma tied_iff:
  "k \<in> set (tied_buckets (vote_buckets cs)) \<longleftrightarrow>
     k \<in> set (ballots cs) \<and> count_list (ballots cs) k = max_votes (vote_buckets cs)"
  by (force simp: tied_buckets_def bucket_entry positions_count [simplified length_map])

lemma tied_ne: "cs \<noteq> [] \<Longrightarrow> tied_buckets (vote_buckets cs) \<noteq> []"
  using max_votes_count tied_iff by (metis empty_iff empty_set)

lemma first_responder_in:
  assumes "tied \<noteq> []"
  shows "first_responder tied cs b \<in> set tied \<and> (\<forall>k \<in> set tied. first_arrival b cs (first_responder tied cs b) \<le> first_arrival b cs k)"
proof (cases "min_by_key (first_arrival b cs) tied")
  case None
  with assms show ?thesis by simp
next
  case (Some k)
  with min_by_key_Some [OF Some] show ?thesis by (simp add: first_responder_def)
qed

lemma resolve_tie_in:
  assumes "tied \<noteq> []" "\<And>s n. 0 < n \<Longrightarrow> rng s n < n"
  shows "resolve_tie rng tied cs b tb \<in> set tied"
proof (cases tb)
  case (ClosestToFamily f)
  let ?m = "filter (\<lambda>k. \<exists>c \<in> set (bucket_members b cs k). family_of (cd_backend c) = f) tied"
  have sub: "set ?m \<subseteq> set tied" by auto
  consider "?m = []" | k where "?m = [k]" | k l ms where "?m = k # l # ms"
    by (cases ?m) (auto intro: list.exhaust)
  then show ?thesis
  proof cases
    case 1
    then show ?thesis
      unfolding ClosestToFamily resolve_tie.simps Let_def 1 list.case using first_responder_in [OF assms(1)] by blast
  next
    case 2
    with sub show ?thesis unfolding ClosestToFamily resolve_tie.simps Let_def 2 by simp
  next
    case 3
    have "first_responder (k # l # ms) cs b \<in> set (k # l # ms)"
      using first_responder_in [of "k # l # ms"] by simp
    then have "first_responder (k # l # ms) cs b \<in> set tied" using sub unfolding 3 by blast
    then show ?thesis unfolding ClosestToFamily resolve_tie.simps Let_def 3 by simp
  qed
next
  case (RandomSeed s)
  with assms show ?thesis by simp
next
  case FirstResponder
  with first_responder_in [OF assms(1)] show ?thesis by simp
qed

end
