(* ===== verification/VoteProps.thy ===== *)
theory VoteProps
  imports Vote
begin

text \<open>Properties of the vote: plurality, quorum, the first-responder rule, the comment block.\<close>

lemma count_list_two: "k \<noteq> k' \<Longrightarrow> count_list xs k + count_list xs k' \<le> length xs"
  by (induction xs) auto

lemma majority_unique:
  "2 * count_list xs k > length xs \<Longrightarrow> 2 * count_list xs k' > length xs \<Longrightarrow> k = k'"
  using count_list_two [of k k' xs] by (cases "k = k'") auto

lemma sort_key_desc: "sorted_wrt (\<lambda>a b. b \<le> a) (map snd (sort_key (\<lambda>(k, n). - int n) xs))"
proof -
  have "sorted (map (\<lambda>(k, n). - int n) (sort_key (\<lambda>(k, n). - int n) xs))" by simp
  then show ?thesis
    unfolding sorted_wrt_map by (rule sorted_wrt_mono_rel [rotated]) auto
qed

subsection \<open>The winner\<close>

definition vote_ballots :: "(string \<Rightarrow> string) \<Rightarrow> branch_outcome list \<Rightarrow> string list" where
  "vote_ballots lower bs = ballots (snd (collect_votes lower 0 bs))"

lemma aggregate_vote_ok:
  assumes "aggregate_vote lower rng bs cfg = Inr (a, r)"
  obtains ab cs where "collect_votes lower 0 bs = (ab, cs)" "cs \<noteq> []" "ab \<le> vc_abstain_threshold cfg"
    "vt_abstain r = ab"
    "vt_counts r = sort_key (\<lambda>(k, n). - int n) (map (\<lambda>(k, v). (k, length v)) (vote_buckets cs))"
    "vt_tie_broken r \<longleftrightarrow> \<not> max_votes (vote_buckets cs) * 2 > length cs"
    "vt_winner r = (if max_votes (vote_buckets cs) * 2 > length cs then hd (tied_buckets (vote_buckets cs))
       else resolve_tie rng (tied_buckets (vote_buckets cs)) cs (vote_buckets cs) (vc_tie_break cfg))"
proof -
  obtain ab cs where c: "collect_votes lower 0 bs = (ab, cs)" by (cases "collect_votes lower 0 bs") auto
  with assms have "cs \<noteq> []" "ab \<le> vc_abstain_threshold cfg"
    by (auto simp: aggregate_vote_def Let_def split: if_splits)
  with that [OF c] assms c show thesis
    by (auto simp: aggregate_vote_def Let_def split: if_splits)
qed

lemma vote_counts_iff:
  "(k, n) \<in> set (sort_key f (map (\<lambda>(k, v). (k, length v)) (vote_buckets cs))) \<longleftrightarrow>
     k \<in> set (ballots cs) \<and> n = count_list (ballots cs) k"
proof -
  have "(k, n) \<in> set (map (\<lambda>(k, v). (k, length v)) (vote_buckets cs)) \<longleftrightarrow>
      (\<exists>v. (k, v) \<in> set (vote_buckets cs) \<and> n = length v)" by force
  also have "\<dots> \<longleftrightarrow> k \<in> set (ballots cs) \<and> n = count_list (ballots cs) k"
    unfolding bucket_entry by (auto simp: positions_count simp del: length_map)
  finally show ?thesis by simp
qed

lemma winner_tied:
  assumes "aggregate_vote lower rng bs cfg = Inr (a, r)" "\<And>s n. 0 < n \<Longrightarrow> rng s n < n"
    and "collect_votes lower 0 bs = (ab, cs)"
  shows "vt_winner r \<in> set (tied_buckets (vote_buckets cs))"
  using assms(1)
proof (rule aggregate_vote_ok)
  fix ab' cs'
  assume c: "collect_votes lower 0 bs = (ab', cs')" "cs' \<noteq> []"
    "vt_winner r = (if max_votes (vote_buckets cs') * 2 > length cs' then hd (tied_buckets (vote_buckets cs'))
       else resolve_tie rng (tied_buckets (vote_buckets cs')) cs' (vote_buckets cs') (vc_tie_break cfg))"
  then have ne: "tied_buckets (vote_buckets cs) \<noteq> []" and cs: "cs' = cs"
    using tied_ne assms(3) by auto
  from resolve_tie_in [OF ne assms(2)] hd_in_set [OF ne] c(3) show ?thesis
    unfolding cs by auto
qed

text \<open>
  C18: The winner of a vote is a ballot that was cast, and no ballot was cast more often; a
  ballot with a strict majority always wins, whatever the tie-break; the result says that a tie
  was broken exactly when there was no strict majority; the published counts are the true ones
  in descending order; every branch is counted once, as a ballot or as an abstention.
\<close>

theorem vote_winner_plurality:
  assumes "aggregate_vote lower rng bs cfg = Inr (a, r)" "\<forall>s n. 0 < n \<longrightarrow> rng s n < n"
  shows "vt_winner r \<in> set (vote_ballots lower bs) \<and>
    (\<forall>k. count_list (vote_ballots lower bs) k \<le> count_list (vote_ballots lower bs) (vt_winner r)) \<and>
    (\<forall>k. 2 * count_list (vote_ballots lower bs) k > length (vote_ballots lower bs) \<longrightarrow> vt_winner r = k) \<and>
    (vt_tie_broken r \<longleftrightarrow> 2 * count_list (vote_ballots lower bs) (vt_winner r) \<le> length (vote_ballots lower bs)) \<and>
    (\<forall>k n. (k, n) \<in> set (vt_counts r) \<longleftrightarrow> k \<in> set (vote_ballots lower bs) \<and> n = count_list (vote_ballots lower bs) k) \<and>
    sorted_wrt (\<lambda>x y. y \<le> x) (map snd (vt_counts r)) \<and>
    vt_abstain r + length (vote_ballots lower bs) = length bs"
  using assms(1)
proof (rule aggregate_vote_ok)
  fix ab cs
  assume c: "collect_votes lower 0 bs = (ab, cs)" "cs \<noteq> []" "vt_abstain r = ab"
    "vt_counts r = sort_key (\<lambda>(k, n). - int n) (map (\<lambda>(k, v). (k, length v)) (vote_buckets cs))"
    "vt_tie_broken r \<longleftrightarrow> \<not> max_votes (vote_buckets cs) * 2 > length cs"
  have b: "vote_ballots lower bs = ballots cs" by (simp add: vote_ballots_def c(1))
  have len: "length (ballots cs) = length cs" by (simp add: ballots_def)
  have "vt_winner r \<in> set (tied_buckets (vote_buckets cs))"
    using winner_tied [OF assms(1) _ c(1)] assms(2) by blast
  then have w: "vt_winner r \<in> set (ballots cs)" "count_list (ballots cs) (vt_winner r) = max_votes (vote_buckets cs)"
    by (simp_all add: tied_iff)
  have max: "count_list (ballots cs) k \<le> count_list (ballots cs) (vt_winner r)" for k
    using max_votes_count [OF c(2)] w(2) by simp
  have maj: "vt_winner r = k" if "2 * count_list (ballots cs) k > length (ballots cs)" for k
    by (rule majority_unique [OF _ that]) (use max [of k] that in linarith)
  have "vt_tie_broken r \<longleftrightarrow> 2 * count_list (ballots cs) (vt_winner r) \<le> length (ballots cs)"
    using c(5) w(2) len by (simp add: mult.commute not_less)
  moreover have "\<forall>k n. (k, n) \<in> set (vt_counts r) \<longleftrightarrow> k \<in> set (ballots cs) \<and> n = count_list (ballots cs) k"
    unfolding c(4) vote_counts_iff by blast
  moreover have "sorted_wrt (\<lambda>x y. y \<le> x) (map snd (vt_counts r))"
    unfolding c(4) by (rule sort_key_desc)
  moreover have "vt_abstain r + length (ballots cs) = length bs"
    using collect_votes_length [OF c(1)] c(3) len by simp
  ultimately show ?thesis unfolding b using w(1) max maj by blast
qed

text \<open>A closed example: three ballots for two answers and a failed branch.\<close>

definition demo_success :: "string \<Rightarrow> nat \<Rightarrow> string \<Rightarrow> branch_outcome" where
  "demo_success b i out = Success \<lparr>bs_backend = b, bs_family = family_str (family_of b), bs_index = i, bs_output = out\<rparr>"

definition demo_branches :: "branch_outcome list" where
  "demo_branches = [demo_success ''codex'' 1 ''Yes'', Failure \<lparr>bf_backend = ''ollama'', bf_family = ''local'',
     bf_index = 2, bf_reason = ''down''\<rparr>, demo_success ''claude'' 2 ''no'', demo_success ''gemini'' 3 ''yes'']"

definition demo_config :: "nat \<Rightarrow> vote_config" where
  "demo_config t = \<lparr>vc_schema = FreeText, vc_tie_break = FirstResponder, vc_abstain_threshold = t\<rparr>"

lemma demo_trims: "trim ''Yes'' = ''Yes''" "trim ''no'' = ''no''" "trim ''yes'' = ''yes''"
  by (simp_all add: trim_def trim_start_def trim_end_def trim_with_id ws_encodings_def)

lemma demo_lower: "to_lowercase ''Yes'' = ''yes''" "to_lowercase ''no'' = ''no''" "to_lowercase ''yes'' = ''yes''"
  by (simp_all add: lower_char_def is_upper_def char_of_def bit_simps)

lemma demo_ballots: "vote_ballots to_lowercase demo_branches = [''yes'', ''no'', ''yes'']"
    "fst (collect_votes to_lowercase 0 demo_branches) = 1"
  by (simp_all add: vote_ballots_def ballots_def demo_branches_def demo_success_def normalise_ballot_def
      demo_trims demo_lower Let_def del: to_lowercase.simps)

theorem vote_winner_plurality_witness:
  "\<exists>a r. aggregate_vote to_lowercase (\<lambda>s n. 0) demo_branches (demo_config 1) = Inr (a, r) \<and>
     vt_winner r = ''yes'' \<and> \<not> vt_tie_broken r \<and> vt_abstain r = 1"
proof -
  obtain cs where cs: "collect_votes to_lowercase 0 demo_branches = (1, cs)"
    using demo_ballots(2) by (cases "collect_votes to_lowercase 0 demo_branches") auto
  then have b: "ballots cs = [''yes'', ''no'', ''yes'']" using demo_ballots(1) by (simp add: vote_ballots_def)
  then have "cs \<noteq> []" by (auto simp: ballots_def)
  with cs obtain a r where ok: "aggregate_vote to_lowercase (\<lambda>s n. 0) demo_branches (demo_config 1) = Inr (a, r)"
    by (auto simp: aggregate_vote_def demo_config_def Let_def)
  have rng: "\<forall>s n. 0 < n \<longrightarrow> (\<lambda>(s::nat) n. 0::nat) s n < n" by simp
  note p = vote_winner_plurality [OF ok rng]
  have "vt_winner r = ''yes''" using p demo_ballots(1) by simp
  moreover from this have "\<not> vt_tie_broken r" "vt_abstain r = 1"
    using p demo_ballots(1) by (simp_all add: demo_branches_def)
  ultimately show ?thesis using ok by blast
qed

text \<open>
  A vote is refused exactly when more branches abstained (failed or answered blank) than
  the threshold allows, reported with both numbers, or else when there is no ballot at all.
\<close>

theorem vote_quorum:
  "(\<forall>x t. aggregate_vote lower rng bs cfg = Inl (VoteQuorumLost x t) \<longleftrightarrow>
      x = fst (collect_votes lower 0 bs) \<and> t = vc_abstain_threshold cfg \<and> x > t) \<and>
   (aggregate_vote lower rng bs cfg = Inl NoCandidates \<longleftrightarrow>
      fst (collect_votes lower 0 bs) \<le> vc_abstain_threshold cfg \<and> vote_ballots lower bs = [])"
  by (auto simp: aggregate_vote_def Let_def vote_ballots_def ballots_def split: prod.splits if_splits)

subsection \<open>First responder\<close>

lemma collect_votes_arrival:
  "collect_votes lower n bs = (a, cs) \<Longrightarrow>
     sorted_wrt (<) (map cd_arrival cs) \<and> (\<forall>c \<in> set cs. n \<le> cd_arrival c)"
proof (induction lower n bs arbitrary: a cs rule: collect_votes.induct)
  case (2 lower n f bs)
  then show ?case by (fastforce simp: Let_def split: prod.splits)
next
  case (3 lower n s bs)
  obtain a' cs' where r: "collect_votes lower (n + 1) bs = (a', cs')"
    by (cases "collect_votes lower (n + 1) bs") auto
  with 3 have IH: "sorted_wrt (<) (map cd_arrival cs')" "\<forall>c \<in> set cs'. n + 1 \<le> cd_arrival c"
    by blast+
  from IH(2) have "\<forall>c \<in> set cs'. n < cd_arrival c" "\<forall>c \<in> set cs'. n \<le> cd_arrival c" by auto
  with IH(1) 3(2) r show ?case
    by (auto simp: Let_def split: if_splits)
qed simp

lemma foldr_min: "foldr min xs a \<in> set (a # xs) \<and> (\<forall>x \<in> set (a # xs). foldr min xs a \<le> (x::nat))"
  by (induction xs) (auto simp: min_def)

lemma first_arrival_spec:
  assumes "k \<in> set (ballots cs)"
  shows "(\<exists>i < length cs. ballots cs ! i = k \<and> first_arrival (vote_buckets cs) cs k = cd_arrival (cs ! i)) \<and>
    (\<forall>i < length cs. ballots cs ! i = k \<longrightarrow> first_arrival (vote_buckets cs) cs k \<le> cd_arrival (cs ! i))"
proof -
  let ?pos = "map fst (filter (\<lambda>p. snd p = k) (enumerate 0 (ballots cs)))"
  have pos: "set ?pos = {i. i < length cs \<and> ballots cs ! i = k}"
    by (force simp: in_set_enumerate_eq ballots_def image_iff)
  let ?as = "map (\<lambda>i. cd_arrival (cs ! i)) ?pos"
  have as: "map cd_arrival (bucket_members (vote_buckets cs) cs k) = ?as"
    using assms by (simp add: bucket_members_def bucket_look)
  have "set ?pos \<noteq> {}" using assms unfolding pos by (auto simp: in_set_conv_nth ballots_def)
  then obtain i0 where "i0 \<in> set ?pos" by (meson all_not_in_conv)
  then have "cd_arrival (cs ! i0) \<in> set ?as" by (metis image_eqI list.set_map)
  then have "?as \<noteq> []" by (metis empty_iff list.set(1))
  then obtain x xs where xs: "?as = x # xs" by (meson neq_Nil_conv)
  then have "first_arrival (vote_buckets cs) cs k = foldr min xs x"
    using as by (simp add: first_arrival_def)
  moreover have "set (x # xs) = (\<lambda>i. cd_arrival (cs ! i)) ` {i. i < length cs \<and> ballots cs ! i = k}"
    unfolding xs [symmetric] pos [symmetric] by (rule list.set_map)
  ultimately show ?thesis using foldr_min [of xs x] by (simp only:) blast
qed

lemma tied_singleton:
  assumes "max_votes (vote_buckets cs) * 2 > length cs" "k \<in> set (tied_buckets (vote_buckets cs))"
    "k' \<in> set (tied_buckets (vote_buckets cs))"
  shows "k = k'"
  using assms majority_unique [of "ballots cs" k k'] by (simp add: tied_iff ballots_def mult.commute)

text \<open>
  Under the first-responder rule the winner is the earliest ballot, in order of arrival,
  among those cast most often: every ballot that arrived before the winner's first one was cast
  less often.
\<close>

theorem vote_first_responder:
  assumes "aggregate_vote lower rng bs cfg = Inr (a, r)" "vc_tie_break cfg = FirstResponder"
  shows "\<exists>i < length (vote_ballots lower bs). vt_winner r = vote_ballots lower bs ! i \<and>
    (\<forall>j < i. count_list (vote_ballots lower bs) (vote_ballots lower bs ! j) <
       count_list (vote_ballots lower bs) (vt_winner r))"
  using assms(1)
proof (rule aggregate_vote_ok)
  fix ab cs
  assume c: "collect_votes lower 0 bs = (ab, cs)" "cs \<noteq> []"
    and w: "vt_winner r = (if max_votes (vote_buckets cs) * 2 > length cs then hd (tied_buckets (vote_buckets cs))
       else resolve_tie rng (tied_buckets (vote_buckets cs)) cs (vote_buckets cs) (vc_tie_break cfg))"
  let ?T = "tied_buckets (vote_buckets cs)" and ?B = "vote_buckets cs"
  have b: "vote_ballots lower bs = ballots cs" by (simp add: vote_ballots_def c(1))
  note fr = first_responder_in [OF tied_ne [OF c(2)], of cs ?B]
  have "vt_winner r = first_responder ?T cs ?B"
  proof (cases "max_votes ?B * 2 > length cs")
    case True
    have "hd ?T = first_responder ?T cs ?B"
      by (rule tied_singleton [OF True hd_in_set [OF tied_ne [OF c(2)]]]) (use fr in blast)
    with w True show ?thesis by simp
  next
    case False
    with w assms(2) show ?thesis by simp
  qed
  with fr have in_T: "vt_winner r \<in> set ?T"
    and least: "\<And>k. k \<in> set ?T \<Longrightarrow> first_arrival ?B cs (vt_winner r) \<le> first_arrival ?B cs k" by auto
  then have wb: "vt_winner r \<in> set (ballots cs)" "count_list (ballots cs) (vt_winner r) = max_votes ?B"
    by (simp_all add: tied_iff)
  from first_arrival_spec [OF wb(1)] obtain i where i: "i < length cs" "ballots cs ! i = vt_winner r"
    "first_arrival ?B cs (vt_winner r) = cd_arrival (cs ! i)" by blast
  have "count_list (ballots cs) (ballots cs ! j) < count_list (ballots cs) (vt_winner r)" if j: "j < i" for j
  proof (rule ccontr)
    assume "\<not> ?thesis"
    with max_votes_count [OF c(2)] wb(2) have "count_list (ballots cs) (ballots cs ! j) = max_votes ?B"
      by (metis le_antisym not_less)
    moreover have jb: "ballots cs ! j \<in> set (ballots cs)" using j i(1) by (simp add: ballots_def)
    ultimately have "ballots cs ! j \<in> set ?T" by (simp add: tied_iff)
    note step = least [OF this]
    have "j < length cs" using j i(1) by simp
    with first_arrival_spec [OF jb] have "first_arrival ?B cs (ballots cs ! j) \<le> cd_arrival (cs ! j)" by blast
    with step i(3) have "cd_arrival (cs ! i) \<le> cd_arrival (cs ! j)" by simp
    moreover have "cd_arrival (cs ! j) < cd_arrival (cs ! i)"
      using collect_votes_arrival [OF c(1)] j i(1) by (auto simp: sorted_wrt_iff_nth_less)
    ultimately show False by simp
  qed
  with i show ?thesis unfolding b by (intro exI [of _ i]) (simp add: ballots_def)
qed

theorem vote_first_responder_witness:
  "\<exists>a r. aggregate_vote to_lowercase (\<lambda>s n. 0) demo_branches (demo_config 5) = Inr (a, r) \<and>
     (\<exists>i < 3. vt_winner r = [''yes'', ''no'', ''yes''] ! i)"
proof -
  obtain cs where cs: "collect_votes to_lowercase 0 demo_branches = (1, cs)"
    using demo_ballots(2) by (cases "collect_votes to_lowercase 0 demo_branches") auto
  then have "ballots cs = [''yes'', ''no'', ''yes'']" using demo_ballots(1) by (simp add: vote_ballots_def)
  then have "cs \<noteq> []" by (auto simp: ballots_def)
  with cs obtain a r where ok: "aggregate_vote to_lowercase (\<lambda>s n. 0) demo_branches (demo_config 5) = Inr (a, r)"
    by (auto simp: aggregate_vote_def demo_config_def Let_def)
  have "vc_tie_break (demo_config 5) = FirstResponder" by (simp add: demo_config_def)
  from vote_first_responder [OF ok this] ok demo_ballots(1) show ?thesis by (auto simp: numeral_3_eq_3)
qed

subsection \<open>The metadata comment\<close>

lemma replace_arrow_step:
  "replace_from ''-->'' ''-- >'' 0 (c # cs) =
     (if starts_with (c # cs) ''-->'' then ''-- >'' @ replace_from ''-->'' ''-- >'' 0 (drop 2 cs)
      else c # replace_from ''-->'' ''-- >'' 0 cs)"
proof (cases "starts_with (c # cs) ''-->''")
  case True
  then obtain r where "c # cs = ''-->'' @ r" by (auto simp: starts_with_iff)
  then show ?thesis by (simp add: numeral_2_eq_2)
next
  case False
  then show ?thesis by (simp only: replace_from.simps if_False)
qed

lemma replace_arrow_hd:
  "starts_with (replace_from ''-->'' ''-- >'' 0 s) ''>'' \<longleftrightarrow> starts_with s ''>''"
  "starts_with (replace_from ''-->'' ''-- >'' 0 s) ''->'' \<Longrightarrow> starts_with s ''->''"
proof -
  show 1: "starts_with (replace_from ''-->'' ''-- >'' 0 s) ''>'' \<longleftrightarrow> starts_with s ''>''" for s
    by (cases s) (auto simp: replace_arrow_step simp del: replace_from.simps(3))
  show "starts_with (replace_from ''-->'' ''-- >'' 0 s) ''->'' \<Longrightarrow> starts_with s ''->''"
    by (cases s) (auto simp: replace_arrow_step 1 simp del: replace_from.simps(3) split: if_splits)
qed

lemma replace_arrow_none: "\<not> contains (replace_from ''-->'' ''-- >'' 0 s) ''-->''"
proof (induction "length s" arbitrary: s rule: less_induct)
  case less
  show ?case
  proof (cases s)
    case Nil
    then show ?thesis by (simp add: contains_def)
  next
    case (Cons c cs)
    show ?thesis
    proof (cases "starts_with s ''-->''")
      case True
      with less.hyps [of "drop 2 cs"] Cons show ?thesis
        by (auto simp: replace_arrow_step contains_def simp del: replace_from.simps(3))
    next
      case False
      then have "\<not> starts_with (c # replace_from ''-->'' ''-- >'' 0 cs) ''-->''"
        using Cons replace_arrow_hd(2) [of cs] by auto
      with False less.hyps [of cs] Cons show ?thesis
        by (auto simp: replace_arrow_step contains_def simp del: replace_from.simps(3))
    qed
  qed
qed

text \<open>
  No text put into the metadata comment of a vote can close it: the sanitised text never
  contains the comment terminator, and text without it is left unchanged.
\<close>

theorem sanitize_comment_safe:
  "\<not> contains (sanitize_comment s) ''-->'' \<and> (\<not> contains s ''-->'' \<longrightarrow> sanitize_comment s = s)"
  unfolding sanitize_comment_def
  using replace_arrow_none replace_none [of "''-->''" s "''-- >''"] by (simp add: str_replace_def)

theorem sanitize_comment_safe_witness:
  "sanitize_comment ''a-->b'' = ''a-- >b'' \<and> sanitize_comment ''plain'' = ''plain''"
proof -
  have "\<not> contains ''plain'' ''-->''" by (simp add: contains_def)
  with sanitize_comment_safe [of "''plain''"] have "sanitize_comment ''plain'' = ''plain''" by blast
  then show ?thesis by (simp add: sanitize_comment_def str_replace_def numeral_2_eq_2)
qed

end
