(* ===== verification/Consensus.thy ===== *)
theory Consensus
  imports RustStr RustMap
begin

text \<open>
  The majority vote of \<open>src/consensus.rs\<close>. Its maps are \<open>HashMap\<close>s, whose iteration order is
  unspecified: the order in which the counts are visited is an argument. The weighted vote
  is in \<open>WeightedVote\<close>.
\<close>

record backend_response =
  br_backend :: string
  br_content :: string

record consensus_result =
  cr_winner :: string
  cr_breakdown :: "(string \<times> nat) list"
  cr_total :: nat
  cr_was_tie :: bool

definition normalized :: "backend_response list \<Rightarrow> string list" where
  "normalized responses = map (\<lambda>r. trim (br_content r)) responses"

definition response_counts :: "backend_response list \<Rightarrow> (string \<times> nat) list" where
  "response_counts responses = tally hm_upd (normalized responses) []"

definition first_seen :: "backend_response list \<Rightarrow> (string \<times> nat) list" where
  "first_seen responses = first_insert hm_upd (enumerate 0 (normalized responses)) []"

definition majority_vote ::
  "((string \<times> nat) list \<Rightarrow> (string \<times> nat) list) \<Rightarrow> backend_response list \<Rightarrow> consensus_result option" where
  "majority_vote order responses =
     (if responses = [] then None
      else
        let counts = response_counts responses;
            max_count = foldr max (map snd (order counts)) 0;
            winners = filter (\<lambda>(content, count). count = max_count) (order counts)
        in map_option
             (\<lambda>(content, count). \<lparr>cr_winner = content, cr_breakdown = counts,
                cr_total = length responses, cr_was_tie = (length winners > 1)\<rparr>)
             (min_by_key (\<lambda>(content, count). unwrap_or (2 ^ 64 - 1) (map_of (first_seen responses) content)) winners))"

subsection \<open>Lemmas\<close>

lemma first_insert_look:
  "hm_inv m \<Longrightarrow> map_of (first_insert hm_upd (enumerate n xs) m) k =
     (case map_of m k of Some v \<Rightarrow> Some v | None \<Rightarrow> map_option (\<lambda>i. n + i) (List.find (\<lambda>i. xs ! i = k) [0..<length xs]))"
proof (induction xs arbitrary: n m)
  case Nil
  then show ?case by (simp split: option.splits)
next
  case (Cons x xs)
  have find: "List.find (\<lambda>i. (x # xs) ! i = k) [0..<length (x # xs)] =
      (if x = k then Some 0 else map_option Suc (List.find (\<lambda>i. xs ! i = k) [0..<length xs]))"
  proof -
    have "[0..<length (x # xs)] = 0 # map Suc [0..<length xs]"
      by (simp add: upt_conv_Cons map_Suc_upt del: upt_Suc)
    moreover have "List.find (\<lambda>i. (x # xs) ! i = k) (map Suc is) = map_option Suc (List.find (\<lambda>i. xs ! i = k) is)" for "is"
      by (induction "is") auto
    ultimately show ?thesis by simp
  qed
  have inv: "hm_inv (hm_upd x (unwrap_or n) m)" using Cons.prems by (rule hm_inv_upd)
  show ?case
    unfolding find
    using Cons.IH [OF inv, of "Suc n"] Cons.prems
    by (cases "List.find (\<lambda>i. xs ! i = k) [0..<length xs]")
      (auto simp: hm_map_of_upd unwrap_or_def split: option.splits)
qed

lemma find_upt_least:
  "List.find P [0..<n] = Some i \<longleftrightarrow> i < n \<and> P i \<and> (\<forall>j < i. \<not> P j)"
  by (auto simp: find_Some_iff)

lemma first_seen_spec:
  assumes "k \<in> set (normalized rs)"
  shows "\<exists>i < length rs. map_of (first_seen rs) k = Some i \<and> normalized rs ! i = k \<and>
    (\<forall>j < i. normalized rs ! j \<noteq> k)"
proof -
  have len: "length (normalized rs) = length rs" by (simp add: normalized_def)
  have "map_of (first_seen rs) k = List.find (\<lambda>i. normalized rs ! i = k) [0..<length rs]"
    using first_insert_look [of "[]" 0 "normalized rs" k]
    by (cases "List.find (\<lambda>i. normalized rs ! i = k) [0..<length rs]")
      (simp_all add: first_seen_def hm_inv_facts len)
  moreover obtain i where "i < length rs" "normalized rs ! i = k"
    using assms len by (auto simp: in_set_conv_nth)
  then have "List.find (\<lambda>i. normalized rs ! i = k) [0..<length rs] \<noteq> None"
    by (auto simp: list_find_None)
  then obtain i where "List.find (\<lambda>i. normalized rs ! i = k) [0..<length rs] = Some i" by auto
  ultimately show ?thesis by (auto simp: find_upt_least)
qed

lemma response_counts_iff:
  "(k, n) \<in> set (response_counts rs) \<longleftrightarrow> k \<in> set (normalized rs) \<and> n = count_list (normalized rs) k"
  by (simp add: response_counts_def hm_count.tally_entries)

lemma foldr_max_bound: "foldr max xs (0::nat) = (if xs = [] then 0 else Max (set xs))"
  by (induction xs) (auto simp: max_def intro: antisym)

text \<open>
  The choice both votes share: among the entries of greatest score, the one whose response appears
  first.
\<close>

lemma first_heaviest:
  fixes c :: "(string \<times> nat) list" and f :: "string \<Rightarrow> nat"
  assumes c: "\<And>k n. (k, n) \<in> set c \<longleftrightarrow> k \<in> set (normalized rs) \<and> n = f k" and ne: "rs \<noteq> []"
  shows "\<exists>k n i. min_by_key (\<lambda>(content, count). unwrap_or (2 ^ 64 - 1) (map_of (first_seen rs) content))
      (filter (\<lambda>(content, count). count = foldr max (map snd c) 0) c) = Some (k, n) \<and>
    i < length rs \<and> k = trim (br_content (rs ! i)) \<and> (\<forall>k' \<in> set (normalized rs). f k' \<le> f k) \<and>
    (\<forall>j < i. f (trim (br_content (rs ! j))) < f k)"
proof -
  let ?ns = "normalized rs"
  let ?mx = "foldr max (map snd c) 0"
  let ?w = "filter (\<lambda>(content, count). count = ?mx) c"
  let ?key = "\<lambda>(content, count::nat). unwrap_or (2 ^ 64 - 1) (map_of (first_seen rs) content)"
  have ns: "?ns \<noteq> []" using ne by (simp add: normalized_def)
  have snds: "set (map snd c) = f ` set ?ns"
  proof (rule set_eqI)
    fix n
    have "n \<in> set (map snd c) \<longleftrightarrow> (\<exists>k. (k, n) \<in> set c)" by force
    then show "n \<in> set (map snd c) \<longleftrightarrow> n \<in> f ` set ?ns" unfolding c by auto
  qed
  then have "map snd c \<noteq> []" using ns by (metis image_is_empty set_empty)
  then have mx: "?mx = Max (f ` set ?ns)" using snds by (simp only: foldr_max_bound if_False)
  have fin: "finite (f ` set ?ns)" "f ` set ?ns \<noteq> {}" using ns by auto
  have ge: "f k \<le> ?mx" if "k \<in> set ?ns" for k
    using Max_ge [OF fin(1)] mx that by auto
  obtain k0 where k0: "k0 \<in> set ?ns" "f k0 = ?mx"
    using Max_in [OF fin] mx by auto
  have w: "(k, n) \<in> set ?w \<longleftrightarrow> k \<in> set ?ns \<and> n = f k \<and> n = ?mx" for k n
    using c by auto
  then have "?w \<noteq> []" using k0 by (metis empty_iff empty_set)
  then obtain k n where kn: "min_by_key ?key ?w = Some (k, n)"
    by (cases "min_by_key ?key ?w") auto
  have "(k, n) \<in> set ?w" and least: "\<forall>x \<in> set ?w. ?key (k, n) \<le> ?key x"
    using min_by_key_Some [OF kn] by blast+
  then have k: "k \<in> set ?ns" "f k = ?mx" using w by auto
  obtain i where i: "i < length rs" "map_of (first_seen rs) k = Some i" "?ns ! i = k"
    using first_seen_spec [OF k(1)] by blast
  have early: "f (?ns ! j) < ?mx" if "j < i" for j
  proof (rule ccontr)
    assume "\<not> ?thesis"
    have jn: "?ns ! j \<in> set ?ns" using that i(1) by (simp add: normalized_def)
    with \<open>\<not> ?thesis\<close> ge [OF jn] have eq: "f (?ns ! j) = ?mx" by simp
    obtain j' where j': "map_of (first_seen rs) (?ns ! j) = Some j'" "\<forall>l < j'. ?ns ! l \<noteq> ?ns ! j"
      using first_seen_spec [OF jn] by blast
    have "(?ns ! j, ?mx) \<in> set ?w" unfolding w using eq jn by simp
    from bspec [OF least this] i(2) j'(1) have "i \<le> j'" by simp
    with j'(2) that show False by (metis less_le_trans)
  qed
  have nth: "?ns ! j = trim (br_content (rs ! j))" if "j < length rs" for j
    using that by (simp add: normalized_def)
  have "\<forall>j < i. f (trim (br_content (rs ! j))) < f k"
    using early nth i(1) k(2) by simp
  then show ?thesis
    using kn i(1,3) nth [OF i(1)] ge k(2) by (intro exI [of _ k] exI [of _ n] exI [of _ i]) simp
qed

text \<open>
  The majority vote returns, for any iteration order of its hash maps, the most frequent
  (trimmed) response, and among equally frequent ones the one that appears first in the list of
  responses; the total is the number of responses, and an empty list has no winner.
\<close>

theorem majority_vote_first_most_frequent:
  assumes "\<forall>m. set (order m) = set m" "rs \<noteq> []"
  shows "\<exists>r i. majority_vote order rs = Some r \<and> i < length rs \<and> cr_winner r = trim (br_content (rs ! i)) \<and>
    (\<forall>k. count_list (normalized rs) k \<le> count_list (normalized rs) (cr_winner r)) \<and>
    (\<forall>j < i. count_list (normalized rs) (trim (br_content (rs ! j))) < count_list (normalized rs) (cr_winner r)) \<and>
    cr_total r = length rs"
proof -
  let ?c = "order (response_counts rs)"
  have "(k, n) \<in> set ?c \<longleftrightarrow> k \<in> set (normalized rs) \<and> n = count_list (normalized rs) k" for k n
    using assms(1) response_counts_iff by simp
  from first_heaviest [OF this assms(2)] obtain k n i where
    w: "min_by_key (\<lambda>(content, count). unwrap_or (2 ^ 64 - 1) (map_of (first_seen rs) content))
        (filter (\<lambda>(content, count). count = foldr max (map snd ?c) 0) ?c) = Some (k, n)"
    and i: "i < length rs" "k = trim (br_content (rs ! i))"
    and ge: "\<forall>k' \<in> set (normalized rs). count_list (normalized rs) k' \<le> count_list (normalized rs) k"
    and early: "\<forall>j < i. count_list (normalized rs) (trim (br_content (rs ! j))) < count_list (normalized rs) k"
    by (elim exE conjE)
  have "count_list (normalized rs) k' \<le> count_list (normalized rs) k" for k'
    using ge by (cases "k' \<in> set (normalized rs)") (simp_all add: count_notin)
  with w i early show ?thesis
    using assms(2) by (intro exI [of _ "the (majority_vote order rs)"] exI [of _ i]) (simp add: majority_vote_def Let_def)
qed

theorem majority_vote_first_most_frequent_witness:
  "let rs = [\<lparr>br_backend = ''claude'', br_content = ''A''\<rparr>, \<lparr>br_backend = ''codex'', br_content = ''B''\<rparr>]
   in \<exists>r i. majority_vote rev rs = Some r \<and> i < 2 \<and> cr_winner r = trim (br_content (rs ! i)) \<and> cr_total r = 2"
proof -
  let ?rs = "[\<lparr>br_backend = ''claude'', br_content = ''A''\<rparr>, \<lparr>br_backend = ''codex'', br_content = ''B''\<rparr>]"
  have "length ?rs = 2" by simp
  then show ?thesis
    using majority_vote_first_most_frequent [of rev ?rs] unfolding Let_def by (metis set_rev list.distinct(1))
qed

end
