(* ===== verification/Strategy.thy ===== *)
theory Strategy
  imports Aggregator
begin

text \<open>
  \<open>src/strategy/mod.rs\<close> and the types of \<open>src/strategy/verify/verify.rs\<close>: what a strategy takes
  and returns, its errors, the wire form of its output, and the writing of attempt files. The
  template engine is the rendering function of the context.
\<close>

subsection \<open>Outputs\<close>

datatype strategy_kind = KSingle | KEscalating | KParallel

fun kind_str :: "strategy_kind \<Rightarrow> string" where
  "kind_str KSingle = ''single''"
| "kind_str KEscalating = ''escalating''"
| "kind_str KParallel = ''parallel''"

datatype tier = Cheap | Medium | Strong

fun tier_str :: "tier \<Rightarrow> string" where
  "tier_str Cheap = ''cheap''"
| "tier_str Medium = ''medium''"
| "tier_str Strong = ''strong''"

datatype final_status = Succeeded | Exhausted | Aborted

fun final_status_str :: "final_status \<Rightarrow> string" where
  "final_status_str Succeeded = ''succeeded''"
| "final_status_str Exhausted = ''exhausted''"
| "final_status_str Aborted = ''aborted''"

datatype finish_reason = FStop | FLength | FToolCalls | FContentFilter | FError

fun finish_str :: "finish_reason \<Rightarrow> string" where
  "finish_str FStop = ''stop''"
| "finish_str FLength = ''length''"
| "finish_str FToolCalls = ''tool_calls''"
| "finish_str FContentFilter = ''content_filter''"
| "finish_str FError = ''error''"

record token_report =
  tr_input :: "32 word"
  tr_output :: "32 word"

definition report_of_usage :: "token_usage \<Rightarrow> token_report" where
  "report_of_usage u = \<lparr>tr_input = prompt_tokens u, tr_output = completion_tokens u\<rparr>"

definition no_usage :: token_report where
  "no_usage = \<lparr>tr_input = 0, tr_output = 0\<rparr>"

definition usage_report :: "query_output \<Rightarrow> token_report" where
  "usage_report q = unwrap_or no_usage (map_option report_of_usage (qo_usage q))"

datatype verify_status = VPass | VFail | VSkipped

fun verify_status_str :: "verify_status \<Rightarrow> string" where
  "verify_status_str VPass = ''pass''"
| "verify_status_str VFail = ''fail''"
| "verify_status_str VSkipped = ''skipped''"

record verify_outcome =
  vo_status :: verify_status
  vo_hook :: "string option"

definition vo_skipped :: verify_outcome where
  "vo_skipped = \<lparr>vo_status = VSkipped, vo_hook = None\<rparr>"

definition vo_passed :: "string \<Rightarrow> verify_outcome" where
  "vo_passed hook = \<lparr>vo_status = VPass, vo_hook = Some hook\<rparr>"

definition vo_failed :: "string \<Rightarrow> verify_outcome" where
  "vo_failed hook = \<lparr>vo_status = VFail, vo_hook = Some hook\<rparr>"

record attempt =
  ap_tier :: "tier option"
  ap_family :: "string option"
  ap_backend :: string
  ap_model :: string
  ap_finish :: "finish_reason list"
  ap_usage :: token_report
  ap_output_path :: string
  ap_verify :: verify_outcome
  ap_duration :: nat

record strategy_output =
  so_schema_version :: nat
  so_strategy :: strategy_kind
  so_phase :: string
  so_run_id :: string
  so_attempts :: "attempt list"
  so_final_status :: "final_status option"
  so_aggregator :: "aggregator_label option"
  so_aggregate_path :: "string option"
  so_verify :: "verify_outcome option"

definition SCHEMA_VERSION :: nat where
  "SCHEMA_VERSION = 1"

datatype strategy_error =
    BackendNotFound string
  | PhaseErr phase_error
  | NoBackends
  | PromptRender string
  | BackendErr backend_error
  | ExhaustedErr strategy_output
  | FloorViolation nat nat strategy_output
  | AnyFailErr string any_fail_reason attempt strategy_output

subsection \<open>The wire form\<close>

definition nat_json :: "nat \<Rightarrow> json" where
  "nat_json n = JInt (int n)"

definition opt_json :: "string option \<Rightarrow> json" where
  "opt_json s = (case s of None \<Rightarrow> JNull | Some t \<Rightarrow> JStr t)"

definition usage_json :: "token_report \<Rightarrow> json" where
  "usage_json u = JObj [(''input_tokens'', nat_json (unat (tr_input u))),
     (''output_tokens'', nat_json (unat (tr_output u)))]"

definition verify_json :: "verify_outcome \<Rightarrow> json" where
  "verify_json v = JObj [(''status'', JStr (verify_status_str (vo_status v))), (''hook'', opt_json (vo_hook v))]"

definition finish_json :: "finish_reason list \<Rightarrow> json" where
  "finish_json rs = JArr (map (\<lambda>r. JStr (finish_str r)) rs)"

definition attempt_json :: "attempt \<Rightarrow> json" where
  "attempt_json a = JObj
     ((case ap_tier a of None \<Rightarrow> [] | Some t \<Rightarrow> [(''tier'', JStr (tier_str t))]) @
      (case ap_family a of None \<Rightarrow> [] | Some f \<Rightarrow> [(''family'', JStr f)]) @
      [(''backend'', JStr (ap_backend a)), (''model'', JStr (ap_model a)),
       (''finish_reasons'', finish_json (ap_finish a)), (''usage'', usage_json (ap_usage a)),
       (''output_path'', JStr (ap_output_path a)), (''verify'', verify_json (ap_verify a))])"

definition branch_json :: "attempt \<Rightarrow> json" where
  "branch_json a = JObj
     [(''backend'', JStr (ap_backend a)), (''family'', JStr (unwrap_or ''local'' (ap_family a))),
      (''model'', JStr (ap_model a)), (''finish_reasons'', finish_json (ap_finish a)),
      (''usage'', usage_json (ap_usage a)), (''output_path'', JStr (ap_output_path a))]"

definition output_field_count :: "strategy_output \<Rightarrow> nat" where
  "output_field_count s = 4 +
     (if so_strategy s = KParallel then 4 else 1 + (if so_final_status s \<noteq> None then 1 else 0))"

definition output_json :: "strategy_output \<Rightarrow> json" where
  "output_json s = JObj
     ([(''schema_version'', nat_json (so_schema_version s)), (''loker.strategy'', JStr (kind_str (so_strategy s))),
       (''loker.phase'', JStr (so_phase s)), (''loker.run_id'', JStr (so_run_id s))] @
      (if so_strategy s = KParallel then
         [(''branches'', JArr (map branch_json (so_attempts s))),
          (''aggregator'', JStr (unwrap_or ''concat'' (map_option label_str (so_aggregator s)))),
          (''aggregate_output_path'', JStr (unwrap_or ''aggregated.txt'' (so_aggregate_path s))),
          (''verify'', verify_json (unwrap_or vo_skipped (so_verify s)))]
       else
         (''attempts'', JArr (map attempt_json (so_attempts s))) #
         (case so_final_status s of None \<Rightarrow> [] | Some f \<Rightarrow> [(''final_status'', JStr (final_status_str f))])))"

subsection \<open>Prompts, contexts, hooks\<close>

record prompt =
  pr_model :: "string option"

text \<open>
  The rendering of a prompt template against the phase's template context, and that of a judge
  template against a given value; the error is the message of the engine.
\<close>

record 'w phase_ctx =
  pc_phase_name :: string
  pc_run_id :: string
  pc_cwd :: path
  pc_render :: "string \<Rightarrow> (string, string) result"
  pc_render_value :: "string \<Rightarrow> json \<Rightarrow> (string, string) result"
  pc_ops :: "'w fs_ops"
  pc_json :: json_lib

definition nonempty :: "string option \<Rightarrow> string option" where
  "nonempty s = opt_filter (\<lambda>m. m \<noteq> []) s"

definition pick_model :: "query_output \<Rightarrow> prompt \<Rightarrow> string" where
  "pick_model q p = unwrap_or ''default'' (or_else (nonempty (qo_model q)) (nonempty (pr_model p)))"

datatype sandbox_violation = SbTimeout | SbSignal int | SbNonZeroExit int

record failure_reason =
  fr_summary :: string
  fr_stdout :: string
  fr_stderr :: string
  fr_truncated :: bool
  fr_exit_code :: "int option"
  fr_sandbox :: "sandbox_violation option"

definition failure_reason_new :: "string \<Rightarrow> failure_reason" where
  "failure_reason_new summary = \<lparr>fr_summary = summary, fr_stdout = [], fr_stderr = [],
     fr_truncated = False, fr_exit_code = None, fr_sandbox = None\<rparr>"

definition failure_reason_str :: "failure_reason \<Rightarrow> string" where
  "failure_reason_str r = fr_summary r @ (if fr_truncated r then '' (truncated)'' else [])"

text \<open>A score is the bit pattern of an \<open>f32\<close>.\<close>

datatype hook_result = HookPass | HookFail failure_reason | HookRepair string | HookScore "32 word"

fun is_pass :: "hook_result \<Rightarrow> bool" where
  "is_pass HookPass = True"
| "is_pass _ = False"

record hook_ctx =
  hc_stdout :: string
  hc_stderr :: "string option"
  hc_exit_code :: "int option"
  hc_backend_name :: string
  hc_model :: "string option"
  hc_structured :: "json option"
  hc_duration :: nat

definition hook_ctx_of :: "query_output \<Rightarrow> hook_ctx" where
  "hook_ctx_of q = \<lparr>hc_stdout = qo_stdout q, hc_stderr = qo_stderr q, hc_exit_code = qo_exit_code q,
     hc_backend_name = qo_backend q, hc_model = qo_model q, hc_structured = qo_structured q, hc_duration = qo_duration q\<rparr>"

record 'w verify_hook =
  vh_name :: string
  vh_verify :: "hook_ctx \<Rightarrow> 'w \<Rightarrow> (string, hook_result) result \<times> 'w"

definition find_backend :: "string \<Rightarrow> 'w backend list \<Rightarrow> 'w backend option" where
  "find_backend name backends = List.find (\<lambda>b. bk_name b = name) backends"

subsection \<open>Attempt files\<close>

definition parent_str :: "path \<Rightarrow> string" where
  "parent_str p = (case path_parent p of None \<Rightarrow> [] | Some ks \<Rightarrow> show_dir ks)"

definition io_failed :: "string \<Rightarrow> io_error \<Rightarrow> strategy_error" where
  "io_failed what e = BackendErr (ExecutionFailed (what @ '': '' @ io_str e) None)"

definition write_text ::
  "'w fs_ops \<Rightarrow> string \<Rightarrow> string \<Rightarrow> path \<Rightarrow> string \<Rightarrow> 'w \<Rightarrow> (strategy_error, unit) result \<times> 'w" where
  "write_text ops create_msg write_msg p content w =
     (case create_parent ops p w of
        (Inl e, w1) \<Rightarrow> (Inl (io_failed (create_msg @ parent_str p) e), w1)
      | (Inr _, w1) \<Rightarrow> (case fs_write ops p content w1 of
            (Inl e, w2) \<Rightarrow> (Inl (io_failed (write_msg @ p) e), w2)
          | (Inr _, w2) \<Rightarrow> (Inr (), w2)))"

text \<open>The working directory \<open>.\<close> means that nothing is written.\<close>

definition is_cur_dir :: "path \<Rightarrow> bool" where
  "is_cur_dir cwd \<longleftrightarrow> components cwd = [CurDir]"

definition write_strategy_output ::
  "'w phase_ctx \<Rightarrow> string \<Rightarrow> string \<Rightarrow> 'w \<Rightarrow> (strategy_error, unit) result \<times> 'w" where
  "write_strategy_output ctx output_path content w =
     (if is_cur_dir (pc_cwd ctx) then (Inr (), w)
      else write_text (pc_ops ctx) ''failed to create output parent '' ''failed to write strategy output ''
        (path_join (pc_cwd ctx) output_path) content w)"

text \<open>
  The wire form of a strategy output has exactly the announced number of fields, with
  distinct names; a parallel output lists branches and never attempts, any other output lists
  attempts and no branch; a final status is written exactly when there is one.
\<close>

theorem output_json_shape:
  "length (json_keys (output_json s)) = output_field_count s \<and> distinct (json_keys (output_json s)) \<and>
   (''branches'' \<in> set (json_keys (output_json s)) \<longleftrightarrow> so_strategy s = KParallel) \<and>
   (''attempts'' \<in> set (json_keys (output_json s)) \<longleftrightarrow> so_strategy s \<noteq> KParallel) \<and>
   (''final_status'' \<in> set (json_keys (output_json s)) \<longleftrightarrow>
      so_strategy s \<noteq> KParallel \<and> so_final_status s \<noteq> None)"
  by (cases "so_final_status s") (simp_all add: output_json_def output_field_count_def)

text \<open>
  The model recorded for an attempt is never empty, whatever the backend and the prompt say,
  and an empty name from either side counts as missing.
\<close>

theorem pick_model_nonempty:
  "pick_model q p \<noteq> [] \<and>
   (pick_model q p = ''default'' \<or> qo_model q = Some (pick_model q p) \<or>
    (qo_model q \<in> {None, Some []} \<and> pr_model p = Some (pick_model q p)))"
  by (cases "qo_model q"; cases "pr_model p") (auto simp: pick_model_def nonempty_def)

end
