(* ===== verification/SingleModel.thy ===== *)
theory SingleModel
  imports Strategy
begin

text \<open>\<open>src/strategy/single_model.rs\<close>: one backend, one prompt, one response.\<close>

record single_model =
  sm_backend :: string
  sm_prompt_template :: string

text \<open>The local copy of the writer creates the parent directory without looking at its path.\<close>

definition single_write_output ::
  "'w phase_ctx \<Rightarrow> string \<Rightarrow> string \<Rightarrow> 'w \<Rightarrow> (strategy_error, unit) result \<times> 'w" where
  "single_write_output ctx output_path content w =
     (if is_cur_dir (pc_cwd ctx) then (Inr (), w)
      else
        let p = path_join (pc_cwd ctx) output_path;
            (r, w1) = (case path_parent p of Some par \<Rightarrow> fs_mkdir (pc_ops ctx) par w | None \<Rightarrow> (Inr (), w))
        in case r of
             Inl e \<Rightarrow> (Inl (io_failed (''failed to create output parent '' @ parent_str p) e), w1)
           | Inr _ \<Rightarrow> (case fs_write (pc_ops ctx) p content w1 of
                 (Inl e, w2) \<Rightarrow> (Inl (io_failed (''failed to write strategy output '' @ p) e), w2)
               | (Inr _, w2) \<Rightarrow> (Inr (), w2)))"

definition single_attempt :: "'w backend \<Rightarrow> query_output \<Rightarrow> prompt \<Rightarrow> attempt" where
  "single_attempt chosen q p = \<lparr>ap_tier = None, ap_family = None, ap_backend = bk_name chosen,
     ap_model = pick_model q p, ap_finish = [FStop], ap_usage = usage_report q,
     ap_output_path = ''attempts/0.txt'', ap_verify = vo_skipped, ap_duration = qo_duration q\<rparr>"

definition single_output :: "'w phase_ctx \<Rightarrow> attempt \<Rightarrow> strategy_output" where
  "single_output ctx a = \<lparr>so_schema_version = SCHEMA_VERSION, so_strategy = KSingle,
     so_phase = pc_phase_name ctx, so_run_id = pc_run_id ctx, so_attempts = [a],
     so_final_status = None, so_aggregator = None, so_aggregate_path = None, so_verify = None\<rparr>"

definition single_execute ::
  "single_model \<Rightarrow> 'w backend list \<Rightarrow> prompt \<Rightarrow> 'w phase_ctx \<Rightarrow> 'w \<Rightarrow>
     (strategy_error, strategy_output) result \<times> 'w" where
  "single_execute sm backends p ctx w =
     (if backends = [] then (Inl NoBackends, w)
      else case find_backend (sm_backend sm) backends of
          None \<Rightarrow> (Inl (BackendNotFound (sm_backend sm)), w)
        | Some chosen \<Rightarrow> (case pc_render ctx (sm_prompt_template sm) of
              Inl e \<Rightarrow> (Inl (PromptRender e), w)
            | Inr rendered \<Rightarrow> (case bk_query chosen rendered (pc_cwd ctx) (pr_model p) w of
                  (Inl e, w1) \<Rightarrow> (Inl (BackendErr e), w1)
                | (Inr q, w1) \<Rightarrow> (case single_write_output ctx ''attempts/0.txt'' (qo_stdout q) w1 of
                      (Inl e, w2) \<Rightarrow> (Inl e, w2)
                    | (Inr _, w2) \<Rightarrow> (Inr (single_output ctx (single_attempt chosen q p)), w2)))))"

lemma find_backend_Some: "find_backend n bs = Some b \<Longrightarrow> b \<in> set bs \<and> bk_name b = n"
  unfolding find_backend_def by (rule list_find_Some)

lemma find_backend_None: "find_backend n bs = None \<longleftrightarrow> n \<notin> bk_name ` set bs"
  by (auto simp: find_backend_def list_find_None)

text \<open>
  The single strategy passes the error of its backend on unchanged, and a failing backend
  writes nothing; when it succeeds there is exactly one attempt, of the named backend, whose file
  holds the backend's output (in a working directory other than the current one).
\<close>

theorem single_execute_spec:
  assumes "single_execute sm backends p ctx w = (r, w')" "pc_ops ctx = mem_ops"
    and "find_backend (sm_backend sm) backends = Some b" "pc_render ctx (sm_prompt_template sm) = Inr rendered"
    and "bk_query b rendered (pc_cwd ctx) (pr_model p) w = (qr, w1)"
  shows "(\<forall>e. qr = Inl e \<longrightarrow> r = Inl (BackendErr e) \<and> w' = w1) \<and>
    (\<forall>out. r = Inr out \<longrightarrow> (\<exists>q. qr = Inr q \<and> map ap_backend (so_attempts out) = [sm_backend sm] \<and>
       (\<not> is_cur_dir (pc_cwd ctx) \<longrightarrow>
          files w' = (files w1)(components (path_join (pc_cwd ctx) ''attempts/0.txt'') \<mapsto> qo_stdout q))))"
proof -
  have ne: "backends \<noteq> []" using assms(3) by (auto simp: find_backend_def)
  have name: "bk_name b = sm_backend sm" using assms(3) find_backend_Some by blast
  show ?thesis
  proof (cases qr)
    case (Inl e)
    with assms ne show ?thesis by (auto simp: single_execute_def)
  next
    case (Inr q)
    obtain wr w2 where wr: "single_write_output ctx ''attempts/0.txt'' (qo_stdout q) w1 = (wr, w2)"
      by (cases "single_write_output ctx ''attempts/0.txt'' (qo_stdout q) w1") auto
    have "files w2 = (files w1)(components (path_join (pc_cwd ctx) ''attempts/0.txt'') \<mapsto> qo_stdout q)"
      if ok: "wr = Inr ()" "\<not> is_cur_dir (pc_cwd ctx)"
    proof -
      let ?p = "path_join (pc_cwd ctx) ''attempts/0.txt''"
      obtain w3 where w3: "files w3 = files w1" "fs_write mem_ops ?p (qo_stdout q) w3 = (Inr (), w2)"
        using wr ok assms(2)
        by (auto simp: single_write_output_def Let_def simp del: mem_ops_simps
            split: option.splits prod.splits sum.splits dest: mem.mkdir_view)
      from mem.write_ok [OF w3(2)] w3(1) show ?thesis by simp
    qed
    with assms ne Inr wr name show ?thesis
      by (cases wr) (auto simp: single_execute_def single_output_def single_attempt_def)
  qed
qed

definition demo_ctx :: "mem_fs phase_ctx" where
  "demo_ctx = \<lparr>pc_phase_name = ''plan'', pc_run_id = ''r1'', pc_cwd = ''w'', pc_render = Inr,
     pc_render_value = (\<lambda>t v. Inr t), pc_ops = mem_ops,
     pc_json = \<lparr>js_parse = (\<lambda>_. Inl ''no json''), js_show = (\<lambda>_. [])\<rparr>\<rparr>"

definition demo_world :: mem_fs where
  "demo_world = \<lparr>files = Map.empty, dirs = (\<lambda>d. d = [] \<or> d = [Normal ''w'']), read_fault = Map.empty,
     write_faults = (\<lambda>_. WriteOk), remove_fault = Map.empty, mkdir_fault = Map.empty\<rparr>"

text \<open>A backend that answers with a fixed text, and one that fails.\<close>

definition echo_backend :: "string \<Rightarrow> string \<Rightarrow> 'w backend" where
  "echo_backend name out = \<lparr>bk_name = name, bk_query = (\<lambda>_ _ _ w. (Inr (from_text out name 3), w))\<rparr>"

definition down_backend :: "string \<Rightarrow> backend_error \<Rightarrow> 'w backend" where
  "down_backend name e = \<lparr>bk_name = name, bk_query = (\<lambda>_ _ _ w. (Inl e, w))\<rparr>"

theorem single_execute_spec_witness:
  "let sm = \<lparr>sm_backend = ''codex'', sm_prompt_template = ''hi''\<rparr>;
       (r, w') = single_execute sm [echo_backend ''codex'' ''out''] \<lparr>pr_model = None\<rparr> demo_ctx demo_world
   in is_ok r \<and> files w' [Normal ''w'', Normal ''attempts'', Normal ''0.txt''] = Some ''out''"
proof -
  let ?sm = "\<lparr>sm_backend = ''codex'', sm_prompt_template = ''hi''\<rparr>"
  let ?b = "echo_backend ''codex'' ''out'' :: mem_fs backend"
  obtain r w' where x: "single_execute ?sm [?b] \<lparr>pr_model = None\<rparr> demo_ctx demo_world = (r, w')"
    by (cases "single_execute ?sm [?b] \<lparr>pr_model = None\<rparr> demo_ctx demo_world") auto
  have ok: "is_ok r"
    using x by (simp add: single_execute_def find_backend_def echo_backend_def demo_ctx_def from_text_def
        single_write_output_def is_cur_dir_def path_join_def is_absolute_def components_def
        lead_components_def body_components_def to_component_def path_parent_def mem_write_def
        mem_mkdir_def demo_world_def Let_def) auto
  have "pc_ops demo_ctx = mem_ops" "find_backend (sm_backend ?sm) [?b] = Some ?b"
    "pc_render demo_ctx (sm_prompt_template ?sm) = Inr ''hi''"
    "bk_query ?b ''hi'' (pc_cwd demo_ctx) (pr_model \<lparr>pr_model = None\<rparr>) demo_world =
       (Inr (from_text ''out'' ''codex'' 3), demo_world)"
    by (simp_all add: demo_ctx_def find_backend_def echo_backend_def)
  note p = single_execute_spec [OF x this]
  have comps: "\<not> is_cur_dir (pc_cwd demo_ctx)"
    "components (path_join (pc_cwd demo_ctx) ''attempts/0.txt'') = [Normal ''w'', Normal ''attempts'', Normal ''0.txt'']"
    by (simp_all add: demo_ctx_def is_cur_dir_def path_join_def is_absolute_def components_def
        lead_components_def body_components_def to_component_def)
  show ?thesis
    using p ok x comps by (auto simp: is_ok_iff from_text_def)
qed

end
