(* ===== verification/Escalating.thy ===== *)
theory Escalating
  imports SingleModel
begin

text \<open>
  \<open>src/strategy/escalating_retry.rs\<close>: the ladder of backends, and the failure context one rung
  hands to the next. Redaction (a set of regular expressions) is an argument.
\<close>

definition MAX_RESPONSE_EXCERPT_BYTES :: nat where
  "MAX_RESPONSE_EXCERPT_BYTES = 4096"

definition MAX_FAILURE_CONTEXT_BYTES :: nat where
  "MAX_FAILURE_CONTEXT_BYTES = 8192"

record rung =
  ru_tier :: tier
  ru_backend :: string

record failure_context =
  fc_tier :: tier
  fc_backend :: string
  fc_verify_reason :: "string option"
  fc_error_class :: "string option"
  fc_excerpt :: "string option"

fun backend_error_class :: "backend_error \<Rightarrow> string" where
  "backend_error_class (Timeout _ _) = ''Timeout''"
| "backend_error_class (RateLimit _ _) = ''RateLimited''"
| "backend_error_class (Auth _) = ''Auth''"
| "backend_error_class (Network _) = ''Network''"
| "backend_error_class (ParseFailed _) = ''Parse''"
| "backend_error_class (ExecutionFailed _ _) = ''ExecutionFailed''"
| "backend_error_class (Unavailable _) = ''Unavailable''"
| "backend_error_class (ConfigError _) = ''Config''"

subsection \<open>Truncation\<close>

text \<open>The loop that moves a cut back to a character boundary.\<close>

fun floor_boundary :: "string \<Rightarrow> nat \<Rightarrow> nat" where
  "floor_boundary s 0 = 0"
| "floor_boundary s (Suc b) = (if is_char_boundary s (Suc b) then Suc b else floor_boundary s b)"

definition ellipsis :: string where
  "ellipsis = [CHR 0xE2, CHR 0x80, CHR 0xA6]"

definition elided_suffix :: "nat \<Rightarrow> string" where
  "elided_suffix n = '' '' @ ellipsis @ ''[truncated, '' @ nat_str n @ '' bytes elided]''"

definition SUFFIX_TEMPLATE_LEN :: nat where
  "SUFFIX_TEMPLATE_LEN = length ('' '' @ ellipsis @ ''[truncated,  bytes elided]'')"

definition truncate_excerpt :: "string \<Rightarrow> nat \<Rightarrow> string" where
  "truncate_excerpt s max_bytes =
     (if length s \<le> max_bytes then s
      else
        let suffix_len = SUFFIX_TEMPLATE_LEN + length (nat_str (length s)) in
        if suffix_len \<ge> max_bytes then take (floor_boundary s max_bytes) s
        else
          let boundary = floor_boundary s (max_bytes - suffix_len)
          in take boundary s @ elided_suffix (length s - boundary))"

subsection \<open>The failure context\<close>

definition from_verify_fail ::
  "(string \<Rightarrow> string) \<Rightarrow> tier \<Rightarrow> string \<Rightarrow> string \<Rightarrow> string option \<Rightarrow> failure_context" where
  "from_verify_fail redact t backend reason response =
     \<lparr>fc_tier = t, fc_backend = backend, fc_verify_reason = Some (redact reason), fc_error_class = None,
      fc_excerpt = map_option (\<lambda>r. truncate_excerpt (redact r) MAX_RESPONSE_EXCERPT_BYTES) response\<rparr>"

definition from_backend_error :: "(string \<Rightarrow> string) \<Rightarrow> tier \<Rightarrow> string \<Rightarrow> backend_error \<Rightarrow> failure_context" where
  "from_backend_error redact t backend e =
     \<lparr>fc_tier = t, fc_backend = backend, fc_verify_reason = None,
      fc_error_class = Some (redact (backend_error_class e)), fc_excerpt = None\<rparr>"

abbreviation nl :: string where
  "nl \<equiv> [CHR 0x0A]"

definition envelope_text :: "failure_context \<Rightarrow> string \<Rightarrow> nat \<Rightarrow> nat \<Rightarrow> string" where
  "envelope_text fc body excerpt_budget verify_cap =
     (let excerpt = truncate_excerpt (unwrap_or [] (fc_excerpt fc)) excerpt_budget;
          verify = truncate_excerpt (unwrap_or [] (fc_verify_reason fc)) verify_cap;
          err = unwrap_or ''null'' (fc_error_class fc);
          verify_field = (if fc_verify_reason fc \<noteq> None then debug_str verify else ''null'');
          err_field = (if fc_error_class fc \<noteq> None then debug_str err else ''null'');
          response_field = (if fc_excerpt fc \<noteq> None
            then ''|'' @ nl @ ''    '' @ str_replace nl (nl @ ''    '') excerpt else ''null'')
      in ''<previous-attempt>'' @ nl @ ''  tier: '' @ tier_str (fc_tier fc) @ nl @
         ''  backend: '' @ fc_backend fc @ nl @ ''  verify_reason: '' @ verify_field @ nl @
         ''  backend_error: '' @ err_field @ nl @ ''  response_excerpt: '' @ response_field @ nl @
         ''</previous-attempt>'' @ nl @ nl @ ''<original-prompt>'' @ nl @ body @ nl @ ''</original-prompt>'')"

function shrink_envelope :: "failure_context \<Rightarrow> string \<Rightarrow> nat \<Rightarrow> nat \<Rightarrow> string" where
  "shrink_envelope fc body excerpt_budget verify_cap =
     (let envelope = envelope_text fc body excerpt_budget verify_cap in
      if length envelope \<le> MAX_FAILURE_CONTEXT_BYTES then envelope
      else if excerpt_budget > 0 then shrink_envelope fc body (excerpt_budget - 512) verify_cap
      else if verify_cap > 64 then shrink_envelope fc body excerpt_budget (verify_cap - 256)
      else truncate_excerpt envelope MAX_FAILURE_CONTEXT_BYTES)"
  by pat_completeness auto
termination
  by (relation "measure (\<lambda>(fc, body, e, v). e + v)") auto

declare shrink_envelope.simps [simp del]

definition build_failure_envelope :: "failure_context \<Rightarrow> string \<Rightarrow> string" where
  "build_failure_envelope fc body = shrink_envelope fc body MAX_RESPONSE_EXCERPT_BYTES 1024"

subsection \<open>The ladder\<close>

record 'w escalating_retry =
  er_rungs :: "rung list"
  er_prompt_template :: string
  er_verify :: "'w verify_hook"
  er_pass_failure_context :: bool
  er_redact :: "string \<Rightarrow> string"

definition rung_path :: "'w phase_ctx \<Rightarrow> nat \<Rightarrow> rung \<Rightarrow> string" where
  "rung_path ctx idx ru = pc_phase_name ctx @ ''/attempts/'' @ nat_str (idx + 1) @ ''-'' @
     tier_str (ru_tier ru) @ ''.md''"

definition rung_prompt :: "'w escalating_retry \<Rightarrow> string \<Rightarrow> nat \<Rightarrow> failure_context option \<Rightarrow> string" where
  "rung_prompt er rendered idx previous =
     (if idx > 0 \<and> er_pass_failure_context er then
        (case previous of
           Some fc \<Rightarrow> er_redact er (build_failure_envelope fc rendered)
         | None \<Rightarrow> rendered)
      else rendered)"

definition answered_attempt ::
  "'w phase_ctx \<Rightarrow> nat \<Rightarrow> rung \<Rightarrow> 'w backend \<Rightarrow> query_output \<Rightarrow> prompt \<Rightarrow> verify_outcome \<Rightarrow> attempt" where
  "answered_attempt ctx idx ru b q p v = \<lparr>ap_tier = Some (ru_tier ru), ap_family = None,
     ap_backend = bk_name b, ap_model = pick_model q p, ap_finish = [FStop], ap_usage = usage_report q,
     ap_output_path = rung_path ctx idx ru, ap_verify = v, ap_duration = qo_duration q\<rparr>"

definition errored_attempt :: "'w phase_ctx \<Rightarrow> nat \<Rightarrow> rung \<Rightarrow> prompt \<Rightarrow> attempt" where
  "errored_attempt ctx idx ru p = \<lparr>ap_tier = Some (ru_tier ru), ap_family = None,
     ap_backend = ru_backend ru, ap_model = unwrap_or ''default'' (nonempty (pr_model p)),
     ap_finish = [FError], ap_usage = no_usage, ap_output_path = rung_path ctx idx ru,
     ap_verify = vo_skipped, ap_duration = 0\<rparr>"

definition ladder_output :: "'w phase_ctx \<Rightarrow> attempt list \<Rightarrow> final_status \<Rightarrow> strategy_output" where
  "ladder_output ctx attempts st = \<lparr>so_schema_version = SCHEMA_VERSION, so_strategy = KEscalating,
     so_phase = pc_phase_name ctx, so_run_id = pc_run_id ctx, so_attempts = attempts,
     so_final_status = Some st, so_aggregator = None, so_aggregate_path = None, so_verify = None\<rparr>"

text \<open>What a rung ends with: an error that aborts the ladder, or its attempt, whether it passed,
  and the context for the next rung.\<close>

type_synonym rung_end = "(strategy_error, attempt \<times> bool \<times> failure_context option) result"

definition verify_rung ::
  "'w escalating_retry \<Rightarrow> 'w phase_ctx \<Rightarrow> prompt \<Rightarrow> nat \<Rightarrow> rung \<Rightarrow> 'w backend \<Rightarrow> query_output \<Rightarrow> 'w \<Rightarrow>
     rung_end \<times> 'w" where
  "verify_rung er ctx p idx ru b q w =
     (let hook = er_verify er;
          ctx_if = (\<lambda>reason. if er_pass_failure_context er
            then Some (from_verify_fail (er_redact er) (ru_tier ru) (bk_name b) reason (Some (qo_stdout q)))
            else None)
      in case vh_verify hook (hook_ctx_of q) w of
           (Inr res, w') \<Rightarrow>
             (if is_pass res then
                (Inr (answered_attempt ctx idx ru b q p (vo_passed (vh_name hook)), True, None), w')
              else
                (Inr (answered_attempt ctx idx ru b q p (vo_failed (vh_name hook)), False,
                      ctx_if (case res of HookFail reason \<Rightarrow> fr_summary reason | _ \<Rightarrow> ''verify did not pass'')), w'))
         | (Inl msg, w') \<Rightarrow>
             (Inr (answered_attempt ctx idx ru b q p (vo_failed (vh_name hook)), False, ctx_if msg), w'))"

definition run_rung ::
  "'w escalating_retry \<Rightarrow> 'w backend list \<Rightarrow> prompt \<Rightarrow> 'w phase_ctx \<Rightarrow> string \<Rightarrow> nat \<Rightarrow> rung \<Rightarrow>
     failure_context option \<Rightarrow> 'w \<Rightarrow> rung_end \<times> 'w" where
  "run_rung er backends p ctx rendered idx ru previous w =
     (case find_backend (ru_backend ru) backends of
        None \<Rightarrow> (Inl (BackendNotFound (ru_backend ru)), w)
      | Some b \<Rightarrow> (case bk_query b (rung_prompt er rendered idx previous) (pc_cwd ctx) (pr_model p) w of
            (Inr q, w1) \<Rightarrow> (case write_strategy_output ctx (rung_path ctx idx ru) (qo_stdout q) w1 of
                (Inl e, w2) \<Rightarrow> (Inl e, w2)
              | (Inr _, w2) \<Rightarrow> verify_rung er ctx p idx ru b q w2)
          | (Inl e, w1) \<Rightarrow>
              (Inr (errored_attempt ctx idx ru p, False,
                    if er_pass_failure_context er
                    then Some (from_backend_error (er_redact er) (ru_tier ru) (bk_name b) e) else None), w1)))"

fun climb ::
  "'w escalating_retry \<Rightarrow> 'w backend list \<Rightarrow> prompt \<Rightarrow> 'w phase_ctx \<Rightarrow> string \<Rightarrow> nat \<Rightarrow> rung list \<Rightarrow>
     attempt list \<Rightarrow> failure_context option \<Rightarrow> 'w \<Rightarrow> (strategy_error, strategy_output) result \<times> 'w" where
  "climb er backends p ctx rendered idx [] attempts previous w =
     (Inl (ExhaustedErr (ladder_output ctx attempts Exhausted)), w)"
| "climb er backends p ctx rendered idx (ru # rus) attempts previous w =
     (case run_rung er backends p ctx rendered idx ru previous w of
        (Inl e, w') \<Rightarrow> (Inl e, w')
      | (Inr (a, passed, next_ctx), w') \<Rightarrow>
          (if passed then (Inr (ladder_output ctx (attempts @ [a]) Succeeded), w')
           else climb er backends p ctx rendered (idx + 1) rus (attempts @ [a]) next_ctx w'))"

definition escalating_execute ::
  "'w escalating_retry \<Rightarrow> 'w backend list \<Rightarrow> prompt \<Rightarrow> 'w phase_ctx \<Rightarrow> 'w \<Rightarrow>
     (strategy_error, strategy_output) result \<times> 'w" where
  "escalating_execute er backends p ctx w =
     (if er_rungs er = [] \<or> backends = [] then (Inl NoBackends, w)
      else case pc_render ctx (er_prompt_template er) of
          Inl e \<Rightarrow> (Inl (PromptRender e), w)
        | Inr rendered \<Rightarrow> climb er backends p ctx rendered 0 (er_rungs er) [] None w)"

subsection \<open>Bounds\<close>

lemma floor_boundary_le: "floor_boundary s b \<le> b"
  by (induction s b rule: floor_boundary.induct) (auto intro: le_SucI)

lemma floor_boundary_ok: "is_char_boundary s (floor_boundary s b)"
  by (induction s b rule: floor_boundary.induct) (auto simp: is_char_boundary_def)

lemma nat_str_length_mono: "a \<le> b \<Longrightarrow> length (nat_str a) \<le> length (nat_str b)"
proof (induction b arbitrary: a rule: less_induct)
  case (less b)
  show ?case
  proof (cases "a < 10")
    case True
    have "length (nat_str a) = 1" using True by (subst nat_str.simps) simp
    moreover have "1 \<le> length (nat_str b)" using nat_str_ne [of b] by (cases "nat_str b") auto
    ultimately show ?thesis by simp
  next
    case False
    then have b: "\<not> b < 10" using less.prems by simp
    have "a div 10 \<le> b div 10" using less.prems by (rule div_le_mono)
    with less.IH [of "b div 10" "a div 10"] b have "length (nat_str (a div 10)) \<le> length (nat_str (b div 10))"
      by simp
    then show ?thesis
      by (subst (1 2) nat_str.simps) (simp add: False b)
  qed
qed

lemma elided_suffix_length: "length (elided_suffix n) = SUFFIX_TEMPLATE_LEN + length (nat_str n)"
  by (simp add: elided_suffix_def SUFFIX_TEMPLATE_LEN_def)

lemma truncate_excerpt_length: "length (truncate_excerpt s m) \<le> m"
proof -
  let ?sl = "SUFFIX_TEMPLATE_LEN + length (nat_str (length s))"
  let ?b = "floor_boundary s (m - ?sl)"
  have "min (length s) ?b + (SUFFIX_TEMPLATE_LEN + length (nat_str (length s - ?b))) \<le> m"
    if "?sl < m" "m < length s"
    using nat_str_length_mono [of "length s - ?b" "length s"] floor_boundary_le [of s "m - ?sl"] that
    by linarith
  with floor_boundary_le [of s m] show ?thesis
    by (auto simp: truncate_excerpt_def Let_def elided_suffix_length not_le intro: min.coboundedI2)
qed

text \<open>
  Truncation keeps every excerpt within its byte budget, whatever the budget, and cuts at a
  character boundary: the result is the text itself, or a prefix of it that ends at a boundary,
  possibly followed by the note with the exact number of bytes left out.
\<close>

theorem truncate_excerpt_bounded:
  "length (truncate_excerpt s m) \<le> m \<and>
   (truncate_excerpt s m = s \<or>
    (\<exists>b. is_char_boundary s b \<and> (truncate_excerpt s m = take b s \<or>
       truncate_excerpt s m = take b s @ elided_suffix (length s - b))))"
proof -
  have "truncate_excerpt s m = s \<or>
    (\<exists>b. is_char_boundary s b \<and> (truncate_excerpt s m = take b s \<or>
       truncate_excerpt s m = take b s @ elided_suffix (length s - b)))"
    unfolding truncate_excerpt_def Let_def using floor_boundary_ok [of s] by (simp; blast)
  with truncate_excerpt_length show ?thesis by blast
qed

lemma shrink_envelope_length: "length (shrink_envelope fc body e v) \<le> MAX_FAILURE_CONTEXT_BYTES"
proof (induction fc body e v rule: shrink_envelope.induct)
  case (1 fc body e v)
  show ?case
    by (subst shrink_envelope.simps) (use 1 truncate_excerpt_length in \<open>simp add: Let_def\<close>)
qed

text \<open>
  C35: The failure envelope never exceeds 8192 bytes, whatever the previous attempt said and
  however long the original prompt is; and when the untrimmed envelope fits, it is sent whole.
\<close>

theorem failure_envelope_bounded:
  "length (build_failure_envelope fc body) \<le> 8192 \<and>
   (length (envelope_text fc body 4096 1024) \<le> 8192 \<longrightarrow>
      build_failure_envelope fc body = envelope_text fc body 4096 1024)"
  using shrink_envelope_length [of fc body 4096 1024]
  by (simp add: build_failure_envelope_def MAX_FAILURE_CONTEXT_BYTES_def MAX_RESPONSE_EXCERPT_BYTES_def
      shrink_envelope.simps [of fc body 4096 1024])

theorem failure_envelope_bounded_witness:
  "let fc = \<lparr>fc_tier = Cheap, fc_backend = ''ollama'', fc_verify_reason = None, fc_error_class = Some ''Auth'', fc_excerpt = None\<rparr>
   in build_failure_envelope fc ''hi'' = envelope_text fc ''hi'' 4096 1024"
proof -
  let ?fc = "\<lparr>fc_tier = Cheap, fc_backend = ''ollama'', fc_verify_reason = None, fc_error_class = Some ''Auth'', fc_excerpt = None\<rparr>"
  have "length (envelope_text ?fc ''hi'' 4096 1024) \<le> 8192"
    by (simp add: envelope_text_def truncate_excerpt_def debug_str_def debug_char_def Let_def)
  with failure_envelope_bounded [of ?fc "''hi''"] show ?thesis by (simp only: Let_def)
qed

subsection \<open>The walk\<close>

definition passed_attempt :: "attempt \<Rightarrow> bool" where
  "passed_attempt a \<longleftrightarrow> vo_status (ap_verify a) = VPass"

definition of_rung :: "rung \<Rightarrow> tier option \<times> string" where
  "of_rung ru = (Some (ru_tier ru), ru_backend ru)"

definition attempt_slot :: "attempt \<Rightarrow> tier option \<times> string" where
  "attempt_slot a = (ap_tier a, ap_backend a)"

lemmas attempt_defs = answered_attempt_def errored_attempt_def attempt_slot_def of_rung_def
  passed_attempt_def vo_passed_def vo_failed_def vo_skipped_def

lemma verify_rung_attempt:
  assumes "verify_rung er ctx p idx ru b q w = (r, w')" "bk_name b = ru_backend ru"
  shows "\<exists>a passed fc. r = Inr (a, passed, fc) \<and> attempt_slot a = of_rung ru \<and> (passed \<longleftrightarrow> passed_attempt a)"
  using assms
  by (auto simp: verify_rung_def Let_def attempt_defs split: prod.splits sum.splits if_splits)

lemma run_rung_attempt:
  assumes "run_rung er backends p ctx rendered idx ru previous w = (Inr (a, passed, fc), w')"
  shows "attempt_slot a = of_rung ru \<and> (passed \<longleftrightarrow> passed_attempt a)"
proof -
  obtain b where b: "find_backend (ru_backend ru) backends = Some b"
    using assms by (cases "find_backend (ru_backend ru) backends") (auto simp: run_rung_def)
  obtain qr w1 where q: "bk_query b (rung_prompt er rendered idx previous) (pc_cwd ctx) (pr_model p) w = (qr, w1)"
    by (cases "bk_query b (rung_prompt er rendered idx previous) (pc_cwd ctx) (pr_model p) w") auto
  show ?thesis
  proof (cases qr)
    case (Inl e)
    with assms b q show ?thesis by (auto simp: run_rung_def attempt_defs)
  next
    case (Inr out)
    with assms b q obtain w2 where "verify_rung er ctx p idx ru b out w2 = (Inr (a, passed, fc), w')"
      by (auto simp: run_rung_def split: prod.splits sum.splits)
    from verify_rung_attempt [OF this] find_backend_Some [OF b] show ?thesis by auto
  qed
qed

definition ladder_ok :: "rung list \<Rightarrow> (strategy_error, strategy_output) result \<Rightarrow> attempt list \<Rightarrow> bool" where
  "ladder_ok rus r acc \<longleftrightarrow>
     (\<forall>out. r = Inr out \<longrightarrow> so_final_status out = Some Succeeded \<and>
        (\<exists>as n. so_attempts out = acc @ as \<and> 0 < n \<and> n \<le> length rus \<and>
           map attempt_slot as = map of_rung (take n rus) \<and>
           passed_attempt (last as) \<and> (\<forall>a \<in> set (butlast as). \<not> passed_attempt a))) \<and>
     (\<forall>out. r = Inl (ExhaustedErr out) \<longrightarrow> so_final_status out = Some Exhausted \<and>
        (\<exists>as. so_attempts out = acc @ as \<and> map attempt_slot as = map of_rung rus \<and>
           (\<forall>a \<in> set as. \<not> passed_attempt a)))"

lemma ladder_ok_cons:
  assumes "ladder_ok rus r (acc @ [a])" "attempt_slot a = of_rung ru" "\<not> passed_attempt a"
  shows "ladder_ok (ru # rus) r acc"
  unfolding ladder_ok_def
proof (intro conjI allI impI)
  fix out assume "r = Inr out"
  with assms(1) obtain as n where as: "so_final_status out = Some Succeeded" "so_attempts out = (acc @ [a]) @ as"
    "0 < n" "n \<le> length rus" "map attempt_slot as = map of_rung (take n rus)" "passed_attempt (last as)"
    "\<forall>a \<in> set (butlast as). \<not> passed_attempt a"
    unfolding ladder_ok_def by blast
  from as(3,4,5) have "as \<noteq> []" by auto
  with as assms(2,3) show "so_final_status out = Some Succeeded"
    "\<exists>as n. so_attempts out = acc @ as \<and> 0 < n \<and> n \<le> length (ru # rus) \<and>
       map attempt_slot as = map of_rung (take n (ru # rus)) \<and>
       passed_attempt (last as) \<and> (\<forall>a \<in> set (butlast as). \<not> passed_attempt a)"
    by (auto intro!: exI [of _ "a # as"] exI [of _ "Suc n"])
next
  fix out assume "r = Inl (ExhaustedErr out)"
  with assms(1) obtain as where as: "so_final_status out = Some Exhausted" "so_attempts out = (acc @ [a]) @ as"
    "map attempt_slot as = map of_rung rus" "\<forall>a \<in> set as. \<not> passed_attempt a"
    unfolding ladder_ok_def by blast
  with assms(2,3) show "so_final_status out = Some Exhausted"
    "\<exists>as. so_attempts out = acc @ as \<and> map attempt_slot as = map of_rung (ru # rus) \<and>
       (\<forall>a \<in> set as. \<not> passed_attempt a)"
    by (auto intro!: exI [of _ "a # as"])
qed

lemma run_rung_no_exhausted:
  "run_rung er backends p ctx rendered idx ru previous w = (Inl e, w') \<Longrightarrow> e \<noteq> ExhaustedErr out"
  by (auto simp: run_rung_def verify_rung_def write_strategy_output_def write_text_def io_failed_def Let_def
      split: option.splits prod.splits sum.splits if_splits)

lemma climb_ladder:
  "climb er backends p ctx rendered idx rus acc previous w = (r, w') \<Longrightarrow> ladder_ok rus r acc"
proof (induction rus arbitrary: idx acc previous w)
  case Nil
  then show ?case by (auto simp: ladder_ok_def ladder_output_def)
next
  case (Cons ru rus)
  obtain e w1 where one: "run_rung er backends p ctx rendered idx ru previous w = (e, w1)"
    by (cases "run_rung er backends p ctx rendered idx ru previous w") auto
  show ?case
  proof (cases e)
    case (Inl err)
    with one Cons.prems have "r = Inl err" by simp
    moreover have "\<forall>out. err \<noteq> ExhaustedErr out" using run_rung_no_exhausted [OF one [unfolded Inl]] by blast
    ultimately show ?thesis by (simp add: ladder_ok_def)
  next
    case (Inr x)
    obtain a passed fc where x: "x = (a, passed, fc)" by (cases x)
    note slot = run_rung_attempt [OF one [unfolded Inr x]]
    show ?thesis
    proof (cases passed)
      case True
      with Cons.prems one Inr x have "r = Inr (ladder_output ctx (acc @ [a]) Succeeded)" by simp
      with slot True show ?thesis
        by (auto simp: ladder_ok_def ladder_output_def intro!: exI [of _ "[a]"] exI [of _ 1])
    next
      case False
      with Cons.prems one Inr x
      have "climb er backends p ctx rendered (idx + 1) rus (acc @ [a]) fc w1 = (r, w')" by simp
      from ladder_ok_cons [OF Cons.IH [OF this]] slot False show ?thesis by blast
    qed
  qed
qed

text \<open>
  C17: The ladder stops at the first pass: a successful run has one attempt per rung tried, in
  the order of the rungs and with their tiers and backends, the last one passed and no earlier
  one did; a run reported as exhausted has an attempt for every rung and none passed.
\<close>

theorem escalating_stops_at_first_pass:
  assumes "escalating_execute er backends p ctx w = (r, w')"
  shows "(\<forall>out. r = Inr out \<longrightarrow> so_final_status out = Some Succeeded \<and>
      (\<exists>n. 0 < n \<and> n \<le> length (er_rungs er) \<and>
         map attempt_slot (so_attempts out) = map of_rung (take n (er_rungs er)) \<and>
         passed_attempt (last (so_attempts out)) \<and> (\<forall>a \<in> set (butlast (so_attempts out)). \<not> passed_attempt a))) \<and>
    (\<forall>out. r = Inl (ExhaustedErr out) \<longrightarrow> so_final_status out = Some Exhausted \<and>
       map attempt_slot (so_attempts out) = map of_rung (er_rungs er) \<and>
       (\<forall>a \<in> set (so_attempts out). \<not> passed_attempt a))"
proof -
  have "ladder_ok (er_rungs er) r []"
    if "climb er backends p ctx rendered 0 (er_rungs er) [] None w = (r, w')" for rendered
    using climb_ladder [OF that] .
  with assms show ?thesis
    unfolding escalating_execute_def by (auto simp: ladder_ok_def split: if_splits sum.splits)
qed

text \<open>The errors that end a ladder before it is exhausted.\<close>

definition rung_error :: "'w escalating_retry \<Rightarrow> 'w backend list \<Rightarrow> 'w phase_ctx \<Rightarrow> strategy_error \<Rightarrow> bool" where
  "rung_error er backends ctx e \<longleftrightarrow>
     (\<exists>ru \<in> set (er_rungs er). find_backend (ru_backend ru) backends = None \<and> e = BackendNotFound (ru_backend ru)) \<or>
     (\<not> is_cur_dir (pc_cwd ctx) \<and> (\<exists>idx ru content w1 w2. ru \<in> set (er_rungs er) \<and>
        write_strategy_output ctx (rung_path ctx idx ru) content w1 = (Inl e, w2)))"

lemma run_rung_error:
  assumes "run_rung er backends p ctx rendered idx ru previous w = (Inl e, w')" "ru \<in> set (er_rungs er)"
  shows "rung_error er backends ctx e"
proof (cases "find_backend (ru_backend ru) backends")
  case None
  with assms show ?thesis by (auto simp: run_rung_def rung_error_def)
next
  case (Some b)
  obtain qr w1 where q: "bk_query b (rung_prompt er rendered idx previous) (pc_cwd ctx) (pr_model p) w = (qr, w1)" by (metis prod.exhaust)
  with assms(1) Some obtain out where out: "qr = Inr out" by (cases qr) (simp_all add: run_rung_def)
  obtain wr w2 where wr: "write_strategy_output ctx (rung_path ctx idx ru) (qo_stdout out) w1 = (wr, w2)" by (metis prod.exhaust)
  show ?thesis
  proof (cases wr)
    case (Inl e')
    with assms(1) Some q out wr have "e' = e" by (simp add: run_rung_def)
    with wr Inl assms(2) have "\<not> is_cur_dir (pc_cwd ctx)" by (auto simp: write_strategy_output_def)
    with wr Inl assms(2) \<open>e' = e\<close> show ?thesis by (auto simp: rung_error_def)
  next
    case (Inr u)
    obtain rv w3 where v: "verify_rung er ctx p idx ru b out w2 = (rv, w3)" by (metis prod.exhaust)
    from verify_rung_attempt [OF this] find_backend_Some [OF Some] obtain x where "rv = Inr x" by auto
    with assms(1) Some q out wr Inr v show ?thesis by (simp add: run_rung_def)
  qed
qed

lemma climb_ends:
  assumes "set rus \<subseteq> set (er_rungs er)" "climb er backends p ctx rendered idx rus acc previous w = (r, w')"
  shows "is_ok r \<or> (\<exists>out. r = Inl (ExhaustedErr out)) \<or> (\<exists>e. r = Inl e \<and> rung_error er backends ctx e)"
  using assms
proof (induction rus arbitrary: idx acc previous w)
  case (Cons ru rus)
  obtain x w1 where one: "run_rung er backends p ctx rendered idx ru previous w = (x, w1)" by (metis prod.exhaust)
  show ?case
  proof (cases x)
    case (Inl e)
    with one Cons.prems run_rung_error [OF one [unfolded Inl]] show ?thesis by auto
  next
    case (Inr y)
    obtain a passed fc where y: "y = (a, passed, fc)" by (cases y)
    show ?thesis
    proof (cases passed)
      case True
      with one Inr y Cons.prems(2) show ?thesis by auto
    next
      case False
      with one Inr y Cons.prems(2) have "climb er backends p ctx rendered (idx + 1) rus (acc @ [a]) fc w1 = (r, w')" by simp
      from Cons.IH [OF _ this] Cons.prems(1) show ?thesis by simp
    qed
  qed
qed auto

text \<open>
  C38: Neither an error of a backend (retryable or not), nor a verification that fails or crashes ends the
  ladder early: besides succeeded and exhausted it ends only for want of rungs or backends, with a prompt
  that does not render, at a rung whose backend is unknown, or, in a directory other than the current
  one, when the file of an attempt cannot be written.
\<close>

theorem escalating_never_aborts:
  assumes "escalating_execute er backends p ctx w = (r, w')"
  shows "is_ok r \<or> (\<exists>out. r = Inl (ExhaustedErr out)) \<or>
    (r = Inl NoBackends \<and> (er_rungs er = [] \<or> backends = [])) \<or>
    (\<exists>e. r = Inl (PromptRender e) \<and> pc_render ctx (er_prompt_template er) = Inl e) \<or>
    (\<exists>e. r = Inl e \<and> rung_error er backends ctx e)"
proof (cases "er_rungs er = [] \<or> backends = []")
  case True
  with assms show ?thesis by (auto simp: escalating_execute_def)
next
  case False
  show ?thesis
  proof (cases "pc_render ctx (er_prompt_template er)")
    case (Inl e)
    with assms False show ?thesis by (simp add: escalating_execute_def)
  next
    case (Inr rendered)
    with assms False have "climb er backends p ctx rendered 0 (er_rungs er) [] None w = (r, w')" by (simp add: escalating_execute_def)
    from climb_ends [OF subset_refl this] show ?thesis by blast
  qed
qed

definition demo_ladder :: "mem_fs escalating_retry" where
  "demo_ladder = \<lparr>er_rungs = [\<lparr>ru_tier = Cheap, ru_backend = ''ollama''\<rparr>, \<lparr>ru_tier = Strong, ru_backend = ''claude''\<rparr>],
     er_prompt_template = ''hi'',
     er_verify = \<lparr>vh_name = ''Hook'', vh_verify = (\<lambda>c w. (if hc_stdout c = ''good'' then Inr HookPass else Inl ''crash'', w))\<rparr>,
     er_pass_failure_context = False, er_redact = (\<lambda>s. s)\<rparr>"

definition demo_backends :: "string \<Rightarrow> mem_fs backend list" where
  "demo_backends out = [down_backend ''ollama'' (Auth ''key''), echo_backend ''claude'' out]"

definition dot_ctx :: "mem_fs phase_ctx" where
  "dot_ctx = demo_ctx\<lparr>pc_cwd := ''.''\<rparr>"

lemma dot_ctx_cur: "is_cur_dir (pc_cwd dot_ctx)"
  by (simp add: dot_ctx_def is_cur_dir_def components_def lead_components_def body_components_def is_absolute_def)

lemma demo_ladder_run:
  "\<exists>out w'. escalating_execute demo_ladder (demo_backends ''good'') \<lparr>pr_model = None\<rparr> dot_ctx demo_world = (Inr out, w') \<and>
     length (so_attempts out) = 2"
proof -
  let ?er = demo_ladder and ?bs = "demo_backends ''good''" and ?p = "\<lparr>pr_model = None\<rparr>"
  obtain a fc where 1: "run_rung ?er ?bs ?p dot_ctx ''hi'' 0 \<lparr>ru_tier = Cheap, ru_backend = ''ollama''\<rparr> None demo_world
      = (Inr (a, False, fc), demo_world)"
    by (simp add: run_rung_def demo_backends_def find_backend_def down_backend_def)
  obtain a' fc' where 2: "run_rung ?er ?bs ?p dot_ctx ''hi'' 1 \<lparr>ru_tier = Strong, ru_backend = ''claude''\<rparr> fc demo_world
      = (Inr (a', True, fc'), demo_world)"
    using dot_ctx_cur
    by (simp add: run_rung_def demo_backends_def find_backend_def down_backend_def echo_backend_def
        write_strategy_output_def verify_rung_def demo_ladder_def hook_ctx_of_def from_text_def)
  have "escalating_execute ?er ?bs ?p dot_ctx demo_world =
      climb ?er ?bs ?p dot_ctx ''hi'' 0 (er_rungs ?er) [] None demo_world"
    by (simp add: escalating_execute_def dot_ctx_def demo_ctx_def) (simp add: demo_ladder_def demo_backends_def)
  also have "er_rungs ?er = [\<lparr>ru_tier = Cheap, ru_backend = ''ollama''\<rparr>, \<lparr>ru_tier = Strong, ru_backend = ''claude''\<rparr>]"
    by (simp add: demo_ladder_def)
  finally show ?thesis using 1 2 by (simp add: ladder_output_def)
qed

theorem escalating_stops_at_first_pass_witness:
  "\<exists>out w'. escalating_execute demo_ladder (demo_backends ''good'') \<lparr>pr_model = None\<rparr> dot_ctx demo_world = (Inr out, w') \<and>
     length (so_attempts out) = 2 \<and> passed_attempt (last (so_attempts out))"
proof -
  obtain out w' where x: "escalating_execute demo_ladder (demo_backends ''good'') \<lparr>pr_model = None\<rparr> dot_ctx demo_world = (Inr out, w')"
    "length (so_attempts out) = 2" using demo_ladder_run by blast
  from escalating_stops_at_first_pass [OF x(1)] x show ?thesis by auto
qed

theorem escalating_never_aborts_witness:
  "\<exists>r w'. escalating_execute demo_ladder (demo_backends ''bad'') \<lparr>pr_model = None\<rparr> dot_ctx demo_world = (r, w') \<and>
     (is_ok r \<or> (\<exists>out. r = Inl (ExhaustedErr out)))"
proof -
  obtain r w' where x: "escalating_execute demo_ladder (demo_backends ''bad'') \<lparr>pr_model = None\<rparr> dot_ctx demo_world = (r, w')"
    by (metis prod.exhaust)
  have "\<not> rung_error demo_ladder (demo_backends ''bad'') dot_ctx e" for e
    using dot_ctx_cur
    by (simp add: rung_error_def demo_ladder_def demo_backends_def find_backend_def down_backend_def echo_backend_def)
  moreover have "er_rungs demo_ladder \<noteq> []" "demo_backends ''bad'' \<noteq> []" "pc_render dot_ctx (er_prompt_template demo_ladder) = Inr ''hi''"
    by (simp_all add: demo_ladder_def demo_backends_def dot_ctx_def demo_ctx_def)
  ultimately have "is_ok r \<or> (\<exists>out. r = Inl (ExhaustedErr out))" using escalating_never_aborts [OF x] by auto
  with x show ?thesis by blast
qed

end
