(* ===== verification/LlmJudge.thy ===== *)
theory LlmJudge
  imports SingleModel
begin

text \<open>
  \<open>src/aggregator/llm_judge.rs\<close>: the judge's ballot prompt, the separation of model families,
  the parsing of the ballot and the selection. JSON reading and template rendering are those of
  the context.
\<close>

datatype judge_error =
    JudgeFamilyOverlap string string string
  | JudgeNotFound string
  | JudgeCall backend_error
  | JudgeContract string

record ballot =
  bl_chosen :: nat
  bl_reason :: string

subsection \<open>Family separation\<close>

text \<open>The loop over the candidates; without the requirement an overlap is only a warning.\<close>

fun check_cross_family :: "string \<Rightarrow> branch_success list \<Rightarrow> bool \<Rightarrow> (judge_error, unit) result" where
  "check_cross_family judge [] require_different = Inr ()"
| "check_cross_family judge (c # cs) require_different =
     (if family_of (bs_backend c) = family_of judge \<and> require_different
      then Inl (JudgeFamilyOverlap judge (bs_backend c) (family_str (family_of judge)))
      else check_cross_family judge cs require_different)"

subsection \<open>Prompt and ballot\<close>

definition candidate_json :: "branch_success \<Rightarrow> json" where
  "candidate_json c = JObj [(''index'', nat_json (bs_index c)), (''backend_id'', JStr (bs_backend c)),
     (''family'', JStr (bs_family c)), (''output'', JStr (bs_output c))]"

definition render_ballot_prompt :: "string \<Rightarrow> branch_success list \<Rightarrow> 'w phase_ctx \<Rightarrow> (judge_error, string) result" where
  "render_ballot_prompt template candidates ctx =
     map_err (\<lambda>e. JudgeContract (''template render failed: '' @ e))
       (pc_render_value ctx template (JObj [(''candidates'', JArr (map candidate_json candidates)),
          (''phase_name'', JStr (pc_phase_name ctx))]))"

text \<open>The first reading, and the second one from the first brace to the last.\<close>

definition read_ballot_json :: "json_lib \<Rightarrow> string \<Rightarrow> (string, json) result" where
  "read_ballot_json js stripped =
     (case js_parse js stripped of
        Inr v \<Rightarrow> Inr v
      | Inl _ \<Rightarrow> (case (find_char (CHR ''{'') stripped, rfind_char (CHR ''}'') stripped) of
            (Some s, Some e) \<Rightarrow>
              if s < e then js_parse js (take (e + 1 - s) (drop s stripped))
              else Inl ''invalid JSON payload''
          | _ \<Rightarrow> Inl ''invalid JSON payload''))"

definition parse_ballot :: "json_lib \<Rightarrow> string \<Rightarrow> (judge_error, ballot) result" where
  "parse_ballot js txt =
     (case read_ballot_json js (strip_markdown_fences (trim txt)) of
        Inl e \<Rightarrow> Inl (JudgeContract (''JSON parse error: '' @ e))
      | Inr v \<Rightarrow>
          (case Option.bind (json_get ''chosen_index'' v) as_u64 of
             None \<Rightarrow> Inl (JudgeContract (''missing or non-integer '' @ quoted ''chosen_index''))
           | Some i \<Rightarrow> (case Option.bind (json_get ''reason'' v) as_str of
                 None \<Rightarrow> Inl (JudgeContract (''missing or non-string '' @ quoted ''reason''))
               | Some reason \<Rightarrow> Inr \<lparr>bl_chosen = i, bl_reason = reason\<rparr>)))"

definition clamp_chosen_index :: "nat \<Rightarrow> nat \<Rightarrow> nat" where
  "clamp_chosen_index chosen_index candidate_count =
     (if candidate_count = 0 then 0 else min chosen_index (candidate_count - 1))"

subsection \<open>The judgement\<close>

definition judge_text ::
  "branch_success list \<Rightarrow> string \<Rightarrow> bool \<Rightarrow> branch_success \<Rightarrow> ballot \<Rightarrow> string" where
  "judge_text candidates judge require_different chosen b =
     bs_output chosen @ [CHR 0x0A, CHR 0x0A] @ ''<!-- loker: LLMJudge chose candidate '' @
     nat_str (bs_index chosen) @ '' ('' @ bs_backend chosen @ '') -->'' @ [CHR 0x0A] @ bl_reason b @
     (case List.find (\<lambda>c. family_of (bs_backend c) = family_of judge) candidates of
        Some c \<Rightarrow>
          if \<not> require_different then
            [CHR 0x0A] @ ''<!-- loker: warning judge family '' @ quoted (family_str (family_of judge)) @
            '' shares family with candidate '' @ quoted (bs_backend c) @
            '' but require_judge_different_family=false -->''
          else []
      | None \<Rightarrow> [])"

definition aggregate_llm_judge ::
  "branch_success list \<Rightarrow> string \<Rightarrow> string \<Rightarrow> bool \<Rightarrow> 'w backend list \<Rightarrow> 'w phase_ctx \<Rightarrow> 'w \<Rightarrow>
     (judge_error, aggregated_artifact) result \<times> 'w" where
  "aggregate_llm_judge candidates judge_backend template require_different backends ctx w =
     (if candidates = [] then (Inl (JudgeContract ''no candidates available for judge decision''), w)
      else case check_cross_family judge_backend candidates require_different of
          Inl e \<Rightarrow> (Inl e, w)
        | Inr _ \<Rightarrow> (case render_ballot_prompt template candidates ctx of
              Inl e \<Rightarrow> (Inl e, w)
            | Inr ballot_prompt \<Rightarrow> (case find_backend judge_backend backends of
                  None \<Rightarrow> (Inl (JudgeNotFound judge_backend), w)
                | Some judge \<Rightarrow> (case bk_query judge ballot_prompt (pc_cwd ctx) None w of
                      (Inl e, w1) \<Rightarrow> (Inl (JudgeCall e), w1)
                    | (Inr q, w1) \<Rightarrow> (case parse_ballot (pc_json ctx) (qo_stdout q) of
                          Inl e \<Rightarrow> (Inl e, w1)
                        | Inr b \<Rightarrow>
                            let chosen = candidates ! clamp_chosen_index (bl_chosen b) (length candidates)
                            in (Inr \<lparr>aa_text = judge_text candidates judge_backend require_different chosen b,
                                     aa_successful = length candidates, aa_failed = 0\<rparr>, w1))))))"

subsection \<open>Properties\<close>

lemma check_cross_family_ok:
  "check_cross_family judge cs req = Inr () \<longleftrightarrow>
     \<not> req \<or> (\<forall>c \<in> set cs. family_of (bs_backend c) \<noteq> family_of judge)"
  by (induction cs) auto

text \<open>
  With the separation required, a judge of the same family as any candidate is never asked
  (the world is unchanged) and the judgement fails; when a judgement succeeds, the judge's family
  differs from that of every candidate.
\<close>

theorem judge_family_separation:
  assumes "aggregate_llm_judge candidates judge template True backends ctx w = (r, w')"
  shows "((\<exists>c \<in> set candidates. family_of (bs_backend c) = family_of judge) \<longrightarrow>
      (\<exists>c \<in> set candidates. r = Inl (JudgeFamilyOverlap judge (bs_backend c) (family_str (family_of judge)))) \<and> w' = w) \<and>
    (is_ok r \<longrightarrow> (\<forall>c \<in> set candidates. family_of (bs_backend c) \<noteq> family_of judge))"
proof -
  have inl: "check_cross_family judge cs True = Inl e \<Longrightarrow>
      \<exists>c \<in> set cs. e = JudgeFamilyOverlap judge (bs_backend c) (family_str (family_of judge))" for cs e
    by (induction cs) (auto split: if_splits)
  have ne: "candidates \<noteq> []" if "\<exists>c \<in> set candidates. family_of (bs_backend c) = family_of judge"
    using that by auto
  show ?thesis
  proof (cases "check_cross_family judge candidates True")
    case (Inl e)
    with assms inl [OF Inl] show ?thesis
      by (auto simp: aggregate_llm_judge_def split: if_splits)
  next
    case (Inr u)
    then have "\<forall>c \<in> set candidates. family_of (bs_backend c) \<noteq> family_of judge"
      using check_cross_family_ok [of judge candidates True] by simp
    then show ?thesis by blast
  qed
qed

definition demo_candidate :: "string \<Rightarrow> nat \<Rightarrow> string \<Rightarrow> branch_success" where
  "demo_candidate b i out = \<lparr>bs_backend = b, bs_family = family_str (family_of b), bs_index = i, bs_output = out\<rparr>"

theorem judge_family_separation_witness:
  "let (r, w') = aggregate_llm_judge [demo_candidate ''codex'' 1 ''a''] ''openai'' ''t'' True [] demo_ctx demo_world
   in is_err r \<and> w' = demo_world"
proof -
  obtain r w' where x: "aggregate_llm_judge [demo_candidate ''codex'' 1 ''a''] ''openai'' ''t'' True [] demo_ctx demo_world = (r, w')"
    by (cases "aggregate_llm_judge [demo_candidate ''codex'' 1 ''a''] ''openai'' ''t'' True [] demo_ctx demo_world") auto
  have "family_of ''codex'' = family_of ''openai''"
    by (simp add: family_of_no_gateway family_of_loker_def family_of_plain_def)
  with judge_family_separation [OF x] x show ?thesis by (auto simp: demo_candidate_def)
qed

text \<open>
  A successful judgement returns the output of one of the candidates: the ballot's index is
  a position counted from zero, and a position beyond the last candidate means the last one.
\<close>

theorem judge_selects_candidate:
  assumes "aggregate_llm_judge candidates judge template req backends ctx w = (Inr art, w')"
  shows "\<exists>c b pre. c \<in> set candidates \<and> c = candidates ! min (bl_chosen b) (length candidates - 1) \<and>
    parse_ballot (pc_json ctx) pre = Inr b \<and> starts_with (aa_text art) (bs_output c) \<and>
    aa_successful art = length candidates"
proof -
  have ne: "candidates \<noteq> []" using assms by (auto simp: aggregate_llm_judge_def)
  with assms obtain b pre where b: "parse_ballot (pc_json ctx) pre = Inr b"
    "art = \<lparr>aa_text = judge_text candidates judge req (candidates ! clamp_chosen_index (bl_chosen b) (length candidates)) b,
       aa_successful = length candidates, aa_failed = 0\<rparr>"
    by (auto simp: aggregate_llm_judge_def Let_def split: sum.splits option.splits prod.splits)
  have idx: "clamp_chosen_index (bl_chosen b) (length candidates) = min (bl_chosen b) (length candidates - 1)"
    using ne by (simp add: clamp_chosen_index_def)
  have "min (bl_chosen b) (length candidates - 1) < length candidates" using ne by (cases candidates) auto
  then have "candidates ! min (bl_chosen b) (length candidates - 1) \<in> set candidates" by (rule nth_mem)
  moreover have "starts_with (aa_text art) (bs_output (candidates ! min (bl_chosen b) (length candidates - 1)))"
    using b(2) idx by (auto simp: judge_text_def starts_with_iff)
  ultimately show ?thesis using b by (metis aggregated_artifact.select_convs(2))
qed

text \<open>A judge that always answers with the given ballot.\<close>

definition ballot_ctx :: "nat \<Rightarrow> mem_fs phase_ctx" where
  "ballot_ctx i = demo_ctx\<lparr>pc_json := \<lparr>js_parse = (\<lambda>_. Inr (JObj [(''chosen_index'', nat_json i), (''reason'', JStr ''ok'')])),
     js_show = (\<lambda>_. [])\<rparr>\<rparr>"

definition two_candidates :: "branch_success list" where
  "two_candidates = [demo_candidate ''codex'' 1 ''first'', demo_candidate ''gemini'' 2 ''second'']"

lemma two_candidates_run:
  assumes "i < 2 ^ 64"
  shows "aggregate_llm_judge two_candidates ''claude'' ''t'' True [echo_backend ''claude'' ''x''] (ballot_ctx i) demo_world =
     (Inr \<lparr>aa_text = judge_text two_candidates ''claude'' True (two_candidates ! min i 1) \<lparr>bl_chosen = i, bl_reason = ''ok''\<rparr>,
           aa_successful = 2, aa_failed = 0\<rparr>, demo_world)"
proof -
  have "check_cross_family ''claude'' two_candidates True = Inr ()"
    by (simp add: two_candidates_def demo_candidate_def family_of_no_gateway family_of_loker_def family_of_plain_def)
  moreover have "parse_ballot (pc_json (ballot_ctx i)) s = Inr \<lparr>bl_chosen = i, bl_reason = ''ok''\<rparr>" for s
    using assms by (simp add: parse_ballot_def read_ballot_json_def ballot_ctx_def nat_json_def)
  moreover have "find_backend ''claude'' [echo_backend ''claude'' ''x'' :: mem_fs backend] = Some (echo_backend ''claude'' ''x'')"
    by (simp add: find_backend_def echo_backend_def)
  moreover have "length two_candidates = 2" "two_candidates \<noteq> []" by (simp_all add: two_candidates_def)
  ultimately show ?thesis
    by (simp add: aggregate_llm_judge_def render_ballot_prompt_def ballot_ctx_def demo_ctx_def
        echo_backend_def clamp_chosen_index_def Let_def)
qed

theorem judge_selects_candidate_witness:
  "\<exists>art w'. aggregate_llm_judge two_candidates ''claude'' ''t'' True [echo_backend ''claude'' ''x''] (ballot_ctx 9) demo_world = (Inr art, w')
     \<and> (\<exists>c \<in> set two_candidates. starts_with (aa_text art) (bs_output c))"
proof -
  obtain art w' where x: "aggregate_llm_judge two_candidates ''claude'' ''t'' True [echo_backend ''claude'' ''x''] (ballot_ctx 9) demo_world = (Inr art, w')"
    using two_candidates_run [of 9] by auto
  from judge_selects_candidate [OF x] x show ?thesis by blast
qed

text \<open>
  The index a candidate is shown with in the ballot prompt (\<open>index\<close>, counted from one) is
  not the index by which the ballot selects it: a judge that answers with the shown index of the
  first of two candidates gets the second one.
\<close>

theorem judge_shown_index_off_by_one:
  "bs_index (hd two_candidates) = 1 \<and>
   (\<exists>art. fst (aggregate_llm_judge two_candidates ''claude'' ''t'' True [echo_backend ''claude'' ''x'']
        (ballot_ctx (bs_index (hd two_candidates))) demo_world) = Inr art \<and>
      starts_with (aa_text art) ''second'')"
proof -
  have 1: "bs_index (hd two_candidates) = 1" by (simp add: two_candidates_def demo_candidate_def)
  have "two_candidates ! min 1 1 = demo_candidate ''gemini'' 2 ''second''" by (simp add: two_candidates_def)
  then show ?thesis
    unfolding 1 using two_candidates_run [of 1]
    by (simp add: judge_text_def demo_candidate_def)
qed

end
