(* ===== verification/FanOut.thy ===== *)
theory FanOut
  imports Vote LlmJudge
begin

text \<open>
  \<open>src/strategy/parallel_fanout.rs\<close>: one prompt to several backends at once. The concurrent
  queries are an argument: \<open>answers\<close> gives what a target's query returns and \<open>order\<close> the order in
  which the targets complete. The collecting loop, the floor and the aggregation are the code's.
\<close>

record target_spec =
  ts_backend :: string
  ts_model :: "string option"

record parallel_fanout =
  pf_targets :: "target_spec list"
  pf_min_responses :: nat
  pf_prompt_template :: string
  pf_aggregator :: aggregator

text \<open>The constructor panics when the floor is zero.\<close>

definition parallel_fanout_new ::
  "target_spec list \<Rightarrow> nat \<Rightarrow> string \<Rightarrow> aggregator \<Rightarrow> parallel_fanout option" where
  "parallel_fanout_new targets min_responses template agg =
     (if min_responses > 0
      then Some \<lparr>pf_targets = targets, pf_min_responses = min_responses,
        pf_prompt_template = template, pf_aggregator = agg\<rparr>
      else None)"

subsection \<open>Requests\<close>

record fan_request =
  rq_backend :: string
  rq_prompt :: string
  rq_cwd :: path
  rq_model :: "string option"

definition target_request :: "'w phase_ctx \<Rightarrow> prompt \<Rightarrow> string \<Rightarrow> target_spec \<Rightarrow> fan_request" where
  "target_request ctx p rendered t = \<lparr>rq_backend = ts_backend t, rq_prompt = rendered,
     rq_cwd = pc_cwd ctx, rq_model = or_else (nonempty (ts_model t)) (nonempty (pr_model p))\<rparr>"

text \<open>The first target without a backend fails the phase before anything is awaited.\<close>

fun fan_requests ::
  "'w backend list \<Rightarrow> 'w phase_ctx \<Rightarrow> prompt \<Rightarrow> string \<Rightarrow> target_spec list \<Rightarrow>
     (strategy_error, fan_request list) result" where
  "fan_requests backends ctx p rendered [] = Inr []"
| "fan_requests backends ctx p rendered (t # ts) =
     (case find_backend (ts_backend t) backends of
        None \<Rightarrow> Inl (BackendNotFound (ts_backend t))
      | Some b \<Rightarrow> (case fan_requests backends ctx p rendered ts of
            Inl e \<Rightarrow> Inl e
          | Inr rs \<Rightarrow> Inr (target_request ctx p rendered t # rs)))"

subsection \<open>Records of a branch\<close>

definition branch_path :: "'w phase_ctx \<Rightarrow> nat \<Rightarrow> string" where
  "branch_path ctx idx = pc_phase_name ctx @ ''/attempts/'' @ nat_str idx @ ''-parallel.txt''"

definition aggregate_path :: "'w phase_ctx \<Rightarrow> string" where
  "aggregate_path ctx = pc_phase_name ctx @ ''/aggregated.txt''"

definition pick_model_override :: "query_output \<Rightarrow> prompt \<Rightarrow> target_spec \<Rightarrow> string" where
  "pick_model_override q p t = unwrap_or ''default''
     (or_else (or_else (nonempty (qo_model q)) (nonempty (ts_model t))) (nonempty (pr_model p)))"

definition target_family :: "target_spec \<Rightarrow> string" where
  "target_family t = family_str (family_of (ts_backend t))"

definition answered_branch :: "'w phase_ctx \<Rightarrow> prompt \<Rightarrow> nat \<Rightarrow> target_spec \<Rightarrow> query_output \<Rightarrow> attempt" where
  "answered_branch ctx p idx t q = \<lparr>ap_tier = None, ap_family = Some (target_family t),
     ap_backend = ts_backend t, ap_model = pick_model_override q p t, ap_finish = [FStop],
     ap_usage = usage_report q, ap_output_path = branch_path ctx idx, ap_verify = vo_skipped,
     ap_duration = qo_duration q\<rparr>"

definition errored_branch :: "'w phase_ctx \<Rightarrow> prompt \<Rightarrow> nat \<Rightarrow> target_spec \<Rightarrow> attempt" where
  "errored_branch ctx p idx t = \<lparr>ap_tier = None, ap_family = Some (target_family t),
     ap_backend = ts_backend t,
     ap_model = unwrap_or ''default'' (or_else (nonempty (ts_model t)) (nonempty (pr_model p))),
     ap_finish = [FError], ap_usage = no_usage, ap_output_path = branch_path ctx idx,
     ap_verify = vo_skipped, ap_duration = 0\<rparr>"

definition fan_output :: "parallel_fanout \<Rightarrow> 'w phase_ctx \<Rightarrow> attempt list \<Rightarrow> verify_outcome \<Rightarrow> strategy_output" where
  "fan_output pf ctx attempts v = \<lparr>so_schema_version = SCHEMA_VERSION, so_strategy = KParallel,
     so_phase = pc_phase_name ctx, so_run_id = pc_run_id ctx, so_attempts = attempts,
     so_final_status = None, so_aggregator = Some (aggregator_kind (pf_aggregator pf)),
     so_aggregate_path = Some (aggregate_path ctx), so_verify = Some v\<rparr>"

definition write_branch_output ::
  "'w phase_ctx \<Rightarrow> string \<Rightarrow> string \<Rightarrow> 'w \<Rightarrow> (strategy_error, unit) result \<times> 'w" where
  "write_branch_output ctx output_path content w =
     (if is_cur_dir (pc_cwd ctx) then (Inr (), w)
      else write_text (pc_ops ctx) ''failed to create branch output parent '' ''failed to write branch output ''
        (path_join (pc_cwd ctx) output_path) content w)"

subsection \<open>The collecting loop\<close>

record fan_state =
  fs_attempts :: "attempt list"
  fs_successes :: nat
  fs_candidates :: "branch_success list"
  fs_votes :: "branch_outcome list"

definition fan_start :: fan_state where
  "fan_start = \<lparr>fs_attempts = [], fs_successes = 0, fs_candidates = [], fs_votes = []\<rparr>"

definition is_any_fail :: "parallel_fanout \<Rightarrow> bool" where
  "is_any_fail pf = (pf_aggregator pf = AnyFail)"

fun is_llm_judge_agg :: "aggregator \<Rightarrow> bool" where
  "is_llm_judge_agg (LLMJudge _ _ _) = True"
| "is_llm_judge_agg _ = False"

fun is_vote_agg :: "aggregator \<Rightarrow> bool" where
  "is_vote_agg (Vote _) = True"
| "is_vote_agg _ = False"

text \<open>The modes that stop as soon as enough targets have answered.\<close>

definition stops_early :: "parallel_fanout \<Rightarrow> bool" where
  "stops_early pf \<longleftrightarrow> \<not> is_any_fail pf \<and> \<not> is_llm_judge_agg (pf_aggregator pf) \<and>
     \<not> is_vote_agg (pf_aggregator pf) \<and> pf_aggregator pf \<noteq> AllPass"

definition any_fail_error ::
  "parallel_fanout \<Rightarrow> 'w phase_ctx \<Rightarrow> target_spec \<Rightarrow> any_fail_reason \<Rightarrow> attempt \<Rightarrow> attempt list \<Rightarrow> strategy_error" where
  "any_fail_error pf ctx t reason offender attempts =
     AnyFailErr (ts_backend t) reason offender
       (fan_output pf ctx (attempts @ [offender]) (vo_failed ''Aggregator::AnyFail''))"

definition record_success ::
  "parallel_fanout \<Rightarrow> 'w phase_ctx \<Rightarrow> prompt \<Rightarrow> nat \<Rightarrow> target_spec \<Rightarrow> query_output \<Rightarrow> fan_state \<Rightarrow> fan_state" where
  "record_success pf ctx p idx t q st =
     (let s = \<lparr>bs_backend = ts_backend t, bs_family = target_family t,
               bs_index = length (fs_candidates st) + 1, bs_output = qo_stdout q\<rparr>
      in \<lparr>fs_attempts = fs_attempts st @ [answered_branch ctx p idx t q],
          fs_successes = fs_successes st + 1,
          fs_candidates = fs_candidates st @ [s],
          fs_votes = (if is_vote_agg (pf_aggregator pf) then fs_votes st @ [Success s] else fs_votes st)\<rparr>)"

definition record_failure ::
  "parallel_fanout \<Rightarrow> 'w phase_ctx \<Rightarrow> prompt \<Rightarrow> nat \<Rightarrow> target_spec \<Rightarrow> backend_error \<Rightarrow> fan_state \<Rightarrow> fan_state" where
  "record_failure pf ctx p idx t e st = st
     \<lparr>fs_attempts := fs_attempts st @ [errored_branch ctx p idx t],
      fs_votes := (if is_vote_agg (pf_aggregator pf)
        then fs_votes st @ [Failure \<lparr>bf_backend = ts_backend t, bf_family = target_family t,
               bf_index = length (fs_attempts st) + 1, bf_reason = backend_error_str e\<rparr>]
        else fs_votes st)\<rparr>"

fun fan_collect ::
  "parallel_fanout \<Rightarrow> 'w phase_ctx \<Rightarrow> prompt \<Rightarrow> (nat \<times> (backend_error, query_output) result) list \<Rightarrow>
     fan_state \<Rightarrow> 'w \<Rightarrow> (strategy_error, fan_state) result \<times> 'w" where
  "fan_collect pf ctx p [] st w = (Inr st, w)"
| "fan_collect pf ctx p ((idx, Inl e) # rest) st w =
     (let t = pf_targets pf ! idx in
      if is_any_fail pf then
        (Inl (any_fail_error pf ctx t (VerdictBackendError (backend_error_str e))
                (errored_branch ctx p idx t) (fs_attempts st)), w)
      else fan_collect pf ctx p rest (record_failure pf ctx p idx t e st) w)"
| "fan_collect pf ctx p ((idx, Inr q) # rest) st w =
     (let t = pf_targets pf ! idx in
      case write_branch_output ctx (branch_path ctx idx) (qo_stdout q) w of
        (Inl e, w') \<Rightarrow> (Inl e, w')
      | (Inr _, w') \<Rightarrow>
          (case (if is_any_fail pf then any_fail_evaluate (pc_json ctx) (qo_stdout q) else Inr ()) of
             Inl reason \<Rightarrow> (Inl (any_fail_error pf ctx t reason (answered_branch ctx p idx t q) (fs_attempts st)), w')
           | Inr _ \<Rightarrow>
               let st' = record_success pf ctx p idx t q st in
               if stops_early pf \<and> fs_successes st' \<ge> pf_min_responses pf then (Inr st', w')
               else fan_collect pf ctx p rest st' w'))"

subsection \<open>After the loop\<close>

definition write_aggregate ::
  "'w phase_ctx \<Rightarrow> string \<Rightarrow> 'w \<Rightarrow> (strategy_error, unit) result \<times> 'w" where
  "write_aggregate ctx content w =
     write_text (pc_ops ctx) ''failed to create aggregate output parent '' ''failed to write aggregate output to ''
       (path_join (pc_cwd ctx) (aggregate_path ctx)) content w"

definition judge_failed :: "branch_success list \<Rightarrow> judge_error \<Rightarrow> strategy_error" where
  "judge_failed candidates e =
     (case e of
        JudgeFamilyOverlap _ candidate _ \<Rightarrow>
          let fam = family_of candidate in
          PhaseErr (FamilyOverlap fam (length (filter (\<lambda>c. family_of (bs_backend c) = fam) candidates) + 1))
      | JudgeContract message \<Rightarrow> PhaseErr (AggregatorContract message)
      | JudgeCall err \<Rightarrow> PhaseErr (JudgeUnavailable (backend_error_str err))
      | JudgeNotFound name \<Rightarrow> BackendNotFound name)"

definition vote_failed :: "vote_error \<Rightarrow> strategy_error" where
  "vote_failed e =
     (case e of
        VoteQuorumLost abstains threshold \<Rightarrow> PhaseErr (QuorumLost abstains threshold)
      | NoCandidates \<Rightarrow> PhaseErr (AggregatorRejected ''no candidates''))"

definition finish_judge ::
  "parallel_fanout \<Rightarrow> 'w backend list \<Rightarrow> 'w phase_ctx \<Rightarrow> fan_state \<Rightarrow> string \<Rightarrow> string \<Rightarrow> bool \<Rightarrow> 'w \<Rightarrow>
     (strategy_error, strategy_output) result \<times> 'w" where
  "finish_judge pf backends ctx st judge template req w =
     (case aggregate_llm_judge (fs_candidates st) judge template req backends ctx w of
        (Inl e, w1) \<Rightarrow> (Inl (judge_failed (fs_candidates st) e), w1)
      | (Inr art, w1) \<Rightarrow> (case write_aggregate ctx (aa_text art) w1 of
            (Inl e, w2) \<Rightarrow> (Inl e, w2)
          | (Inr _, w2) \<Rightarrow> (Inr (fan_output pf ctx (fs_attempts st) (vo_passed ''LLMJudge'')), w2)))"

definition finish_vote ::
  "(string \<Rightarrow> string) \<Rightarrow> (nat \<Rightarrow> nat \<Rightarrow> nat) \<Rightarrow> parallel_fanout \<Rightarrow> 'w phase_ctx \<Rightarrow> fan_state \<Rightarrow> vote_config \<Rightarrow> 'w \<Rightarrow>
     (strategy_error, strategy_output) result \<times> 'w" where
  "finish_vote lower rng pf ctx st config w =
     (case aggregate_vote lower rng (fs_votes st) config of
        Inl e \<Rightarrow> (Inl (vote_failed e), w)
      | Inr (art, _) \<Rightarrow> (case write_aggregate ctx (aa_text art) w of
            (Inl e, w2) \<Rightarrow> (Inl e, w2)
          | (Inr _, w2) \<Rightarrow> (Inr (fan_output pf ctx (fs_attempts st) (vo_passed ''Vote'')), w2)))"

definition fan_finish ::
  "(string \<Rightarrow> string) \<Rightarrow> (nat \<Rightarrow> nat \<Rightarrow> nat) \<Rightarrow> parallel_fanout \<Rightarrow> 'w backend list \<Rightarrow> 'w phase_ctx \<Rightarrow> fan_state \<Rightarrow> 'w \<Rightarrow>
     (strategy_error, strategy_output) result \<times> 'w" where
  "fan_finish lower rng pf backends ctx st w =
     (if is_any_fail pf then
        (Inr (fan_output pf ctx (fs_attempts st) (vo_passed ''Aggregator::AnyFail'')), w)
      else if fs_successes st < pf_min_responses pf then
        (Inl (FloorViolation (fs_successes st) (pf_min_responses pf)
                (fan_output pf ctx (fs_attempts st) vo_skipped)), w)
      else case pf_aggregator pf of
          LLMJudge judge template req \<Rightarrow> finish_judge pf backends ctx st judge template req w
        | Vote config \<Rightarrow> finish_vote lower rng pf ctx st config w
        | _ \<Rightarrow> (Inr (fan_output pf ctx (fs_attempts st) vo_skipped), w))"

definition fan_arrivals ::
  "(nat \<Rightarrow> fan_request \<Rightarrow> (backend_error, query_output) result) \<Rightarrow> nat list \<Rightarrow> fan_request list \<Rightarrow>
     (nat \<times> (backend_error, query_output) result) list" where
  "fan_arrivals answers order requests = map (\<lambda>i. (i, answers i (requests ! i))) order"

definition fanout_execute ::
  "(string \<Rightarrow> string) \<Rightarrow> (nat \<Rightarrow> nat \<Rightarrow> nat) \<Rightarrow>
     (nat \<Rightarrow> fan_request \<Rightarrow> (backend_error, query_output) result) \<Rightarrow> nat list \<Rightarrow>
     parallel_fanout \<Rightarrow> 'w backend list \<Rightarrow> prompt \<Rightarrow> 'w phase_ctx \<Rightarrow> 'w \<Rightarrow>
     (strategy_error, strategy_output) result \<times> 'w" where
  "fanout_execute lower rng answers order pf backends p ctx w =
     (if pf_targets pf = [] \<or> backends = [] then (Inl NoBackends, w)
      else case pc_render ctx (pf_prompt_template pf) of
          Inl e \<Rightarrow> (Inl (PromptRender e), w)
        | Inr rendered \<Rightarrow> (case fan_requests backends ctx p rendered (pf_targets pf) of
              Inl e \<Rightarrow> (Inl e, w)
            | Inr requests \<Rightarrow>
                (case fan_collect pf ctx p (fan_arrivals answers order requests) fan_start w of
                   (Inl e, w') \<Rightarrow> (Inl e, w')
                 | (Inr st, w') \<Rightarrow> fan_finish lower rng pf backends ctx st w')))"

end
