(* ===== verification/FanOutProps.thy ===== *)
theory FanOutProps
  imports FanOut
begin

text \<open>Properties of the fan-out: the floor, the early stop, the verdict mode, the branch files.\<close>

subsection \<open>The collecting loop\<close>

definition answered :: "attempt \<Rightarrow> bool" where
  "answered a \<longleftrightarrow> ap_finish a = [FStop]"

definition successes :: "attempt list \<Rightarrow> nat" where
  "successes as = length (filter answered as)"

definition branch_slot :: "attempt \<Rightarrow> string \<times> string" where
  "branch_slot a = (ap_backend a, ap_output_path a)"

definition target_slot :: "parallel_fanout \<Rightarrow> 'w phase_ctx \<Rightarrow> nat \<Rightarrow> string \<times> string" where
  "target_slot pf ctx i = (ts_backend (pf_targets pf ! i), branch_path ctx i)"

lemmas branch_defs = answered_def successes_def branch_slot_def target_slot_def answered_branch_def
  errored_branch_def record_success_def record_failure_def Let_def

lemma answered_branch_facts [simp]:
  "answered (answered_branch ctx p i t q)" "\<not> answered (errored_branch ctx p i t)"
  "branch_slot (answered_branch ctx p i t q) = (ts_backend t, branch_path ctx i)"
  "branch_slot (errored_branch ctx p i t) = (ts_backend t, branch_path ctx i)"
  by (simp_all add: answered_def answered_branch_def errored_branch_def branch_slot_def)

definition fan_inv :: "fan_state \<Rightarrow> bool" where
  "fan_inv st \<longleftrightarrow> fs_successes st = successes (fs_attempts st) \<and>
     length (fs_candidates st) = successes (fs_attempts st)"

lemma fan_inv_start: "fan_inv fan_start"
  by (simp add: fan_inv_def fan_start_def successes_def)

lemma fan_inv_success: "fan_inv st \<Longrightarrow> fan_inv (record_success pf ctx p i t q st)"
  by (simp add: fan_inv_def record_success_def successes_def Let_def)

lemma fan_inv_failure: "fan_inv st \<Longrightarrow> fan_inv (record_failure pf ctx p i t e st)"
  by (simp add: fan_inv_def record_failure_def successes_def)

text \<open>What a run of the loop adds: one record per completion it looked at.\<close>

definition collected ::
  "parallel_fanout \<Rightarrow> 'w phase_ctx \<Rightarrow> nat list \<Rightarrow> fan_state \<Rightarrow> fan_state \<Rightarrow> bool" where
  "collected pf ctx is st st' \<longleftrightarrow> fan_inv st' \<and>
     (\<exists>new n. fs_attempts st' = fs_attempts st @ new \<and> n \<le> length is \<and>
        map branch_slot new = map (target_slot pf ctx) (take n is) \<and>
        (\<not> stops_early pf \<longrightarrow> n = length is) \<and>
        (stops_early pf \<and> fs_successes st < pf_min_responses pf \<longrightarrow>
           fs_successes st' \<le> pf_min_responses pf \<and>
           (fs_successes st' < pf_min_responses pf \<longrightarrow> n = length is)))"

lemma collected_step:
  assumes "collected pf ctx is st1 st'" "fs_attempts st1 = fs_attempts st @ [a]"
    and "branch_slot a = target_slot pf ctx i"
    and "stops_early pf \<and> fs_successes st < pf_min_responses pf \<Longrightarrow> fs_successes st1 < pf_min_responses pf"
  shows "collected pf ctx (i # is) st st'"
proof -
  obtain new n where "fs_attempts st' = fs_attempts st1 @ new" "n \<le> length is"
    "map branch_slot new = map (target_slot pf ctx) (take n is)" "\<not> stops_early pf \<longrightarrow> n = length is"
    "stops_early pf \<and> fs_successes st1 < pf_min_responses pf \<longrightarrow>
       fs_successes st' \<le> pf_min_responses pf \<and> (fs_successes st' < pf_min_responses pf \<longrightarrow> n = length is)"
    "fan_inv st'"
    using assms(1) unfolding collected_def by blast
  with assms(2-4) show ?thesis
    unfolding collected_def by (intro conjI exI [of _ "a # new"] exI [of _ "Suc n"]) auto
qed

lemma fan_collect_ok:
  assumes "fan_collect pf ctx p arr st w = (Inr st', w')" "fan_inv st"
  shows "collected pf ctx (map fst arr) st st'"
  using assms
proof (induction arr arbitrary: st w)
  case Nil
  then show ?case by (auto simp: collected_def)
next
  case (Cons x arr)
  obtain i r where x: "x = (i, r)" by (cases x)
  show ?case
  proof (cases r)
    case (Inl e)
    let ?st = "record_failure pf ctx p i (pf_targets pf ! i) e st"
    from Cons.prems(1) x Inl have rest: "fan_collect pf ctx p arr ?st w = (Inr st', w')"
      by (simp add: Let_def split: if_splits)
    have "collected pf ctx (map fst arr) ?st st'"
      by (rule Cons.IH [OF rest fan_inv_failure [OF Cons.prems(2)]])
    moreover have "fs_attempts ?st = fs_attempts st @ [errored_branch ctx p i (pf_targets pf ! i)]"
      by (simp add: record_failure_def)
    ultimately have "collected pf ctx (i # map fst arr) st st'"
      by (rule collected_step) (simp_all add: record_failure_def target_slot_def)
    with x show ?thesis by simp
  next
    case (Inr q)
    let ?st = "record_success pf ctx p i (pf_targets pf ! i) q st"
    have inv: "fan_inv ?st" by (rule fan_inv_success [OF Cons.prems(2)])
    have att: "fs_attempts ?st = fs_attempts st @ [answered_branch ctx p i (pf_targets pf ! i) q]"
      "fs_successes ?st = Suc (fs_successes st)"
      by (simp_all add: record_success_def Let_def)
    consider (stop) "stops_early pf" "fs_successes ?st \<ge> pf_min_responses pf" "st' = ?st"
      | (go) w1 where "\<not> (stops_early pf \<and> fs_successes ?st \<ge> pf_min_responses pf)"
          "fan_collect pf ctx p arr ?st w1 = (Inr st', w')"
      using Cons.prems(1) x Inr by (auto simp: Let_def split: prod.splits sum.splits if_splits)
    then show ?thesis
    proof cases
      case stop
      with inv att x show ?thesis
        unfolding collected_def
        by (intro conjI exI [of _ "[answered_branch ctx p i (pf_targets pf ! i) q]"] exI [of _ 1])
          (auto simp: target_slot_def)
    next
      case go
      have "collected pf ctx (i # map fst arr) st st'"
        by (rule collected_step [OF Cons.IH [OF go(2) inv] att(1)]) (use go(1) in \<open>simp_all add: target_slot_def\<close>)
      with x show ?thesis by simp
    qed
  qed
qed

lemma fan_arrivals_fst [simp]: "map fst (fan_arrivals answers order rqs) = order"
  by (simp add: fan_arrivals_def comp_def)

lemma fan_collect_error:
  "fan_collect pf ctx p arr st w = (Inl e, w') \<Longrightarrow> e \<noteq> FloorViolation s m out"
proof (induction arr arbitrary: st w)
  case (Cons x arr)
  then show ?case
    by (cases x; cases "snd x")
      (auto simp: any_fail_error_def Let_def write_branch_output_def write_text_def io_failed_def
        split: if_splits prod.splits sum.splits)
qed simp

lemma fan_requests_error: "fan_requests backends ctx p rendered ts = Inl e \<Longrightarrow> \<exists>n. e = BackendNotFound n"
  by (induction ts) (auto split: option.splits sum.splits)

lemma fan_finish_ok:
  "fan_finish lower rng pf backends ctx st w = (Inr out, w') \<Longrightarrow>
     so_attempts out = fs_attempts st \<and> (\<not> is_any_fail pf \<longrightarrow> pf_min_responses pf \<le> fs_successes st)"
  by (auto simp: fan_finish_def finish_judge_def finish_vote_def fan_output_def
      split: if_splits aggregator.splits prod.splits sum.splits)

lemma fan_finish_floor:
  "fan_finish lower rng pf backends ctx st w = (Inl (FloorViolation s m out), w') \<Longrightarrow>
     \<not> is_any_fail pf \<and> s = fs_successes st \<and> m = pf_min_responses pf \<and> s < m \<and> so_attempts out = fs_attempts st"
  by (auto simp: fan_finish_def finish_judge_def finish_vote_def fan_output_def judge_failed_def
      vote_failed_def write_aggregate_def write_text_def io_failed_def Let_def
      split: if_splits aggregator.splits prod.splits sum.splits judge_error.splits vote_error.splits)

lemma fanout_execute_cases:
  assumes "fanout_execute lower rng answers order pf backends p ctx w = (r, w')"
  obtains (early) e where "r = Inl e" "\<And>s m out. e \<noteq> FloorViolation s m out"
  | (ran) st w1 rqs where "fan_collect pf ctx p (fan_arrivals answers order rqs) fan_start w = (Inr st, w1)"
      "fan_finish lower rng pf backends ctx st w1 = (r, w')"
proof -
  show thesis
  proof (cases "pf_targets pf = [] \<or> backends = []")
    case True
    with assms early show thesis by (auto simp: fanout_execute_def)
  next
    case ne: False
    show thesis
    proof (cases "pc_render ctx (pf_prompt_template pf)")
      case (Inl e)
      with ne assms early show thesis by (auto simp: fanout_execute_def)
    next
      case (Inr rendered)
      show thesis
      proof (cases "fan_requests backends ctx p rendered (pf_targets pf)")
        case (Inl e)
        with ne assms \<open>pc_render _ _ = _\<close> early fan_requests_error [OF Inl] show thesis
          by (auto simp: fanout_execute_def)
      next
        case rqs: (Inr rqs)
        obtain cr w1 where c: "fan_collect pf ctx p (fan_arrivals answers order rqs) fan_start w = (cr, w1)"
          by (cases "fan_collect pf ctx p (fan_arrivals answers order rqs) fan_start w") auto
        show thesis
        proof (cases cr)
          case (Inl e)
          with ne assms Inr rqs c have "r = Inl e" by (simp add: fanout_execute_def)
          with early fan_collect_error [OF c [unfolded Inl]] show thesis by blast
        next
          case st: (Inr st)
          with ne assms Inr rqs c have "fan_finish lower rng pf backends ctx st w1 = (r, w')"
            by (simp add: fanout_execute_def)
          with ran c st show thesis by blast
        qed
      qed
    qed
  qed
qed

text \<open>In the any-fail mode the first branch that fails ends the run, so a success has every branch answered.\<close>

lemma any_fail_collects_all:
  "fan_collect pf ctx p arr st w = (Inr st', w') \<Longrightarrow> is_any_fail pf \<Longrightarrow>
     length (fs_attempts st') = length (fs_attempts st) + length arr \<and>
     successes (fs_attempts st') = successes (fs_attempts st) + length arr"
proof (induction arr arbitrary: st w)
  case (Cons x arr)
  obtain i r where x: "x = (i, r)" by (cases x)
  with Cons.prems obtain q where q: "r = Inr q" by (cases r) (simp_all add: Let_def)
  have "\<not> stops_early pf" using Cons.prems(2) by (simp add: stops_early_def)
  with Cons.prems(1) x q obtain w1 where
    "fan_collect pf ctx p arr (record_success pf ctx p i (pf_targets pf ! i) q st) w1 = (Inr st', w')"
    by (auto simp: Let_def split: prod.splits sum.splits)
  from Cons.IH [OF this Cons.prems(2)] show ?case by (simp add: record_success_def successes_def Let_def)
qed simp

text \<open>
  C19: In the any-fail mode a fan-out succeeds only when every target has answered, and there is no floor.
  In every other mode it succeeds only with at least \<open>min_responses\<close> answered branches among its
  attempts. A floor violation reports the exact number of answered branches it carries, and that it is
  below the floor.
\<close>

theorem fanout_floor:
  assumes "fanout_execute lower rng answers order pf backends p ctx w = (r, w')"
  shows "(\<forall>out. r = Inr out \<longrightarrow>
      (if pf_aggregator pf = AnyFail then length (so_attempts out) = length order \<and> successes (so_attempts out) = length order
       else pf_min_responses pf \<le> successes (so_attempts out))) \<and>
    (\<forall>s m out. r = Inl (FloorViolation s m out) \<longrightarrow>
       pf_aggregator pf \<noteq> AnyFail \<and> s = successes (so_attempts out) \<and> m = pf_min_responses pf \<and> s < m)"
  using assms
proof (cases rule: fanout_execute_cases)
  case early
  with assms show ?thesis
  proof (cases r)
    case (Inr out)
    with early show ?thesis by simp
  qed auto
next
  case (ran st w1 rqs)
  have n: "fs_successes st = successes (fs_attempts st)"
    using fan_collect_ok [OF ran(1) fan_inv_start] by (simp add: collected_def fan_inv_def)
  have all: "length (fs_attempts st) = length order \<and> successes (fs_attempts st) = length order" if "is_any_fail pf"
    using any_fail_collects_all [OF ran(1) that] by (simp add: fan_arrivals_def fan_start_def successes_def)
  show ?thesis
  proof (cases r)
    case (Inr out)
    with fan_finish_ok [OF ran(2) [unfolded Inr]] n all show ?thesis by (auto simp: is_any_fail_def)
  next
    case (Inl e)
    with fan_finish_floor ran(2) n show ?thesis by (fastforce simp: is_any_fail_def)
  qed
qed

text \<open>
  The attempts of a successful fan-out are the completions, in the order of their arrival
  and under their targets' names and paths. A mode that must see every branch (vote, judge,
  all-pass, any-fail) has one attempt per target; the others stop as soon as the floor is met and
  never record more answered branches than the floor.
\<close>

theorem fanout_arrival_order:
  assumes "fanout_execute lower rng answers order pf backends p ctx w = (Inr out, w')"
  shows "\<exists>n \<le> length order. map branch_slot (so_attempts out) = map (target_slot pf ctx) (take n order) \<and>
    (\<not> stops_early pf \<longrightarrow> n = length order) \<and>
    (stops_early pf \<and> 0 < pf_min_responses pf \<longrightarrow> successes (so_attempts out) = pf_min_responses pf)"
  using assms
proof (cases rule: fanout_execute_cases)
  case (ran st w1 rqs)
  have coll: "collected pf ctx order fan_start st"
    using fan_collect_ok [OF ran(1) fan_inv_start] by simp
  have out: "so_attempts out = fs_attempts st" "\<not> is_any_fail pf \<longrightarrow> pf_min_responses pf \<le> fs_successes st"
    using fan_finish_ok [OF ran(2)] by simp_all
  have "successes (fs_attempts st) = fs_successes st" using coll by (simp add: collected_def fan_inv_def)
  moreover obtain new n where "fs_attempts st = new" "n \<le> length order"
    "map branch_slot new = map (target_slot pf ctx) (take n order)" "\<not> stops_early pf \<longrightarrow> n = length order"
    "stops_early pf \<and> 0 < pf_min_responses pf \<longrightarrow> fs_successes st \<le> pf_min_responses pf"
    using coll by (auto simp: collected_def fan_start_def)
  ultimately show ?thesis
    using out by (intro exI [of _ n]) (auto simp: stops_early_def intro: antisym)
qed simp

definition demo_fanout :: "nat \<Rightarrow> aggregator \<Rightarrow> parallel_fanout" where
  "demo_fanout m agg = \<lparr>pf_targets = [\<lparr>ts_backend = ''codex'', ts_model = None\<rparr>, \<lparr>ts_backend = ''claude'', ts_model = None\<rparr>],
     pf_min_responses = m, pf_prompt_template = ''hi'', pf_aggregator = agg\<rparr>"

definition demo_answers :: "nat \<Rightarrow> fan_request \<Rightarrow> (backend_error, query_output) result" where
  "demo_answers i rq = (if i = 0 then Inl (Auth ''key'') else Inr (from_text ''ok'' (rq_backend rq) 1))"

definition demo_pool :: "mem_fs backend list" where
  "demo_pool = [echo_backend ''codex'' ''ok'', echo_backend ''claude'' ''ok'']"

lemma demo_fanout_run:
  "fanout_execute to_lowercase (\<lambda>s n. 0) demo_answers [1, 0] (demo_fanout 1 First) demo_pool \<lparr>pr_model = None\<rparr> dot demo_world =
     (Inr (fan_output (demo_fanout 1 First) dot
        [answered_branch dot \<lparr>pr_model = None\<rparr> 1 \<lparr>ts_backend = ''claude'', ts_model = None\<rparr> (from_text ''ok'' ''claude'' 1)] vo_skipped),
      demo_world)" if "dot = demo_ctx\<lparr>pc_cwd := ''.''\<rparr>"
proof -
  have cur: "is_cur_dir ''.''"
    by (simp add: is_cur_dir_def components_def lead_components_def body_components_def is_absolute_def)
  show ?thesis
    unfolding that
    by (simp add: fanout_execute_def demo_fanout_def demo_pool_def demo_ctx_def find_backend_def echo_backend_def
        fan_arrivals_def demo_answers_def target_request_def write_branch_output_def cur is_any_fail_def
        stops_early_def record_success_def fan_start_def fan_finish_def from_text_def Let_def)
qed

theorem fanout_floor_witness:
  "\<exists>out w'. fanout_execute to_lowercase (\<lambda>s n. 0) demo_answers [1, 0] (demo_fanout 1 First) demo_pool \<lparr>pr_model = None\<rparr>
       (demo_ctx\<lparr>pc_cwd := ''.''\<rparr>) demo_world = (Inr out, w') \<and> 1 \<le> successes (so_attempts out)"
proof -
  obtain out w' where x: "fanout_execute to_lowercase (\<lambda>s n. 0) demo_answers [1, 0] (demo_fanout 1 First) demo_pool
      \<lparr>pr_model = None\<rparr> (demo_ctx\<lparr>pc_cwd := ''.''\<rparr>) demo_world = (Inr out, w')"
    using demo_fanout_run [OF refl] by blast
  have "pf_aggregator (demo_fanout 1 First) \<noteq> AnyFail" "pf_min_responses (demo_fanout 1 First) = 1"
    by (simp_all add: demo_fanout_def)
  with fanout_floor [OF x] x show ?thesis by (auto split: if_splits)
qed

theorem fanout_arrival_order_witness:
  "\<exists>out w'. fanout_execute to_lowercase (\<lambda>s n. 0) demo_answers [1, 0] (demo_fanout 1 First) demo_pool \<lparr>pr_model = None\<rparr>
       (demo_ctx\<lparr>pc_cwd := ''.''\<rparr>) demo_world = (Inr out, w') \<and> successes (so_attempts out) = 1"
proof -
  obtain out w' where x: "fanout_execute to_lowercase (\<lambda>s n. 0) demo_answers [1, 0] (demo_fanout 1 First) demo_pool
      \<lparr>pr_model = None\<rparr> (demo_ctx\<lparr>pc_cwd := ''.''\<rparr>) demo_world = (Inr out, w')"
    using demo_fanout_run [OF refl] by blast
  have "stops_early (demo_fanout 1 First)" "pf_min_responses (demo_fanout 1 First) = 1"
    by (simp_all add: demo_fanout_def stops_early_def is_any_fail_def)
  with fanout_arrival_order [OF x] x show ?thesis by auto
qed

subsection \<open>The any-fail mode\<close>

definition branch_passes :: "json_lib \<Rightarrow> (backend_error, query_output) result \<Rightarrow> bool" where
  "branch_passes js r = (case r of Inl _ \<Rightarrow> False | Inr q \<Rightarrow> any_fail_evaluate js (qo_stdout q) = Inr ())"

lemma fan_collect_any_fail:
  assumes "is_any_fail pf" "is_cur_dir (pc_cwd ctx)"
  shows "(list_all (\<lambda>(i, r). branch_passes (pc_json ctx) r) arr \<and> (\<exists>st'. fan_collect pf ctx p arr st w = (Inr st', w))) \<or>
    (\<exists>pre i r post reason off out. arr = pre @ (i, r) # post \<and> list_all (\<lambda>(i, r). branch_passes (pc_json ctx) r) pre \<and>
       \<not> branch_passes (pc_json ctx) r \<and>
       fan_collect pf ctx p arr st w = (Inl (AnyFailErr (ts_backend (pf_targets pf ! i)) reason off out), w))"
proof (induction arr arbitrary: st)
  case (Cons x arr)
  obtain i r where x: "x = (i, r)" by (cases x)
  show ?case
  proof (cases "branch_passes (pc_json ctx) r")
    case False
    then have "\<exists>reason off out. fan_collect pf ctx p (x # arr) st w =
        (Inl (AnyFailErr (ts_backend (pf_targets pf ! i)) reason off out), w)"
      using assms x
      by (cases r) (auto simp: branch_passes_def any_fail_error_def write_branch_output_def Let_def split: sum.splits)
    with False x show ?thesis by (intro disjI2 exI [of _ "[]"]) auto
  next
    case True
    then obtain q where q: "r = Inr q" "any_fail_evaluate (pc_json ctx) (qo_stdout q) = Inr ()"
      by (auto simp: branch_passes_def split: sum.splits)
    let ?st = "record_success pf ctx p i (pf_targets pf ! i) q st"
    have step: "fan_collect pf ctx p (x # arr) st w = fan_collect pf ctx p arr ?st w"
      using assms x q by (simp add: write_branch_output_def stops_early_def Let_def)
    from Cons.IH [of ?st] show ?thesis
    proof
      assume "list_all (\<lambda>(i, r). branch_passes (pc_json ctx) r) arr \<and> (\<exists>st'. fan_collect pf ctx p arr ?st w = (Inr st', w))"
      with step True x show ?thesis by auto
    next
      assume "\<exists>pre i r post reason off out. arr = pre @ (i, r) # post \<and>
        list_all (\<lambda>(i, r). branch_passes (pc_json ctx) r) pre \<and> \<not> branch_passes (pc_json ctx) r \<and>
        fan_collect pf ctx p arr ?st w = (Inl (AnyFailErr (ts_backend (pf_targets pf ! i)) reason off out), w)"
      then obtain pre j r' post reason off out where *: "arr = pre @ (j, r') # post"
        "list_all (\<lambda>(i, r). branch_passes (pc_json ctx) r) pre" "\<not> branch_passes (pc_json ctx) r'"
        "fan_collect pf ctx p arr ?st w = (Inl (AnyFailErr (ts_backend (pf_targets pf ! j)) reason off out), w)"
        by blast
      with step True x show ?thesis
        by (intro disjI2 exI [of _ "x # pre"] exI [of _ j] exI [of _ r'] exI [of _ post] exI [of _ reason]
            exI [of _ off] exI [of _ out]) simp
    qed
  qed
qed simp

lemma fan_requests_ok:
  assumes "\<forall>t \<in> set ts. find_backend (ts_backend t) backends \<noteq> None"
  shows "fan_requests backends ctx p rendered ts = Inr (map (target_request ctx p rendered) ts)"
  using assms by (induction ts) auto

text \<open>
  In the any-fail mode, with known targets and no branch files, the phase succeeds exactly
  when every completed target answered with a passing verdict; otherwise it fails with the first
  offender in the order of arrival, whether that one errored or gave a bad verdict.
\<close>

theorem fanout_any_fail:
  assumes "pf_aggregator pf = AnyFail" "is_cur_dir (pc_cwd ctx)" "pf_targets pf \<noteq> []"
    and "\<forall>t \<in> set (pf_targets pf). find_backend (ts_backend t) backends \<noteq> None"
    and "pc_render ctx (pf_prompt_template pf) = Inr rendered"
    and "res = (\<lambda>i. answers i (map (target_request ctx p rendered) (pf_targets pf) ! i))"
  shows "((\<forall>i \<in> set order. branch_passes (pc_json ctx) (res i)) \<and>
      (\<exists>out. fanout_execute lower rng answers order pf backends p ctx w = (Inr out, w))) \<or>
    (\<exists>pre i post reason off out. order = pre @ i # post \<and> (\<forall>j \<in> set pre. branch_passes (pc_json ctx) (res j)) \<and>
      \<not> branch_passes (pc_json ctx) (res i) \<and>
      fanout_execute lower rng answers order pf backends p ctx w =
        (Inl (AnyFailErr (ts_backend (pf_targets pf ! i)) reason off out), w))"
proof -
  let ?rqs = "map (target_request ctx p rendered) (pf_targets pf)"
  let ?arr = "fan_arrivals answers order ?rqs"
  have arr: "?arr = map (\<lambda>i. (i, res i)) order" by (simp add: fan_arrivals_def assms(6))
  have any: "is_any_fail pf" by (simp add: is_any_fail_def assms(1))
  have "backends \<noteq> []" using assms(3,4) by (cases "pf_targets pf") (auto simp: find_backend_def)
  then have run: "fanout_execute lower rng answers order pf backends p ctx w =
      (case fan_collect pf ctx p ?arr fan_start w of
         (Inl e, w') \<Rightarrow> (Inl e, w')
       | (Inr st, w') \<Rightarrow> fan_finish lower rng pf backends ctx st w')"
    using assms(3,5) fan_requests_ok [OF assms(4), of ctx p rendered]
    by (simp add: fanout_execute_def)
  from fan_collect_any_fail [OF any assms(2), of ?arr p fan_start w] show ?thesis
  proof
    assume "list_all (\<lambda>(i, r). branch_passes (pc_json ctx) r) ?arr \<and>
      (\<exists>st'. fan_collect pf ctx p ?arr fan_start w = (Inr st', w))"
    with run any show ?thesis
      by (auto simp: arr list_all_iff fan_finish_def)
  next
    assume "\<exists>pre i r post reason off out. ?arr = pre @ (i, r) # post \<and>
      list_all (\<lambda>(i, r). branch_passes (pc_json ctx) r) pre \<and> \<not> branch_passes (pc_json ctx) r \<and>
      fan_collect pf ctx p ?arr fan_start w = (Inl (AnyFailErr (ts_backend (pf_targets pf ! i)) reason off out), w)"
    then obtain pre i r post reason off out where *: "map (\<lambda>i. (i, res i)) order = pre @ (i, r) # post"
      "list_all (\<lambda>(i, r). branch_passes (pc_json ctx) r) pre" "\<not> branch_passes (pc_json ctx) r"
      "fan_collect pf ctx p ?arr fan_start w = (Inl (AnyFailErr (ts_backend (pf_targets pf ! i)) reason off out), w)"
      unfolding arr by blast
    from *(1) obtain o1 o2 where o: "order = o1 @ i # o2" "pre = map (\<lambda>i. (i, res i)) o1" "r = res i"
      by (auto simp: map_eq_append_conv Cons_eq_map_conv)
    with * run show ?thesis
      by (intro disjI2 exI [of _ o1] exI [of _ i] exI [of _ o2]) (auto simp: list_all_iff)
  qed
qed

theorem fanout_any_fail_witness:
  "\<exists>reason off out. fanout_execute to_lowercase (\<lambda>s n. 0) demo_answers [0, 1] (demo_fanout 1 AnyFail) demo_pool \<lparr>pr_model = None\<rparr>
     (demo_ctx\<lparr>pc_cwd := ''.''\<rparr>) demo_world = (Inl (AnyFailErr ''codex'' reason off out), demo_world)"
proof -
  let ?pf = "demo_fanout 1 AnyFail" and ?ctx = "demo_ctx\<lparr>pc_cwd := ''.''\<rparr>" and ?p = "\<lparr>pr_model = None\<rparr>"
  let ?res = "\<lambda>i. demo_answers i (map (target_request ?ctx ?p ''hi'') (pf_targets ?pf) ! i)"
  have h: "pf_aggregator ?pf = AnyFail" "is_cur_dir (pc_cwd ?ctx)" "pf_targets ?pf \<noteq> []"
    "\<forall>t \<in> set (pf_targets ?pf). find_backend (ts_backend t) demo_pool \<noteq> None"
    "pc_render ?ctx (pf_prompt_template ?pf) = Inr ''hi''"
    by (simp_all add: demo_fanout_def demo_ctx_def demo_pool_def find_backend_def echo_backend_def is_cur_dir_def
        components_def lead_components_def body_components_def is_absolute_def)
  have bad: "\<not> branch_passes js (?res 0)" for js by (simp add: branch_passes_def demo_answers_def)
  have "ts_backend (pf_targets ?pf ! 0) = ''codex''" by (simp add: demo_fanout_def)
  with fanout_any_fail [OF h refl, where answers = demo_answers and order = "[0, 1]" and lower = to_lowercase
      and rng = "\<lambda>s n. 0" and w = demo_world and p = ?p] bad [of "pc_json ?ctx"] show ?thesis
    by (auto simp: append_eq_Cons_conv Cons_eq_append_conv)
qed

subsection \<open>Branch files\<close>

lemma branch_path_split:
  "\<exists>pre. \<forall>i. path_join cwd (branch_path ctx i) = pre @ CHR ''/'' # nat_str i @ ''-parallel.txt''"
proof (cases "is_absolute (branch_path ctx 0)")
  case True
  then have "is_absolute (branch_path ctx i)" for i
    by (cases "pc_phase_name ctx") (auto simp: branch_path_def is_absolute_def)
  then show ?thesis
    by (intro exI [of _ "pc_phase_name ctx @ ''/attempts''"]) (simp add: path_join_def branch_path_def)
next
  case False
  then have "\<not> is_absolute (branch_path ctx i)" for i
    by (cases "pc_phase_name ctx") (auto simp: branch_path_def is_absolute_def)
  then show ?thesis
    by (intro exI [of _ "(if cwd = [] \<or> last cwd = CHR ''/'' then cwd else cwd @ ''/'') @ pc_phase_name ctx @ ''/attempts''"])
      (simp add: path_join_def branch_path_def)
qed

lemma split_slash_no_slash: "CHR ''/'' \<notin> set s \<Longrightarrow> split_slash s = [s]"
  by (induction s) auto

text \<open>
  No two branches of a fan-out share an attempt file, in any working directory and for any
  phase name: the paths of different targets name different files.
\<close>

theorem branch_files_distinct:
  "components (path_join cwd (branch_path ctx i)) = components (path_join cwd (branch_path ctx j)) \<longleftrightarrow> i = j"
proof
  assume eq: "components (path_join cwd (branch_path ctx i)) = components (path_join cwd (branch_path ctx j))"
  obtain pre where pre: "\<And>i. path_join cwd (branch_path ctx i) = pre @ CHR ''/'' # nat_str i @ ''-parallel.txt''"
    using branch_path_split by blast
  have body: "body_components (nat_str i @ ''-parallel.txt'') = [Normal (nat_str i @ ''-parallel.txt'')]" for i
  proof -
    have "CHR ''/'' \<notin> set (nat_str i @ ''-parallel.txt'')" using nat_str_digits [of "CHR ''/''" i] by auto
    moreover have "nat_str i @ ''-parallel.txt'' \<noteq> ''..''" "nat_str i @ ''-parallel.txt'' \<noteq> ''.''"
      by (auto simp: append_eq_Cons_conv)
    ultimately show ?thesis
      by (simp add: body_components_def split_slash_no_slash to_component_def)
  qed
  have last: "last (components (path_join cwd (branch_path ctx i))) = Normal (nat_str i @ ''-parallel.txt'')" for i
    by (simp add: pre components_def body_components_append body)
  have "Normal (nat_str i @ ''-parallel.txt'') = Normal (nat_str j @ ''-parallel.txt'')"
    by (rule trans [OF last [symmetric] trans [OF arg_cong [OF eq, of last] last]])
  then show "i = j" by (simp add: nat_str_inj)
qed simp

end
