(* ===== verification/Manifest.thy ===== *)
theory Manifest
  imports RustStr
begin

text \<open>
  \<open>src/manifest.rs\<close>, first part: the kinds of artefact with their wire names, and the producers.
\<close>

datatype kind =
    DesignMd | ReviewMd | PlanMd
  | OtherMd string
  | VerifyJson | PhaseResultJson | PendingJson | ResponseJson | SummaryJson
  | ChangesDir | TraceJsonl

datatype kind_error = InvalidOtherMd string

definition is_valid_other_md :: "string \<Rightarrow> bool" where
  "is_valid_other_md s \<longleftrightarrow> ends_with s ''.md'' \<and> length s > 3"

fun is_markdown :: "kind \<Rightarrow> bool" where
  "is_markdown DesignMd = True"
| "is_markdown ReviewMd = True"
| "is_markdown PlanMd = True"
| "is_markdown (OtherMd _) = True"
| "is_markdown _ = False"

definition other_md :: "string \<Rightarrow> (kind_error, kind) result" where
  "other_md s = (if \<not> is_valid_other_md s then Inl (InvalidOtherMd s) else Inr (OtherMd s))"

fun as_filename :: "kind \<Rightarrow> string" where
  "as_filename DesignMd = ''design.md''"
| "as_filename ReviewMd = ''review.md''"
| "as_filename PlanMd = ''plan.md''"
| "as_filename (OtherMd s) = s"
| "as_filename VerifyJson = ''verify.json''"
| "as_filename PhaseResultJson = ''phase_result.json''"
| "as_filename PendingJson = ''pending.json''"
| "as_filename ResponseJson = ''response.json''"
| "as_filename SummaryJson = ''summary.json''"
| "as_filename ChangesDir = ''changes/''"
| "as_filename TraceJsonl = ''trace.jsonl''"

text \<open>The wire form is a bare string; writing an invalid free markdown name is an error.\<close>

fun kind_write :: "kind \<Rightarrow> (kind_error, string) result" where
  "kind_write (OtherMd s) = (if is_valid_other_md s then Inr s else Inl (InvalidOtherMd s))"
| "kind_write k = Inr (as_filename k)"

definition named_kinds :: "(string \<times> kind) list" where
  "named_kinds = [(''design.md'', DesignMd), (''review.md'', ReviewMd), (''plan.md'', PlanMd),
     (''verify.json'', VerifyJson), (''phase_result.json'', PhaseResultJson), (''pending.json'', PendingJson),
     (''response.json'', ResponseJson), (''summary.json'', SummaryJson), (''changes/'', ChangesDir),
     (''trace.jsonl'', TraceJsonl)]"

definition kind_read :: "string \<Rightarrow> (string, kind) result" where
  "kind_read s = (case map_of named_kinds s of
     Some k \<Rightarrow> Inr k
   | None \<Rightarrow> if is_valid_other_md s then Inr (OtherMd s) else Inl (''unknown kind: '' @ s))"

datatype producer = PrSingle | PrParallel | PrEscalating | PrVerify | PrHitl

fun producer_str :: "producer \<Rightarrow> string" where
  "producer_str PrSingle = ''single''"
| "producer_str PrParallel = ''parallel''"
| "producer_str PrEscalating = ''escalating''"
| "producer_str PrVerify = ''verify''"
| "producer_str PrHitl = ''hitl''"

text \<open>The names of the three fixed markdown kinds are also accepted as free names.\<close>

definition reserved_md :: "string \<Rightarrow> bool" where
  "reserved_md s \<longleftrightarrow> s \<in> {''design.md'', ''review.md'', ''plan.md''}"

lemma named_kinds_facts:
  "\<forall>(s, k) \<in> set named_kinds. kind_write k = Inr s \<and> kind_read s = Inr k \<and> as_filename k = s \<and>
     (is_valid_other_md s \<longrightarrow> reserved_md s) \<and> (reserved_md s \<longleftrightarrow> is_markdown k)"
  by code_simp

lemma named_kinds_Some:
  "map_of named_kinds s = Some k \<Longrightarrow> kind_write k = Inr s \<and> kind_read s = Inr k \<and> as_filename k = s \<and>
     (is_valid_other_md s \<longrightarrow> reserved_md s) \<and> (reserved_md s \<longleftrightarrow> is_markdown k)"
  using named_kinds_facts by (auto dest!: map_of_SomeD)

lemma kind_named: "(\<forall>t. k \<noteq> OtherMd t) \<Longrightarrow> (as_filename k, k) \<in> set named_kinds"
  by (cases k) (simp_all add: named_kinds_def)

lemma reserved_named: "reserved_md s \<Longrightarrow> \<exists>k. (s, k) \<in> set named_kinds"
  by (auto simp: reserved_md_def named_kinds_def)

lemma named_not_other: "(s, k) \<in> set named_kinds \<Longrightarrow> k \<noteq> OtherMd t"
  by (auto simp: named_kinds_def)

lemma kind_write_read:
  assumes w: "kind_write k = Inr t"
  shows "\<exists>k'. kind_read t = Inr k' \<and> as_filename k' = as_filename k \<and> is_markdown k' = is_markdown k \<and>
      (k' = k \<longleftrightarrow> (\<forall>t. k = OtherMd t \<longrightarrow> \<not> reserved_md t))"
proof (cases k)
  case (OtherMd u)
  with w have t: "t = u" "is_valid_other_md u" by (simp_all split: if_splits)
  show ?thesis
  proof (cases "reserved_md u")
    case True
    then obtain k' where k': "(u, k') \<in> set named_kinds" using reserved_named by blast
    with named_kinds_facts have "kind_read u = Inr k'" "as_filename k' = u" "is_markdown k'"
      using True by auto
    with OtherMd t True named_not_other [OF k'] show ?thesis by auto
  next
    case False
    then have "map_of named_kinds u = None"
      using named_kinds_Some [of u] t by (cases "map_of named_kinds u") auto
    with OtherMd t False show ?thesis by (simp add: kind_read_def)
  qed
qed (use w named_kinds_facts kind_named [of k] in auto)

text \<open>
  A kind that can be written is read back as itself, except that a free markdown name equal
  to a fixed one becomes the fixed kind with the same file name; either way the file name and
  being markdown survive. Every name that is read is written back unchanged.
\<close>

theorem kind_roundtrip:
  "(\<forall>s. kind_write k = Inr s \<longrightarrow> (\<exists>k'. kind_read s = Inr k' \<and> as_filename k' = as_filename k \<and>
      is_markdown k' = is_markdown k \<and> (k' = k \<longleftrightarrow> (\<forall>t. k = OtherMd t \<longrightarrow> \<not> reserved_md t)))) \<and>
   (\<forall>k'. kind_read s = Inr k' \<longrightarrow> kind_write k' = Inr s)"
  using kind_write_read [of k]
  by (auto simp: kind_read_def dest: named_kinds_Some split: option.splits if_splits)

theorem kind_roundtrip_witness:
  "(\<exists>k'. kind_read ''notes.md'' = Inr k' \<and> as_filename k' = ''notes.md'') \<and>
   kind_write (OtherMd ''notes.md'') = Inr ''notes.md'' \<and> kind_write PlanMd = Inr ''plan.md''"
proof -
  have w: "kind_write (OtherMd ''notes.md'') = Inr ''notes.md''" and r: "kind_read ''plan.md'' = Inr PlanMd"
    by code_simp+
  from kind_roundtrip [of "OtherMd ''notes.md''" "''plan.md''"] w r show ?thesis by auto
qed

end
