(* ===== verification/Dispatch.thy ===== *)
theory Dispatch
  imports SingleModel Escalating FanOut Manifest
begin

text \<open>
  \<open>src/phase_runner/dispatch.rs\<close> and the configuration part of \<open>src/phase_runner.rs\<close>: from the
  labels of a phase to its strategy and aggregator, and from the output of a strategy to the
  bytes of the phase's artefact. The configuration of a human verifier is only carried, so it is
  a type variable, as are the errors of the manifest and the marker files.
\<close>

subsection \<open>Labels and configuration\<close>

datatype strategy_name = NmSingle | NmParallel | NmEscalatingRetry

datatype aggregator_name = AgFirst | AgConcat | AgVote | AgAnyFail | AgAllPass

datatype 'h verify_hook_name = VhNone | VhRunCommand | VhLlmVerifier | VhHumanVerifier 'h

record phase_rung =
  pg_tier :: tier
  pg_backend :: string

record 'h phase_config =
  cf_phase :: string
  cf_strategy :: strategy_name
  cf_aggregator :: aggregator_name
  cf_verify :: "'h verify_hook_name"
  cf_artefact_name :: string
  cf_artefact_kind :: kind
  cf_producer :: producer
  cf_prompt_template :: string
  cf_backend :: "string option"
  cf_targets :: "target_spec list"
  cf_min_responses :: nat
  cf_rungs :: "phase_rung list"
  cf_pass_failure_context :: bool

definition config_single :: "string \<Rightarrow> string \<Rightarrow> string \<Rightarrow> string \<Rightarrow> 'h phase_config" where
  "config_single phase backend template artefact = \<lparr>cf_phase = phase, cf_strategy = NmSingle,
     cf_aggregator = AgFirst, cf_verify = VhNone, cf_artefact_name = artefact,
     cf_artefact_kind = DesignMd, cf_producer = PrSingle, cf_prompt_template = template,
     cf_backend = Some backend, cf_targets = [], cf_min_responses = 1, cf_rungs = [],
     cf_pass_failure_context = False\<rparr>"

datatype ('m, 'k) runner_error =
    InvalidConfig string
  | StrategyFailed strategy_error
  | VerifyHookErr string
  | VerifyFailedErr string "32 word" hook_result
  | PhaseFailed string string
  | AggregatorErr aggregator_error
  | ManifestErr 'm
  | MarkerErr 'k
  | RunnerIo io_error
  | RunnerJson string

fun error_class :: "('m, 'k) runner_error \<Rightarrow> string" where
  "error_class (StrategyFailed _) = ''strategy_failed''"
| "error_class (VerifyHookErr _) = ''verify_failed''"
| "error_class (VerifyFailedErr _ _ _) = ''verify_failed''"
| "error_class (AggregatorErr _) = ''aggregator_failed''"
| "error_class (ManifestErr _) = ''manifest_failed''"
| "error_class (MarkerErr _) = ''marker_failed''"
| "error_class (RunnerIo _) = ''io_failed''"
| "error_class (RunnerJson _) = ''phase_failed''"
| "error_class (InvalidConfig _) = ''phase_failed''"
| "error_class (PhaseFailed _ _) = ''phase_failed''"

fun strategy_name_debug :: "strategy_name \<Rightarrow> string" where
  "strategy_name_debug NmSingle = ''Single''"
| "strategy_name_debug NmParallel = ''Parallel''"
| "strategy_name_debug NmEscalatingRetry = ''EscalatingRetry''"

fun producer_debug :: "producer \<Rightarrow> string" where
  "producer_debug PrSingle = ''Single''"
| "producer_debug PrParallel = ''Parallel''"
| "producer_debug PrEscalating = ''Escalating''"
| "producer_debug PrVerify = ''Verify''"
| "producer_debug PrHitl = ''Hitl''"

fun expected_producer :: "strategy_name \<Rightarrow> producer" where
  "expected_producer NmSingle = PrSingle"
| "expected_producer NmParallel = PrParallel"
| "expected_producer NmEscalatingRetry = PrEscalating"

definition validate_config :: "'h phase_config \<Rightarrow> (('m, 'k) runner_error, unit) result" where
  "validate_config cfg =
     (let expected = expected_producer (cf_strategy cfg) in
      if cf_producer cfg \<noteq> expected then
        Inl (InvalidConfig (''producer '' @ producer_debug (cf_producer cfg) @ '' does not match strategy '' @
          strategy_name_debug (cf_strategy cfg) @ ''; expected '' @ producer_debug expected))
      else Inr ())"

fun strategy_name_str :: "strategy_name \<Rightarrow> string" where
  "strategy_name_str NmSingle = ''single''"
| "strategy_name_str NmParallel = ''parallel''"
| "strategy_name_str NmEscalatingRetry = ''escalating_retry''"

fun aggregator_name_str :: "aggregator_name \<Rightarrow> string" where
  "aggregator_name_str AgFirst = ''first''"
| "aggregator_name_str AgConcat = ''concat''"
| "aggregator_name_str AgVote = ''vote''"
| "aggregator_name_str AgAnyFail = ''any_fail''"
| "aggregator_name_str AgAllPass = ''all_pass''"

fun verify_hook_name_str :: "'h verify_hook_name \<Rightarrow> string" where
  "verify_hook_name_str VhNone = ''none''"
| "verify_hook_name_str VhRunCommand = ''run_command''"
| "verify_hook_name_str VhLlmVerifier = ''llm_verifier''"
| "verify_hook_name_str (VhHumanVerifier _) = ''human_verifier''"

subsection \<open>Resolution\<close>

fun resolve_aggregator :: "aggregator_name \<Rightarrow> aggregator" where
  "resolve_aggregator AgFirst = First"
| "resolve_aggregator AgConcat = Concat ''## {backend_id}''"
| "resolve_aggregator AgVote = Vote \<lparr>vc_schema = FreeText, vc_tie_break = FirstResponder,
     vc_abstain_threshold = USIZE_MAX\<rparr>"
| "resolve_aggregator AgAnyFail = AnyFail"
| "resolve_aggregator AgAllPass = AllPass"

datatype 'w strategy =
    StSingle single_model
  | StParallel parallel_fanout
  | StEscalating "'w escalating_retry"

definition rung_of :: "phase_rung \<Rightarrow> rung" where
  "rung_of g = \<lparr>ru_tier = pg_tier g, ru_backend = pg_backend g\<rparr>"

text \<open>\<open>None\<close> is the panic of the fan-out's constructor.\<close>

definition resolve_strategy ::
  "(string \<Rightarrow> string) \<Rightarrow> 'h phase_config \<Rightarrow> 'w verify_hook option \<Rightarrow>
     (('m, 'k) runner_error, 'w strategy) result option" where
  "resolve_strategy redact cfg verify =
     (case cf_strategy cfg of
        NmSingle \<Rightarrow> Some (case cf_backend cfg of
            None \<Rightarrow> Inl (InvalidConfig ''single strategy requires backend'')
          | Some b \<Rightarrow> Inr (StSingle \<lparr>sm_backend = b, sm_prompt_template = cf_prompt_template cfg\<rparr>))
      | NmParallel \<Rightarrow> (case parallel_fanout_new (cf_targets cfg) (cf_min_responses cfg)
              (cf_prompt_template cfg) (resolve_aggregator (cf_aggregator cfg)) of
            None \<Rightarrow> None
          | Some pf \<Rightarrow> Some (Inr (StParallel pf)))
      | NmEscalatingRetry \<Rightarrow> Some (case verify of
            None \<Rightarrow> Inl (InvalidConfig ''escalating_retry strategy requires verify hook'')
          | Some v \<Rightarrow> Inr (StEscalating \<lparr>er_rungs = map rung_of (cf_rungs cfg),
              er_prompt_template = cf_prompt_template cfg, er_verify = v,
              er_pass_failure_context = cf_pass_failure_context cfg, er_redact = redact\<rparr>)))"

text \<open>
  The dynamic call \<open>strategy.execute\<close>. The environment of a fan-out (case folding, the seeded
  generator, what the queries return and in which order) is one argument.
\<close>

record fan_env =
  fe_lower :: "string \<Rightarrow> string"
  fe_rng :: "nat \<Rightarrow> nat \<Rightarrow> nat"
  fe_answers :: "nat \<Rightarrow> fan_request \<Rightarrow> (backend_error, query_output) result"
  fe_order :: "nat list"

fun execute_strategy ::
  "fan_env \<Rightarrow> 'w strategy \<Rightarrow> 'w backend list \<Rightarrow> prompt \<Rightarrow> 'w phase_ctx \<Rightarrow> 'w \<Rightarrow>
     (strategy_error, strategy_output) result \<times> 'w" where
  "execute_strategy env (StSingle sm) backends p ctx w = single_execute sm backends p ctx w"
| "execute_strategy env (StParallel pf) backends p ctx w =
     fanout_execute (fe_lower env) (fe_rng env) (fe_answers env) (fe_order env) pf backends p ctx w"
| "execute_strategy env (StEscalating er) backends p ctx w = escalating_execute er backends p ctx w"

subsection \<open>Canonical bytes\<close>

text \<open>What the run directory offers: the test for a regular file, and reading bytes and text.\<close>

record 'w run_files =
  rf_is_file :: "path \<Rightarrow> 'w \<Rightarrow> bool"
  rf_read :: "path \<Rightarrow> 'w \<Rightarrow> (io_error, bytes) result"
  rf_read_text :: "path \<Rightarrow> 'w \<Rightarrow> (io_error, string) result"

definition resolve_output_path :: "path \<Rightarrow> path \<Rightarrow> path" where
  "resolve_output_path run_dir p = (if is_absolute p then p else path_join run_dir p)"

text \<open>The index and the element of the first and of the last element that satisfies a test.\<close>

fun find_index_from :: "nat \<Rightarrow> ('a \<Rightarrow> bool) \<Rightarrow> 'a list \<Rightarrow> (nat \<times> 'a) option" where
  "find_index_from n t [] = None"
| "find_index_from n t (x # xs) = (if t x then Some (n, x) else find_index_from (n + 1) t xs)"

fun rfind_index_from :: "nat \<Rightarrow> ('a \<Rightarrow> bool) \<Rightarrow> 'a list \<Rightarrow> (nat \<times> 'a) option" where
  "rfind_index_from n t [] = None"
| "rfind_index_from n t (x # xs) =
     (case rfind_index_from (n + 1) t xs of
        Some r \<Rightarrow> Some r
      | None \<Rightarrow> if t x then Some (n, x) else None)"

definition no_error :: "attempt \<Rightarrow> bool" where
  "no_error a \<longleftrightarrow> FError \<notin> set (ap_finish a)"

definition wins :: "attempt \<Rightarrow> bool" where
  "wins a \<longleftrightarrow> no_error a \<and> vo_status (ap_verify a) \<noteq> VFail"

definition attempt_bytes ::
  "'w run_files \<Rightarrow> path \<Rightarrow> 'w \<Rightarrow> strategy_output \<Rightarrow> (nat \<times> attempt) option \<Rightarrow>
     (('m, 'k) runner_error, bytes \<times> 32 word) result" where
  "attempt_bytes rf run_dir w out found =
     (case found of
        None \<Rightarrow> Inl (PhaseFailed (so_phase out) ''no successful attempts'')
      | Some (idx, a) \<Rightarrow> (case rf_read rf (resolve_output_path run_dir (ap_output_path a)) w of
            Inl e \<Rightarrow> Inl (RunnerIo e)
          | Inr b \<Rightarrow> Inr (b, of_nat idx)))"

definition first_success_bytes ::
  "'w run_files \<Rightarrow> path \<Rightarrow> 'w \<Rightarrow> strategy_output \<Rightarrow> (('m, 'k) runner_error, bytes \<times> 32 word) result" where
  "first_success_bytes rf run_dir w out =
     attempt_bytes rf run_dir w out (find_index_from 0 no_error (so_attempts out))"

definition winning_success_bytes ::
  "'w run_files \<Rightarrow> path \<Rightarrow> 'w \<Rightarrow> strategy_output \<Rightarrow> (('m, 'k) runner_error, bytes \<times> 32 word) result" where
  "winning_success_bytes rf run_dir w out =
     attempt_bytes rf run_dir w out (rfind_index_from 0 wins (so_attempts out))"

definition selected_attempt_index :: "strategy_output \<Rightarrow> 32 word" where
  "selected_attempt_index out =
     unwrap_or 0 (map_option (\<lambda>(idx, _). of_nat idx) (rfind_index_from 0 wins (so_attempts out)))"

text \<open>The files are read in order, and the first that cannot be read is the error.\<close>

fun branches_from ::
  "'w run_files \<Rightarrow> path \<Rightarrow> 'w \<Rightarrow> nat \<Rightarrow> attempt list \<Rightarrow> (io_error, branch_outcome list) result" where
  "branches_from rf run_dir w idx [] = Inr []"
| "branches_from rf run_dir w idx (a # as) =
     (let fam = unwrap_or ''local'' (ap_family a) in
      case (if \<not> no_error a then
              Inr (Failure \<lparr>bf_backend = ap_backend a, bf_family = fam, bf_index = idx + 1,
                bf_reason = ''backend error''\<rparr>)
            else case rf_read_text rf (resolve_output_path run_dir (ap_output_path a)) w of
                Inl e \<Rightarrow> Inl e
              | Inr t \<Rightarrow> Inr (Success \<lparr>bs_backend = ap_backend a, bs_family = fam, bs_index = idx + 1,
                  bs_output = t\<rparr>)) of
        Inl e \<Rightarrow> Inl e
      | Inr b \<Rightarrow> (case branches_from rf run_dir w (idx + 1) as of
            Inl e \<Rightarrow> Inl e
          | Inr bs \<Rightarrow> Inr (b # bs)))"

definition aggregate_input_from_attempt_paths ::
  "'w run_files \<Rightarrow> path \<Rightarrow> 'w \<Rightarrow> strategy_output \<Rightarrow> (('m, 'k) runner_error, branch_outcome list) result" where
  "aggregate_input_from_attempt_paths rf run_dir w out =
     map_err RunnerIo (branches_from rf run_dir w 0 (so_attempts out))"

definition canonical_by_aggregator ::
  "'w run_files \<Rightarrow> path \<Rightarrow> 'w \<Rightarrow> strategy_output \<Rightarrow> aggregator \<Rightarrow>
     (('m, 'k) runner_error, bytes \<times> 32 word) result" where
  "canonical_by_aggregator rf run_dir w out agg =
     (case agg of
        First \<Rightarrow> winning_success_bytes rf run_dir w out
      | AnyFail \<Rightarrow> first_success_bytes rf run_dir w out
      | Vote _ \<Rightarrow> first_success_bytes rf run_dir w out
      | LLMJudge _ _ _ \<Rightarrow> first_success_bytes rf run_dir w out
      | _ \<Rightarrow> (case aggregate_input_from_attempt_paths rf run_dir w out of
            Inl e \<Rightarrow> Inl e
          | Inr input \<Rightarrow> (case aggregate agg input of
                Inl e \<Rightarrow> Inl (AggregatorErr e)
              | Inr art \<Rightarrow> Inr (aa_text art, selected_attempt_index out))))"

definition canonical_bytes ::
  "'w run_files \<Rightarrow> path \<Rightarrow> 'w \<Rightarrow> strategy_output \<Rightarrow> aggregator \<Rightarrow>
     (('m, 'k) runner_error, bytes \<times> 32 word) result" where
  "canonical_bytes rf run_dir w out agg =
     (case map_option (resolve_output_path run_dir) (so_aggregate_path out) of
        Some p \<Rightarrow>
          if rf_is_file rf p w then
            (case rf_read rf p w of
               Inl e \<Rightarrow> Inl (RunnerIo e)
             | Inr b \<Rightarrow> Inr (b, selected_attempt_index out))
          else canonical_by_aggregator rf run_dir w out agg
      | None \<Rightarrow> canonical_by_aggregator rf run_dir w out agg)"

end
