(* ===== verification/Disk.thy ===== *)
theory Disk
  imports FileStore "HOL-Library.AList"
begin

text \<open>
  The run directory on disk: what the readers of run state see of it (\<open>reader\<close>), the operations
  of \<open>src/run_state/atomic.rs\<close> with the atomic write built from them, and a concrete disk with
  scripted faults. Paths are in normal form here, as lists of components.
\<close>

subsection \<open>Reading\<close>

type_synonym dir = "component list"

text \<open>\<open>Path::join\<close> on paths in normal form.\<close>

definition pjoin :: "dir \<Rightarrow> path \<Rightarrow> dir" where
  "pjoin ks p = (if is_absolute p \<or> ks = [] then components p else ks @ body_components p)"

lemma components_pjoin: "base \<noteq> [] \<Longrightarrow> components (path_join base p) = pjoin (components base) p"
proof -
  assume ne: "base \<noteq> []"
  have "components base \<noteq> []"
  proof
    assume "components base = []"
    then have "lead_components base = []" "body_components base = []" by (simp_all add: components_def)
    then have "\<not> is_absolute base" "hd (split_slash base) \<noteq> ''.''" "filter (\<lambda>s. s \<noteq> [] \<and> s \<noteq> ''.'') (split_slash base) = []"
      by (auto simp: lead_components_def body_components_def split: if_splits)
    with ne show False
      by (cases base) (auto simp: is_absolute_def starts_with_def strip_prefix_eq_Some split: if_splits list.splits)
  qed
  with ne show ?thesis
    using components_join [OF _ ne, of p] by (auto simp: pjoin_def path_join_def)
qed

lemma pjoin_ne: "ks \<noteq> [] \<Longrightarrow> pjoin ks p \<noteq> []"
  by (simp add: pjoin_def components_def lead_components_def)

lemma runs_dir_ne: "pjoin base ''runs'' \<noteq> []"
  by (cases "base = []") (simp_all add: pjoin_def is_absolute_def components_def lead_components_def body_components_def to_component_def)

lemma pjoin_plain:
  assumes "ks \<noteq> []" "CHR ''/'' \<notin> set n" "n \<noteq> []" "n \<noteq> ''.''" "n \<noteq> ''..''"
  shows "pjoin ks n = ks @ [Normal n]"
proof -
  have "split_slash s = [s]" if "CHR ''/'' \<notin> set s" for s using that by (induction s) auto
  then show ?thesis
    using assms by (cases n) (auto simp: pjoin_def is_absolute_def starts_with_iff body_components_def to_component_def)
qed

record reader =
  rd_read :: "dir \<Rightarrow> (io_error, string) result"
  rd_exists :: "dir \<Rightarrow> bool"
  rd_is_file :: "dir \<Rightarrow> bool"
  rd_is_dir :: "dir \<Rightarrow> bool"
  rd_list :: "dir \<Rightarrow> (io_error, string list) result"

subsection \<open>Atomic writes\<close>

text \<open>The operations of \<open>tempfile\<close> and \<open>std::fs\<close> that an atomic write is made of.\<close>

record 'w disk_ops =
  do_temp :: "dir \<Rightarrow> 'w \<Rightarrow> (io_error, dir) result \<times> 'w"
  do_write :: "dir \<Rightarrow> string \<Rightarrow> ('w, unit) io"
  do_sync :: "dir \<Rightarrow> ('w, unit) io"
  do_rename :: "dir \<Rightarrow> dir \<Rightarrow> ('w, unit) io"
  do_unlink :: "dir \<Rightarrow> ('w, unit) io"
  do_mkdirs :: "dir \<Rightarrow> ('w, unit) io"

definition parent_dir :: "dir \<Rightarrow> dir" where
  "parent_dir k = (if k = [] \<or> last k = RootDir then [CurDir] else butlast k)"

text \<open>
  Temporary file in the directory of the target, written and synced, renamed over the target, and
  the directory synced. A temporary file that is not renamed is unlinked when it is dropped,
  whatever comes of that.
\<close>

definition atomic_write :: "'w disk_ops \<Rightarrow> dir \<Rightarrow> string \<Rightarrow> ('w, unit) io" where
  "atomic_write ops k contents w =
     (case do_temp ops (parent_dir k) w of
        (Inl e, w1) \<Rightarrow> (Inl e, w1)
      | (Inr tmp, w1) \<Rightarrow> (case do_write ops tmp contents w1 of
            (Inl e, w2) \<Rightarrow> (Inl e, snd (do_unlink ops tmp w2))
          | (Inr _, w2) \<Rightarrow> (case do_sync ops tmp w2 of
                (Inl e, w3) \<Rightarrow> (Inl e, snd (do_unlink ops tmp w3))
              | (Inr _, w3) \<Rightarrow> (case do_rename ops tmp k w3 of
                    (Inl e, w4) \<Rightarrow> (Inl e, snd (do_unlink ops tmp w4))
                  | (Inr _, w4) \<Rightarrow> do_sync ops (parent_dir k) w4))))"

text \<open>The names \<open>tempfile\<close> makes up.\<close>

definition temp_name :: "dir \<Rightarrow> bool" where
  "temp_name k = (case rev k of Normal s # _ \<Rightarrow> starts_with s ''.tmp'' | _ \<Rightarrow> False)"

text \<open>
  The contract over an abstract view of the regular files: a temporary file is new; writing it may
  tear, but touches no other file; renaming replaces the target as a whole or does nothing;
  syncing and making directories change no file.
\<close>

locale disk_store =
  fixes ops :: "'w disk_ops"
    and files_of :: "'w \<Rightarrow> dir \<rightharpoonup> string"
  assumes temp_new: "do_temp ops d w = (Inr t, w') \<Longrightarrow> files_of w t = None \<and> temp_name t \<and>
      files_of w' = (files_of w)(t \<mapsto> [])"
    and temp_fail: "do_temp ops d w = (Inl e, w') \<Longrightarrow> files_of w' = files_of w"
    and write_ok: "do_write ops k c w = (Inr (), w') \<Longrightarrow> files_of w' = (files_of w)(k \<mapsto> c)"
    and write_frame: "do_write ops k c w = (Inl e, w') \<Longrightarrow> k' \<noteq> k \<Longrightarrow> files_of w' k' = files_of w k'"
    and sync_same: "do_sync ops k w = (r, w') \<Longrightarrow> files_of w' = files_of w"
    and rename_ok: "do_rename ops a b w = (Inr (), w') \<Longrightarrow> files_of w' = (files_of w)(a := None, b := files_of w a)"
    and rename_fail: "do_rename ops a b w = (Inl e, w') \<Longrightarrow> files_of w' = files_of w"
    and unlink_any: "do_unlink ops k w = (r, w') \<Longrightarrow> files_of w' = files_of w \<or> files_of w' = (files_of w)(k := None)"
    and mkdirs_same: "do_mkdirs ops k w = (r, w') \<Longrightarrow> files_of w' = files_of w"
begin

lemma unlink_frame: "k' \<noteq> k \<Longrightarrow> files_of (snd (do_unlink ops k w)) k' = files_of w k'"
  using unlink_any [of k w] by (cases "do_unlink ops k w") auto

text \<open>
  After an atomic write the target has its old contents or all of the new ones; a success has
  the new ones; and no other file that existed before is touched.
\<close>

lemma atomic_write_old_or_new:
  assumes "atomic_write ops k c w = (r, w')" "\<not> temp_name k"
  shows "(files_of w' k = files_of w k \<or> files_of w' k = Some c) \<and> (r = Inr () \<longrightarrow> files_of w' k = Some c) \<and>
    (\<forall>k'. k' \<noteq> k \<longrightarrow> \<not> temp_name k' \<longrightarrow> files_of w' k' = files_of w k')"
proof (cases "do_temp ops (parent_dir k) w")
  case (Pair rt w1)
  show ?thesis
  proof (cases rt)
    case (Inl e)
    with Pair assms temp_fail show ?thesis by (auto simp: atomic_write_def)
  next
    case t: (Inr t)
    note new = temp_new [OF Pair [unfolded t]]
    then have nt: "k' \<noteq> t" if "\<not> temp_name k'" for k' using that by auto
    have kt: "k \<noteq> t" using nt assms(2) .
    obtain r2 w2 where 2: "do_write ops t c w1 = (r2, w2)" by (cases "do_write ops t c w1") auto
    obtain r3 w3 where 3: "do_sync ops t w2 = (r3, w3)" by (cases "do_sync ops t w2") auto
    obtain r4 w4 where 4: "do_rename ops t k w3 = (r4, w4)" by (cases "do_rename ops t k w3") auto
    obtain r5 w5 where 5: "do_sync ops (parent_dir k) w4 = (r5, w5)" by (cases "do_sync ops (parent_dir k) w4") auto
    have k2: "files_of w2 k' = files_of w k'" if "k' \<noteq> t" for k'
      using write_ok [of t c w1 w2] write_frame [of t c w1 _ w2 k'] 2 new that by (cases r2) auto
    have k3: "files_of w3 = files_of w2" using sync_same [OF 3] .
    have keep: "files_of (snd (do_unlink ops t x)) k' = files_of w k'"
      if "\<And>k'. k' \<noteq> t \<Longrightarrow> files_of x k' = files_of w k'" "k' \<noteq> t" for x k'
      using unlink_frame [OF that(2)] that by simp
    consider e2 where "r2 = Inl e2" | e3 where "r2 = Inr ()" "r3 = Inl e3"
      | e4 where "r2 = Inr ()" "r3 = Inr ()" "r4 = Inl e4" | "r2 = Inr ()" "r3 = Inr ()" "r4 = Inr ()"
      by (cases r2; cases r3; cases r4) auto
    then show ?thesis
    proof cases
      case 1
      then have "r = Inl e2" "w' = snd (do_unlink ops t w2)" using assms(1) Pair t 2 by (auto simp: atomic_write_def)
      with keep [OF k2] kt nt show ?thesis by auto
    next
      case 2
      then have "r = Inl e3" "w' = snd (do_unlink ops t w3)"
        using assms(1) Pair t \<open>do_write ops t c w1 = _\<close> 3 by (auto simp: atomic_write_def)
      with keep [of w3] k2 k3 kt nt show ?thesis by auto
    next
      case 3
      then have "r = Inl e4" "w' = snd (do_unlink ops t w4)"
        using assms(1) Pair t \<open>do_write ops t c w1 = _\<close> \<open>do_sync ops t w2 = _\<close> 4 by (auto simp: atomic_write_def)
      moreover have "files_of w4 = files_of w3" using rename_fail 4 3 by simp
      ultimately show ?thesis using keep [of w4] k2 k3 kt nt by auto
    next
      case 4
      then have "r = r5" "w' = w5"
        using assms(1) Pair t \<open>do_write ops t c w1 = _\<close> \<open>do_sync ops t w2 = _\<close> \<open>do_rename ops t k w3 = _\<close> 5
        by (auto simp: atomic_write_def)
      moreover have "files_of w5 = files_of w4" using sync_same [OF 5] .
      moreover have "files_of w4 = (files_of w3)(t := None, k := files_of w3 t)"
        using rename_ok \<open>do_rename ops t k w3 = _\<close> 4 by simp
      moreover have "files_of w2 t = Some c" using write_ok \<open>do_write ops t c w1 = _\<close> 4 by simp
      ultimately show ?thesis using k2 k3 kt nt by auto
    qed
  qed
qed

end

subsection \<open>A concrete disk\<close>

text \<open>
  Nodes by their paths, a script of faults that the operations consume one by one (an operation
  past the end of the script succeeds), and the number of the next temporary file.
\<close>

datatype node = FileNode string | DirNode

datatype disk_fault = Fine | Fails string | Tears string string

record disk =
  dk_nodes :: "(dir \<times> node) list"
  dk_script :: "disk_fault list"
  dk_temps :: nat

definition node_at :: "disk \<Rightarrow> dir \<Rightarrow> node option" where
  "node_at d k = map_of (dk_nodes d) k"

definition file_of :: "disk \<Rightarrow> dir \<Rightarrow> string option" where
  "file_of d k = (case node_at d k of Some (FileNode c) \<Rightarrow> Some c | _ \<Rightarrow> None)"

definition set_node :: "dir \<Rightarrow> node \<Rightarrow> disk \<Rightarrow> disk" where
  "set_node k n d = d\<lparr>dk_nodes := AList.update k n (dk_nodes d)\<rparr>"

definition del_node :: "dir \<Rightarrow> disk \<Rightarrow> disk" where
  "del_node k d = d\<lparr>dk_nodes := AList.delete k (dk_nodes d)\<rparr>"

lemma node_at_simps [simp]:
  "node_at (set_node k n d) k' = (if k' = k then Some n else node_at d k')"
  "node_at (del_node k d) k' = (if k' = k then None else node_at d k')"
  "node_at (d\<lparr>dk_script := fs\<rparr>) = node_at d" "node_at (d\<lparr>dk_temps := i\<rparr>) = node_at d"
  by (auto simp: node_at_def set_node_def del_node_def update_conv' delete_conv' fun_eq_iff)

fun with_fault :: "(disk \<Rightarrow> (io_error, 'a) result \<times> disk) \<Rightarrow> disk \<Rightarrow> (io_error, 'a) result \<times> disk" where
  "with_fault f d = (case dk_script d of
       [] \<Rightarrow> f d
     | Fine # fs \<Rightarrow> f (d\<lparr>dk_script := fs\<rparr>)
     | Fails m # fs \<Rightarrow> (Inl (Io m), d\<lparr>dk_script := fs\<rparr>)
     | Tears m c # fs \<Rightarrow> (Inl (Io m), d\<lparr>dk_script := fs\<rparr>))"

definition disk_temp :: "dir \<Rightarrow> disk \<Rightarrow> (io_error, dir) result \<times> disk" where
  "disk_temp k = with_fault (\<lambda>d.
     let t = k @ [Normal (''.tmp'' @ nat_str (dk_temps d))]; d1 = d\<lparr>dk_temps := dk_temps d + 1\<rparr> in
     if node_at d k \<noteq> Some DirNode then (Inl NotFound, d1)
     else if node_at d t \<noteq> None then (Inl (Io ''File exists''), d1)
     else (Inr t, set_node t (FileNode []) d1))"

definition disk_write :: "dir \<Rightarrow> string \<Rightarrow> (disk, unit) io" where
  "disk_write k c d =
     (if node_at d k = Some DirNode then (Inl (Io ''Is a directory''), d)
      else case dk_script d of
          Tears m c' # fs \<Rightarrow> (Inl (Io m), set_node k (FileNode c') (d\<lparr>dk_script := fs\<rparr>))
        | _ \<Rightarrow> with_fault (\<lambda>d. (Inr (), set_node k (FileNode c) d)) d)"

definition disk_sync :: "dir \<Rightarrow> (disk, unit) io" where
  "disk_sync k = with_fault (\<lambda>d. (Inr (), d))"

definition disk_rename :: "dir \<Rightarrow> dir \<Rightarrow> (disk, unit) io" where
  "disk_rename a b = with_fault (\<lambda>d.
     case node_at d a of
       Some (FileNode c) \<Rightarrow>
         if node_at d b = Some DirNode then (Inl (Io ''Is a directory''), d)
         else (Inr (), set_node b (FileNode c) (del_node a d))
     | _ \<Rightarrow> (Inl NotFound, d))"

definition disk_unlink :: "dir \<Rightarrow> (disk, unit) io" where
  "disk_unlink k = with_fault (\<lambda>d.
     case node_at d k of Some (FileNode c) \<Rightarrow> (Inr (), del_node k d) | _ \<Rightarrow> (Inl NotFound, d))"

definition disk_mkdirs :: "dir \<Rightarrow> (disk, unit) io" where
  "disk_mkdirs k = with_fault (\<lambda>d.
     if \<exists>p \<in> set (prefixes k). file_of d p \<noteq> None then (Inl (Io ''Not a directory''), d)
     else (Inr (), foldr (\<lambda>p. set_node p DirNode) (filter (\<lambda>p. p \<noteq> []) (prefixes k)) d))"

definition disk_ops :: "disk disk_ops" where
  "disk_ops = \<lparr>do_temp = disk_temp, do_write = disk_write, do_sync = disk_sync, do_rename = disk_rename,
     do_unlink = disk_unlink, do_mkdirs = disk_mkdirs\<rparr>"

lemma disk_ops_simps [simp]:
  "do_temp disk_ops = disk_temp" "do_write disk_ops = disk_write" "do_sync disk_ops = disk_sync"
  "do_rename disk_ops = disk_rename" "do_unlink disk_ops = disk_unlink" "do_mkdirs disk_ops = disk_mkdirs"
  by (simp_all add: disk_ops_def)

definition reader_of :: "disk \<Rightarrow> reader" where
  "reader_of d = \<lparr>rd_read = (\<lambda>k. case node_at d k of
       Some (FileNode c) \<Rightarrow> Inr c | Some DirNode \<Rightarrow> Inl (Io ''Is a directory'') | None \<Rightarrow> Inl NotFound),
     rd_exists = (\<lambda>k. node_at d k \<noteq> None),
     rd_is_file = (\<lambda>k. file_of d k \<noteq> None),
     rd_is_dir = (\<lambda>k. node_at d k = Some DirNode),
     rd_list = (\<lambda>k. if node_at d k = Some DirNode
       then Inr (remdups (concat (map (\<lambda>(p, _). case rev p of Normal n # r \<Rightarrow> if rev r = k then [n] else [] | _ \<Rightarrow> [])
         (dk_nodes d))))
       else Inl NotFound)\<rparr>"

lemma file_of_simps [simp]:
  "file_of (set_node k (FileNode c) d) = (file_of d)(k \<mapsto> c)"
  "file_of (del_node k d) = (file_of d)(k := None)"
  "file_of (d\<lparr>dk_script := fs\<rparr>) = file_of d" "file_of (d\<lparr>dk_temps := n\<rparr>) = file_of d"
  by (auto simp: file_of_def fun_eq_iff)

lemma script_self: "dk_script d = [] \<Longrightarrow> d\<lparr>dk_script := []\<rparr> = d"
  by (cases d) simp

lemma with_fault_ok:
  assumes "with_fault f d = (Inr x, d')"
  shows "\<exists>fs. f (d\<lparr>dk_script := fs\<rparr>) = (Inr x, d')"
  using assms by (auto simp: script_self intro: exI [of _ "[]"] split: list.splits disk_fault.splits)

lemma with_fault_err:
  assumes "with_fault f d = (Inl e, d')"
  shows "\<exists>fs. f (d\<lparr>dk_script := fs\<rparr>) = (Inl e, d') \<or> d' = d\<lparr>dk_script := fs\<rparr>"
  using assms by (auto simp: script_self intro: exI [of _ "[]"] split: list.splits disk_fault.splits)

declare with_fault.simps [simp del]

lemma file_of_mkdirs:
  assumes "\<forall>p \<in> set ps. file_of d p = None"
  shows "file_of (foldr (\<lambda>p. set_node p DirNode) ps d) = file_of d"
  using assms by (induction ps) (auto simp: file_of_def fun_eq_iff)

lemma file_of_None: "(\<forall>c. node_at d k \<noteq> Some (FileNode c)) \<Longrightarrow> file_of d k = None"
  by (auto simp: file_of_def split: option.splits node.splits)

lemma disk_write_cases:
  assumes "disk_write k c d = (r, d')"
  shows "(r = Inr () \<and> file_of d' = (file_of d)(k \<mapsto> c)) \<or>
    (\<exists>e. r = Inl e \<and> (file_of d' = file_of d \<or> (\<exists>c'. file_of d' = (file_of d)(k \<mapsto> c'))))"
proof (cases "node_at d k = Some DirNode")
  case True
  with assms show ?thesis by (auto simp: disk_write_def)
next
  case nd: False
  show ?thesis
proof (cases "\<exists>m c' fs. dk_script d = Tears m c' # fs")
  case True
  then obtain m c' fs where "dk_script d = Tears m c' # fs" by blast
  with assms have "r = Inl (Io m)" "file_of d' = (file_of d)(k \<mapsto> c')" using nd by (auto simp: disk_write_def)
  then show ?thesis by blast
next
  case False
  then have w: "disk_write k c d = with_fault (\<lambda>d. (Inr (), set_node k (FileNode c) d)) d"
    using nd by (auto simp: disk_write_def split: list.splits disk_fault.splits)
  show ?thesis
  proof (cases r)
    case (Inl e)
    with with_fault_err [of _ d e d'] assms w show ?thesis by fastforce
  next
    case (Inr u)
    with with_fault_ok [of _ d u d'] assms w show ?thesis by fastforce
  qed
qed
qed

lemma disk_rename_cases:
  assumes "disk_rename a b d = (r, d')"
  shows "(r = Inr () \<and> file_of d' = (file_of d)(a := None, b := file_of d a)) \<or> (\<exists>e. r = Inl e \<and> file_of d' = file_of d)"
proof (cases r)
  case (Inl e)
  with assms have "with_fault (\<lambda>d. case node_at d a of
       Some (FileNode c) \<Rightarrow>
         if node_at d b = Some DirNode then (Inl (Io ''Is a directory''), d)
         else (Inr (), set_node b (FileNode c) (del_node a d))
     | _ \<Rightarrow> (Inl NotFound, d)) d = (Inl e, d')" by (simp add: disk_rename_def)
  from with_fault_err [OF this] Inl show ?thesis
    by (cases "node_at d a"; cases "the (node_at d a)"; cases "node_at d b = Some DirNode") auto
next
  case (Inr u)
  with assms have "with_fault (\<lambda>d. case node_at d a of
       Some (FileNode c) \<Rightarrow>
         if node_at d b = Some DirNode then (Inl (Io ''Is a directory''), d)
         else (Inr (), set_node b (FileNode c) (del_node a d))
     | _ \<Rightarrow> (Inl NotFound, d)) d = (Inr u, d')" by (simp add: disk_rename_def)
  from with_fault_ok [OF this] Inr show ?thesis
    by (cases "node_at d a"; cases "the (node_at d a)"; cases "node_at d b = Some DirNode") (auto simp: file_of_def [of d])
qed

lemma disk_mkdirs_same: "disk_mkdirs k d = (r, d') \<Longrightarrow> file_of d' = file_of d"
proof (cases r)
  case (Inl e)
  assume "disk_mkdirs k d = (r, d')"
  with Inl show ?thesis unfolding disk_mkdirs_def by (auto dest!: with_fault_err split: if_splits)
next
  case (Inr u)
  assume "disk_mkdirs k d = (r, d')"
  with Inr obtain fs where fs: "\<not> (\<exists>p \<in> set (prefixes k). file_of d p \<noteq> None)"
    "d' = foldr (\<lambda>p. set_node p DirNode) (filter (\<lambda>p. p \<noteq> []) (prefixes k)) (d\<lparr>dk_script := fs\<rparr>)"
    unfolding disk_mkdirs_def by (auto dest!: with_fault_ok split: if_splits)
  then have "\<forall>p \<in> set (filter (\<lambda>p. p \<noteq> []) (prefixes k)). file_of (d\<lparr>dk_script := fs\<rparr>) p = None"
    by auto
  from file_of_mkdirs [OF this] fs(2) show ?thesis by simp
qed

lemma disk_temp_ok:
  assumes "disk_temp k d = (Inr t, d')"
  shows "file_of d t = None \<and> temp_name t \<and> file_of d' = (file_of d)(t \<mapsto> [])"
proof -
  from assms obtain fs where fs: "t = k @ [Normal (''.tmp'' @ nat_str (dk_temps d))]" "node_at d t = None"
    "d' = set_node t (FileNode []) (d\<lparr>dk_script := fs, dk_temps := dk_temps d + 1\<rparr>)"
    unfolding disk_temp_def by (auto simp: Let_def dest!: with_fault_ok split: if_splits)
  have "file_of (d\<lparr>dk_script := fs, dk_temps := dk_temps d + 1\<rparr>) = file_of d"
    by (simp add: file_of_def node_at_def fun_eq_iff)
  with fs show ?thesis
    by (auto simp: temp_name_def starts_with_iff intro: file_of_None)
qed

interpretation conc: disk_store disk_ops file_of
proof
  fix d d' :: disk and k k' a b t :: dir and c :: string and e :: io_error and r
  show "do_temp disk_ops k d = (Inr t, d') \<Longrightarrow> file_of d t = None \<and> temp_name t \<and> file_of d' = (file_of d)(t \<mapsto> [])"
    using disk_temp_ok by simp
  show "do_temp disk_ops k d = (Inl e, d') \<Longrightarrow> file_of d' = file_of d"
    by (auto simp: disk_temp_def Let_def file_of_def node_at_def fun_eq_iff dest!: with_fault_err split: if_splits)
  show "do_write disk_ops k c d = (Inr (), d') \<Longrightarrow> file_of d' = (file_of d)(k \<mapsto> c)"
    by (auto dest: disk_write_cases)
  show "do_write disk_ops k c d = (Inl e, d') \<Longrightarrow> k' \<noteq> k \<Longrightarrow> file_of d' k' = file_of d k'"
    by (auto dest: disk_write_cases)
  show "do_sync disk_ops k d = (r, d') \<Longrightarrow> file_of d' = file_of d"
    by (cases r) (auto simp: disk_sync_def dest!: with_fault_ok with_fault_err)
  show "do_rename disk_ops a b d = (Inr (), d') \<Longrightarrow> file_of d' = (file_of d)(a := None, b := file_of d a)"
    by (auto dest: disk_rename_cases)
  show "do_rename disk_ops a b d = (Inl e, d') \<Longrightarrow> file_of d' = file_of d"
    by (auto dest: disk_rename_cases)
  show "do_unlink disk_ops k d = (r, d') \<Longrightarrow> file_of d' = file_of d \<or> file_of d' = (file_of d)(k := None)"
    by (cases r) (auto simp: disk_unlink_def dest!: with_fault_ok with_fault_err split: option.splits node.splits)
  show "do_mkdirs disk_ops k d = (r, d') \<Longrightarrow> file_of d' = file_of d"
    by (simp add: disk_mkdirs_same)
qed

subsection \<open>A disk without faults\<close>

definition temp_of :: "dir \<Rightarrow> nat \<Rightarrow> dir" where
  "temp_of k i = k @ [Normal (''.tmp'' @ nat_str i)]"

text \<open>No more faults, and the names of the temporary files to come are free.\<close>

definition quiet :: "disk \<Rightarrow> bool" where
  "quiet d \<longleftrightarrow> dk_script d = [] \<and> (\<forall>k i. dk_temps d \<le> i \<longrightarrow> node_at d (temp_of k i) = None)"

lemma temp_of_name: "temp_name (temp_of k i)"
  by (simp add: temp_of_def temp_name_def starts_with_iff)

lemma temp_of_inj: "temp_of k i = temp_of k' i' \<longleftrightarrow> k = k' \<and> i = i'"
  by (auto simp: temp_of_def nat_str_inj)

lemma script_simps [simp]:
  "dk_script (set_node k n d) = dk_script d" "dk_script (del_node k d) = dk_script d"
  "dk_temps (set_node k n d) = dk_temps d" "dk_temps (del_node k d) = dk_temps d"
  by (simp_all add: set_node_def del_node_def)

lemma quiet_set_node: "quiet d \<Longrightarrow> \<not> temp_name k \<Longrightarrow> quiet (set_node k n d)"
  by (auto simp: quiet_def temp_of_name)

lemma foldr_set_node:
  "node_at (foldr (\<lambda>p. set_node p n) ps d) k = (if k \<in> set ps then Some n else node_at d k)"
  "dk_script (foldr (\<lambda>p. set_node p n) ps d) = dk_script d" "dk_temps (foldr (\<lambda>p. set_node p n) ps d) = dk_temps d"
  by (induction ps) auto

lemma mkdirs_quiet:
  assumes "quiet d" "\<forall>p. prefix p k \<longrightarrow> file_of d p = None \<and> \<not> temp_name p"
  shows "\<exists>d'. disk_mkdirs k d = (Inr (), d') \<and> quiet d' \<and>
    (\<forall>k'. node_at d' k' = (if k' \<noteq> [] \<and> prefix k' k then Some DirNode else node_at d k'))"
proof -
  let ?ps = "filter (\<lambda>p. p \<noteq> []) (prefixes k)"
  let ?d = "foldr (\<lambda>p. set_node p DirNode) ?ps d"
  have "\<not> (\<exists>p \<in> set (prefixes k). file_of d p \<noteq> None)"
    using assms(2) by auto
  then have "disk_mkdirs k d = (Inr (), ?d)"
    using assms(1) by (simp add: disk_mkdirs_def with_fault.simps quiet_def)
  moreover have "quiet ?d"
    using assms by (auto simp: quiet_def foldr_set_node temp_of_name)
  ultimately show ?thesis by (auto simp: foldr_set_node)
qed

lemma atomic_write_quiet:
  assumes "quiet d" "node_at d (parent_dir k) = Some DirNode" "node_at d k \<noteq> Some DirNode" "\<not> temp_name k"
  shows "\<exists>d'. atomic_write disk_ops k c d = (Inr (), d') \<and> quiet d' \<and> node_at d' = (node_at d)(k \<mapsto> FileNode c)"
proof -
  let ?t = "temp_of (parent_dir k) (dk_temps d)"
  let ?d1 = "set_node ?t (FileNode []) (d\<lparr>dk_temps := dk_temps d + 1\<rparr>)"
  let ?d2 = "set_node ?t (FileNode c) ?d1"
  let ?d3 = "set_node k (FileNode c) (del_node ?t ?d2)"
  have "?t \<noteq> k" using assms(4) temp_of_name by metis
  then have t: "node_at d ?t = None" "?t \<noteq> k" using assms(1) by (simp_all add: quiet_def)
  have s: "dk_script d = []" using assms(1) by (simp add: quiet_def)
  have "disk_temp (parent_dir k) d = (Inr ?t, ?d1)"
    using t assms(2) s by (simp add: disk_temp_def with_fault.simps Let_def temp_of_def)
  moreover have "disk_write ?t c ?d1 = (Inr (), ?d2)"
    using s t(1) by (simp add: disk_write_def with_fault.simps)
  moreover have "disk_sync ?t ?d2 = (Inr (), ?d2)" "disk_sync (parent_dir k) ?d3 = (Inr (), ?d3)"
    using s by (simp_all add: disk_sync_def with_fault.simps)
  moreover have "disk_rename ?t k ?d2 = (Inr (), ?d3)"
    using s t assms(3) by (simp add: disk_rename_def with_fault.simps)
  ultimately have "atomic_write disk_ops k c d = (Inr (), ?d3)" by (simp add: atomic_write_def)
  moreover have "node_at ?d3 = (node_at d)(k \<mapsto> FileNode c)" using t by (auto simp: fun_eq_iff)
  moreover have "quiet ?d3"
    using assms(1,4) t(2) by (auto simp: quiet_def temp_of_inj temp_of_name)
  ultimately show ?thesis by blast
qed

subsection \<open>Directories stay\<close>

text \<open>No operation turns a directory into something else, whatever faults occur.\<close>

definition keeps_dirs :: "disk \<Rightarrow> disk \<Rightarrow> bool" where
  "keeps_dirs d d' \<longleftrightarrow> (\<forall>k. node_at d k = Some DirNode \<longrightarrow> node_at d' k = Some DirNode)"

lemma keeps_dirs_refl [simp]: "keeps_dirs d d" "keeps_dirs d (d\<lparr>dk_script := fs\<rparr>)"
  by (simp_all add: keeps_dirs_def)

lemma keeps_dirs_trans [trans]: "keeps_dirs d d' \<Longrightarrow> keeps_dirs d' d'' \<Longrightarrow> keeps_dirs d d''"
  by (simp add: keeps_dirs_def)

lemma with_fault_keeps_dirs:
  assumes "\<And>d. keeps_dirs d (snd (f d))"
  shows "keeps_dirs d (snd (with_fault f d))"
proof -
  have "keeps_dirs d (snd (f (d\<lparr>dk_script := fs\<rparr>)))" for fs
    using assms [of "d\<lparr>dk_script := fs\<rparr>"] by (simp add: keeps_dirs_def)
  with assms [of d] show ?thesis by (auto simp: with_fault.simps split: list.splits disk_fault.splits)
qed

lemma disk_keeps_dirs:
  "keeps_dirs d (snd (disk_temp k d))" "keeps_dirs d (snd (disk_write k c d))" "keeps_dirs d (snd (disk_sync k d))"
  "keeps_dirs d (snd (disk_rename a b d))" "keeps_dirs d (snd (disk_unlink k d))" "keeps_dirs d (snd (disk_mkdirs k d))"
proof -
  show "keeps_dirs d (snd (disk_temp k d))" unfolding disk_temp_def
    by (rule with_fault_keeps_dirs) (auto simp: keeps_dirs_def Let_def)
  have "keeps_dirs d (snd (with_fault (\<lambda>d. (Inr (), set_node k (FileNode c) d)) d))" if "node_at d k \<noteq> Some DirNode"
    using that by (auto simp: keeps_dirs_def with_fault.simps split: list.splits disk_fault.splits)
  then show "keeps_dirs d (snd (disk_write k c d))"
    by (auto simp: disk_write_def keeps_dirs_def split: list.splits disk_fault.splits)
  show "keeps_dirs d (snd (disk_sync k d))" unfolding disk_sync_def
    by (rule with_fault_keeps_dirs) simp
  show "keeps_dirs d (snd (disk_rename a b d))" unfolding disk_rename_def
    by (rule with_fault_keeps_dirs) (auto simp: keeps_dirs_def split: option.splits node.splits)
  show "keeps_dirs d (snd (disk_unlink k d))" unfolding disk_unlink_def
    by (rule with_fault_keeps_dirs) (auto simp: keeps_dirs_def split: option.splits node.splits)
  have "node_at (foldr (\<lambda>p. set_node p DirNode) ps d) k' = Some DirNode" if "node_at d k' = Some DirNode" for ps d k'
    using that by (induction ps) simp_all
  then show "keeps_dirs d (snd (disk_mkdirs k d))" unfolding disk_mkdirs_def
    by (intro with_fault_keeps_dirs) (simp add: keeps_dirs_def)
qed

lemma atomic_write_keeps_dirs: "keeps_dirs d (snd (atomic_write disk_ops k c d))"
proof -
  note keep = disk_keeps_dirs and tr = keeps_dirs_trans
  obtain r1 d1 where 1: "disk_temp (parent_dir k) d = (r1, d1)" by (metis prod.exhaust)
  have K1: "keeps_dirs d d1" using keep(1) [of d "parent_dir k"] 1 by simp
  obtain r2 d2 where 2: "disk_write (projr r1) c d1 = (r2, d2)" by (metis prod.exhaust)
  have K2: "keeps_dirs d d2" using tr [OF K1 keep(2) [of d1 "projr r1" c]] 2 by simp
  obtain r3 d3 where 3: "disk_sync (projr r1) d2 = (r3, d3)" by (metis prod.exhaust)
  have K3: "keeps_dirs d d3" using tr [OF K2 keep(3) [of d2 "projr r1"]] 3 by simp
  obtain r4 d4 where 4: "disk_rename (projr r1) k d3 = (r4, d4)" by (metis prod.exhaust)
  have K4: "keeps_dirs d d4" using tr [OF K3 keep(4) [of d3 "projr r1" k]] 4 by simp
  from 1 2 3 4 K1 K2 K3 K4 keep(3,5) show ?thesis
    by (cases r1; cases r2; cases r3; cases r4) (auto simp: atomic_write_def intro: tr)
qed

lemma mkdirs_makes_dir:
  assumes "disk_mkdirs k d = (Inr u, d')" "k \<noteq> []"
  shows "node_at d' k = Some DirNode"
proof -
  have f: "node_at (foldr (\<lambda>p. set_node p DirNode) ps d) k' = (if k' \<in> set ps then Some DirNode else node_at d k')" for ps d k'
    by (induction ps) auto
  obtain fs where "d' = foldr (\<lambda>p. set_node p DirNode) (filter (\<lambda>p. p \<noteq> []) (prefixes k)) (d\<lparr>dk_script := fs\<rparr>)"
    using with_fault_ok [OF assms(1) [unfolded disk_mkdirs_def]] by (auto split: if_splits)
  with assms(2) show ?thesis by (simp add: f)
qed

subsection \<open>The same disk as a file store\<close>

text \<open>The operations on paths that strategies and edits use, on this disk.\<close>

definition disk_fs :: "disk fs_ops" where
  "disk_fs = \<lparr>fs_read = (\<lambda>p d. rd_read (reader_of d) (components p)), fs_write = (\<lambda>p. disk_write (components p)),
     fs_remove = (\<lambda>p. disk_unlink (components p)), fs_mkdir = disk_mkdirs\<rparr>"

lemma disk_fs_simps [simp]:
  "fs_read disk_fs p d = rd_read (reader_of d) (components p)" "fs_write disk_fs p = disk_write (components p)"
  "fs_remove disk_fs p = disk_unlink (components p)" "fs_mkdir disk_fs = disk_mkdirs"
  by (simp_all add: disk_fs_def)

lemma disk_unlink_cases:
  assumes "disk_unlink k d = (r, d')"
  shows "(r = Inr () \<and> file_of d' = (file_of d)(k := None)) \<or>
    (\<exists>e. r = Inl e \<and> file_of d' = file_of d \<and> (e = NotFound \<longrightarrow> file_of d k = None))"
proof (cases "dk_script d")
  case Nil
  with assms show ?thesis
    by (auto simp: disk_unlink_def with_fault.simps file_of_def [of d] split: option.splits node.splits)
next
  case (Cons a fs)
  with assms show ?thesis
    by (cases a) (auto simp: disk_unlink_def with_fault.simps file_of_def [of d] split: option.splits node.splits)
qed

interpretation disk_files: file_store disk_fs file_of
proof
  fix d d' :: disk and p :: path and k :: dir and c :: string and e :: io_error and r
  show "fs_read disk_fs p d = Inr c \<Longrightarrow> file_of d (components p) = Some c"
    by (auto simp: reader_of_def file_of_def split: option.splits node.splits)
  show "fs_read disk_fs p d = Inl NotFound \<Longrightarrow> file_of d (components p) = None"
    by (auto simp: reader_of_def file_of_def split: option.splits node.splits)
  show "fs_write disk_fs p c d = (Inr (), d') \<Longrightarrow> file_of d' = (file_of d)(components p \<mapsto> c)"
    by (auto dest: disk_write_cases)
  show "fs_remove disk_fs p d = (Inr (), d') \<Longrightarrow> file_of d' = (file_of d)(components p := None)"
    by (auto dest: disk_unlink_cases)
  show "fs_remove disk_fs p d = (Inl NotFound, d') \<Longrightarrow> file_of d' = file_of d \<and> file_of d (components p) = None"
    by (auto dest: disk_unlink_cases)
  show "fs_write disk_fs p c d = (Inl e, d') \<Longrightarrow> k \<noteq> components p \<Longrightarrow> file_of d' k = file_of d k"
    by (auto dest: disk_write_cases)
  show "fs_remove disk_fs p d = (Inl e, d') \<Longrightarrow> file_of d' = file_of d"
    by (auto dest: disk_unlink_cases)
  show "fs_mkdir disk_fs k d = (r, d') \<Longrightarrow> file_of d' = file_of d"
    by (simp add: disk_mkdirs_same)
qed

end
