(* ===== verification/ManifestStore.thy ===== *)
theory ManifestStore
  imports Manifest Disk Json Family "HOL-Library.Word"
begin

text \<open>
  \<open>src/manifest.rs\<close>, second part: the registry of artefacts of a run, its JSON form, its loading with
  the orphan sweep, and its updates. Printing JSON text and times and the SHA-256 digest are the
  libraries' and arguments; serde's derived readers are modelled on JSON values (an array in place
  of an object, which serde also reads, is not).
\<close>

subsection \<open>Entries\<close>

record manifest_entry =
  me_name :: string
  me_kind :: kind
  me_schema_version :: "32 word"
  me_sha256 :: string
  me_producer :: producer
  me_phase :: "string option"
  me_attempt :: "32 word option"
  me_created_at :: "int option"

record manifest =
  mf_run_id :: string
  mf_schema_version :: "32 word"
  mf_workflow_name :: "string option"
  mf_entries :: "manifest_entry list"

datatype serde_error =
    JsonSyntax string
  | UnknownField string
  | DuplicateField
  | MissingField string
  | InvalidValue string
  | CustomError string

datatype manifest_error =
    MfIo io_error
  | MfJson serde_error
  | MfPhase phase_error

text \<open>The libraries: JSON text, times as RFC 3339 text, and the digest of a byte string.\<close>

record libs =
  lb_json :: json_lib
  lb_time_show :: "int \<Rightarrow> string"
  lb_time_parse :: "string \<Rightarrow> int option"
  lb_digest :: "bytes \<Rightarrow> bytes"

definition hex_byte :: "char \<Rightarrow> string" where
  "hex_byte c = [hex_digit ((of_char c :: nat) div 16), hex_digit ((of_char c :: nat) mod 16)]"

definition sha256_hex :: "libs \<Rightarrow> bytes \<Rightarrow> string" where
  "sha256_hex L b = concat (map hex_byte (lb_digest L b))"

definition from_payload ::
  "libs \<Rightarrow> int \<Rightarrow> string \<Rightarrow> kind \<Rightarrow> 32 word \<Rightarrow> producer \<Rightarrow> string option \<Rightarrow> 32 word option \<Rightarrow> bytes \<Rightarrow> manifest_entry" where
  "from_payload L now name k version p phase attempt payload = \<lparr>me_name = name, me_kind = k,
     me_schema_version = version, me_sha256 = sha256_hex L payload, me_producer = p, me_phase = phase,
     me_attempt = attempt, me_created_at = Some now\<rparr>"

definition manifest_new :: "string \<Rightarrow> string option \<Rightarrow> manifest" where
  "manifest_new run_id workflow_name = \<lparr>mf_run_id = run_id, mf_schema_version = 1,
     mf_workflow_name = workflow_name, mf_entries = []\<rparr>"

subsection \<open>The JSON form\<close>

definition word_json :: "32 word \<Rightarrow> json" where
  "word_json n = JInt (uint n)"

definition str_opt_json :: "string option \<Rightarrow> json" where
  "str_opt_json s = (case s of None \<Rightarrow> JNull | Some t \<Rightarrow> JStr t)"

text \<open>Only an invalid free markdown name makes writing fail.\<close>

definition entry_json :: "libs \<Rightarrow> manifest_entry \<Rightarrow> (serde_error, json) result" where
  "entry_json L e =
     (case kind_write (me_kind e) of
        Inl (InvalidOtherMd s) \<Rightarrow> Inl (CustomError s)
      | Inr k \<Rightarrow> Inr (JObj
          ([(''name'', JStr (me_name e)), (''kind'', JStr k), (''schema_version'', word_json (me_schema_version e)),
            (''sha256'', JStr (me_sha256 e)), (''producer'', JStr (producer_str (me_producer e))),
            (''phase'', str_opt_json (me_phase e)),
            (''attempt'', case me_attempt e of None \<Rightarrow> JNull | Some n \<Rightarrow> word_json n)] @
           (case me_created_at e of None \<Rightarrow> [] | Some t \<Rightarrow> [(''created_at'', JStr (lb_time_show L t))]))))"

fun seq_results :: "('e, 'a) result list \<Rightarrow> ('e, 'a list) result" where
  "seq_results [] = Inr []"
| "seq_results (Inl e # rs) = Inl e"
| "seq_results (Inr x # rs) = (case seq_results rs of Inl e \<Rightarrow> Inl e | Inr xs \<Rightarrow> Inr (x # xs))"

definition manifest_json :: "libs \<Rightarrow> manifest \<Rightarrow> (serde_error, json) result" where
  "manifest_json L m =
     (case seq_results (map (entry_json L) (mf_entries m)) of
        Inl e \<Rightarrow> Inl e
      | Inr es \<Rightarrow> Inr (JObj
          ([(''loker.run_id'', JStr (mf_run_id m)), (''schema_version'', word_json (mf_schema_version m))] @
           (case mf_workflow_name m of None \<Rightarrow> [] | Some n \<Rightarrow> [(''workflow_name'', JStr n)]) @
           [(''entries'', JArr es)])))"

definition to_json :: "libs \<Rightarrow> manifest \<Rightarrow> (serde_error, string) result" where
  "to_json L m = (case manifest_json L m of Inl e \<Rightarrow> Inl e | Inr v \<Rightarrow> Inr (js_show (lb_json L) v))"

text \<open>Reading an object: no duplicate and no unknown field.\<close>

definition fields_ok :: "string list \<Rightarrow> (string \<times> json) list \<Rightarrow> (serde_error, unit) result" where
  "fields_ok known m =
     (case List.find (\<lambda>k. k \<notin> set known) (map fst m) of
        Some k \<Rightarrow> Inl (UnknownField k)
      | None \<Rightarrow> if distinct (map fst m) then Inr () else Inl DuplicateField)"

definition required :: "string \<Rightarrow> (json \<Rightarrow> 'a option) \<Rightarrow> (string \<times> json) list \<Rightarrow> (serde_error, 'a) result" where
  "required k conv m =
     (case map_of m k of
        None \<Rightarrow> Inl (MissingField k)
      | Some v \<Rightarrow> (case conv v of None \<Rightarrow> Inl (InvalidValue k) | Some x \<Rightarrow> Inr x))"

text \<open>A field of option type may be missing or null.\<close>

definition optional :: "string \<Rightarrow> (json \<Rightarrow> 'a option) \<Rightarrow> (string \<times> json) list \<Rightarrow> (serde_error, 'a option) result" where
  "optional k conv m =
     (case map_of m k of
        None \<Rightarrow> Inr None
      | Some JNull \<Rightarrow> Inr None
      | Some v \<Rightarrow> (case conv v of None \<Rightarrow> Inl (InvalidValue k) | Some x \<Rightarrow> Inr (Some x)))"

fun as_u32 :: "json \<Rightarrow> 32 word option" where
  "as_u32 (JInt n) = (if 0 \<le> n \<and> n < 2 ^ 32 then Some (word_of_int n) else None)"
| "as_u32 _ = None"

fun as_arr :: "json \<Rightarrow> json list option" where
  "as_arr (JArr vs) = Some vs"
| "as_arr _ = None"

definition as_kind :: "json \<Rightarrow> kind option" where
  "as_kind v = (case v of JStr s \<Rightarrow> (case kind_read s of Inr k \<Rightarrow> Some k | Inl _ \<Rightarrow> None) | _ \<Rightarrow> None)"

definition as_producer :: "json \<Rightarrow> producer option" where
  "as_producer v = (case v of
     JStr s \<Rightarrow> List.find (\<lambda>p. producer_str p = s) [PrSingle, PrParallel, PrEscalating, PrVerify, PrHitl]
   | _ \<Rightarrow> None)"

definition as_time :: "libs \<Rightarrow> json \<Rightarrow> int option" where
  "as_time L v = (case v of JStr s \<Rightarrow> lb_time_parse L s | _ \<Rightarrow> None)"

definition entry_fields :: "string list" where
  "entry_fields = [''name'', ''kind'', ''schema_version'', ''sha256'', ''producer'', ''phase'', ''attempt'', ''created_at'']"

definition manifest_fields :: "string list" where
  "manifest_fields = [''loker.run_id'', ''schema_version'', ''workflow_name'', ''entries'']"

fun read_entry :: "libs \<Rightarrow> json \<Rightarrow> (serde_error, manifest_entry) result" where
  "read_entry L (JObj m) =
     rbind (fields_ok entry_fields m) (\<lambda>_.
     rbind (required ''name'' as_str m) (\<lambda>name.
     rbind (required ''kind'' as_kind m) (\<lambda>k.
     rbind (required ''schema_version'' as_u32 m) (\<lambda>version.
     rbind (required ''sha256'' as_str m) (\<lambda>sha.
     rbind (required ''producer'' as_producer m) (\<lambda>p.
     rbind (optional ''phase'' as_str m) (\<lambda>phase.
     rbind (optional ''attempt'' as_u32 m) (\<lambda>attempt.
     rbind (optional ''created_at'' (as_time L) m) (\<lambda>t.
       Inr \<lparr>me_name = name, me_kind = k, me_schema_version = version, me_sha256 = sha, me_producer = p,
         me_phase = phase, me_attempt = attempt, me_created_at = t\<rparr>)))))))))"
| "read_entry L _ = Inl (InvalidValue ''entry'')"

fun read_manifest :: "libs \<Rightarrow> json \<Rightarrow> (serde_error, manifest) result" where
  "read_manifest L (JObj m) =
     rbind (fields_ok manifest_fields m) (\<lambda>_.
     rbind (required ''loker.run_id'' as_str m) (\<lambda>run_id.
     rbind (required ''schema_version'' as_u32 m) (\<lambda>version.
     rbind (optional ''workflow_name'' as_str m) (\<lambda>workflow.
     rbind (required ''entries'' as_arr m) (\<lambda>vs.
     rbind (seq_results (map (read_entry L) vs)) (\<lambda>es.
       Inr \<lparr>mf_run_id = run_id, mf_schema_version = version, mf_workflow_name = workflow, mf_entries = es\<rparr>))))))"
| "read_manifest L _ = Inl (InvalidValue ''manifest'')"

definition from_json :: "libs \<Rightarrow> string \<Rightarrow> (serde_error, manifest) result" where
  "from_json L s = (case js_parse (lb_json L) s of Inl e \<Rightarrow> Inl (JsonSyntax e) | Inr v \<Rightarrow> read_manifest L v)"

subsection \<open>Loading\<close>

text \<open>The hashes of the completed markers; a marker that cannot be read or parsed is skipped.\<close>

definition marker_sha :: "libs \<Rightarrow> string \<Rightarrow> string option" where
  "marker_sha L txt = (case js_parse (lb_json L) txt of
     Inr (JObj m) \<Rightarrow> (case filter (\<lambda>(k, _). k = ''manifest_entry_sha256'') m of
         [(_, JStr s)] \<Rightarrow> Some s
       | _ \<Rightarrow> None)
   | _ \<Rightarrow> None)"

fun referenced :: "libs \<Rightarrow> reader \<Rightarrow> dir \<Rightarrow> string list \<Rightarrow> string list" where
  "referenced L rd markers_dir [] = []"
| "referenced L rd markers_dir (n # ns) =
     (if \<not> ends_with n ''.completed'' then referenced L rd markers_dir ns
      else case rd_read rd (markers_dir @ [Normal n]) of
          Inl _ \<Rightarrow> referenced L rd markers_dir ns
        | Inr txt \<Rightarrow> (case marker_sha L txt of
              None \<Rightarrow> referenced L rd markers_dir ns
            | Some s \<Rightarrow> s # referenced L rd markers_dir ns))"

definition sweep :: "string list \<Rightarrow> manifest \<Rightarrow> manifest" where
  "sweep refs m = m\<lparr>mf_entries := filter (\<lambda>e. me_sha256 e \<in> set refs) (mf_entries m)\<rparr>"

fun first_bad_version :: "manifest_entry list \<Rightarrow> manifest_entry option" where
  "first_bad_version [] = None"
| "first_bad_version (e # es) = (if me_schema_version e \<noteq> 1 then Some e else first_bad_version es)"

definition load :: "libs \<Rightarrow> reader \<Rightarrow> dir \<Rightarrow> (manifest_error, manifest) result" where
  "load L rd path =
     (case rd_read rd path of
        Inl e \<Rightarrow> Inl (MfIo e)
      | Inr content \<Rightarrow> (case from_json L content of
            Inl e \<Rightarrow> Inl (MfJson e)
          | Inr m \<Rightarrow>
              if mf_schema_version m \<noteq> 1 then
                Inl (MfPhase (ArtefactSchemaMismatch (''manifest schema_version is '' @
                  nat_str (unat (mf_schema_version m)) @ ''; only v1 is supported'')))
              else
                let markers_dir = parent_dir path @ [Normal ''markers''] in
                rbind (if rd_is_dir rd markers_dir then
                        (case rd_list rd markers_dir of
                           Inl e \<Rightarrow> Inl (MfIo e)
                         | Inr names \<Rightarrow> Inr (sweep (referenced L rd markers_dir names) m))
                      else Inr m)
                  (\<lambda>m'. case first_bad_version (mf_entries m') of
                     Some e \<Rightarrow> Inl (MfPhase (ArtefactSchemaMismatch (''entry '' @ quoted (me_name e) @
                       '' has schema_version '' @ nat_str (unat (me_schema_version e)) @ ''; only v1 is supported'')))
                   | None \<Rightarrow> Inr m')))"

subsection \<open>Updates\<close>

text \<open>An update returns the manifest in memory, whatever the disk did.\<close>

definition append ::
  "libs \<Rightarrow> 'w disk_ops \<Rightarrow> manifest_entry \<Rightarrow> dir \<Rightarrow> manifest \<Rightarrow> 'w \<Rightarrow>
     ((manifest_error, unit) result \<times> manifest) \<times> 'w" where
  "append L ops e path m w =
     (let m' = m\<lparr>mf_entries := mf_entries m @ [e]\<rparr> in
      case to_json L m' of
        Inr txt \<Rightarrow> (case atomic_write ops path txt w of
            (Inr _, w') \<Rightarrow> ((Inr (), m'), w')
          | (Inl err, w') \<Rightarrow> ((Inl (MfIo err), m'\<lparr>mf_entries := butlast (mf_entries m')\<rparr>), w'))
      | Inl err \<Rightarrow> ((Inl (MfJson err), m'\<lparr>mf_entries := butlast (mf_entries m')\<rparr>), w))"

fun put_entry :: "manifest_entry \<Rightarrow> manifest_entry list \<Rightarrow> manifest_entry list" where
  "put_entry e [] = [e]"
| "put_entry e (x # xs) = (if me_name x = me_name e then e # xs else x # put_entry e xs)"

text \<open>On an error the entries are read back from the disk, if they can be.\<close>

definition reread :: "libs \<Rightarrow> reader \<Rightarrow> dir \<Rightarrow> manifest \<Rightarrow> manifest" where
  "reread L rd path m = (case load L rd path of Inr d \<Rightarrow> m\<lparr>mf_entries := mf_entries d\<rparr> | Inl _ \<Rightarrow> m)"

definition replace_by_name ::
  "libs \<Rightarrow> 'w disk_ops \<Rightarrow> ('w \<Rightarrow> reader) \<Rightarrow> manifest_entry \<Rightarrow> dir \<Rightarrow> manifest \<Rightarrow> 'w \<Rightarrow>
     ((manifest_error, unit) result \<times> manifest) \<times> 'w" where
  "replace_by_name L ops rd e path m w =
     (let m' = m\<lparr>mf_entries := put_entry e (mf_entries m)\<rparr> in
      case to_json L m' of
        Inr txt \<Rightarrow> (case atomic_write ops path txt w of
            (Inr _, w') \<Rightarrow> ((Inr (), m'), w')
          | (Inl err, w') \<Rightarrow> ((Inl (MfIo err), reread L (rd w') path m'), w'))
      | Inl err \<Rightarrow> ((Inl (MfJson err), reread L (rd w) path m'), w))"

definition sha256_for :: "manifest \<Rightarrow> string \<Rightarrow> string option" where
  "sha256_for m name = map_option me_sha256 (List.find (\<lambda>e. me_name e = name) (mf_entries m))"

definition verify_payload :: "libs \<Rightarrow> manifest \<Rightarrow> string \<Rightarrow> bytes \<Rightarrow> (phase_error, unit) result" where
  "verify_payload L m name payload =
     (case sha256_for m name of
        None \<Rightarrow> Inl (ArtefactSchemaMismatch (''entry '' @ quoted name @ '' not found in manifest''))
      | Some recorded \<Rightarrow>
          let computed = sha256_hex L payload in
          if recorded \<noteq> computed then
            Inl (ArtefactSchemaMismatch (''sha256 mismatch for '' @ quoted name @ '': recorded '' @ recorded @
              '' vs computed '' @ computed))
          else Inr ())"

subsection \<open>The round trip\<close>

text \<open>What a kind becomes on disk: a free markdown name that is the name of a fixed kind is that kind.\<close>

definition stored_kind :: "kind \<Rightarrow> kind" where
  "stored_kind k = (case k of
     OtherMd s \<Rightarrow> if s = ''design.md'' then DesignMd else if s = ''review.md'' then ReviewMd else if s = ''plan.md'' then PlanMd else k
   | _ \<Rightarrow> k)"

definition stored_entry :: "manifest_entry \<Rightarrow> manifest_entry" where
  "stored_entry e = e\<lparr>me_kind := stored_kind (me_kind e)\<rparr>"

text \<open>The contract of the libraries for what a manifest holds: times and documents are read as they were printed.\<close>

definition times_ok :: "libs \<Rightarrow> manifest_entry \<Rightarrow> bool" where
  "times_ok L e \<longleftrightarrow> (\<forall>t. me_created_at e = Some t \<longrightarrow> lb_time_parse L (lb_time_show L t) = Some t)"

definition prints_back :: "libs \<Rightarrow> manifest \<Rightarrow> bool" where
  "prints_back L m \<longleftrightarrow> (\<forall>e \<in> set (mf_entries m). times_ok L e) \<and>
     (\<forall>v. manifest_json L m = Inr v \<longrightarrow> js_parse (lb_json L) (js_show (lb_json L) v) = Inr v)"

lemma as_u32_word [simp]: "as_u32 (word_json n) = Some n"
proof -
  have "uint n < 2 ^ 32" using uint_lt2p [of n] by simp
  then show ?thesis by (simp add: word_json_def)
qed

lemma word_json_not_null [simp]: "word_json n \<noteq> JNull"
  by (simp add: word_json_def)

lemma as_producer_str [simp]: "as_producer (JStr (producer_str p)) = Some p"
  by (cases p) (simp_all add: as_producer_def)

lemma kind_read_written: "kind_write k = Inr s \<Longrightarrow> kind_read s = Inr (stored_kind k)"
proof -
  assume w: "kind_write k = Inr s"
  show ?thesis
  proof (cases "\<exists>t. k = OtherMd t \<and> reserved_md t")
    case True
    then obtain t where t: "k = OtherMd t" "reserved_md t" by blast
    with w have "s = t" by (simp split: if_splits)
    moreover have "kind_read ''design.md'' = Inr DesignMd" "kind_read ''review.md'' = Inr ReviewMd" "kind_read ''plan.md'' = Inr PlanMd"
      by code_simp+
    moreover from t(2) have "t = ''design.md'' \<or> t = ''review.md'' \<or> t = ''plan.md''" by (simp add: reserved_md_def)
    ultimately show ?thesis unfolding t(1) by (elim disjE) (simp_all add: stored_kind_def)
  next
    case False
    then have "stored_kind k = k" by (cases k) (auto simp: stored_kind_def reserved_md_def)
    with False kind_write_read [OF w] show ?thesis by auto
  qed
qed

lemma optional_if:
  "optional k conv m = (case map_of m k of None \<Rightarrow> Inr None
     | Some v \<Rightarrow> if v = JNull then Inr None else (case conv v of None \<Rightarrow> Inl (InvalidValue k) | Some x \<Rightarrow> Inr (Some x)))"
  by (auto simp: optional_def split: option.splits json.splits)

lemma read_entry_written:
  assumes "entry_json L e = Inr v" "times_ok L e"
  shows "read_entry L v = Inr (stored_entry e)"
proof -
  obtain k where k: "kind_write (me_kind e) = Inr k"
    using assms(1) by (auto simp: entry_json_def split: sum.splits kind_error.splits)
  have ak: "as_kind (JStr k) = Some (stored_kind (me_kind e))" using kind_read_written [OF k] by (simp add: as_kind_def)
  have v: "v = JObj
      ([(''name'', JStr (me_name e)), (''kind'', JStr k), (''schema_version'', word_json (me_schema_version e)),
        (''sha256'', JStr (me_sha256 e)), (''producer'', JStr (producer_str (me_producer e))),
        (''phase'', str_opt_json (me_phase e)),
        (''attempt'', case me_attempt e of None \<Rightarrow> JNull | Some n \<Rightarrow> word_json n)] @
       (case me_created_at e of None \<Rightarrow> [] | Some t \<Rightarrow> [(''created_at'', JStr (lb_time_show L t))]))"
    using assms(1) by (simp add: entry_json_def k)
  have t: "lb_time_parse L (lb_time_show L x) = Some x" if "me_created_at e = Some x" for x
    using assms(2) that by (simp add: times_ok_def)
  show ?thesis
    unfolding v
    by (cases "me_phase e"; cases "me_attempt e"; cases "me_created_at e")
      (simp_all add: fields_ok_def entry_fields_def required_def optional_if str_opt_json_def ak as_time_def t stored_entry_def)
qed

lemma seq_results_map [simp]: "seq_results (map Inr xs) = Inr xs"
  by (induction xs) simp_all

lemma seq_results_Inr: "seq_results rs = Inr xs \<longleftrightarrow> rs = map Inr xs"
proof
  show "seq_results rs = Inr xs \<Longrightarrow> rs = map Inr xs"
    by (induction rs arbitrary: xs rule: seq_results.induct) (auto split: sum.splits)
qed simp

lemma read_entries_written:
  assumes "seq_results (map (entry_json L) es) = Inr vs" "\<forall>e \<in> set es. times_ok L e"
  shows "seq_results (map (read_entry L) vs) = Inr (map stored_entry es)"
proof -
  from assms(1) have "map (entry_json L) es = map Inr vs" by (simp add: seq_results_Inr)
  then have "map (read_entry L) vs = map Inr (map stored_entry es)"
    using assms(2)
  proof (induction es arbitrary: vs)
    case (Cons e es)
    then obtain v vs' where v: "vs = v # vs'" "entry_json L e = Inr v" "map (entry_json L) es = map Inr vs'"
      by (cases vs) auto
    with Cons.IH [OF v(3)] Cons.prems(2) read_entry_written [OF v(2)] show ?case by simp
  qed simp
  then show ?thesis by (simp add: seq_results_Inr)
qed

text \<open>
  C34: The text of a manifest that can be written is read back as the manifest, but that a free markdown name
  which is the name of a fixed kind comes back as that kind. The printed document and its times must be
  read as they were printed.
\<close>

theorem manifest_roundtrip:
  assumes "to_json L m = Inr txt" "prints_back L m"
  shows "from_json L txt = Inr (m\<lparr>mf_entries := map stored_entry (mf_entries m)\<rparr>)"
proof -
  obtain doc where doc: "manifest_json L m = Inr doc" "txt = js_show (lb_json L) doc"
    using assms(1) by (auto simp: to_json_def split: sum.splits)
  obtain vs where vs: "seq_results (map (entry_json L) (mf_entries m)) = Inr vs"
    using doc(1) by (auto simp: manifest_json_def split: sum.splits)
  have v: "doc = JObj ([(''loker.run_id'', JStr (mf_run_id m)), (''schema_version'', word_json (mf_schema_version m))] @
      (case mf_workflow_name m of None \<Rightarrow> [] | Some n \<Rightarrow> [(''workflow_name'', JStr n)]) @ [(''entries'', JArr vs)])"
    using doc(1) by (simp add: manifest_json_def vs)
  have "\<forall>e \<in> set (mf_entries m). times_ok L e" using assms(2) by (simp add: prints_back_def)
  note es = read_entries_written [OF vs this]
  have "read_manifest L doc = Inr (m\<lparr>mf_entries := map stored_entry (mf_entries m)\<rparr>)"
    unfolding v
    by (cases "mf_workflow_name m")
      (simp_all add: fields_ok_def manifest_fields_def required_def optional_if es)
  then show ?thesis using doc assms(2) by (simp add: from_json_def prints_back_def)
qed

text \<open>Libraries for examples: no JSON text, times printed as one letter, a digest of the first byte.\<close>

definition demo_libs :: libs where
  "demo_libs = \<lparr>lb_json = \<lparr>js_parse = (\<lambda>_. Inl ''no json''), js_show = (\<lambda>_. ''{}'')\<rparr>,
     lb_time_show = (\<lambda>_. ''t''), lb_time_parse = (\<lambda>s. if s = ''t'' then Some 0 else None), lb_digest = take 1\<rparr>"

definition demo_disguised :: manifest where
  "demo_disguised = (manifest_new ''r'' None)\<lparr>mf_entries :=
     [from_payload demo_libs 0 ''plan.md'' (OtherMd ''plan.md'') 1 PrSingle (Some ''plan'') (Some 0) ''x'']\<rparr>"

text \<open>A printer and a parser for one document.\<close>

definition demo_json_libs :: libs where
  "demo_json_libs = demo_libs\<lparr>lb_json := \<lparr>js_parse = (\<lambda>s. if s = ''doc'' then Inr (projr (manifest_json demo_libs demo_disguised)) else Inl ''no json''),
     js_show = (\<lambda>_. ''doc'')\<rparr>\<rparr>"

theorem manifest_roundtrip_witness:
  "\<exists>txt m. to_json demo_json_libs demo_disguised = Inr txt \<and> from_json demo_json_libs txt = Inr m \<and> map me_kind (mf_entries m) = [PlanMd]"
proof -
  have same: "manifest_json demo_json_libs = manifest_json demo_libs"
  proof -
    have "lb_time_show demo_json_libs = lb_time_show demo_libs" by (simp add: demo_json_libs_def)
    then have "entry_json demo_json_libs = entry_json demo_libs" by (intro ext) (simp only: entry_json_def)
    then show ?thesis by (intro ext) (simp only: manifest_json_def)
  qed
  have w: "kind_write (OtherMd ''plan.md'') = Inr ''plan.md''" by code_simp
  obtain v where v: "manifest_json demo_libs demo_disguised = Inr v"
    by (auto simp: manifest_json_def manifest_new_def from_payload_def entry_json_def demo_disguised_def w simp del: kind_write.simps)
  have p: "prints_back demo_json_libs demo_disguised"
    using v by (simp add: prints_back_def same) (simp add: times_ok_def demo_json_libs_def demo_libs_def demo_disguised_def from_payload_def)
  have "to_json demo_json_libs demo_disguised = Inr ''doc''" using v by (simp add: to_json_def same) (simp add: demo_json_libs_def)
  moreover note manifest_roundtrip [OF this p]
  moreover have "map me_kind (mf_entries (demo_disguised\<lparr>mf_entries := map stored_entry (mf_entries demo_disguised)\<rparr>)) = [PlanMd]"
    by (simp add: demo_disguised_def from_payload_def stored_entry_def stored_kind_def)
  ultimately show ?thesis by (intro exI conjI)
qed

subsection \<open>Loading and updating\<close>

lemma first_bad_version_None: "first_bad_version es = None \<longleftrightarrow> (\<forall>e \<in> set es. me_schema_version e = 1)"
  by (induction es) auto

text \<open>
  A manifest that loads is the stored one without its orphans: when the run has a directory of
  markers, exactly the entries whose digest a completed marker names are kept, in their order,
  and otherwise all of them; everything that is kept has schema version 1.
\<close>

theorem load_sweeps_orphans:
  assumes "load L rd path = Inr m"
  shows "\<exists>txt stored. rd_read rd path = Inr txt \<and> from_json L txt = Inr stored \<and>
    mf_run_id m = mf_run_id stored \<and> mf_schema_version stored = 1 \<and>
    (\<forall>e \<in> set (mf_entries m). me_schema_version e = 1) \<and>
    (rd_is_dir rd (parent_dir path @ [Normal ''markers'']) \<longrightarrow>
       (\<exists>names. rd_list rd (parent_dir path @ [Normal ''markers'']) = Inr names \<and>
          mf_entries m = filter (\<lambda>e. \<exists>n txt. n \<in> set names \<and> ends_with n ''.completed'' \<and>
             rd_read rd (parent_dir path @ [Normal ''markers'', Normal n]) = Inr txt \<and> marker_sha L txt = Some (me_sha256 e))
            (mf_entries stored))) \<and>
    (\<not> rd_is_dir rd (parent_dir path @ [Normal ''markers'']) \<longrightarrow> m = stored)"
proof -
  let ?d = "parent_dir path @ [Normal ''markers'']"
  have refs: "x \<in> set (referenced L rd ?d names) \<longleftrightarrow> (\<exists>n txt. n \<in> set names \<and> ends_with n ''.completed'' \<and>
      rd_read rd (parent_dir path @ [Normal ''markers'', Normal n]) = Inr txt \<and> marker_sha L txt = Some x)" for x names
    by (induction names) (auto split: sum.splits option.splits)
  from assms obtain content stored where st: "rd_read rd path = Inr content" "from_json L content = Inr stored"
    "mf_schema_version stored = 1" "rbind (if rd_is_dir rd ?d then
        (case rd_list rd ?d of Inl e \<Rightarrow> Inl (MfIo e) | Inr names \<Rightarrow> Inr (sweep (referenced L rd ?d names) stored))
      else Inr stored) (\<lambda>m'. case first_bad_version (mf_entries m') of
         Some e \<Rightarrow> Inl (MfPhase (ArtefactSchemaMismatch (''entry '' @ quoted (me_name e) @
           '' has schema_version '' @ nat_str (unat (me_schema_version e)) @ ''; only v1 is supported'')))
       | None \<Rightarrow> Inr m') = Inr m"
    by (auto simp: load_def Let_def split: sum.splits if_splits)
  have "first_bad_version (mf_entries m) = None"
    using st(4) by (auto simp: rbind_Inr split: option.splits)
  then have ver: "\<forall>e \<in> set (mf_entries m). me_schema_version e = 1" by (simp add: first_bad_version_None)
  show ?thesis
  proof (cases "rd_is_dir rd ?d")
    case True
    with st(4) obtain names where names: "rd_list rd ?d = Inr names" "m = sweep (referenced L rd ?d names) stored"
      by (auto simp: rbind_Inr split: sum.splits option.splits)
    then have "mf_entries m = filter (\<lambda>e. \<exists>n txt. n \<in> set names \<and> ends_with n ''.completed'' \<and>
             rd_read rd (parent_dir path @ [Normal ''markers'', Normal n]) = Inr txt \<and> marker_sha L txt = Some (me_sha256 e))
            (mf_entries stored)"
      using refs by (simp add: sweep_def)
    moreover have "mf_run_id m = mf_run_id stored" by (simp add: names(2) sweep_def)
    ultimately show ?thesis using st(1-3) ver True names(1) by blast
  next
    case False
    with st(4) have "m = stored" by (auto simp: rbind_Inr split: option.splits)
    with st ver False show ?thesis by blast
  qed
qed

text \<open>
  C33: Appending is transactional in memory and atomic on disk: on success the memory has the new entry
  last and the file is its text; on an error the memory is as before, and the file is as before or
  already has the whole new text (the rename happened and a later sync failed).
\<close>

theorem append_transactional:
  assumes "append L disk_ops e path m w = ((r, m'), w')" "\<not> temp_name path"
  shows "(r = Inr () \<longrightarrow> mf_entries m' = mf_entries m @ [e] \<and> (\<exists>txt. to_json L m' = Inr txt \<and> file_of w' path = Some txt)) \<and>
    (r \<noteq> Inr () \<longrightarrow> m' = m \<and> (file_of w' path = file_of w path \<or>
       (\<exists>txt. to_json L (m\<lparr>mf_entries := mf_entries m @ [e]\<rparr>) = Inr txt \<and> file_of w' path = Some txt))) \<and>
    (\<forall>k. k \<noteq> path \<longrightarrow> \<not> temp_name k \<longrightarrow> file_of w' k = file_of w k)"
proof (cases "to_json L (m\<lparr>mf_entries := mf_entries m @ [e]\<rparr>)")
  case (Inl err)
  with assms(1) show ?thesis by (auto simp: append_def Let_def)
next
  case (Inr content)
  obtain r1 w1 where aw: "atomic_write disk_ops path content w = (r1, w1)" by (cases "atomic_write disk_ops path content w") auto
  from conc.atomic_write_old_or_new [OF aw assms(2)] assms(1) Inr aw show ?thesis
    by (cases r1) (auto simp: append_def Let_def)
qed

lemma find_put_entry:
  "List.find (\<lambda>x. me_name x = n) (put_entry e es) =
     (if n = me_name e then Some e else List.find (\<lambda>x. me_name x = n) es)"
  by (induction es) auto

text \<open>
  Replacing by name: on success the name is found with the new digest and every other name is
  found as before, and the number of entries grows by one only when the name was missing.
\<close>

theorem replace_by_name_lookup:
  assumes "replace_by_name L disk_ops rd e path m w = ((Inr (), m'), w')"
  shows "sha256_for m' n = (if n = me_name e then Some (me_sha256 e) else sha256_for m n) \<and>
    length (mf_entries m') = length (mf_entries m) + (if sha256_for m (me_name e) = None then 1 else 0)"
proof -
  have m': "mf_entries m' = put_entry e (mf_entries m)"
    using assms by (auto simp: replace_by_name_def Let_def split: sum.splits prod.splits)
  have "length (put_entry e es) = length es + (if List.find (\<lambda>x. me_name x = me_name e) es = None then 1 else 0)" for es
    by (induction es) auto
  then show ?thesis by (auto simp: sha256_for_def m' find_put_entry)
qed

subsection \<open>Examples\<close>

text \<open>A stored manifest with two entries, of which a completed marker names one.\<close>

definition demo_entry_json :: "string \<Rightarrow> string \<Rightarrow> json" where
  "demo_entry_json name sha = JObj [(''name'', JStr name), (''kind'', JStr ''plan.md''), (''schema_version'', JInt 1),
     (''sha256'', JStr sha), (''producer'', JStr ''single'')]"

definition demo_store_libs :: libs where
  "demo_store_libs = demo_libs\<lparr>lb_json := \<lparr>js_parse = (\<lambda>s.
       if s = ''m'' then Inr (JObj [(''loker.run_id'', JStr ''r''), (''schema_version'', JInt 1),
          (''entries'', JArr [demo_entry_json ''a'' ''aa'', demo_entry_json ''b'' ''bb''])])
       else if s = ''c'' then Inr (JObj [(''phase'', JStr ''plan''), (''manifest_entry_sha256'', JStr ''bb'')])
       else Inl ''no json''), js_show = (\<lambda>_. ''m'')\<rparr>\<rparr>"

definition demo_disk :: disk where
  "demo_disk = \<lparr>dk_nodes = [([Normal ''run''], DirNode), ([Normal ''run'', Normal ''manifest.json''], FileNode ''m''),
     ([Normal ''run'', Normal ''markers''], DirNode),
     ([Normal ''run'', Normal ''markers'', Normal ''plan.completed''], FileNode ''c'')], dk_script = [], dk_temps = 0\<rparr>"

lemma demo_parse:
  "js_parse (lb_json demo_store_libs) ''m'' = Inr (JObj [(''loker.run_id'', JStr ''r''), (''schema_version'', JInt 1),
     (''entries'', JArr [demo_entry_json ''a'' ''aa'', demo_entry_json ''b'' ''bb''])])"
  "js_parse (lb_json demo_store_libs) ''c'' = Inr (JObj [(''phase'', JStr ''plan''), (''manifest_entry_sha256'', JStr ''bb'')])"
  by (simp_all add: demo_store_libs_def)

lemma demo_load:
  "\<exists>m. load demo_store_libs (reader_of demo_disk) [Normal ''run'', Normal ''manifest.json''] = Inr m \<and>
     map me_name (mf_entries m) = [''b'']"
proof -
  have e: "ends_with ''plan.completed'' ''.completed''" by code_simp
  have k: "as_kind (JStr ''plan.md'') = Some PlanMd"
    using named_kinds_facts by (simp add: as_kind_def named_kinds_def)
  have p: "as_producer (JStr ''single'') = Some PrSingle" by (simp add: as_producer_def)
  have r: "read_entry demo_store_libs (demo_entry_json n sha) = Inr \<lparr>me_name = n, me_kind = PlanMd, me_schema_version = 1,
      me_sha256 = sha, me_producer = PrSingle, me_phase = None, me_attempt = None, me_created_at = None\<rparr>" for n sha
    by (simp add: demo_entry_json_def fields_ok_def entry_fields_def required_def optional_if k p)
  have f: "from_json demo_store_libs ''m'' = Inr \<lparr>mf_run_id = ''r'', mf_schema_version = 1, mf_workflow_name = None,
      mf_entries = map (\<lambda>(n, sha). \<lparr>me_name = n, me_kind = PlanMd, me_schema_version = 1, me_sha256 = sha,
        me_producer = PrSingle, me_phase = None, me_attempt = None, me_created_at = None\<rparr>) [(''a'', ''aa''), (''b'', ''bb'')]\<rparr>"
    by (simp add: from_json_def demo_parse fields_ok_def manifest_fields_def required_def optional_if r)
  show ?thesis
    by (simp add: load_def f reader_of_def demo_disk_def node_at_def parent_dir_def e marker_sha_def sweep_def demo_parse)
qed

theorem load_sweeps_orphans_witness:
  "\<exists>m. load demo_store_libs (reader_of demo_disk) [Normal ''run'', Normal ''manifest.json''] = Inr m \<and>
     map me_name (mf_entries m) = [''b''] \<and> map me_schema_version (mf_entries m) = [1]"
  using demo_load
proof (rule exE)
  fix m assume mm: "load demo_store_libs (reader_of demo_disk) [Normal ''run'', Normal ''manifest.json''] = Inr m \<and>
     map me_name (mf_entries m) = [''b'']"
  obtain content stored where v: "\<forall>e \<in> set (mf_entries m). me_schema_version e = 1"
    using load_sweeps_orphans [OF mm [THEN conjunct1]] by (elim exE conjE)
  obtain e where e: "mf_entries m = [e]" using mm [THEN conjunct2] by (cases "mf_entries m") simp_all
  have "map me_schema_version (mf_entries m) = [1]" using v by (simp add: e)
  then show ?thesis using mm by (intro exI [of _ m] conjI) simp_all
qed

theorem append_transactional_witness:
  "\<exists>m' w'. append demo_store_libs disk_ops (from_payload demo_libs 0 ''c'' PlanMd 1 PrSingle None None ''x'')
       [Normal ''run'', Normal ''manifest.json''] (manifest_new ''r'' None) (demo_disk\<lparr>dk_script := [Fine, Tears ''disk full'' ''to'']\<rparr>)
       = ((Inl (MfIo (Io ''disk full'')), m'), w') \<and> m' = manifest_new ''r'' None"
proof -
  let ?e = "from_payload demo_libs 0 ''c'' PlanMd 1 PrSingle None None ''x''"
  let ?w = "demo_disk\<lparr>dk_script := [Fine, Tears ''disk full'' ''to'']\<rparr>" and ?p = "[Normal ''run'', Normal ''manifest.json'']"
  obtain r m' w' where x: "append demo_store_libs disk_ops ?e ?p (manifest_new ''r'' None) ?w = ((r, m'), w')"
    by (metis prod.collapse)
  have t: "\<not> temp_name ?p" by code_simp
  have j: "\<exists>s. to_json demo_store_libs ((manifest_new ''r'' None)\<lparr>mf_entries := [?e]\<rparr>) = Inr s"
    by (simp add: to_json_def manifest_json_def entry_json_def from_payload_def manifest_new_def)
  then have "r = Inl (MfIo (Io ''disk full''))"
    using x by (auto simp: append_def Let_def manifest_new_def atomic_write_def disk_temp_def with_fault.simps disk_write_def
        demo_disk_def node_at_def parent_dir_def set_node_def split: prod.splits)
  with append_transactional [OF x t] x show ?thesis by auto
qed

theorem replace_by_name_lookup_witness:
  "\<exists>m' w'. replace_by_name demo_store_libs disk_ops reader_of (from_payload demo_libs 0 ''c'' PlanMd 1 PrSingle None None ''x'')
       [Normal ''run'', Normal ''manifest.json''] (manifest_new ''r'' None) demo_disk = ((Inr (), m'), w') \<and>
     sha256_for m' ''c'' = Some (sha256_hex demo_libs ''x'')"
proof -
  let ?e = "from_payload demo_libs 0 ''c'' PlanMd 1 PrSingle None None ''x''"
  let ?p = "[Normal ''run'', Normal ''manifest.json'']"
  obtain s where "to_json demo_store_libs ((manifest_new ''r'' None)\<lparr>mf_entries := [?e]\<rparr>) = Inr s"
    by (simp add: to_json_def manifest_json_def entry_json_def from_payload_def manifest_new_def)
  then obtain m' w' where x: "replace_by_name demo_store_libs disk_ops reader_of ?e ?p (manifest_new ''r'' None) demo_disk = ((Inr (), m'), w')"
    by (simp add: replace_by_name_def manifest_new_def atomic_write_def disk_temp_def with_fault.simps disk_write_def disk_sync_def
        disk_rename_def demo_disk_def node_at_def parent_dir_def set_node_def del_node_def Let_def)
  from replace_by_name_lookup [OF x, of "''c''"] x show ?thesis by (auto simp: from_payload_def)
qed

end
