(* ===== verification/Steps.thy ===== *)
theory Steps
  imports Dispatch Consensus ManifestStore
begin

text \<open>
  \<open>src/workflow/mod.rs\<close>, the step-based workflows: steps, their backends and effective settings,
  the checks at load time, the inheritance between workflow files and the conversion of steps to
  phases for a resume. The reader of TOML and the places workflows are found in are arguments.
\<close>

subsection \<open>Steps and workflows\<close>

datatype consensus_strategy = CsFirst | CsSynthesis | CsVote | CsWeightedVote

record validate_config =
  vc_check :: "string option"
  vc_backend :: "string option"
  vc_model :: "string option"
  vc_prompt :: "string option"
  vc_on_error :: "string option"
  vc_on_parse_error :: "string option"
  vc_mode :: "string option"
  vc_max_input_length :: "nat option"
  vc_replace_output :: bool
  vc_timeout_ms :: "64 word option"

record step =
  sw_name :: string
  sw_backend :: string
  sw_backends :: "string list"
  sw_model :: "string option"
  sw_prompt :: string
  sw_depends_on :: "string list"
  sw_when :: "string option"
  sw_shell :: "string option"
  sw_apply_edits :: bool
  sw_verify :: "string option"
  sw_fix_retries :: "32 word"
  sw_retries :: "32 word"
  sw_retry_delay :: "64 word"
  sw_for_each :: "string option"
  sw_output_format :: "string option"
  sw_continue_on_error :: "bool option"
  sw_min_deps_success :: "nat option"
  sw_timeout :: "64 word option"
  sw_consensus :: "consensus_strategy option"
  sw_validate :: "validate_config option"

record step_flow =
  fl_name :: string
  fl_description :: "string option"
  fl_extends :: "string option"
  fl_steps :: "step list"
  fl_continue_on_error :: bool
  fl_timeout :: "64 word option"

datatype flow_error =
    MissingDependency string string string
  | CircularDependency string string
  | UnknownVariable string string string
  | DuplicateStepNames string "string list"
  | MinDepsSuccessWithoutDeps string string
  | MinDepsSuccessExceedsDeps string string nat nat
  | TimeoutTooSmall string string "64 word" "64 word"
  | MissingCapability string string string string string
  | ApplyEditsMultiBackend string string string
  | MissingBackendForCapability string string string string

fun split_comma :: "string \<Rightarrow> string list" where
  "split_comma [] = [[]]"
| "split_comma (c # cs) =
     (if c = CHR '','' then [] # split_comma cs
      else (case split_comma cs of [] \<Rightarrow> [[c]] | l # ls \<Rightarrow> (c # l) # ls))"

definition get_backends :: "step \<Rightarrow> string list" where
  "get_backends s =
     (if sw_backends s \<noteq> [] then sw_backends s
      else if sw_backend s = [] then []
      else filter (\<lambda>b. b \<noteq> []) (map trim (split_comma (sw_backend s))))"

definition get_consensus_strategy :: "step \<Rightarrow> consensus_strategy" where
  "get_consensus_strategy s = unwrap_or CsSynthesis (sw_consensus s)"

definition step_continue_on_error :: "step_flow \<Rightarrow> step \<Rightarrow> bool" where
  "step_continue_on_error fl s = unwrap_or (fl_continue_on_error fl) (sw_continue_on_error s)"

definition step_timeout :: "step_flow \<Rightarrow> step \<Rightarrow> 64 word option" where
  "step_timeout fl s = or_else (sw_timeout s) (fl_timeout fl)"

subsection \<open>Checks at load time\<close>

definition min_timeout_ms :: "64 word" where
  "min_timeout_ms = 100"

definition check_step :: "step_flow \<Rightarrow> step \<Rightarrow> (flow_error, unit) result" where
  "check_step fl s =
     (let too_many = (case sw_min_deps_success s of
            Some m \<Rightarrow> if length (sw_depends_on s) < m
              then Some (MinDepsSuccessExceedsDeps (fl_name fl) (sw_name s) m (length (sw_depends_on s))) else None
          | None \<Rightarrow> None)
      in case too_many of
        Some e \<Rightarrow> Inl e
      | None \<Rightarrow> (case step_timeout fl s of
            Some t \<Rightarrow> if 0 < t \<and> t < min_timeout_ms
              then Inl (TimeoutTooSmall (fl_name fl) (sw_name s) t min_timeout_ms) else Inr ()
          | None \<Rightarrow> Inr ()))"

fun for_all_ok :: "('a \<Rightarrow> ('e, unit) result) \<Rightarrow> 'a list \<Rightarrow> ('e, unit) result" where
  "for_all_ok f [] = Inr ()"
| "for_all_ok f (x # xs) = (case f x of Inl e \<Rightarrow> Inl e | Inr _ \<Rightarrow> for_all_ok f xs)"

lemma for_all_ok_iff: "for_all_ok f xs = Inr () \<longleftrightarrow> list_all (\<lambda>x. f x = Inr ()) xs"
  by (induction xs) (auto split: sum.splits)

lemma for_all_ok_Inl: "for_all_ok f xs = Inl e \<Longrightarrow> \<exists>x \<in> set xs. f x = Inl e"
  by (induction xs) (auto split: sum.splits)

definition validate_flow :: "step_flow \<Rightarrow> (flow_error, unit) result" where
  "validate_flow fl = for_all_ok (check_step fl) (fl_steps fl)"

definition required_capabilities :: "step \<Rightarrow> (string \<times> string) list" where
  "required_capabilities s = (if sw_apply_edits s then [(''file_edit'', ''apply_edits = true'')] else [])"

definition capability_named :: "backend_capabilities \<Rightarrow> string \<Rightarrow> bool" where
  "capability_named caps name =
     (if name = ''tool_use'' then cap_tool_use caps
      else if name = ''streaming'' then cap_streaming caps
      else if name = ''file_edit'' then cap_file_edit caps
      else False)"

definition check_backend ::
  "(string \<Rightarrow> backend_capabilities option) \<Rightarrow> step_flow \<Rightarrow> step \<Rightarrow> (string \<times> string) list \<Rightarrow> string \<Rightarrow> (flow_error, unit) result" where
  "check_backend lookup fl s demands b =
     (let caps = unwrap_or no_capabilities (lookup b) in
      for_all_ok (\<lambda>(capability, reason).
        if capability_named caps capability then Inr ()
        else Inl (MissingCapability (fl_name fl) (sw_name s) b capability reason)) demands)"

definition check_capabilities ::
  "(string \<Rightarrow> backend_capabilities option) \<Rightarrow> step_flow \<Rightarrow> step \<Rightarrow> (flow_error, unit) result" where
  "check_capabilities lookup fl s =
     (let demands = required_capabilities s; backends = get_backends s in
      if demands = [] then Inr ()
      else if sw_apply_edits s \<and> 1 < length backends
        then Inl (ApplyEditsMultiBackend (fl_name fl) (sw_name s) (str_join '', '' backends))
      else if backends = []
        then Inl (MissingBackendForCapability (fl_name fl) (sw_name s) (fst (hd demands)) (snd (hd demands)))
      else for_all_ok (check_backend lookup fl s demands) backends)"

definition validate_with_capabilities ::
  "(string \<Rightarrow> backend_capabilities option) \<Rightarrow> step_flow \<Rightarrow> (flow_error, unit) result" where
  "validate_with_capabilities lookup fl =
     (case validate_flow fl of Inl e \<Rightarrow> Inl e | Inr _ \<Rightarrow> for_all_ok (check_capabilities lookup fl) (fl_steps fl))"

subsection \<open>Inheritance\<close>

text \<open>The index of the parent's steps is a map in which a later step of the same name wins.\<close>

definition step_index :: "step list \<Rightarrow> string \<Rightarrow> nat option" where
  "step_index ss n = map_of (rev (zip (map sw_name ss) [0..<length ss])) n"

fun merge_steps :: "(string \<Rightarrow> nat option) \<Rightarrow> step list \<Rightarrow> step list \<Rightarrow> step list" where
  "merge_steps index merged [] = merged"
| "merge_steps index merged (c # cs) =
     (case index (sw_name c) of
        Some pos \<Rightarrow> merge_steps index (merged[pos := c]) cs
      | None \<Rightarrow> merge_steps index (merged @ [c]) cs)"

definition merge_workflows :: "step_flow \<Rightarrow> step_flow \<Rightarrow> step_flow" where
  "merge_workflows parent child =
     \<lparr>fl_name = fl_name child, fl_description = or_else (fl_description child) (fl_description parent),
      fl_extends = None, fl_steps = merge_steps (step_index (fl_steps parent)) (fl_steps parent) (fl_steps child),
      fl_continue_on_error = fl_continue_on_error child \<or> fl_continue_on_error parent,
      fl_timeout = or_else (fl_timeout child) (fl_timeout parent)\<rparr>"

datatype flow_source = FileSource path | EmbeddedSource string string

record flow_store =
  ls_read :: "path \<Rightarrow> (string, string) result"
  ls_toml :: "string \<Rightarrow> (string, step_flow) result"
  ls_find :: "string \<Rightarrow> (string, flow_source) result"

datatype load_failure = TooDeep | Unreadable path string | Unparsable string | ParentNotFound string string | Invalid flow_error

definition source_text :: "flow_store \<Rightarrow> flow_source \<Rightarrow> (load_failure, step_flow) result" where
  "source_text st src =
     (case src of
        FileSource p \<Rightarrow> (case ls_read st p of Inl e \<Rightarrow> Inl (Unreadable p e) | Inr t \<Rightarrow> map_err Unparsable (ls_toml st t))
      | EmbeddedSource _ t \<Rightarrow> map_err Unparsable (ls_toml st t))"

text \<open>The depth of inheritance is bounded, so that the recursion ends.\<close>

function load_with_depth :: "flow_store \<Rightarrow> flow_source \<Rightarrow> nat \<Rightarrow> (load_failure, step_flow) result" where
  "load_with_depth st src depth =
     (if 10 < depth then Inl TooDeep
      else rbind (source_text st src) (\<lambda>child.
        rbind (case fl_extends child of
            None \<Rightarrow> Inr child
          | Some parent \<Rightarrow> (case ls_find st parent of
                Inl e \<Rightarrow> Inl (ParentNotFound parent e)
              | Inr psrc \<Rightarrow> rbind (load_with_depth st psrc (Suc depth)) (\<lambda>p. Inr (merge_workflows p child)))) (\<lambda>fl.
        case validate_flow fl of Inl e \<Rightarrow> Inl (Invalid e) | Inr _ \<Rightarrow> Inr fl)))"
  by pat_completeness auto

termination
  by (relation "measure (\<lambda>(st, src, depth). 11 - depth)") auto

declare load_with_depth.simps [simp del]

definition load_workflow :: "flow_store \<Rightarrow> path \<Rightarrow> (load_failure, step_flow) result" where
  "load_workflow st p = load_with_depth st (FileSource p) 0"

subsection \<open>Conversion to phases\<close>

definition step_aggregator :: "consensus_strategy \<Rightarrow> aggregator_name" where
  "step_aggregator c = (case c of CsFirst \<Rightarrow> AgFirst | CsSynthesis \<Rightarrow> AgFirst | CsVote \<Rightarrow> AgVote | CsWeightedVote \<Rightarrow> AgVote)"

definition step_phase_config :: "step \<Rightarrow> 'h phase_config" where
  "step_phase_config s =
     (let backends = get_backends s; backend_str = (case backends of [] \<Rightarrow> None | b # _ \<Rightarrow> Some b) in
      \<lparr>cf_phase = sw_name s,
       cf_strategy = (if 0 < sw_retries s then NmEscalatingRetry else if 1 < length backends then NmParallel else NmSingle),
       cf_aggregator = step_aggregator (get_consensus_strategy s),
       cf_verify = (if sw_apply_edits s \<or> sw_verify s \<noteq> None then VhRunCommand else VhNone),
       cf_artefact_name = sw_name s,
       cf_artefact_kind = (if sw_output_format s = Some ''json'' then VerifyJson
                           else if sw_output_format s = Some ''lines'' then ResponseJson else DesignMd),
       cf_producer = (if 1 < length backends then PrParallel else PrSingle),
       cf_prompt_template = sw_prompt s, cf_backend = backend_str,
       cf_targets = (if 1 < length backends then map (\<lambda>b. \<lparr>ts_backend = b, ts_model = None\<rparr>) backends else []),
       cf_min_responses = 1,
       cf_rungs = (if 0 < sw_retries s then [\<lparr>pg_tier = Medium, pg_backend = unwrap_or [] backend_str\<rparr>] else []),
       cf_pass_failure_context = False\<rparr>)"

definition to_phase_configs :: "step_flow \<Rightarrow> 'h phase_config list" where
  "to_phase_configs fl = map step_phase_config (filter (\<lambda>s. sw_shell s = None) (fl_steps fl))"

subsection \<open>Merging\<close>

lemma step_index_distinct:
  assumes "distinct (map sw_name ss)"
  shows "step_index ss n = Some i \<longleftrightarrow> i < length ss \<and> sw_name (ss ! i) = n"
proof -
  have d: "distinct (map fst (rev (zip (map sw_name ss) [0..<length ss])))"
    using assms by (simp add: rev_map [symmetric])
  have "step_index ss n = Some i \<longleftrightarrow> (n, i) \<in> set (zip (map sw_name ss) [0..<length ss])"
    unfolding step_index_def using map_of_eq_Some_iff [OF d] by simp
  then show ?thesis unfolding in_set_zip by (auto simp: exI [of _ i])
qed

lemma merge_steps_spec:
  assumes "\<And>n i. index n = Some i \<longleftrightarrow> i < length ns \<and> ns ! i = n" "take (length ns) (map sw_name merged) = ns"
    and "distinct (map sw_name merged)" "distinct (map sw_name cs)"
    and "set (drop (length ns) (map sw_name merged)) \<inter> sw_name ` set cs = {}"
  shows "map sw_name (merge_steps index merged cs) = map sw_name merged @ filter (\<lambda>n. n \<notin> set ns) (map sw_name cs)
    \<and> set (merge_steps index merged cs) = {s \<in> set merged. sw_name s \<notin> sw_name ` set cs} \<union> set cs"
  using assms(2-)
proof (induction cs arbitrary: merged)
  case (Cons c cs)
  have len: "length ns \<le> length merged" using arg_cong [OF Cons.prems(1), of length] by simp
  have dm: "distinct merged" using Cons.prems(2) by (simp add: distinct_map)
  show ?case
  proof (cases "index (sw_name c)")
    case None
    then have "i < length ns \<Longrightarrow> ns ! i \<noteq> sw_name c" for i using assms(1) [of "sw_name c" i] by simp
    then have new: "sw_name c \<notin> set ns" by (auto simp: in_set_conv_nth)
    have "set (map sw_name merged) = set ns \<union> set (drop (length ns) (map sw_name merged))"
      using arg_cong [OF append_take_drop_id [of "length ns" "map sw_name merged"], of set] Cons.prems(1) by simp
    with new Cons.prems(4) have absent: "sw_name c \<notin> set (map sw_name merged)" by auto
    have other: "sw_name x \<noteq> sw_name c" if "x \<in> set merged" for x using absent that by (metis imageI list.set_map)
    from absent other Cons.IH [of "merged @ [c]"] Cons.prems new None len show ?thesis by auto
  next
    case (Some pos)
    with assms(1) have pos: "pos < length ns" "ns ! pos = sw_name c" by blast+
    have nth: "sw_name (merged ! pos) = sw_name c"
      using pos len Cons.prems(1) by (metis length_map nth_map nth_take order_less_le_trans)
    have names: "map sw_name (merged[pos := c]) = map sw_name merged"
      using nth pos len list_update_id [of "map sw_name merged" pos] by (simp add: map_update)
    have same: "s = merged ! pos" if "s \<in> set merged" "sw_name s = sw_name c" for s
      using that nth Cons.prems(2) pos len by (auto simp: distinct_map inj_on_def)
    have upd: "set (merged[pos := c]) = insert c (set merged - {merged ! pos})"
      using dm pos len by (intro set_update_distinct) simp_all
    have "sw_name c \<in> set ns" using pos by (metis nth_mem)
    moreover have "map sw_name (merge_steps index (merged[pos := c]) cs) = map sw_name merged @ filter (\<lambda>n. n \<notin> set ns) (map sw_name cs)
      \<and> set (merge_steps index (merged[pos := c]) cs) = {s \<in> set (merged[pos := c]). sw_name s \<notin> sw_name ` set cs} \<union> set cs"
      using Cons.IH [of "merged[pos := c]"] Cons.prems unfolding names by simp
    ultimately show ?thesis using Some upd same nth Cons.prems(3) by auto
  qed
qed simp

text \<open>
  A workflow that extends another has the parent's steps in their places, each replaced by the
  child's step of the same name when there is one, followed by the child's other steps in order.
\<close>

theorem merge_overrides_by_name:
  assumes "distinct (map sw_name (fl_steps p))" "distinct (map sw_name (fl_steps c))"
  shows "map sw_name (fl_steps (merge_workflows p c)) =
      map sw_name (fl_steps p) @ filter (\<lambda>n. n \<notin> set (map sw_name (fl_steps p))) (map sw_name (fl_steps c)) \<and>
    set (fl_steps (merge_workflows p c)) =
      {s \<in> set (fl_steps p). sw_name s \<notin> sw_name ` set (fl_steps c)} \<union> set (fl_steps c)"
proof -
  have "step_index (fl_steps p) n = Some i \<longleftrightarrow> i < length (map sw_name (fl_steps p)) \<and> map sw_name (fl_steps p) ! i = n" for n i
    using step_index_distinct [OF assms(1)] by auto
  from merge_steps_spec [OF this _ assms] show ?thesis by (simp add: merge_workflows_def)
qed

subsection \<open>Loading\<close>

lemma load_with_depth_Inr:
  "load_with_depth st src depth = Inr fl \<longleftrightarrow> depth \<le> 10 \<and> validate_flow fl = Inr () \<and>
     (\<exists>child. source_text st src = Inr child \<and> (case fl_extends child of
          None \<Rightarrow> fl = child
        | Some parent \<Rightarrow> \<exists>psrc p. ls_find st parent = Inr psrc \<and> load_with_depth st psrc (Suc depth) = Inr p \<and>
            fl = merge_workflows p child))"
proof (cases "source_text st src")
  case (Inr child)
  have check: "(case validate_flow x of Inl e \<Rightarrow> Inl (Invalid e) | Inr _ \<Rightarrow> Inr x) = Inr fl \<longleftrightarrow> x = fl \<and> validate_flow fl = Inr ()" for x
    by (cases "validate_flow x") auto
  show ?thesis
  proof (cases "fl_extends child")
    case None
    with Inr show ?thesis by (subst load_with_depth.simps) (auto simp: check)
  next
    case (Some parent)
    show ?thesis
    proof (cases "ls_find st parent")
      case (Inr psrc)
      with Some \<open>source_text st src = Inr child\<close> show ?thesis
        by (subst load_with_depth.simps) (auto simp: check rbind_Inr)
    qed (use Some Inr in \<open>subst load_with_depth.simps, auto\<close>)
  qed
qed (subst load_with_depth.simps, auto)

lemma load_with_depth_flat:
  assumes "load_with_depth st src depth = Inr fl"
  shows "fl_extends fl = None \<and> validate_flow fl = Inr ()"
proof -
  from assms [unfolded load_with_depth_Inr [of st src depth]] obtain child where
    c: "validate_flow fl = Inr ()" "case fl_extends child of None \<Rightarrow> fl = child
        | Some parent \<Rightarrow> \<exists>psrc p. ls_find st parent = Inr psrc \<and> load_with_depth st psrc (Suc depth) = Inr p \<and>
            fl = merge_workflows p child" by blast
  then show ?thesis by (cases "fl_extends child") (auto simp: merge_workflows_def)
qed

lemma load_with_depth_cycle:
  assumes "\<forall>src fl. source_text st src = Inr fl \<longrightarrow> fl_extends fl \<noteq> None"
  shows "load_with_depth st src depth \<noteq> Inr fl"
proof (induction "11 - depth" arbitrary: depth src fl)
  case 0
  then show ?case by (simp add: load_with_depth_Inr)
next
  case (Suc n)
  then have "n = 11 - Suc depth" by simp
  note no = Suc(1) [OF this]
  show ?case
  proof
    assume "load_with_depth st src depth = Inr fl"
    from this [unfolded load_with_depth_Inr [of st src depth]] obtain child where
      c: "source_text st src = Inr child" "case fl_extends child of None \<Rightarrow> fl = child
        | Some parent \<Rightarrow> \<exists>psrc p. ls_find st parent = Inr psrc \<and> load_with_depth st psrc (Suc depth) = Inr p \<and>
            fl = merge_workflows p child" by blast
    from c(1) assms obtain parent where "fl_extends child = Some parent" by auto
    with c(2) no show False by auto
  qed
qed

text \<open>
  Loading always ends. What it returns has no parent left and passes the checks of each step; and
  when every workflow that can be read extends another, so that the chain of parents cannot end,
  nothing is loaded.
\<close>

theorem load_workflow_flat:
  assumes "load_workflow st p = Inr fl"
  shows "fl_extends fl = None \<and> (\<exists>src root. source_text st src = Inr root \<and> fl_extends root = None) \<and> list_all (\<lambda>s.
     (case sw_min_deps_success s of Some m \<Rightarrow> m \<le> length (sw_depends_on s) | None \<Rightarrow> True) \<and>
     (case step_timeout fl s of Some t \<Rightarrow> t = 0 \<or> 100 \<le> t | None \<Rightarrow> True)) (fl_steps fl)"
proof -
  from load_with_depth_flat [OF assms [unfolded load_workflow_def]]
  have fl: "fl_extends fl = None" "list_all (\<lambda>s. check_step fl s = Inr ()) (fl_steps fl)"
    by (simp_all add: validate_flow_def for_all_ok_iff)
  have "(case sw_min_deps_success s of Some m \<Rightarrow> m \<le> length (sw_depends_on s) | None \<Rightarrow> True) \<and>
     (case step_timeout fl s of Some t \<Rightarrow> t = 0 \<or> 100 \<le> t | None \<Rightarrow> True)" if "check_step fl s = Inr ()" for s
    using that by (auto simp: check_step_def min_timeout_ms_def Let_def word_neq_0_conv not_less split: option.splits if_splits)
  moreover have "\<exists>src root. source_text st src = Inr root \<and> fl_extends root = None"
    using load_with_depth_cycle [of st "FileSource p" 0 fl] assms unfolding load_workflow_def by (metis option.exhaust)
  ultimately show ?thesis using fl by (auto simp: list_all_iff)
qed

subsection \<open>Examples\<close>

definition demo_step :: "string \<Rightarrow> string list \<Rightarrow> step" where
  "demo_step name deps = \<lparr>sw_name = name, sw_backend = ''claude'', sw_backends = [], sw_model = None, sw_prompt = ''p'',
     sw_depends_on = deps, sw_when = None, sw_shell = None, sw_apply_edits = False, sw_verify = None, sw_fix_retries = 0,
     sw_retries = 0, sw_retry_delay = 1000, sw_for_each = None, sw_output_format = None, sw_continue_on_error = None,
     sw_min_deps_success = None, sw_timeout = None, sw_consensus = None, sw_validate = None\<rparr>"

definition demo_flow :: "string option \<Rightarrow> step list \<Rightarrow> step_flow" where
  "demo_flow parent ss = \<lparr>fl_name = ''w'', fl_description = None, fl_extends = parent, fl_steps = ss,
     fl_continue_on_error = False, fl_timeout = None\<rparr>"

text \<open>Step \<open>b\<close> of the child takes the place of the parent's.\<close>

theorem merge_overrides_by_name_witness:
  "map sw_name (fl_steps (merge_workflows (demo_flow None [demo_step ''a'' [], demo_step ''b'' []])
     (demo_flow (Some ''w'') [demo_step ''c'' [], demo_step ''b'' [''a'']]))) = [''a'', ''b'', ''c'']"
  using merge_overrides_by_name [of "demo_flow None [demo_step ''a'' [], demo_step ''b'' []]"
      "demo_flow (Some ''w'') [demo_step ''c'' [], demo_step ''b'' [''a'']]"]
  by (simp add: demo_flow_def demo_step_def)

definition demo_flow_store :: flow_store where
  "demo_flow_store = \<lparr>ls_read = (\<lambda>p. Inr p),
     ls_toml = (\<lambda>t. Inr (if t = ''base'' then demo_flow None [demo_step ''a'' []] else demo_flow (Some ''base'') [demo_step ''b'' [''a'']])),
     ls_find = (\<lambda>n. Inr (EmbeddedSource n n))\<rparr>"

theorem load_workflow_flat_witness:
  "\<exists>fl. load_workflow demo_flow_store ''child'' = Inr fl \<and> fl_extends fl = None"
proof -
  let ?fl = "merge_workflows (demo_flow None [demo_step ''a'' []]) (demo_flow (Some ''base'') [demo_step ''b'' [''a'']])"
  have "load_workflow demo_flow_store ''child'' = Inr ?fl"
    by (simp add: load_workflow_def load_with_depth.simps demo_flow_store_def source_text_def demo_flow_def demo_step_def
        merge_workflows_def step_index_def validate_flow_def check_step_def step_timeout_def)
  from load_workflow_flat [OF this] this show ?thesis by (intro exI [of _ ?fl]) simp
qed

end
