(* ===== verification/StepGraph.thy ===== *)
theory StepGraph
  imports Steps "HOL-Library.Multiset"
begin

text \<open>
  The scheduling of \<open>src/workflow/mod.rs\<close>: \<open>group_by_depth\<close> checks the names and the dependencies
  of the steps, computes the depth of each by a memoised search that reports cycles, and groups the
  steps by depth. Depths are held in a \<open>HashMap\<close>: the order in which it is visited is an argument.
\<close>

subsection \<open>The search\<close>

datatype run_failure = FlowFailure flow_error | Message string

type_synonym depths = "(string \<times> nat) list"

text \<open>The map from names to steps; with equal names the last step wins.\<close>

definition step_map :: "step list \<Rightarrow> string \<Rightarrow> step option" where
  "step_map ss = map_of (rev (map (\<lambda>s. (sw_name s, s)) ss))"

fun position :: "'a \<Rightarrow> 'a list \<Rightarrow> nat option" where
  "position x [] = None"
| "position x (y # ys) = (if y = x then Some 0 else map_option Suc (position x ys))"

lemma position_None [simp]: "position x ys = None \<longleftrightarrow> x \<notin> set ys"
  by (induction ys) auto

lemma position_absent [simp]: "x \<notin> set ys \<Longrightarrow> position x ys = None"
  by simp

lemma position_Some: "position x ys = Some i \<Longrightarrow> i < length ys \<and> ys ! i = x"
  by (induction ys arbitrary: i) (auto split: if_splits)

lemma step_map_name: "step_map ss n = Some s \<Longrightarrow> s \<in> set ss \<and> sw_name s = n"
  unfolding step_map_def by (drule map_of_SomeD) auto

lemma step_map_dom: "step_map ss n = None \<longleftrightarrow> n \<notin> sw_name ` set ss"
  by (simp add: step_map_def map_of_eq_None_iff image_image)

lemma step_map_distinct:
  assumes "distinct (map sw_name ss)"
  shows "step_map ss n = Some s \<longleftrightarrow> s \<in> set ss \<and> sw_name s = n"
proof -
  have "distinct (map fst (rev (map (\<lambda>s. (sw_name s, s)) ss)))"
    using assms by (simp add: rev_map [symmetric] comp_def)
  then show ?thesis unfolding step_map_def by (auto simp: map_of_eq_Some_iff)
qed

text \<open>Each level of the recursion visits one more of the finitely many steps.\<close>

lemma visiting_measure:
  assumes "step_map ss n = Some s" "n \<notin> set visiting"
  shows "card (sw_name ` set ss - insert n (set visiting)) < card (sw_name ` set ss - set visiting)"
proof -
  have "n \<in> sw_name ` set ss" using step_map_name [OF assms(1)] by auto
  then show ?thesis using assms(2) by (intro psubset_card_mono) auto
qed

function calc_depth :: "string \<Rightarrow> step list \<Rightarrow> string \<Rightarrow> string list \<Rightarrow> depths \<Rightarrow> (run_failure, nat \<times> depths) result"
  and calc_deps :: "string \<Rightarrow> step list \<Rightarrow> string list \<Rightarrow> string list \<Rightarrow> depths \<Rightarrow> (run_failure, nat list \<times> depths) result"
where
  "calc_depth wname ss name visiting depths =
     (case map_of depths name of
        Some d \<Rightarrow> Inr (d, depths)
      | None \<Rightarrow> (case position name visiting of
            Some pos \<Rightarrow> Inl (FlowFailure (CircularDependency wname (str_join '' -> '' (drop pos visiting @ [name]))))
          | None \<Rightarrow> (case step_map ss name of
                None \<Rightarrow> Inl (Message (''Step '' @ quoted name @ '' not found in workflow''))
              | Some s \<Rightarrow>
                  if sw_depends_on s = [] then Inr (0, hm_upd name (\<lambda>_. 0) depths)
                  else (case calc_deps wname ss (sw_depends_on s) (visiting @ [name]) depths of
                      Inl e \<Rightarrow> Inl e
                    | Inr (ds, depths') \<Rightarrow>
                        let d = foldr max ds 0 + 1 in Inr (d, hm_upd name (\<lambda>_. d) depths')))))"
| "calc_deps wname ss [] visiting depths = Inr ([], depths)"
| "calc_deps wname ss (dep # deps) visiting depths =
     (case calc_depth wname ss dep visiting depths of
        Inl e \<Rightarrow> Inl e
      | Inr (d, depths') \<Rightarrow> (case calc_deps wname ss deps visiting depths' of
            Inl e \<Rightarrow> Inl e
          | Inr (ds, depths'') \<Rightarrow> Inr (d # ds, depths'')))"
  by pat_completeness auto

termination
  by (relation "inv_image (less_than <*lex*> less_than) (case_sum
      (\<lambda>(_, ss, _, visiting, _). (card (sw_name ` set ss - set visiting), 0))
      (\<lambda>(_, ss, deps, visiting, _). (card (sw_name ` set ss - set visiting), Suc (length deps))))")
    (auto simp: visiting_measure)

declare calc_depth.simps [simp del]

fun calc_all :: "string \<Rightarrow> step list \<Rightarrow> step list \<Rightarrow> depths \<Rightarrow> (run_failure, depths) result" where
  "calc_all wname ss [] depths = Inr depths"
| "calc_all wname ss (s # rest) depths =
     (case calc_depth wname ss (sw_name s) [] depths of
        Inl e \<Rightarrow> Inl e
      | Inr (_, depths') \<Rightarrow> calc_all wname ss rest depths')"

subsection \<open>Grouping\<close>

definition duplicate_steps :: "(depths \<Rightarrow> depths) \<Rightarrow> step list \<Rightarrow> string list" where
  "duplicate_steps order ss = map fst (filter (\<lambda>(_, count). 1 < count) (order (tally hm_upd (map sw_name ss) [])))"

definition check_known_deps :: "string \<Rightarrow> step list \<Rightarrow> (flow_error, unit) result" where
  "check_known_deps wname ss = for_all_ok (\<lambda>s. for_all_ok (\<lambda>dep.
     if step_map ss dep = None then Inl (MissingDependency wname (sw_name s) dep) else Inr ()) (sw_depends_on s)) ss"

definition check_min_deps :: "string \<Rightarrow> step list \<Rightarrow> (flow_error, unit) result" where
  "check_min_deps wname ss = for_all_ok (\<lambda>s. case sw_min_deps_success s of
       Some m \<Rightarrow> if 0 < m \<and> sw_depends_on s = [] then Inl (MinDepsSuccessWithoutDeps wname (sw_name s)) else Inr ()
     | None \<Rightarrow> Inr ()) ss"

definition push_level :: "string list list \<Rightarrow> string \<times> nat \<Rightarrow> string list list" where
  "push_level levels nd = levels[snd nd := levels ! snd nd @ [fst nd]]"

definition fill_levels :: "(depths \<Rightarrow> depths) \<Rightarrow> depths \<Rightarrow> string list list" where
  "fill_levels order depths =
     foldl push_level (replicate (foldr max (map snd depths) 0 + 1) []) (order depths)"

definition group_by_depth :: "(depths \<Rightarrow> depths) \<Rightarrow> step list \<Rightarrow> string \<Rightarrow> (run_failure, string list list) result" where
  "group_by_depth order ss wname =
     (let duplicates = duplicate_steps order ss in
      if duplicates \<noteq> [] then Inl (FlowFailure (DuplicateStepNames wname duplicates))
      else rbind (map_err FlowFailure (check_known_deps wname ss)) (\<lambda>_.
        rbind (map_err FlowFailure (check_min_deps wname ss)) (\<lambda>_.
          rbind (calc_all wname ss ss []) (\<lambda>depths. Inr (fill_levels order depths)))))"

subsection \<open>The depths that the search computes\<close>

definition depth_of :: "depths \<Rightarrow> string list \<Rightarrow> nat" where
  "depth_of m deps = (if deps = [] then 0 else foldr max (map (\<lambda>d. the (map_of m d)) deps) 0 + 1)"

definition depths_ok :: "step list \<Rightarrow> depths \<Rightarrow> bool" where
  "depths_ok ss m \<longleftrightarrow> hm_inv m \<and> (\<forall>n d. map_of m n = Some d \<longrightarrow> (\<exists>s. step_map ss n = Some s \<and>
     (\<forall>dep \<in> set (sw_depends_on s). map_of m dep \<noteq> None) \<and> d = depth_of m (sw_depends_on s)))"

definition extends_depths :: "string list \<Rightarrow> depths \<Rightarrow> depths \<Rightarrow> bool" where
  "extends_depths visiting m m' \<longleftrightarrow> map_of m \<subseteq>\<^sub>m map_of m' \<and>
     (\<forall>n \<in> set visiting. map_of m n = None \<longrightarrow> map_of m' n = None)"

lemma extends_refl [simp]: "extends_depths v m m"
  by (simp add: extends_depths_def)

lemma extends_trans: "extends_depths v a b \<Longrightarrow> extends_depths v b c \<Longrightarrow> extends_depths v a c"
  unfolding extends_depths_def by (blast intro: map_le_trans)

lemma depth_of_cong:
  assumes "map_of m \<subseteq>\<^sub>m map_of m'" "\<forall>dep \<in> set deps. map_of m dep \<noteq> None"
  shows "depth_of m' deps = depth_of m deps"
proof -
  have "map_of m' d = map_of m d" if "d \<in> set deps" for d
    using assms that unfolding map_le_def by (metis domIff)
  then have "map (\<lambda>d. the (map_of m' d)) deps = map (\<lambda>d. the (map_of m d)) deps" by simp
  then show ?thesis unfolding depth_of_def by (simp only:)
qed

lemma depths_ok_insert:
  assumes "depths_ok ss m" "map_of m n = None" "step_map ss n = Some s"
    and "\<forall>dep \<in> set (sw_depends_on s). map_of m dep \<noteq> None"
  shows "depths_ok ss (hm_upd n (\<lambda>_. depth_of m (sw_depends_on s)) m)" (is "depths_ok ss ?m'")
    and "map_of m \<subseteq>\<^sub>m map_of (hm_upd n (\<lambda>_. depth_of m (sw_depends_on s)) m)"
proof -
  have inv: "hm_inv m" using assms(1) by (simp add: depths_ok_def)
  have m': "map_of ?m' k = (if k = n then Some (depth_of m (sw_depends_on s)) else map_of m k)" for k
    using inv by (simp add: hm_map_of_upd)
  show le: "map_of m \<subseteq>\<^sub>m map_of ?m'" using assms(2) by (auto simp: map_le_def m')
  have "\<exists>t. step_map ss k = Some t \<and> (\<forall>dep \<in> set (sw_depends_on t). map_of ?m' dep \<noteq> None) \<and> d = depth_of ?m' (sw_depends_on t)"
    if k: "map_of ?m' k = Some d" for k d
  proof (cases "k = n")
    case True
    then show ?thesis using k assms(3,4) depth_of_cong [OF le, of "sw_depends_on s"] m' by auto
  next
    case False
    with k have "map_of m k = Some d" using m' by simp
    with assms(1) obtain t where t: "step_map ss k = Some t" "\<forall>dep \<in> set (sw_depends_on t). map_of m dep \<noteq> None"
      "d = depth_of m (sw_depends_on t)" unfolding depths_ok_def by blast
    then show ?thesis using depth_of_cong [OF le, of "sw_depends_on t"] m' by auto
  qed
  then show "depths_ok ss ?m'" unfolding depths_ok_def using hm_inv_upd [OF inv] by blast
qed

lemma map_Some_eq: "map f xs = map Some ys \<Longrightarrow> ys = map (\<lambda>x. the (f x)) xs \<and> (\<forall>x \<in> set xs. f x \<noteq> None)"
  by (induction xs arbitrary: ys) auto

lemma calc_sound:
  "\<lbrakk>calc_depth wname ss name visiting m = Inr (d, m'); depths_ok ss m\<rbrakk> \<Longrightarrow>
     depths_ok ss m' \<and> extends_depths visiting m m' \<and> map_of m' name = Some d"
  "\<lbrakk>calc_deps wname ss deps visiting m = Inr (ds, m'); depths_ok ss m\<rbrakk> \<Longrightarrow>
     depths_ok ss m' \<and> extends_depths visiting m m' \<and> map (map_of m') deps = map Some ds"
proof (induction wname ss name visiting m and wname ss deps visiting m arbitrary: d m' and ds m' rule: calc_depth_calc_deps.induct)
  case (1 wname ss name visiting depths)
  show ?case
  proof (cases "map_of depths name")
    case (Some a)
    with 1 show ?thesis by (simp add: calc_depth.simps)
  next
    case None
    with 1(2) obtain s where s: "name \<notin> set visiting" "step_map ss name = Some s"
      by (auto simp: calc_depth.simps split: option.splits)
    show ?thesis
    proof (cases "sw_depends_on s = []")
      case True
      with 1(2) s None have r: "d = depth_of depths (sw_depends_on s)" "m' = hm_upd name (\<lambda>_. depth_of depths (sw_depends_on s)) depths"
        by (simp_all add: calc_depth.simps depth_of_def)
      from depths_ok_insert [OF 1(3) None s(2)] True s(1) 1(3) show ?thesis
        unfolding r by (auto simp: extends_depths_def depths_ok_def hm_map_of_upd)
    next
      case False
      with 1(2) s None obtain ds m1 where c: "calc_deps wname ss (sw_depends_on s) (visiting @ [name]) depths = Inr (ds, m1)"
        "d = foldr max ds 0 + 1" "m' = hm_upd name (\<lambda>_. foldr max ds 0 + 1) m1"
        by (auto simp: calc_depth.simps Let_def split: sum.splits)
      from 1(1) [OF None _ s(2) False c(1) 1(3)] s(1) have ih: "depths_ok ss m1" "extends_depths (visiting @ [name]) depths m1"
        "map (map_of m1) (sw_depends_on s) = map Some ds" by simp_all
      have ds: "ds = map (\<lambda>d. the (map_of m1 d)) (sw_depends_on s)" "\<forall>dep \<in> set (sw_depends_on s). map_of m1 dep \<noteq> None"
        using map_Some_eq [OF ih(3)] by simp_all
      have r: "d = depth_of m1 (sw_depends_on s)" "m' = hm_upd name (\<lambda>_. depth_of m1 (sw_depends_on s)) m1"
        using c(2,3) False ds(1) by (simp_all add: depth_of_def)
      have "map_of m1 name = None" using ih(2) None by (simp add: extends_depths_def)
      from depths_ok_insert [OF ih(1) this s(2) ds(2)] ih(1,2) s(1) show ?thesis
        unfolding r by (auto simp: extends_depths_def depths_ok_def hm_map_of_upd intro: map_le_trans)
    qed
  qed
next
  case (2 wname ss visiting depths)
  then show ?case by simp
next
  case (3 wname ss dep deps visiting depths)
  from 3(3) obtain d1 m1 ds1 where c: "calc_depth wname ss dep visiting depths = Inr (d1, m1)"
    "calc_deps wname ss deps visiting m1 = Inr (ds1, m')" "ds = d1 # ds1"
    by (auto split: sum.splits)
  from 3(1) [OF c(1) 3(4)] have 1: "depths_ok ss m1" "extends_depths visiting depths m1" "map_of m1 dep = Some d1" by simp_all
  from 3(2) [OF c(1) refl c(2) 1(1)] have 2: "depths_ok ss m'" "extends_depths visiting m1 m'" "map (map_of m') deps = map Some ds1"
    by simp_all
  have "map_of m' dep = Some d1" using 1(3) 2(2) by (auto simp: extends_depths_def map_le_def dom_def)
  with 1 2 c(3) extends_trans show ?case by auto
qed

subsection \<open>Cycles\<close>

text \<open>The dependencies as a relation: a step and a step it depends on.\<close>

definition dep_rel :: "step list \<Rightarrow> (string \<times> string) set" where
  "dep_rel ss = {(n, dep). \<exists>s. step_map ss n = Some s \<and> dep \<in> set (sw_depends_on s)}"

definition dep_path :: "step list \<Rightarrow> string list \<Rightarrow> bool" where
  "dep_path ss = successively (\<lambda>a b. (a, b) \<in> dep_rel ss)"

definition closed_deps :: "step list \<Rightarrow> bool" where
  "closed_deps ss \<longleftrightarrow> (\<forall>s \<in> set ss. set (sw_depends_on s) \<subseteq> sw_name ` set ss)"

lemma dep_path_cycle: "dep_path ss (x # ys @ [z]) \<Longrightarrow> (x, z) \<in> (dep_rel ss)\<^sup>+"
proof (induction ys arbitrary: x)
  case (Cons y ys)
  then have "(x, y) \<in> dep_rel ss" "dep_path ss (y # ys @ [z])" by (simp_all add: dep_path_def)
  with Cons.IH show ?case by (blast intro: trancl_into_trancl2)
qed (auto simp: dep_path_def)

lemma dep_path_drop: "dep_path ss xs \<Longrightarrow> dep_path ss (drop i xs)"
proof -
  assume "dep_path ss xs"
  then have "dep_path ss (take i xs @ drop i xs)" by simp
  then show ?thesis unfolding dep_path_def successively_append_iff by simp
qed

definition reports_cycle :: "string \<Rightarrow> step list \<Rightarrow> run_failure \<Rightarrow> bool" where
  "reports_cycle wname ss e \<longleftrightarrow> (\<exists>x ys. e = FlowFailure (CircularDependency wname (str_join '' -> '' (x # ys @ [x]))) \<and>
     dep_path ss (x # ys @ [x]))"

lemma reports_cycle_cyclic: "reports_cycle wname ss e \<Longrightarrow> \<not> acyclic (dep_rel ss)"
  unfolding reports_cycle_def acyclic_def using dep_path_cycle by blast

lemma visiting_cycle:
  assumes "position name visiting = Some pos" "dep_path ss (visiting @ [name])"
  shows "reports_cycle wname ss (FlowFailure (CircularDependency wname (str_join '' -> '' (drop pos visiting @ [name]))))"
proof -
  from position_Some [OF assms(1)] have p: "drop pos visiting = name # drop (Suc pos) visiting" "pos < length visiting"
    by (auto simp: Cons_nth_drop_Suc)
  have "dep_path ss (drop pos (visiting @ [name]))" by (rule dep_path_drop [OF assms(2)])
  then have "dep_path ss (name # drop (Suc pos) visiting @ [name])" using p by simp
  then show ?thesis unfolding reports_cycle_def using p(1) by (intro exI [of _ name] exI [of _ "drop (Suc pos) visiting"]) simp
qed

lemma calc_error:
  "\<lbrakk>calc_depth wname ss name visiting m = Inl e; closed_deps ss; name \<in> sw_name ` set ss; dep_path ss (visiting @ [name])\<rbrakk> \<Longrightarrow>
     reports_cycle wname ss e"
  "\<lbrakk>calc_deps wname ss deps visiting m = Inl e; closed_deps ss; set deps \<subseteq> sw_name ` set ss;
     \<forall>dep \<in> set deps. dep_path ss (visiting @ [dep])\<rbrakk> \<Longrightarrow> reports_cycle wname ss e"
proof (induction wname ss name visiting m and wname ss deps visiting m rule: calc_depth_calc_deps.induct)
  case (1 wname ss name visiting depths)
  from 1(2) have new: "map_of depths name = None" by (cases "map_of depths name") (simp_all add: calc_depth.simps)
  obtain s where s: "step_map ss name = Some s" using 1(4) step_map_dom [of ss name] by (cases "step_map ss name") auto
  have closed: "set (sw_depends_on s) \<subseteq> sw_name ` set ss"
    using 1(3) step_map_name [OF s] by (auto simp: closed_deps_def)
  have path: "dep_path ss ((visiting @ [name]) @ [dep])" if "dep \<in> set (sw_depends_on s)" for dep
    using 1(5) that s unfolding dep_path_def successively_append_iff [of _ "visiting @ [name]"] by (auto simp: dep_rel_def)
  show ?case
  proof (cases "position name visiting")
    case None
    with 1(2) new s have "sw_depends_on s \<noteq> []" "calc_deps wname ss (sw_depends_on s) (visiting @ [name]) depths = Inl e"
      by (auto simp: calc_depth.simps Let_def split: if_splits sum.splits)
    from 1(1) [OF new None s this 1(3) closed] path show ?thesis by blast
  next
    case (Some pos)
    with 1(2) new have "e = FlowFailure (CircularDependency wname (str_join '' -> '' (drop pos visiting @ [name])))"
      by (simp add: calc_depth.simps)
    with visiting_cycle [OF Some 1(5)] show ?thesis by simp
  qed
next
  case (2 wname ss visiting depths)
  then show ?case by simp
next
  case (3 wname ss dep deps visiting depths)
  show ?case
  proof (cases "calc_depth wname ss dep visiting depths")
    case (Inl e')
    with 3(1,3-) show ?thesis by simp
  next
    case (Inr dm)
    obtain d1 m1 where dm: "dm = (d1, m1)" by (cases dm)
    with Inr 3(3) have "calc_deps wname ss deps visiting m1 = Inl e" by (auto split: sum.splits)
    from 3(2) [OF Inr dm [symmetric] this 3(4)] 3(5,6) show ?thesis by simp
  qed
qed

lemma calc_all_error:
  "\<lbrakk>calc_all wname ss todo m = Inl e; closed_deps ss; set todo \<subseteq> set ss\<rbrakk> \<Longrightarrow> reports_cycle wname ss e"
proof (induction todo arbitrary: m)
  case (Cons s todo)
  show ?case
  proof (cases "calc_depth wname ss (sw_name s) [] m")
    case (Inl e')
    with Cons.prems have "e' = e" by simp
    with Inl Cons.prems calc_error(1) [of wname ss "sw_name s" "[]" m e] show ?thesis by (auto simp: dep_path_def)
  next
    case (Inr dm)
    with Cons.prems Cons.IH [of "snd dm"] show ?thesis by (auto split: prod.splits)
  qed
qed simp

lemma calc_all_sound:
  "\<lbrakk>calc_all wname ss todo m = Inr m'; depths_ok ss m\<rbrakk> \<Longrightarrow>
     depths_ok ss m' \<and> map_of m \<subseteq>\<^sub>m map_of m' \<and> (\<forall>s \<in> set todo. map_of m' (sw_name s) \<noteq> None)"
proof (induction todo arbitrary: m)
  case (Cons s todo)
  then obtain d m1 where c: "calc_depth wname ss (sw_name s) [] m = Inr (d, m1)" "calc_all wname ss todo m1 = Inr m'"
    by (auto split: sum.splits)
  from calc_sound(1) [OF c(1) Cons.prems(2)] have 1: "depths_ok ss m1" "map_of m \<subseteq>\<^sub>m map_of m1" "map_of m1 (sw_name s) = Some d"
    by (simp_all add: extends_depths_def)
  from Cons.IH [OF c(2) 1(1)] have 2: "depths_ok ss m'" "map_of m1 \<subseteq>\<^sub>m map_of m'" "\<forall>s \<in> set todo. map_of m' (sw_name s) \<noteq> None" by simp_all
  have "map_of m' (sw_name s) = Some d" using 1(3) 2(2) by (auto simp: map_le_def dom_def)
  with 1 2 map_le_trans [OF 1(2) 2(2)] show ?case by auto
qed simp

lemma depths_ok_Nil: "depths_ok ss []"
  by (simp add: depths_ok_def hm_inv_facts)

text \<open>A complete map of depths: every step has one, above those of its dependencies.\<close>

lemma depths_complete:
  assumes "calc_all wname ss ss [] = Inr m"
  shows "hm_inv m" and "dom (map_of m) = sw_name ` set ss"
    and "step_map ss n = Some s \<Longrightarrow> map_of m n = Some (depth_of m (sw_depends_on s))"
    and "step_map ss n = Some s \<Longrightarrow> dep \<in> set (sw_depends_on s) \<Longrightarrow> map_of m dep \<noteq> None"
proof -
  from calc_all_sound [OF assms depths_ok_Nil] have m: "depths_ok ss m" "\<forall>s \<in> set ss. map_of m (sw_name s) \<noteq> None" by simp_all
  show "hm_inv m" using m(1) by (simp add: depths_ok_def)
  have known: "\<exists>s. step_map ss n = Some s \<and> (\<forall>dep \<in> set (sw_depends_on s). map_of m dep \<noteq> None) \<and> d = depth_of m (sw_depends_on s)"
    if "map_of m n = Some d" for n d
    using m(1) that unfolding depths_ok_def by blast
  show "dom (map_of m) = sw_name ` set ss"
  proof (rule set_eqI)
    fix n
    show "n \<in> dom (map_of m) \<longleftrightarrow> n \<in> sw_name ` set ss"
      using known [of n] m(2) step_map_name [of ss n] by (auto simp: dom_def)
  qed
  assume s: "step_map ss n = Some s"
  then obtain d where d: "map_of m n = Some d" using m(2) step_map_name [OF s] by auto
  from known [OF this] s have "(\<forall>dep \<in> set (sw_depends_on s). map_of m dep \<noteq> None) \<and> d = depth_of m (sw_depends_on s)" by simp
  with d show "map_of m n = Some (depth_of m (sw_depends_on s))" "dep \<in> set (sw_depends_on s) \<Longrightarrow> map_of m dep \<noteq> None"
    by auto
qed

lemma depth_above:
  assumes "dep \<in> set deps" "map_of m dep = Some d"
  shows "d < depth_of m deps"
proof -
  have "d \<in> set (map (\<lambda>d. the (map_of m d)) deps)" using assms by force
  then show ?thesis using assms(1) foldr_max_ge [of d "map (\<lambda>d. the (map_of m d)) deps"] by (auto simp: depth_of_def)
qed

lemma depth_attained:
  assumes "0 < depth_of m deps" "\<forall>dep \<in> set deps. map_of m dep \<noteq> None"
  shows "\<exists>dep \<in> set deps. map_of m dep = Some (depth_of m deps - 1)"
proof -
  have ne: "deps \<noteq> []" using assms(1) by (auto simp: depth_of_def)
  then have "foldr max (map (\<lambda>d. the (map_of m d)) deps) 0 \<in> set (map (\<lambda>d. the (map_of m d)) deps)"
    by (intro foldr_max_in) simp
  with ne assms(2) show ?thesis by (auto simp: depth_of_def)
qed

lemma complete_acyclic:
  assumes "calc_all wname ss ss [] = Inr m"
  shows "acyclic (dep_rel ss)"
proof -
  have "the (map_of m b) < the (map_of m a)" if "(a, b) \<in> dep_rel ss" for a b
  proof -
    from that obtain s where s: "step_map ss a = Some s" "b \<in> set (sw_depends_on s)" by (auto simp: dep_rel_def)
    with depths_complete(3,4) [OF assms s(1)] depth_above [OF s(2), of m] show ?thesis by auto
  qed
  then show ?thesis by (rule acyclicI_order)
qed

subsection \<open>The levels\<close>

lemma push_level_nth:
  "list_all (\<lambda>nd. snd nd < length levels) xs \<Longrightarrow>
     length (foldl push_level levels xs) = length levels \<and>
     (i < length levels \<longrightarrow> foldl push_level levels xs ! i = levels ! i @ map fst (filter (\<lambda>nd. snd nd = i) xs))"
proof (induction xs arbitrary: levels)
  case (Cons x xs)
  from Cons.IH [of "push_level levels x"] Cons.prems show ?case by (auto simp: push_level_def)
qed simp

lemma fill_levels_nth:
  assumes "mset (order m) = mset m"
  shows "length (fill_levels order m) = foldr max (map snd m) 0 + 1"
    and "i < length (fill_levels order m) \<Longrightarrow> fill_levels order m ! i = map fst (filter (\<lambda>nd. snd nd = i) (order m))"
proof -
  have "list_all (\<lambda>nd. snd nd < length (replicate (foldr max (map snd m) 0 + 1) ([] :: string list))) (order m)"
    using mset_eq_setD [OF assms] foldr_max_ge [of _ "map snd m"] by (auto simp: list_all_iff le_imp_less_Suc)
  note this [THEN push_level_nth]
  then show "length (fill_levels order m) = foldr max (map snd m) 0 + 1"
    "i < length (fill_levels order m) \<Longrightarrow> fill_levels order m ! i = map fst (filter (\<lambda>nd. snd nd = i) (order m))"
    unfolding fill_levels_def by (auto simp del: replicate_Suc replicate.simps)
qed

lemma level_iff:
  assumes "\<forall>xs. mset (order xs) = mset xs" "hm_inv m" "i < length (fill_levels order m)"
  shows "n \<in> set (fill_levels order m ! i) \<longleftrightarrow> map_of m n = Some i"
proof -
  have "set (order m) = set m" using assms(1) mset_eq_setD by blast
  moreover have "distinct (map fst m)" using assms(2) by (simp add: hm_inv_def)
  ultimately show ?thesis using assms(1,3) by (force simp: fill_levels_nth map_of_eq_Some_iff)
qed

lemma level_bound:
  assumes "\<forall>xs. mset (order xs) = mset xs" "map_of m n = Some i"
  shows "i < length (fill_levels order m)"
proof -
  from assms(2) have "i \<in> set (map snd m)" by (force dest: map_of_SomeD)
  then show ?thesis using assms(1) foldr_max_ge by (simp add: fill_levels_nth le_imp_less_Suc)
qed

lemma level_distinct:
  assumes "\<forall>xs. mset (order xs) = mset xs" "hm_inv m" "i < length (fill_levels order m)"
  shows "distinct (fill_levels order m ! i)"
proof -
  have "mset (map fst (order m)) = mset (map fst m)" using assms(1) by simp
  then have "distinct (map fst (order m))" using assms(2) unfolding hm_inv_def by (metis mset_eq_imp_distinct_iff)
  then have "distinct (map fst (filter (\<lambda>nd. snd nd = i) (order m)))" by (rule distinct_map_filter)
  with assms(1,3) show ?thesis by (simp add: fill_levels_nth)
qed

lemma distinct_count: "distinct xs \<longleftrightarrow> (\<forall>x. count_list xs x \<le> 1)"
proof (induction xs)
  case (Cons a xs)
  have "(\<forall>x. count_list (a # xs) x \<le> 1) \<longleftrightarrow> count_list xs a = 0 \<and> (\<forall>x. count_list xs x \<le> 1)"
    by (metis One_nat_def Suc_le_mono count_list.simps(2) le_zero_eq bot_nat_0.extremum add_eq_if nat_le_linear plus_1_eq_Suc add.commute)
  with Cons show ?case by (simp add: count_list_0_iff)
qed simp

lemma no_duplicates:
  assumes "\<forall>xs. mset (order xs) = mset xs"
  shows "duplicate_steps order ss = [] \<longleftrightarrow> distinct (map sw_name ss)"
proof -
  have "set (order xs) = set xs" for xs using assms mset_eq_setD by blast
  then have "duplicate_steps order ss = [] \<longleftrightarrow> (\<forall>k n. (k, n) \<in> set (tally hm_upd (map sw_name ss) []) \<longrightarrow> n \<le> 1)"
    by (fastforce simp: duplicate_steps_def filter_empty_conv not_less)
  also have "\<dots> \<longleftrightarrow> (\<forall>k \<in> set (map sw_name ss). count_list (map sw_name ss) k \<le> 1)"
    by (simp only: hm_count.tally_entries) blast
  also have "\<dots> \<longleftrightarrow> (\<forall>k. count_list (map sw_name ss) k \<le> 1)"
    by (metis count_notin zero_le)
  finally show ?thesis by (simp only: distinct_count)
qed

lemma distinct_concat_nth:
  assumes "\<And>i. i < length xss \<Longrightarrow> distinct (xss ! i)"
    and "\<And>i j. i < length xss \<Longrightarrow> j < length xss \<Longrightarrow> i \<noteq> j \<Longrightarrow> set (xss ! i) \<inter> set (xss ! j) = {}"
  shows "distinct (concat xss)"
  using assms
proof (induction xss)
  case (Cons xs xss)
  have "set xs \<inter> set (xss ! i) = {}" if "i < length xss" for i using Cons.prems(2) [of 0 "Suc i"] that by simp
  then have "set xs \<inter> set (concat xss) = {}" by (fastforce simp: in_set_conv_nth)
  moreover have "distinct (concat xss)"
    using Cons.prems(1) [of "Suc _"] Cons.prems(2) [of "Suc _" "Suc _"] by (intro Cons.IH) auto
  ultimately show ?case using Cons.prems(1) [of 0] by simp
qed simp

lemma dep_rel_distinct:
  "distinct (map sw_name ss) \<Longrightarrow> dep_rel ss = {(sw_name s, dep) | s dep. s \<in> set ss \<and> dep \<in> set (sw_depends_on s)}"
  by (auto simp: dep_rel_def step_map_distinct)

lemma known_deps_iff: "check_known_deps wname ss = Inr () \<longleftrightarrow> closed_deps ss"
  by (auto simp: check_known_deps_def for_all_ok_iff list_all_iff closed_deps_def step_map_dom split: if_splits)

definition min_deps_ok :: "step list \<Rightarrow> bool" where
  "min_deps_ok ss \<longleftrightarrow> (\<forall>s \<in> set ss. \<forall>m. sw_min_deps_success s = Some m \<longrightarrow> 0 < m \<longrightarrow> sw_depends_on s \<noteq> [])"

lemma min_deps_iff: "check_min_deps wname ss = Inr () \<longleftrightarrow> min_deps_ok ss"
  by (auto simp: check_min_deps_def for_all_ok_iff list_all_iff min_deps_ok_def split: if_splits option.splits)

lemma group_by_depth_Inr:
  assumes "\<forall>xs. mset (order xs) = mset xs"
  shows "group_by_depth order ss wname = Inr levels \<longleftrightarrow>
    distinct (map sw_name ss) \<and> closed_deps ss \<and> min_deps_ok ss \<and>
    (\<exists>m. calc_all wname ss ss [] = Inr m \<and> levels = fill_levels order m)"
proof -
  have unit: "map_err FlowFailure r = Inr x \<longleftrightarrow> r = Inr ()" for r :: "(flow_error, unit) result" and x by (cases r) auto
  show ?thesis
    using no_duplicates [OF assms, of ss]
    by (auto simp: group_by_depth_def Let_def rbind_Inr unit known_deps_iff min_deps_iff)
qed

text \<open>
  C15: The steps of a workflow can be scheduled exactly when their names are distinct, every dependency
  is a step, a step that asks for successful dependencies has some, and no step depends on itself
  through others.
\<close>

theorem schedulable_iff:
  assumes "\<forall>xs. mset (order xs) = mset xs"
  shows "is_ok (group_by_depth order ss wname) \<longleftrightarrow>
    distinct (map sw_name ss) \<and> closed_deps ss \<and> min_deps_ok ss \<and>
    acyclic {(sw_name s, dep) | s dep. s \<in> set ss \<and> dep \<in> set (sw_depends_on s)}"
proof -
  have "(\<exists>m. calc_all wname ss ss [] = Inr m) \<longleftrightarrow> acyclic (dep_rel ss)" if "closed_deps ss"
  proof (cases "calc_all wname ss ss []")
    case (Inl e)
    from reports_cycle_cyclic [OF calc_all_error [OF Inl that subset_refl]] Inl show ?thesis by simp
  next
    case (Inr m)
    with complete_acyclic [OF Inr] show ?thesis by simp
  qed
  then show ?thesis
    using group_by_depth_Inr [OF assms] dep_rel_distinct [of ss] by (auto simp: is_ok_iff)
qed

lemma group_levels_ok:
  assumes "\<forall>xs. mset (order xs) = mset xs" "group_by_depth order ss wname = Inr levels"
  shows "distinct (concat levels) \<and> set (concat levels) = sw_name ` set ss \<and>
    (\<forall>i < length levels. \<forall>s \<in> set ss. sw_name s \<in> set (levels ! i) \<longrightarrow>
       (\<forall>dep \<in> set (sw_depends_on s). \<exists>j < i. dep \<in> set (levels ! j)) \<and>
       (0 < i \<longrightarrow> (\<exists>dep \<in> set (sw_depends_on s). dep \<in> set (levels ! (i - 1)))))"
proof -
  from assms(2) obtain m where m: "calc_all wname ss ss [] = Inr m" "levels = fill_levels order m" "distinct (map sw_name ss)"
    unfolding group_by_depth_Inr [OF assms(1)] by blast
  note facts = depths_complete [OF m(1)]
  have mem: "n \<in> set (levels ! i) \<longleftrightarrow> map_of m n = Some i" if "i < length levels" for n i
    using level_iff [OF assms(1) facts(1)] that unfolding m(2) by blast
  have bound: "map_of m n = Some i \<Longrightarrow> i < length levels" for n i
    using level_bound [OF assms(1)] unfolding m(2) by blast
  have "distinct (concat levels)"
  proof (rule distinct_concat_nth)
    show "\<And>i. i < length levels \<Longrightarrow> distinct (levels ! i)"
      using level_distinct [OF assms(1) facts(1)] unfolding m(2) .
    show "\<And>i j. i < length levels \<Longrightarrow> j < length levels \<Longrightarrow> i \<noteq> j \<Longrightarrow> set (levels ! i) \<inter> set (levels ! j) = {}"
      using mem by auto
  qed
  moreover have "set (concat levels) = dom (map_of m)"
  proof (rule set_eqI)
    fix n
    have "n \<in> set (concat levels) \<longleftrightarrow> (\<exists>i < length levels. n \<in> set (levels ! i))"
      by (simp only: set_concat UN_iff bex_simps set_conv_nth [of levels]) blast
    also have "\<dots> \<longleftrightarrow> (\<exists>i. map_of m n = Some i)" using mem bound by blast
    finally show "n \<in> set (concat levels) \<longleftrightarrow> n \<in> dom (map_of m)" by (simp only: dom_def mem_Collect_eq option.exhaust_sel not_None_eq)
  qed
  moreover have "(\<forall>dep \<in> set (sw_depends_on s). \<exists>j < i. dep \<in> set (levels ! j)) \<and>
      (0 < i \<longrightarrow> (\<exists>dep \<in> set (sw_depends_on s). dep \<in> set (levels ! (i - 1))))"
    if i: "i < length levels" "s \<in> set ss" "sw_name s \<in> set (levels ! i)" for i s
  proof -
    have s: "step_map ss (sw_name s) = Some s" using i(2) m(3) by (simp add: step_map_distinct)
    have d: "i = depth_of m (sw_depends_on s)" using i(3) facts(3) [OF s] mem [OF i(1)] by simp
    have "\<exists>j < i. dep \<in> set (levels ! j)" if on: "dep \<in> set (sw_depends_on s)" for dep
    proof -
      obtain j where j: "map_of m dep = Some j" using facts(4) [OF s on] by auto
      with depth_above [OF on j] mem [OF bound [OF j]] show ?thesis unfolding d by auto
    qed
    moreover have "\<exists>dep \<in> set (sw_depends_on s). dep \<in> set (levels ! (i - 1))" if pos: "0 < i"
    proof -
      obtain dep where dep: "dep \<in> set (sw_depends_on s)" "map_of m dep = Some (i - 1)"
        using depth_attained [of m "sw_depends_on s"] facts(4) [OF s] pos unfolding d by blast
      then show ?thesis using mem [OF bound [OF dep(2)]] by blast
    qed
    ultimately show ?thesis by blast
  qed
  ultimately show ?thesis using facts(2) by blast
qed

text \<open>
  C14: The levels hold every step once. The dependencies of a step are all on lower levels, and one of
  them on the level just below: a step runs as early as its dependencies allow.
\<close>

theorem levels_topological:
  assumes "\<forall>xs. mset (order xs) = mset xs" "group_by_depth order ss wname = Inr levels"
  shows "distinct (concat levels) \<and> set (concat levels) = sw_name ` set ss \<and>
    (\<forall>i < length levels. \<forall>s \<in> set ss. sw_name s \<in> set (levels ! i) \<longrightarrow>
       (\<forall>dep \<in> set (sw_depends_on s). \<exists>j < i. dep \<in> set (levels ! j)) \<and>
       (0 < i \<longrightarrow> (\<exists>dep \<in> set (sw_depends_on s). dep \<in> set (levels ! (i - 1)))))"
  by (rule group_levels_ok [OF assms])

text \<open>
  A cycle that is reported is one: each of its steps depends on the next, and it ends where it began.\<close>

theorem reported_cycle_real:
  assumes "\<forall>xs. mset (order xs) = mset xs" "group_by_depth order ss wname = Inl (FlowFailure (CircularDependency w chain))"
  shows "\<exists>x ys. chain = str_join '' -> '' (x # ys @ [x]) \<and>
    successively (\<lambda>a b. \<exists>s \<in> set ss. sw_name s = a \<and> b \<in> set (sw_depends_on s)) (x # ys @ [x])"
proof -
  let ?e = "FlowFailure (CircularDependency w chain)"
  have no: "map_err FlowFailure (check_known_deps wname ss) \<noteq> Inl ?e" "map_err FlowFailure (check_min_deps wname ss) \<noteq> Inl ?e"
    unfolding check_known_deps_def check_min_deps_def
    by (auto simp: map_err_def split: sum.splits if_splits option.splits dest!: for_all_ok_Inl)
  have known: "closed_deps ss" if "map_err FlowFailure (check_known_deps wname ss) = Inr x" for x
    using that known_deps_iff [of wname ss] by (cases "check_known_deps wname ss") auto
  have "closed_deps ss \<and> calc_all wname ss ss [] = Inl ?e"
    using assms(2) no known
    by (cases "map_err FlowFailure (check_known_deps wname ss)"; cases "map_err FlowFailure (check_min_deps wname ss)";
        cases "calc_all wname ss ss []") (auto simp: group_by_depth_def Let_def split: if_splits)
  then have "reports_cycle wname ss ?e" using calc_all_error by blast
  then obtain x ys where c: "chain = str_join '' -> '' (x # ys @ [x])" "dep_path ss (x # ys @ [x])"
    unfolding reports_cycle_def by auto
  have "successively (\<lambda>a b. \<exists>s \<in> set ss. sw_name s = a \<and> b \<in> set (sw_depends_on s)) (x # ys @ [x])"
    using c(2) unfolding dep_path_def
    by (rule successively_mono) (auto simp: dep_rel_def dest: step_map_name)
  with c(1) show ?thesis by blast
qed

subsection \<open>Examples\<close>

definition demo_steps :: "step list" where
  "demo_steps = [demo_step ''c'' [''a'', ''b''], demo_step ''b'' [''a''], demo_step ''a'' []]"

lemma demo_levels: "group_by_depth rev demo_steps ''w'' = Inr [[''a''], [''b''], [''c'']]"
  by code_simp

definition demo_cycle :: "step list" where
  "demo_cycle = [demo_step ''a'' [''b''], demo_step ''b'' [''a'']]"

lemma demo_cycle_found:
  "group_by_depth rev demo_cycle ''w'' = Inl (FlowFailure (CircularDependency ''w'' ''a -> b -> a''))"
  by code_simp

theorem schedulable_iff_witness:
  "acyclic {(sw_name s, dep) | s dep. s \<in> set demo_steps \<and> dep \<in> set (sw_depends_on s)} \<and>
   \<not> is_ok (group_by_depth rev demo_cycle ''w'')"
  using schedulable_iff [of rev demo_steps "''w''"] demo_levels demo_cycle_found by simp

theorem levels_topological_witness:
  "\<exists>levels. group_by_depth rev demo_steps ''w'' = Inr levels \<and> set (concat levels) = sw_name ` set demo_steps"
  using levels_topological [of rev demo_steps "''w''" "[[''a''], [''b''], [''c'']]"] demo_levels
  by (intro exI [of _ "[[''a''], [''b''], [''c'']]"]) simp

theorem reported_cycle_real_witness:
  "\<exists>x ys. ''a -> b -> a'' = str_join '' -> '' (x # ys @ [x])"
  using reported_cycle_real [of rev demo_cycle "''w''" "''w''" "''a -> b -> a''"] demo_cycle_found by auto

end
