(* ===== verification/Markers.thy ===== *)
theory Markers
  imports ManifestStore
begin

text \<open>
  \<open>src/run_state/markers.rs\<close>: the markers of a phase's life in a run directory, and the number of
  its next attempt. The clock, the process number and the environment variables are arguments.
\<close>

subsection \<open>Markers\<close>

record hitl_context =
  hm_severity :: string
  hm_timeout_at :: "string option"
  hm_timeout_action :: string
  hm_timeout_outcome :: string

record started_marker =
  sk_phase :: string
  sk_attempt :: "32 word"
  sk_started_at :: int
  sk_pid :: "32 word"
  sk_host :: string
  sk_ttl :: "32 word"

record completed_marker =
  ck_phase :: string
  ck_attempt :: "32 word"
  ck_completed_at :: int
  ck_sha256 :: string
  ck_artefacts :: "string list"
  ck_hitl :: "hitl_context option"

record failed_marker =
  fk_phase :: string
  fk_attempts_made :: "32 word"
  fk_failed_at :: int
  fk_error_class :: string
  fk_last_attempt_path :: string
  fk_hitl :: "hitl_context option"

datatype marker_error = MkIo io_error | MkJson serde_error

record clock_env =
  ce_now :: int
  ce_pid :: "32 word"
  ce_var :: "string \<Rightarrow> string option"

definition hostname :: "clock_env \<Rightarrow> string" where
  "hostname env = unwrap_or ''unknown'' (or_else (ce_var env ''HOSTNAME'') (ce_var env ''HOST''))"

definition hitl_json :: "hitl_context \<Rightarrow> json" where
  "hitl_json h = JObj [(''severity'', JStr (hm_severity h)), (''timeout_at'', str_opt_json (hm_timeout_at h)),
     (''timeout_action'', JStr (hm_timeout_action h)), (''timeout_outcome'', JStr (hm_timeout_outcome h))]"

definition started_json :: "libs \<Rightarrow> started_marker \<Rightarrow> json" where
  "started_json L m = JObj [(''phase'', JStr (sk_phase m)), (''attempt'', word_json (sk_attempt m)),
     (''started_at'', JStr (lb_time_show L (sk_started_at m))), (''writer_pid'', word_json (sk_pid m)),
     (''writer_host'', JStr (sk_host m)), (''heartbeat_ttl_seconds'', word_json (sk_ttl m))]"

definition completed_json :: "libs \<Rightarrow> completed_marker \<Rightarrow> json" where
  "completed_json L m = JObj ([(''phase'', JStr (ck_phase m)), (''attempt'', word_json (ck_attempt m)),
     (''completed_at'', JStr (lb_time_show L (ck_completed_at m))), (''manifest_entry_sha256'', JStr (ck_sha256 m)),
     (''artefact_paths'', JArr (map JStr (ck_artefacts m)))] @
     (case ck_hitl m of None \<Rightarrow> [] | Some h \<Rightarrow> [(''hitl'', hitl_json h)]))"

definition failed_json :: "libs \<Rightarrow> failed_marker \<Rightarrow> json" where
  "failed_json L m = JObj ([(''phase'', JStr (fk_phase m)), (''attempts_made'', word_json (fk_attempts_made m)),
     (''failed_at'', JStr (lb_time_show L (fk_failed_at m))), (''error_class'', JStr (fk_error_class m)),
     (''last_attempt_path'', JStr (fk_last_attempt_path m))] @
     (case fk_hitl m of None \<Rightarrow> [] | Some h \<Rightarrow> [(''hitl'', hitl_json h)]))"

definition started_fields :: "string list" where
  "started_fields = [''phase'', ''attempt'', ''started_at'', ''writer_pid'', ''writer_host'', ''heartbeat_ttl_seconds'']"

fun read_started :: "libs \<Rightarrow> json \<Rightarrow> (serde_error, started_marker) result" where
  "read_started L (JObj m) =
     rbind (fields_ok started_fields m) (\<lambda>_.
     rbind (required ''phase'' as_str m) (\<lambda>phase.
     rbind (required ''attempt'' as_u32 m) (\<lambda>attempt.
     rbind (required ''started_at'' (as_time L) m) (\<lambda>t.
     rbind (required ''writer_pid'' as_u32 m) (\<lambda>pid.
     rbind (required ''writer_host'' as_str m) (\<lambda>host.
     rbind (required ''heartbeat_ttl_seconds'' as_u32 m) (\<lambda>ttl.
       Inr \<lparr>sk_phase = phase, sk_attempt = attempt, sk_started_at = t, sk_pid = pid, sk_host = host, sk_ttl = ttl\<rparr>)))))))"
| "read_started L _ = Inl (InvalidValue ''marker'')"

subsection \<open>Writing\<close>

definition markers_dir :: "dir \<Rightarrow> dir" where
  "markers_dir run_dir = pjoin run_dir ''markers''"

definition marker_name :: "string \<Rightarrow> string \<Rightarrow> 32 word option \<Rightarrow> string" where
  "marker_name phase st attempt =
     (case attempt of
        Some a \<Rightarrow> phase @ ''.'' @ st @ ''.'' @ nat_str (unat a)
      | None \<Rightarrow> phase @ ''.'' @ st)"

definition marker_path :: "dir \<Rightarrow> string \<Rightarrow> string \<Rightarrow> 32 word option \<Rightarrow> dir" where
  "marker_path run_dir phase st attempt = pjoin (markers_dir run_dir) (marker_name phase st attempt)"

definition write_marker ::
  "libs \<Rightarrow> 'w disk_ops \<Rightarrow> dir \<Rightarrow> string \<Rightarrow> string \<Rightarrow> 32 word option \<Rightarrow> json \<Rightarrow> 'w \<Rightarrow>
     (marker_error, unit) result \<times> 'w" where
  "write_marker L ops run_dir phase st attempt body w =
     (case do_mkdirs ops (markers_dir run_dir) w of
        (Inl e, w1) \<Rightarrow> (Inl (MkIo e), w1)
      | (Inr _, w1) \<Rightarrow> (case atomic_write ops (marker_path run_dir phase st attempt) (js_show (lb_json L) body) w1 of
            (r, w2) \<Rightarrow> (map_err MkIo r, w2)))"

definition write_started ::
  "libs \<Rightarrow> 'w disk_ops \<Rightarrow> clock_env \<Rightarrow> dir \<Rightarrow> string \<Rightarrow> 32 word \<Rightarrow> 'w \<Rightarrow> (marker_error, started_marker) result \<times> 'w" where
  "write_started L ops env run_dir phase attempt w =
     (let m = \<lparr>sk_phase = phase, sk_attempt = attempt, sk_started_at = ce_now env, sk_pid = ce_pid env,
               sk_host = hostname env, sk_ttl = 300\<rparr>
      in case write_marker L ops run_dir phase ''started'' (Some attempt) (started_json L m) w of
           (r, w') \<Rightarrow> (rbind r (\<lambda>_. Inr m), w'))"

definition write_completed ::
  "libs \<Rightarrow> 'w disk_ops \<Rightarrow> clock_env \<Rightarrow> dir \<Rightarrow> string \<Rightarrow> 32 word \<Rightarrow> string \<Rightarrow> string list \<Rightarrow> hitl_context option \<Rightarrow> 'w \<Rightarrow>
     (marker_error, completed_marker) result \<times> 'w" where
  "write_completed L ops env run_dir phase attempt sha artefacts hitl w =
     (let m = \<lparr>ck_phase = phase, ck_attempt = attempt, ck_completed_at = ce_now env, ck_sha256 = sha,
               ck_artefacts = artefacts, ck_hitl = hitl\<rparr>
      in case write_marker L ops run_dir phase ''completed'' None (completed_json L m) w of
           (r, w') \<Rightarrow> (rbind r (\<lambda>_. Inr m), w'))"

definition write_failed ::
  "libs \<Rightarrow> 'w disk_ops \<Rightarrow> clock_env \<Rightarrow> dir \<Rightarrow> string \<Rightarrow> 32 word \<Rightarrow> string \<Rightarrow> string \<Rightarrow> hitl_context option \<Rightarrow> 'w \<Rightarrow>
     (marker_error, failed_marker) result \<times> 'w" where
  "write_failed L ops env run_dir phase attempts_made cls last_path hitl w =
     (let m = \<lparr>fk_phase = phase, fk_attempts_made = attempts_made, fk_failed_at = ce_now env,
               fk_error_class = cls, fk_last_attempt_path = last_path, fk_hitl = hitl\<rparr>
      in case write_marker L ops run_dir phase ''failed'' None (failed_json L m) w of
           (r, w') \<Rightarrow> (rbind r (\<lambda>_. Inr m), w'))"

subsection \<open>The next attempt\<close>

text \<open>The loops keep the greatest number seen; the successor wraps in a release build.\<close>

definition max_opt :: "32 word option \<Rightarrow> 32 word \<Rightarrow> 32 word option" where
  "max_opt m a = (case m of None \<Rightarrow> Some a | Some x \<Rightarrow> if a > x then Some a else Some x)"

definition succ_or_zero :: "32 word option \<Rightarrow> 32 word" where
  "succ_or_zero m = (case m of None \<Rightarrow> 0 | Some x \<Rightarrow> x + 1)"

fun max_started ::
  "libs \<Rightarrow> reader \<Rightarrow> dir \<Rightarrow> string \<Rightarrow> string list \<Rightarrow> 32 word option \<Rightarrow> (marker_error, 32 word option) result" where
  "max_started L rd d started_prefix [] m = Inr m"
| "max_started L rd d started_prefix (n # ns) m =
     (if \<not> starts_with n started_prefix then max_started L rd d started_prefix ns m
      else case rd_read rd (d @ [Normal n]) of
          Inl e \<Rightarrow> Inl (MkIo e)
        | Inr content \<Rightarrow> (case js_parse (lb_json L) content of
              Inl e \<Rightarrow> Inl (MkJson (JsonSyntax e))
            | Inr v \<Rightarrow> (case read_started L v of
                  Inl e \<Rightarrow> Inl (MkJson e)
                | Inr k \<Rightarrow> max_started L rd d started_prefix ns (max_opt m (sk_attempt k)))))"

definition next_attempt_from_markers :: "libs \<Rightarrow> reader \<Rightarrow> dir \<Rightarrow> string \<Rightarrow> (marker_error, 32 word) result" where
  "next_attempt_from_markers L rd d phase =
     (case rd_list rd d of
        Inl NotFound \<Rightarrow> Inr 0
      | Inl e \<Rightarrow> Inl (MkIo e)
      | Inr names \<Rightarrow> (case max_started L rd d (phase @ ''.started.'') names None of
            Inl e \<Rightarrow> Inl e
          | Inr m \<Rightarrow> Inr (succ_or_zero m)))"

text \<open>\<open>str::parse::<u32>\<close>: digits, an optional plus sign before them, no overflow.\<close>

fun digits_value :: "nat \<Rightarrow> string \<Rightarrow> nat option" where
  "digits_value v [] = Some v"
| "digits_value v (c # cs) =
     (let n = (of_char c :: nat) in
      if 48 \<le> n \<and> n \<le> 57 then digits_value (10 * v + (n - 48)) cs else None)"

definition parse_u32 :: "string \<Rightarrow> 32 word option" where
  "parse_u32 s = (let ds = unwrap_or s (strip_prefix ''+'' s) in
     if ds = [] then None
     else case digits_value 0 ds of Some v \<Rightarrow> if v < 2 ^ 32 then Some (of_nat v) else None | None \<Rightarrow> None)"

fun max_dir :: "reader \<Rightarrow> dir \<Rightarrow> string list \<Rightarrow> 32 word option \<Rightarrow> 32 word option" where
  "max_dir rd d [] m = m"
| "max_dir rd d (n # ns) m =
     (if \<not> rd_is_dir rd (d @ [Normal n]) then max_dir rd d ns m
      else case parse_u32 n of
          None \<Rightarrow> max_dir rd d ns m
        | Some a \<Rightarrow> max_dir rd d ns (max_opt m a))"

definition next_attempt_from_dirs :: "reader \<Rightarrow> dir \<Rightarrow> (marker_error, 32 word) result" where
  "next_attempt_from_dirs rd d =
     (case rd_list rd d of
        Inl NotFound \<Rightarrow> Inr 0
      | Inl e \<Rightarrow> Inl (MkIo e)
      | Inr names \<Rightarrow> Inr (succ_or_zero (max_dir rd d names None)))"

definition next_attempt :: "libs \<Rightarrow> reader \<Rightarrow> dir \<Rightarrow> string \<Rightarrow> (marker_error, 32 word) result" where
  "next_attempt L rd run_dir phase =
     rbind (next_attempt_from_markers L rd (markers_dir run_dir) phase) (\<lambda>marker_max.
     rbind (next_attempt_from_dirs rd (pjoin (pjoin run_dir ''attempts'') phase)) (\<lambda>dir_max.
       Inr (max marker_max dir_max)))"

subsection \<open>Freshness\<close>

definition opt_le :: "32 word option \<Rightarrow> 32 word option \<Rightarrow> bool" where
  "opt_le m m' \<longleftrightarrow> (\<forall>a. m = Some a \<longrightarrow> (\<exists>b. m' = Some b \<and> a \<le> b))"

lemma opt_le_refl [simp]: "opt_le m m"
  by (simp add: opt_le_def)

lemma opt_le_trans: "opt_le a b \<Longrightarrow> opt_le b c \<Longrightarrow> opt_le a c"
  unfolding opt_le_def by (metis order_trans)

lemma opt_le_max: "opt_le m (max_opt m a)" "opt_le (Some a) (max_opt m a)"
  by (auto simp: opt_le_def max_opt_def split: option.splits)

text \<open>The attempts a directory of markers records for a phase, and those an attempts directory does.\<close>

definition marked_attempt :: "libs \<Rightarrow> reader \<Rightarrow> dir \<Rightarrow> string \<Rightarrow> string list \<Rightarrow> 32 word \<Rightarrow> bool" where
  "marked_attempt L rd d started_prefix names a \<longleftrightarrow>
     (\<exists>n content v k. n \<in> set names \<and> starts_with n started_prefix \<and> rd_read rd (d @ [Normal n]) = Inr content \<and>
        js_parse (lb_json L) content = Inr v \<and> read_started L v = Inr k \<and> sk_attempt k = a)"

definition dir_attempt :: "reader \<Rightarrow> dir \<Rightarrow> string list \<Rightarrow> 32 word \<Rightarrow> bool" where
  "dir_attempt rd d names a \<longleftrightarrow> (\<exists>n \<in> set names. rd_is_dir rd (d @ [Normal n]) \<and> parse_u32 n = Some a)"

lemma max_started_bound:
  assumes "max_started L rd d pre names m = Inr m'"
  shows "opt_le m m' \<and> (\<forall>a. marked_attempt L rd d pre names a \<longrightarrow> opt_le (Some a) m') \<and>
    (m' = m \<or> (\<exists>a. m' = Some a \<and> marked_attempt L rd d pre names a))"
  using assms
proof (induction names arbitrary: m)
  case (Cons n ns)
  have weak: "marked_attempt L rd d pre ns a \<Longrightarrow> marked_attempt L rd d pre (n # ns) a" for a
    unfolding marked_attempt_def by auto
  show ?case
  proof (cases "starts_with n pre")
    case False
    then have "max_started L rd d pre ns m = Inr m'" using Cons.prems by simp
    moreover have "marked_attempt L rd d pre (n # ns) a \<longleftrightarrow> marked_attempt L rd d pre ns a" for a
      using False unfolding marked_attempt_def by auto
    ultimately show ?thesis using Cons.IH by simp
  next
    case True
    with Cons.prems obtain content v k where k: "rd_read rd (d @ [Normal n]) = Inr content"
      "js_parse (lb_json L) content = Inr v" "read_started L v = Inr k"
      "max_started L rd d pre ns (max_opt m (sk_attempt k)) = Inr m'"
      by (auto split: sum.splits)
    have here: "marked_attempt L rd d pre (n # ns) (sk_attempt k)"
      unfolding marked_attempt_def using True k by auto
    have split: "marked_attempt L rd d pre (n # ns) a \<longleftrightarrow> a = sk_attempt k \<or> marked_attempt L rd d pre ns a" for a
      unfolding marked_attempt_def using True k by auto
    note ih = Cons.IH [OF k(4)]
    have "opt_le m m'" "opt_le (Some (sk_attempt k)) m'"
      using ih opt_le_trans [OF opt_le_max(1)] opt_le_trans [OF opt_le_max(2)] by blast+
    moreover have "m' = m \<or> (\<exists>a. m' = Some a \<and> marked_attempt L rd d pre (n # ns) a)"
      using ih here weak by (auto simp: max_opt_def split: option.splits if_splits)
    ultimately show ?thesis using ih split by auto
  qed
qed (simp add: marked_attempt_def)

lemma max_dir_bound:
  "opt_le m (max_dir rd d names m) \<and> (\<forall>a. dir_attempt rd d names a \<longrightarrow> opt_le (Some a) (max_dir rd d names m)) \<and>
   (max_dir rd d names m = m \<or> (\<exists>a. max_dir rd d names m = Some a \<and> dir_attempt rd d names a))"
proof (induction names arbitrary: m)
  case Nil
  then show ?case by (simp add: dir_attempt_def)
next
  case (Cons n ns)
  show ?case
  proof (cases "rd_is_dir rd (d @ [Normal n]) \<and> parse_u32 n \<noteq> None")
    case False
    then have "max_dir rd d (n # ns) m = max_dir rd d ns m" by auto
    with Cons.IH [of m] False show ?thesis by (auto simp: dir_attempt_def)
  next
    case True
    then obtain a where a: "parse_u32 n = Some a" "rd_is_dir rd (d @ [Normal n])" by auto
    have here: "dir_attempt rd d (n # ns) a" using a by (auto simp: dir_attempt_def)
    have eq: "max_dir rd d (n # ns) m = max_dir rd d ns (max_opt m a)" using a by simp
    note ih = Cons.IH [of "max_opt m a"]
    have "opt_le m (max_dir rd d ns (max_opt m a))" "opt_le (Some a) (max_dir rd d ns (max_opt m a))"
      using ih opt_le_trans [OF opt_le_max(1)] opt_le_trans [OF opt_le_max(2)] by blast+
    moreover have "max_dir rd d ns (max_opt m a) = m \<or>
        (\<exists>b. max_dir rd d ns (max_opt m a) = Some b \<and> dir_attempt rd d (n # ns) b)"
      using ih here by (auto simp: max_opt_def dir_attempt_def split: option.splits if_splits)
    moreover have "dir_attempt rd d (n # ns) b \<longleftrightarrow> b = a \<or> dir_attempt rd d ns b" for b
      using a by (auto simp: dir_attempt_def)
    ultimately show ?thesis using ih eq by auto
  qed
qed

lemma succ_above: "opt_le (Some a) m \<Longrightarrow> m \<noteq> Some (- 1) \<Longrightarrow> a < succ_or_zero m"
proof -
  assume le: "opt_le (Some a) m" and m: "m \<noteq> Some (- 1)"
  from le obtain b where b: "m = Some b" "a \<le> b" by (auto simp: opt_le_def)
  have "1 + b \<noteq> 0" using b m by (metis add_eq_0_iff add.commute option.inject)
  then have "unat (1 + b) = Suc (unat b)" by (rule unatSuc)
  then have "b < b + 1" by (simp add: word_less_nat_alt add.commute)
  with b show ?thesis by (simp add: succ_or_zero_def)
qed

lemma digits_value_append:
  "digits_value v (a @ b) = (case digits_value v a of None \<Rightarrow> None | Some u \<Rightarrow> digits_value u b)"
  by (induction v a rule: digits_value.induct) (auto simp: Let_def)

lemma digits_value_nat_str: "digits_value 0 (nat_str n) = Some n"
proof (induction n rule: less_induct)
  case (less n)
  have d: "(of_char (char_of (48 + n mod 10) :: char) :: nat) = 48 + n mod 10" by simp
  show ?case
  proof (cases "n < 10")
    case True
    then show ?thesis using d by (subst nat_str.simps) (simp add: Let_def)
  next
    case False
    then have "digits_value 0 (nat_str (n div 10)) = Some (n div 10)" using less by simp
    then have "digits_value 0 (nat_str n) = digits_value (n div 10) [char_of (48 + n mod 10)]"
      using False by (subst nat_str.simps) (simp add: digits_value_append)
    then show ?thesis by (simp add: Let_def d)
  qed
qed

text \<open>The directory of an attempt is recognised by its name.\<close>

lemma parse_u32_nat_str: "n < 2 ^ 32 \<Longrightarrow> parse_u32 (nat_str n) = Some (of_nat n)"
proof -
  assume n: "n < 2 ^ 32"
  have "strip_prefix ''+'' (nat_str n) = None"
  proof (rule ccontr)
    assume "strip_prefix ''+'' (nat_str n) \<noteq> None"
    then obtain r where "nat_str n = ''+'' @ r" by (auto simp: strip_prefix_eq_Some)
    then have "CHR ''+'' \<in> set (nat_str n)" by simp
    from nat_str_digits [OF this] show False by simp
  qed
  with n show ?thesis by (simp add: parse_u32_def digits_value_nat_str)
qed

text \<open>The names in a directory; one that cannot be listed, as one that does not exist, has none.\<close>

definition listed :: "reader \<Rightarrow> dir \<Rightarrow> string list" where
  "listed rd d = (case rd_list rd d of Inr names \<Rightarrow> names | Inl _ \<Rightarrow> [])"

lemma attempts_from_markers:
  assumes "next_attempt_from_markers L rd d phase = Inr n"
  obtains m where "max_started L rd d (phase @ ''.started.'') (listed rd d) None = Inr m" "n = succ_or_zero m"
    "\<forall>e. rd_list rd d = Inl e \<longrightarrow> e = NotFound"
  using assms by (auto simp: next_attempt_from_markers_def listed_def succ_or_zero_def split: sum.splits io_error.splits)

lemma attempts_from_dirs:
  assumes "next_attempt_from_dirs rd d = Inr n"
  shows "n = succ_or_zero (max_dir rd d (listed rd d) None) \<and> (\<forall>e. rd_list rd d = Inl e \<longrightarrow> e = NotFound)"
  using assms by (auto simp: next_attempt_from_dirs_def listed_def succ_or_zero_def split: sum.splits io_error.splits)

text \<open>
  C21: The next attempt of a phase is above every attempt recorded by a started marker of the phase or
  by a numbered directory, as long as none of them is the greatest number there is; and it is zero
  or the successor of a recorded attempt. Either directory may be missing; any other error of listing
  it gives no number.
\<close>

theorem next_attempt_fresh:
  fixes L rd run_dir phase
  defines "recorded a \<equiv> marked_attempt L rd (markers_dir run_dir) (phase @ ''.started.'') (listed rd (markers_dir run_dir)) a \<or>
      dir_attempt rd (pjoin (pjoin run_dir ''attempts'') phase) (listed rd (pjoin (pjoin run_dir ''attempts'') phase)) a"
  assumes "next_attempt L rd run_dir phase = Inr n" "\<forall>a. recorded a \<longrightarrow> a \<noteq> - 1"
  shows "(\<forall>a. recorded a \<longrightarrow> a < n) \<and> (n = 0 \<or> (\<exists>a. n = a + 1 \<and> recorded a)) \<and>
    (\<forall>d \<in> {markers_dir run_dir, pjoin (pjoin run_dir ''attempts'') phase}. \<forall>e. rd_list rd d = Inl e \<longrightarrow> e = NotFound)"
proof -
  let ?d = "markers_dir run_dir" and ?p = "phase @ ''.started.''" and ?e = "pjoin (pjoin run_dir ''attempts'') phase"
  let ?md = "max_dir rd ?e (listed rd ?e) None"
  from assms(2) obtain a b where ab: "next_attempt_from_markers L rd ?d phase = Inr a" "next_attempt_from_dirs rd ?e = Inr b" "n = max a b"
    by (auto simp: next_attempt_def rbind_Inr)
  from attempts_from_markers [OF ab(1)] obtain m where m: "max_started L rd ?d ?p (listed rd ?d) None = Inr m" "a = succ_or_zero m"
    "\<forall>e. rd_list rd ?d = Inl e \<longrightarrow> e = NotFound" .
  from attempts_from_dirs [OF ab(2)] have d: "b = succ_or_zero ?md" "\<forall>e. rd_list rd ?e = Inl e \<longrightarrow> e = NotFound" by blast+
  note bm = max_started_bound [OF m(1)] and bd = max_dir_bound [of None rd ?e "listed rd ?e"]
  have not_max: "m \<noteq> Some (- 1)" "?md \<noteq> Some (- 1)" using bm bd assms(3) by (auto simp: recorded_def)
  have "a' < n" if "recorded a'" for a'
    using that bm bd succ_above [OF _ not_max(1)] succ_above [OF _ not_max(2)]
    by (auto simp: ab(3) m(2) d(1) less_max_iff_disj recorded_def)
  moreover have "n = 0 \<or> (\<exists>a. n = a + 1 \<and> recorded a)"
    using bm bd by (auto simp: ab(3) m(2) d(1) succ_or_zero_def max_def recorded_def)
  ultimately show ?thesis using m(3) d(2) by simp
qed

text \<open>A run with one attempt directory and no directory of markers, as a crash may leave it.\<close>

definition attempts_reader :: reader where
  "attempts_reader = \<lparr>rd_read = (\<lambda>_. Inl NotFound), rd_exists = (\<lambda>_. True), rd_is_file = (\<lambda>_. False),
     rd_is_dir = (\<lambda>_. True), rd_list = (\<lambda>k. if last k = Normal ''plan'' then Inr [''7'', ''tmp''] else Inl NotFound)\<rparr>"

theorem next_attempt_fresh_witness:
  "next_attempt demo_libs attempts_reader [Normal ''run''] ''plan'' = Inr 8 \<and> (7 :: 32 word) < 8"
proof -
  have c: "pjoin (pjoin [Normal ''run''] ''attempts'') ''plan'' = [Normal ''run'', Normal ''attempts'', Normal ''plan'']"
    "markers_dir [Normal ''run''] = [Normal ''run'', Normal ''markers'']"
    by (simp_all add: pjoin_def markers_dir_def is_absolute_def starts_with_def body_components_def to_component_def)
  have p: "parse_u32 ''7'' = Some 7" "parse_u32 ''tmp'' = None" by (simp_all add: parse_u32_def Let_def)
  have n: "next_attempt demo_libs attempts_reader [Normal ''run''] ''plan'' = Inr 8"
    by (simp add: next_attempt_def next_attempt_from_markers_def next_attempt_from_dirs_def c attempts_reader_def p
        succ_or_zero_def max_opt_def)
  have l: "listed attempts_reader (markers_dir [Normal ''run'']) = []"
    "listed attempts_reader (pjoin (pjoin [Normal ''run''] ''attempts'') ''plan'') = [''7'', ''tmp'']"
    by (simp_all add: listed_def c attempts_reader_def)
  have no: "\<not> marked_attempt demo_libs attempts_reader (markers_dir [Normal ''run'']) (''plan'' @ ''.started.'') [] a" for a
    by (simp add: marked_attempt_def)
  have d: "dir_attempt attempts_reader (pjoin (pjoin [Normal ''run''] ''attempts'') ''plan'') [''7'', ''tmp''] a \<longleftrightarrow> a = 7" for a
    by (auto simp: dir_attempt_def p attempts_reader_def)
  from next_attempt_fresh [OF n] no d have "(7 :: 32 word) < 8" by (simp add: l)
  with n show ?thesis by blast
qed

end
