(* ===== verification/StepOutput.thy ===== *)
theory StepOutput
  imports Steps Markers EditParser
begin

text \<open>
  What \<open>src/workflow/mod.rs\<close> does with the text of a step: JSON taken out of prose and code fences,
  the formats of an output, the arrays that loops run over, heuristic checks and the verdict of a
  validating model. JSON reading and the validating backend are arguments.
\<close>

subsection \<open>JSON in text\<close>

text \<open>The length of the shortest prefix whose brackets balance; quotes are not looked at.\<close>

fun close_at :: "char \<Rightarrow> char \<Rightarrow> nat \<Rightarrow> string \<Rightarrow> nat option" where
  "close_at op cl d [] = None"
| "close_at op cl d (c # cs) =
     (if c = op then map_option Suc (close_at op cl (Suc d) cs)
      else if c = cl then (if d = 1 then Some 1 else map_option Suc (close_at op cl (d - 1) cs))
      else map_option Suc (close_at op cl d cs))"

definition extract_bracketed :: "char \<Rightarrow> char \<Rightarrow> string \<Rightarrow> string option" where
  "extract_bracketed op cl s =
     (case find_char op s of
        None \<Rightarrow> None
      | Some start \<Rightarrow> map_option (\<lambda>n. take n (drop start s)) (close_at op cl 0 (drop start s)))"

definition extract_json_array_from_text :: "string \<Rightarrow> string option" where
  "extract_json_array_from_text s = extract_bracketed (CHR ''['') (CHR '']'') s"

definition fence :: string where
  "fence = [CHR 0x60, CHR 0x60, CHR 0x60]"

definition find_closing_fence :: "string \<Rightarrow> nat option" where
  "find_closing_fence s =
     (case find_sub (CHR 0x0A # fence) s of
        Some pos \<Rightarrow> Some pos
      | None \<Rightarrow> if starts_with s fence then Some 0 else None)"

text \<open>The text between a marker and the closing fence.\<close>

definition fenced_block :: "string \<Rightarrow> string \<Rightarrow> string option" where
  "fenced_block marker s =
     (case find_sub marker s of
        None \<Rightarrow> None
      | Some start \<Rightarrow> (let rest = drop (start + length marker) s in
          map_option (\<lambda>e. trim (take e rest)) (find_closing_fence rest)))"

definition skip_language :: "string \<Rightarrow> string" where
  "skip_language content =
     (if starts_with content ''{'' then content
      else case find_char (CHR 0x0A) content of Some k \<Rightarrow> trim (drop (k + 1) content) | None \<Rightarrow> content)"

definition extract_json_from_text :: "string \<Rightarrow> string option" where
  "extract_json_from_text s =
     (case fenced_block (fence @ ''json'') s of
        Some j \<Rightarrow> Some j
      | None \<Rightarrow> (case map_option skip_language (fenced_block fence s) of
            Some j \<Rightarrow> if starts_with j ''{'' then Some j else extract_bracketed (CHR ''{'') (CHR ''}'') s
          | None \<Rightarrow> extract_bracketed (CHR ''{'') (CHR ''}'') s))"

text \<open>
  Control characters inside string values are escaped. A quote closes a string unless the character
  before it is a backslash, itself escaped or not.
\<close>

fun sanitize_step_from :: "bool \<Rightarrow> bool \<Rightarrow> string \<Rightarrow> string" where
  "sanitize_step_from in_string bs [] = []"
| "sanitize_step_from in_string bs (c # cs) =
     (if c = CHR 0x22 \<and> \<not> bs then c # sanitize_step_from (\<not> in_string) False cs
      else if in_string \<and> c = CHR 0x0A then CHR 0x5C # CHR ''n'' # sanitize_step_from in_string False cs
      else if in_string \<and> c = CHR 0x0D then CHR 0x5C # CHR ''r'' # sanitize_step_from in_string False cs
      else if in_string \<and> c = CHR 0x09 then CHR 0x5C # CHR ''t'' # sanitize_step_from in_string False cs
      else if in_string \<and> is_ascii_control c then unicode_escape c @ sanitize_step_from in_string False cs
      else if in_string \<and> c = CHR 0xC2 \<and> cs \<noteq> [] \<and> is_c1_tail (hd cs)
        then unicode_escape (hd cs) @ sanitize_step_from in_string False (tl cs)
      else c # sanitize_step_from in_string (c = CHR 0x5C) cs)"

definition sanitize_step_json :: "string \<Rightarrow> string" where
  "sanitize_step_json s = sanitize_step_from False False s"

subsection \<open>Formats of an output\<close>

definition array_first :: "string \<Rightarrow> bool" where
  "array_first s = (case (find_char (CHR ''['') s, find_char (CHR ''{'') s) of (Some a, Some b) \<Rightarrow> a < b | _ \<Rightarrow> False)"

definition output_json_text :: "string \<Rightarrow> string option" where
  "output_json_text s =
     (case (find_char (CHR ''['') s, find_char (CHR ''{'') s) of
        (Some a, None) \<Rightarrow> extract_json_array_from_text s
      | (None, Some b) \<Rightarrow> extract_json_from_text s
      | _ \<Rightarrow> if array_first s then or_else (extract_json_array_from_text s) (extract_json_from_text s)
             else or_else (extract_json_from_text s) (extract_json_array_from_text s))"

definition ok_of :: "('e, 'a) result \<Rightarrow> 'a option" where
  "ok_of r = (case r of Inl _ \<Rightarrow> None | Inr x \<Rightarrow> Some x)"

definition parse_step_output :: "json_lib \<Rightarrow> string \<Rightarrow> string option \<Rightarrow> json option" where
  "parse_step_output js output fmt =
     (if fmt = Some ''json'' then ok_of (js_parse js (unwrap_or output (output_json_text output)))
      else if fmt = Some ''lines'' then Some (JArr (map JStr (str_lines output)))
      else None)"

subsection \<open>Results of steps\<close>

datatype failure_type = ValidationFailed | EmptyText | ValidatorError

record validation_result =
  va_passed :: bool
  va_failure_type :: "failure_type option"
  va_failure_reason :: "string option"
  va_validator :: string
  va_elapsed_ms :: "64 word"
  va_raw_response :: "string option"

datatype step_failure_kind = KTimeout | KBackendError | KEmptyOutput | KSkipped | KEditFailed | KVerifyFailed

record step_failure =
  sf_kind :: step_failure_kind
  sf_message :: string
  sf_backend :: "string option"
  sf_exit_code :: "int option"
  sf_elapsed_ms :: "64 word"

record step_result =
  sr_name :: string
  sr_output :: string
  sr_parsed :: "json option"
  sr_success :: bool
  sr_elapsed_ms :: "64 word"
  sr_backend :: "string option"
  sr_raw_output :: "string option"
  sr_stderr :: "string option"
  sr_exit_code :: "int option"
  sr_validation :: "validation_result option"
  sr_failure :: "step_failure option"

fun step_failure_kind_str :: "step_failure_kind \<Rightarrow> string" where
  "step_failure_kind_str KTimeout = ''timeout''"
| "step_failure_kind_str KBackendError = ''backend_error''"
| "step_failure_kind_str KEmptyOutput = ''empty_output''"
| "step_failure_kind_str KSkipped = ''skipped''"
| "step_failure_kind_str KEditFailed = ''edit_failed''"
| "step_failure_kind_str KVerifyFailed = ''verify_failed''"

definition error_result :: "string \<Rightarrow> string \<Rightarrow> 64 word \<Rightarrow> string option \<Rightarrow> step_failure_kind \<Rightarrow> step_result" where
  "error_result name output elapsed backend kind =
     \<lparr>sr_name = name, sr_output = output, sr_parsed = None, sr_success = False, sr_elapsed_ms = elapsed,
      sr_backend = backend, sr_raw_output = None, sr_stderr = None, sr_exit_code = None, sr_validation = None,
      sr_failure = Some \<lparr>sf_kind = kind, sf_message = output, sf_backend = backend, sf_exit_code = None,
        sf_elapsed_ms = elapsed\<rparr>\<rparr>"

type_synonym results = "string \<Rightarrow> step_result option"

subsection \<open>Loops\<close>

text \<open>A reference is \<open>steps.<name>.<field>\<close>; names may hold dashes, fields may not.\<close>

definition is_field_char :: "char \<Rightarrow> bool" where
  "is_field_char c \<longleftrightarrow> is_ascii_alnum c \<or> c = CHR ''_''"

definition step_reference :: "string \<Rightarrow> (string \<times> string) option" where
  "step_reference s =
     (case strip_prefix ''steps.'' s of
        None \<Rightarrow> None
      | Some rest \<Rightarrow> (let name = takeWhile (\<lambda>c. is_field_char c \<or> c = CHR ''-'') rest; after = drop (length name) rest in
          case after of
            [] \<Rightarrow> None
          | c # field \<Rightarrow> if c = CHR ''.'' \<and> name \<noteq> [] \<and> field \<noteq> [] \<and> list_all is_field_char field
              then Some (name, field) else None))"

definition array_of :: "string \<Rightarrow> json \<Rightarrow> (string, json list) result" where
  "array_of msg v = (case v of JArr xs \<Rightarrow> Inr xs | _ \<Rightarrow> Inl msg)"

definition loop_json_text :: "string \<Rightarrow> string option" where
  "loop_json_text s =
     (if array_first s then or_else (extract_json_array_from_text s) (extract_json_from_text s)
      else or_else (extract_json_from_text s) (extract_json_array_from_text s))"

definition loop_output :: "json_lib \<Rightarrow> string \<Rightarrow> step_result \<Rightarrow> (string, json list) result" where
  "loop_output js name r =
     (case sr_parsed r of
        Some v \<Rightarrow> array_of (''for_each: step '' @ quoted name @ '' parsed_output is not an array'') v
      | None \<Rightarrow> (case loop_json_text (sr_output r) of
            None \<Rightarrow> Inl (''for_each: no JSON found in step '' @ quoted name @ '' output'')
          | Some t \<Rightarrow> (case or_else (ok_of (js_parse js t)) (ok_of (js_parse js (sanitize_step_json t))) of
                None \<Rightarrow> Inl (''for_each: failed to parse JSON from step '' @ quoted name)
              | Some v \<Rightarrow> array_of (''for_each: step '' @ quoted name @ '' output is not a JSON array'') v)))"

definition parse_for_each_array :: "json_lib \<Rightarrow> string \<Rightarrow> results \<Rightarrow> (string, json list) result" where
  "parse_for_each_array js fe results =
     (if starts_with (trim fe) ''['' then
        (case js_parse js fe of Inr (JArr xs) \<Rightarrow> Inr xs | _ \<Rightarrow> Inl ''Failed to parse for_each as JSON array'')
      else case step_reference fe of
          None \<Rightarrow> Inl (''for_each: invalid format '' @ quoted fe @ ''. Use '' @ quoted ''steps.X.output'' @ '' or inline JSON array'')
        | Some (name, field) \<Rightarrow> (case results name of
              None \<Rightarrow> Inl (''for_each: step '' @ quoted name @ '' not found'')
            | Some r \<Rightarrow>
                if field = ''output'' then loop_output js name r
                else (case sr_parsed r of
                    None \<Rightarrow> Inl (''for_each: step '' @ quoted name @ '' has no parsed output (use output_format = '' @ debug_str ''json'' @ '')'')
                  | Some v \<Rightarrow> (case json_get field v of
                        None \<Rightarrow> Inl (''for_each: step '' @ quoted name @ '' output has no field '' @ quoted field)
                      | Some x \<Rightarrow> array_of (''for_each: step '' @ quoted (name @ ''.'' @ field) @ '' is not an array'') x))))"

subsection \<open>Heuristic checks\<close>

definition parse_usize :: "string \<Rightarrow> nat option" where
  "parse_usize s = (let ds = unwrap_or s (strip_prefix ''+'' s) in
     if ds = [] then None
     else case digits_value 0 ds of Some v \<Rightarrow> if v < 2 ^ 64 then Some v else None | None \<Rightarrow> None)"

definition judgement :: "string \<Rightarrow> 64 word \<Rightarrow> bool \<Rightarrow> failure_type \<Rightarrow> string \<Rightarrow> validation_result" where
  "judgement validator elapsed passed ty reason =
     \<lparr>va_passed = passed, va_failure_type = (if passed then None else Some ty),
      va_failure_reason = (if passed then None else Some reason), va_validator = validator,
      va_elapsed_ms = elapsed, va_raw_response = None\<rparr>"

text \<open>The argument of a call \<open>name(argument)\<close>.\<close>

definition call_argument :: "string \<Rightarrow> string \<Rightarrow> string option" where
  "call_argument name s = (case strip_prefix (name @ ''('') s of Some r \<Rightarrow> strip_suffix '')'' r | None \<Rightarrow> None)"

definition is_quoted_by :: "char \<Rightarrow> string \<Rightarrow> bool" where
  "is_quoted_by q s \<longleftrightarrow> starts_with s [q] \<and> ends_with s [q]"

definition unquote :: "string \<Rightarrow> string" where
  "unquote s = (if 2 \<le> length s \<and> (is_quoted_by (CHR 0x27) s \<or> is_quoted_by (CHR 0x22) s)
     then take (length s - 2) (drop 1 s) else s)"

definition run_heuristic_check :: "64 word \<Rightarrow> string \<Rightarrow> string \<Rightarrow> validation_result" where
  "run_heuristic_check elapsed check output =
     (let c = trim check in
      if c = [] then judgement ''heuristic:noop'' elapsed True ValidationFailed []
      else if c = ''not_empty''
        then judgement ''heuristic:not_empty'' elapsed (trim output \<noteq> []) EmptyText ''Output is empty or whitespace-only''
      else case call_argument ''min_length'' c of
        Some inner \<Rightarrow> (case parse_usize (trim inner) of
            None \<Rightarrow> judgement ''heuristic:min_length'' elapsed False ValidationFailed
              (''Invalid min_length argument: '' @ quoted (trim inner))
          | Some n \<Rightarrow> judgement ''heuristic:min_length'' elapsed (n \<le> char_count output) ValidationFailed
              (''Output length '' @ nat_str (char_count output) @ '' is less than minimum '' @ nat_str n))
      | None \<Rightarrow> (case call_argument ''contains'' c of
            Some inner \<Rightarrow> (let t = unquote (trim inner) in
              judgement ''heuristic:contains'' elapsed (t = [] \<or> contains output t) ValidationFailed
                (''Output is missing expected string '' @ quoted t))
          | None \<Rightarrow> judgement (''heuristic:'' @ c) elapsed False ValidationFailed (''Unknown check: '' @ c)))"

subsection \<open>Validation by a model\<close>

definition truncated_output :: "nat option \<Rightarrow> string \<Rightarrow> string" where
  "truncated_output limit output =
     (case limit of
        Some m \<Rightarrow> if m < char_count output
          then take_chars m output @ [CHR 0x0A, CHR 0x0A] @ ''[TRUNCATED - original was '' @ nat_str (char_count output) @
            '' chars, showing first '' @ nat_str m @ '']''
          else output
      | None \<Rightarrow> output)"

lemma strip_prefix_length: "strip_prefix p s = Some r \<Longrightarrow> length s = length p + length r"
  by (simp add: strip_prefix_eq_Some)

function fill_prompt :: "string \<Rightarrow> string \<Rightarrow> string \<Rightarrow> string" where
  "fill_prompt out err [] = []"
| "fill_prompt out err (c # cs) =
     (case strip_prefix ''{{ output }}'' (c # cs) of
        Some rest \<Rightarrow> out @ fill_prompt out err rest
      | None \<Rightarrow> (case strip_prefix ''{{ stderr }}'' (c # cs) of
            Some rest \<Rightarrow> err @ fill_prompt out err rest
          | None \<Rightarrow> if starts_with (c # cs) ''{{'' then ''{{'' @ fill_prompt out err (tl cs)
                    else c # fill_prompt out err cs))"
  by pat_completeness auto

termination
  by (relation "measure (\<lambda>(_, _, s). length s)") (auto dest!: strip_prefix_length split: if_splits)

definition interpolate_validation_prompt :: "string \<Rightarrow> string \<Rightarrow> string option \<Rightarrow> nat option \<Rightarrow> string" where
  "interpolate_validation_prompt prompt output stderr limit =
     fill_prompt (truncated_output limit output) (unwrap_or [] stderr) prompt"

definition fence_content :: "string \<Rightarrow> string \<Rightarrow> string option" where
  "fence_content opening s =
     (case strip_prefix opening s of Some r \<Rightarrow> map_option trim (strip_suffix fence r) | None \<Rightarrow> None)"

definition strip_markdown_fences :: "string \<Rightarrow> string" where
  "strip_markdown_fences response =
     (let t = trim response in unwrap_or t (or_else (fence_content (fence @ ''json'') t) (fence_content fence t)))"

record validation_response =
  vp_status :: string
  vp_output :: "string option"
  vp_reason :: "string option"

definition parse_validation_response ::
  "(string \<Rightarrow> validation_response option) \<Rightarrow> string \<Rightarrow> (string, validation_response) result" where
  "parse_validation_response read response =
     (let cleaned = strip_markdown_fences response in
      case read cleaned of
        Some p \<Rightarrow> if vp_status p = ''pass'' \<or> vp_status p = ''fail'' then Inr p
          else Inl (''Invalid status value: '' @ quoted (vp_status p) @ '' (expected '' @ quoted ''pass'' @ '' or '' @ quoted ''fail'' @ '')'')
      | None \<Rightarrow> (case strip_prefix ''REVIEW_FAILED:'' cleaned of
            Some r \<Rightarrow> Inr \<lparr>vp_status = ''fail'', vp_output = None, vp_reason = Some (trim r)\<rparr>
          | None \<Rightarrow> Inl (''Unrecognized validation response format (expected JSON or REVIEW_FAILED: prefix). Got: '' @
              take_chars 200 cleaned)))"

type_synonym validated = "validation_result option \<times> string option"

definition validator_failure :: "string \<Rightarrow> 64 word \<Rightarrow> string \<Rightarrow> string option \<Rightarrow> validation_result" where
  "validator_failure label elapsed reason raw =
     (judgement label elapsed False ValidatorError reason)\<lparr>va_raw_response := raw\<rparr>"

definition apply_lenient_mode :: "string \<Rightarrow> string \<Rightarrow> 64 word \<Rightarrow> validated" where
  "apply_lenient_mode raw label elapsed =
     (if trim raw \<noteq> [] then (Some (judgement label elapsed True ValidatorError []), Some (trim raw))
      else (Some (validator_failure label elapsed ''Validator returned empty response in lenient mode'' (Some raw)), None))"

text \<open>The policies \<open>pass\<close>, \<open>skip\<close> and, for anything else, \<open>fail\<close>.\<close>

definition by_policy :: "string option \<Rightarrow> validation_result \<Rightarrow> validation_result \<Rightarrow> validated" where
  "by_policy policy passing failing =
     (let p = unwrap_or ''fail'' policy in
      if p = ''pass'' then (Some passing, None) else if p = ''skip'' then (None, None) else (Some failing, None))"

definition apply_parse_error_policy :: "string option \<Rightarrow> string \<Rightarrow> string \<Rightarrow> string \<Rightarrow> 64 word \<Rightarrow> validated" where
  "apply_parse_error_policy policy parse_err raw label elapsed =
     by_policy policy (judgement (label @ '':parse_passthrough'') elapsed True ValidatorError [])
       (validator_failure label elapsed (''Failed to parse validation response: '' @ parse_err) (Some raw))"

definition handle_infra_error :: "string option \<Rightarrow> string \<Rightarrow> string \<Rightarrow> 64 word \<Rightarrow> validated" where
  "handle_infra_error policy reason label elapsed =
     by_policy policy (judgement (label @ '':error_passthrough'') elapsed True ValidatorError [])
       (validator_failure label elapsed reason None)"

datatype backend_slot = NotConfigured | CreateFailed string | NotAvailable | Ready

datatype 'a timed = Late | Answered 'a

text \<open>
  The world of a validation: whether the backend can be had, what it answers to a prompt, with what
  model and within what time, how a response is read, and the time it took.
\<close>

record validator_env =
  ve_slot :: "string \<Rightarrow> backend_slot"
  ve_query :: "string \<Rightarrow> string option \<Rightarrow> 64 word option \<Rightarrow> (backend_error, query_output) result timed"
  ve_read :: "string \<Rightarrow> validation_response option"
  ve_elapsed :: "64 word"

definition judged :: "validator_env \<Rightarrow> validate_config \<Rightarrow> string \<Rightarrow> string \<Rightarrow> validated" where
  "judged env vc label stdout =
     (if unwrap_or ''strict'' (vc_mode vc) = ''lenient'' then apply_lenient_mode stdout label (ve_elapsed env)
      else case parse_validation_response (ve_read env) stdout of
          Inl e \<Rightarrow> apply_parse_error_policy (vc_on_parse_error vc) e stdout label (ve_elapsed env)
        | Inr p \<Rightarrow>
            if vp_status p = ''pass''
            then (Some (judgement label (ve_elapsed env) True ValidationFailed []),
                  (case vp_output p of Some out \<Rightarrow> if out = [] then None else Some out | None \<Rightarrow> None))
            else (Some (judgement label (ve_elapsed env) False ValidationFailed (unwrap_or ''Validation failed'' (vp_reason p))), None))"

text \<open>Without a limit of time an answer is never late.\<close>

definition validator_answer :: "validator_env \<Rightarrow> validate_config \<Rightarrow> string \<Rightarrow> (backend_error, query_output) result" where
  "validator_answer env vc prompt =
     (case ve_query env prompt (vc_model vc) (vc_timeout_ms vc) of
        Answered r \<Rightarrow> r
      | Late \<Rightarrow> (let t = unwrap_or 0 (vc_timeout_ms vc) in
          Inl (Timeout (''Validation timed out after '' @ nat_str (unat t) @ ''ms'') t)))"

definition run_llm_validation ::
  "validator_env \<Rightarrow> validate_config \<Rightarrow> string \<Rightarrow> string \<Rightarrow> string option \<Rightarrow> validated" where
  "run_llm_validation env vc backend output stderr =
     (let label = ''llm:'' @ backend; infra = (\<lambda>reason. handle_infra_error (vc_on_error vc) reason label (ve_elapsed env)) in
      case ve_slot env backend of
        NotConfigured \<Rightarrow> infra (''Validation backend not found: '' @ backend)
      | CreateFailed e \<Rightarrow> infra (''Failed to create validation backend: '' @ e)
      | _ \<Rightarrow> (case vc_prompt vc of
            None \<Rightarrow> (Some (validator_failure label (ve_elapsed env) ''validate.prompt is required when validate.backend is set'' None), None)
          | Some p \<Rightarrow>
              (case validator_answer env vc (interpolate_validation_prompt p output stderr (vc_max_input_length vc)) of
                 Inl e \<Rightarrow> infra (''Validation backend error: '' @ backend_error_str e)
               | Inr qo \<Rightarrow> judged env vc label (qo_stdout qo))))"

definition run_step_validation :: "validator_env \<Rightarrow> validate_config \<Rightarrow> string \<Rightarrow> string option \<Rightarrow> validated" where
  "run_step_validation env vc output stderr =
     (let heuristic = (case vc_check vc of
            Some c \<Rightarrow> if trim c = [] then None else Some (run_heuristic_check (ve_elapsed env) c output)
          | None \<Rightarrow> None)
      in if (case heuristic of Some h \<Rightarrow> \<not> va_passed h | None \<Rightarrow> False) then (heuristic, None)
         else case vc_backend vc of
             Some b \<Rightarrow> run_llm_validation env vc b output stderr
           | None \<Rightarrow> (heuristic, None))"

subsection \<open>Balanced brackets\<close>

definition bracket_balance :: "char \<Rightarrow> char \<Rightarrow> string \<Rightarrow> int" where
  "bracket_balance op cl s = int (count_list s op) - int (count_list s cl)"

lemma bracket_balance_simps [simp]:
  "bracket_balance op cl [] = 0"
  "op \<noteq> cl \<Longrightarrow> bracket_balance op cl (c # s) = (if c = op then 1 else if c = cl then - 1 else 0) + bracket_balance op cl s"
  by (simp_all add: bracket_balance_def)

lemma close_at_iff:
  assumes "op \<noteq> cl" "0 < d"
  shows "close_at op cl d s = Some n \<longleftrightarrow> n \<le> length s \<and> int d + bracket_balance op cl (take n s) = 0 \<and>
    (\<forall>m < n. 0 < int d + bracket_balance op cl (take m s))"
  using assms(2)
proof (induction s arbitrary: d n)
  case (Cons c s)
  show ?case
  proof (cases n)
    case 0
    then show ?thesis using Cons.prems by (auto split: if_splits)
  next
    case (Suc k)
    let ?w = "if c = op then 1 else if c = cl then - 1 else (0 :: int)"
    have all: "(\<forall>m < Suc k. P m) \<longleftrightarrow> P 0 \<and> (\<forall>m < k. P (Suc m))" for P :: "nat \<Rightarrow> bool"
      using less_Suc_eq_0_disj by auto
    have rhs: "(n \<le> length (c # s) \<and> int d + bracket_balance op cl (take n (c # s)) = 0 \<and>
        (\<forall>m < n. 0 < int d + bracket_balance op cl (take m (c # s)))) \<longleftrightarrow>
      k \<le> length s \<and> int d + ?w + bracket_balance op cl (take k s) = 0 \<and> (\<forall>m < k. 0 < int d + ?w + bracket_balance op cl (take m s))"
      using Cons.prems assms(1) unfolding Suc all by (simp add: add.assoc)
    consider "c = op" | "c = cl" "c \<noteq> op" "d = 1" | "c = cl" "c \<noteq> op" "1 < d" | "c \<noteq> cl" "c \<noteq> op"
      using Cons.prems by linarith
    then show ?thesis
    proof cases
      case 1
      then show ?thesis using Cons.IH [of "Suc d" k] unfolding rhs by (simp add: Suc add_ac)
    next
      case 2
      have "k \<le> length s \<and> bracket_balance op cl (take k s) = 0 \<and> (\<forall>m < k. 0 < bracket_balance op cl (take m s)) \<longleftrightarrow> k = 0"
        by (cases k) auto
      with 2 show ?thesis unfolding rhs by (auto simp: Suc)
    next
      case 3
      then show ?thesis using Cons.IH [of "d - 1" k] unfolding rhs by (simp add: Suc of_nat_diff)
    next
      case 4
      then show ?thesis using Cons.IH [of d k] Cons.prems unfolding rhs by (simp add: Suc)
    qed
  qed
qed simp

lemma close_at_0:
  assumes "op \<noteq> cl"
  shows "close_at op cl 0 (op # s) = Some n \<longleftrightarrow> 0 < n \<and> n \<le> Suc (length s) \<and> bracket_balance op cl (take n (op # s)) = 0 \<and>
    (\<forall>m. 0 < m \<and> m < n \<longrightarrow> 0 < bracket_balance op cl (take m (op # s)))"
proof (cases n)
  case (Suc k)
  have all: "(\<forall>m. 0 < m \<and> m < Suc k \<longrightarrow> P m) \<longleftrightarrow> (\<forall>m < k. P (Suc m))" for P :: "nat \<Rightarrow> bool"
    by (metis Suc_less_eq gr0_implies_Suc zero_less_Suc)
  show ?thesis using close_at_iff [OF assms, of 1 s k] assms unfolding Suc all by simp
qed simp

text \<open>
  The text that is extracted begins with the first opening bracket and is the shortest span from
  there whose brackets balance; it is missing only when there is no such span.
\<close>

theorem extract_bracketed_iff:
  assumes "op \<noteq> cl"
  shows "extract_bracketed op cl s = Some j \<longleftrightarrow> (\<exists>a b. s = a @ j @ b \<and> op \<notin> set a \<and> j \<noteq> [] \<and> hd j = op \<and>
    bracket_balance op cl j = 0 \<and> (\<forall>m. 0 < m \<and> m < length j \<longrightarrow> 0 < bracket_balance op cl (take m j)))"
proof -
  let ?ok = "\<lambda>n t. 0 < n \<and> n \<le> length t \<and> bracket_balance op cl (take n t) = 0 \<and>
    (\<forall>m. 0 < m \<and> m < n \<longrightarrow> 0 < bracket_balance op cl (take m t))"
  show ?thesis
  proof
    assume "extract_bracketed op cl s = Some j"
    then obtain i n where i: "find_char op s = Some i" "close_at op cl 0 (drop i s) = Some n" "j = take n (drop i s)"
      by (auto simp: extract_bracketed_def split: option.splits)
    have s: "s = take i s @ op # drop (Suc i) s" "op \<notin> set (take i s)"
      using find_char_split [OF i(1)] find_char_Some [OF i(1)] by auto
    have d: "drop i s = op # drop (Suc i) s"
      using find_char_Some [OF i(1)] by (metis Cons_nth_drop_Suc)
    from i(2) have n: "?ok n (drop i s)" unfolding d close_at_0 [OF assms] by simp
    have "s = take i s @ j @ drop n (drop i s)" unfolding i(3) by (simp only: append_take_drop_id)
    moreover have "j \<noteq> []" "hd j = op" using n d i(3) by (cases n; simp)+
    ultimately show "\<exists>a b. s = a @ j @ b \<and> op \<notin> set a \<and> j \<noteq> [] \<and> hd j = op \<and>
      bracket_balance op cl j = 0 \<and> (\<forall>m. 0 < m \<and> m < length j \<longrightarrow> 0 < bracket_balance op cl (take m j))"
      using n s(2) i(3) by (intro exI [of _ "take i s"] exI [of _ "drop n (drop i s)"]) (auto simp: min_def)
  next
    assume "\<exists>a b. s = a @ j @ b \<and> op \<notin> set a \<and> j \<noteq> [] \<and> hd j = op \<and>
      bracket_balance op cl j = 0 \<and> (\<forall>m. 0 < m \<and> m < length j \<longrightarrow> 0 < bracket_balance op cl (take m j))"
    then obtain a b where ab: "s = a @ j @ b" "op \<notin> set a" "j \<noteq> []" "hd j = op" "bracket_balance op cl j = 0"
      "\<forall>m. 0 < m \<and> m < length j \<longrightarrow> 0 < bracket_balance op cl (take m j)" by blast
    obtain j' where j: "j = op # j'" using ab(3,4) by (cases j) auto
    have "find_char op s = Some (length a)" using ab(1,2) j by simp
    moreover have "drop (length a) s = op # (j' @ b)" using ab(1) j by simp
    moreover have "close_at op cl 0 (op # (j' @ b)) = Some (length j)"
      unfolding close_at_0 [OF assms] using ab(5,6) j by (auto simp: take_Cons' min_def)
    ultimately show "extract_bracketed op cl s = Some j" by (simp add: extract_bracketed_def j)
  qed
qed

text \<open>
  Brackets inside JSON strings are counted too: a valid document whose string holds a closing
  bracket is cut short, and the output of the step is then not parsed at all, for there is no
  second try with the whole text.
\<close>

lemma valid_json_cut:
  "extract_json_from_text ''{\"a\": \"}\"}'' = Some ''{\"a\": \"}''"
  "output_json_text ''{\"a\": \"}\"}'' = Some ''{\"a\": \"}''"
  by code_simp+

lemma valid_json_lost:
  assumes "js_parse js ''{\"a\": \"}'' = Inl e"
  shows "parse_step_output js ''{\"a\": \"}\"}'' (Some ''json'') = None"
  using assms by (simp add: parse_step_output_def valid_json_cut ok_of_def)

text \<open>A string that ends in an escaped backslash is not seen to end, so what follows is taken for its text.\<close>

lemma sanitize_loses_track:
  "sanitize_step_json [CHR 0x22, CHR 0x5C, CHR 0x5C, CHR 0x22, CHR 0x0A] = [CHR 0x22, CHR 0x5C, CHR 0x5C, CHR 0x22, CHR 0x5C, CHR ''n'']"
  "sanitize_json_strings [CHR 0x22, CHR 0x5C, CHR 0x5C, CHR 0x22, CHR 0x0A] = [CHR 0x22, CHR 0x5C, CHR 0x5C, CHR 0x22, CHR 0x0A]"
  by code_simp+

subsection \<open>Prompts and verdicts\<close>

datatype prompt_piece = Plain char | TheOutput | TheStderr

primrec piece_text :: "string \<Rightarrow> string \<Rightarrow> prompt_piece \<Rightarrow> string" where
  "piece_text out err (Plain c) = [c]"
| "piece_text out err TheOutput = out"
| "piece_text out err TheStderr = err"

text \<open>
  A prompt is read once: what it becomes for an output and an error text is fixed by pieces that
  depend on neither. A placeholder inside the output of a step is never replaced.
\<close>

theorem prompt_read_once:
  "\<exists>pieces. \<forall>output stderr limit. interpolate_validation_prompt prompt output stderr limit =
     concat (map (piece_text (truncated_output limit output) (unwrap_or [] stderr)) pieces)"
proof -
  have "\<exists>pieces. \<forall>out err. fill_prompt out err s = concat (map (piece_text out err) pieces)" for s
  proof (induction s rule: length_induct)
    case (1 s)
    show ?case
    proof (cases s)
      case Nil
      then show ?thesis by (intro exI [of _ "[]"]) simp
    next
      case (Cons c cs)
      have step: "\<exists>pieces. \<forall>out err. piece_text out err p @ fill_prompt out err rest = concat (map (piece_text out err) pieces)"
        if "length rest < length s" for p rest
      proof -
        from 1 that obtain ps where "\<forall>out err. fill_prompt out err rest = concat (map (piece_text out err) ps)" by blast
        then show ?thesis by (intro exI [of _ "p # ps"]) simp
      qed
      have two: "\<exists>pieces. \<forall>out err. ''{{'' @ fill_prompt out err (tl cs) = concat (map (piece_text out err) pieces)"
      proof -
        have "length (tl cs) < length s" using Cons by simp
        with 1 obtain ps where "\<forall>out err. fill_prompt out err (tl cs) = concat (map (piece_text out err) ps)" by blast
        then show ?thesis by (intro exI [of _ "Plain (CHR ''{'') # Plain (CHR ''{'') # ps"]) simp
      qed
      show ?thesis
      proof (cases "strip_prefix ''{{ output }}'' s")
        case (Some rest)
        with step [of rest TheOutput] strip_prefix_length [OF Some] Cons show ?thesis by simp
      next
        case no_out: None
        show ?thesis
        proof (cases "strip_prefix ''{{ stderr }}'' s")
          case (Some rest)
          with step [of rest TheStderr] strip_prefix_length [OF Some] no_out Cons show ?thesis by simp
        next
          case None
          have eq: "fill_prompt out err s = (if starts_with s ''{{'' then ''{{'' @ fill_prompt out err (tl cs) else c # fill_prompt out err cs)"
            for out err using no_out None unfolding Cons by (simp only: fill_prompt.simps option.case)
          have "\<exists>pieces. \<forall>out err. c # fill_prompt out err cs = concat (map (piece_text out err) pieces)"
            using step [of cs "Plain c"] Cons by simp
          with two show ?thesis unfolding eq by (cases "starts_with s ''{{''") (simp_all only: if_True if_False)
        qed
      qed
    qed
  qed
  from this [of prompt] show ?thesis unfolding interpolate_validation_prompt_def by blast
qed

lemma judgement_passed [simp]: "va_passed (judgement v e ok ty r) = ok" "va_passed (validator_failure l e r raw) = False"
  by (simp_all add: judgement_def validator_failure_def)

lemma by_policy_fail:
  "policy \<notin> {Some ''pass'', Some ''skip''} \<Longrightarrow> by_policy policy p f = (Some f, None)"
  by (cases policy) (auto simp: by_policy_def)

text \<open>What a pass of the model needs: an answer that is a pass or, in lenient mode, not blank.\<close>

definition answer_passes :: "validator_env \<Rightarrow> validate_config \<Rightarrow> string \<Rightarrow> bool" where
  "answer_passes env vc answer =
     (if vc_mode vc = Some ''lenient'' then trim answer \<noteq> []
      else \<exists>r. parse_validation_response (ve_read env) answer = Inr r \<and> vp_status r = ''pass'')"

lemma judged_closed:
  "vc_on_parse_error vc \<notin> {Some ''pass'', Some ''skip''} \<Longrightarrow>
     \<exists>v cleaned. judged env vc label answer = (Some v, cleaned) \<and> (va_passed v \<longrightarrow> answer_passes env vc answer)"
  using by_policy_fail [of "vc_on_parse_error vc"]
  by (cases "vc_mode vc"; cases "parse_validation_response (ve_read env) answer")
    (auto simp: judged_def apply_lenient_mode_def apply_parse_error_policy_def answer_passes_def)

lemma llm_validation_closed:
  assumes "vc_on_error vc \<notin> {Some ''pass'', Some ''skip''}" "vc_on_parse_error vc \<notin> {Some ''pass'', Some ''skip''}"
  shows "\<exists>v cleaned. run_llm_validation env vc b out err = (Some v, cleaned) \<and> (va_passed v \<longrightarrow>
      (\<exists>p qo. vc_prompt vc = Some p \<and>
        validator_answer env vc (interpolate_validation_prompt p out err (vc_max_input_length vc)) = Inr qo \<and>
        answer_passes env vc (qo_stdout qo)))"
proof (cases "vc_prompt vc")
  case None
  then show ?thesis using by_policy_fail [OF assms(1)]
    by (cases "ve_slot env b") (simp_all add: run_llm_validation_def handle_infra_error_def)
next
  case (Some p)
  show ?thesis
  proof (cases "validator_answer env vc (interpolate_validation_prompt p out err (vc_max_input_length vc))")
    case (Inl e)
    with Some show ?thesis using by_policy_fail [OF assms(1)]
      by (cases "ve_slot env b") (simp_all add: run_llm_validation_def handle_infra_error_def)
  next
    case (Inr qo)
    from judged_closed [OF assms(2), of env "''llm:'' @ b" "qo_stdout qo"] Some Inr show ?thesis using by_policy_fail [OF assms(1)]
      by (cases "ve_slot env b") (simp_all add: run_llm_validation_def handle_infra_error_def)
  qed
qed

text \<open>
  C25: Validation fails closed. Unless a policy says otherwise, a step with a validating backend is
  always judged, and passes only when the heuristic check does, the backend answers, and its answer
  is a pass (or, in lenient mode, not blank).
\<close>

theorem validation_fails_closed:
  assumes "vc_backend vc = Some b" "vc_on_error vc \<notin> {Some ''pass'', Some ''skip''}"
    and "vc_on_parse_error vc \<notin> {Some ''pass'', Some ''skip''}"
  shows "\<exists>v cleaned. run_step_validation env vc output stderr = (Some v, cleaned) \<and>
    (va_passed v \<longrightarrow>
      (\<forall>c. vc_check vc = Some c \<longrightarrow> trim c \<noteq> [] \<longrightarrow> va_passed (run_heuristic_check (ve_elapsed env) c output)) \<and>
      (\<exists>p qo. vc_prompt vc = Some p \<and>
        validator_answer env vc (interpolate_validation_prompt p output stderr (vc_max_input_length vc)) = Inr qo \<and>
        (if vc_mode vc = Some ''lenient'' then trim (qo_stdout qo) \<noteq> []
         else \<exists>r. parse_validation_response (ve_read env) (qo_stdout qo) = Inr r \<and> vp_status r = ''pass'')))"
proof -
  note llm = llm_validation_closed [where env = env and b = b and out = "output" and err = stderr, OF assms(2,3), unfolded answer_passes_def]
  show ?thesis
  proof (cases "\<exists>c. vc_check vc = Some c \<and> trim c \<noteq> [] \<and> \<not> va_passed (run_heuristic_check (ve_elapsed env) c output)")
    case True
    then obtain c where c: "vc_check vc = Some c" "trim c \<noteq> []" "\<not> va_passed (run_heuristic_check (ve_elapsed env) c output)" by blast
    then have "run_step_validation env vc output stderr = (Some (run_heuristic_check (ve_elapsed env) c output), None)"
      by (simp add: run_step_validation_def Let_def)
    with c(3) show ?thesis by simp
  next
    case False
    then have "run_step_validation env vc output stderr = run_llm_validation env vc b output stderr"
      using assms(1) by (cases "vc_check vc") (auto simp: run_step_validation_def Let_def)
    with llm obtain v cleaned where r: "run_step_validation env vc output stderr = (Some v, cleaned)"
      and p: "va_passed v \<longrightarrow> (\<exists>p qo. vc_prompt vc = Some p \<and>
        validator_answer env vc (interpolate_validation_prompt p output stderr (vc_max_input_length vc)) = Inr qo \<and>
        (if vc_mode vc = Some ''lenient'' then trim (qo_stdout qo) \<noteq> []
         else \<exists>r. parse_validation_response (ve_read env) (qo_stdout qo) = Inr r \<and> vp_status r = ''pass''))"
      by (elim exE conjE) simp
    from False have "\<forall>c. vc_check vc = Some c \<longrightarrow> trim c \<noteq> [] \<longrightarrow> va_passed (run_heuristic_check (ve_elapsed env) c output)"
      by blast
    with r p show ?thesis by (intro exI [of _ v] exI [of _ cleaned] conjI impI) (simp_all only: simp_thms)
  qed
qed

subsection \<open>Examples\<close>

theorem extract_bracketed_iff_witness:
  "\<exists>a b. ''see {a} {b}'' = a @ ''{a}'' @ b"
  using extract_bracketed_iff [of "CHR ''{''" "CHR ''}''" "''see {a} {b}''" "''{a}''"]
  by (simp add: extract_bracketed_def) blast

definition demo_validate :: validate_config where
  "demo_validate = \<lparr>vc_check = Some ''not_empty'', vc_backend = Some ''claude'', vc_model = None, vc_prompt = Some ''{{ output }}?'',
     vc_on_error = None, vc_on_parse_error = Some ''fail'', vc_mode = None, vc_max_input_length = None, vc_replace_output = False,
     vc_timeout_ms = None\<rparr>"

definition demo_validator :: validator_env where
  "demo_validator = \<lparr>ve_slot = (\<lambda>_. Ready), ve_query = (\<lambda>_ _ _. Late), ve_read = (\<lambda>_. None), ve_elapsed = 0\<rparr>"

text \<open>A validator that does not answer.\<close>

theorem validation_fails_closed_witness:
  "\<exists>v cleaned. run_step_validation demo_validator demo_validate ''out'' None = (Some v, cleaned) \<and> \<not> va_passed v"
proof -
  have "validator_answer demo_validator demo_validate p = Inl (Timeout (''Validation timed out after '' @ nat_str 0 @ ''ms'') 0)" for p
    by (simp add: validator_answer_def demo_validator_def demo_validate_def)
  then show ?thesis
    using validation_fails_closed [of demo_validate "''claude''" demo_validator "''out''" None]
    by (auto simp: demo_validate_def)
qed

end
