(* ===== verification/StepEdits.thy ===== *)
theory StepEdits
  imports StepOutput RetryLoop
begin

text \<open>
  The editing half of a step of \<open>src/workflow/mod.rs\<close>: the prompts for a corrected answer, the
  requester that asks for one and remembers what came with it, the message of a failed loop, and
  the application of edits with and without a verification command.
\<close>

subsection \<open>Prompts\<close>

definition nl2 :: string where
  "nl2 = [CHR 0x0A, CHR 0x0A]"

definition block :: "string \<Rightarrow> string" where
  "block s = fence @ [CHR 0x0A] @ s @ [CHR 0x0A] @ fence"

definition truncate_for_prompt :: "string \<Rightarrow> nat \<Rightarrow> string" where
  "truncate_for_prompt s m = (if length s \<le> m then s else truncate_utf8 s m @ ''... [truncated]'')"

definition raw_limit :: nat where
  "raw_limit = 4096"

definition stderr_limit :: nat where
  "stderr_limit = 1024"

definition build_parse_fix_prompt :: "string \<Rightarrow> string \<Rightarrow> string \<Rightarrow> string" where
  "build_parse_fix_prompt prompt raw display =
     prompt @ nl2 @ ''## Previous Attempt Failed'' @ nl2 @ ''Parse error:'' @ [CHR 0x0A] @ block display @ nl2 @
     ''The output you generated was:'' @ [CHR 0x0A] @ block (truncate_for_prompt raw raw_limit) @ nl2 @
     ''Please provide a corrected output. Use JSON old/new format, unified diff, or full file content. Extract edits from markdown code blocks if helpful.''"

definition build_apply_fix_prompt :: "string \<Rightarrow> string \<Rightarrow> string \<Rightarrow> path list \<Rightarrow> string" where
  "build_apply_fix_prompt prompt raw message paths =
     prompt @ nl2 @ ''## Previous Attempt Failed'' @ nl2 @ ''Apply error:'' @ [CHR 0x0A] @ block message @ nl2 @
     ''Files that failed to apply: '' @ str_join '', '' paths @ nl2 @
     ''The output you generated was:'' @ [CHR 0x0A] @ block (truncate_for_prompt raw raw_limit) @ nl2 @
     ''Please provide corrected edits.''"

definition build_verify_fix_prompt :: "string \<Rightarrow> string \<Rightarrow> verify_result \<Rightarrow> string" where
  "build_verify_fix_prompt prompt raw vr =
     prompt @ nl2 @ ''## Previous Attempt Failed'' @ nl2 @ ''Verification error:'' @ [CHR 0x0A] @
     block (truncate_for_prompt (vr_stderr vr) raw_limit) @ nl2 @
     ''Exit code: '' @ (if vr_timed_out vr then ''TIMEOUT'' else int_str (unwrap_or (- 1) (vr_exit_code vr))) @ [CHR 0x0A] @
     ''Elapsed: '' @ nat_str (vr_elapsed_ms vr) @ ''ms'' @ nl2 @
     ''The output you generated was:'' @ [CHR 0x0A] @ block (truncate_for_prompt raw raw_limit) @ nl2 @
     ''Please provide a corrected fix.''"

subsection \<open>Asking again\<close>

record edit_captures =
  ec_stderr :: "string option"
  ec_exit_code :: "int option"
  ec_partial_paths :: "path list option"

definition no_captures :: edit_captures where
  "no_captures = \<lparr>ec_stderr = None, ec_exit_code = None, ec_partial_paths = None\<rparr>"

text \<open>
  The surroundings of a step that edits: its backend, the captures of its requester, which live in
  the world beside the files, the shell that runs the formatter and the verification, and the
  checkpoint of the git agent.
\<close>

record 'w edit_env =
  ee_query :: "string \<Rightarrow> path \<Rightarrow> string option \<Rightarrow> 'w \<Rightarrow> (backend_error, query_output) result timed \<times> 'w"
  ee_caps :: "'w \<Rightarrow> edit_captures"
  ee_set_caps :: "edit_captures \<Rightarrow> 'w \<Rightarrow> 'w"
  ee_verify :: "string \<Rightarrow> path \<Rightarrow> 'w \<Rightarrow> verify_result \<times> 'w"
  ee_format :: "string \<Rightarrow> path \<Rightarrow> 'w \<Rightarrow> 'w"
  ee_checkpoint :: "string \<Rightarrow> path \<Rightarrow> 'w \<Rightarrow> 'w"
  ee_json :: json_reader
  ee_ops :: "'w fs_ops"

definition fix_prompt :: "string \<Rightarrow> retry_context \<Rightarrow> string" where
  "fix_prompt prompt c =
     (case rc_reason c of
        RParseError display \<Rightarrow> build_parse_fix_prompt prompt (rc_previous_raw c) display
      | RApplyError message paths \<Rightarrow> build_apply_fix_prompt prompt (rc_previous_raw c) message paths
      | RVerifyError vr \<Rightarrow> build_verify_fix_prompt prompt (rc_previous_raw c) vr)"

definition note_paths :: "'w edit_env \<Rightarrow> retry_context \<Rightarrow> 'w \<Rightarrow> 'w" where
  "note_paths env c w =
     (case rc_reason c of
        RApplyError _ paths \<Rightarrow> ee_set_caps env ((ee_caps env w)\<lparr>ec_partial_paths := Some paths\<rparr>) w
      | _ \<Rightarrow> w)"

definition request_edits ::
  "'w edit_env \<Rightarrow> string \<Rightarrow> string option \<Rightarrow> path \<Rightarrow> retry_context \<Rightarrow> 'w \<Rightarrow> (string, string) result \<times> 'w" where
  "request_edits env prompt model cwd c w =
     (case ee_query env (fix_prompt prompt c) cwd model (note_paths env c w) of
        (Answered (Inr qo), w') \<Rightarrow>
          (Inr (qo_stdout qo), ee_set_caps env ((ee_caps env w')\<lparr>ec_stderr := qo_stderr qo, ec_exit_code := qo_exit_code qo\<rparr>) w')
      | (Answered (Inl e), w') \<Rightarrow> (Inl (''Re-query failed: '' @ backend_error_str e), w')
      | (Late, w') \<Rightarrow> (Inl ''Re-query timed out'', w'))"

subsection \<open>The message of a failed loop\<close>

definition map_retry_failure :: "retry_outcome \<Rightarrow> nat \<Rightarrow> path list option \<Rightarrow> string \<times> step_failure_kind" where
  "map_retry_failure outcome timeout_ms paths =
     (if ro_attempts outcome = [] then (''Retry loop exited without any attempts'', KEditFailed)
      else let n = nat_str (length (ro_attempts outcome)); last_one = last (ro_attempts outcome);
               raw = truncate_for_prompt (at_raw last_one) raw_limit in
        case at_verify last_one of
          Some vr \<Rightarrow> (let err = truncate_for_prompt (vr_stderr vr) stderr_limit in
            (if vr_timed_out vr
             then ''Verification timed out after '' @ n @ '' attempts ('' @ nat_str timeout_ms @ ''ms limit).'' @ nl2 @
               ''Partial stderr:'' @ [CHR 0x0A] @ err
             else ''Verification failed after '' @ n @ '' attempts with exit code '' @
               (case vr_exit_code vr of Some c \<Rightarrow> int_str c | None \<Rightarrow> ''unknown'') @ ''.'' @ nl2 @
               ''Stderr:'' @ [CHR 0x0A] @ err, KVerifyFailed))
        | None \<Rightarrow> (case at_apply_error last_one of
            Some e \<Rightarrow> (let joined = str_join '', '' (unwrap_or [] paths) in
              (''Apply failed after '' @ n @ '' attempts: '' @ e @ nl2 @
               ''Failed files: '' @ (if joined = [] then ''(not captured)'' else joined) @ nl2 @
               ''Last output:'' @ [CHR 0x0A] @ raw, KEditFailed))
          | None \<Rightarrow> (case at_parse_error last_one of
                Some e \<Rightarrow> (''Parse failed after '' @ n @ '' attempts: '' @ e @ nl2 @ ''Last output:'' @ [CHR 0x0A] @ raw, KEditFailed)
              | None \<Rightarrow> (''Retry loop failed without a recorded error'', KEditFailed))))"

subsection \<open>Applying edits\<close>

text \<open>Without a verification command: once, undone when it fails half-way, formatted when it does not.\<close>

definition apply_once ::
  "'w edit_env \<Rightarrow> string \<Rightarrow> path \<Rightarrow> string option \<Rightarrow> 'w \<Rightarrow> (string, unit) result \<times> 'w" where
  "apply_once env raw cwd fmt w =
     (let shown = truncate_for_prompt raw raw_limit in
      case parse (ee_json env) raw of
        Inl e \<Rightarrow> (Inl (''Parse failed after 1 attempts: '' @ edit_parse_error_str e @ nl2 @ ''Last output:'' @ [CHR 0x0A] @ shown), w)
      | Inr parsed \<Rightarrow> (case apply_parsed (ee_ops env) parsed cwd w of
            (Inl err, w1) \<Rightarrow>
              (let paths = map fb_path (ar_files (ae_partial err));
                   w2 = (if ar_files (ae_partial err) = [] then w1 else snd (rollback (ee_ops env) (ae_partial err) w1)) in
               (Inl (''Apply failed after 1 attempts: '' @ apply_error_kind_str (ae_kind err) @ nl2 @
                  ''Failed files: '' @ (if paths = [] then ''(none)'' else str_join '', '' paths) @ nl2 @
                  ''Last output:'' @ [CHR 0x0A] @ shown), w2))
          | (Inr _, w1) \<Rightarrow> (Inr (), case fmt of Some cmd \<Rightarrow> ee_format env cmd cwd w1 | None \<Rightarrow> w1)))"

text \<open>The formatter runs in the verification command, between applying and verifying.\<close>

definition verify_command :: "string option \<Rightarrow> string option \<Rightarrow> string option" where
  "verify_command fmt verify =
     (case (fmt, verify) of
        (Some f, Some v) \<Rightarrow> Some (''('' @ f @ '') || true && ('' @ v @ '')'')
      | (None, Some v) \<Rightarrow> Some v
      | _ \<Rightarrow> None)"

text \<open>\<open>apply_command_wrapper\<close>: the command in the wrapper, its quotes escaped for a quoted place.\<close>

definition apply_command_wrapper :: "string \<Rightarrow> string option \<Rightarrow> string" where
  "apply_command_wrapper cmd wrapper =
     (case wrapper of
        None \<Rightarrow> cmd
      | Some w \<Rightarrow> str_replace ''{cmd}'' (if contains w (quoted ''{cmd}'')
          then str_replace [CHR 0x27] [CHR 0x27, CHR 0x5C, CHR 0x27, CHR 0x27] cmd else cmd) w)"

definition edit_loop :: "'w edit_env \<Rightarrow> nat \<Rightarrow> string \<Rightarrow> string \<Rightarrow> string option \<Rightarrow> path \<Rightarrow> 'w retry_loop" where
  "edit_loop env fix_retries cmd prompt model cwd = \<lparr>rl_max_retries = fix_retries, rl_stop_on_parse_error = False,
     rl_verify = ee_verify env cmd, rl_request = request_edits env prompt model cwd, rl_json = ee_json env, rl_ops = ee_ops env\<rparr>"

record edited =
  ed_text :: string
  ed_stderr :: "string option"
  ed_exit_code :: "int option"

definition apply_edits_of_step ::
  "'w edit_env \<Rightarrow> step \<Rightarrow> string option \<Rightarrow> nat \<Rightarrow> path \<Rightarrow> string \<Rightarrow> string option \<Rightarrow> string option \<Rightarrow> edited \<Rightarrow> 'w \<Rightarrow>
     (string \<times> step_failure_kind, edited) result \<times> 'w" where
  "apply_edits_of_step env s wrapper timeout_ms cwd prompt fmt verify ed w =
     (let w0 = ee_checkpoint env (''pre-edit: '' @ sw_name s) cwd w in
      case verify_command fmt verify of
        Some cmd \<Rightarrow>
          (let rl = edit_loop env (unat (sw_fix_retries s)) (apply_command_wrapper cmd wrapper) prompt (sw_model s) cwd in
           case execute rl (ed_text ed) cwd (ee_set_caps env no_captures w0) of
             (outcome, w1) \<Rightarrow>
               if ro_success outcome
               then (Inr \<lparr>ed_text = (if ro_attempts outcome = [] then ed_text ed else at_raw (last (ro_attempts outcome))),
                       ed_stderr = or_else (ec_stderr (ee_caps env w1)) (ed_stderr ed),
                       ed_exit_code = or_else (ec_exit_code (ee_caps env w1)) (ed_exit_code ed)\<rparr>, w1)
               else (Inl (map_retry_failure outcome timeout_ms (ec_partial_paths (ee_caps env w1))), w1))
      | None \<Rightarrow> (case apply_once env (ed_text ed) cwd fmt w0 of
            (Inl msg, w1) \<Rightarrow> (Inl (msg, KEditFailed), w1)
          | (Inr _, w1) \<Rightarrow> (Inr ed, w1)))"

subsection \<open>A failed edit leaves the files alone\<close>

text \<open>Apart from the edits themselves, nothing around the step touches the files.\<close>

definition calm :: "('w \<Rightarrow> component list \<rightharpoonup> string) \<Rightarrow> ('w \<Rightarrow> bool) \<Rightarrow> 'w edit_env \<Rightarrow> bool" where
  "calm view good env \<longleftrightarrow> (\<forall>w. good w \<longrightarrow>
     (\<forall>p cwd m. good (snd (ee_query env p cwd m w)) \<and> view (snd (ee_query env p cwd m w)) = view w) \<and>
     (\<forall>c. good (ee_set_caps env c w) \<and> view (ee_set_caps env c w) = view w) \<and>
     (\<forall>c cwd. good (snd (ee_verify env c cwd w)) \<and> view (snd (ee_verify env c cwd w)) = view w) \<and>
     (\<forall>m cwd. good (ee_checkpoint env m cwd w) \<and> view (ee_checkpoint env m cwd w) = view w))"

lemma calm_request:
  assumes "calm view good env" "good w"
  shows "good (snd (request_edits env prompt model cwd c w)) \<and> view (snd (request_edits env prompt model cwd c w)) = view w"
proof -
  have caps: "good u \<Longrightarrow> good (ee_set_caps env k u) \<and> view (ee_set_caps env k u) = view u" for k u
    using assms(1) by (simp add: calm_def)
  have n: "good (note_paths env c w)" "view (note_paths env c w) = view w"
    using caps [OF assms(2)] assms(2) by (simp_all add: note_paths_def split: retry_reason.splits)
  obtain a w1 where q: "ee_query env (fix_prompt prompt c) cwd model (note_paths env c w) = (a, w1)" by (metis prod.exhaust)
  have "good w1" "view w1 = view w"
    using assms(1) n q unfolding calm_def by (metis snd_conv)+
  then show ?thesis using q caps by (auto simp: request_edits_def split: timed.splits sum.splits)
qed

lemma calm_quiet:
  assumes "calm view good env"
  shows "quiet view good (edit_loop env n cmd prompt model cwd)"
  unfolding quiet_def edit_loop_def using assms calm_request [OF assms, of _ prompt model cwd]
  by (simp add: calm_def) (metis snd_conv)

context reliable_store
begin

lemma loop_restores:
  assumes "execute rl raw cwd w = (out, w')" "quiet view good rl" "rl_ops rl = ops" "good w" "\<not> ro_success out"
  shows "view w' = view w"
proof -
  have "\<forall>n \<in> set (butlast [0..<Suc (rl_max_retries rl)]). n \<noteq> rl_max_retries rl" by simp
  then have "leaves view rl cwd (at_raw (last (ro_attempts out))) (ro_final_apply out) (view w) (view w')"
    using retry_from_quiet [OF assms(1) [unfolded execute_def] assms(2-4)] by simp
  moreover have "ro_final_apply out = None"
    using retry_from_attempts [OF assms(1) [unfolded execute_def]] assms(5) by auto
  ultimately show ?thesis by simp
qed

lemma failed_edit_restores:
  assumes "apply_edits_of_step env s wrapper t cwd prompt fmt verify ed w = (Inl e, w')"
    and "calm view good env" "good w" "ee_ops env = ops"
  shows "view w' = view w"
proof -
  define w0 where "w0 = ee_checkpoint env (''pre-edit: '' @ sw_name s) cwd w"
  have w0: "good w0" "view w0 = view w" using assms(2,3) by (simp_all add: w0_def calm_def)
  show ?thesis
  proof (cases "verify_command fmt verify")
    case (Some cmd)
    let ?rl = "edit_loop env (unat (sw_fix_retries s)) (apply_command_wrapper cmd wrapper) prompt (sw_model s) cwd"
    obtain outcome w1 where x: "execute ?rl (ed_text ed) cwd (ee_set_caps env no_captures w0) = (outcome, w1)" by (metis prod.exhaust)
    with assms(1) Some have "w' = w1" "\<not> ro_success outcome"
      by (auto simp: apply_edits_of_step_def Let_def w0_def split: if_splits)
    moreover have "good (ee_set_caps env no_captures w0)" "view (ee_set_caps env no_captures w0) = view w0"
      using assms(2) w0 by (simp_all add: calm_def)
    ultimately show ?thesis using loop_restores [OF x] calm_quiet [OF assms(2)] assms(4) w0 by (simp add: edit_loop_def)
  next
    case None
    with assms(1) obtain msg where o: "apply_once env (ed_text ed) cwd fmt w0 = (Inl msg, w')"
      by (auto simp: apply_edits_of_step_def Let_def w0_def split: prod.splits sum.splits)
    show ?thesis
    proof (cases "parse (ee_json env) (ed_text ed)")
      case (Inl e)
      with o w0 show ?thesis by (simp add: apply_once_def Let_def)
    next
      case (Inr parsed)
      obtain r w1 where a: "apply_parsed ops parsed cwd w0 = (r, w1)" by (metis prod.exhaust)
      with o Inr assms(4) obtain err where r: "r = Inl err"
        "w' = (if ar_files (ae_partial err) = [] then w1 else snd (rollback ops (ae_partial err) w1))"
        by (cases r) (auto simp: apply_once_def Let_def)
      let ?rl = "edit_loop env 0 [] prompt None cwd"
      have "rl_ops ?rl = ops" using assms(4) by (simp add: edit_loop_def)
      moreover obtain b w2 where "rollback_partial ?rl (ae_partial err) w1 = (b, w2)" by (metis prod.exhaust)
      moreover from this have "w2 = w'" using r(2) assms(4) by (auto simp: rollback_partial_def edit_loop_def split: if_splits)
      ultimately show ?thesis using rollback_partial_quiet [of ?rl err w1 b w2 w0 parsed cwd] a r(1) w0 by simp
    qed
  qed
qed

end

text \<open>
  A step whose edits fail, at the parser, half-way through applying them or at the verification of
  every attempt, leaves all files as they were before it.
\<close>

theorem failed_edit_step_restores:
  assumes "apply_edits_of_step env s wrapper t cwd prompt fmt verify ed w = (Inl e, w')"
    and "calm files healthy env" "healthy w" "ee_ops env = mem_ops"
  shows "files w' = files w"
  by (rule mem.failed_edit_restores [OF assms])

text \<open>A step that writes a file which its verification rejects.\<close>

definition demo_edit_env :: "mem_fs edit_env" where
  "demo_edit_env = \<lparr>ee_query = (\<lambda>_ _ _ w. (Late, w)), ee_caps = (\<lambda>_. no_captures), ee_set_caps = (\<lambda>_ w. w),
     ee_verify = (\<lambda>_ _ w. (verification_run 100 (Child [] [] (Exited (Some 1))) 7, w)), ee_format = (\<lambda>_ _ w. w),
     ee_checkpoint = (\<lambda>_ _ w. w), ee_json = \<lparr>read_wrapper = (\<lambda>_. None), read_array = (\<lambda>_. None)\<rparr>, ee_ops = mem_ops\<rparr>"

lemma demo_edit_calm: "calm files healthy demo_edit_env"
  by (simp add: calm_def demo_edit_env_def)

lemma demo_edit_fails:
  "\<exists>e w'. apply_edits_of_step demo_edit_env (demo_step ''s'' []) None 0 ''w'' ''p'' None (Some ''make'')
     \<lparr>ed_text = small_file, ed_stderr = None, ed_exit_code = None\<rparr> demo_fs = (Inl (e, KVerifyFailed), w')"
  by (simp add: apply_edits_of_step_def edit_loop_def demo_edit_env_def demo_step_def verify_command_def demo_eval upt_rec
      apply_eval demo_fs_def mem_defs path_eval rollback_def rollback_one_def map_retry_failure_def Let_def)

theorem failed_edit_step_restores_witness:
  "\<exists>e w'. apply_edits_of_step demo_edit_env (demo_step ''s'' []) None 0 ''w'' ''p'' None (Some ''make'')
     \<lparr>ed_text = small_file, ed_stderr = None, ed_exit_code = None\<rparr> demo_fs = (Inl (e, KVerifyFailed), w') \<and>
     files w' = files demo_fs"
proof -
  from demo_edit_fails obtain e w' where
    r: "apply_edits_of_step demo_edit_env (demo_step ''s'' []) None 0 ''w'' ''p'' None (Some ''make'')
     \<lparr>ed_text = small_file, ed_stderr = None, ed_exit_code = None\<rparr> demo_fs = (Inl (e, KVerifyFailed), w')" by (elim exE)
  moreover have "ee_ops demo_edit_env = mem_ops" by (simp add: demo_edit_env_def)
  ultimately show ?thesis
    using failed_edit_step_restores [OF r demo_edit_calm demo_fs_healthy] by (intro exI [of _ e] exI [of _ w'] conjI) simp_all
qed

end
