(* ===== verification/WeightedVote.thy ===== *)
theory WeightedVote
  imports Consensus
begin

text \<open>
  The weighted vote of \<open>src/consensus.rs\<close>. The weights of the code are the floating-point numbers 1,
  1.5 and 2; scores are counted here in halves. Sums of halves below \<open>2\<^sup>5\<^sup>2\<close> are exact in floating
  point, so that the comparison up to \<open>f64::EPSILON\<close> is equality.
\<close>

text \<open>\<open>BackendWeights::default\<close> and \<open>get\<close>, in halves.\<close>

definition default_weights :: "(string \<times> nat) list" where
  "default_weights = [(''claude'', 4), (''codex'', 3), (''gemini'', 3), (''bedrock'', 4), (''ollama'', 2)]"

definition weight_of :: "(string \<times> nat) list \<Rightarrow> string \<Rightarrow> nat" where
  "weight_of weights b = unwrap_or 2 (map_of weights b)"

definition weigh :: "(string \<times> nat) list \<Rightarrow> (string \<times> nat) list \<Rightarrow> backend_response list \<Rightarrow> (string \<times> nat) list" where
  "weigh weights m responses =
     foldl (\<lambda>m r. hm_upd (trim (br_content r)) (\<lambda>ov. unwrap_or 0 ov + weight_of weights (br_backend r)) m) m responses"

record weighted_result =
  wr_winner :: string
  wr_breakdown :: "(string \<times> nat) list"
  wr_was_tie :: bool

definition weighted_vote ::
  "((string \<times> nat) list \<Rightarrow> (string \<times> nat) list) \<Rightarrow> (string \<times> nat) list \<Rightarrow> backend_response list \<Rightarrow> weighted_result option" where
  "weighted_vote order weights responses =
     (if responses = [] then None
      else
        let scores = weigh weights [] responses;
            max_score = foldr max (map snd (order scores)) 0;
            winners = filter (\<lambda>(content, score). score = max_score) (order scores)
        in map_option
             (\<lambda>(content, score). \<lparr>wr_winner = content, wr_breakdown = scores, wr_was_tie = (1 < length winners)\<rparr>)
             (min_by_key (\<lambda>(content, score). unwrap_or (2 ^ 64 - 1) (map_of (first_seen responses) content)) winners))"

subsection \<open>The scores\<close>

definition score :: "(string \<times> nat) list \<Rightarrow> backend_response list \<Rightarrow> string \<Rightarrow> nat" where
  "score weights rs k = sum_list (map (\<lambda>r. if trim (br_content r) = k then weight_of weights (br_backend r) else 0) rs)"

lemma weigh_look:
  "hm_inv m \<Longrightarrow> hm_inv (weigh weights m rs) \<and> map_of (weigh weights m rs) k =
     (if map_of m k = None \<and> k \<notin> set (normalized rs) then None else Some (unwrap_or 0 (map_of m k) + score weights rs k))"
proof (induction rs arbitrary: m)
  case Nil
  then show ?case by (cases "map_of m k") (simp_all add: weigh_def score_def normalized_def)
next
  case (Cons r rs)
  let ?m = "hm_upd (trim (br_content r)) (\<lambda>ov. unwrap_or 0 ov + weight_of weights (br_backend r)) m"
  have "hm_inv ?m" using Cons.prems by (rule hm_inv_upd)
  from Cons.IH [OF this] Cons.prems show ?case
    by (cases "map_of m k") (auto simp: weigh_def score_def normalized_def hm_map_of_upd)
qed

lemma weigh_entries:
  "(k, n) \<in> set (weigh weights [] rs) \<longleftrightarrow> k \<in> set (normalized rs) \<and> n = score weights rs k"
proof -
  have inv: "hm_inv ([] :: (string \<times> nat) list)" by (simp add: hm_inv_def)
  from weigh_look [OF inv] have m: "hm_inv (weigh weights [] rs)"
    "map_of (weigh weights [] rs) k = (if k \<in> set (normalized rs) then Some (score weights rs k) else None)" by auto
  from m(1) have "(k, n) \<in> set (weigh weights [] rs) \<longleftrightarrow> map_of (weigh weights [] rs) k = Some n"
    by (simp add: hm_inv_def map_of_eq_Some_iff)
  with m(2) show ?thesis by auto
qed

text \<open>
  For any order in which the scores are visited, the weighted vote returns a (trimmed) response of
  the greatest total weight, and among equals the one that appears first.
\<close>

theorem weighted_vote_heaviest:
  assumes "\<forall>m. set (order m) = set m" "rs \<noteq> []"
  shows "\<exists>r i. weighted_vote order weights rs = Some r \<and> i < length rs \<and> wr_winner r = trim (br_content (rs ! i)) \<and>
    (\<forall>k \<in> set (normalized rs). score weights rs k \<le> score weights rs (wr_winner r)) \<and>
    (\<forall>j < i. score weights rs (trim (br_content (rs ! j))) < score weights rs (wr_winner r))"
proof -
  let ?c = "order (weigh weights [] rs)"
  have "(k, n) \<in> set ?c \<longleftrightarrow> k \<in> set (normalized rs) \<and> n = score weights rs k" for k n
    using assms(1) weigh_entries by simp
  from first_heaviest [OF this assms(2)] obtain k n i where
    w: "min_by_key (\<lambda>(content, count). unwrap_or (2 ^ 64 - 1) (map_of (first_seen rs) content))
        (filter (\<lambda>(content, count). count = foldr max (map snd ?c) 0) ?c) = Some (k, n)"
    and i: "i < length rs" "k = trim (br_content (rs ! i))"
    and "\<forall>k' \<in> set (normalized rs). score weights rs k' \<le> score weights rs k"
      "\<forall>j < i. score weights rs (trim (br_content (rs ! j))) < score weights rs k"
    by (elim exE conjE)
  then show ?thesis
    using assms(2) by (intro exI [of _ "the (weighted_vote order weights rs)"] exI [of _ i]) (simp add: weighted_vote_def Let_def)
qed

theorem weighted_vote_heaviest_witness:
  "\<exists>r. weighted_vote rev default_weights [\<lparr>br_backend = ''gemini'', br_content = ''x''\<rparr>, \<lparr>br_backend = ''claude'', br_content = ''y''\<rparr>] =
     Some r"
  using weighted_vote_heaviest [of rev "[\<lparr>br_backend = ''gemini'', br_content = ''x''\<rparr>, \<lparr>br_backend = ''claude'', br_content = ''y''\<rparr>]"
      default_weights] by auto

end
