(* ===== verification/StepRunner.thy ===== *)
theory StepRunner
  imports StepGraph StepEdits WeightedVote
begin

text \<open>
  \<open>WorkflowRunner::run\<close> of \<open>src/workflow/mod.rs\<close>. A step's dealings with the outside (processes,
  backends, clocks, the edit of files) are answers of an environment, indexed by the step and by the
  number of the request within it, so that steps of one level may run interleaved in any way. The
  template engine, with the translation of the old conditions, and the resolution of formatting and
  verification commands are arguments too.
\<close>

subsection \<open>The environment\<close>

datatype process = SpawnError string | WaitError string | Finished "int option" string string

record shell_output =
  so_stdout :: string
  so_stderr :: "string option"
  so_exit_code :: "int option"

datatype condition_value = Holds bool | Undefined | OtherTemplateError

datatype request = Try nat | Iteration nat | Panel nat | Synthesis | VerifyRun

record step_env =
  sn_json :: json_lib
  sn_eval :: "string \<Rightarrow> results \<Rightarrow> condition_value"
  sn_render :: "string \<Rightarrow> string \<Rightarrow> results \<Rightarrow> (flow_error, string) result"
  sn_loop_vars :: "string \<Rightarrow> json \<Rightarrow> nat \<Rightarrow> string"
  sn_format_of :: "string \<Rightarrow> string option"
  sn_verify_of :: "string \<Rightarrow> string option"
  sn_wrapper :: "string option"
  sn_process :: "string \<Rightarrow> request \<Rightarrow> string \<Rightarrow> process timed"
  sn_slot :: "string \<Rightarrow> string \<Rightarrow> backend_slot"
  sn_query :: "string \<Rightarrow> request \<Rightarrow> string \<Rightarrow> string \<Rightarrow> string option \<Rightarrow> (backend_error, query_output) result timed"
  sn_edit :: "step \<Rightarrow> string \<Rightarrow> string option \<Rightarrow> string option \<Rightarrow> edited \<Rightarrow> (string \<times> step_failure_kind, edited) result"
  sn_validator :: "string \<Rightarrow> validator_env"
  sn_elapsed :: "string \<Rightarrow> 64 word"
  sn_order :: "depths \<Rightarrow> depths"

subsection \<open>Shell commands\<close>

text \<open>\<open>run_shell\<close>, from what becomes of the process.\<close>

definition shell_result :: "string \<Rightarrow> process \<Rightarrow> (string, shell_output) result" where
  "shell_result final_cmd p =
     (case p of
        SpawnError _ \<Rightarrow> Inl ''Failed to spawn shell command''
      | WaitError _ \<Rightarrow> Inl ''Failed to wait for shell command''
      | Finished code out err \<Rightarrow> (let stderr = from_utf8_lossy err in
          if code \<noteq> Some 0 then Inl (''Shell command failed: '' @ final_cmd @ [CHR 0x0A] @ stderr)
          else Inr \<lparr>so_stdout = trim (from_utf8_lossy out),
                    so_stderr = (if trim stderr = [] then None else Some stderr), so_exit_code = code\<rparr>))"

definition run_shell :: "step_env \<Rightarrow> string \<Rightarrow> request \<Rightarrow> string \<Rightarrow> (string, shell_output) result timed" where
  "run_shell env name rq cmd =
     (let final_cmd = apply_command_wrapper cmd (sn_wrapper env) in
      case sn_process env name rq final_cmd of Late \<Rightarrow> Late | Answered p \<Rightarrow> Answered (shell_result final_cmd p))"

subsection \<open>Time limits\<close>

definition default_step_timeout_ms :: "64 word" where
  "default_step_timeout_ms = 120000"

text \<open>Zero stands for a year.\<close>

definition timeout_millis :: "step_flow \<Rightarrow> step \<Rightarrow> nat" where
  "timeout_millis fl s =
     (let t = unwrap_or default_step_timeout_ms (step_timeout fl s) in if t = 0 then 365 * 24 * 60 * 60 * 1000 else unat t)"

definition timed_out_message :: "nat \<Rightarrow> string" where
  "timed_out_message ms = ''Step timed out after '' @ nat_str (ms div 1000) @ ''s''"

text \<open>\<open>for attempt in 0..=max_retries\<close>: up to the first success; the last failure is the result.\<close>

fun first_ok :: "(nat \<Rightarrow> ('e, 'a) result) \<Rightarrow> nat \<Rightarrow> nat list \<Rightarrow> ('e, 'a) result" where
  "first_ok f i [] = f i"
| "first_ok f i (j # js) = (case f i of Inr x \<Rightarrow> Inr x | Inl _ \<Rightarrow> first_ok f j js)"

definition with_retries :: "32 word \<Rightarrow> (nat \<Rightarrow> ('e, 'a) result) \<Rightarrow> ('e, 'a) result" where
  "with_retries retries f = first_ok f 0 [1..<Suc (unat retries)]"

text \<open>The pause before a retry, as in a release build, where the product and the power wrap.\<close>

definition retry_pause :: "step \<Rightarrow> nat \<Rightarrow> 64 word" where
  "retry_pause s attempt = sw_retry_delay s * 2 ^ (attempt - 1)"

subsection \<open>Loops\<close>

definition iteration_json :: "nat \<Rightarrow> json \<Rightarrow> string \<Rightarrow> bool \<Rightarrow> json" where
  "iteration_json i item out ok = JObj [(''index'', JInt (int i)), (''item'', item), (''output'', JStr out), (''success'', JBool ok)]"

definition shown_error :: "nat \<Rightarrow> (string, 'a) result timed \<Rightarrow> ('a \<Rightarrow> string) \<Rightarrow> string \<times> bool" where
  "shown_error ms r text_of =
     (case r of
        Answered (Inr x) \<Rightarrow> (text_of x, True)
      | Answered (Inl e) \<Rightarrow> (''Error: '' @ e, False)
      | Late \<Rightarrow> (''Error: '' @ timed_out_message ms, False))"

definition query_shown :: "(backend_error, query_output) result timed \<Rightarrow> (string, query_output) result timed" where
  "query_shown r = (case r of Late \<Rightarrow> Late | Answered a \<Rightarrow> Answered (map_err backend_error_str a))"

definition run_iteration ::
  "step_env \<Rightarrow> nat \<Rightarrow> step \<Rightarrow> string \<Rightarrow> string option \<Rightarrow> nat \<times> json \<Rightarrow> string \<times> bool" where
  "run_iteration env ms s prompt shell it =
     (let i = fst it; item = snd it in
      case shell of
        Some cmd \<Rightarrow> shown_error ms (run_shell env (sw_name s) (Iteration i) (sn_loop_vars env cmd item i)) so_stdout
      | None \<Rightarrow> (case sn_slot env (sw_name s) (sw_backend s) of
            NotConfigured \<Rightarrow> (''Backend not found: '' @ sw_backend s, False)
          | CreateFailed e \<Rightarrow> (''Failed to create backend: '' @ e, False)
          | _ \<Rightarrow> shown_error ms (query_shown (sn_query env (sw_name s) (Iteration i) (sw_backend s)
                    (sn_loop_vars env prompt item i) (sw_model s))) qo_stdout))"

definition run_loop :: "step_env \<Rightarrow> nat \<Rightarrow> step \<Rightarrow> string \<Rightarrow> string option \<Rightarrow> json list \<Rightarrow> step_result" where
  "run_loop env ms s prompt shell items =
     (let its = enumerate 0 items; outs = map (run_iteration env ms s prompt shell) its;
          ok = list_all snd outs; backend = (if shell = None then Some (sw_backend s) else None);
          elapsed = sn_elapsed env (sw_name s) in
      \<lparr>sr_name = sw_name s,
       sr_output = js_show (sn_json env) (JArr (map2 (\<lambda>it out. iteration_json (fst it) (snd it) (fst out) (snd out)) its outs)),
       sr_parsed = None, sr_success = ok, sr_elapsed_ms = elapsed, sr_backend = backend, sr_raw_output = None,
       sr_stderr = None, sr_exit_code = None, sr_validation = None,
       sr_failure = (if ok then None else Some \<lparr>sf_kind = KBackendError, sf_message = ''for_each: some iterations failed'',
         sf_backend = backend, sf_exit_code = None, sf_elapsed_ms = elapsed\<rparr>)\<rparr>)"

subsection \<open>Validation and the result of a step that answered\<close>

definition step_validation :: "step_env \<Rightarrow> step \<Rightarrow> string \<Rightarrow> string option \<Rightarrow> validated" where
  "step_validation env s output stderr =
     (case sw_validate s of
        Some vc \<Rightarrow> run_step_validation (sn_validator env (sw_name s)) vc output stderr
      | None \<Rightarrow> (None, None))"

definition replaces_output :: "step \<Rightarrow> bool" where
  "replaces_output s = (case sw_validate s of Some vc \<Rightarrow> vc_replace_output vc | None \<Rightarrow> False)"

definition answered_result ::
  "step_env \<Rightarrow> step \<Rightarrow> string \<Rightarrow> string option \<Rightarrow> int option \<Rightarrow> string option \<Rightarrow> step_result" where
  "answered_result env s output stderr code backend =
     (case step_validation env s output stderr of
        (validation, cleaned) \<Rightarrow>
          let ok = (case validation of Some v \<Rightarrow> va_passed v | None \<Rightarrow> True);
              (final, raw) = (case cleaned of Some c \<Rightarrow> if replaces_output s then (c, Some output) else (output, None)
                              | None \<Rightarrow> (output, None)) in
          \<lparr>sr_name = sw_name s, sr_output = final, sr_parsed = parse_step_output (sn_json env) final (sw_output_format s),
           sr_success = ok, sr_elapsed_ms = sn_elapsed env (sw_name s), sr_backend = backend, sr_raw_output = raw,
           sr_stderr = stderr, sr_exit_code = code, sr_validation = validation, sr_failure = None\<rparr>)"

subsection \<open>A shell step\<close>

definition shell_attempt :: "step_env \<Rightarrow> nat \<Rightarrow> step \<Rightarrow> string \<Rightarrow> nat \<Rightarrow> (string \<times> step_failure_kind, shell_output) result" where
  "shell_attempt env ms s cmd i =
     (case run_shell env (sw_name s) (Try i) cmd of
        Answered (Inr x) \<Rightarrow> Inr x
      | Answered (Inl e) \<Rightarrow> Inl (''Error: '' @ e, KBackendError)
      | Late \<Rightarrow> Inl (''Error: '' @ timed_out_message ms, KTimeout))"

definition run_shell_step :: "step_env \<Rightarrow> nat \<Rightarrow> step \<Rightarrow> string \<Rightarrow> step_result" where
  "run_shell_step env ms s cmd =
     (case with_retries (sw_retries s) (shell_attempt env ms s cmd) of
        Inl (msg, kind) \<Rightarrow> error_result (sw_name s) msg (sn_elapsed env (sw_name s)) None kind
      | Inr x \<Rightarrow> answered_result env s (so_stdout x) (so_stderr x) (so_exit_code x) None)"

subsection \<open>A step with several backends\<close>

definition panel_answer :: "step_env \<Rightarrow> nat \<Rightarrow> step \<Rightarrow> string \<Rightarrow> nat \<times> string \<Rightarrow> (string, backend_response) result" where
  "panel_answer env ms s prompt ib =
     (let b = snd ib; failed = (\<lambda>e. Inl (b @ '': '' @ e)) in
      case sn_slot env (sw_name s) b of
        NotConfigured \<Rightarrow> failed (''Backend not found: '' @ b)
      | CreateFailed e \<Rightarrow> failed (''Failed to create backend: '' @ e)
      | NotAvailable \<Rightarrow> failed (''Backend '' @ b @ '' not available'')
      | Ready \<Rightarrow> (case sn_query env (sw_name s) (Panel (fst ib)) b prompt (sw_model s) of
            Answered (Inr qo) \<Rightarrow> Inr \<lparr>br_backend = b, br_content = qo_stdout qo\<rparr>
          | Answered (Inl e) \<Rightarrow> failed (backend_error_str e)
          | Late \<Rightarrow> failed (''Timeout after '' @ nat_str (ms div 1000) @ ''s'')))"

definition synth_prompt :: "string \<Rightarrow> backend_response list \<Rightarrow> string" where
  "synth_prompt prompt rs =
     ''Multiple AI backends responded to this prompt:'' @ nl2 @ ''## Original Prompt'' @ [CHR 0x0A] @ prompt @ nl2 @
     ''## Responses'' @ [CHR 0x0A] @
     str_join [CHR 0x0A] (map (\<lambda>r. ''## '' @ br_backend r @ [CHR 0x27] @ ''s Response'' @ [CHR 0x0A] @ br_content r @ [CHR 0x0A]) rs) @
     nl2 @ ''## Instructions'' @ [CHR 0x0A] @
     ''Synthesize these responses into a single, unified answer that:'' @ [CHR 0x0A] @
     ''1. Takes the best insights from each'' @ [CHR 0x0A] @ ''2. Resolves any contradictions'' @ [CHR 0x0A] @
     ''3. Is clear and concise'' @ nl2 @ ''Output only the synthesized response, no preamble.''"

definition synthesize :: "step_env \<Rightarrow> step \<Rightarrow> string \<Rightarrow> backend_response list \<Rightarrow> string \<times> string option" where
  "synthesize env s prompt rs =
     (let fallback = (br_content (hd rs), Some (br_backend (hd rs)));
          b = (if sn_slot env (sw_name s) ''claude'' \<noteq> NotConfigured then ''claude''
               else case get_backends s of [] \<Rightarrow> ''claude'' | b # _ \<Rightarrow> b) in
      case sn_slot env (sw_name s) b of
        NotConfigured \<Rightarrow> fallback
      | CreateFailed _ \<Rightarrow> fallback
      | _ \<Rightarrow> (case sn_query env (sw_name s) Synthesis b (synth_prompt prompt rs) None of
            Answered (Inr qo) \<Rightarrow> (qo_stdout qo, Some b)
          | _ \<Rightarrow> fallback))"

definition agree :: "step_env \<Rightarrow> step \<Rightarrow> string \<Rightarrow> backend_response list \<Rightarrow> string \<times> string option" where
  "agree env s prompt rs =
     (let first = (br_content (hd rs), Some (br_backend (hd rs))) in
      case get_consensus_strategy s of
        CsFirst \<Rightarrow> first
      | CsVote \<Rightarrow> (case majority_vote (sn_order env) rs of Some r \<Rightarrow> (cr_winner r, None) | None \<Rightarrow> first)
      | CsWeightedVote \<Rightarrow>
          (case weighted_vote (sn_order env) default_weights rs of Some r \<Rightarrow> (wr_winner r, None) | None \<Rightarrow> first)
      | CsSynthesis \<Rightarrow> synthesize env s prompt rs)"

fun oks_of :: "('e, 'a) result list \<Rightarrow> 'a list" where
  "oks_of [] = []"
| "oks_of (Inl _ # rs) = oks_of rs"
| "oks_of (Inr x # rs) = x # oks_of rs"

fun errs_of :: "('e, 'a) result list \<Rightarrow> 'e list" where
  "errs_of [] = []"
| "errs_of (Inl e # rs) = e # errs_of rs"
| "errs_of (Inr _ # rs) = errs_of rs"

definition run_panel :: "step_env \<Rightarrow> nat \<Rightarrow> step \<Rightarrow> string \<Rightarrow> step_result" where
  "run_panel env ms s prompt =
     (let answers = map (panel_answer env ms s prompt) (enumerate 0 (get_backends s)); rs = oks_of answers in
      if rs = [] then error_result (sw_name s) (''All backends failed: '' @ str_join ''; '' (errs_of answers))
        (sn_elapsed env (sw_name s)) None KBackendError
      else case agree env s prompt rs of (output, used) \<Rightarrow> answered_result env s output None None used)"

subsection \<open>A step with one backend\<close>

definition query_attempt :: "step_env \<Rightarrow> nat \<Rightarrow> step \<Rightarrow> string \<Rightarrow> nat \<Rightarrow> (string \<times> step_failure_kind, query_output) result" where
  "query_attempt env ms s prompt i =
     (case sn_query env (sw_name s) (Try i) (sw_backend s) prompt (sw_model s) of
        Answered (Inr qo) \<Rightarrow> Inr qo
      | Answered (Inl e) \<Rightarrow> Inl (''Error: '' @ backend_error_str e, case e of Timeout _ _ \<Rightarrow> KTimeout | _ \<Rightarrow> KBackendError)
      | Late \<Rightarrow> Inl (''Error: '' @ timed_out_message ms, KTimeout))"

text \<open>A verification command of a step that applies no edits; the formatter's result is ignored.\<close>

definition verify_only :: "step_env \<Rightarrow> nat \<Rightarrow> step \<Rightarrow> string option \<Rightarrow> string \<Rightarrow> (string \<times> step_failure_kind, unit) result" where
  "verify_only env ms s verify output =
     (case verify of
        None \<Rightarrow> Inr ()
      | Some cmd \<Rightarrow> (case run_shell env (sw_name s) VerifyRun cmd of
            Answered (Inr _) \<Rightarrow> Inr ()
          | Answered (Inl e) \<Rightarrow> Inl (''Verification failed: '' @ e @ nl2 @ ''Original output:'' @ [CHR 0x0A] @ output, KVerifyFailed)
          | Late \<Rightarrow> Inl (''Verification timed out after '' @ nat_str ms @ ''ms'' @ nl2 @ ''Original output:'' @ [CHR 0x0A] @ output,
              KVerifyFailed)))"

text \<open>The limit that the message of a verification shows: zero when there is none.\<close>

definition shown_limit :: "step_flow \<Rightarrow> step \<Rightarrow> nat" where
  "shown_limit fl s = unat (unwrap_or default_step_timeout_ms (step_timeout fl s))"

definition after_query ::
  "step_env \<Rightarrow> step_flow \<Rightarrow> step \<Rightarrow> string \<Rightarrow> string option \<Rightarrow> string option \<Rightarrow> query_output \<Rightarrow> (string \<times> step_failure_kind, edited) result" where
  "after_query env fl s prompt fmt verify qo =
     (let ed = \<lparr>ed_text = qo_stdout qo, ed_stderr = qo_stderr qo, ed_exit_code = qo_exit_code qo\<rparr> in
      if sw_apply_edits s then sn_edit env s prompt fmt verify ed
      else rbind (verify_only env (shown_limit fl s) s verify (qo_stdout qo)) (\<lambda>_. Inr ed))"

definition run_single ::
  "step_env \<Rightarrow> step_flow \<Rightarrow> step \<Rightarrow> string \<Rightarrow> string option \<Rightarrow> string option \<Rightarrow> step_result" where
  "run_single env fl s prompt fmt verify =
     (let b = sw_backend s; ms = timeout_millis fl s; failed = (\<lambda>msg elapsed kind. error_result (sw_name s) msg elapsed (Some b) kind) in
      case sn_slot env (sw_name s) b of
        NotConfigured \<Rightarrow> failed (''Backend not found: '' @ b) 0 KBackendError
      | CreateFailed e \<Rightarrow> failed (''Failed to create backend: '' @ e) 0 KBackendError
      | NotAvailable \<Rightarrow> failed (''Backend '' @ b @ '' not available'') 0 KBackendError
      | Ready \<Rightarrow> (case rbind (with_retries (sw_retries s) (query_attempt env ms s prompt)) (after_query env fl s prompt fmt verify) of
            Inl (msg, kind) \<Rightarrow> failed msg (sn_elapsed env (sw_name s)) kind
          | Inr ed \<Rightarrow> answered_result env s (ed_text ed) (ed_stderr ed) (ed_exit_code ed) (Some b)))"

text \<open>
  A step that names its one backend in the list has no \<open>backend\<close>, and it is the latter that is looked
  up: with no backend of the empty name it fails.
\<close>

lemma listed_backend_ignored:
  assumes "sw_backends s = [b]" "sw_backend s = []" "sn_slot env (sw_name s) [] = NotConfigured"
  shows "get_backends s = [b]" "sr_output (run_single env fl s prompt fmt v) = ''Backend not found: ''"
  using assms by (simp_all add: get_backends_def run_single_def error_result_def)

subsection \<open>Any step\<close>

record prepared =
  pp_step :: step
  pp_prompt :: string
  pp_shell :: "string option"
  pp_format :: "string option"
  pp_verify :: "string option"
  pp_items :: "json list option"

definition execute_step :: "step_env \<Rightarrow> step_flow \<Rightarrow> prepared \<Rightarrow> step_result" where
  "execute_step env fl p =
     (let s = pp_step p; ms = timeout_millis fl s in
      case pp_items p of
        Some items \<Rightarrow> run_loop env ms s (pp_prompt p) (pp_shell p) items
      | None \<Rightarrow> (case pp_shell p of
            Some cmd \<Rightarrow> run_shell_step env ms s cmd
          | None \<Rightarrow> if 1 < length (get_backends s) then run_panel env ms s (pp_prompt p)
                    else run_single env fl s (pp_prompt p) (pp_format p) (pp_verify p)))"

subsection \<open>Conditions and dependencies\<close>

definition evaluate_condition :: "step_env \<Rightarrow> string \<Rightarrow> results \<Rightarrow> bool" where
  "evaluate_condition env c results =
     (case sn_eval env c results of Holds b \<Rightarrow> b | Undefined \<Rightarrow> False | OtherTemplateError \<Rightarrow> True)"

definition condition_met :: "step_env \<Rightarrow> results \<Rightarrow> step \<Rightarrow> bool" where
  "condition_met env results s = (case sw_when s of Some c \<Rightarrow> evaluate_condition env c results | None \<Rightarrow> True)"

definition dep_failed :: "results \<Rightarrow> string \<Rightarrow> bool" where
  "dep_failed results dep = (case results dep of Some r \<Rightarrow> \<not> sr_success r | None \<Rightarrow> False)"

definition dep_succeeded :: "results \<Rightarrow> string \<Rightarrow> bool" where
  "dep_succeeded results dep = (case results dep of Some r \<Rightarrow> sr_success r | None \<Rightarrow> False)"

definition dep_continues :: "step_flow \<Rightarrow> string \<Rightarrow> bool" where
  "dep_continues fl dep = (case step_map (fl_steps fl) dep of Some s \<Rightarrow> step_continue_on_error fl s | None \<Rightarrow> False)"

definition hard_failed_deps :: "step_flow \<Rightarrow> results \<Rightarrow> step \<Rightarrow> string list" where
  "hard_failed_deps fl results s = filter (\<lambda>dep. dep_failed results dep \<and> \<not> dep_continues fl dep) (sw_depends_on s)"

datatype dep_gate = Proceed | SkipStep string | Abort string

text \<open>A step that asks for a number of successful dependencies does not look at its failed ones.\<close>

definition dependency_gate :: "step_flow \<Rightarrow> results \<Rightarrow> step \<Rightarrow> dep_gate" where
  "dependency_gate fl results s =
     (case sw_min_deps_success s of
        Some m \<Rightarrow>
          (let n = length (filter (dep_succeeded results) (sw_depends_on s));
               msg = ''Consensus not reached: '' @ nat_str n @ ''/'' @ nat_str (length (sw_depends_on s)) @
                 '' dependencies succeeded (need '' @ nat_str m @ '')'' in
           if n < m then
             (if step_continue_on_error fl s then SkipStep (''Skipped: '' @ msg)
              else Abort (''Workflow '' @ quoted (fl_name fl) @ '' failed: step '' @ quoted (sw_name s) @ '' - '' @ msg))
           else Proceed)
      | None \<Rightarrow>
          (let hard = hard_failed_deps fl results s in
           if hard = [] then Proceed
           else if step_continue_on_error fl s then SkipStep (''Skipped: dependency failed ('' @ str_join '', '' hard @ '')'')
           else Abort (''Workflow '' @ quoted (fl_name fl) @ '' failed: step '' @ quoted (sw_name s) @
             '' depends on failed step(s): '' @ str_join '', '' hard)))"

subsection \<open>Preparing a step\<close>

definition render_opt :: "step_env \<Rightarrow> step \<Rightarrow> results \<Rightarrow> string option \<Rightarrow> (run_failure, string option) result" where
  "render_opt env s results t =
     (case t of
        None \<Rightarrow> Inr None
      | Some x \<Rightarrow> rbind (map_err FlowFailure (sn_render env x (sw_name s) results)) (\<lambda>y. Inr (Some y)))"

definition loop_items :: "step_env \<Rightarrow> step \<Rightarrow> results \<Rightarrow> (run_failure, json list option) result" where
  "loop_items env s results =
     (case sw_for_each s of
        None \<Rightarrow> Inr None
      | Some fe \<Rightarrow> (case parse_for_each_array (sn_json env) fe results of
            Inl e \<Rightarrow> Inl (Message (''Step '' @ quoted (sw_name s) @ '': '' @ e))
          | Inr xs \<Rightarrow> Inr (Some xs)))"

definition prepare :: "step_env \<Rightarrow> results \<Rightarrow> step \<Rightarrow> (run_failure, prepared) result" where
  "prepare env results s =
     rbind (map_err FlowFailure (sn_render env (sw_prompt s) (sw_name s) results)) (\<lambda>prompt.
       rbind (render_opt env s results (sw_shell s)) (\<lambda>shell.
         rbind (render_opt env s results (sw_verify s)) (\<lambda>v.
           rbind (loop_items env s results) (\<lambda>items.
             Inr \<lparr>pp_step = s, pp_prompt = prompt, pp_shell = shell,
                  pp_format = (case v of Some x \<Rightarrow> sn_format_of env x | None \<Rightarrow> None),
                  pp_verify = (case v of Some x \<Rightarrow> sn_verify_of env x | None \<Rightarrow> None), pp_items = items\<rparr>))))"

subsection \<open>Levels\<close>

type_synonym progress = "results \<times> step_result list"

definition record_result :: "progress \<Rightarrow> step_result \<Rightarrow> progress" where
  "record_result st r = ((fst st)(sr_name r \<mapsto> r), snd st @ [r])"

definition skip_result :: "step \<Rightarrow> string \<Rightarrow> step_result" where
  "skip_result s msg = error_result (sw_name s) msg 0 None KSkipped"

definition prepare_one ::
  "step_env \<Rightarrow> step_flow \<Rightarrow> string \<Rightarrow> progress \<times> prepared list \<Rightarrow> (run_failure, progress \<times> prepared list) result" where
  "prepare_one env fl name st =
     (case st of (pg, ready) \<Rightarrow>
        (case step_map (fl_steps fl) name of
           None \<Rightarrow> Inl (Message (''Step '' @ quoted name @ '' not found in workflow''))
         | Some s \<Rightarrow>
             if \<not> condition_met env (fst pg) s then Inr (pg, ready)
             else (case dependency_gate fl (fst pg) s of
                 Abort msg \<Rightarrow> Inl (Message msg)
               | SkipStep msg \<Rightarrow> Inr (record_result pg (skip_result s msg), ready)
               | Proceed \<Rightarrow> rbind (prepare env (fst pg) s) (\<lambda>p. Inr (pg, ready @ [p])))))"

fun prepare_level ::
  "step_env \<Rightarrow> step_flow \<Rightarrow> string list \<Rightarrow> progress \<times> prepared list \<Rightarrow> (run_failure, progress \<times> prepared list) result" where
  "prepare_level env fl [] st = Inr st"
| "prepare_level env fl (n # ns) st = rbind (prepare_one env fl n st) (prepare_level env fl ns)"

definition run_level :: "step_env \<Rightarrow> step_flow \<Rightarrow> string list \<Rightarrow> progress \<Rightarrow> (run_failure, progress) result" where
  "run_level env fl names pg =
     rbind (prepare_level env fl names (pg, [])) (\<lambda>(pg', ready).
       Inr (foldl record_result pg' (map (execute_step env fl) ready)))"

fun run_levels :: "step_env \<Rightarrow> step_flow \<Rightarrow> string list list \<Rightarrow> progress \<Rightarrow> (run_failure, progress) result" where
  "run_levels env fl [] pg = Inr pg"
| "run_levels env fl (l # ls) pg = rbind (run_level env fl l pg) (run_levels env fl ls)"

definition run_workflow :: "step_env \<Rightarrow> step_flow \<Rightarrow> (run_failure, step_result list) result" where
  "run_workflow env fl =
     rbind (group_by_depth (sn_order env) (fl_steps fl) (fl_name fl)) (\<lambda>levels.
       rbind (run_levels env fl levels (\<lambda>_. None, [])) (\<lambda>pg. Inr (snd pg)))"

end
