(* ===== verification/StepProps.thy ===== *)
theory StepProps
  imports StepRunner
begin

text \<open>
  What a run of a step-based workflow guarantees: every result comes from a step whose dependencies
  allowed it, results are in the order of the dependencies, and every failed step says why.
\<close>

subsection \<open>Results by name\<close>

definition result_map :: "step_result list \<Rightarrow> results" where
  "result_map rs = map_of (rev (map (\<lambda>r. (sr_name r, r)) rs))"

lemma result_map_Nil [simp]: "result_map [] = (\<lambda>_. None)"
  by (simp add: result_map_def)

lemma result_map_snoc [simp]: "result_map (rs @ [r]) = (result_map rs)(sr_name r \<mapsto> r)"
  by (simp add: result_map_def)

lemma result_map_append: "result_map (as @ bs) = result_map as ++ result_map bs"
  by (simp add: result_map_def)

lemma result_map_None: "result_map rs n = None \<longleftrightarrow> n \<notin> sr_name ` set rs"
  by (simp add: result_map_def map_of_eq_None_iff image_image)

lemma result_map_Some:
  assumes "distinct (map sr_name rs)"
  shows "result_map rs n = Some r \<longleftrightarrow> r \<in> set rs \<and> sr_name r = n"
proof -
  have "distinct (map fst (rev (map (\<lambda>r. (sr_name r, r)) rs)))"
    using assms by (simp add: rev_map [symmetric] comp_def)
  then show ?thesis unfolding result_map_def by (auto simp: map_of_eq_Some_iff)
qed

lemma result_map_other: "n \<notin> sr_name ` set bs \<Longrightarrow> result_map (as @ bs) n = result_map as n"
  by (simp add: result_map_append map_add_def result_map_None [THEN iffD2])

lemma record_results:
  "foldl record_result (result_map rs, rs) new = (result_map (rs @ new), rs @ new)"
  by (induction new arbitrary: rs) (simp_all add: record_result_def result_map_snoc [symmetric] del: result_map_snoc)

lemma error_result_simps [simp]:
  "sr_name (error_result n m e b k) = n" "sr_success (error_result n m e b k) = False"
  "sr_failure (error_result n m e b k) = Some \<lparr>sf_kind = k, sf_message = m, sf_backend = b, sf_exit_code = None, sf_elapsed_ms = e\<rparr>"
  by (simp_all add: error_result_def)

lemma answered_name: "sr_name (answered_result env s out err code b) = sw_name s"
  by (simp add: answered_result_def Let_def split: prod.splits)

lemma execute_name [simp]: "sr_name (execute_step env fl p) = sw_name (pp_step p)"
  by (simp add: execute_step_def run_loop_def run_shell_step_def run_panel_def run_single_def Let_def answered_name
      split: option.splits sum.splits prod.splits backend_slot.splits)

subsection \<open>Failures explain themselves\<close>

definition explains_failure :: "step_result \<Rightarrow> bool" where
  "explains_failure r \<longleftrightarrow> (sr_success r \<longleftrightarrow> sr_failure r = None \<and> (\<forall>v. sr_validation r = Some v \<longrightarrow> va_passed v))"

lemma answered_explains: "explains_failure (answered_result env s out err code b)"
  by (simp add: explains_failure_def answered_result_def Let_def split: prod.splits option.splits)

lemma answered_no_failure: "sr_failure (answered_result env s out err code b) = None"
  by (simp add: answered_result_def Let_def split: prod.splits)

lemma execute_explains: "explains_failure (execute_step env fl p)"
proof -
  have e: "explains_failure (error_result n m t b k)" for n m t b k by (simp add: explains_failure_def)
  show ?thesis
    by (simp add: execute_step_def run_shell_step_def run_panel_def run_single_def Let_def answered_explains e
        split: option.splits sum.splits prod.splits backend_slot.splits)
      (simp add: explains_failure_def run_loop_def Let_def)
qed

subsection \<open>Levels\<close>

text \<open>A result that a step may have, given the results of its dependencies.\<close>

definition allowed :: "step_env \<Rightarrow> step_flow \<Rightarrow> results \<Rightarrow> step \<Rightarrow> step_result \<Rightarrow> bool" where
  "allowed env fl results s r \<longleftrightarrow>
     (case dependency_gate fl results s of
        Proceed \<Rightarrow> \<exists>p. pp_step p = s \<and> r = execute_step env fl p
      | SkipStep msg \<Rightarrow> r = skip_result s msg
      | Abort _ \<Rightarrow> False)"

lemma gate_cong:
  assumes "\<forall>dep \<in> set (sw_depends_on s). results dep = results' dep"
  shows "dependency_gate fl results s = dependency_gate fl results' s"
proof -
  have "filter (dep_succeeded results) (sw_depends_on s) = filter (dep_succeeded results') (sw_depends_on s)"
    using assms by (intro filter_cong) (auto simp: dep_succeeded_def)
  moreover have "hard_failed_deps fl results s = hard_failed_deps fl results' s"
    unfolding hard_failed_deps_def using assms by (intro filter_cong) (auto simp: dep_failed_def)
  ultimately show ?thesis unfolding dependency_gate_def by (simp only:)
qed

lemma allowed_cong:
  "\<forall>dep \<in> set (sw_depends_on s). results dep = results' dep \<Longrightarrow> allowed env fl results s r = allowed env fl results' s r"
  using gate_cong [of s results results' fl] by (simp add: allowed_def)

definition flow_step :: "step_flow \<Rightarrow> string \<Rightarrow> step option" where
  "flow_step fl = step_map (fl_steps fl)"

text \<open>
  What the preparation of the steps \<open>ns\<close> of a level leaves, given the results the level began with:
  results of steps that are skipped and steps that are ready, all distinct and all allowed; a step
  that is in neither has a condition.
\<close>

definition level_part ::
  "step_env \<Rightarrow> step_flow \<Rightarrow> results \<Rightarrow> string list \<Rightarrow> step_result list \<Rightarrow> prepared list \<Rightarrow> bool" where
  "level_part env fl base ns skips preps \<longleftrightarrow>
     (let names = map sr_name skips @ map (\<lambda>p. sw_name (pp_step p)) preps in
      list_all (\<lambda>r. \<exists>s. flow_step fl (sr_name r) = Some s \<and> allowed env fl base s r) (skips @ map (execute_step env fl) preps) \<and>
      distinct names \<and> set names \<subseteq> set ns \<and>
      (\<forall>n \<in> set ns. n \<notin> set names \<longrightarrow> (\<exists>s. flow_step fl n = Some s \<and> sw_when s \<noteq> None)))"

lemma level_part_Cons:
  assumes "level_part env fl base ns skips preps" "n \<notin> set ns" "flow_step fl n = Some s"
  shows "sw_when s \<noteq> None \<Longrightarrow> level_part env fl base (n # ns) skips preps"
    and "sr_name r = n \<Longrightarrow> allowed env fl base s r \<Longrightarrow> level_part env fl base (n # ns) (r # skips) preps"
    and "pp_step p = s \<Longrightarrow> sw_name s = n \<Longrightarrow> allowed env fl base s (execute_step env fl p) \<Longrightarrow>
      level_part env fl base (n # ns) skips (p # preps)"
  using assms by (auto simp: level_part_def Let_def)

text \<open>
  The rest \<open>ns\<close> of a level \<open>L\<close> none of whose steps depends on another.
\<close>

lemma prepare_level_ok:
  assumes "prepare_level env fl ns ((result_map ord, ord), ready) = Inr (pg', ready')"
    and "distinct ns" "set ns \<subseteq> L" "\<forall>n. n \<notin> L \<longrightarrow> result_map ord n = base n"
    and "\<forall>n \<in> L. \<forall>s. flow_step fl n = Some s \<longrightarrow> set (sw_depends_on s) \<inter> L = {}"
  shows "\<exists>skips preps. pg' = (result_map (ord @ skips), ord @ skips) \<and> ready' = ready @ preps \<and> level_part env fl base ns skips preps"
  using assms(1-4)
proof (induction ns arbitrary: ord ready)
  case Nil
  then show ?case by (intro exI [of _ "[]"]) (simp add: level_part_def)
next
  case (Cons n ns)
  obtain s where s: "flow_step fl n = Some s" "sw_name s = n"
    using Cons.prems(1) step_map_name [of "fl_steps fl" n]
    by (cases "step_map (fl_steps fl) n") (auto simp: prepare_one_def flow_step_def)
  have deps: "\<forall>dep \<in> set (sw_depends_on s). result_map ord dep = base dep"
    using assms(5) s(1) Cons.prems(3,4) by auto
  note gate = gate_cong [OF deps, of fl]
  have one: "prepare_one env fl n ((result_map ord, ord), ready) =
     (if \<not> condition_met env (result_map ord) s then Inr ((result_map ord, ord), ready)
      else case dependency_gate fl base s of
          Abort msg \<Rightarrow> Inl (Message msg)
        | SkipStep msg \<Rightarrow> Inr (record_result (result_map ord, ord) (skip_result s msg), ready)
        | Proceed \<Rightarrow> rbind (prepare env (result_map ord) s) (\<lambda>p. Inr ((result_map ord, ord), ready @ [p])))"
    using s gate by (simp add: prepare_one_def flow_step_def split: dep_gate.splits)
  have rest: "distinct ns" "set ns \<subseteq> L" "n \<notin> set ns" using Cons.prems(2,3) by auto
  show ?case
  proof (cases "condition_met env (result_map ord) s")
    case False
    with Cons.prems(1) one have "prepare_level env fl ns ((result_map ord, ord), ready) = Inr (pg', ready')" by simp
    from Cons.IH [OF this rest(1,2) Cons.prems(4)] obtain skips preps where
      ih: "pg' = (result_map (ord @ skips), ord @ skips)" "ready' = ready @ preps" "level_part env fl base ns skips preps"
      by (elim exE conjE)
    have "sw_when s \<noteq> None" using False by (auto simp: condition_met_def split: option.splits)
    from level_part_Cons(1) [OF ih(3) rest(3) s(1) this] ih(1,2) show ?thesis by blast
  next
    case True
    show ?thesis
    proof (cases "dependency_gate fl base s")
      case Proceed
      with Cons.prems(1) one True obtain p where p: "prepare env (result_map ord) s = Inr p"
        "prepare_level env fl ns ((result_map ord, ord), ready @ [p]) = Inr (pg', ready')"
        by (cases "prepare env (result_map ord) s") auto
      have ps: "pp_step p = s" using p(1) by (auto simp: prepare_def rbind_Inr)
      have al: "allowed env fl base s (execute_step env fl p)" using Proceed ps by (auto simp: allowed_def)
      from Cons.IH [OF p(2) rest(1,2) Cons.prems(4)] obtain skips preps where
        ih: "pg' = (result_map (ord @ skips), ord @ skips)" "ready' = (ready @ [p]) @ preps" "level_part env fl base ns skips preps"
        by (elim exE conjE)
      from level_part_Cons(3) [OF ih(3) rest(3) s(1) ps s(2) al] ih(1,2) show ?thesis by auto
    next
      case (SkipStep msg)
      let ?r = "skip_result s msg"
      have name: "sr_name ?r = n" using s(2) by (simp add: skip_result_def)
      from Cons.prems(1) one True SkipStep have p: "prepare_level env fl ns ((result_map (ord @ [?r]), ord @ [?r]), ready) = Inr (pg', ready')"
        by (simp add: record_result_def)
      have base: "\<forall>k. k \<notin> L \<longrightarrow> result_map (ord @ [?r]) k = base k" using Cons.prems(3,4) name by auto
      have al: "allowed env fl base s ?r" using SkipStep by (simp add: allowed_def)
      from Cons.IH [OF p rest(1,2) base] obtain skips preps where
        ih: "pg' = (result_map ((ord @ [?r]) @ skips), (ord @ [?r]) @ skips)" "ready' = ready @ preps" "level_part env fl base ns skips preps"
        by (elim exE conjE)
      from level_part_Cons(2) [OF ih(3) rest(3) s(1) name al] ih(1,2) show ?thesis
        by (intro exI [of _ "?r # skips"] exI [of _ preps]) simp
    next
      case (Abort msg)
      with Cons.prems(1) one True show ?thesis by simp
    qed
  qed
qed

subsection \<open>Runs\<close>

text \<open>
  The state of a run whose steps \<open>past\<close> are behind it: distinct results of past steps, each allowed
  by the results of its dependencies, which come before it.
\<close>

definition run_ok :: "step_env \<Rightarrow> step_flow \<Rightarrow> string set \<Rightarrow> step_result list \<Rightarrow> bool" where
  "run_ok env fl past ord \<longleftrightarrow> distinct (map sr_name ord) \<and> sr_name ` set ord \<subseteq> past \<and>
     (\<forall>as r bs. ord = as @ r # bs \<longrightarrow> (\<exists>s. flow_step fl (sr_name r) = Some s \<and> set (sw_depends_on s) \<subseteq> past \<and>
        set (sw_depends_on s) \<inter> sr_name ` set (r # bs) = {} \<and> allowed env fl (result_map as) s r)) \<and>
     (\<forall>n \<in> past. n \<notin> sr_name ` set ord \<longrightarrow> (\<exists>s. flow_step fl n = Some s \<and> sw_when s \<noteq> None))"

lemma run_ok_at:
  assumes "run_ok env fl past ord" "ord = as @ r # bs"
  shows "\<exists>s. flow_step fl (sr_name r) = Some s \<and> set (sw_depends_on s) \<subseteq> past \<and>
    set (sw_depends_on s) \<inter> sr_name ` set (r # bs) = {} \<and> allowed env fl (result_map as) s r"
  using assms(1) unfolding run_ok_def by (elim conjE allE) (rule mp, assumption, rule assms(2))

lemma run_ok_facts:
  assumes "run_ok env fl past ord"
  shows "distinct (map sr_name ord)" "sr_name ` set ord \<subseteq> past"
    and "n \<in> past \<Longrightarrow> n \<notin> sr_name ` set ord \<Longrightarrow> \<exists>s. flow_step fl n = Some s \<and> sw_when s \<noteq> None"
  using assms unfolding run_ok_def by simp_all

lemma run_okI:
  assumes "distinct (map sr_name ord)" "sr_name ` set ord \<subseteq> past"
    and "\<And>as r bs. ord = as @ r # bs \<Longrightarrow> \<exists>s. flow_step fl (sr_name r) = Some s \<and> set (sw_depends_on s) \<subseteq> past \<and>
        set (sw_depends_on s) \<inter> sr_name ` set (r # bs) = {} \<and> allowed env fl (result_map as) s r"
    and "\<And>n. n \<in> past \<Longrightarrow> n \<notin> sr_name ` set ord \<Longrightarrow> \<exists>s. flow_step fl n = Some s \<and> sw_when s \<noteq> None"
  shows "run_ok env fl past ord"
  unfolding run_ok_def using assms(1,2) by (intro conjI allI impI ballI assms(3,4))

lemma append_split_at:
  assumes "xs @ ys = as @ r # bs"
  obtains us where "xs = as @ r # us" "bs = us @ ys" | us where "ys = us @ r # bs" "as = xs @ us"
proof -
  from assms obtain us where "xs = as @ us \<and> us @ ys = r # bs \<or> xs @ us = as \<and> ys = us @ r # bs"
    unfolding append_eq_append_conv2 by blast
  then show thesis using that(1) [of "tl us"] that(2) [of us] that(2) [of "[]"] by (cases us) auto
qed

lemma run_level_ok:
  assumes "run_level env fl L (result_map ord, ord) = Inr pg'" "run_ok env fl past ord" "distinct L" "set L \<inter> past = {}"
    and "\<forall>n \<in> set L. \<forall>s. flow_step fl n = Some s \<longrightarrow> set (sw_depends_on s) \<subseteq> past"
  shows "\<exists>ord'. pg' = (result_map ord', ord') \<and> run_ok env fl (past \<union> set L) ord'"
proof -
  from assms(1) obtain pg1 ready where p: "prepare_level env fl L ((result_map ord, ord), []) = Inr (pg1, ready)"
    "pg' = foldl record_result pg1 (map (execute_step env fl) ready)"
    by (auto simp: run_level_def rbind_Inr)
  have nodeps: "\<forall>n \<in> set L. \<forall>s. flow_step fl n = Some s \<longrightarrow> set (sw_depends_on s) \<inter> set L = {}"
    using assms(4,5) by blast
  from prepare_level_ok [OF p(1) assms(3) subset_refl _ nodeps, of "result_map ord"] obtain skips preps where
    l: "pg1 = (result_map (ord @ skips), ord @ skips)" "ready = preps" "level_part env fl (result_map ord) L skips preps"
    by auto
  let ?new = "skips @ map (execute_step env fl) preps"
  have names: "map sr_name ?new = map sr_name skips @ map (\<lambda>p. sw_name (pp_step p)) preps" by simp
  have new: "list_all (\<lambda>r. \<exists>s. flow_step fl (sr_name r) = Some s \<and> allowed env fl (result_map ord) s r) ?new"
    "distinct (map sr_name ?new)" "sr_name ` set ?new \<subseteq> set L"
    "\<forall>n \<in> set L. n \<notin> sr_name ` set ?new \<longrightarrow> (\<exists>s. flow_step fl n = Some s \<and> sw_when s \<noteq> None)"
    using l(3) unfolding level_part_def Let_def names [symmetric] by (auto simp: image_Un image_image)
  note ord = run_ok_facts [OF assms(2)]
  have fresh: "n \<notin> sr_name ` set ?new" if "n \<in> past" for n using that new(3) assms(4) by blast
  have "\<exists>s. flow_step fl (sr_name r) = Some s \<and> set (sw_depends_on s) \<subseteq> past \<union> set L \<and>
      set (sw_depends_on s) \<inter> sr_name ` set (r # bs) = {} \<and> allowed env fl (result_map as) s r"
    if split: "ord @ ?new = as @ r # bs" for as r bs
  proof -
    from split consider us where "ord = as @ r # us" "bs = us @ ?new" | us where "?new = us @ r # bs" "as = ord @ us"
      by (rule append_split_at)
    then show ?thesis
    proof cases
      case 1
      from run_ok_at [OF assms(2) 1(1)] obtain s where "flow_step fl (sr_name r) = Some s" "set (sw_depends_on s) \<subseteq> past"
        "set (sw_depends_on s) \<inter> sr_name ` set (r # us) = {}" "allowed env fl (result_map as) s r" by (elim exE conjE)
      moreover from this fresh have "set (sw_depends_on s) \<inter> sr_name ` set ?new = {}" by blast
      ultimately show ?thesis using 1(2) by (intro exI [of _ s]) (auto simp del: set_append simp add: set_append [of us] image_Un)
    next
      case 2
      then have "r \<in> set ?new" by simp
      with new(1) obtain s where s: "flow_step fl (sr_name r) = Some s" "allowed env fl (result_map ord) s r"
        unfolding list_all_iff by blast
      from \<open>r \<in> set ?new\<close> new(3) s(1) assms(5) have deps: "set (sw_depends_on s) \<subseteq> past" by blast
      have sub: "sr_name ` set (r # bs) \<subseteq> sr_name ` set ?new" "sr_name ` set us \<subseteq> sr_name ` set ?new"
        unfolding 2(1) by auto
      have "\<forall>dep \<in> set (sw_depends_on s). result_map (ord @ us) dep = result_map ord dep"
      proof
        fix dep assume "dep \<in> set (sw_depends_on s)"
        with deps fresh sub(2) have "dep \<notin> sr_name ` set us" by blast
        then show "result_map (ord @ us) dep = result_map ord dep" by (rule result_map_other)
      qed
      from allowed_cong [OF this] s(2) have "allowed env fl (result_map as) s r" unfolding 2(2) by blast
      with s(1) deps fresh sub(1) show ?thesis by blast
    qed
  qed
  note at = this
  have disj: "sr_name ` set ord \<inter> sr_name ` set ?new = {}" using ord(2) fresh by blast
  have sets: "sr_name ` set (ord @ ?new) = sr_name ` set ord \<union> sr_name ` set ?new" by (simp only: set_append image_Un)
  have "run_ok env fl (past \<union> set L) (ord @ ?new)"
  proof (rule run_okI [OF _ _ at])
    show "distinct (map sr_name (ord @ ?new))"
      using ord(1) new(2) disj unfolding map_append [of sr_name ord] distinct_append by (simp only: set_map)
    show "sr_name ` set (ord @ ?new) \<subseteq> past \<union> set L" unfolding sets using ord(2) new(3) by blast
    show "\<exists>s. flow_step fl n = Some s \<and> sw_when s \<noteq> None" if "n \<in> past \<union> set L" "n \<notin> sr_name ` set (ord @ ?new)" for n
      using that ord(3) [of n] new(4) unfolding sets by blast
  qed
  moreover have "pg' = (result_map (ord @ ?new), ord @ ?new)"
    unfolding p(2) l(1,2) record_results by simp
  ultimately show ?thesis by blast
qed

lemma run_levels_ok:
  assumes "run_levels env fl ls (result_map ord, ord) = Inr pg'" "run_ok env fl past ord" "distinct (concat ls)"
    and "set (concat ls) \<inter> past = {}"
    and "\<forall>pre l post n s. ls = pre @ l # post \<longrightarrow> n \<in> set l \<longrightarrow> flow_step fl n = Some s \<longrightarrow>
      set (sw_depends_on s) \<subseteq> past \<union> set (concat pre)"
  shows "\<exists>ord'. pg' = (result_map ord', ord') \<and> run_ok env fl (past \<union> set (concat ls)) ord'"
  using assms
proof (induction ls arbitrary: ord past)
  case (Cons l ls)
  from Cons.prems(1) obtain pg1 where p: "run_level env fl l (result_map ord, ord) = Inr pg1" "run_levels env fl ls pg1 = Inr pg'"
    by (auto simp: rbind_Inr)
  have "\<forall>n \<in> set l. \<forall>s. flow_step fl n = Some s \<longrightarrow> set (sw_depends_on s) \<subseteq> past"
    using Cons.prems(5) [rule_format, of "[]" l ls] by simp
  from run_level_ok [OF p(1) Cons.prems(2) _ _ this] Cons.prems(3,4) obtain ord1 where
    1: "pg1 = (result_map ord1, ord1)" "run_ok env fl (past \<union> set l) ord1" by auto
  have deps: "\<forall>pre k post n s. ls = pre @ k # post \<longrightarrow> n \<in> set k \<longrightarrow> flow_step fl n = Some s \<longrightarrow>
      set (sw_depends_on s) \<subseteq> (past \<union> set l) \<union> set (concat pre)"
    using Cons.prems(5) [rule_format, of "l # _"] by (intro allI impI) (auto simp: Un_assoc)
  have "distinct (concat ls)" "set (concat ls) \<inter> (past \<union> set l) = {}" using Cons.prems(3,4) by auto
  from Cons.IH [OF p(2) [unfolded 1(1)] 1(2) this deps] show ?case by (simp add: Un_assoc)
next
  case Nil
  then show ?case by auto
qed

lemma run_workflow_ok:
  assumes "\<forall>xs. mset (sn_order env xs) = mset xs" "run_workflow env fl = Inr ord"
  shows "run_ok env fl (sw_name ` set (fl_steps fl)) ord" and "distinct (map sw_name (fl_steps fl))"
proof -
  from assms(2) obtain levels pg where r: "group_by_depth (sn_order env) (fl_steps fl) (fl_name fl) = Inr levels"
    "run_levels env fl levels (result_map [], []) = Inr pg" "ord = snd pg"
    by (auto simp: run_workflow_def rbind_Inr)
  show names: "distinct (map sw_name (fl_steps fl))"
    using r(1) unfolding group_by_depth_Inr [OF assms(1)] by blast
  note lv = group_levels_ok [OF assms(1) r(1)]
  have deps: "\<forall>pre l post n s. levels = pre @ l # post \<longrightarrow> n \<in> set l \<longrightarrow> flow_step fl n = Some s \<longrightarrow>
      set (sw_depends_on s) \<subseteq> {} \<union> set (concat pre)"
  proof (intro allI impI subsetI)
    fix pre l post n s dep
    assume l: "levels = pre @ l # post" "n \<in> set l" "flow_step fl n = Some s" and dep: "dep \<in> set (sw_depends_on s)"
    have s: "s \<in> set (fl_steps fl)" "sw_name s = n" using l(3) by (auto simp: flow_step_def dest: step_map_name)
    have "levels ! length pre = l" "length pre < length levels" using l(1) by simp_all
    with lv s dep l(2) obtain j where "j < length pre" "dep \<in> set (levels ! j)" by metis
    then show "dep \<in> {} \<union> set (concat pre)" using l(1) by (auto simp: nth_append intro!: bexI [of _ "pre ! j"])
  qed
  have "run_ok env fl {} []" by (simp add: run_ok_def)
  from run_levels_ok [OF r(2) this _ _ deps] lv obtain ord' where
    "pg = (result_map ord', ord')" "run_ok env fl ({} \<union> set (concat levels)) ord'" by blast
  with r(3) lv show "run_ok env fl (sw_name ` set (fl_steps fl)) ord" by simp
qed

subsection \<open>Properties of a run\<close>

text \<open>
  C13: A run that ends gives each step at most one result, after the results of the steps it depends on,
  and the one its dependencies allow: the execution of the step, or the mark that it was skipped.
  Only a step with a condition may have none.
\<close>

theorem run_results_allowed:
  assumes "\<forall>xs. mset (sn_order env xs) = mset xs" "run_workflow env fl = Inr ord"
  shows "distinct (map sr_name ord) \<and>
    (\<forall>as r bs. ord = as @ r # bs \<longrightarrow> (\<exists>s \<in> set (fl_steps fl). sr_name r = sw_name s \<and>
       set (sw_depends_on s) \<inter> sr_name ` set (r # bs) = {} \<and>
       (case dependency_gate fl (result_map as) s of
          Proceed \<Rightarrow> \<exists>p. pp_step p = s \<and> r = execute_step env fl p
        | SkipStep msg \<Rightarrow> r = skip_result s msg
        | Abort _ \<Rightarrow> False))) \<and>
    (\<forall>s \<in> set (fl_steps fl). sw_name s \<notin> sr_name ` set ord \<longrightarrow> sw_when s \<noteq> None)"
proof -
  note ok = run_workflow_ok(1) [OF assms]
  have steps: "flow_step fl n = Some s \<longleftrightarrow> s \<in> set (fl_steps fl) \<and> sw_name s = n" for n s
    using step_map_distinct [OF run_workflow_ok(2) [OF assms]] by (simp add: flow_step_def)
  have "\<exists>s \<in> set (fl_steps fl). sr_name r = sw_name s \<and> set (sw_depends_on s) \<inter> sr_name ` set (r # bs) = {} \<and>
      allowed env fl (result_map as) s r" if "ord = as @ r # bs" for as r bs
  proof -
    from run_ok_at [OF ok that] obtain s where "flow_step fl (sr_name r) = Some s" "set (sw_depends_on s) \<inter> sr_name ` set (r # bs) = {}"
      "allowed env fl (result_map as) s r" by (elim exE conjE)
    then show ?thesis unfolding steps by (intro bexI [of _ s]) auto
  qed
  moreover have "sw_when s \<noteq> None" if "s \<in> set (fl_steps fl)" "sw_name s \<notin> sr_name ` set ord" for s
  proof -
    from run_ok_facts(3) [OF ok _ that(2)] that(1) obtain t where "flow_step fl (sw_name s) = Some t" "sw_when t \<noteq> None" by blast
    moreover have "flow_step fl (sw_name s) = Some s" using that(1) by (simp add: steps)
    ultimately show ?thesis by simp
  qed
  ultimately show ?thesis using run_ok_facts(1) [OF ok] unfolding allowed_def by (intro conjI allI impI ballI)
qed

definition was_skipped :: "step_result \<Rightarrow> bool" where
  "was_skipped r \<longleftrightarrow> (\<exists>f. sr_failure r = Some f \<and> sf_kind f = KSkipped)"

lemma gate_proceeds:
  assumes "dependency_gate fl results s = Proceed"
  shows "case sw_min_deps_success s of
      None \<Rightarrow> \<forall>dep \<in> set (sw_depends_on s). dep_failed results dep \<longrightarrow> dep_continues fl dep
    | Some m \<Rightarrow> m \<le> length (filter (dep_succeeded results) (sw_depends_on s))"
  using assms by (auto simp: dependency_gate_def hard_failed_deps_def Let_def filter_empty_conv split: option.splits if_splits)

text \<open>
  C12: A step that was run, and not skipped, had no failed dependency but those that may fail; or, when it
  asks for a number of successful dependencies, at least so many.
\<close>

theorem run_only_after_dependencies:
  assumes "\<forall>xs. mset (sn_order env xs) = mset xs" "run_workflow env fl = Inr ord"
    and "s \<in> set (fl_steps fl)" "r \<in> set ord" "sr_name r = sw_name s" "\<not> was_skipped r"
  shows "case sw_min_deps_success s of
      None \<Rightarrow> \<forall>d \<in> set ord. sr_name d \<in> set (sw_depends_on s) \<longrightarrow> sr_success d \<or> dep_continues fl (sr_name d)
    | Some m \<Rightarrow> m \<le> length (filter (dep_succeeded (result_map ord)) (sw_depends_on s))"
proof -
  note ok = run_workflow_ok(1) [OF assms(1,2)]
  obtain as bs where split: "ord = as @ r # bs" using assms(4) by (auto simp: in_set_conv_decomp)
  from run_ok_at [OF ok split] obtain t where t: "flow_step fl (sr_name r) = Some t" "set (sw_depends_on t) \<inter> sr_name ` set (r # bs) = {}"
    "allowed env fl (result_map as) t r" by (elim exE conjE)
  have "flow_step fl (sw_name s) = Some s"
    using assms(3) step_map_distinct [OF run_workflow_ok(2) [OF assms(1,2)]] by (simp add: flow_step_def)
  with t(1) assms(5) have ts: "t = s" by simp
  have "dependency_gate fl (result_map as) s = Proceed"
    using t(3) assms(6) unfolding ts
    by (cases "dependency_gate fl (result_map as) s") (auto simp: allowed_def skip_result_def was_skipped_def)
  moreover have same: "\<forall>dep \<in> set (sw_depends_on s). result_map as dep = result_map ord dep"
    using t(2) result_map_other [of _ "r # bs" as] unfolding ts split by (metis disjoint_iff)
  ultimately have "dependency_gate fl (result_map ord) s = Proceed" using gate_cong [OF same, of fl] by simp
  note g = gate_proceeds [OF this]
  show ?thesis
  proof (cases "sw_min_deps_success s")
    case None
    have "result_map ord (sr_name d) = Some d" if "d \<in> set ord" for d
      using result_map_Some [OF run_ok_facts(1) [OF ok], of "sr_name d" d] that by blast
    with g None show ?thesis by (auto simp: dep_failed_def)
  next
    case (Some m)
    with g show ?thesis by simp
  qed
qed

lemma failed_result:
  assumes "\<forall>xs. mset (sn_order env xs) = mset xs" "run_workflow env fl = Inr ord" "r \<in> set ord"
  shows "explains_failure r"
proof -
  note ok = run_workflow_ok(1) [OF assms(1,2)]
  obtain as bs where "ord = as @ r # bs" using assms(3) by (auto simp: in_set_conv_decomp)
  from run_ok_at [OF ok this] obtain t where "allowed env fl (result_map as) t r" by (elim exE conjE)
  then show ?thesis
    using execute_explains by (auto simp: allowed_def skip_result_def explains_failure_def split: dep_gate.splits)
qed

text \<open>
  The mark of success of every step of a run agrees with the rest of its result: a step succeeded
  exactly when no failure is recorded and its validation, if it had one, passed. So every failed
  step says why, by one or the other.
\<close>

theorem success_marks_agree:
  assumes "\<forall>xs. mset (sn_order env xs) = mset xs" "run_workflow env fl = Inr ord" "r \<in> set ord"
  shows "sr_success r \<longleftrightarrow> sr_failure r = None \<and> (\<forall>v. sr_validation r = Some v \<longrightarrow> va_passed v)"
  using failed_result [OF assms] by (simp add: explains_failure_def)

subsection \<open>Examples\<close>

text \<open>A command that fails, and a step that depends on it all the same.\<close>

definition demo_step_env :: step_env where
  "demo_step_env = \<lparr>sn_json = \<lparr>js_parse = (\<lambda>_. Inl []), js_show = (\<lambda>_. [])\<rparr>, sn_eval = (\<lambda>_ _. Holds True),
     sn_render = (\<lambda>t _ _. Inr t), sn_loop_vars = (\<lambda>t _ _. t), sn_format_of = (\<lambda>_. None), sn_verify_of = (\<lambda>_. None),
     sn_wrapper = None,
     sn_process = (\<lambda>_ _ cmd. Answered (if cmd = ''false'' then Finished (Some 1) [] [] else Finished (Some 0) ''ok'' [])),
     sn_slot = (\<lambda>_ _. NotConfigured), sn_query = (\<lambda>_ _ _ _ _. Late), sn_edit = (\<lambda>_ _ _ _ ed. Inr ed),
     sn_validator = (\<lambda>_. \<lparr>ve_slot = (\<lambda>_. NotConfigured), ve_query = (\<lambda>_ _ _. Late), ve_read = (\<lambda>_. None), ve_elapsed = 0\<rparr>),
     sn_elapsed = (\<lambda>_. 0), sn_order = rev\<rparr>"

definition demo_run :: step_flow where
  "demo_run = demo_flow None [(demo_step ''a'' [])\<lparr>sw_shell := Some ''false'', sw_continue_on_error := Some True\<rparr>,
     (demo_step ''b'' [''a''])\<lparr>sw_shell := Some ''true''\<rparr>]"

definition run_shape :: "(run_failure, step_result list) result \<Rightarrow> (string \<times> bool) list option" where
  "run_shape r = (case r of Inl _ \<Rightarrow> None | Inr rs \<Rightarrow> Some (map (\<lambda>r. (sr_name r, sr_success r)) rs))"

lemma demo_run_levels: "group_by_depth rev (fl_steps demo_run) ''w'' = Inr [[''a''], [''b'']]"
  by code_simp

lemma demo_run_shape: "run_shape (run_workflow demo_step_env demo_run) = Some [(''a'', False), (''b'', True)]"
proof -
  have "sn_order demo_step_env = rev" "fl_name demo_run = ''w''" by (simp_all add: demo_step_env_def demo_run_def demo_flow_def)
  then show ?thesis
    using demo_run_levels
    by (simp add: run_workflow_def run_level_def prepare_one_def prepare_def condition_met_def dependency_gate_def
        hard_failed_deps_def dep_failed_def dep_continues_def step_continue_on_error_def render_opt_def loop_items_def record_result_def
        execute_step_def run_shell_step_def with_retries_def shell_attempt_def run_shell_def shell_result_def
        apply_command_wrapper_def answered_result_def step_validation_def error_result_def parse_step_output_def
        demo_step_env_def demo_run_def demo_flow_def demo_step_def run_shape_def step_map_def Let_def)
qed

lemma demo_ordered: "\<forall>xs. mset (sn_order demo_step_env xs) = mset xs"
  by (simp add: demo_step_env_def)

lemma demo_run_done:
  "\<exists>ra rb. run_workflow demo_step_env demo_run = Inr [ra, rb] \<and> sr_name ra = ''a'' \<and> \<not> sr_success ra \<and> sr_name rb = ''b'' \<and> sr_success rb"
  using demo_run_shape by (auto simp: run_shape_def split: sum.splits)

theorem run_results_allowed_witness:
  "\<exists>ord. run_workflow demo_step_env demo_run = Inr ord \<and> distinct (map sr_name ord)"
  using demo_run_done run_results_allowed [OF demo_ordered] by (elim exE conjE) blast

theorem success_marks_agree_witness:
  "\<exists>ra rb. run_workflow demo_step_env demo_run = Inr [ra, rb] \<and>
     (sr_failure ra \<noteq> None \<or> (\<exists>v. sr_validation ra = Some v \<and> \<not> va_passed v))"
proof -
  from demo_run_done obtain ra rb where r: "run_workflow demo_step_env demo_run = Inr [ra, rb]" "\<not> sr_success ra" by blast
  with success_marks_agree [OF demo_ordered r(1), of ra] show ?thesis by (intro exI [of _ ra] exI [of _ rb]) auto
qed

theorem run_only_after_dependencies_witness:
  "\<exists>ra rb. run_workflow demo_step_env demo_run = Inr [ra, rb] \<and> sr_name ra = ''a'' \<and>
     (sr_success ra \<or> dep_continues demo_run ''a'')"
proof -
  from demo_run_done obtain ra rb where
    r: "run_workflow demo_step_env demo_run = Inr [ra, rb]" "sr_name ra = ''a''" "sr_name rb = ''b''" "sr_success rb" by blast
  let ?b = "(demo_step ''b'' [''a''])\<lparr>sw_shell := Some ''true''\<rparr>"
  have b: "?b \<in> set (fl_steps demo_run)" "sr_name rb = sw_name ?b"
    using r(3) by (simp_all add: demo_run_def demo_flow_def demo_step_def)
  have "\<not> was_skipped rb" using failed_result [OF demo_ordered r(1), of rb] r(4) by (simp add: explains_failure_def was_skipped_def)
  with run_only_after_dependencies [OF demo_ordered r(1) b(1) _ b(2)] r(1,2) show ?thesis
    by (intro exI [of _ ra] exI [of _ rb]) (simp add: demo_step_def)
qed

end
