(* ===== verification/DispatchProps.thy ===== *)
theory DispatchProps
  imports Dispatch FanOutProps VoteProps
begin

text \<open>
  Properties of the dispatch: which attempt becomes the artefact, that a successful strategy
  always leaves one, and what the resolution of a configuration guarantees.
\<close>

subsection \<open>Searching the attempts\<close>

lemma find_index_from_None: "find_index_from n t xs = None \<longleftrightarrow> (\<forall>x \<in> set xs. \<not> t x)"
  by (induction n t xs rule: find_index_from.induct) auto

lemma rfind_index_from_None: "rfind_index_from n t xs = None \<longleftrightarrow> (\<forall>x \<in> set xs. \<not> t x)"
  by (induction n t xs rule: rfind_index_from.induct) (auto split: option.splits)

lemma find_index_from_first:
  "\<forall>x \<in> set pre. \<not> t x \<Longrightarrow> t a \<Longrightarrow> find_index_from n t (pre @ a # post) = Some (n + length pre, a)"
  by (induction pre arbitrary: n) auto

lemma rfind_index_from_last:
  "\<forall>x \<in> set post. \<not> t x \<Longrightarrow> t a \<Longrightarrow> rfind_index_from n t (pre @ a # post) = Some (n + length pre, a)"
proof (induction pre arbitrary: n)
  case Nil
  then have "rfind_index_from (n + 1) t post = None" by (simp add: rfind_index_from_None)
  with Nil show ?case by simp
next
  case (Cons x pre)
  then show ?case by simp
qed

text \<open>
  Without an aggregate file, the artefact of a phase with the \<open>First\<close> label is the file of
  the last attempt that neither errored nor failed its check, and the artefact of an any-fail, vote
  or judge phase is the file of the first attempt that did not error; the recorded index is the
  position of that attempt. The \<open>First\<close> aggregator itself takes the first success of the same
  branches.
\<close>

theorem canonical_attempt:
  assumes "so_aggregate_path out = None \<or> \<not> rf_is_file rf (resolve_output_path dir (the (so_aggregate_path out))) w"
    and "\<And>a. rf_read rf (resolve_output_path dir (ap_output_path a)) w = Inr (content a)"
  shows "(so_attempts out = pre @ a # post \<and> wins a \<and> (\<forall>x \<in> set post. \<not> wins x) \<longrightarrow>
      canonical_bytes rf dir w out First = Inr (content a, of_nat (length pre))) \<and>
    (so_attempts out = pre @ a # post \<and> no_error a \<and> (\<forall>x \<in> set pre. \<not> no_error x) \<longrightarrow>
      agg \<in> {AnyFail, Vote cfg, LLMJudge j t req} \<longrightarrow>
      canonical_bytes rf dir w out agg = Inr (content a, of_nat (length pre))) \<and>
    (\<forall>fs s bs. aggregate First (map Failure fs @ Success s # bs) =
      Inr \<lparr>aa_text = bs_output s, aa_successful = 1, aa_failed = length fs\<rparr>)"
proof (intro conjI impI allI)
  have by_agg: "canonical_bytes rf dir w out g = canonical_by_aggregator rf dir w out g" for g
    using assms(1) by (auto simp: canonical_bytes_def split: option.splits)
  {
    assume "so_attempts out = pre @ a # post \<and> wins a \<and> (\<forall>x \<in> set post. \<not> wins x)"
    with assms(2) show "canonical_bytes rf dir w out First = Inr (content a, of_nat (length pre))"
      by (simp add: by_agg canonical_by_aggregator_def winning_success_bytes_def rfind_index_from_last attempt_bytes_def)
  next
    assume "so_attempts out = pre @ a # post \<and> no_error a \<and> (\<forall>x \<in> set pre. \<not> no_error x)"
      "agg \<in> {AnyFail, Vote cfg, LLMJudge j t req}"
    with assms(2) show "canonical_bytes rf dir w out agg = Inr (content a, of_nat (length pre))"
      by (auto simp: by_agg canonical_by_aggregator_def first_success_bytes_def find_index_from_first attempt_bytes_def)
  }
  show "aggregate First (map Failure fs @ Success s # bs) =
      Inr \<lparr>aa_text = bs_output s, aa_successful = 1, aa_failed = length fs\<rparr>" for fs s bs
  proof -
    have "first_from n (map Failure fs @ Success s # bs) =
        Inr \<lparr>aa_text = bs_output s, aa_successful = 1, aa_failed = n + length fs\<rparr>" for n
      by (induction fs arbitrary: n) auto
    then show ?thesis by (simp add: aggregate_first_def)
  qed
qed

text \<open>Two answers in one fan-out: the artefact is the second.\<close>

definition mirror_files :: "unit run_files" where
  "mirror_files = \<lparr>rf_is_file = (\<lambda>_ _. False), rf_read = (\<lambda>p _. Inr p), rf_read_text = (\<lambda>p _. Inr p)\<rparr>"

theorem canonical_attempt_witness:
  "let a = answered_branch (demo_ctx\<lparr>pc_phase_name := ''p''\<rparr>) \<lparr>pr_model = None\<rparr> 0 \<lparr>ts_backend = ''codex'', ts_model = None\<rparr> (from_text ''x'' ''codex'' 1);
       b = answered_branch (demo_ctx\<lparr>pc_phase_name := ''p''\<rparr>) \<lparr>pr_model = None\<rparr> 1 \<lparr>ts_backend = ''claude'', ts_model = None\<rparr> (from_text ''y'' ''claude'' 1);
       out = fan_output (demo_fanout 2 First) (demo_ctx\<lparr>pc_phase_name := ''p''\<rparr>) [a, b] vo_skipped
   in canonical_bytes mirror_files ''/w'' () out First =
        (Inr (resolve_output_path ''/w'' (ap_output_path b), 1) :: ((unit, unit) runner_error, _) result)"
proof -
  let ?ctx = "demo_ctx\<lparr>pc_phase_name := ''p''\<rparr>" and ?p = "\<lparr>pr_model = None\<rparr>"
  let ?a = "answered_branch ?ctx ?p 0 \<lparr>ts_backend = ''codex'', ts_model = None\<rparr> (from_text ''x'' ''codex'' 1)"
  let ?b = "answered_branch ?ctx ?p 1 \<lparr>ts_backend = ''claude'', ts_model = None\<rparr> (from_text ''y'' ''claude'' 1)"
  let ?out = "fan_output (demo_fanout 2 First) ?ctx [?a, ?b] vo_skipped"
  have h: "so_aggregate_path ?out = None \<or>
      \<not> rf_is_file mirror_files (resolve_output_path ''/w'' (the (so_aggregate_path ?out))) ()"
    by (simp add: mirror_files_def)
  have r: "rf_read mirror_files (resolve_output_path ''/w'' (ap_output_path x)) () =
      Inr (resolve_output_path ''/w'' (ap_output_path x))" for x
    by (simp add: mirror_files_def)
  have m: "so_attempts ?out = [?a] @ ?b # [] \<and> wins ?b \<and> (\<forall>x \<in> set []. \<not> wins x)"
    by (simp add: fan_output_def wins_def no_error_def answered_branch_def vo_skipped_def)
  have "canonical_bytes mirror_files ''/w'' () ?out First =
      (Inr (resolve_output_path ''/w'' (ap_output_path ?b), of_nat (length [?a])) :: ((unit, unit) runner_error, _) result)"
    by (rule canonical_attempt [OF h r, THEN conjunct1, THEN mp, OF m])
  then show ?thesis by (simp add: Let_def)
qed

subsection \<open>The contract of a strategy\<close>

text \<open>
  What the phase runner relies on: an output carries the identity of its phase and the kind of its
  strategy, and a valid strategy succeeds only with an attempt that did not fail.
\<close>

locale strategy_impl =
  fixes exec :: "'s \<Rightarrow> 'w backend list \<Rightarrow> prompt \<Rightarrow> 'w phase_ctx \<Rightarrow> 'w \<Rightarrow>
      (strategy_error, strategy_output) result \<times> 'w"
    and knd :: "'s \<Rightarrow> strategy_kind"
    and valid :: "'s \<Rightarrow> bool"
  assumes header: "exec s bs p ctx w = (Inr out, w') \<Longrightarrow> so_schema_version out = SCHEMA_VERSION \<and>
      so_strategy out = knd s \<and> so_phase out = pc_phase_name ctx \<and> so_run_id out = pc_run_id ctx"
    and winner: "valid s \<Longrightarrow> exec s bs p ctx w = (Inr out, w') \<Longrightarrow> \<exists>a \<in> set (so_attempts out). wins a"
begin

lemma searches_succeed:
  assumes "valid s" "exec s bs p ctx w = (Inr out, w')"
  shows "find_index_from 0 no_error (so_attempts out) \<noteq> None" "rfind_index_from 0 wins (so_attempts out) \<noteq> None"
  using winner [OF assms] by (auto simp: find_index_from_None rfind_index_from_None wins_def)

lemma artefact_found:
  assumes "valid s" "exec s bs p ctx w = (Inr out, w')"
  shows "canonical_bytes rf dir v out agg \<noteq> Inl (PhaseFailed ph m)"
  using searches_succeed [OF assms]
  by (auto simp: canonical_bytes_def canonical_by_aggregator_def first_success_bytes_def
      winning_success_bytes_def attempt_bytes_def aggregate_input_from_attempt_paths_def map_err_def
      split: option.splits if_splits sum.splits aggregator.splits)

end

interpretation single: strategy_impl single_execute "\<lambda>_. KSingle" "\<lambda>_. True"
proof
  fix s bs p ctx w out w'
  assume ex: "single_execute s bs p ctx w = (Inr out, w')"
  then show "so_schema_version out = SCHEMA_VERSION \<and> so_strategy out = KSingle \<and>
      so_phase out = pc_phase_name ctx \<and> so_run_id out = pc_run_id ctx"
    by (auto simp: single_execute_def single_output_def split: if_splits option.splits sum.splits prod.splits)
  from ex show "\<exists>a \<in> set (so_attempts out). wins a"
    by (auto simp: single_execute_def single_output_def single_attempt_def wins_def no_error_def vo_skipped_def
        split: if_splits option.splits sum.splits prod.splits)
qed

lemma run_rung_passed:
  assumes "run_rung er bs p ctx rendered idx ru previous w = (Inr (a, True, fc), w')"
  shows "wins a"
  using assms
  by (auto simp: run_rung_def verify_rung_def Let_def answered_attempt_def wins_def no_error_def vo_passed_def
      split: option.splits prod.splits sum.splits if_splits)

lemma climb_winner:
  "climb er bs p ctx rendered idx rus acc previous w = (Inr out, w') \<Longrightarrow>
     (\<exists>as. out = ladder_output ctx as Succeeded \<and> as \<noteq> [] \<and> wins (last as))"
proof (induction rus arbitrary: idx acc previous w)
  case (Cons ru rus)
  then obtain a passed fc w1 where
    one: "run_rung er bs p ctx rendered idx ru previous w = (Inr (a, passed, fc), w1)"
    by (auto split: prod.splits sum.splits)
  show ?case
  proof (cases passed)
    case True
    with Cons.prems one run_rung_passed [of er bs p ctx rendered idx ru previous w a fc w1] show ?thesis
      by (auto intro!: exI [of _ "acc @ [a]"])
  next
    case False
    with Cons.prems one Cons.IH show ?thesis by simp
  qed
qed simp

lemma ladder_winner:
  assumes "escalating_execute er bs p ctx w = (Inr out, w')"
  obtains as where "out = ladder_output ctx as Succeeded" "as \<noteq> []" "wins (last as)"
proof -
  from assms obtain rendered where
    "climb er bs p ctx rendered 0 (er_rungs er) [] None w = (Inr out, w')"
    by (auto simp: escalating_execute_def split: if_splits sum.splits)
  from climb_winner [OF this] show thesis using that by blast
qed

interpretation ladder: strategy_impl escalating_execute "\<lambda>_. KEscalating" "\<lambda>_. True"
proof
  fix s bs p ctx w out w'
  assume "escalating_execute s bs p ctx w = (Inr out, w')"
  then obtain as where "out = ladder_output ctx as Succeeded" "as \<noteq> []" "wins (last as)"
    by (rule ladder_winner)
  then show "so_schema_version out = SCHEMA_VERSION \<and> so_strategy out = KEscalating \<and>
      so_phase out = pc_phase_name ctx \<and> so_run_id out = pc_run_id ctx"
    "\<exists>a \<in> set (so_attempts out). wins a"
    by (auto simp: ladder_output_def)
qed

lemma answered_branch_wins: "wins (answered_branch ctx p i t q)"
  by (simp add: answered_branch_def wins_def no_error_def vo_skipped_def)

lemma fan_collect_winner:
  assumes "fan_collect pf ctx p arr st w = (Inr st', w')"
    and "fs_successes st > 0 \<Longrightarrow> \<exists>a \<in> set (fs_attempts st). wins a"
  shows "(fs_successes st' > 0 \<longrightarrow> (\<exists>a \<in> set (fs_attempts st'). wins a)) \<and>
    (is_any_fail pf \<longrightarrow> arr \<noteq> [] \<longrightarrow> fs_successes st' > 0) \<and> (fs_successes st > 0 \<longrightarrow> fs_successes st' > 0)"
  using assms
proof (induction arr arbitrary: st w)
  case (Cons x arr)
  obtain i r where x: "x = (i, r)" by (cases x)
  show ?case
  proof (cases r)
    case (Inl e)
    let ?st = "record_failure pf ctx p i (pf_targets pf ! i) e st"
    from Cons.prems(1) x Inl have rest: "\<not> is_any_fail pf" "fan_collect pf ctx p arr ?st w = (Inr st', w')"
      by (simp_all add: Let_def split: if_splits)
    have "fs_successes ?st > 0 \<Longrightarrow> \<exists>a \<in> set (fs_attempts ?st). wins a"
      using Cons.prems(2) by (auto simp: record_failure_def)
    from Cons.IH [OF rest(2) this] rest(1) show ?thesis by (simp add: record_failure_def)
  next
    case (Inr q)
    let ?st = "record_success pf ctx p i (pf_targets pf ! i) q st"
    have st: "fs_successes ?st > 0" "\<exists>a \<in> set (fs_attempts ?st). wins a"
      by (simp_all add: record_success_def Let_def answered_branch_wins)
    consider "st' = ?st" | w1 where "fan_collect pf ctx p arr ?st w1 = (Inr st', w')"
      using Cons.prems(1) x Inr by (auto simp: Let_def split: prod.splits sum.splits if_splits)
    then show ?thesis
    proof cases
      case 2
      from Cons.IH [OF 2 st(2)] st show ?thesis by simp
    qed (use st in simp)
  qed
qed simp

lemma fan_finish_header:
  "fan_finish lower rng pf bs ctx st w = (Inr out, w') \<Longrightarrow> so_schema_version out = SCHEMA_VERSION \<and>
     so_strategy out = KParallel \<and> so_phase out = pc_phase_name ctx \<and> so_run_id out = pc_run_id ctx"
  by (auto simp: fan_finish_def finish_judge_def finish_vote_def fan_output_def
      split: if_splits aggregator.splits prod.splits sum.splits)

definition exec_fan ::
  "fan_env \<Rightarrow> parallel_fanout \<Rightarrow> 'w backend list \<Rightarrow> prompt \<Rightarrow> 'w phase_ctx \<Rightarrow> 'w \<Rightarrow>
     (strategy_error, strategy_output) result \<times> 'w" where
  "exec_fan env pf = fanout_execute (fe_lower env) (fe_rng env) (fe_answers env) (fe_order env) pf"

definition fan_valid :: "fan_env \<Rightarrow> parallel_fanout \<Rightarrow> bool" where
  "fan_valid env pf \<longleftrightarrow> pf_min_responses pf > 0 \<and> fe_order env \<noteq> []"

interpretation fan: strategy_impl "exec_fan env" "\<lambda>_. KParallel" "fan_valid env" for env
proof
  fix s bs p ctx w out w'
  assume "exec_fan env s bs p ctx w = (Inr out, w')"
  then obtain st w1 rqs where
    c: "fan_collect s ctx p (fan_arrivals (fe_answers env) (fe_order env) rqs) fan_start w = (Inr st, w1)" and
    f: "fan_finish (fe_lower env) (fe_rng env) s bs ctx st w1 = (Inr out, w')"
    unfolding exec_fan_def by (cases rule: fanout_execute_cases) auto
  show "so_schema_version out = SCHEMA_VERSION \<and> so_strategy out = KParallel \<and>
      so_phase out = pc_phase_name ctx \<and> so_run_id out = pc_run_id ctx"
    by (rule fan_finish_header [OF f])
  assume v: "fan_valid env s"
  have start: "fs_successes fan_start > 0 \<Longrightarrow> \<exists>a \<in> set (fs_attempts fan_start). wins a"
    by (simp add: fan_start_def)
  have ne: "fan_arrivals (fe_answers env) (fe_order env) rqs \<noteq> []"
    using v by (simp add: fan_valid_def fan_arrivals_def)
  from fan_collect_winner [OF c start] fan_finish_ok [OF f] v ne
  show "\<exists>a \<in> set (so_attempts out). wins a"
    by (cases "is_any_fail s") (auto simp: fan_valid_def)
qed

subsection \<open>Dispatched strategies\<close>

fun kind_of_strategy :: "'w strategy \<Rightarrow> strategy_kind" where
  "kind_of_strategy (StSingle _) = KSingle"
| "kind_of_strategy (StParallel _) = KParallel"
| "kind_of_strategy (StEscalating _) = KEscalating"

fun valid_strategy :: "fan_env \<Rightarrow> 'w strategy \<Rightarrow> bool" where
  "valid_strategy env (StParallel pf) = fan_valid env pf"
| "valid_strategy env _ = True"

lemma execute_strategy_fan: "execute_strategy env (StParallel pf) = exec_fan env pf"
  by (intro ext) (simp add: exec_fan_def)

interpretation dispatched: strategy_impl "execute_strategy env" kind_of_strategy "valid_strategy env" for env
proof
  fix s bs p ctx w out w'
  assume ex: "execute_strategy env s bs p ctx w = (Inr out, w')"
  show "so_schema_version out = SCHEMA_VERSION \<and> so_strategy out = kind_of_strategy s \<and>
      so_phase out = pc_phase_name ctx \<and> so_run_id out = pc_run_id ctx"
  proof (cases s)
    case (StSingle sm)
    with ex have "single_execute sm bs p ctx w = (Inr out, w')" by simp
    from single.header [OF this] StSingle show ?thesis by simp
  next
    case (StParallel pf)
    with ex have "exec_fan env pf bs p ctx w = (Inr out, w')" by (simp only: execute_strategy_fan)
    from fan.header [OF this] StParallel show ?thesis by simp
  next
    case (StEscalating er)
    with ex have "escalating_execute er bs p ctx w = (Inr out, w')" by simp
    from ladder.header [OF this] StEscalating show ?thesis by simp
  qed
  assume v: "valid_strategy env s"
  show "\<exists>a \<in> set (so_attempts out). wins a"
  proof (cases s)
    case (StSingle sm)
    with ex have "single_execute sm bs p ctx w = (Inr out, w')" by simp
    from single.winner [OF TrueI this] show ?thesis .
  next
    case (StParallel pf)
    with ex have "exec_fan env pf bs p ctx w = (Inr out, w')" by (simp only: execute_strategy_fan)
    from fan.winner [OF _ this] v StParallel show ?thesis by simp
  next
    case (StEscalating er)
    with ex have "escalating_execute er bs p ctx w = (Inr out, w')" by simp
    from ladder.winner [OF TrueI this] show ?thesis .
  qed
qed

lemma resolved_valid:
  assumes "resolve_strategy redact cfg verify = Some (Inr s)" "fe_order env \<noteq> []"
  shows "valid_strategy env s" "kind_of_strategy s = (case cf_strategy cfg of
    NmSingle \<Rightarrow> KSingle | NmParallel \<Rightarrow> KParallel | NmEscalatingRetry \<Rightarrow> KEscalating)"
  using assms
  by (auto simp: resolve_strategy_def parallel_fanout_new_def fan_valid_def
      split: strategy_name.splits option.splits if_splits)

text \<open>
  C10: The strategy of a valid configuration, run to success, reports the phase and run it was
  given and the producer the configuration names, and the search for the artefact never ends
  with \<open>no successful attempts\<close>, whichever aggregator is asked.
\<close>

theorem dispatched_phase_has_artefact:
  assumes "(validate_config cfg :: (('m, 'k) runner_error, unit) result) = Inr ()"
    and "(resolve_strategy redact cfg verify :: (('m, 'k) runner_error, 'w strategy) result option) = Some (Inr s)"
    and "fe_order env \<noteq> []" "execute_strategy env s backends p ctx w = (Inr out, w')"
  shows "so_phase out = pc_phase_name ctx \<and> so_run_id out = pc_run_id ctx \<and>
    kind_str (so_strategy out) = producer_str (cf_producer cfg) \<and>
    (\<forall>m. (canonical_bytes rf dir v out agg :: (('m, 'k) runner_error, bytes \<times> 32 word) result) \<noteq>
       Inl (PhaseFailed (so_phase out) m))"
proof -
  note v = resolved_valid [OF assms(2,3)]
  have "kind_str (kind_of_strategy s) = producer_str (cf_producer cfg)"
    using v(2) assms(1) by (cases "cf_strategy cfg") (simp_all add: validate_config_def Let_def split: if_splits)
  moreover have "\<forall>m. (canonical_bytes rf dir v out agg :: (('m, 'k) runner_error, bytes \<times> 32 word) result) \<noteq>
       Inl (PhaseFailed (so_phase out) m)"
    by (intro allI dispatched.artefact_found [OF v(1) assms(4)])
  ultimately show ?thesis using dispatched.header [OF assms(4)] by simp
qed

theorem dispatched_phase_has_artefact_witness:
  "\<exists>s out w'. (resolve_strategy (\<lambda>t. t) (config_single ''p'' ''codex'' ''hi'' ''design.md'' :: unit phase_config) None
       :: ((unit, unit) runner_error, mem_fs strategy) result option) = Some (Inr s) \<and>
     execute_strategy \<lparr>fe_lower = to_lowercase, fe_rng = (\<lambda>s n. 0), fe_answers = demo_answers, fe_order = [0]\<rparr> s
       [echo_backend ''codex'' ''out''] \<lparr>pr_model = None\<rparr> dot_ctx demo_world = (Inr out, w') \<and>
     kind_str (so_strategy out) = ''single''"
proof -
  let ?cfg = "config_single ''p'' ''codex'' ''hi'' ''design.md'' :: unit phase_config"
  let ?env = "\<lparr>fe_lower = to_lowercase, fe_rng = (\<lambda>s n. 0), fe_answers = demo_answers, fe_order = [0]\<rparr>"
  let ?s = "StSingle \<lparr>sm_backend = ''codex'', sm_prompt_template = ''hi''\<rparr> :: mem_fs strategy"
  let ?bs = "[echo_backend ''codex'' ''out''] :: mem_fs backend list"
  have v: "(validate_config ?cfg :: ((unit, unit) runner_error, unit) result) = Inr ()"
    by (simp add: validate_config_def config_single_def)
  have r: "(resolve_strategy (\<lambda>t. t) ?cfg None :: ((unit, unit) runner_error, mem_fs strategy) result option) = Some (Inr ?s)"
    by (simp add: resolve_strategy_def config_single_def)
  have "\<exists>out. execute_strategy ?env ?s ?bs \<lparr>pr_model = None\<rparr> dot_ctx demo_world = (Inr out, demo_world)"
    using dot_ctx_cur
    by (simp add: single_execute_def find_backend_def echo_backend_def dot_ctx_def demo_ctx_def single_write_output_def)
  then obtain out where x: "execute_strategy ?env ?s ?bs \<lparr>pr_model = None\<rparr> dot_ctx demo_world = (Inr out, demo_world)"
    by blast
  have "kind_str (so_strategy out) = producer_str (cf_producer ?cfg)"
    by (rule dispatched_phase_has_artefact [OF v r _ x, where agg = First and dir = "[]" and rf = mirror_files and v = "()",
          THEN conjunct2, THEN conjunct2, THEN conjunct1]) simp
  then have "kind_str (so_strategy out) = ''single''" by (simp add: config_single_def)
  with r x show ?thesis by blast
qed

text \<open>
  Resolving a configuration panics exactly for a parallel phase with a floor of zero, and
  refuses exactly a single phase without a backend and an escalating phase without a verify hook;
  the strategy it builds otherwise has the targets, the floor, the template and the rungs of the
  configuration.
\<close>

theorem resolve_strategy_spec:
  assumes "(resolve_strategy redact cfg verify :: (('m, 'k) runner_error, 'w strategy) result option) = res"
  shows "(res = None \<longleftrightarrow> cf_strategy cfg = NmParallel \<and> cf_min_responses cfg = 0) \<and>
   ((\<exists>e. res = Some (Inl e)) \<longleftrightarrow>
      (cf_strategy cfg = NmSingle \<and> cf_backend cfg = None) \<or> (cf_strategy cfg = NmEscalatingRetry \<and> verify = None)) \<and>
   (\<forall>sm. res = Some (Inr (StSingle sm)) \<longrightarrow>
      cf_backend cfg = Some (sm_backend sm) \<and> sm_prompt_template sm = cf_prompt_template cfg) \<and>
   (\<forall>pf. res = Some (Inr (StParallel pf)) \<longrightarrow>
      pf_targets pf = cf_targets cfg \<and> pf_min_responses pf = cf_min_responses cfg \<and>
      pf_prompt_template pf = cf_prompt_template cfg \<and> label_str (aggregator_kind (pf_aggregator pf)) =
        aggregator_name_str (cf_aggregator cfg)) \<and>
   (\<forall>er. res = Some (Inr (StEscalating er)) \<longrightarrow>
      map of_rung (er_rungs er) = map (\<lambda>g. (Some (pg_tier g), pg_backend g)) (cf_rungs cfg) \<and>
      er_prompt_template er = cf_prompt_template cfg \<and> Some (er_verify er) = verify)"
  unfolding assms [symmetric]
  by (cases "cf_strategy cfg"; cases "cf_aggregator cfg")
    (auto simp: resolve_strategy_def parallel_fanout_new_def of_rung_def rung_of_def comp_def split: option.splits)

theorem resolve_strategy_spec_witness:
  "\<exists>pf. (resolve_strategy (\<lambda>t. t) ((config_single ''p'' ''codex'' ''hi'' ''design.md'' :: unit phase_config)
        \<lparr>cf_strategy := NmParallel, cf_aggregator := AgVote\<rparr>) None
      :: ((unit, unit) runner_error, mem_fs strategy) result option) = Some (Inr (StParallel pf)) \<and>
     label_str (aggregator_kind (pf_aggregator pf)) = ''vote''"
proof -
  let ?cfg = "(config_single ''p'' ''codex'' ''hi'' ''design.md'' :: unit phase_config)\<lparr>cf_strategy := NmParallel, cf_aggregator := AgVote\<rparr>"
  obtain pf where pf: "(resolve_strategy (\<lambda>t. t) ?cfg None :: ((unit, unit) runner_error, mem_fs strategy) result option) =
      Some (Inr (StParallel pf))"
    by (simp add: resolve_strategy_def config_single_def parallel_fanout_new_def)
  from resolve_strategy_spec [OF pf]
  have "label_str (aggregator_kind (pf_aggregator pf)) = aggregator_name_str (cf_aggregator ?cfg)" by blast
  with pf show ?thesis by (intro exI [of _ pf]) simp
qed

text \<open>
  A vote phase built from a configuration never loses its quorum: its abstention threshold is
  the largest \<open>usize\<close>, so it is refused only when there is no ballot at all.
\<close>

theorem configured_vote_keeps_quorum:
  assumes "resolve_aggregator AgVote = Vote cfg" "length branches < 2 ^ 64"
  shows "aggregate_vote lower rng branches cfg = Inl e \<longleftrightarrow> e = NoCandidates \<and> vote_ballots lower branches = []"
proof -
  obtain ab cs where c: "collect_votes lower 0 branches = (ab, cs)" by (cases "collect_votes lower 0 branches") auto
  have "ab \<le> length branches" using collect_votes_length [OF c] by simp
  moreover have "vc_abstain_threshold cfg = 2 ^ 64 - 1" using assms(1) by (auto simp: USIZE_MAX_def)
  ultimately have "\<not> ab > vc_abstain_threshold cfg" using assms(2) by linarith
  then show ?thesis by (auto simp: aggregate_vote_def c vote_ballots_def ballots_def Let_def)
qed

theorem configured_vote_keeps_quorum_witness:
  "\<exists>cfg. resolve_aggregator AgVote = Vote cfg \<and> aggregate_vote to_lowercase (\<lambda>s n. 0) [] cfg = Inl NoCandidates"
proof -
  obtain cfg where cfg: "resolve_aggregator AgVote = Vote cfg" by simp
  have "length ([] :: branch_outcome list) < 2 ^ 64" by simp
  from configured_vote_keeps_quorum [OF cfg this, of to_lowercase "\<lambda>s n. 0" NoCandidates] cfg
  show ?thesis by (auto simp: vote_ballots_def ballots_def)
qed

subsection \<open>A single phase from end to end\<close>

definition mem_files :: "mem_fs run_files" where
  "mem_files = \<lparr>rf_is_file = (\<lambda>p w. files w (components p) \<noteq> None), rf_read = mem_read, rf_read_text = mem_read\<rparr>"

text \<open>
  A single phase that succeeds in a run directory other than the current one gives as its
  artefact exactly what the backend answered, as attempt number 0 (when that file can be read).
\<close>

theorem single_phase_artefact:
  assumes "execute_strategy env (StSingle sm) backends p ctx w = (Inr out, w')" "pc_ops ctx = mem_ops"
    and "\<not> is_cur_dir (pc_cwd ctx)" "read_fault w' (components (path_join (pc_cwd ctx) ''attempts/0.txt'')) = None"
  shows "\<exists>b rendered q w1. find_backend (sm_backend sm) backends = Some b \<and>
    pc_render ctx (sm_prompt_template sm) = Inr rendered \<and>
    bk_query b rendered (pc_cwd ctx) (pr_model p) w = (Inr q, w1) \<and>
    canonical_bytes mem_files (pc_cwd ctx) w' out First =
      (Inr (qo_stdout q, 0) :: (('m, 'k) runner_error, bytes \<times> 32 word) result)"
proof -
  from assms(1) obtain b rendered q w1 where run: "find_backend (sm_backend sm) backends = Some b"
    "pc_render ctx (sm_prompt_template sm) = Inr rendered" "bk_query b rendered (pc_cwd ctx) (pr_model p) w = (Inr q, w1)"
    "single_write_output ctx ''attempts/0.txt'' (qo_stdout q) w1 = (Inr (), w')"
    "out = single_output ctx (single_attempt b q p)"
    by (auto simp: single_execute_def split: if_splits option.splits sum.splits prod.splits)
  from run(4) assms(2,3) obtain w2 where "mem_write (path_join (pc_cwd ctx) ''attempts/0.txt'') (qo_stdout q) w2 = (Inr (), w')"
    by (auto simp: single_write_output_def Let_def split: prod.splits sum.splits)
  then have "files w' = (files w2)(components (path_join (pc_cwd ctx) ''attempts/0.txt'') \<mapsto> qo_stdout q)"
    using mem.write_ok by simp
  with assms(4) have "mem_read (path_join (pc_cwd ctx) ''attempts/0.txt'') w' = Inr (qo_stdout q)"
    by (simp add: mem_read_def)
  moreover have "resolve_output_path (pc_cwd ctx) ''attempts/0.txt'' = path_join (pc_cwd ctx) ''attempts/0.txt''"
    by (simp add: resolve_output_path_def is_absolute_def)
  ultimately have "canonical_bytes mem_files (pc_cwd ctx) w' out First =
      (Inr (qo_stdout q, 0) :: (('m, 'k) runner_error, bytes \<times> 32 word) result)"
    by (simp add: run(5) canonical_bytes_def canonical_by_aggregator_def winning_success_bytes_def attempt_bytes_def
        single_output_def single_attempt_def wins_def no_error_def vo_skipped_def mem_files_def)
  with run(1-3) show ?thesis by blast
qed

theorem single_phase_artefact_witness:
  "\<exists>out w'. execute_strategy \<lparr>fe_lower = to_lowercase, fe_rng = (\<lambda>s n. 0), fe_answers = demo_answers, fe_order = [0]\<rparr>
       (StSingle \<lparr>sm_backend = ''codex'', sm_prompt_template = ''hi''\<rparr>)
       [echo_backend ''codex'' ''out''] \<lparr>pr_model = None\<rparr> demo_ctx demo_world = (Inr out, w') \<and>
     canonical_bytes mem_files ''w'' w' out First = (Inr (''out'', 0) :: ((unit, unit) runner_error, _) result)"
proof -
  let ?env = "\<lparr>fe_lower = to_lowercase, fe_rng = (\<lambda>s n. 0), fe_answers = demo_answers, fe_order = [0]\<rparr>"
  let ?sm = "\<lparr>sm_backend = ''codex'', sm_prompt_template = ''hi''\<rparr>"
  let ?bs = "[echo_backend ''codex'' ''out''] :: mem_fs backend list"
  have "\<exists>out w'. single_execute ?sm ?bs \<lparr>pr_model = None\<rparr> demo_ctx demo_world = (Inr out, w') \<and> read_fault w' = Map.empty"
    by (simp add: single_execute_def find_backend_def echo_backend_def demo_ctx_def from_text_def
        single_write_output_def is_cur_dir_def path_join_def is_absolute_def components_def
        lead_components_def body_components_def to_component_def path_parent_def mem_write_def
        mem_mkdir_def demo_world_def Let_def)
  then obtain out w' where x: "execute_strategy ?env (StSingle ?sm) ?bs \<lparr>pr_model = None\<rparr> demo_ctx demo_world = (Inr out, w')"
    and rf: "read_fault w' = Map.empty" by auto
  have d: "pc_ops demo_ctx = mem_ops" "\<not> is_cur_dir (pc_cwd demo_ctx)" "pc_cwd demo_ctx = ''w''"
    by (simp_all add: demo_ctx_def is_cur_dir_def components_def lead_components_def body_components_def
        is_absolute_def to_component_def)
  have "read_fault w' (components (path_join (pc_cwd demo_ctx) ''attempts/0.txt'')) = None" by (simp add: rf)
  from single_phase_artefact [where 'm = unit and 'k = unit, OF x d(1,2) this] x
  show ?thesis by (auto simp: d(3) find_backend_def echo_backend_def from_text_def)
qed

end
