(* ===== verification/PhaseLock.thy ===== *)
theory PhaseLock
  imports FileStore "HOL-Library.Word"
begin

text \<open>
  \<open>src/run_state/phase_lock.rs\<close>: the advisory lock of one phase. First the functions of the file,
  then the lock as a transition system in which any number of holders interleave: an open handle
  passes the early check, takes the operating system's lock, writes its body, and gives the lock
  back by \<open>release\<close> or by being dropped; it may crash at any point. Reading and printing a body is
  serde's and chrono's and an argument; a time is a number of nanoseconds.
\<close>

subsection \<open>Bodies and errors\<close>

record lock_body =
  lb_phase :: string
  lb_run_id :: string
  lb_pid :: "32 word"
  lb_host :: string
  lb_acquired_at :: int
  lb_ttl :: "64 word"

datatype lock_error =
    LockInUse string "32 word" string int
  | StaleReclaimFailed string string
  | InvalidPhaseName string
  | LockIo io_error
  | LockJson string

definition DEFAULT_PHASE_LOCK_TTL_SECONDS :: "64 word" where
  "DEFAULT_PHASE_LOCK_TTL_SECONDS = 60"

definition validate_phase_name :: "string \<Rightarrow> (lock_error, unit) result" where
  "validate_phase_name phase =
     (if phase = [] \<or> CHR ''/'' \<in> set phase \<or> CHR 0x5C \<in> set phase \<or> CHR 0x00 \<in> set phase \<or>
         trim phase = ''.'' \<or> trim phase = ''..''
      then Inl (InvalidPhaseName phase) else Inr ())"

text \<open>\<open>num_seconds\<close> rounds towards zero; the cast of the bound to \<open>i64\<close> keeps its bits.\<close>

definition num_seconds :: "int \<Rightarrow> int" where
  "num_seconds ns = (if ns \<ge> 0 then ns div 10 ^ 9 else - ((- ns) div 10 ^ 9))"

text \<open>The answers of the probe \<open>kill(pid, 0)\<close>; the process number is cast to \<open>i32\<close>.\<close>

datatype probe = Delivered | NoSuchProcess | ProbeRefused

definition is_lock_body_live :: "(int \<Rightarrow> probe) \<Rightarrow> int \<Rightarrow> lock_body \<Rightarrow> bool" where
  "is_lock_body_live kill0 now body =
     (let age_secs = num_seconds (now - lb_acquired_at body) in
      if age_secs \<ge> sint (lb_ttl body) then False
      else kill0 (sint (lb_pid body)) \<noteq> NoSuchProcess)"

text \<open>The environment of one process: its number, its host, the clock, the probe, the codec.\<close>

record lock_env =
  le_pid :: "32 word"
  le_host :: string
  le_now :: int
  le_kill0 :: "int \<Rightarrow> probe"
  le_parse :: "string \<Rightarrow> (string, lock_body) result"
  le_show :: "lock_body \<Rightarrow> string"

definition read_lock_body :: "lock_env \<Rightarrow> string \<Rightarrow> (lock_error, lock_body option) result" where
  "read_lock_body env contents =
     (if trim contents = [] then Inr None
      else case le_parse env contents of Inr b \<Rightarrow> Inr (Some b) | Inl e \<Rightarrow> Inl (LockJson e))"

definition in_use :: "string \<Rightarrow> lock_body \<Rightarrow> lock_error" where
  "in_use phase b = LockInUse phase (lb_pid b) (lb_host b) (lb_acquired_at b)"

subsection \<open>The steps of acquire\<close>

text \<open>The lock file is \<open>None\<close> when it does not exist. An unreadable body counts as stale.\<close>

definition early_check :: "lock_env \<Rightarrow> string \<Rightarrow> string option \<Rightarrow> lock_error option" where
  "early_check env phase lock_file =
     (case lock_file of
        None \<Rightarrow> None
      | Some contents \<Rightarrow> (case read_lock_body env contents of
            Inr (Some body) \<Rightarrow>
              if is_lock_body_live (le_kill0 env) (le_now env) body then Some (in_use phase body) else None
          | _ \<Rightarrow> None))"

definition busy_error :: "lock_env \<Rightarrow> string \<Rightarrow> string \<Rightarrow> lock_error" where
  "busy_error env phase contents =
     (case read_lock_body env contents of
        Inr (Some body) \<Rightarrow> in_use phase body
      | _ \<Rightarrow> LockInUse phase 0 ''unknown'' (le_now env))"

definition new_body :: "lock_env \<Rightarrow> string \<Rightarrow> string \<Rightarrow> 64 word option \<Rightarrow> lock_body" where
  "new_body env phase run_id ttl_seconds = \<lparr>lb_phase = phase, lb_run_id = run_id, lb_pid = le_pid env,
     lb_host = le_host env, lb_acquired_at = le_now env,
     lb_ttl = unwrap_or DEFAULT_PHASE_LOCK_TTL_SECONDS ttl_seconds\<rparr>"

text \<open>
  The faults of the file operations of \<open>acquire\<close>: creating the directory, opening (which creates
  the file), an error of the lock other than being taken, truncating, writing (with what is left in
  the file) and syncing.
\<close>

record acquire_io =
  ai_mkdirs :: "io_error option"
  ai_open :: "io_error option"
  ai_lock :: "io_error option"
  ai_set_len :: "io_error option"
  ai_write :: "(io_error \<times> string) option"
  ai_sync :: "io_error option"

definition quiet_io :: acquire_io where
  "quiet_io = \<lparr>ai_mkdirs = None, ai_open = None, ai_lock = None, ai_set_len = None, ai_write = None, ai_sync = None\<rparr>"

text \<open>
  \<open>acquire\<close> run without interference, on the lock file and the flag that the operating system's
  lock is taken. The flag \<open>run_dir_ok\<close> says that the run directory is one and not a link. An early
  return closes the file, and with it gives the lock back.
\<close>

definition acquire ::
  "acquire_io \<Rightarrow> lock_env \<Rightarrow> bool \<Rightarrow> string \<Rightarrow> string \<Rightarrow> 64 word option \<Rightarrow> string option \<times> bool \<Rightarrow>
     (lock_error, lock_body) result \<times> (string option \<times> bool)" where
  "acquire io env run_dir_ok phase run_id ttl_seconds s =
     (case s of (lock_file, taken) \<Rightarrow>
      case validate_phase_name phase of
        Inl e \<Rightarrow> (Inl e, s)
      | Inr _ \<Rightarrow>
          if \<not> run_dir_ok then (Inl (LockIo NotFound), s)
          else (case early_check env phase lock_file of
              Some e \<Rightarrow> (Inl e, s)
            | None \<Rightarrow> (case or_else (ai_mkdirs io) (ai_open io) of
                Some e \<Rightarrow> (Inl (LockIo e), s)
              | None \<Rightarrow>
                  let opened = unwrap_or [] lock_file in
                  (case ai_lock io of
                     Some e \<Rightarrow> (Inl (LockIo e), (Some opened, taken))
                   | None \<Rightarrow>
                       if taken then (Inl (busy_error env phase opened), (Some opened, taken))
                       else let body = new_body env phase run_id ttl_seconds in
                         (case ai_set_len io of
                            Some e \<Rightarrow> (Inl (LockIo e), (Some opened, False))
                          | None \<Rightarrow> (case ai_write io of
                                Some (e, left) \<Rightarrow> (Inl (LockIo e), (Some left, False))
                              | None \<Rightarrow> (case ai_sync io of
                                    Some e \<Rightarrow> (Inl (LockIo e), (Some (le_show env body), False))
                                  | None \<Rightarrow> (Inr body, (Some (le_show env body), True)))))))))"

definition release :: "string option \<times> bool \<Rightarrow> string option \<times> bool" where
  "release s = (Some [], False)"

definition inspect :: "lock_env \<Rightarrow> string \<Rightarrow> string option \<Rightarrow> (lock_error, lock_body option) result" where
  "inspect env phase lock_file =
     (case validate_phase_name phase of
        Inl e \<Rightarrow> Inl e
      | Inr _ \<Rightarrow> (case lock_file of None \<Rightarrow> Inr None | Some contents \<Rightarrow> read_lock_body env contents))"

text \<open>What the codec does with a body: it is printed so that it is read back, and not as blanks.\<close>

definition good_codec :: "lock_env \<Rightarrow> lock_body \<Rightarrow> bool" where
  "good_codec env b \<longleftrightarrow> le_parse env (le_show env b) = Inr b \<and> trim (le_show env b) \<noteq> []"

lemma read_shown: "good_codec env b \<Longrightarrow> read_lock_body env (le_show env b) = Inr (Some b)"
  by (simp add: good_codec_def read_lock_body_def)

text \<open>
  A bound of \<open>2\<^sup>6\<^sup>3\<close> or more is negative when it is read as \<open>i64\<close>: no clock after its acquisition
  ever sees such a lock as live.
\<close>

lemma huge_ttl_never_live:
  assumes "2 ^ 63 \<le> unat (lb_ttl b)" "lb_acquired_at b \<le> now"
  shows "\<not> is_lock_body_live kill0 now b"
proof -
  have "int (2 ^ 63) \<le> int (unat (lb_ttl b))" using assms(1) by (simp only: of_nat_le_iff)
  then have u: "2 ^ 63 \<le> uint (lb_ttl b)" by simp
  have "sint (lb_ttl b) = signed_take_bit 63 (uint (lb_ttl b))" by (simp add: sint_uint)
  also have "\<dots> \<le> uint (lb_ttl b) - 2 ^ Suc 63"
    using signed_take_bit_int_less_eq [of 63 "uint (lb_ttl b)"] u by simp
  also have "\<dots> < 0" using uint_lt2p [of "lb_ttl b"] by simp
  finally have "sint (lb_ttl b) < 0" .
  moreover have "0 \<le> num_seconds (now - lb_acquired_at b)" using assms(2) by (simp add: num_seconds_def)
  ultimately show ?thesis by (simp add: is_lock_body_live_def Let_def)
qed

subsection \<open>Interleaved holders\<close>

text \<open>
  An open handle, by the steps it has behind it: past the early check; holding the operating
  system's lock; with the file truncated for the new body; with its body written (\<open>acquire\<close> has
  returned); truncated again by \<open>release\<close>; unlocked by \<open>release\<close> but not yet dropped; truncated by
  the drop but not yet closed.
\<close>

datatype stage = Absent | Checked | OsLocked | Emptied | Held | RelTruncated | RelUnlocked | DropTruncated

record lock_sys =
  ls_file :: "string option"
  ls_taken :: "nat option"
  ls_stage :: "nat \<Rightarrow> stage"
  ls_body :: "nat \<Rightarrow> lock_body"

definition at_stage :: "lock_sys \<Rightarrow> nat \<Rightarrow> stage \<Rightarrow> lock_sys" where
  "at_stage s h st = s\<lparr>ls_stage := (ls_stage s)(h := st)\<rparr>"

text \<open>
  The steps of one handle. \<open>release\<close> truncates, unlocks, and then drops the handle, and the drop
  truncates once more before the file is closed; a plain drop truncates and closes. A crash closes
  the file, which gives the operating system's lock back, and leaves the contents.
\<close>

inductive lock_step :: "lock_env \<Rightarrow> string \<Rightarrow> bool \<Rightarrow> lock_sys \<Rightarrow> lock_sys \<Rightarrow> bool"
  for env phase releasing where
  check: "ls_stage s h = Absent \<Longrightarrow> early_check (env\<lparr>le_now := now\<rparr>) phase (ls_file s) = None \<Longrightarrow>
    lock_step env phase releasing s (at_stage s h Checked)"
| lock: "ls_stage s h = Checked \<Longrightarrow> ls_taken s = None \<Longrightarrow>
    lock_step env phase releasing s (at_stage (s\<lparr>ls_file := Some (unwrap_or [] (ls_file s)), ls_taken := Some h\<rparr>) h OsLocked)"
| busy: "ls_stage s h = Checked \<Longrightarrow> ls_taken s = Some h' \<Longrightarrow>
    lock_step env phase releasing s (at_stage s h Absent)"
| empty: "ls_stage s h = OsLocked \<Longrightarrow>
    lock_step env phase releasing s (at_stage (s\<lparr>ls_file := Some []\<rparr>) h Emptied)"
| write_body: "ls_stage s h = Emptied \<Longrightarrow>
    lock_step env phase releasing s
      (at_stage (s\<lparr>ls_file := Some (le_show env b), ls_body := (ls_body s)(h := b)\<rparr>) h Held)"
| release_truncate: "releasing \<Longrightarrow> ls_stage s h = Held \<Longrightarrow>
    lock_step env phase releasing s (at_stage (s\<lparr>ls_file := Some []\<rparr>) h RelTruncated)"
| release_unlock: "ls_stage s h = RelTruncated \<Longrightarrow>
    lock_step env phase releasing s (at_stage (s\<lparr>ls_taken := None\<rparr>) h RelUnlocked)"
| release_drop: "ls_stage s h = RelUnlocked \<Longrightarrow>
    lock_step env phase releasing s (at_stage (s\<lparr>ls_file := Some []\<rparr>) h Absent)"
| drop_truncate: "ls_stage s h = Held \<Longrightarrow>
    lock_step env phase releasing s (at_stage (s\<lparr>ls_file := Some []\<rparr>) h DropTruncated)"
| drop_close: "ls_stage s h = DropTruncated \<Longrightarrow>
    lock_step env phase releasing s (at_stage (s\<lparr>ls_taken := None\<rparr>) h Absent)"
| crash: "ls_stage s h \<noteq> Absent \<Longrightarrow>
    lock_step env phase releasing s
      (at_stage (s\<lparr>ls_taken := (if ls_taken s = Some h then None else ls_taken s)\<rparr>) h Absent)"

definition lock_start :: "string option \<Rightarrow> lock_sys" where
  "lock_start contents = \<lparr>ls_file = contents, ls_taken = None, ls_stage = (\<lambda>_. Absent),
     ls_body = (\<lambda>_. \<lparr>lb_phase = [], lb_run_id = [], lb_pid = 0, lb_host = [], lb_acquired_at = 0, lb_ttl = 0\<rparr>)\<rparr>"

inductive lock_reachable :: "lock_env \<Rightarrow> string \<Rightarrow> bool \<Rightarrow> string option \<Rightarrow> lock_sys \<Rightarrow> bool"
  for env phase releasing contents where
  start: "lock_reachable env phase releasing contents (lock_start contents)"
| more: "lock_reachable env phase releasing contents s \<Longrightarrow> lock_step env phase releasing s s' \<Longrightarrow>
    lock_reachable env phase releasing contents s'"

fun owning :: "stage \<Rightarrow> bool" where
  "owning Absent = False"
| "owning Checked = False"
| "owning OsLocked = True"
| "owning Emptied = True"
| "owning Held = True"
| "owning RelTruncated = True"
| "owning RelUnlocked = False"
| "owning DropTruncated = True"

text \<open>The invariant: the owner of the operating system's lock is the one handle in an owning stage.\<close>

definition lock_inv :: "lock_sys \<Rightarrow> bool" where
  "lock_inv s \<longleftrightarrow> (\<forall>h. owning (ls_stage s h) \<longleftrightarrow> ls_taken s = Some h)"

lemma lock_invD: "lock_inv s \<Longrightarrow> owning (ls_stage s h) \<longleftrightarrow> ls_taken s = Some h"
  by (simp add: lock_inv_def)

lemma inv_owned: "lock_inv s \<Longrightarrow> ls_stage s h = st \<Longrightarrow> owning st \<longleftrightarrow> ls_taken s = Some h"
  by (auto simp: lock_inv_def)

lemma lock_inv_at_stage:
  assumes "lock_inv s" "ls_stage s1 = ls_stage s" "owning st \<longleftrightarrow> ls_taken s1 = Some h"
    and "\<And>h'. h' \<noteq> h \<Longrightarrow> ls_taken s1 = Some h' \<longleftrightarrow> ls_taken s = Some h'"
  shows "lock_inv (at_stage s1 h st)"
  using assms by (auto simp: lock_inv_def at_stage_def)

lemma lock_inv_step:
  assumes "lock_step env phase releasing s s'" "lock_inv s"
  shows "lock_inv s'"
  using assms(1)
proof cases
  case (lock h)
  show ?thesis unfolding lock(1) by (rule lock_inv_at_stage [OF assms(2)]) (use lock(3) in auto)
next
  case (crash h)
  show ?thesis unfolding crash(1) by (rule lock_inv_at_stage [OF assms(2)]) auto
qed ((hypsubst, rule lock_inv_at_stage [OF assms(2)]; auto dest: inv_owned [OF assms(2)])+)

text \<open>Without an explicit release, the file of a holder holds its body.\<close>

definition body_inv :: "lock_env \<Rightarrow> lock_sys \<Rightarrow> bool" where
  "body_inv env s \<longleftrightarrow> (\<forall>h. ls_stage s h \<noteq> RelUnlocked \<and> ls_stage s h \<noteq> RelTruncated \<and>
     (ls_stage s h = Held \<longrightarrow> ls_file s = Some (le_show env (ls_body s h))))"

lemma lock_reachable_inv:
  assumes "lock_reachable env phase releasing contents s"
  shows "lock_inv s" "\<not> releasing \<Longrightarrow> body_inv env s"
proof -
  have "lock_inv s \<and> (\<not> releasing \<longrightarrow> body_inv env s)"
    using assms
  proof induction
    case start
    then show ?case by (simp add: lock_start_def lock_inv_def body_inv_def)
  next
    case (more s s')
    note inv = lock_inv_step [OF more(2)]
    from more.IH have pre: "lock_inv s" "\<not> releasing \<longrightarrow> body_inv env s" by simp_all
    have excl: "h = h'" if "ls_stage s h = Held" "owning (ls_stage s h')" for h h'
      using that lock_invD [OF pre(1), of h] lock_invD [OF pre(1), of h'] by simp
    from more(2) pre(2) have "\<not> releasing \<longrightarrow> body_inv env s'"
    proof cases
      case (lock h)
      then have "\<not> owning (ls_stage s h')" for h' using lock_invD [OF pre(1)] by simp
      then have "ls_stage s h' \<noteq> Held" for h' by (metis owning.simps(5))
      with lock pre(2) show ?thesis by (simp add: body_inv_def at_stage_def)
    qed (use pre(2) excl in \<open>auto simp: body_inv_def at_stage_def\<close>)
    with inv pre(1) show ?case by simp
  qed
  then show "lock_inv s" "\<not> releasing \<Longrightarrow> body_inv env s" by simp_all
qed

text \<open>
  C8: At most one handle holds the lock of a phase, however acquisitions, releases, drops and crashes
  interleave, and the holder owns the operating system's lock. If handles are only ever dropped,
  inspecting a held lock shows the body of its holder.
\<close>

theorem phase_lock_exclusive:
  assumes "lock_reachable env phase releasing contents s" "ls_stage s h = Held"
  shows "(\<forall>h'. ls_stage s h' = Held \<longrightarrow> h' = h) \<and> ls_taken s = Some h \<and>
    (\<not> releasing \<longrightarrow> good_codec env (ls_body s h) \<longrightarrow> validate_phase_name phase = Inr () \<longrightarrow>
       inspect env phase (ls_file s) = Inr (Some (ls_body s h)))"
proof -
  note inv = lock_reachable_inv [OF assms(1)]
  have own: "ls_taken s = Some h" using inv_owned [OF inv(1) assms(2)] by simp
  moreover have "h' = h" if "ls_stage s h' = Held" for h'
    using inv_owned [OF inv(1) that] own by simp
  moreover have "inspect env phase (ls_file s) = Inr (Some (ls_body s h))"
    if "\<not> releasing" "good_codec env (ls_body s h)" "validate_phase_name phase = Inr ()"
  proof -
    have "ls_file s = Some (le_show env (ls_body s h))"
      using inv(2) [OF that(1)] assms(2) by (simp add: body_inv_def)
    with that show ?thesis by (simp add: inspect_def read_shown)
  qed
  ultimately show ?thesis by blast
qed

lemma early_check_free: "early_check env phase (Some []) = None" "early_check env phase None = None"
  by (simp_all add: early_check_def read_lock_body_def)

text \<open>One handle acquires a free lock.\<close>

lemma reach_held:
  assumes "lock_reachable env phase releasing contents s" "ls_taken s = None" "ls_file s \<in> {None, Some []}"
    and "ls_stage s h = Absent"
  shows "lock_reachable env phase releasing contents
    (at_stage (s\<lparr>ls_file := Some (le_show env b), ls_taken := Some h, ls_body := (ls_body s)(h := b)\<rparr>) h Held)"
proof -
  let ?R = "lock_reachable env phase releasing contents"
  define s1 where "s1 = at_stage s h Checked"
  define s2 where "s2 = at_stage (s1\<lparr>ls_file := Some (unwrap_or [] (ls_file s1)), ls_taken := Some h\<rparr>) h OsLocked"
  define s3 where "s3 = at_stage (s2\<lparr>ls_file := Some []\<rparr>) h Emptied"
  define s4 where "s4 = at_stage (s3\<lparr>ls_file := Some (le_show env b), ls_body := (ls_body s3)(h := b)\<rparr>) h Held"
  have "early_check (env\<lparr>le_now := 0\<rparr>) phase (ls_file s) = None" using assms(3) early_check_free by auto
  from lock_reachable.more [OF assms(1) lock_step.check [OF assms(4) this]] have r1: "?R s1" by (simp add: s1_def)
  have "ls_stage s1 h = Checked" "ls_taken s1 = None" using assms(2) by (simp_all add: s1_def at_stage_def)
  from lock_reachable.more [OF r1 lock_step.lock [OF this]] have r2: "?R s2" by (simp add: s2_def)
  have "ls_stage s2 h = OsLocked" by (simp add: s2_def at_stage_def)
  from lock_reachable.more [OF r2 lock_step.empty [OF this]] have r3: "?R s3" by (simp add: s3_def)
  have "ls_stage s3 h = Emptied" by (simp add: s3_def at_stage_def)
  from lock_reachable.more [OF r3 lock_step.write_body [OF this, of _ _ _ b]] have "?R s4" by (simp add: s4_def)
  moreover have "s4 = at_stage (s\<lparr>ls_file := Some (le_show env b), ls_taken := Some h, ls_body := (ls_body s)(h := b)\<rparr>) h Held"
    by (simp add: s1_def s2_def s3_def s4_def at_stage_def)
  ultimately show ?thesis by simp
qed

definition demo_body :: lock_body where
  "demo_body = \<lparr>lb_phase = ''plan'', lb_run_id = ''r'', lb_pid = 7, lb_host = ''h'', lb_acquired_at = 0, lb_ttl = 60\<rparr>"

text \<open>A codec for one body, enough to evaluate the functions on a concrete lock.\<close>

definition demo_lock_env :: lock_env where
  "demo_lock_env = \<lparr>le_pid = 7, le_host = ''h'', le_now = 0, le_kill0 = (\<lambda>_. Delivered),
     le_parse = (\<lambda>s. if s = ''body'' then Inr demo_body else Inl ''expected value''), le_show = (\<lambda>_. ''body'')\<rparr>"

theorem phase_lock_exclusive_witness:
  "\<exists>s. lock_reachable demo_lock_env ''plan'' True None s \<and> ls_stage s 3 = Held \<and> ls_taken s = Some 3"
proof -
  have "lock_reachable demo_lock_env ''plan'' True None (lock_start None)" by (rule lock_reachable.start)
  from reach_held [OF this, of 3 demo_body] obtain s where
    s: "lock_reachable demo_lock_env ''plan'' True None s" "ls_stage s 3 = Held"
    by (auto simp: lock_start_def at_stage_def)
  with phase_lock_exclusive [OF s] show ?thesis by blast
qed

text \<open>
  An explicit release can erase the lock body of the next holder: it unlocks before the handle is
  dropped, and the drop truncates the file once more. There is a reachable state in which a handle
  holds the lock while inspecting it reports that nobody does.
\<close>

theorem release_erases_next_body:
  "\<exists>s h. lock_reachable env phase True None s \<and> ls_stage s h = Held \<and> ls_taken s = Some h \<and>
     inspect env phase (ls_file s) = rbind (validate_phase_name phase) (\<lambda>_. Inr None)"
proof -
  let ?R = "lock_reachable env phase True None"
  define s1 where "s1 = at_stage ((lock_start None)\<lparr>ls_file := Some (le_show env demo_body), ls_taken := Some (0 :: nat),
     ls_body := (ls_body (lock_start None))(0 := demo_body)\<rparr>) 0 Held"
  define s2 where "s2 = at_stage (s1\<lparr>ls_file := Some []\<rparr>) 0 RelTruncated"
  define s3 where "s3 = at_stage (s2\<lparr>ls_taken := None\<rparr>) 0 RelUnlocked"
  define s4 where "s4 = at_stage (s3\<lparr>ls_file := Some (le_show env demo_body), ls_taken := Some 1,
     ls_body := (ls_body s3)(1 := demo_body)\<rparr>) 1 Held"
  define s5 where "s5 = at_stage (s4\<lparr>ls_file := Some []\<rparr>) 0 Absent"
  have r1: "?R s1" unfolding s1_def by (rule reach_held [OF lock_reachable.start]) (simp_all add: lock_start_def)
  have "ls_stage s1 0 = Held" by (simp add: s1_def at_stage_def)
  from lock_reachable.more [OF r1 lock_step.release_truncate [OF TrueI this]] have r2: "?R s2" by (simp add: s2_def)
  have "ls_stage s2 0 = RelTruncated" by (simp add: s2_def at_stage_def)
  from lock_reachable.more [OF r2 lock_step.release_unlock [OF this]] have r3: "?R s3" by (simp add: s3_def)
  have r4: "?R s4" unfolding s4_def
    by (rule reach_held [OF r3]) (simp_all add: s3_def s2_def s1_def at_stage_def lock_start_def)
  have "ls_stage s4 0 = RelUnlocked" by (simp add: s4_def s3_def at_stage_def)
  from lock_reachable.more [OF r4 lock_step.release_drop [OF this]] have "?R s5" by (simp add: s5_def)
  moreover have "ls_stage s5 1 = Held" "ls_taken s5 = Some 1" "ls_file s5 = Some []"
    by (simp_all add: s5_def s4_def at_stage_def)
  moreover have "inspect env phase (Some []) = rbind (validate_phase_name phase) (\<lambda>_. Inr None)"
    by (simp add: inspect_def read_lock_body_def split: sum.splits)
  ultimately show ?thesis by metis
qed

lemma acquire_outcome:
  assumes "acquire io env ok phase rid ttl (f, taken) = (r, (f', taken'))"
  shows "(\<exists>e. r = Inl e \<and> taken' = taken) \<or>
    (r = Inr (new_body env phase rid ttl) \<and> \<not> taken \<and> taken' \<and> f' = Some (le_show env (new_body env phase rid ttl)) \<and>
       validate_phase_name phase = Inr ())"
  using assms
  by (auto simp: acquire_def Let_def split: sum.splits option.splits if_splits)

text \<open>
  An acquisition, whatever the file operations answer, takes the lock only when it is free, and one
  that fails leaves the operating system's lock as it was; after a success inspecting shows the
  body of the new holder. Without faults a lock that is free is acquired unless a live body is left
  in its file; after a release it can be acquired again at once.
\<close>

theorem acquire_spec:
  assumes "good_codec env (new_body env phase rid ttl)" "validate_phase_name phase = Inr ()"
    and "acquire io env ok phase rid ttl (f, taken) = (r, (f', taken'))"
  shows "(\<forall>e. r = Inl e \<longrightarrow> taken' = taken) \<and>
    (\<forall>b. r = Inr b \<longrightarrow> \<not> taken \<and> taken' \<and> lb_pid b = le_pid env \<and> lb_run_id b = rid \<and> inspect env phase f' = Inr (Some b)) \<and>
    (early_check env phase f = None \<longrightarrow> \<not> taken \<longrightarrow> io = quiet_io \<longrightarrow> ok \<longrightarrow> r = Inr (new_body env phase rid ttl)) \<and>
    fst (acquire quiet_io env True phase rid ttl (release (f', taken'))) = Inr (new_body env phase rid ttl)"
proof (intro conjI allI impI)
  note out = acquire_outcome [OF assms(3)] and shown = read_shown [OF assms(1)]
  show "taken' = taken" if "r = Inl e" for e using out that by auto
  fix b assume "r = Inr b"
  with out have b: "b = new_body env phase rid ttl" "\<not> taken" "taken'" "f' = Some (le_show env b)" by auto
  then show "\<not> taken" "taken'" "lb_pid b = le_pid env" "lb_run_id b = rid" by (simp_all add: new_body_def)
  show "inspect env phase f' = Inr (Some b)" using b shown assms(2) by (simp add: inspect_def)
next
  assume "early_check env phase f = None" "\<not> taken" "io = quiet_io" ok
  then show "r = Inr (new_body env phase rid ttl)"
    using assms(2,3) by (simp add: acquire_def quiet_io_def Let_def)
next
  show "fst (acquire quiet_io env True phase rid ttl (release (f', taken'))) = Inr (new_body env phase rid ttl)"
    using assms(2) by (simp add: acquire_def release_def early_check_free quiet_io_def Let_def)
qed

lemma demo_lock_facts:
  "validate_phase_name ''plan'' = Inr ()" "good_codec demo_lock_env demo_body"
  "new_body demo_lock_env ''plan'' ''r'' None = demo_body"
proof -
  have t: "trim ''plan'' = ''plan''" "trim ''body'' = ''body''" by code_simp+
  show "validate_phase_name ''plan'' = Inr ()" by (simp add: validate_phase_name_def t)
  show "new_body demo_lock_env ''plan'' ''r'' None = demo_body"
    by (simp add: new_body_def demo_lock_env_def demo_body_def DEFAULT_PHASE_LOCK_TTL_SECONDS_def)
  show "good_codec demo_lock_env demo_body" by (simp add: good_codec_def demo_lock_env_def t)
qed

theorem acquire_spec_witness:
  "\<exists>f. acquire quiet_io demo_lock_env True ''plan'' ''r'' None (None, False) = (Inr demo_body, (f, True)) \<and>
     inspect demo_lock_env ''plan'' f = Inr (Some demo_body)"
proof -
  obtain r f t where a: "acquire quiet_io demo_lock_env True ''plan'' ''r'' None (None, False) = (r, (f, t))"
    by (metis prod.collapse)
  note spec = acquire_spec [OF demo_lock_facts(2) [folded demo_lock_facts(3)] demo_lock_facts(1) a]
  then have "r = Inr demo_body" using early_check_free(2) demo_lock_facts(3) by simp
  with spec a show ?thesis by simp
qed

text \<open>
  When only the final sync of an acquisition fails, its body stays in the file although nobody
  holds the lock: as long as the process lives and the bound lasts, every further acquisition is
  refused, naming that process.
\<close>

lemma failed_sync_blocks:
  assumes "validate_phase_name phase = Inr ()" "early_check env phase f = None" "good_codec env b"
    and "b = new_body env phase rid ttl" "is_lock_body_live (le_kill0 env) (le_now env) b"
  shows "snd (acquire (quiet_io\<lparr>ai_sync := Some e\<rparr>) env True phase rid ttl (f, False)) = (Some (le_show env b), False)"
    "fst (acquire quiet_io env True phase rid ttl (Some (le_show env b), False)) = Inl (in_use phase b)"
  using assms read_shown [OF assms(3)] by (simp_all add: acquire_def quiet_io_def early_check_def Let_def)

end
