(* ===== verification/PhaseOrder.thy ===== *)
theory PhaseOrder
  imports Prelude "HOL-Library.Word"
begin

text \<open>
  \<open>src/run_state/order.rs\<close>: the guard that enforces the order of a phase's life. A debug build
  panics on a transition out of order (\<open>None\<close>), a release build ignores it.
\<close>

datatype phase_state = Idle | Started | ArtefactWritten | ManifestAppended | Completed

fun phase_state_str :: "phase_state \<Rightarrow> string" where
  "phase_state_str Idle = ''Idle''"
| "phase_state_str Started = ''Started''"
| "phase_state_str ArtefactWritten = ''ArtefactWritten''"
| "phase_state_str ManifestAppended = ''ManifestAppended''"
| "phase_state_str Completed = ''Completed''"

record order_guard =
  og_state :: phase_state
  og_phase :: string
  og_attempt :: "32 word"

definition guard_new :: "string \<Rightarrow> 32 word \<Rightarrow> order_guard" where
  "guard_new phase attempt = \<lparr>og_state = Idle, og_phase = phase, og_attempt = attempt\<rparr>"

definition transition :: "bool \<Rightarrow> phase_state \<Rightarrow> phase_state \<Rightarrow> order_guard \<Rightarrow> order_guard option" where
  "transition debug target expected_current g =
     (if og_state g \<noteq> expected_current then (if debug then None else Some g)
      else Some (g\<lparr>og_state := target\<rparr>))"

definition mark_started :: "bool \<Rightarrow> order_guard \<Rightarrow> order_guard option" where
  "mark_started debug = transition debug Started Idle"

definition mark_artefact_written :: "bool \<Rightarrow> order_guard \<Rightarrow> order_guard option" where
  "mark_artefact_written debug = transition debug ArtefactWritten Started"

definition mark_manifest_appended :: "bool \<Rightarrow> order_guard \<Rightarrow> order_guard option" where
  "mark_manifest_appended debug = transition debug ManifestAppended ArtefactWritten"

definition mark_completed :: "bool \<Rightarrow> order_guard \<Rightarrow> order_guard option" where
  "mark_completed debug = transition debug Completed ManifestAppended"

subsection \<open>Sequences of marks\<close>

text \<open>A call is named by the state it marks; no method marks \<open>Idle\<close>.\<close>

fun mark :: "bool \<Rightarrow> phase_state \<Rightarrow> order_guard \<Rightarrow> order_guard option" where
  "mark debug Idle g = Some g"
| "mark debug Started g = mark_started debug g"
| "mark debug ArtefactWritten g = mark_artefact_written debug g"
| "mark debug ManifestAppended g = mark_manifest_appended debug g"
| "mark debug Completed g = mark_completed debug g"

fun marks :: "bool \<Rightarrow> phase_state list \<Rightarrow> order_guard \<Rightarrow> order_guard option" where
  "marks debug [] g = Some g"
| "marks debug (c # cs) g = (case mark debug c g of None \<Rightarrow> None | Some g' \<Rightarrow> marks debug cs g')"

definition life :: "phase_state list" where
  "life = [Started, ArtefactWritten, ManifestAppended, Completed]"

fun rank :: "phase_state \<Rightarrow> nat" where
  "rank Idle = 0"
| "rank Started = 1"
| "rank ArtefactWritten = 2"
| "rank ManifestAppended = 3"
| "rank Completed = 4"

lemmas mark_defs = mark_started_def mark_artefact_written_def mark_manifest_appended_def mark_completed_def transition_def

lemma mark_cases:
  assumes "mark debug c g = Some g'" "c \<noteq> Idle"
  shows "(rank c = Suc (rank (og_state g)) \<and> g' = g\<lparr>og_state := c\<rparr>) \<or>
    (\<not> debug \<and> rank c \<noteq> Suc (rank (og_state g)) \<and> g' = g)"
  using assms by (cases c; cases "og_state g") (auto simp: mark_defs split: if_splits)

lemma life_step: "rank c = Suc n \<Longrightarrow> take (Suc n) life = take n life @ [c]"
  by (cases c) (auto simp: life_def)

lemma marks_progress:
  assumes "marks debug cs g = Some g'" "Idle \<notin> set cs"
  shows "\<exists>ds. subseq ds cs \<and> take (rank (og_state g')) life = take (rank (og_state g)) life @ ds \<and> (debug \<longrightarrow> ds = cs)"
  using assms
proof (induction cs arbitrary: g)
  case (Cons c cs)
  then obtain g1 where one: "mark debug c g = Some g1" and rest: "marks debug cs g1 = Some g'"
    by (auto split: option.splits)
  from Cons.IH [OF rest] Cons.prems(2) obtain ds where ds: "subseq ds cs"
    "take (rank (og_state g')) life = take (rank (og_state g1)) life @ ds" "debug \<longrightarrow> ds = cs" by auto
  have "c \<noteq> Idle" using Cons.prems(2) by auto
  from mark_cases [OF one this] show ?case
  proof (elim disjE conjE)
    assume r: "rank c = Suc (rank (og_state g))" and g1: "g1 = g\<lparr>og_state := c\<rparr>"
    have "take (rank (og_state g')) life = take (rank (og_state g)) life @ c # ds"
      using ds(2) life_step [OF r] by (simp add: g1 r)
    with ds show ?thesis by (intro exI [of _ "c # ds"]) auto
  qed (use ds in auto)
qed auto

text \<open>
  In a release build the guard of a new phase reaches a state only when the marks before it were
  all called, in the order of a phase's life (other calls may be interspersed and are ignored); in
  a debug build the calls so far are exactly the beginning of that life, or the program panicked.
\<close>

theorem guard_enforces_order:
  assumes "Idle \<notin> set cs"
  shows "(\<forall>g. marks debug cs (guard_new phase attempt) = Some g \<longrightarrow> subseq (take (rank (og_state g)) life) cs) \<and>
    (marks True cs (guard_new phase attempt) \<noteq> None \<longleftrightarrow> prefix cs life)"
proof (intro conjI allI impI)
  fix g assume "marks debug cs (guard_new phase attempt) = Some g"
  from marks_progress [OF this assms] show "subseq (take (rank (og_state g)) life) cs"
    by (auto simp: guard_new_def)
next
  have "prefix cs life" if "marks True cs (guard_new phase attempt) = Some g" for g
    using marks_progress [OF that assms] by (auto simp: guard_new_def) (metis take_is_prefix)
  moreover have "marks True cs (guard_new phase attempt) \<noteq> None" if "prefix cs life"
  proof -
    from that have "cs \<in> set [[], [Started], [Started, ArtefactWritten], [Started, ArtefactWritten, ManifestAppended], life]"
      by (auto simp: life_def prefix_Cons)
    then show ?thesis by (auto simp: life_def mark_defs guard_new_def)
  qed
  ultimately show "marks True cs (guard_new phase attempt) \<noteq> None \<longleftrightarrow> prefix cs life" by blast
qed

theorem guard_enforces_order_witness:
  "subseq (take (rank ManifestAppended) life) [Started, Completed, ArtefactWritten, ManifestAppended]"
proof -
  let ?cs = "[Started, Completed, ArtefactWritten, ManifestAppended]"
  have n: "Idle \<notin> set ?cs" by simp
  have m: "marks False ?cs (guard_new ''plan'' 0) = Some ((guard_new ''plan'' 0)\<lparr>og_state := ManifestAppended\<rparr>)"
    by (simp add: mark_defs guard_new_def)
  from guard_enforces_order [OF n, of False "''plan''" 0] m show ?thesis by auto
qed

end
