(* ===== verification/RunState.thy ===== *)
theory RunState
  imports Markers "HOL-Library.Char_ord" "HOL-Library.List_Lexorder"
begin

text \<open>
  \<open>src/run_state/load.rs\<close>, the staleness tests of \<open>src/run_state/heartbeat.rs\<close> and the directory digest
  of \<open>src/manifest.rs\<close>: the validated snapshot of a run directory from which a resume is planned.
  The clock is an argument. A time is a number of nanoseconds; \<open>None\<close> is a panic of \<open>chrono\<close> on a
  duration out of its range, or a directory deeper than the fuel.
\<close>

subsection \<open>Types\<close>

datatype phase_status = PsStarted | PsCompleted | PsFailed | PsNone

record heartbeat =
  hb_pid :: int
  hb_host :: string
  hb_tick_at :: int

datatype heartbeat_status = Live heartbeat | Stale int "64 word"

datatype load_error =
    LdSchemaMismatch "32 word" "32 word" string
  | LdMissing string
  | LdCorrupt string string string
  | LdIo io_error
  | LdJson serde_error

record run_state =
  rs_run_id :: string
  rs_entries :: "manifest_entry list"
  rs_dropped :: "manifest_entry list"
  rs_status :: "string \<rightharpoonup> phase_status"
  rs_heartbeat :: "heartbeat_status option"

record marker_scan =
  sc_status :: "string \<rightharpoonup> phase_status"
  sc_hashes :: "string set"
  sc_has_completed :: bool

subsection \<open>Markers\<close>

fun status_rank :: "phase_status \<Rightarrow> nat" where
  "status_rank PsNone = 0"
| "status_rank PsStarted = 1"
| "status_rank PsFailed = 2"
| "status_rank PsCompleted = 3"

definition update_phase_status ::
  "(string \<rightharpoonup> phase_status) \<Rightarrow> string \<Rightarrow> phase_status \<Rightarrow> (string \<rightharpoonup> phase_status) \<times> bool" where
  "update_phase_status m phase st =
     (case m phase of
        Some current \<Rightarrow> if status_rank current < status_rank st then (m(phase \<mapsto> st), True) else (m, False)
      | None \<Rightarrow> (m(phase \<mapsto> st), True))"

text \<open>The text before the first \<open>.started.\<close>, or all of it: the last alternative always applies.\<close>

definition marker_phase :: "string \<Rightarrow> string option" where
  "marker_phase n = or_else (strip_suffix ''.completed'' n) (or_else (strip_suffix ''.failed'' n)
     (or_else (strip_suffix ''.started'' n)
        (Some (case find_sub ''.started.'' n of Some i \<Rightarrow> take i n | None \<Rightarrow> n))))"

text \<open>Fields that the reader knows may not be repeated; others are ignored.\<close>

definition known_once :: "string list \<Rightarrow> (string \<times> json) list \<Rightarrow> bool" where
  "known_once known m = distinct (filter (\<lambda>k. k \<in> set known) (map fst m))"

definition read_completed :: "libs \<Rightarrow> string \<Rightarrow> string option" where
  "read_completed L content = (case js_parse (lb_json L) content of
     Inr (JObj m) \<Rightarrow>
       if known_once [''manifest_entry_sha256'', ''phase''] m then
         (case required ''manifest_entry_sha256'' as_str m of
            Inr s \<Rightarrow> (case optional ''phase'' as_str m of Inr _ \<Rightarrow> Some s | Inl _ \<Rightarrow> None)
          | Inl _ \<Rightarrow> None)
       else None
   | _ \<Rightarrow> None)"

definition set_status :: "string \<Rightarrow> phase_status \<Rightarrow> marker_scan \<Rightarrow> marker_scan" where
  "set_status phase st s = s\<lparr>sc_status := fst (update_phase_status (sc_status s) phase st)\<rparr>"

definition scan_one :: "libs \<Rightarrow> reader \<Rightarrow> dir \<Rightarrow> string \<Rightarrow> marker_scan \<Rightarrow> marker_scan" where
  "scan_one L rd d n s =
     (if \<not> rd_is_file rd (d @ [Normal n]) then s
      else case marker_phase n of
          None \<Rightarrow> s
        | Some phase \<Rightarrow>
            if ends_with n ''.completed'' then
              (case rd_read rd (d @ [Normal n]) of
                 Inl _ \<Rightarrow> s
               | Inr content \<Rightarrow> (case read_completed L content of
                     None \<Rightarrow> s
                   | Some sha \<Rightarrow> set_status phase PsCompleted
                       (s\<lparr>sc_hashes := insert sha (sc_hashes s), sc_has_completed := True\<rparr>)))
            else if ends_with n ''.failed'' then set_status phase PsFailed s
            else if contains n ''.started'' then set_status phase PsStarted s
            else s)"

definition no_markers :: marker_scan where
  "no_markers = \<lparr>sc_status = Map.empty, sc_hashes = {}, sc_has_completed = False\<rparr>"

definition load_markers :: "libs \<Rightarrow> reader \<Rightarrow> dir \<Rightarrow> (load_error, marker_scan) result" where
  "load_markers L rd run_dir =
     (let d = pjoin run_dir ''markers'' in
      if \<not> rd_exists rd d then Inr no_markers
      else case rd_list rd d of
          Inl e \<Rightarrow> Inl (LdIo e)
        | Inr names \<Rightarrow> Inr (foldl (\<lambda>s n. scan_one L rd d n s) no_markers names))"

subsection \<open>The manifest and its entries\<close>

definition manifest_path :: "dir \<Rightarrow> dir" where
  "manifest_path run_dir = pjoin run_dir ''manifest.json''"

definition load_manifest :: "libs \<Rightarrow> reader \<Rightarrow> dir \<Rightarrow> (load_error, manifest) result" where
  "load_manifest L rd run_dir =
     (case rd_read rd (manifest_path run_dir) of
        Inl e \<Rightarrow> Inl (LdIo e)
      | Inr content \<Rightarrow> (case from_json L content of
            Inl e \<Rightarrow> Inl (LdJson e)
          | Inr m \<Rightarrow>
              if mf_schema_version m \<noteq> 1 then
                Inl (LdSchemaMismatch 1 (mf_schema_version m) (show_dir (manifest_path run_dir)))
              else (case first_bad_version (mf_entries m) of
                  Some e \<Rightarrow> Inl (LdSchemaMismatch 1 (me_schema_version e) (me_name e))
                | None \<Rightarrow> Inr m)))"

definition orphan_sweep :: "manifest_entry list \<Rightarrow> string set \<Rightarrow> manifest_entry list \<times> manifest_entry list" where
  "orphan_sweep es hashes = (filter (\<lambda>e. me_sha256 e \<in> hashes) es, filter (\<lambda>e. me_sha256 e \<notin> hashes) es)"

text \<open>
  The walk of a directory: the files below it with their digests, by their paths relative to it.
  The fuel bounds the depth.
\<close>

fun digest_walk ::
  "nat \<Rightarrow> libs \<Rightarrow> reader \<Rightarrow> dir \<Rightarrow> dir \<Rightarrow> string list \<Rightarrow> (io_error, (string \<times> string) list) result option" where
  "digest_walk fuel L rd root rel [] = Some (Inr [])"
| "digest_walk fuel L rd root rel (n # ns) =
     (let rel' = rel @ [Normal n]; path = root @ rel' in
      case (if rd_is_file rd path then
              Some (case rd_read rd path of
                  Inl e \<Rightarrow> Inl e
                | Inr content \<Rightarrow> Inr [(show_dir rel', sha256_hex L content)])
            else if rd_is_dir rd path then
              (case fuel of
                 0 \<Rightarrow> None
               | Suc fuel' \<Rightarrow> (case rd_list rd path of
                     Inl e \<Rightarrow> Some (Inl e)
                   | Inr names \<Rightarrow> digest_walk fuel' L rd root rel' names))
            else Some (Inr [])) of
        None \<Rightarrow> None
      | Some (Inl e) \<Rightarrow> Some (Inl e)
      | Some (Inr xs) \<Rightarrow> (case digest_walk fuel L rd root rel ns of
            None \<Rightarrow> None
          | Some (Inl e) \<Rightarrow> Some (Inl e)
          | Some (Inr ys) \<Rightarrow> Some (Inr (xs @ ys))))"

definition digest_line :: "string \<times> string \<Rightarrow> string" where
  "digest_line p = fst p @ [CHR 0x09] @ snd p @ [CHR 0x0A]"

definition dir_digest :: "nat \<Rightarrow> libs \<Rightarrow> reader \<Rightarrow> dir \<Rightarrow> (io_error, string) result option" where
  "dir_digest fuel L rd root =
     (case rd_list rd root of
        Inl e \<Rightarrow> Some (Inl e)
      | Inr names \<Rightarrow> (case digest_walk fuel L rd root [] names of
            None \<Rightarrow> None
          | Some (Inl e) \<Rightarrow> Some (Inl e)
          | Some (Inr entries) \<Rightarrow> Some (Inr (sha256_hex L (concat (map digest_line (sort_key fst entries)))))))"

text \<open>The digest of what an entry names: of a directory for \<open>changes/\<close>, of a file otherwise.\<close>

definition entry_digest :: "nat \<Rightarrow> libs \<Rightarrow> reader \<Rightarrow> dir \<Rightarrow> manifest_entry \<Rightarrow> (io_error, string) result option" where
  "entry_digest fuel L rd path e =
     (case me_kind e of
        ChangesDir \<Rightarrow> dir_digest fuel L rd path
      | _ \<Rightarrow> Some (case rd_read rd path of Inl err \<Rightarrow> Inl err | Inr content \<Rightarrow> Inr (sha256_hex L content)))"

fun verify_entries :: "nat \<Rightarrow> libs \<Rightarrow> reader \<Rightarrow> dir \<Rightarrow> manifest_entry list \<Rightarrow> (load_error, unit) result option" where
  "verify_entries fuel L rd run_dir [] = Some (Inr ())"
| "verify_entries fuel L rd run_dir (e # es) =
     (let path = pjoin run_dir (me_name e) in
      if \<not> rd_exists rd path then Some (Inl (LdMissing (show_dir path)))
      else case entry_digest fuel L rd path e of
          None \<Rightarrow> None
        | Some (Inl err) \<Rightarrow> Some (Inl (LdIo err))
        | Some (Inr computed) \<Rightarrow>
            if computed \<noteq> me_sha256 e then Some (Inl (LdCorrupt (show_dir path) (me_sha256 e) computed))
            else verify_entries fuel L rd run_dir es)"

subsection \<open>Heart beats\<close>

text \<open>\<open>chrono::Duration::seconds\<close> of a \<open>u64\<close> cast to \<open>i64\<close>, in nanoseconds.\<close>

definition duration_seconds :: "64 word \<Rightarrow> int option" where
  "duration_seconds ttl =
     (if \<bar>sint ttl\<bar> \<le> 9223372036854775 then Some (sint ttl * 10 ^ 9) else None)"

definition status_from_heartbeat :: "int \<Rightarrow> heartbeat \<Rightarrow> 64 word \<Rightarrow> heartbeat_status option" where
  "status_from_heartbeat now hb ttl =
     (case duration_seconds ttl of
        None \<Rightarrow> None
      | Some d \<Rightarrow> Some (if now - hb_tick_at hb > d then Stale (hb_tick_at hb) ttl else Live hb))"

text \<open>Subtracting from a time panics below the least time there is.\<close>

definition is_stale :: "int \<Rightarrow> int \<Rightarrow> int \<Rightarrow> 64 word \<Rightarrow> bool option" where
  "is_stale least tick_at now ttl =
     (case duration_seconds ttl of
        None \<Rightarrow> None
      | Some d \<Rightarrow> if now - d < least then None else Some (tick_at < now - d))"

fun as_i64 :: "json \<Rightarrow> int option" where
  "as_i64 (JInt n) = (if - (2 ^ 63) \<le> n \<and> n < 2 ^ 63 then Some n else None)"
| "as_i64 _ = None"

definition heartbeat_path :: "dir \<Rightarrow> dir" where
  "heartbeat_path run_dir = pjoin run_dir ''heartbeat.json''"

fun heartbeat_of :: "libs \<Rightarrow> json \<Rightarrow> (serde_error, heartbeat) result" where
  "heartbeat_of L (JObj m) =
     (if \<not> known_once [''writer_pid'', ''writer_host'', ''tick_at''] m then Inl DuplicateField
      else rbind (required ''writer_pid'' as_i64 m) (\<lambda>pid.
        rbind (required ''writer_host'' as_str m) (\<lambda>host.
        rbind (required ''tick_at'' (as_time L) m) (\<lambda>t.
          Inr \<lparr>hb_pid = pid, hb_host = host, hb_tick_at = t\<rparr>))))"
| "heartbeat_of L _ = Inl (InvalidValue ''heartbeat'')"

definition read_heartbeat :: "libs \<Rightarrow> reader \<Rightarrow> dir \<Rightarrow> (load_error, heartbeat option) result" where
  "read_heartbeat L rd run_dir =
     (if \<not> rd_exists rd (heartbeat_path run_dir) then Inr None
      else case rd_read rd (heartbeat_path run_dir) of
          Inl e \<Rightarrow> Inl (LdIo e)
        | Inr content \<Rightarrow> (case js_parse (lb_json L) content of
              Inl e \<Rightarrow> Inl (LdJson (JsonSyntax e))
            | Inr v \<Rightarrow> (case heartbeat_of L v of Inl e \<Rightarrow> Inl (LdJson e) | Inr hb \<Rightarrow> Inr (Some hb))))"

text \<open>\<open>read_ttl\<close>: any failure is \<open>None\<close>.\<close>

definition read_ttl :: "libs \<Rightarrow> reader \<Rightarrow> dir \<Rightarrow> nat option" where
  "read_ttl L rd run_dir =
     (if \<not> rd_exists rd (heartbeat_path run_dir) then None
      else case rd_read rd (heartbeat_path run_dir) of
          Inl _ \<Rightarrow> None
        | Inr content \<Rightarrow> (case js_parse (lb_json L) content of
              Inr (JObj m) \<Rightarrow>
                if \<not> known_once [''writer_pid'', ''writer_host'', ''tick_at'', ''ttl_seconds''] m then None
                else (case (required ''writer_pid'' as_u32 m, required ''writer_host'' as_str m,
                            required ''tick_at'' (as_time L) m, optional ''ttl_seconds'' as_u64 m) of
                    (Inr _, Inr _, Inr _, Inr ttl) \<Rightarrow> ttl
                  | _ \<Rightarrow> None)
            | _ \<Rightarrow> None))"

subsection \<open>Loading\<close>

definition load_state :: "nat \<Rightarrow> libs \<Rightarrow> reader \<Rightarrow> int \<Rightarrow> dir \<Rightarrow> 64 word \<Rightarrow> (load_error, run_state) result option" where
  "load_state fuel L rd now run_dir ttl =
     (case load_manifest L rd run_dir of
        Inl e \<Rightarrow> Some (Inl e)
      | Inr m \<Rightarrow> (case load_markers L rd run_dir of
          Inl e \<Rightarrow> Some (Inl e)
        | Inr sc \<Rightarrow> (case (if sc_has_completed sc then orphan_sweep (mf_entries m) (sc_hashes sc)
                        else (mf_entries m, [])) of
            (entries, dropped) \<Rightarrow> (case read_heartbeat L rd run_dir of
                Inl e \<Rightarrow> Some (Inl e)
              | Inr hb \<Rightarrow>
                  (case (case hb of None \<Rightarrow> Some None
                         | Some h \<Rightarrow> map_option Some (status_from_heartbeat now h ttl)) of
                     None \<Rightarrow> None
                   | Some beat \<Rightarrow> (case verify_entries fuel L rd run_dir entries of
                         None \<Rightarrow> None
                       | Some (Inl e) \<Rightarrow> Some (Inl e)
                       | Some (Inr _) \<Rightarrow> Some (Inr \<lparr>rs_run_id = mf_run_id m, rs_entries = entries,
                           rs_dropped = dropped, rs_status = sc_status sc, rs_heartbeat = beat\<rparr>)))))))"

end
