(* ===== verification/SortOrder.thy ===== *)
theory SortOrder
  imports Main "HOL-Library.Multiset"
begin

text \<open>
  Sorting by a key that tells the elements apart: the result does not depend on the order in which
  the elements come, as those of a directory or of a \<open>HashMap\<close> do.
\<close>

lemma sort_key_functional:
  assumes "mset ys = mset xs" "\<forall>a \<in> set xs. \<forall>b \<in> set xs. f a = f b \<longrightarrow> a = b"
  shows "sort_key f ys = sort_key f xs"
proof (rule properties_for_sort_key)
  show "mset (sort_key f xs) = mset ys" using assms(1) by simp
  show "sorted (map f (sort_key f xs))" by simp
  fix k assume "k \<in> set (sort_key f xs)"
  then have k: "k \<in> set xs" by simp
  have "filter (\<lambda>x. f k = f x) zs = replicate (count (mset zs) k) k" if "set zs \<subseteq> set xs" for zs
    using that assms(2) k by (induction zs) auto
  then show "filter (\<lambda>x. f k = f x) (sort_key f xs) = filter (\<lambda>x. f k = f x) ys"
    using mset_eq_setD [OF assms(1)] assms(1) by simp
qed

corollary sort_key_perm: "mset ys = mset xs \<Longrightarrow> inj_on f (set xs) \<Longrightarrow> sort_key f ys = sort_key f xs"
  by (rule sort_key_functional) (auto simp: inj_on_def)

end
