(* ===== verification/RunStateProps.thy ===== *)
theory RunStateProps
  imports RunState SortOrder
begin

text \<open>
  What a loaded run state means: which status a phase gets, that everything that is kept has been
  verified, that the order in which directories are listed does not matter, and that the two tests
  of staleness agree.
\<close>

subsection \<open>The status of a phase\<close>

text \<open>What one marker file says: a phase, a status, and for a completed marker a digest.\<close>

definition contribution :: "libs \<Rightarrow> reader \<Rightarrow> dir \<Rightarrow> string \<Rightarrow> (string \<times> phase_status \<times> string option) option" where
  "contribution L rd d n =
     (if \<not> rd_is_file rd (d @ [Normal n]) then None
      else if ends_with n ''.completed'' then
        (case rd_read rd (d @ [Normal n]) of
           Inl _ \<Rightarrow> None
         | Inr content \<Rightarrow> map_option (\<lambda>sha. (the (marker_phase n), PsCompleted, Some sha)) (read_completed L content))
      else if ends_with n ''.failed'' then Some (the (marker_phase n), PsFailed, None)
      else if contains n ''.started'' then Some (the (marker_phase n), PsStarted, None)
      else None)"

fun contribute :: "(string \<times> phase_status \<times> string option) option \<Rightarrow> marker_scan \<Rightarrow> marker_scan" where
  "contribute None s = s"
| "contribute (Some (phase, st, None)) s = set_status phase st s"
| "contribute (Some (phase, st, Some sha)) s =
     set_status phase st (s\<lparr>sc_hashes := insert sha (sc_hashes s), sc_has_completed := True\<rparr>)"

lemma marker_phase_some: "marker_phase n = Some (the (marker_phase n))"
  by (simp add: marker_phase_def or_else_def split: option.splits)

lemma scan_one_contribution: "scan_one L rd d n s = contribute (contribution L rd d n) s"
  by (subst scan_one_def, subst marker_phase_some)
    (simp add: contribution_def split: sum.splits option.splits)

text \<open>What a phase's status is, as a property of the set of files.\<close>

definition says :: "libs \<Rightarrow> reader \<Rightarrow> dir \<Rightarrow> string list \<Rightarrow> string \<Rightarrow> phase_status \<Rightarrow> bool" where
  "says L rd d names phase st \<longleftrightarrow> (\<exists>n \<in> set names. \<exists>h. contribution L rd d n = Some (phase, st, h))"

definition top_status :: "(string \<Rightarrow> phase_status \<Rightarrow> bool) \<Rightarrow> string \<Rightarrow> phase_status option \<Rightarrow> bool" where
  "top_status P phase r = (case r of
     None \<Rightarrow> \<forall>st. \<not> P phase st
   | Some st \<Rightarrow> P phase st \<and> (\<forall>st'. P phase st' \<longrightarrow> status_rank st' \<le> status_rank st))"

lemma status_rank_inj: "status_rank a = status_rank b \<Longrightarrow> a = b"
  by (cases a; cases b) simp_all

lemma top_status_unique: "top_status P phase r \<Longrightarrow> top_status P phase r' \<Longrightarrow> r = r'"
  by (cases r; cases r') (auto simp: top_status_def intro!: status_rank_inj le_antisym)

lemma top_status_step:
  assumes "top_status P phase (m phase)"
  shows "top_status (\<lambda>p st. P p st \<or> (p = q \<and> st = new)) phase (fst (update_phase_status m q new) phase)"
  using assms
  by (cases "m q"; cases "m phase") (auto simp: top_status_def update_phase_status_def)

lemma sc_status_contribute:
  "sc_status (contribute c s) = (case c of None \<Rightarrow> sc_status s
     | Some (phase, st, h) \<Rightarrow> fst (update_phase_status (sc_status s) phase st))"
  by (cases c; cases "snd (snd (the c))") (auto simp: set_status_def)

lemma sc_hashes_contribute:
  "sc_hashes (contribute c s) = sc_hashes s \<union> {h. \<exists>p st. c = Some (p, st, Some h)}"
  "sc_has_completed (contribute c s) \<longleftrightarrow> sc_has_completed s \<or> (\<exists>p st h. c = Some (p, st, Some h))"
  by (cases c; cases "snd (snd (the c))"; auto simp: set_status_def)+

definition named_hashes :: "libs \<Rightarrow> reader \<Rightarrow> dir \<Rightarrow> string list \<Rightarrow> string set" where
  "named_hashes L rd d names = {h. \<exists>n \<in> set names. \<exists>p st. contribution L rd d n = Some (p, st, Some h)}"

lemma scan_spec:
  fixes L rd d names
  defines "s \<equiv> foldl (\<lambda>s n. scan_one L rd d n s) no_markers names"
  shows "top_status (says L rd d names) phase (sc_status s phase)" "sc_hashes s = named_hashes L rd d names"
    "sc_has_completed s \<longleftrightarrow> named_hashes L rd d names \<noteq> {}"
proof -
  have "top_status (says L rd d names) phase (sc_status s phase) \<and> sc_hashes s = named_hashes L rd d names \<and>
    (sc_has_completed s \<longleftrightarrow> named_hashes L rd d names \<noteq> {})" for phase
    unfolding s_def
  proof (induction names rule: rev_induct)
    case Nil
    then show ?case by (simp add: no_markers_def top_status_def says_def named_hashes_def)
  next
    case (snoc n ns)
    let ?c = "contribution L rd d n"
    define s where "s = foldl (\<lambda>s n. scan_one L rd d n s) no_markers ns"
    from snoc.IH have ih: "top_status (says L rd d ns) phase (sc_status s phase)" "sc_hashes s = named_hashes L rd d ns"
      "sc_has_completed s \<longleftrightarrow> named_hashes L rd d ns \<noteq> {}" by (simp_all add: s_def)
    have nh: "named_hashes L rd d (ns @ [n]) = named_hashes L rd d ns \<union> {h. \<exists>p st. ?c = Some (p, st, Some h)}"
      by (auto simp: named_hashes_def)
    have "top_status (says L rd d (ns @ [n])) phase (sc_status (contribute ?c s) phase)"
    proof (cases ?c)
      case None
      then have "says L rd d (ns @ [n]) = says L rd d ns" by (auto simp: says_def fun_eq_iff)
      with ih(1) None show ?thesis by (simp add: sc_status_contribute)
    next
      case (Some c)
      obtain q st h where c: "c = (q, st, h)" by (cases c) auto
      with Some have "says L rd d (ns @ [n]) = (\<lambda>p st'. says L rd d ns p st' \<or> (p = q \<and> st' = st))"
        by (auto simp: says_def fun_eq_iff)
      with top_status_step [where m = "sc_status s", OF ih(1)] Some c show ?thesis by (simp add: sc_status_contribute)
    qed
    moreover have "foldl (\<lambda>s n. scan_one L rd d n s) no_markers (ns @ [n]) = contribute ?c s"
      by (simp add: s_def scan_one_contribution)
    ultimately show ?case using ih(2,3) nh by (auto simp: sc_hashes_contribute)
  qed
  then show "top_status (says L rd d names) phase (sc_status s phase)" "sc_hashes s = named_hashes L rd d names"
    "sc_has_completed s \<longleftrightarrow> named_hashes L rd d names \<noteq> {}" by simp_all
qed

text \<open>
  The status of a phase is the highest any of its marker files says, in the order started, failed,
  completed, and none when no file speaks of it; a completed marker that cannot be read or parsed
  says nothing. The digests collected are those of the readable completed markers.
\<close>

theorem phase_status_spec:
  assumes "load_markers L rd run_dir = Inr sc" "rd_exists rd (pjoin run_dir ''markers'')"
    and "rd_list rd (pjoin run_dir ''markers'') = Inr names"
  shows "top_status (says L rd (pjoin run_dir ''markers'') names) phase (sc_status sc phase) \<and>
    sc_hashes sc = named_hashes L rd (pjoin run_dir ''markers'') names \<and>
    (sc_has_completed sc \<longleftrightarrow> sc_hashes sc \<noteq> {})"
proof -
  have "sc = foldl (\<lambda>s n. scan_one L rd (pjoin run_dir ''markers'') n s) no_markers names"
    using assms by (simp add: load_markers_def Let_def)
  with scan_spec [where L = L and rd = rd and d = "pjoin run_dir ''markers''" and names = names] show ?thesis by simp
qed

subsection \<open>What is kept is verified\<close>

lemma verify_entries_ok:
  assumes "verify_entries fuel L rd run_dir es = Some (Inr ())" "e \<in> set es"
  shows "rd_exists rd (pjoin run_dir (me_name e)) \<and>
    entry_digest fuel L rd (pjoin run_dir (me_name e)) e = Some (Inr (me_sha256 e))"
  using assms
  by (induction es) (auto simp: Let_def split: if_splits option.splits sum.splits)

lemma load_state_stages:
  assumes "load_state fuel L rd now run_dir ttl = Some (Inr st)"
  shows "\<exists>m sc. load_manifest L rd run_dir = Inr m \<and> load_markers L rd run_dir = Inr sc \<and>
    rs_run_id st = mf_run_id m \<and> rs_status st = sc_status sc \<and>
    (rs_entries st, rs_dropped st) =
      (if sc_has_completed sc then orphan_sweep (mf_entries m) (sc_hashes sc) else (mf_entries m, [])) \<and>
    verify_entries fuel L rd run_dir (rs_entries st) = Some (Inr ())"
proof -
  from assms obtain m where m: "load_manifest L rd run_dir = Inr m"
    by (cases "load_manifest L rd run_dir") (simp_all add: load_state_def)
  with assms obtain sc where sc: "load_markers L rd run_dir = Inr sc"
    by (cases "load_markers L rd run_dir") (simp_all add: load_state_def)
  obtain entries dropped where ed:
    "(if sc_has_completed sc then orphan_sweep (mf_entries m) (sc_hashes sc) else (mf_entries m, [])) = (entries, dropped)"
    by (metis prod.exhaust)
  from assms m sc ed obtain hb where hb: "read_heartbeat L rd run_dir = Inr hb"
    by (cases "read_heartbeat L rd run_dir") (simp_all add: load_state_def)
  from assms m sc ed hb obtain beat where beat:
    "(case hb of None \<Rightarrow> Some None | Some h \<Rightarrow> map_option Some (status_from_heartbeat now h ttl)) = Some beat"
    by (cases "case hb of None \<Rightarrow> Some None | Some h \<Rightarrow> map_option Some (status_from_heartbeat now h ttl)")
      (simp_all add: load_state_def)
  have v: "verify_entries fuel L rd run_dir entries = Some (Inr ())"
    "st = \<lparr>rs_run_id = mf_run_id m, rs_entries = entries, rs_dropped = dropped, rs_status = sc_status sc, rs_heartbeat = beat\<rparr>"
    using assms m sc ed hb beat by (auto simp: load_state_def split: option.splits sum.splits)
  with m sc ed show ?thesis by simp
qed

text \<open>The digests that the readable completed markers of a run name, as a property of its files.\<close>

definition completed_digests :: "libs \<Rightarrow> reader \<Rightarrow> dir \<Rightarrow> string set" where
  "completed_digests L rd run_dir = (let d = pjoin run_dir ''markers'' in
     {h. \<exists>names n content. rd_exists rd d \<and> rd_list rd d = Inr names \<and> n \<in> set names \<and> rd_is_file rd (d @ [Normal n]) \<and>
        ends_with n ''.completed'' \<and> rd_read rd (d @ [Normal n]) = Inr content \<and> read_completed L content = Some h})"

lemma contribution_digest:
  "(\<exists>p st. contribution L rd d n = Some (p, st, Some h)) \<longleftrightarrow> rd_is_file rd (d @ [Normal n]) \<and> ends_with n ''.completed'' \<and>
     (\<exists>content. rd_read rd (d @ [Normal n]) = Inr content \<and> read_completed L content = Some h)"
  by (cases "rd_read rd (d @ [Normal n])") (auto simp: contribution_def)

lemma load_markers_digests:
  assumes "load_markers L rd run_dir = Inr sc"
  shows "sc_hashes sc = completed_digests L rd run_dir \<and> (sc_has_completed sc \<longleftrightarrow> completed_digests L rd run_dir \<noteq> {})"
proof (cases "rd_exists rd (pjoin run_dir ''markers'')")
  case False
  with assms show ?thesis by (auto simp: load_markers_def no_markers_def completed_digests_def Let_def)
next
  case True
  with assms obtain names where n: "rd_list rd (pjoin run_dir ''markers'') = Inr names"
    "sc = foldl (\<lambda>s n. scan_one L rd (pjoin run_dir ''markers'') n s) no_markers names"
    by (auto simp: load_markers_def Let_def split: sum.splits)
  have "named_hashes L rd (pjoin run_dir ''markers'') names = completed_digests L rd run_dir"
    unfolding named_hashes_def contribution_digest completed_digests_def Let_def using True n(1) by auto
  with scan_spec(2,3) [where L = L and rd = rd and d = "pjoin run_dir ''markers''" and names = names] n(2) show ?thesis by simp
qed

text \<open>
  C7: A run state that loads is sound: the manifest on disk and all its entries have schema version 1;
  when readable completed markers name digests, exactly the entries with one of these digests are kept and
  the others are reported as dropped, else all are kept; and every entry kept exists and has on disk
  the digest that is recorded.
\<close>

theorem load_state_sound:
  assumes "load_state fuel L rd now run_dir ttl = Some (Inr st)"
  shows "\<exists>m content. rd_read rd (manifest_path run_dir) = Inr content \<and> from_json L content = Inr m \<and>
    mf_schema_version m = 1 \<and> (\<forall>e \<in> set (mf_entries m). me_schema_version e = 1) \<and> rs_run_id st = mf_run_id m \<and>
    (let named = completed_digests L rd run_dir in
       rs_entries st = filter (\<lambda>e. named = {} \<or> me_sha256 e \<in> named) (mf_entries m) \<and>
       rs_dropped st = filter (\<lambda>e. named \<noteq> {} \<and> me_sha256 e \<notin> named) (mf_entries m)) \<and>
    (\<forall>e \<in> set (rs_entries st). rd_exists rd (pjoin run_dir (me_name e)) \<and>
       entry_digest fuel L rd (pjoin run_dir (me_name e)) e = Some (Inr (me_sha256 e)))"
proof -
  from load_state_stages [OF assms] obtain m sc where s: "load_manifest L rd run_dir = Inr m"
    "load_markers L rd run_dir = Inr sc" "rs_run_id st = mf_run_id m"
    "(rs_entries st, rs_dropped st) =
      (if sc_has_completed sc then orphan_sweep (mf_entries m) (sc_hashes sc) else (mf_entries m, []))"
    "verify_entries fuel L rd run_dir (rs_entries st) = Some (Inr ())" by auto
  have "\<exists>content. rd_read rd (manifest_path run_dir) = Inr content \<and> from_json L content = Inr m \<and>
    mf_schema_version m = 1 \<and> (\<forall>e \<in> set (mf_entries m). me_schema_version e = 1)"
    using s(1) by (auto simp: load_manifest_def first_bad_version_None split: sum.splits if_splits option.splits)
  moreover have "let named = completed_digests L rd run_dir in
      rs_entries st = filter (\<lambda>e. named = {} \<or> me_sha256 e \<in> named) (mf_entries m) \<and>
      rs_dropped st = filter (\<lambda>e. named \<noteq> {} \<and> me_sha256 e \<notin> named) (mf_entries m)"
    using s(4) load_markers_digests [OF s(2)] by (auto simp: orphan_sweep_def Let_def split: if_splits)
  ultimately show ?thesis using s(3) verify_entries_ok [OF s(5)] by blast
qed

subsection \<open>The order of listings\<close>

text \<open>Two readers of one run directory that may list directories in different orders.\<close>

definition same_tree :: "reader \<Rightarrow> reader \<Rightarrow> bool" where
  "same_tree rd rd' \<longleftrightarrow> rd_read rd' = rd_read rd \<and> rd_exists rd' = rd_exists rd \<and>
     rd_is_file rd' = rd_is_file rd \<and> rd_is_dir rd' = rd_is_dir rd \<and>
     (\<forall>k. case rd_list rd k of Inl e \<Rightarrow> rd_list rd' k = Inl e
        | Inr names \<Rightarrow> \<exists>names'. rd_list rd' k = Inr names' \<and> mset names' = mset names)"

lemma same_tree_simps:
  assumes "same_tree rd rd'"
  shows "rd_read rd' = rd_read rd" "rd_exists rd' = rd_exists rd" "rd_is_file rd' = rd_is_file rd"
    "rd_is_dir rd' = rd_is_dir rd"
  using assms by (simp_all add: same_tree_def)

lemma same_tree_list:
  assumes "same_tree rd rd'"
  shows "rd_list rd k = Inl e \<Longrightarrow> rd_list rd' k = Inl e"
    "rd_list rd k = Inr names \<Longrightarrow> \<exists>names'. rd_list rd' k = Inr names' \<and> mset names' = mset names"
proof -
  have "case rd_list rd k of Inl e \<Rightarrow> rd_list rd' k = Inl e
      | Inr names \<Rightarrow> \<exists>names'. rd_list rd' k = Inr names' \<and> mset names' = mset names"
    using assms unfolding same_tree_def by (elim conjE allE)
  then show "rd_list rd k = Inl e \<Longrightarrow> rd_list rd' k = Inl e"
    "rd_list rd k = Inr names \<Longrightarrow> \<exists>names'. rd_list rd' k = Inr names' \<and> mset names' = mset names"
    by (simp_all split: sum.splits)
qed

text \<open>File names as a file system has them.\<close>

definition plain_names :: "reader \<Rightarrow> bool" where
  "plain_names rd \<longleftrightarrow> (\<forall>k names. rd_list rd k = Inr names \<longrightarrow> (\<forall>n \<in> set names. n \<noteq> [] \<and> CHR ''/'' \<notin> set n))"

lemma load_markers_order:
  assumes "same_tree rd rd'"
  shows "load_markers L rd' run_dir = load_markers L rd run_dir"
proof -
  let ?d = "pjoin run_dir ''markers''"
  note rd = same_tree_simps [OF assms]
  have c: "contribution L rd' = contribution L rd"
    by (simp add: contribution_def fun_eq_iff rd)
  show ?thesis
  proof (cases "rd_list rd ?d")
    case (Inl e)
    with same_tree_list(1) [OF assms this] show ?thesis using Inl by (simp add: load_markers_def rd Let_def)
  next
    case (Inr names)
    from same_tree_list(2) [OF assms this] obtain names' where
      n': "rd_list rd' ?d = Inr names'" "mset names' = mset names" by auto
    then have sets: "says L rd' ?d names' = says L rd ?d names" "named_hashes L rd' ?d names' = named_hashes L rd ?d names"
      by (simp_all add: says_def named_hashes_def c mset_eq_setD [OF n'(2)] fun_eq_iff)
    let ?s = "foldl (\<lambda>s n. scan_one L rd ?d n s) no_markers names"
    let ?s' = "foldl (\<lambda>s n. scan_one L rd' ?d n s) no_markers names'"
    note a = scan_spec [where L = L and rd = rd and d = ?d and names = names]
    note b = scan_spec [where L = L and rd = rd' and d = ?d and names = names', unfolded sets]
    have "sc_status ?s' = sc_status ?s"
      using top_status_unique [OF a(1) b(1)] by auto
    with a(2,3) b(2,3) have "?s' = ?s" by (intro marker_scan.equality) simp_all
    with Inr n' show ?thesis by (simp add: load_markers_def rd Let_def)
  qed
qed

definition walk_one :: "nat \<Rightarrow> libs \<Rightarrow> reader \<Rightarrow> dir \<Rightarrow> dir \<Rightarrow> string \<Rightarrow> (io_error, (string \<times> string) list) result option" where
  "walk_one fuel L rd root rel n =
     (let rel' = rel @ [Normal n]; path = root @ rel' in
      if rd_is_file rd path then
        Some (case rd_read rd path of
            Inl e \<Rightarrow> Inl e
          | Inr content \<Rightarrow> Inr [(show_dir rel', sha256_hex L content)])
      else if rd_is_dir rd path then
        (case fuel of
           0 \<Rightarrow> None
         | Suc fuel' \<Rightarrow> (case rd_list rd path of
               Inl e \<Rightarrow> Some (Inl e)
             | Inr names \<Rightarrow> digest_walk fuel' L rd root rel' names))
      else Some (Inr []))"

lemma digest_walk_Cons:
  "digest_walk fuel L rd root rel (n # ns) =
     (case walk_one fuel L rd root rel n of
        None \<Rightarrow> None
      | Some (Inl e) \<Rightarrow> Some (Inl e)
      | Some (Inr xs) \<Rightarrow> (case digest_walk fuel L rd root rel ns of
            None \<Rightarrow> None
          | Some (Inl e) \<Rightarrow> Some (Inl e)
          | Some (Inr ys) \<Rightarrow> Some (Inr (xs @ ys))))"
  by (simp add: walk_one_def Let_def)

declare digest_walk.simps(2) [simp del]

definition walked :: "(io_error, (string \<times> string) list) result option \<Rightarrow> (string \<times> string) list" where
  "walked r = (case r of Some (Inr xs) \<Rightarrow> xs | _ \<Rightarrow> [])"

lemma digest_walk_ok:
  "digest_walk fuel L rd root rel ns = Some (Inr xs) \<longleftrightarrow>
     (\<forall>n \<in> set ns. \<exists>ys. walk_one fuel L rd root rel n = Some (Inr ys)) \<and>
     xs = concat (map (\<lambda>n. walked (walk_one fuel L rd root rel n)) ns)"
proof (induction ns arbitrary: xs)
  case (Cons n ns)
  consider "walk_one fuel L rd root rel n = None" | e where "walk_one fuel L rd root rel n = Some (Inl e)"
    | ys where "walk_one fuel L rd root rel n = Some (Inr ys)" by (metis option.exhaust sum.exhaust)
  then show ?case
  proof cases
    case (3 ys)
    consider "digest_walk fuel L rd root rel ns = None" | e where "digest_walk fuel L rd root rel ns = Some (Inl e)"
      | zs where "digest_walk fuel L rd root rel ns = Some (Inr zs)" by (metis option.exhaust sum.exhaust)
    then show ?thesis
    proof cases
      case z: (3 zs)
      with Cons.IH [of zs] 3 show ?thesis by (auto simp: digest_walk_Cons walked_def)
    qed (use Cons.IH [of "concat (map (\<lambda>n. walked (walk_one fuel L rd root rel n)) ns)"] 3
      in \<open>auto simp: digest_walk_Cons\<close>)
  qed (simp_all add: digest_walk_Cons)
qed auto

text \<open>A walk in another order finds the same files.\<close>

lemma mset_concat_perm:
  assumes "mset ns' = mset ns" "\<forall>n \<in> set ns. mset (f' n) = mset (f n)"
  shows "mset (concat (map f' ns')) = mset (concat (map f ns))"
proof -
  have "mset (concat (map g xs)) = sum_mset (image_mset (\<lambda>n. mset (g n)) (mset xs))" for g :: "'a \<Rightarrow> 'b list" and xs
    by (induction xs) simp_all
  moreover have "image_mset (\<lambda>n. mset (f' n)) (mset ns) = image_mset (\<lambda>n. mset (f n)) (mset ns)"
    using assms(2) by (auto intro!: image_mset_cong)
  ultimately show ?thesis using assms(1) by simp
qed

lemma walk_one_order:
  assumes "same_tree rd rd'" "walk_one fuel L rd root rel n = Some (Inr ys)"
    and "\<And>fuel' names names' zs. fuel = Suc fuel' \<Longrightarrow> digest_walk fuel' L rd root (rel @ [Normal n]) names = Some (Inr zs) \<Longrightarrow>
      mset names' = mset names \<Longrightarrow> \<exists>ys. digest_walk fuel' L rd' root (rel @ [Normal n]) names' = Some (Inr ys) \<and> mset ys = mset zs"
  shows "\<exists>zs. walk_one fuel L rd' root rel n = Some (Inr zs) \<and> mset zs = mset ys"
proof (cases "rd_is_file rd (root @ rel @ [Normal n]) \<or> \<not> rd_is_dir rd (root @ rel @ [Normal n])")
  case True
  then have "walk_one fuel L rd' root rel n = walk_one fuel L rd root rel n"
    by (auto simp: walk_one_def same_tree_simps [OF assms(1)] Let_def)
  with assms(2) show ?thesis by simp
next
  case False
  with assms(2) obtain fuel' names where n: "fuel = Suc fuel'" "rd_list rd (root @ rel @ [Normal n]) = Inr names"
    "digest_walk fuel' L rd root (rel @ [Normal n]) names = Some (Inr ys)"
    by (auto simp: walk_one_def Let_def split: sum.splits nat.splits)
  from same_tree_list(2) [OF assms(1) n(2)] obtain names' where
    n': "rd_list rd' (root @ rel @ [Normal n]) = Inr names'" "mset names' = mset names" by auto
  from assms(3) [OF n(1,3) n'(2)] n(1) n' False show ?thesis
    by (simp add: walk_one_def same_tree_simps [OF assms(1)] Let_def)
qed

lemma digest_walk_order:
  assumes "same_tree rd rd'" "digest_walk fuel L rd root rel ns = Some (Inr xs)" "mset ns' = mset ns"
  shows "\<exists>ys. digest_walk fuel L rd' root rel ns' = Some (Inr ys) \<and> mset ys = mset xs"
  using assms(2,3)
proof (induction fuel arbitrary: rel ns ns' xs rule: less_induct)
  case (less fuel rel ns ns' xs)
  have one: "\<exists>zs. walk_one fuel L rd' root rel n = Some (Inr zs) \<and> mset zs = mset ys"
    if "walk_one fuel L rd root rel n = Some (Inr ys)" for n ys
    using walk_one_order [OF assms(1) that] less.IH by simp
  from less.prems(1) have w: "\<forall>n \<in> set ns. \<exists>ys. walk_one fuel L rd root rel n = Some (Inr ys)"
    "xs = concat (map (\<lambda>n. walked (walk_one fuel L rd root rel n)) ns)"
    by (simp_all add: digest_walk_ok)
  have "mset (concat (map (\<lambda>n. walked (walk_one fuel L rd' root rel n)) ns')) = mset xs"
    unfolding w(2)
  proof (rule mset_concat_perm [OF less.prems(2)], rule ballI)
    fix n assume "n \<in> set ns"
    with w(1) one show "mset (walked (walk_one fuel L rd' root rel n)) = mset (walked (walk_one fuel L rd root rel n))"
      by (fastforce simp: walked_def)
  qed
  moreover have "\<forall>n \<in> set ns'. \<exists>ys. walk_one fuel L rd' root rel n = Some (Inr ys)"
    using w(1) one mset_eq_setD [OF less.prems(2)] by blast
  ultimately show ?case by (simp add: digest_walk_ok)
qed

text \<open>A relative path determines the file, so that equal paths come with equal digests.\<close>

definition plain_rel :: "dir \<Rightarrow> bool" where
  "plain_rel rel \<longleftrightarrow> (\<forall>k \<in> set rel. \<exists>n. k = Normal n \<and> n \<noteq> [] \<and> CHR ''/'' \<notin> set n)"

lemma split_slash_plain: "CHR ''/'' \<notin> set n \<Longrightarrow> split_slash n = [n]"
  by (induction n) auto

lemma split_slash_join:
  assumes "ns \<noteq> []" "\<forall>n \<in> set ns. CHR ''/'' \<notin> set n"
  shows "split_slash (str_join ''/'' ns) = ns"
  using assms
proof (induction ns)
  case (Cons n ns)
  then show ?case
    by (cases ns) (simp_all add: split_slash_plain split_slash_append)
qed simp

lemma show_dir_plain:
  assumes "plain_rel a" "plain_rel b" "a \<noteq> []" "b \<noteq> []" "show_dir a = show_dir b"
  shows "a = b"
proof -
  have s: "split_slash (show_dir r) = map component_str r \<and> map Normal (map component_str r) = r"
    if "plain_rel r" "r \<noteq> []" for r
  proof -
    have "\<forall>n \<in> set (map component_str r). CHR ''/'' \<notin> set n" "r \<noteq> [RootDir]"
      using that by (auto simp: plain_rel_def)
    moreover have "map Normal (map component_str r) = r"
      using that(1) by (induction r) (auto simp: plain_rel_def)
    ultimately show ?thesis
      using split_slash_join [of "map component_str r"] that by (simp add: show_dir_def)
  qed
  from s [OF assms(1,3)] s [OF assms(2,4)] assms(5) show ?thesis by metis
qed

lemma walk_entries:
  assumes "plain_names rd" "digest_walk fuel L rd root rel ns = Some (Inr xs)" "plain_rel rel"
    and "\<forall>n \<in> set ns. n \<noteq> [] \<and> CHR ''/'' \<notin> set n" "x \<in> set xs"
  shows "\<exists>r content. plain_rel r \<and> r \<noteq> [] \<and> rd_read rd (root @ r) = Inr content \<and> x = (show_dir r, sha256_hex L content)"
  using assms(2-)
proof (induction fuel arbitrary: rel ns xs)
  case (0 rel ns xs)
  then obtain n ys where n: "n \<in> set ns" "walk_one 0 L rd root rel n = Some (Inr ys)" "x \<in> set ys"
    by (fastforce simp: digest_walk_ok walked_def)
  with 0(2,3) show ?case
    by (auto simp: walk_one_def Let_def plain_rel_def split: if_splits sum.splits intro!: exI [of _ "rel @ [Normal n]"])
next
  case (Suc fuel rel ns xs)
  then obtain n ys where n: "n \<in> set ns" "walk_one (Suc fuel) L rd root rel n = Some (Inr ys)" "x \<in> set ys"
    by (fastforce simp: digest_walk_ok walked_def)
  have p: "plain_rel (rel @ [Normal n])" using n(1) Suc.prems(2,3) by (auto simp: plain_rel_def)
  show ?case
  proof (cases "rd_is_file rd (root @ rel @ [Normal n])")
    case True
    with n p show ?thesis
      by (auto simp: walk_one_def Let_def split: sum.splits intro!: exI [of _ "rel @ [Normal n]"])
  next
    case False
    with n obtain names where d: "rd_list rd (root @ rel @ [Normal n]) = Inr names"
      "digest_walk fuel L rd root (rel @ [Normal n]) names = Some (Inr ys)"
      by (auto simp: walk_one_def Let_def split: if_splits sum.splits)
    have "\<forall>m \<in> set names. m \<noteq> [] \<and> CHR ''/'' \<notin> set m" using assms(1) d(1) by (auto simp: plain_names_def)
    from Suc.IH [OF d(2) p this n(3)] show ?thesis .
  qed
qed

lemma dir_digest_order:
  assumes "same_tree rd rd'" "plain_names rd" "dir_digest fuel L rd root = Some (Inr h)"
  shows "dir_digest fuel L rd' root = Some (Inr h)"
proof -
  from assms(3) obtain names xs where n: "rd_list rd root = Inr names" "digest_walk fuel L rd root [] names = Some (Inr xs)"
    "h = sha256_hex L (concat (map digest_line (sort_key fst xs)))"
    by (auto simp: dir_digest_def split: sum.splits option.splits)
  from same_tree_list(2) [OF assms(1) n(1)] obtain names' where
    n': "rd_list rd' root = Inr names'" "mset names' = mset names" by auto
  from digest_walk_order [OF assms(1) n(2) n'(2)] obtain ys where
    ys: "digest_walk fuel L rd' root [] names' = Some (Inr ys)" "mset ys = mset xs" by auto
  have pn: "\<forall>m \<in> set names. m \<noteq> [] \<and> CHR ''/'' \<notin> set m" using assms(2) n(1) by (auto simp: plain_names_def)
  have "a = b" if "a \<in> set xs" "b \<in> set xs" "fst a = fst b" for a b
  proof -
    have pr: "plain_rel []" by (simp add: plain_rel_def)
    from walk_entries [OF assms(2) n(2) pr pn that(1)] walk_entries [OF assms(2) n(2) pr pn that(2)] that(3)
    show ?thesis by (auto dest: show_dir_plain)
  qed
  then have "sort_key fst ys = sort_key fst xs" by (intro sort_key_functional [OF ys(2)]) blast
  with n n' ys show ?thesis by (simp add: dir_digest_def)
qed

lemma verify_entries_order:
  assumes "same_tree rd rd'" "plain_names rd" "verify_entries fuel L rd run_dir es = Some (Inr ())"
  shows "verify_entries fuel L rd' run_dir es = Some (Inr ())"
  using assms(3)
proof (induction es)
  case (Cons e es)
  note v = verify_entries_ok [OF Cons.prems, of e, simplified]
  have "entry_digest fuel L rd' (pjoin run_dir (me_name e)) e = Some (Inr (me_sha256 e))"
    using v dir_digest_order [OF assms(1,2), of fuel L "pjoin run_dir (me_name e)"]
    by (cases "me_kind e") (simp_all add: entry_digest_def same_tree_simps [OF assms(1)])
  with v Cons show ?case by (simp add: same_tree_simps [OF assms(1)] Let_def)
qed simp

text \<open>
  The order in which the file system lists directories does not matter: a run that loads gives the
  same state, with the same statuses and the same verified entries, under any other order.
\<close>

theorem load_state_order:
  assumes "same_tree rd rd'" "plain_names rd" "load_state fuel L rd now run_dir ttl = Some (Inr st)"
  shows "load_state fuel L rd' now run_dir ttl = Some (Inr st)"
proof -
  note rd = same_tree_simps [OF assms(1)]
  have m: "load_manifest L rd' run_dir = load_manifest L rd run_dir" by (simp add: load_manifest_def rd)
  have hb: "read_heartbeat L rd' run_dir = read_heartbeat L rd run_dir" by (simp add: read_heartbeat_def rd)
  note mk = load_markers_order [OF assms(1), of L run_dir]
  from load_state_stages [OF assms(3)] obtain m sc where s: "load_manifest L rd run_dir = Inr m"
    "load_markers L rd run_dir = Inr sc"
    "(rs_entries st, rs_dropped st) =
      (if sc_has_completed sc then orphan_sweep (mf_entries m) (sc_hashes sc) else (mf_entries m, []))"
    "verify_entries fuel L rd run_dir (rs_entries st) = Some (Inr ())" by auto
  from verify_entries_order [OF assms(1,2) s(4)]
  have v: "verify_entries fuel L rd' run_dir (rs_entries st) = verify_entries fuel L rd run_dir (rs_entries st)"
    using s(4) by simp
  have "load_state fuel L rd' now run_dir ttl = load_state fuel L rd now run_dir ttl"
    by (simp add: load_state_def m hb mk s(1,2) s(3) [symmetric] v split: sum.splits option.splits)
  with assms(3) show ?thesis by simp
qed

subsection \<open>Example\<close>

text \<open>A run with an orphan \<open>a\<close> and an entry \<open>b\<close> that a completed marker names.\<close>

definition demo_run :: disk where
  "demo_run = \<lparr>dk_nodes = [([Normal ''run''], DirNode), ([Normal ''run'', Normal ''manifest.json''], FileNode ''m''),
     ([Normal ''run'', Normal ''b''], FileNode [CHR 0xBB]), ([Normal ''run'', Normal ''markers''], DirNode),
     ([Normal ''run'', Normal ''markers'', Normal ''plan.completed''], FileNode ''c''),
     ([Normal ''run'', Normal ''markers'', Normal ''plan.failed''], FileNode ''f'')], dk_script = [], dk_temps = 0\<rparr>"

definition demo_reversed :: reader where
  "demo_reversed = (reader_of demo_run)\<lparr>rd_list := (\<lambda>k. case rd_list (reader_of demo_run) k of Inl e \<Rightarrow> Inl e | Inr ns \<Rightarrow> Inr (rev ns))\<rparr>"

lemma demo_run_reads:
  "rd_read (reader_of demo_run) [Normal ''run'', Normal ''manifest.json''] = Inr ''m''"
  "rd_list (reader_of demo_run) [Normal ''run'', Normal ''markers''] = Inr [''plan.completed'', ''plan.failed'']"
  "rd_exists (reader_of demo_run) [Normal ''run'', Normal ''markers'']"
  "\<not> rd_exists (reader_of demo_run) [Normal ''run'', Normal ''heartbeat.json'']"
  "rd_exists (reader_of demo_run) [Normal ''run'', Normal ''b'']"
  "rd_read (reader_of demo_run) [Normal ''run'', Normal ''b''] = Inr [CHR 0xBB]"
  "rd_is_file (reader_of demo_run) [Normal ''run'', Normal ''markers'', Normal ''plan.completed'']"
  "rd_is_file (reader_of demo_run) [Normal ''run'', Normal ''markers'', Normal ''plan.failed'']"
  "rd_read (reader_of demo_run) [Normal ''run'', Normal ''markers'', Normal ''plan.completed''] = Inr ''c''"
  by (simp_all add: reader_of_def demo_run_def node_at_def file_of_def)

lemma demo_pjoin:
  "pjoin [Normal ''run''] ''manifest.json'' = [Normal ''run'', Normal ''manifest.json'']"
  "pjoin [Normal ''run''] ''markers'' = [Normal ''run'', Normal ''markers'']"
  "pjoin [Normal ''run''] ''heartbeat.json'' = [Normal ''run'', Normal ''heartbeat.json'']"
  "pjoin [Normal ''run''] ''b'' = [Normal ''run'', Normal ''b'']"
  by code_simp+

lemma demo_markers:
  "load_markers demo_store_libs (reader_of demo_run) [Normal ''run''] =
     Inr \<lparr>sc_status = [''plan'' \<mapsto> PsCompleted], sc_hashes = {''bb''}, sc_has_completed = True\<rparr>"
proof -
  have e: "ends_with ''plan.completed'' ''.completed''" "\<not> ends_with ''plan.failed'' ''.completed''"
    "ends_with ''plan.failed'' ''.failed''" "marker_phase ''plan.completed'' = Some ''plan''"
    "marker_phase ''plan.failed'' = Some ''plan''" by code_simp+
  have c: "read_completed demo_store_libs ''c'' = Some ''bb''"
    by (simp add: read_completed_def demo_parse known_once_def required_def optional_if)
  show ?thesis
    by (simp add: load_markers_def demo_pjoin demo_run_reads Let_def scan_one_def e c no_markers_def set_status_def
        update_phase_status_def)
qed

lemma demo_manifest:
  "\<exists>m e e'. load_manifest demo_store_libs (reader_of demo_run) [Normal ''run''] = Inr m \<and> mf_entries m = [e, e'] \<and>
     me_name e' = ''b'' \<and> me_sha256 e' = ''bb'' \<and> me_kind e' = PlanMd \<and> me_sha256 e = ''aa''"
proof -
  have k: "as_kind (JStr ''plan.md'') = Some PlanMd"
    using named_kinds_facts by (simp add: as_kind_def named_kinds_def)
  have p: "as_producer (JStr ''single'') = Some PrSingle" by (simp add: as_producer_def)
  have r: "read_entry demo_store_libs (demo_entry_json n sha) = Inr \<lparr>me_name = n, me_kind = PlanMd, me_schema_version = 1,
      me_sha256 = sha, me_producer = PrSingle, me_phase = None, me_attempt = None, me_created_at = None\<rparr>" for n sha
    by (simp add: demo_entry_json_def fields_ok_def entry_fields_def required_def optional_if k p)
  show ?thesis
    by (simp add: load_manifest_def manifest_path_def demo_pjoin demo_run_reads from_json_def demo_parse fields_ok_def
        manifest_fields_def required_def optional_if r)
qed

lemma demo_loads:
  "\<exists>st. load_state 0 demo_store_libs (reader_of demo_run) 0 [Normal ''run''] 300 = Some (Inr st) \<and>
     map me_name (rs_entries st) = [''b''] \<and> map me_sha256 (rs_dropped st) = [''aa''] \<and> rs_status st ''plan'' = Some PsCompleted"
proof -
  obtain m e e' where m: "load_manifest demo_store_libs (reader_of demo_run) [Normal ''run''] = Inr m" "mf_entries m = [e, e']"
    "me_name e' = ''b''" "me_sha256 e' = ''bb''" "me_kind e' = PlanMd" "me_sha256 e = ''aa''" using demo_manifest by (elim exE conjE)
  have d: "sha256_hex demo_store_libs [CHR 0xBB] = ''bb''"
    unfolding sha256_hex_def demo_store_libs_def demo_libs_def by code_simp
  have v: "verify_entries 0 demo_store_libs (reader_of demo_run) [Normal ''run''] [e'] = Some (Inr ())"
    by (simp add: m demo_pjoin demo_run_reads entry_digest_def d Let_def)
  show ?thesis
    by (simp add: load_state_def m(1,2) demo_markers orphan_sweep_def m(4,6) read_heartbeat_def heartbeat_path_def
        demo_pjoin demo_run_reads v m(3) del: verify_entries.simps)
qed

theorem load_state_sound_witness:
  "\<exists>st. load_state 0 demo_store_libs (reader_of demo_run) 0 [Normal ''run''] 300 = Some (Inr st) \<and>
     map me_name (rs_entries st) = [''b''] \<and> map me_schema_version (rs_entries st) = [1]"
proof -
  obtain st where st: "load_state 0 demo_store_libs (reader_of demo_run) 0 [Normal ''run''] 300 = Some (Inr st)"
    "map me_name (rs_entries st) = [''b'']" using demo_loads by (elim exE conjE)
  from load_state_sound [OF st(1), unfolded Let_def] obtain m :: manifest where
    m: "\<forall>e \<in> set (mf_entries m). me_schema_version e = 1" "set (rs_entries st) \<subseteq> set (mf_entries m)"
    by (elim exE conjE) simp
  obtain e where "rs_entries st = [e]" using st(2) by (cases "rs_entries st") simp_all
  moreover from this m(2) have "e \<in> set (mf_entries m)" by simp
  ultimately have "map me_schema_version (rs_entries st) = [1]" using m(1) by simp
  with st show ?thesis by (intro exI conjI)
qed

theorem phase_status_spec_witness:
  "\<exists>sc. load_markers demo_store_libs (reader_of demo_run) [Normal ''run''] = Inr sc \<and>
     top_status (says demo_store_libs (reader_of demo_run) [Normal ''run'', Normal ''markers''] [''plan.completed'', ''plan.failed''])
       ''plan'' (sc_status sc ''plan'') \<and> sc_status sc ''plan'' = Some PsCompleted"
proof -
  from demo_run_reads(2,3) have "rd_exists (reader_of demo_run) (pjoin [Normal ''run''] ''markers'')"
    "rd_list (reader_of demo_run) (pjoin [Normal ''run''] ''markers'') = Inr [''plan.completed'', ''plan.failed'']"
    by (simp_all add: demo_pjoin)
  from phase_status_spec [OF demo_markers this, of "''plan''"] demo_markers show ?thesis by (simp add: demo_pjoin)
qed

lemma plain_reader:
  assumes "list_all (\<lambda>p. case rev (fst p) of Normal n # _ \<Rightarrow> n \<noteq> [] \<and> CHR ''/'' \<notin> set n | _ \<Rightarrow> True) (dk_nodes d)"
  shows "plain_names (reader_of d)"
proof -
  have "n \<noteq> [] \<and> CHR ''/'' \<notin> set n" if "rd_list (reader_of d) k = Inr names" "n \<in> set names" for k names n
  proof -
    let ?F = "\<lambda>(p, _). case rev p of Normal n # r \<Rightarrow> if rev r = k then [n] else [] | _ \<Rightarrow> []"
    have "names = remdups (concat (map ?F (dk_nodes d)))"
      using that(1) by (simp add: reader_of_def split: if_split_asm)
    with that(2) obtain q where q: "q \<in> set (dk_nodes d)" "n \<in> set (?F q)" by auto
    obtain p x where "q = (p, x)" by (cases q)
    with q have p: "(p, x) \<in> set (dk_nodes d)"
      "n \<in> set (case rev p of Normal n # r \<Rightarrow> if rev r = k then [n] else [] | _ \<Rightarrow> [])" by simp_all
    with assms have "case rev p of Normal n # _ \<Rightarrow> n \<noteq> [] \<and> CHR ''/'' \<notin> set n | _ \<Rightarrow> True"
      by (auto simp: list_all_iff)
    with p(2) show ?thesis by (auto split: list.splits component.splits if_splits)
  qed
  then show ?thesis by (simp add: plain_names_def)
qed

theorem load_state_order_witness:
  "\<exists>st. load_state 0 demo_store_libs demo_reversed 0 [Normal ''run''] 300 = Some (Inr st) \<and>
     rd_list demo_reversed [Normal ''run'', Normal ''markers''] = Inr [''plan.failed'', ''plan.completed'']"
proof -
  obtain st where st: "load_state 0 demo_store_libs (reader_of demo_run) 0 [Normal ''run''] 300 = Some (Inr st)"
    using demo_loads by (elim exE conjE)
  have t: "same_tree (reader_of demo_run) demo_reversed"
    by (simp add: same_tree_def demo_reversed_def split: sum.splits)
  have "plain_names (reader_of demo_run)"
    by (rule plain_reader) (simp add: demo_run_def)
  from load_state_order [OF t this st] show ?thesis by (simp add: demo_reversed_def demo_run_reads)
qed

subsection \<open>Two artefacts of one name\<close>

text \<open>
  A run whose manifest keeps two entries for the same file with different digests cannot be loaded
  any more: the file has one of them at most.
\<close>

lemma duplicate_artefacts_unloadable:
  assumes "e1 \<in> set es" "e2 \<in> set es" "me_name e1 = me_name e2" "me_sha256 e1 \<noteq> me_sha256 e2"
    and "me_kind e1 \<noteq> ChangesDir" "me_kind e2 \<noteq> ChangesDir"
  shows "verify_entries fuel L rd d es \<noteq> Some (Inr ())"
proof
  assume v: "verify_entries fuel L rd d es = Some (Inr ())"
  have "entry_digest fuel L rd p e1 = entry_digest fuel L rd p e2" for p
    using assms(5,6) by (cases "me_kind e1"; cases "me_kind e2") (simp_all add: entry_digest_def)
  with verify_entries_ok [OF v assms(1)] verify_entries_ok [OF v assms(2)] assms(3,4) show False by simp
qed

subsection \<open>Staleness\<close>

text \<open>The two tests agree wherever the cut-off of the second is a time.\<close>

lemma staleness_tests_agree:
  "is_stale least (hb_tick_at hb) now ttl = Some b \<Longrightarrow>
     status_from_heartbeat now hb ttl = Some (if b then Stale (hb_tick_at hb) ttl else Live hb)"
  by (auto simp: is_stale_def status_from_heartbeat_def split: option.splits if_splits)

text \<open>A lifetime just below \<open>2\<^sup>6\<^sup>4\<close> is a negative duration: a heartbeat of this very moment is stale.\<close>

lemma huge_ttl_is_stale: "status_from_heartbeat (hb_tick_at hb) hb (- 1) = Some (Stale (hb_tick_at hb) (- 1))"
  by (simp add: status_from_heartbeat_def duration_seconds_def)

end
