(* ===== verification/HumanVerifier.thy ===== *)
theory HumanVerifier
  imports Markers Strategy
begin

text \<open>
  \<open>src/strategy/verify/human_verifier.rs\<close>: the gate that waits for a human. It leaves a pending
  request in the run directory and reads a response file; deadlines and what happens at them come
  from a policy by severity. The one-shot server (\<open>src/hitl_server\<close>) is an argument, as are the
  clock and the printing and parsing of times; with the server the gate re-enters itself, so the
  model takes fuel and \<open>None\<close> is its exhaustion.
\<close>

subsection \<open>Policy\<close>

datatype human_severity = SevLow | SevMedium | SevHigh

fun severity_str :: "human_severity \<Rightarrow> string" where
  "severity_str SevLow = ''low''"
| "severity_str SevMedium = ''medium''"
| "severity_str SevHigh = ''high''"

datatype timeout_action = AutoApprove | AutoFail | Block

fun timeout_action_str :: "timeout_action \<Rightarrow> string" where
  "timeout_action_str AutoApprove = ''auto_approve''"
| "timeout_action_str AutoFail = ''auto_fail''"
| "timeout_action_str Block = ''block''"

record timeout_rule =
  tr_timeout :: "int option"
  tr_on_timeout :: timeout_action

record timeout_policy =
  tp_low :: timeout_rule
  tp_medium :: timeout_rule
  tp_high :: timeout_rule

definition HOUR :: int where
  "HOUR = 3600 * 10 ^ 9"

definition default_policy :: timeout_policy where
  "default_policy = \<lparr>tp_low = \<lparr>tr_timeout = Some HOUR, tr_on_timeout = AutoApprove\<rparr>,
     tp_medium = \<lparr>tr_timeout = Some (24 * HOUR), tr_on_timeout = AutoFail\<rparr>,
     tp_high = \<lparr>tr_timeout = None, tr_on_timeout = Block\<rparr>\<rparr>"

fun rule_for :: "timeout_policy \<Rightarrow> human_severity \<Rightarrow> timeout_rule" where
  "rule_for p SevLow = tp_low p"
| "rule_for p SevMedium = tp_medium p"
| "rule_for p SevHigh = tp_high p"

datatype timeout_outcome = NotTimedOut | AutoApproved | AutoFailed | Blocking

fun timeout_outcome_str :: "timeout_outcome \<Rightarrow> string" where
  "timeout_outcome_str NotTimedOut = ''not_timed_out''"
| "timeout_outcome_str AutoApproved = ''auto_approved''"
| "timeout_outcome_str AutoFailed = ''auto_failed''"
| "timeout_outcome_str Blocking = ''blocking''"

record human_report =
  hr_severity :: human_severity
  hr_timeout_at :: "string option"
  hr_timeout_action :: timeout_action
  hr_timeout_outcome :: timeout_outcome

datatype human_decision = Approve | Reject | CommentOnly

fun decision_str :: "human_decision \<Rightarrow> string" where
  "decision_str Approve = ''approve''"
| "decision_str Reject = ''reject''"
| "decision_str CommentOnly = ''comment_only''"

subsection \<open>Requests and responses\<close>

record pending_request =
  pq_schema_version :: "32 word"
  pq_run_id :: string
  pq_workflow :: string
  pq_phase :: string
  pq_severity :: human_severity
  pq_opened_at :: string
  pq_timeout_at :: "string option"
  pq_artefact_path :: string
  pq_artefact_kind :: string
  pq_preview_lines :: "32 word"
  pq_preceded_by :: "string list"
  pq_next_phase :: "string option"
  pq_prompt_summary :: string
  pq_options :: "human_decision list"

record human_response =
  rp_schema_version :: "32 word"
  rp_phase :: string
  rp_claimed_by :: string
  rp_decided_at :: string
  rp_decision :: human_decision
  rp_comment :: "string option"
  rp_inline_path :: "string option"

record human_config =
  hv_run_dir :: dir
  hv_run_id :: string
  hv_workflow :: string
  hv_phase :: string
  hv_artefact_name :: string
  hv_artefact_kind :: kind
  hv_severity :: human_severity
  hv_options :: "human_decision list"
  hv_policy :: timeout_policy
  hv_fallback_server :: bool

definition pending_json :: "pending_request \<Rightarrow> json" where
  "pending_json q = JObj [(''schema_version'', word_json (pq_schema_version q)), (''run_id'', JStr (pq_run_id q)),
     (''workflow'', JStr (pq_workflow q)), (''phase'', JStr (pq_phase q)), (''severity'', JStr (severity_str (pq_severity q))),
     (''opened_at'', JStr (pq_opened_at q)), (''timeout_at'', str_opt_json (pq_timeout_at q)),
     (''artefact'', JObj [(''path'', JStr (pq_artefact_path q)), (''kind'', JStr (pq_artefact_kind q)),
        (''preview_lines'', word_json (pq_preview_lines q))]),
     (''context'', JObj [(''preceded_by'', JArr (map JStr (pq_preceded_by q))),
        (''next_phase'', str_opt_json (pq_next_phase q)), (''prompt_summary'', JStr (pq_prompt_summary q))]),
     (''decision_options'', JArr (map (\<lambda>d. JStr (decision_str d)) (pq_options q)))]"

definition as_severity :: "json \<Rightarrow> human_severity option" where
  "as_severity v = (case v of JStr s \<Rightarrow> List.find (\<lambda>x. severity_str x = s) [SevLow, SevMedium, SevHigh] | _ \<Rightarrow> None)"

definition as_decision :: "json \<Rightarrow> human_decision option" where
  "as_decision v = (case v of JStr s \<Rightarrow> List.find (\<lambda>x. decision_str x = s) [Approve, Reject, CommentOnly] | _ \<Rightarrow> None)"

fun all_some :: "'a option list \<Rightarrow> 'a list option" where
  "all_some [] = Some []"
| "all_some (None # xs) = None"
| "all_some (Some x # xs) = map_option (Cons x) (all_some xs)"

fun as_list :: "(json \<Rightarrow> 'a option) \<Rightarrow> json \<Rightarrow> 'a list option" where
  "as_list conv (JArr vs) = all_some (map conv vs)"
| "as_list conv _ = None"

fun as_obj :: "json \<Rightarrow> (string \<times> json) list option" where
  "as_obj (JObj m) = Some m"
| "as_obj _ = None"

text \<open>Objects of which unknown fields are ignored; a known field may not be repeated.\<close>

definition known_fields :: "string list \<Rightarrow> (string \<times> json) list \<Rightarrow> (serde_error, unit) result" where
  "known_fields known m = (if distinct (filter (\<lambda>k. k \<in> set known) (map fst m)) then Inr () else Inl DuplicateField)"

definition pending_fields :: "string list" where
  "pending_fields = [''schema_version'', ''run_id'', ''workflow'', ''phase'', ''severity'', ''opened_at'', ''timeout_at'',
     ''artefact'', ''context'', ''decision_options'']"

fun read_pending :: "json \<Rightarrow> (serde_error, pending_request) result" where
  "read_pending (JObj m) =
     rbind (known_fields pending_fields m) (\<lambda>_.
     rbind (required ''schema_version'' as_u32 m) (\<lambda>version.
     rbind (required ''run_id'' as_str m) (\<lambda>run_id.
     rbind (required ''workflow'' as_str m) (\<lambda>workflow.
     rbind (required ''phase'' as_str m) (\<lambda>phase.
     rbind (required ''severity'' as_severity m) (\<lambda>severity.
     rbind (required ''opened_at'' as_str m) (\<lambda>opened.
     rbind (optional ''timeout_at'' as_str m) (\<lambda>timeout.
     rbind (required ''artefact'' as_obj m) (\<lambda>a.
     rbind (known_fields [''path'', ''kind'', ''preview_lines''] a) (\<lambda>_.
     rbind (required ''path'' as_str a) (\<lambda>apath.
     rbind (required ''kind'' as_str a) (\<lambda>akind.
     rbind (required ''preview_lines'' as_u32 a) (\<lambda>alines.
     rbind (required ''context'' as_obj m) (\<lambda>c.
     rbind (known_fields [''preceded_by'', ''next_phase'', ''prompt_summary''] c) (\<lambda>_.
     rbind (required ''preceded_by'' (as_list as_str) c) (\<lambda>before.
     rbind (optional ''next_phase'' as_str c) (\<lambda>next_phase.
     rbind (required ''prompt_summary'' as_str c) (\<lambda>summary.
     rbind (required ''decision_options'' (as_list as_decision) m) (\<lambda>options.
       Inr \<lparr>pq_schema_version = version, pq_run_id = run_id, pq_workflow = workflow, pq_phase = phase,
         pq_severity = severity, pq_opened_at = opened, pq_timeout_at = timeout, pq_artefact_path = apath,
         pq_artefact_kind = akind, pq_preview_lines = alines, pq_preceded_by = before, pq_next_phase = next_phase,
         pq_prompt_summary = summary, pq_options = options\<rparr>)))))))))))))))))))"
| "read_pending _ = Inl (InvalidValue ''pending'')"

definition response_fields :: "string list" where
  "response_fields = [''schema_version'', ''phase'', ''claimed_by'', ''decided_at'', ''decision'', ''global_comment'',
     ''inline_comments_path'']"

fun read_response :: "json \<Rightarrow> (serde_error, human_response) result" where
  "read_response (JObj m) =
     rbind (known_fields response_fields m) (\<lambda>_.
     rbind (required ''schema_version'' as_u32 m) (\<lambda>version.
     rbind (required ''phase'' as_str m) (\<lambda>phase.
     rbind (required ''claimed_by'' as_str m) (\<lambda>claimed.
     rbind (required ''decided_at'' as_str m) (\<lambda>decided.
     rbind (required ''decision'' as_decision m) (\<lambda>decision.
     rbind (optional ''global_comment'' as_str m) (\<lambda>comment.
     rbind (optional ''inline_comments_path'' as_str m) (\<lambda>inline.
       Inr \<lparr>rp_schema_version = version, rp_phase = phase, rp_claimed_by = claimed, rp_decided_at = decided,
         rp_decision = decision, rp_comment = comment, rp_inline_path = inline\<rparr>))))))))"
| "read_response _ = Inl (InvalidValue ''response'')"

subsection \<open>Files\<close>

text \<open>
  The environment: JSON text, the message of a JSON error, \<open>to_rfc3339\<close>, \<open>parse_from_rfc3339\<close>, the
  disk, the clock, and the server with the time it is given.
\<close>

datatype server_outcome = Decided human_decision "string option" | TimedOut | Cancelled

record gate_config =
  gc_run_dir :: dir
  gc_run_id :: string
  gc_phase :: string
  gc_workflow :: string
  gc_severity :: string
  gc_artefact_path :: string
  gc_artefact_kind :: string
  gc_prompt_summary :: string
  gc_preview_lines :: "32 word"
  gc_timeout_at :: "string option"
  gc_options :: "string list"

record 'w human_env =
  he_json :: json_lib
  he_serde_str :: "serde_error \<Rightarrow> string"
  he_show_time :: "int \<Rightarrow> string"
  he_parse_time :: "string \<Rightarrow> (string, int) result"
  he_ops :: "'w disk_ops"
  he_reader :: "'w \<Rightarrow> reader"
  he_now :: "'w \<Rightarrow> int"
  he_server :: "gate_config \<Rightarrow> int option \<Rightarrow> 'w \<Rightarrow> (string, server_outcome) result \<times> 'w"

definition SCHEMA_V1 :: "32 word" where
  "SCHEMA_V1 = 1"

definition pending_path :: "human_config \<Rightarrow> dir" where
  "pending_path cfg = pjoin (pjoin (hv_run_dir cfg) ''pending'') (hv_phase cfg @ ''.json'')"

definition response_path :: "human_config \<Rightarrow> dir" where
  "response_path cfg = pjoin (pjoin (hv_run_dir cfg) ''responses'') (hv_phase cfg @ ''.json'')"

definition parse_json :: "'w human_env \<Rightarrow> (json \<Rightarrow> (serde_error, 'a) result) \<Rightarrow> string \<Rightarrow> (serde_error, 'a) result" where
  "parse_json env rd s = (case js_parse (he_json env) s of Inl e \<Rightarrow> Inl (JsonSyntax e) | Inr v \<Rightarrow> rd v)"

definition version_mismatch :: "32 word \<Rightarrow> string" where
  "version_mismatch v = ''expected '' @ nat_str (unat SCHEMA_V1) @ '', got '' @ nat_str (unat v)"

fun kind_mime :: "kind \<Rightarrow> string" where
  "kind_mime DesignMd = ''text/markdown''"
| "kind_mime ReviewMd = ''text/markdown''"
| "kind_mime PlanMd = ''text/markdown''"
| "kind_mime (OtherMd _) = ''text/markdown''"
| "kind_mime ChangesDir = ''application/directory''"
| "kind_mime _ = ''application/json''"

text \<open>A pending request on disk is taken as it is; only without one a new one is made.\<close>

definition pending_payload ::
  "'w human_env \<Rightarrow> human_config \<Rightarrow> string \<Rightarrow> 32 word \<Rightarrow> 'w \<Rightarrow> (string, pending_request) result" where
  "pending_payload env cfg summary lines w =
     (let path = pending_path cfg; rd = he_reader env w in
      if rd_exists rd path then
        (case rd_read rd path of
           Inl e \<Rightarrow> Inl (''failed to read pending request '' @ show_dir path @ '': '' @ io_str e)
         | Inr content \<Rightarrow> (case parse_json env read_pending content of
               Inl e \<Rightarrow> Inl (''failed to parse pending request '' @ show_dir path @ '': '' @ he_serde_str env e)
             | Inr q \<Rightarrow>
                 if pq_schema_version q \<noteq> SCHEMA_V1 then
                   Inl (''unsupported pending schema version for phase '' @ hv_phase cfg @ '': '' @
                     version_mismatch (pq_schema_version q))
                 else Inr q))
      else
        let now = he_now env w; rule = rule_for (hv_policy cfg) (hv_severity cfg) in
        Inr \<lparr>pq_schema_version = SCHEMA_V1, pq_run_id = hv_run_id cfg, pq_workflow = hv_workflow cfg,
          pq_phase = hv_phase cfg, pq_severity = hv_severity cfg, pq_opened_at = he_show_time env now,
          pq_timeout_at = map_option (\<lambda>t. he_show_time env (now + t)) (tr_timeout rule),
          pq_artefact_path = hv_artefact_name cfg, pq_artefact_kind = kind_mime (hv_artefact_kind cfg),
          pq_preview_lines = lines, pq_preceded_by = [], pq_next_phase = None, pq_prompt_summary = summary,
          pq_options = hv_options cfg\<rparr>)"

definition ensure_pending_file ::
  "'w human_env \<Rightarrow> human_config \<Rightarrow> pending_request \<Rightarrow> 'w \<Rightarrow> (string, unit) result \<times> 'w" where
  "ensure_pending_file env cfg q w =
     (let path = pending_path cfg in
      if rd_exists (he_reader env w) path then (Inr (), w)
      else case do_mkdirs (he_ops env) (parent_dir path) w of
          (Inl e, w1) \<Rightarrow> (Inl (''failed to create pending directory for phase '' @ hv_phase cfg @ '': '' @ io_str e), w1)
        | (Inr _, w1) \<Rightarrow> (case atomic_write (he_ops env) path (js_show (he_json env) (pending_json q)) w1 of
              (Inl e, w2) \<Rightarrow> (Inl (''failed to write pending request for phase '' @ hv_phase cfg @ '': '' @ io_str e), w2)
            | (Inr _, w2) \<Rightarrow> (Inr (), w2)))"

definition existing_pending_timeout_at :: "'w human_env \<Rightarrow> human_config \<Rightarrow> 'w \<Rightarrow> string option" where
  "existing_pending_timeout_at env cfg w =
     (case rd_read (he_reader env w) (pending_path cfg) of
        Inl _ \<Rightarrow> None
      | Inr content \<Rightarrow> (case parse_json env read_pending content of
            Inl _ \<Rightarrow> None
          | Inr q \<Rightarrow> if pq_schema_version q = SCHEMA_V1 then pq_timeout_at q else None))"

definition parse_response :: "'w human_env \<Rightarrow> human_config \<Rightarrow> 'w \<Rightarrow> (string, human_response option) result" where
  "parse_response env cfg w =
     (let path = response_path cfg; rd = he_reader env w in
      if \<not> rd_exists rd path then Inr None
      else case rd_read rd path of
          Inl e \<Rightarrow> Inl (''failed to read response file '' @ show_dir path @ '': '' @ io_str e)
        | Inr content \<Rightarrow> (case parse_json env read_response content of
              Inl e \<Rightarrow> Inl (''failed to parse response file '' @ show_dir path @ '': '' @ he_serde_str env e)
            | Inr r \<Rightarrow>
                if rp_schema_version r \<noteq> SCHEMA_V1 then
                  Inl (''unsupported schema version: '' @ version_mismatch (rp_schema_version r))
                else Inr (Some r)))"

definition consume_response ::
  "'w human_env \<Rightarrow> human_config \<Rightarrow> string \<Rightarrow> 'w \<Rightarrow> (string, unit) result \<times> 'w" where
  "consume_response env cfg suffix_text w =
     (let source = response_path cfg in
      if \<not> rd_exists (he_reader env w) source then (Inr (), w)
      else
        let dest = pjoin (parent_dir source)
              (hv_phase cfg @ ''.json.'' @ suffix_text @ ''.'' @ int_str (he_now env w div 10 ^ 6))
        in case do_mkdirs (he_ops env) (parent_dir dest) w of
            (Inl e, w1) \<Rightarrow> (Inl (''failed to prepare response archive dir '' @ show_dir (parent_dir dest) @ '': '' @ io_str e), w1)
          | (Inr _, w1) \<Rightarrow> (case do_rename (he_ops env) source dest w1 of
                (Inl e, w2) \<Rightarrow> (Inl (''failed to consume response for '' @ hv_phase cfg @ '': '' @ io_str e), w2)
              | (Inr _, w2) \<Rightarrow> (Inr (), w2)))"

subsection \<open>The gate\<close>

definition policy_report :: "human_config \<Rightarrow> string option \<Rightarrow> human_report" where
  "policy_report cfg timeout_at = \<lparr>hr_severity = hv_severity cfg, hr_timeout_at = timeout_at,
     hr_timeout_action = tr_on_timeout (rule_for (hv_policy cfg) (hv_severity cfg)), hr_timeout_outcome = NotTimedOut\<rparr>"

definition pending_report :: "human_config \<Rightarrow> pending_request \<Rightarrow> timeout_outcome \<Rightarrow> human_report" where
  "pending_report cfg q out = \<lparr>hr_severity = pq_severity q, hr_timeout_at = pq_timeout_at q,
     hr_timeout_action = tr_on_timeout (rule_for (hv_policy cfg) (pq_severity q)), hr_timeout_outcome = out\<rparr>"

definition fail_with :: "string \<Rightarrow> hook_result" where
  "fail_with msg = HookFail (failure_reason_new msg)"

definition open_gate ::
  "'w human_env \<Rightarrow> human_config \<Rightarrow> string \<Rightarrow> 32 word \<Rightarrow> 'w \<Rightarrow> (string, pending_request) result \<times> 'w" where
  "open_gate env cfg summary lines w =
     (case pending_payload env cfg summary lines w of
        Inl e \<Rightarrow> (Inl e, w)
      | Inr q \<Rightarrow> (case ensure_pending_file env cfg q w of (r, w') \<Rightarrow> (rbind r (\<lambda>_. Inr q), w')))"

text \<open>The gate stays open, and the reason is reported as a failure.\<close>

definition keep_open ::
  "'w human_env \<Rightarrow> human_config \<Rightarrow> string \<Rightarrow> 32 word \<Rightarrow> string \<Rightarrow> 'w \<Rightarrow>
     (string, hook_result \<times> human_report) result \<times> 'w" where
  "keep_open env cfg summary lines msg w =
     (case open_gate env cfg summary lines w of
        (r, w') \<Rightarrow> (rbind r (\<lambda>q. Inr (fail_with msg, policy_report cfg (pq_timeout_at q))), w'))"

definition answered ::
  "'w human_env \<Rightarrow> human_config \<Rightarrow> string \<Rightarrow> 32 word \<Rightarrow> human_response \<Rightarrow> 'w \<Rightarrow>
     (string, hook_result \<times> human_report) result \<times> 'w" where
  "answered env cfg summary lines r w =
     (if rp_phase r \<noteq> hv_phase cfg then
        keep_open env cfg summary lines (''response phase mismatch for '' @ hv_phase cfg @ '': expected '' @ hv_phase cfg @
          '', got '' @ rp_phase r) w
      else case consume_response env cfg ''handled'' w of
          (Inl e, w') \<Rightarrow> (Inl e, w')
        | (Inr _, w') \<Rightarrow> (Inr
            (case rp_decision r of
               Approve \<Rightarrow> HookPass
             | Reject \<Rightarrow> fail_with (''human rejected phase '' @ hv_phase cfg @ '': '' @ unwrap_or [] (rp_comment r))
             | CommentOnly \<Rightarrow> fail_with ''human comment_only is not treated as approval'',
             policy_report cfg (existing_pending_timeout_at env cfg w')), w'))"

definition deadline_passed :: "'w human_env \<Rightarrow> pending_request \<Rightarrow> 'w \<Rightarrow> (string, bool) result" where
  "deadline_passed env q w =
     (case pq_timeout_at q of
        None \<Rightarrow> Inr False
      | Some raw \<Rightarrow> rbind (he_parse_time env raw) (\<lambda>deadline. Inr (he_now env w \<ge> deadline)))"

definition gate_of :: "human_config \<Rightarrow> string \<Rightarrow> 32 word \<Rightarrow> pending_request \<Rightarrow> gate_config" where
  "gate_of cfg summary lines q = \<lparr>gc_run_dir = hv_run_dir cfg, gc_run_id = hv_run_id cfg, gc_phase = hv_phase cfg,
     gc_workflow = hv_workflow cfg, gc_severity = severity_str (hv_severity cfg), gc_artefact_path = hv_artefact_name cfg,
     gc_artefact_kind = kind_mime (hv_artefact_kind cfg), gc_prompt_summary = summary, gc_preview_lines = lines,
     gc_timeout_at = pq_timeout_at q, gc_options = map decision_str (hv_options cfg)\<rparr>"

definition timeout_result :: "timeout_rule \<Rightarrow> bool \<Rightarrow> timeout_outcome" where
  "timeout_result rule timed_out =
     (if timed_out then (case tr_on_timeout rule of AutoApprove \<Rightarrow> AutoApproved | AutoFail \<Rightarrow> AutoFailed | Block \<Rightarrow> Blocking)
      else NotTimedOut)"

definition outcome_verdict :: "human_config \<Rightarrow> pending_request \<Rightarrow> timeout_outcome \<Rightarrow> hook_result" where
  "outcome_verdict cfg q out =
     (case out of
        AutoApproved \<Rightarrow> HookPass
      | AutoFailed \<Rightarrow> fail_with (''human review timed out for '' @ hv_phase cfg @ '' with severity '' @ severity_str (pq_severity q))
      | _ \<Rightarrow> fail_with (''waiting for human review on '' @ hv_phase cfg))"

definition preview_lines :: "hook_ctx \<Rightarrow> 32 word" where
  "preview_lines ctx = (let n = length (str_lines (hc_stdout ctx)) in if n < 2 ^ 32 then of_nat n else 0xFFFFFFFF)"

definition prompt_summary :: "hook_ctx \<Rightarrow> string" where
  "prompt_summary ctx = take_chars 160 (hc_stdout ctx)"

fun verify_with_report ::
  "nat \<Rightarrow> 'w human_env \<Rightarrow> human_config \<Rightarrow> hook_ctx \<Rightarrow> 'w \<Rightarrow>
     ((string, hook_result \<times> human_report) result \<times> 'w) option" where
  "verify_with_report fuel env cfg ctx w =
     (let lines = preview_lines ctx; summary = prompt_summary ctx in
      case parse_response env cfg w of
        Inl err \<Rightarrow> Some (keep_open env cfg summary lines
          (''malformed or missing human response for '' @ hv_phase cfg @ '': '' @ err) w)
      | Inr (Some r) \<Rightarrow> Some (answered env cfg summary lines r w)
      | Inr None \<Rightarrow>
          (case open_gate env cfg summary lines w of
             (Inl e, w1) \<Rightarrow> Some (Inl e, w1)
           | (Inr q, w1) \<Rightarrow>
               let rule = rule_for (hv_policy cfg) (pq_severity q) in
               (case deadline_passed env q w1 of
                  Inl err \<Rightarrow> Some (Inr (fail_with (''invalid human review timeout_at for '' @ hv_phase cfg @ '': '' @ err),
                    pending_report cfg q NotTimedOut), w1)
                | Inr timed_out \<Rightarrow>
                    if hv_fallback_server cfg \<and> \<not> timed_out then
                      (case he_server env (gate_of cfg summary lines q) (opt_filter (\<lambda>t. 0 \<le> t) (tr_timeout rule)) w1 of
                         (Inl e, w2) \<Rightarrow> Some (Inr (fail_with (''failed to start HITL server: '' @ e), pending_report cfg q Blocking), w2)
                       | (Inr Cancelled, w2) \<Rightarrow> Some (Inr (fail_with (''HITL server for '' @ hv_phase cfg @ '' was cancelled''),
                           pending_report cfg q Blocking), w2)
                       | (Inr _, w2) \<Rightarrow> (case fuel of 0 \<Rightarrow> None | Suc fuel' \<Rightarrow> verify_with_report fuel' env cfg ctx w2))
                    else
                      let out = timeout_result rule timed_out in
                      Some (Inr (outcome_verdict cfg q out, pending_report cfg q out), w1))))"

declare verify_with_report.simps [simp del]

text \<open>The constructor asserts that there is a decision to take.\<close>

definition human_verify ::
  "nat \<Rightarrow> 'w human_env \<Rightarrow> human_config \<Rightarrow> hook_ctx \<Rightarrow> 'w \<Rightarrow>
     ((string, hook_result \<times> human_report) result \<times> 'w) option" where
  "human_verify fuel env cfg ctx w = (if hv_options cfg = [] then None else verify_with_report fuel env cfg ctx w)"

subsection \<open>What a pass means\<close>

lemma fail_with_not_pass [simp]: "fail_with m \<noteq> HookPass" "HookPass \<noteq> fail_with m"
  by (simp_all add: fail_with_def)

lemma keep_open_no_pass: "keep_open env cfg s n m w \<noteq> (Inr (HookPass, rep), w')"
  by (auto simp: keep_open_def rbind_def split: prod.splits sum.splits)

lemma answered_pass:
  assumes "answered env cfg s n r w = (Inr (HookPass, rep), w')"
  shows "rp_phase r = hv_phase cfg \<and> rp_decision r = Approve \<and> consume_response env cfg ''handled'' w = (Inr (), w')"
  using assms keep_open_no_pass [of env cfg s n]
  by (auto simp: answered_def split: if_splits prod.splits sum.splits human_decision.splits)

lemma outcome_pass:
  "outcome_verdict cfg q (timeout_result rule t) = HookPass \<longleftrightarrow> t \<and> tr_on_timeout rule = AutoApprove"
  by (cases "tr_on_timeout rule") (simp_all add: outcome_verdict_def timeout_result_def)

text \<open>The worlds in which the gate is entered: at the start, and again after the server has run.\<close>

inductive gate_entered :: "'w human_env \<Rightarrow> human_config \<Rightarrow> 'w \<Rightarrow> 'w \<Rightarrow> bool"
  for env cfg w where
  first: "gate_entered env cfg w w"
| again: "gate_entered env cfg w w0 \<Longrightarrow> hv_fallback_server cfg \<Longrightarrow>
    snd (open_gate env cfg s n w0) = w1 \<Longrightarrow> he_server env g d w1 = (Inr out, w2) \<Longrightarrow> out \<noteq> Cancelled \<Longrightarrow>
    gate_entered env cfg w w2"

inductive_cases gate_entered_cases: "gate_entered env cfg w w0"

lemma gate_entered_once:
  assumes "gate_entered env cfg w w0" "\<not> hv_fallback_server cfg"
  shows "w0 = w"
  using assms by (auto elim: gate_entered_cases)

lemma gate_entered_trans:
  assumes "gate_entered env cfg w1 w2" "gate_entered env cfg w w1"
  shows "gate_entered env cfg w w2"
  using assms by (induction) (auto intro: gate_entered.intros)

text \<open>Without a response: a pass by the deadline, and one by another turn of the server.\<close>

lemma deadline_pass:
  assumes "parse_response env cfg w = Inr None" "open_gate env cfg (prompt_summary ctx) (preview_lines ctx) w = (Inr q, w1)"
    and "deadline_passed env q w1 = Inr t" "\<not> (hv_fallback_server cfg \<and> \<not> t)"
    and "verify_with_report fuel env cfg ctx w = Some (Inr (HookPass, rep), w')"
  shows "w1 = w' \<and> tr_on_timeout (rule_for (hv_policy cfg) (pq_severity q)) = AutoApprove \<and>
    (\<exists>raw d. pq_timeout_at q = Some raw \<and> he_parse_time env raw = Inr d \<and> d \<le> he_now env w')"
proof -
  from assms have p: "outcome_verdict cfg q (timeout_result (rule_for (hv_policy cfg) (pq_severity q)) t) = HookPass" and w: "w1 = w'"
    by (auto simp: verify_with_report.simps [of fuel] Let_def)
  from p have "t" "tr_on_timeout (rule_for (hv_policy cfg) (pq_severity q)) = AutoApprove" by (simp_all add: outcome_pass)
  with w assms(3) show ?thesis by (auto simp: deadline_passed_def rbind_Inr split: option.splits)
qed

lemma server_pass:
  assumes "parse_response env cfg w = Inr None" "open_gate env cfg (prompt_summary ctx) (preview_lines ctx) w = (Inr q, w1)"
    and "deadline_passed env q w1 = Inr False" "hv_fallback_server cfg"
    and "verify_with_report fuel env cfg ctx w = Some (Inr (HookPass, rep), w')"
  shows "\<exists>f w2. fuel = Suc f \<and> gate_entered env cfg w w2 \<and> verify_with_report f env cfg ctx w2 = Some (Inr (HookPass, rep), w')"
proof -
  let ?s = "prompt_summary ctx" and ?n = "preview_lines ctx"
  let ?g = "gate_of cfg ?s ?n q"
  let ?d = "opt_filter (\<lambda>t. 0 \<le> t) (tr_timeout (rule_for (hv_policy cfg) (pq_severity q)))"
  note unfold = verify_with_report.simps [of fuel env cfg ctx w, unfolded Let_def]
  obtain ro w2 where sv: "he_server env ?g ?d w1 = (ro, w2)" by (cases "he_server env ?g ?d w1") auto
  with assms obtain out where out: "ro = Inr out" by (cases ro) (auto simp: unfold)
  with assms sv have nc: "out \<noteq> Cancelled" by (cases out) (auto simp: unfold)
  have "verify_with_report fuel env cfg ctx w = (case fuel of 0 \<Rightarrow> None | Suc f \<Rightarrow> verify_with_report f env cfg ctx w2)"
    using assms sv out nc by (cases out) (auto simp: unfold)
  with assms(5) obtain f where f: "fuel = Suc f" "verify_with_report f env cfg ctx w2 = Some (Inr (HookPass, rep), w')"
    by (cases fuel) simp_all
  have "gate_entered env cfg w w2"
    by (rule gate_entered.again [OF gate_entered.first, where s = ?s and n = ?n and ?w1.0 = w1 and g = ?g and d = ?d and out = out])
      (use assms sv out nc in auto)
  with f show ?thesis by blast
qed

text \<open>
  C9: A gate passes only in two ways: a response file for its phase says approve, and it is consumed;
  or there is no response, the deadline of the pending request has passed, and the policy for that
  request's severity is to approve. With the server this holds of the last time it was entered.
\<close>

theorem human_gate_sound:
  assumes "verify_with_report fuel env cfg ctx w = Some (Inr (HookPass, rep), w')"
  shows "\<exists>w0. gate_entered env cfg w w0 \<and>
    ((\<exists>r. parse_response env cfg w0 = Inr (Some r) \<and> rp_phase r = hv_phase cfg \<and> rp_decision r = Approve \<and>
        consume_response env cfg ''handled'' w0 = (Inr (), w')) \<or>
     (\<exists>q raw deadline. parse_response env cfg w0 = Inr None \<and>
        open_gate env cfg (prompt_summary ctx) (preview_lines ctx) w0 = (Inr q, w') \<and> pq_timeout_at q = Some raw \<and>
        he_parse_time env raw = Inr deadline \<and> deadline \<le> he_now env w' \<and>
        tr_on_timeout (rule_for (hv_policy cfg) (pq_severity q)) = AutoApprove))"
  using assms
proof (induction fuel arbitrary: w rule: less_induct)
  case (less fuel w)
  let ?s = "prompt_summary ctx" and ?n = "preview_lines ctx"
  note unfold = verify_with_report.simps [of fuel env cfg ctx w, unfolded Let_def]
  show ?case
  proof (cases "parse_response env cfg w")
    case (Inl err)
    with less.prems keep_open_no_pass [of env cfg ?s ?n] show ?thesis by (simp add: unfold)
  next
    case ok: (Inr a)
    show ?thesis
    proof (cases a)
      case (Some r)
      with less.prems ok have "answered env cfg ?s ?n r w = (Inr (HookPass, rep), w')" by (simp add: unfold)
      from answered_pass [OF this] ok Some show ?thesis by (intro exI [of _ w]) (auto intro: gate_entered.first)
    next
      case None
      obtain rq w1 where og: "open_gate env cfg ?s ?n w = (rq, w1)" by (cases "open_gate env cfg ?s ?n w") auto
      with less.prems ok None obtain q where q: "rq = Inr q" by (cases rq) (simp_all add: unfold)
      with less.prems ok None og obtain t where t: "deadline_passed env q w1 = Inr t"
        by (cases "deadline_passed env q w1") (simp_all add: unfold)
      note gate = ok [unfolded None] og [unfolded q]
      show ?thesis
      proof (cases "hv_fallback_server cfg \<and> \<not> t")
        case False
        from deadline_pass [OF gate t this less.prems] gate gate_entered.first [of env cfg w] show ?thesis by blast
      next
        case True
        with t have "deadline_passed env q w1 = Inr False" by simp
        from server_pass [OF gate this _ less.prems] True obtain f w2 where
          "f < fuel" "gate_entered env cfg w w2" "verify_with_report f env cfg ctx w2 = Some (Inr (HookPass, rep), w')" by auto
        with less.IH show ?thesis by (meson gate_entered_trans)
      qed
    qed
  qed
qed

subsection \<open>A response is used once\<close>

lemma json_names:
  assumes "CHR ''/'' \<notin> set phase" "ks \<noteq> []"
  shows "pjoin ks (phase @ ''.json'' @ suffix_text) = ks @ [Normal (phase @ ''.json'' @ suffix_text)] \<or> CHR ''/'' \<in> set suffix_text"
proof (cases "CHR ''/'' \<in> set suffix_text")
  case False
  let ?n = "phase @ ''.json'' @ suffix_text"
  have "?n \<noteq> []" "?n \<noteq> ''.''" "?n \<noteq> ''..''"
  proof -
    have "length ?n > 2" by simp
    then show "?n \<noteq> []" "?n \<noteq> ''.''" "?n \<noteq> ''..''" by (metis list.size(3) not_less_zero, force, force)
  qed
  with False assms show ?thesis by (intro disjI1 pjoin_plain) auto
qed simp

lemma int_str_plain: "CHR ''/'' \<notin> set (int_str n)"
proof -
  have "c \<noteq> CHR ''/''" if "c \<in> set (nat_str m)" for c m
    using nat_str_digits [OF that] by auto
  then show ?thesis unfolding int_str_def by auto
qed

definition disk_env :: "disk human_env \<Rightarrow> bool" where
  "disk_env env \<longleftrightarrow> he_ops env = disk_ops \<and> he_reader env = reader_of"

lemma response_paths:
  assumes "CHR ''/'' \<notin> set (hv_phase cfg)" "hv_run_dir cfg \<noteq> []"
  defines "d \<equiv> hv_run_dir cfg @ [Normal ''responses'']"
  shows "response_path cfg = d @ [Normal (hv_phase cfg @ ''.json'')]" "parent_dir (response_path cfg) = d"
    "pjoin d (hv_phase cfg @ ''.json.'' @ ''handled'' @ ''.'' @ int_str n) =
       d @ [Normal (hv_phase cfg @ ''.json.'' @ ''handled'' @ ''.'' @ int_str n)]"
proof -
  have p: "pjoin (hv_run_dir cfg) ''responses'' = d" unfolding d_def using assms(2) by (intro pjoin_plain) auto
  have d: "d \<noteq> []" by (simp add: d_def)
  show "response_path cfg = d @ [Normal (hv_phase cfg @ ''.json'')]"
    using json_names [OF assms(1) d, of "[]"] by (simp add: response_path_def p)
  then show "parent_dir (response_path cfg) = d" by (simp add: parent_dir_def)
  show "pjoin d (hv_phase cfg @ ''.json.'' @ ''handled'' @ ''.'' @ int_str n) =
       d @ [Normal (hv_phase cfg @ ''.json.'' @ ''handled'' @ ''.'' @ int_str n)]"
    using json_names [OF assms(1) d, of "''.handled.'' @ int_str n"] int_str_plain by auto
qed


subsection \<open>Examples\<close>

text \<open>A gate of high severity under the default policy, whose deadline codec knows one time.\<close>

definition demo_response_json :: json where
  "demo_response_json = JObj [(''schema_version'', JInt 1), (''phase'', JStr ''review''), (''claimed_by'', JStr ''ann''),
     (''decided_at'', JStr ''t''), (''decision'', JStr ''approve''), (''global_comment'', JNull)]"

definition demo_pending :: pending_request where
  "demo_pending = \<lparr>pq_schema_version = 1, pq_run_id = ''old'', pq_workflow = ''w'', pq_phase = ''other'', pq_severity = SevLow,
     pq_opened_at = ''t0'', pq_timeout_at = Some ''t1'', pq_artefact_path = ''a.md'', pq_artefact_kind = ''text/markdown'',
     pq_preview_lines = 1, pq_preceded_by = [], pq_next_phase = None, pq_prompt_summary = [], pq_options = [Approve]\<rparr>"

definition demo_human_env :: "disk human_env" where
  "demo_human_env = \<lparr>he_json = \<lparr>js_parse = (\<lambda>s. if s = ''r'' then Inr demo_response_json
       else if s = ''q'' then Inr (pending_json demo_pending) else Inl ''no json''), js_show = (\<lambda>_. ''q'')\<rparr>,
     he_serde_str = (\<lambda>_. []), he_show_time = (\<lambda>_. ''t1''), he_parse_time = (\<lambda>_. Inr 5), he_ops = disk_ops,
     he_reader = reader_of, he_now = (\<lambda>_. 10), he_server = (\<lambda>_ _ w. (Inl ''none'', w))\<rparr>"

definition demo_gate :: human_config where
  "demo_gate = \<lparr>hv_run_dir = [Normal ''run''], hv_run_id = ''r'', hv_workflow = ''w'', hv_phase = ''review'',
     hv_artefact_name = ''a.md'', hv_artefact_kind = ReviewMd, hv_severity = SevHigh, hv_options = [Approve, Reject],
     hv_policy = default_policy, hv_fallback_server = False\<rparr>"

definition demo_hook_ctx :: hook_ctx where
  "demo_hook_ctx = \<lparr>hc_stdout = ''text'', hc_stderr = None, hc_exit_code = None, hc_backend_name = ''b'', hc_model = None,
     hc_structured = None, hc_duration = 0\<rparr>"

definition demo_gate_disk :: "string \<Rightarrow> string \<Rightarrow> disk" where
  "demo_gate_disk d content = \<lparr>dk_nodes = [([Normal ''run''], DirNode), ([Normal ''run'', Normal d], DirNode),
     ([Normal ''run'', Normal d, Normal ''review.json''], FileNode content)], dk_script = [], dk_temps = 0\<rparr>"

lemma demo_gate_paths:
  "response_path demo_gate = [Normal ''run'', Normal ''responses'', Normal ''review.json'']"
  "pending_path demo_gate = [Normal ''run'', Normal ''pending'', Normal ''review.json'']"
  by code_simp+

lemma demo_response_read:
  "read_response demo_response_json = Inr \<lparr>rp_schema_version = 1, rp_phase = ''review'', rp_claimed_by = ''ann'',
     rp_decided_at = ''t'', rp_decision = Approve, rp_comment = None, rp_inline_path = None\<rparr>"
  by (simp add: demo_response_json_def known_fields_def response_fields_def required_def optional_def as_decision_def)

lemma demo_pending_read: "read_pending (pending_json demo_pending) = Inr demo_pending"
  by (simp add: pending_json_def demo_pending_def known_fields_def pending_fields_def required_def optional_def
      as_decision_def as_severity_def str_opt_json_def word_json_def)

lemma demo_response_parse:
  "parse_response demo_human_env demo_gate (demo_gate_disk ''responses'' ''r'') = Inr (Some
     \<lparr>rp_schema_version = 1, rp_phase = ''review'', rp_claimed_by = ''ann'',
     rp_decided_at = ''t'', rp_decision = Approve, rp_comment = None, rp_inline_path = None\<rparr>)"
  unfolding parse_response_def Let_def demo_gate_paths
  by (simp add: demo_human_env_def reader_of_def demo_gate_disk_def node_at_def parse_json_def demo_response_read SCHEMA_V1_def)

lemma demo_approved:
  "\<exists>rep w'. verify_with_report 0 demo_human_env demo_gate demo_hook_ctx (demo_gate_disk ''responses'' ''r'') = Some (Inr (HookPass, rep), w')"
proof -
  let ?w = "demo_gate_disk ''responses'' ''r''"
  have x: "rd_exists (reader_of ?w) (response_path demo_gate)"
    by (simp add: demo_gate_paths reader_of_def demo_gate_disk_def node_at_def)
  have env: "he_ops demo_human_env = disk_ops" "he_reader demo_human_env = reader_of" by (simp_all add: demo_human_env_def)
  have g: "CHR ''/'' \<notin> set (hv_phase demo_gate)" "hv_run_dir demo_gate \<noteq> []" by (simp_all add: demo_gate_def)
  note p = response_paths [OF g]
  define d where "d = hv_run_dir demo_gate @ [Normal ''responses'']"
  define dest where "dest = d @ [Normal (hv_phase demo_gate @ ''.json.'' @ ''handled'' @ ''.'' @ int_str (he_now demo_human_env ?w div 10 ^ 6))]"
  have de: "pjoin d (hv_phase demo_gate @ ''.json.'' @ ''handled'' @ ''.'' @ int_str (he_now demo_human_env ?w div 10 ^ 6)) = dest"
    unfolding dest_def d_def by (rule p(3))
  have pd: "parent_dir dest = d" by (simp add: dest_def parent_dir_def)
  have d2: "d = [Normal ''run'', Normal ''responses'']" by (simp add: d_def demo_gate_def)
  have mk: "disk_mkdirs d ?w = (Inr (), set_node [Normal ''run''] DirNode (set_node d DirNode ?w))"
    by (simp add: disk_mkdirs_def with_fault.simps d2 demo_gate_disk_def node_at_def file_of_def)
  let ?w1 = "set_node [Normal ''run''] DirNode (set_node d DirNode ?w)"
  have sr: "response_path demo_gate \<noteq> [Normal ''run'']" "response_path demo_gate \<noteq> d" by (simp_all add: demo_gate_paths d2)
  have src: "node_at ?w1 (response_path demo_gate) = Some (FileNode ''r'')"
    using sr by (simp add: demo_gate_paths d2) (simp add: demo_gate_disk_def node_at_def)
  have nd: "node_at ?w1 dest \<noteq> Some DirNode"
    by (simp add: dest_def d2) (simp add: demo_gate_disk_def node_at_def)
  have scr: "dk_script ?w1 = []" by (simp add: set_node_def demo_gate_disk_def)
  have rn: "\<exists>w2. disk_rename (response_path demo_gate) dest ?w1 = (Inr (), w2)"
    using src nd scr by (simp add: disk_rename_def with_fault.simps)
  then obtain w2 where w2: "disk_rename (response_path demo_gate) dest ?w1 = (Inr (), w2)" ..
  have "consume_response demo_human_env demo_gate ''handled'' ?w = (Inr (), w2)"
    unfolding consume_response_def Let_def env p(2) d_def [symmetric] de
    using x w2 mk by (simp add: pd)
  moreover have "hv_phase demo_gate = ''review''" by (simp add: demo_gate_def)
  ultimately show ?thesis
    using demo_response_parse by (simp add: verify_with_report.simps Let_def answered_def)
qed

theorem human_gate_sound_witness:
  "\<exists>rep w'. verify_with_report 0 demo_human_env demo_gate demo_hook_ctx (demo_gate_disk ''responses'' ''r'') =
     Some (Inr (HookPass, rep), w') \<and> consume_response demo_human_env demo_gate ''handled'' (demo_gate_disk ''responses'' ''r'') = (Inr (), w')"
proof -
  obtain rep w' where v: "verify_with_report 0 demo_human_env demo_gate demo_hook_ctx (demo_gate_disk ''responses'' ''r'') =
     Some (Inr (HookPass, rep), w')" using demo_approved by (elim exE)
  have nf: "\<not> hv_fallback_server demo_gate" by (simp add: demo_gate_def)
  from human_gate_sound [OF v] gate_entered_once [OF _ nf] demo_response_parse v show ?thesis by fastforce
qed


text \<open>
  The pending request that is found on disk decides, whatever run, phase and severity it is for: a
  gate of high severity under the default policy, which blocks without a deadline, passes without
  any response when a pending request of low severity is left at its path and its deadline is over.
\<close>

theorem stale_pending_auto_approves:
  "\<exists>rep w'. verify_with_report 0 demo_human_env demo_gate demo_hook_ctx (demo_gate_disk ''pending'' ''q'') =
     Some (Inr (HookPass, rep), w') \<and> hv_severity demo_gate = SevHigh \<and> hv_policy demo_gate = default_policy \<and>
     parse_response demo_human_env demo_gate (demo_gate_disk ''pending'' ''q'') = Inr None"
proof -
  let ?w = "demo_gate_disk ''pending'' ''q''"
  have r: "parse_response demo_human_env demo_gate ?w = Inr None"
    unfolding parse_response_def Let_def demo_gate_paths
    by (simp add: demo_human_env_def reader_of_def demo_gate_disk_def node_at_def)
  have x: "rd_exists (reader_of ?w) (pending_path demo_gate)" "rd_read (reader_of ?w) (pending_path demo_gate) = Inr ''q''"
    unfolding demo_gate_paths by (simp_all add: reader_of_def demo_gate_disk_def node_at_def)
  have o': "open_gate demo_human_env demo_gate s n ?w = (Inr demo_pending, ?w)" for s n
    using x demo_pending_read
    by (simp add: open_gate_def pending_payload_def ensure_pending_file_def parse_json_def demo_human_env_def Let_def SCHEMA_V1_def)
      (simp add: demo_pending_def)
  have d: "deadline_passed demo_human_env demo_pending ?w = Inr True"
    by (simp add: deadline_passed_def demo_pending_def demo_human_env_def)
  have "outcome_verdict demo_gate demo_pending (timeout_result (rule_for (hv_policy demo_gate) (pq_severity demo_pending)) True) = HookPass"
    by (simp add: outcome_pass demo_gate_def demo_pending_def default_policy_def)
  with r o' d show ?thesis by (simp add: verify_with_report.simps Let_def) (simp add: demo_gate_def)
qed

end
