(* ===== verification/PhaseRun.thy ===== *)
theory PhaseRun
  imports Dispatch HumanVerifier
begin

text \<open>
  \<open>src/phase_runner.rs\<close> and \<open>src/phase_runner/persist.rs\<close>: one run of a phase, from the started marker
  over the strategy, the artefact's bytes and the verification to the committed artefact and the
  completed marker, or to the failed marker. The calls of the trace sink are returned as a list.
  Attempt numbers wrap at \<open>2\<^sup>3\<^sup>2\<close>, as in a release build. \<open>None\<close> is a panic of the code (or the
  exhausted fuel of a human gate that is served again and again).
\<close>

type_synonym run_error = "(manifest_error, marker_error) runner_error"
type_synonym config = "human_config phase_config"

subsection \<open>Persistence\<close>

record 'w run_env =
  rn_libs :: libs
  rn_ops :: "'w disk_ops"
  rn_reader :: "'w \<Rightarrow> reader"
  rn_files :: "'w run_files"
  rn_clock :: "'w \<Rightarrow> clock_env"
  rn_fan :: fan_env
  rn_redact :: "string \<Rightarrow> string"
  rn_lossy :: "bytes \<Rightarrow> string"
  rn_human :: "'w human_env"
  rn_fuel :: nat

definition start_attempt :: "'w run_env \<Rightarrow> dir \<Rightarrow> string \<Rightarrow> 32 word \<Rightarrow> 'w \<Rightarrow> (marker_error, unit) result \<times> 'w" where
  "start_attempt env run_dir phase attempt w =
     (case write_started (rn_libs env) (rn_ops env) (rn_clock env w) run_dir phase attempt w of
        (r, w') \<Rightarrow> (rbind r (\<lambda>_. Inr ()), w'))"

definition attempt_path :: "dir \<Rightarrow> string \<Rightarrow> 32 word \<Rightarrow> dir" where
  "attempt_path run_dir phase attempt = pjoin (pjoin (pjoin run_dir ''attempts'') phase) (nat_str (unat attempt))"

definition archive_failed_attempt ::
  "'w disk_ops \<Rightarrow> dir \<Rightarrow> string \<Rightarrow> 32 word \<Rightarrow> 'w \<Rightarrow> (io_error, dir) result \<times> 'w" where
  "archive_failed_attempt ops run_dir phase attempt w =
     (let d = attempt_path run_dir phase attempt in
      case do_mkdirs ops d w of (r, w') \<Rightarrow> (rbind r (\<lambda>_. Inr d), w'))"

definition make_parent :: "'w disk_ops \<Rightarrow> dir \<Rightarrow> ('w, unit) io" where
  "make_parent ops k w =
     (if k = [] \<or> last k = RootDir \<or> butlast k = [] then (Inr (), w) else do_mkdirs ops (butlast k) w)"

definition artefact_entry :: "'w run_env \<Rightarrow> config \<Rightarrow> bytes \<Rightarrow> 32 word \<Rightarrow> 'w \<Rightarrow> manifest_entry" where
  "artefact_entry env cfg content attempt w =
     from_payload (rn_libs env) (ce_now (rn_clock env w)) (cf_artefact_name cfg) (cf_artefact_kind cfg) 1
       (cf_producer cfg) (Some (cf_phase cfg)) (Some attempt) content"

definition stored_manifest :: "'w run_env \<Rightarrow> dir \<Rightarrow> string \<Rightarrow> 'w \<Rightarrow> (manifest_error, manifest) result" where
  "stored_manifest env path run_id w =
     (if rd_exists (rn_reader env w) path then load (rn_libs env) (rn_reader env w) path
      else Inr (manifest_new run_id None))"

definition commit_success ::
  "'w run_env \<Rightarrow> dir \<Rightarrow> config \<Rightarrow> bytes \<Rightarrow> 32 word \<Rightarrow> string \<Rightarrow> 'w \<Rightarrow> (run_error, dir \<times> manifest_entry) result \<times> 'w" where
  "commit_success env run_dir cfg content attempt run_id w =
     (let path = pjoin run_dir (cf_artefact_name cfg) in
      case do_mkdirs (rn_ops env) run_dir w of
        (Inl e, w1) \<Rightarrow> (Inl (RunnerIo e), w1)
      | (Inr _, w1) \<Rightarrow> (case make_parent (rn_ops env) path w1 of
          (Inl e, w2) \<Rightarrow> (Inl (RunnerIo e), w2)
        | (Inr _, w2) \<Rightarrow> (case atomic_write (rn_ops env) path content w2 of
            (Inl e, w3) \<Rightarrow> (Inl (RunnerIo e), w3)
          | (Inr _, w3) \<Rightarrow>
              let entry = artefact_entry env cfg content attempt w3; mpath = pjoin run_dir ''manifest.json'' in
              (case stored_manifest env mpath run_id w3 of
                 Inl e \<Rightarrow> (Inl (ManifestErr e), w3)
               | Inr m \<Rightarrow> (case append (rn_libs env) (rn_ops env) entry mpath m w3 of
                     ((Inl e, _), w4) \<Rightarrow> (Inl (ManifestErr e), w4)
                   | ((Inr _, _), w4) \<Rightarrow> (Inr (path, entry), w4))))))"

definition failure_summary :: "string \<Rightarrow> 32 word \<Rightarrow> string \<Rightarrow> json" where
  "failure_summary phase attempt cls =
     JObj [(''attempt'', word_json attempt), (''error_class'', JStr cls), (''phase'', JStr phase)]"

definition record_terminal_failure_with_hitl ::
  "'w run_env \<Rightarrow> dir \<Rightarrow> config \<Rightarrow> 32 word \<Rightarrow> string \<Rightarrow> hitl_context option \<Rightarrow> 'w \<Rightarrow> (run_error, unit) result \<times> 'w" where
  "record_terminal_failure_with_hitl env run_dir cfg attempts_made cls hitl w =
     (let last_attempt = (if attempts_made = 0 then 0 else attempts_made - 1) in
      case archive_failed_attempt (rn_ops env) run_dir (cf_phase cfg) last_attempt w of
        (Inl e, w1) \<Rightarrow> (Inl (RunnerIo e), w1)
      | (Inr archive, w1) \<Rightarrow>
          (case atomic_write (rn_ops env) (pjoin archive ''failure-summary.json'')
                  (js_show (lb_json (rn_libs env)) (failure_summary (cf_phase cfg) last_attempt cls)) w1 of
             (Inl e, w2) \<Rightarrow> (Inl (RunnerIo e), w2)
           | (Inr _, w2) \<Rightarrow> (case write_failed (rn_libs env) (rn_ops env) (rn_clock env w2) run_dir (cf_phase cfg)
                                   attempts_made cls (show_dir archive) hitl w2 of
                 (Inl e, w3) \<Rightarrow> (Inl (MarkerErr e), w3)
               | (Inr _, w3) \<Rightarrow> (Inr (), w3))))"

subsection \<open>The trace\<close>

record phase_span =
  sp_trace_id :: string
  sp_phase :: string
  sp_strategy :: string
  sp_aggregator :: string
  sp_verify_hook :: "string option"

record backend_span =
  bsp_attempt :: nat
  bsp_backend :: string
  bsp_model :: "string option"
  bsp_input :: nat
  bsp_output :: nat
  bsp_finish :: "string list"

text \<open>The calls of the sink, without span identifiers and measured times.\<close>

datatype trace_event =
    PhaseStarted phase_span
  | BackendCall backend_span
  | AggregatorFold string nat
  | VerifyEvent string bool "string option" "hitl_context option"
  | ErrorEvent string run_error
  | PhaseFinished string

definition phase_span_of :: "config \<Rightarrow> string \<Rightarrow> phase_span" where
  "phase_span_of cfg run_id = \<lparr>sp_trace_id = run_id, sp_phase = cf_phase cfg,
     sp_strategy = strategy_name_str (cf_strategy cfg), sp_aggregator = aggregator_name_str (cf_aggregator cfg),
     sp_verify_hook = (if cf_verify cfg = VhNone then None else Some (verify_hook_name_str (cf_verify cfg)))\<rparr>"

definition backend_event :: "nat \<times> attempt \<Rightarrow> trace_event" where
  "backend_event ia = (case ia of (idx, a) \<Rightarrow> BackendCall \<lparr>bsp_attempt = idx, bsp_backend = ap_backend a,
     bsp_model = Some (ap_model a), bsp_input = unat (tr_input (ap_usage a)), bsp_output = unat (tr_output (ap_usage a)),
     bsp_finish = map finish_str (ap_finish a)\<rparr>)"

definition hitl_of_report :: "human_report \<Rightarrow> hitl_context" where
  "hitl_of_report r = \<lparr>hm_severity = severity_str (hr_severity r), hm_timeout_at = hr_timeout_at r,
     hm_timeout_action = timeout_action_str (hr_timeout_action r), hm_timeout_outcome = timeout_outcome_str (hr_timeout_outcome r)\<rparr>"

definition verify_event :: "config \<Rightarrow> hook_result \<Rightarrow> human_report option \<Rightarrow> trace_event" where
  "verify_event cfg r report = VerifyEvent (verify_hook_name_str (cf_verify cfg)) (is_pass r)
     (case r of HookFail reason \<Rightarrow> Some (fr_summary reason) | _ \<Rightarrow> None) (map_option hitl_of_report report)"

subsection \<open>The run\<close>

record 'w phase_inputs =
  pi_backends :: "'w backend list"
  pi_prompt :: prompt
  pi_ctx :: "'w phase_ctx"
  pi_verify :: "'w verify_hook option"
  pi_run_dir :: path

record phase_outcome =
  po_artefact_path :: dir
  po_entry :: manifest_entry
  po_output :: strategy_output
  po_kind :: strategy_kind
  po_verify :: "hook_result option"

type_synonym 'w run_result = "((run_error, phase_outcome) result \<times> trace_event list) \<times> 'w"

fun any_fail_reason_str :: "any_fail_reason \<Rightarrow> string" where
  "any_fail_reason_str (VerdictRejected _) = ''verdict rejected''"
| "any_fail_reason_str (VerdictContract m) = ''verdict contract violation: '' @ m"
| "any_fail_reason_str (VerdictBackendError d) = ''backend error: '' @ d"

definition strategy_failure :: "strategy_error \<Rightarrow> run_error" where
  "strategy_failure err = (case err of
     AnyFailErr _ reason _ _ \<Rightarrow> AggregatorErr (BranchFailures (any_fail_reason_str reason))
   | _ \<Rightarrow> StrategyFailed err)"

text \<open>A terminal failure: traced, recorded (an error of the recording is only printed), returned.\<close>

definition fail_phase ::
  "'w run_env \<Rightarrow> config \<Rightarrow> path \<Rightarrow> 32 word \<Rightarrow> hitl_context option \<Rightarrow> run_error \<Rightarrow> trace_event list \<Rightarrow> 'w \<Rightarrow> 'w run_result" where
  "fail_phase env cfg run_dir attempts_made hitl err evs w =
     ((Inl err, evs @ [ErrorEvent (error_class err) err]),
      snd (record_terminal_failure_with_hitl env (components run_dir) cfg attempts_made (error_class err) hitl w))"

fun start_attempts ::
  "'w run_env \<Rightarrow> dir \<Rightarrow> string \<Rightarrow> 32 word \<Rightarrow> nat list \<Rightarrow> 'w \<Rightarrow> (marker_error, unit) result \<times> 'w" where
  "start_attempts env run_dir phase base [] w = (Inr (), w)"
| "start_attempts env run_dir phase base (i # rest) w =
     (case start_attempt env run_dir phase (base + of_nat i) w of
        (Inl e, w') \<Rightarrow> (Inl e, w')
      | (Inr _, w') \<Rightarrow> start_attempts env run_dir phase base rest w')"

definition resolve_verify_hook :: "config \<Rightarrow> 'w verify_hook option \<Rightarrow> 'w verify_hook option" where
  "resolve_verify_hook cfg verify = (case cf_verify cfg of VhRunCommand \<Rightarrow> verify | VhLlmVerifier \<Rightarrow> verify | _ \<Rightarrow> None)"

definition verify_ctx :: "'w run_env \<Rightarrow> strategy_output \<Rightarrow> bytes \<Rightarrow> 32 word \<Rightarrow> hook_ctx" where
  "verify_ctx env out content sel =
     (let selected = (if unat sel < length (so_attempts out) then Some (so_attempts out ! unat sel) else None) in
      \<lparr>hc_stdout = rn_lossy env content, hc_stderr = None, hc_exit_code = None,
       hc_backend_name = (case selected of Some a \<Rightarrow> ap_backend a | None \<Rightarrow> ''aggregate''),
       hc_model = map_option ap_model selected, hc_structured = None, hc_duration = 0\<rparr>)"

text \<open>The debug text of a label; the configuration of a human verifier never reaches the message.\<close>

fun verify_hook_debug :: "'h verify_hook_name \<Rightarrow> string" where
  "verify_hook_debug VhNone = ''None''"
| "verify_hook_debug VhRunCommand = ''RunCommand''"
| "verify_hook_debug VhLlmVerifier = ''LlmVerifier''"
| "verify_hook_debug (VhHumanVerifier _) = ''HumanVerifier''"

text \<open>The verdict of the configured hook; without a hook there is none.\<close>

definition run_verify ::
  "'w run_env \<Rightarrow> config \<Rightarrow> 'w verify_hook option \<Rightarrow> hook_ctx \<Rightarrow> 'w \<Rightarrow>
     ((run_error, (hook_result \<times> human_report option) option) result \<times> 'w) option" where
  "run_verify env cfg verify vctx w =
     (case cf_verify cfg of
        VhNone \<Rightarrow> Some (Inr None, w)
      | VhHumanVerifier hcfg \<Rightarrow> (case human_verify (rn_fuel env) (rn_human env) hcfg vctx w of
            None \<Rightarrow> None
          | Some (Inl e, w') \<Rightarrow> Some (Inl (VerifyHookErr e), w')
          | Some (Inr (r, report), w') \<Rightarrow> Some (Inr (Some (r, Some report)), w'))
      | _ \<Rightarrow> (case resolve_verify_hook cfg verify of
            None \<Rightarrow> Some (Inl (InvalidConfig (''verify hook '' @ verify_hook_debug (cf_verify cfg) @
              '' requires PhaseInputs::verify'')), w)
          | Some hook \<Rightarrow> (case vh_verify hook vctx w of
                (Inl e, w') \<Rightarrow> Some (Inl (VerifyHookErr e), w')
              | (Inr r, w') \<Rightarrow> Some (Inr (Some (r, None)), w'))))"

definition commit_phase ::
  "'w run_env \<Rightarrow> config \<Rightarrow> 'w phase_inputs \<Rightarrow> 32 word \<Rightarrow> strategy_output \<Rightarrow> bytes \<Rightarrow>
     (hook_result \<times> human_report option) option \<Rightarrow> trace_event list \<Rightarrow> 'w \<Rightarrow> 'w run_result" where
  "commit_phase env cfg inp attempt out content verdict evs w =
     (let run_dir = components (pi_run_dir inp) in
      case commit_success env run_dir cfg content attempt (pc_run_id (pi_ctx inp)) w of
        (Inl e, w1) \<Rightarrow> ((Inl e, evs), w1)
      | (Inr (path, entry), w1) \<Rightarrow>
          (case write_completed (rn_libs env) (rn_ops env) (rn_clock env w1) run_dir (cf_phase cfg) attempt (me_sha256 entry)
                  [cf_artefact_name cfg] (case verdict of Some (_, Some report) \<Rightarrow> Some (hitl_of_report report) | _ \<Rightarrow> None) w1 of
             (Inl e, w2) \<Rightarrow> ((Inl (MarkerErr e), evs), w2)
           | (Inr _, w2) \<Rightarrow> ((Inr \<lparr>po_artefact_path = path, po_entry = entry, po_output = out,
               po_kind = so_strategy out, po_verify = map_option fst verdict\<rparr>, evs @ [PhaseFinished ''success'']), w2)))"

definition verify_phase ::
  "'w run_env \<Rightarrow> config \<Rightarrow> 'w phase_inputs \<Rightarrow> 32 word \<Rightarrow> strategy_output \<Rightarrow> bytes \<Rightarrow> 32 word \<Rightarrow>
     trace_event list \<Rightarrow> 'w \<Rightarrow> 'w run_result option" where
  "verify_phase env cfg inp initial out content sel evs w =
     (case run_verify env cfg (pi_verify inp) (verify_ctx env out content sel) w of
        None \<Rightarrow> None
      | Some (Inl e, w1) \<Rightarrow> Some ((Inl e, evs), w1)
      | Some (Inr verdict, w1) \<Rightarrow> Some (case verdict of
            None \<Rightarrow> commit_phase env cfg inp (initial + sel) out content None evs w1
          | Some (r, report) \<Rightarrow>
              let evs' = evs @ [verify_event cfg r report] in
              if \<not> is_pass r then
                fail_phase env cfg (pi_run_dir inp) (initial + of_nat (max 1 (length (so_attempts out))))
                  (map_option hitl_of_report report) (VerifyFailedErr (cf_phase cfg) sel r) evs' w1
              else commit_phase env cfg inp (initial + sel) out content verdict evs' w1))"

definition after_strategy ::
  "'w run_env \<Rightarrow> config \<Rightarrow> 'w phase_inputs \<Rightarrow> 32 word \<Rightarrow> strategy_output \<Rightarrow> trace_event list \<Rightarrow> 'w \<Rightarrow> 'w run_result option" where
  "after_strategy env cfg inp initial out evs w =
     (let n = length (so_attempts out) in
      case start_attempts env (components (pi_run_dir inp)) (cf_phase cfg) initial [1..<n] w of
        (Inl e, w1) \<Rightarrow> Some ((Inl (MarkerErr e), evs), w1)
      | (Inr _, w1) \<Rightarrow>
          (case canonical_bytes (rn_files env) (pi_run_dir inp) w1 out (resolve_aggregator (cf_aggregator cfg)) of
             Inl err \<Rightarrow> Some (fail_phase env cfg (pi_run_dir inp) (initial + of_nat (max 1 n)) None err evs w1)
           | Inr (content, sel) \<Rightarrow> verify_phase env cfg inp initial out content sel
               (evs @ [AggregatorFold (aggregator_name_str (cf_aggregator cfg)) n]) w1))"

definition run ::
  "'w run_env \<Rightarrow> config \<Rightarrow> 'w phase_inputs \<Rightarrow> 32 word \<Rightarrow> 'w \<Rightarrow> 'w run_result option" where
  "run env cfg inp initial w =
     (case validate_config cfg of
        Inl e \<Rightarrow> Some ((Inl e, []), w)
      | Inr _ \<Rightarrow> (case start_attempt env (components (pi_run_dir inp)) (cf_phase cfg) initial w of
          (Inl e, w1) \<Rightarrow> Some ((Inl (MarkerErr e), []), w1)
        | (Inr _, w1) \<Rightarrow>
            let ctx = (pi_ctx inp)\<lparr>pc_cwd := pi_run_dir inp\<rparr>;
                evs = [PhaseStarted (phase_span_of cfg (pc_run_id ctx))]
            in (case resolve_strategy (rn_redact env) cfg (pi_verify inp) of
                  None \<Rightarrow> None
                | Some (Inl e) \<Rightarrow> Some ((Inl e, evs), w1)
                | Some (Inr strategy) \<Rightarrow>
                    (case execute_strategy (rn_fan env) strategy (pi_backends inp) (pi_prompt inp) ctx w1 of
                       (Inl err, w2) \<Rightarrow> Some (fail_phase env cfg (pi_run_dir inp) (initial + 1) None (strategy_failure err) evs w2)
                     | (Inr out, w2) \<Rightarrow>
                         after_strategy env cfg inp initial out (evs @ map backend_event (enumerate 0 (so_attempts out))) w2))))"

subsection \<open>The shape of a run\<close>

text \<open>The errors that leave a run by an early return, without a trace of the failure.\<close>

fun silent :: "run_error \<Rightarrow> bool" where
  "silent (InvalidConfig _) = True"
| "silent (VerifyHookErr _) = True"
| "silent (ManifestErr _) = True"
| "silent (MarkerErr _) = True"
| "silent (RunnerIo _) = True"
| "silent _ = False"

fun is_terminal :: "trace_event \<Rightarrow> bool" where
  "is_terminal (ErrorEvent _ _) = True"
| "is_terminal (PhaseFinished _) = True"
| "is_terminal _ = False"

text \<open>How the events of a stage end, given those before it.\<close>

definition ends_with_event :: "trace_event list \<Rightarrow> (run_error, phase_outcome) result \<Rightarrow> trace_event list \<Rightarrow> bool" where
  "ends_with_event pre r evs \<longleftrightarrow> (case r of
     Inr _ \<Rightarrow> evs = pre @ [PhaseFinished ''success'']
   | Inl e \<Rightarrow> evs = pre @ [ErrorEvent (error_class e) e] \<or> (evs = pre \<and> silent e))"

lemma fail_phase_ends: "fail_phase env cfg d n h e pre w = ((r, evs), w') \<Longrightarrow> ends_with_event pre r evs \<and> r = Inl e"
  by (auto simp: fail_phase_def ends_with_event_def)

lemma commit_phase_ends:
  assumes "commit_phase env cfg inp attempt out content v pre w = ((r, evs), w')"
  shows "ends_with_event pre r evs \<and> (\<forall>x. r = Inr x \<longrightarrow> po_output x = out \<and> po_verify x = map_option fst v)"
proof -
  have "silent e" if "commit_success env d cfg content attempt rid w = (Inl e, w1)" for d rid e w1
    using that by (auto simp: commit_success_def Let_def split: prod.splits sum.splits)
  with assms show ?thesis
    by (auto simp: commit_phase_def ends_with_event_def Let_def split: prod.splits sum.splits)
qed

lemma run_verify_ok:
  assumes "run_verify env cfg verify vctx w = Some (rv, w1)"
  shows "(\<exists>e. rv = Inl e \<and> silent e) \<or> (rv = Inr None \<and> cf_verify cfg = VhNone) \<or>
    (\<exists>r rep. rv = Inr (Some (r, rep)) \<and> cf_verify cfg \<noteq> VhNone)"
  using assms
  by (auto simp: run_verify_def split: verify_hook_name.splits option.splits prod.splits sum.splits)

lemma verify_phase_ends:
  assumes "verify_phase env cfg inp initial out content sel pre w = Some ((r, evs), w')"
  shows "\<exists>vs. ends_with_event (pre @ vs) r evs \<and>
    (\<forall>x. r = Inr x \<longrightarrow> po_output x = out \<and> (if cf_verify cfg = VhNone then vs = [] \<and> po_verify x = None
       else po_verify x = Some HookPass \<and> (\<exists>m h. vs = [VerifyEvent (verify_hook_name_str (cf_verify cfg)) True m h]))) \<and>
    (\<forall>v \<in> set vs. \<not> is_terminal v)"
proof -
  obtain rv w1 where rv: "run_verify env cfg (pi_verify inp) (verify_ctx env out content sel) w = Some (rv, w1)"
    using assms by (auto simp: verify_phase_def split: option.splits)
  from run_verify_ok [OF rv] show ?thesis
  proof (elim disjE exE conjE)
    fix e assume "rv = Inl e" "silent e"
    with assms rv show ?thesis by (intro exI [of _ "[]"]) (auto simp: verify_phase_def ends_with_event_def)
  next
    assume "rv = Inr None" "cf_verify cfg = VhNone"
    with assms rv commit_phase_ends [of env cfg inp "initial + sel" out content None pre w1 r evs w'] show ?thesis
      by (intro exI [of _ "[]"]) (auto simp: verify_phase_def)
  next
    fix hr rep assume v: "rv = Inr (Some (hr, rep))" "cf_verify cfg \<noteq> VhNone"
    let ?ve = "verify_event cfg hr rep"
    have nt: "\<not> is_terminal ?ve" by (simp add: verify_event_def)
    show ?thesis
    proof (cases "is_pass hr")
      case True
      then have "hr = HookPass" by (cases hr) simp_all
      with assms rv v True commit_phase_ends [of env cfg inp "initial + sel" out content "Some (hr, rep)" "pre @ [?ve]" w1 r evs w'] nt
      show ?thesis
        by (intro exI [of _ "[?ve]"]) (auto simp: verify_phase_def verify_event_def)
    next
      case False
      with assms rv v have "fail_phase env cfg (pi_run_dir inp) (initial + of_nat (max 1 (length (so_attempts out))))
          (map_option hitl_of_report rep) (VerifyFailedErr (cf_phase cfg) sel hr) (pre @ [?ve]) w1 = ((r, evs), w')"
        by (auto simp: verify_phase_def Let_def)
      from fail_phase_ends [OF this] nt show ?thesis by (intro exI [of _ "[?ve]"]) auto
    qed
  qed
qed

lemma after_strategy_ends:
  assumes "after_strategy env cfg inp initial out pre w = Some ((r, evs), w')"
  shows "\<exists>vs. ends_with_event (pre @ vs) r evs \<and>
    (\<forall>x. r = Inr x \<longrightarrow> po_output x = out \<and> (\<exists>us. vs = AggregatorFold (aggregator_name_str (cf_aggregator cfg)) (length (so_attempts out)) # us \<and>
       (if cf_verify cfg = VhNone then us = [] \<and> po_verify x = None
        else po_verify x = Some HookPass \<and> (\<exists>m h. us = [VerifyEvent (verify_hook_name_str (cf_verify cfg)) True m h])))) \<and>
    (\<forall>v \<in> set vs. \<not> is_terminal v)"
proof -
  let ?fold = "AggregatorFold (aggregator_name_str (cf_aggregator cfg)) (length (so_attempts out))"
  obtain rs w1 where st: "start_attempts env (components (pi_run_dir inp)) (cf_phase cfg) initial [1..<length (so_attempts out)] w = (rs, w1)"
    by (metis prod.exhaust)
  show ?thesis
  proof (cases rs)
    case (Inl e)
    with assms st show ?thesis by (intro exI [of _ "[]"]) (auto simp: after_strategy_def ends_with_event_def)
  next
    case (Inr u)
    show ?thesis
    proof (cases "canonical_bytes (rn_files env) (pi_run_dir inp) w1 out (resolve_aggregator (cf_aggregator cfg)) :: (run_error, bytes \<times> 32 word) result")
      case (Inl err)
      with assms st Inr have "fail_phase env cfg (pi_run_dir inp) (initial + of_nat (max 1 (length (so_attempts out)))) None err pre w1 = ((r, evs), w')"
        by (auto simp: after_strategy_def Let_def)
      from fail_phase_ends [OF this] show ?thesis by (intro exI [of _ "[]"]) auto
    next
      case cb: (Inr cs)
      obtain content sel where cs: "cs = (content, sel)" by (cases cs)
      with assms st Inr cb have "verify_phase env cfg inp initial out content sel (pre @ [?fold]) w1 = Some ((r, evs), w')"
        by (auto simp: after_strategy_def Let_def)
      from verify_phase_ends [OF this] obtain us where us: "ends_with_event ((pre @ [?fold]) @ us) r evs"
        "\<forall>x. r = Inr x \<longrightarrow> po_output x = out \<and> (if cf_verify cfg = VhNone then us = [] \<and> po_verify x = None
           else po_verify x = Some HookPass \<and> (\<exists>m h. us = [VerifyEvent (verify_hook_name_str (cf_verify cfg)) True m h]))"
        "\<forall>v \<in> set us. \<not> is_terminal v" by (elim exE conjE)
      then show ?thesis by (intro exI [of _ "?fold # us"]) auto
    qed
  qed
qed

text \<open>How a run ends: before its strategy has answered, or in what follows the answer.\<close>

lemma run_stages:
  fixes w :: 'w
  assumes "run env cfg inp initial w = Some ((r, evs), w')"
  shows "(\<exists>e pre. r = Inl e \<and> set pre \<subseteq> {PhaseStarted (phase_span_of cfg (pc_run_id (pi_ctx inp)))} \<and> ends_with_event pre r evs) \<or>
    (\<exists>out w2. after_strategy env cfg inp initial out (PhaseStarted (phase_span_of cfg (pc_run_id (pi_ctx inp))) #
       map backend_event (enumerate 0 (so_attempts out))) w2 = Some ((r, evs), w'))"
proof -
  let ?pre = "[PhaseStarted (phase_span_of cfg (pc_run_id (pi_ctx inp)))]"
  have quietly: ?thesis if "evs = pre" "r = Inl e" "silent e" "set pre \<subseteq> set ?pre" for e pre
    using that by (intro disjI1 exI [of _ e] exI [of _ pre]) (simp add: ends_with_event_def)
  obtain rv where v: "(validate_config cfg :: (run_error, unit) result) = rv" by simp
  obtain rs w1 where st: "start_attempt env (components (pi_run_dir inp)) (cf_phase cfg) initial w = (rs, w1)"
    by (metis prod.exhaust)
  show ?thesis
  proof (cases rv)
    case (Inl e)
    with v have "silent e" by (auto simp: validate_config_def Let_def split: if_splits)
    with assms v Inl show ?thesis by (intro quietly [of "[]" e]) (simp_all add: run_def)
  next
    case vok: (Inr u)
    show ?thesis
    proof (cases rs)
      case (Inl e)
      with assms v vok st show ?thesis by (intro quietly [of "[]" "MarkerErr e"]) (simp_all add: run_def)
    next
      case sok: (Inr u')
      obtain rr :: "(run_error, 'w strategy) result" where rr: "resolve_strategy (rn_redact env) cfg (pi_verify inp) = Some rr"
        using assms v vok st sok by (auto simp: run_def Let_def split: option.splits)
      show ?thesis
      proof (cases rr)
        case (Inl e)
        with rr have "silent e" by (auto simp: resolve_strategy_def split: strategy_name.splits option.splits)
        with assms v vok st sok rr Inl show ?thesis by (intro quietly [of ?pre e]) (auto simp: run_def)
      next
        case strat: (Inr strategy)
        obtain ro w2 where ex: "execute_strategy (rn_fan env) strategy (pi_backends inp) (pi_prompt inp)
            ((pi_ctx inp)\<lparr>pc_cwd := pi_run_dir inp\<rparr>) w1 = (ro, w2)" by (metis prod.exhaust)
        note stages = assms v vok st sok rr strat ex
        show ?thesis
        proof (cases ro)
          case (Inl err)
          with stages have "fail_phase env cfg (pi_run_dir inp) (initial + 1) None (strategy_failure err) ?pre w2 = ((r, evs), w')"
            by (simp add: run_def)
          from fail_phase_ends [OF this] show ?thesis by (intro disjI1 exI [of _ "strategy_failure err"] exI [of _ ?pre]) auto
        next
          case (Inr out)
          with stages show ?thesis by (intro disjI2 exI [of _ out] exI [of _ w2]) (simp add: run_def)
        qed
      qed
    qed
  qed
qed

text \<open>
  C11: What a run leaves in the trace. A success starts the span, reports the attempts in order, the
  aggregation and a passing verification if one is configured, and finishes the span; a failure
  never finishes it. A failure reports its error as the last event, or nothing at all: the errors of
  the configuration, of hooks that could not run, of markers, manifest and files leave the span
  open. A run whose verification did not pass never succeeds.
\<close>

theorem run_trace_shape:
  fixes w :: 'w
  assumes "run env cfg inp initial w = Some ((r, evs), w')"
  shows "(\<forall>x. r = Inr x \<longrightarrow> (\<exists>us. evs = PhaseStarted (phase_span_of cfg (pc_run_id (pi_ctx inp))) #
      map backend_event (enumerate 0 (so_attempts (po_output x))) @
      AggregatorFold (aggregator_name_str (cf_aggregator cfg)) (length (so_attempts (po_output x))) # us @ [PhaseFinished ''success''] \<and>
      (if cf_verify cfg = VhNone then us = [] \<and> po_verify x = None
       else po_verify x = Some HookPass \<and> (\<exists>m h. us = [VerifyEvent (verify_hook_name_str (cf_verify cfg)) True m h])))) \<and>
    (\<forall>e. r = Inl e \<longrightarrow> (\<exists>pre. (\<forall>v \<in> set pre. \<not> is_terminal v) \<and>
       (evs = pre @ [ErrorEvent (error_class e) e] \<or> (evs = pre \<and> silent e))))"
proof -
  let ?started = "PhaseStarted (phase_span_of cfg (pc_run_id (pi_ctx inp)))"
  from run_stages [OF assms] show ?thesis
  proof (elim disjE exE conjE)
    fix e pre assume "r = Inl e" "set pre \<subseteq> {?started}" "ends_with_event pre r evs"
    then show ?thesis by (auto simp: ends_with_event_def intro!: exI [of _ pre])
  next
    fix out :: strategy_output and w2 :: 'w
    let ?b = "?started # map backend_event (enumerate 0 (so_attempts out))"
    assume "after_strategy env cfg inp initial out ?b w2 = Some ((r, evs), w')"
    from after_strategy_ends [OF this] obtain vs where vs: "ends_with_event (?b @ vs) r evs"
      "\<forall>x. r = Inr x \<longrightarrow> po_output x = out \<and> (\<exists>us. vs = AggregatorFold (aggregator_name_str (cf_aggregator cfg)) (length (so_attempts out)) # us \<and>
         (if cf_verify cfg = VhNone then us = [] \<and> po_verify x = None
          else po_verify x = Some HookPass \<and> (\<exists>m h. us = [VerifyEvent (verify_hook_name_str (cf_verify cfg)) True m h])))"
      "\<forall>v \<in> set vs. \<not> is_terminal v" by (elim exE conjE)
    have nb: "\<forall>v \<in> set ?b. \<not> is_terminal v" by (auto simp: backend_event_def)
    show ?thesis
    proof (cases r)
      case (Inl e)
      with vs(1,3) nb show ?thesis by (auto simp: ends_with_event_def intro!: exI [of _ "?b @ vs"])
    next
      case (Inr x)
      with vs(1,2) show ?thesis by (auto simp: ends_with_event_def)
    qed
  qed
qed

end
