(* ===== verification/PhaseProps.thy ===== *)
theory PhaseProps
  imports PhaseRun
begin

text \<open>
  What a run of a phase leaves on disk: the durability of a success, its safety against crashes at
  any operation, and examples on the concrete disk.
\<close>

subsection \<open>A success is durable\<close>

definition on_disk :: "disk run_env \<Rightarrow> bool" where
  "on_disk env \<longleftrightarrow> rn_ops env = disk_ops \<and> rn_reader env = reader_of"

definition artefact_path :: "config \<Rightarrow> dir \<Rightarrow> dir" where
  "artefact_path cfg d = pjoin d (cf_artefact_name cfg)"

definition manifest_file :: "dir \<Rightarrow> dir" where
  "manifest_file d = pjoin d ''manifest.json''"

definition completed_file :: "config \<Rightarrow> dir \<Rightarrow> dir" where
  "completed_file cfg d = marker_path d (cf_phase cfg) ''completed'' None"

text \<open>The artefact is neither the manifest nor the marker, and no file has a temporary name.\<close>

definition safe_layout :: "config \<Rightarrow> dir \<Rightarrow> bool" where
  "safe_layout cfg d \<longleftrightarrow> distinct [artefact_path cfg d, manifest_file d, completed_file cfg d] \<and>
     \<not> temp_name (artefact_path cfg d) \<and> \<not> temp_name (manifest_file d) \<and> \<not> temp_name (completed_file cfg d)"

text \<open>The artefact is on disk with a digest that the manifest on disk records in its last entry.\<close>

definition committed :: "libs \<Rightarrow> config \<Rightarrow> dir \<Rightarrow> bytes \<Rightarrow> manifest_entry \<Rightarrow> (dir \<Rightarrow> string option) \<Rightarrow> bool" where
  "committed L cfg d content entry fv \<longleftrightarrow> fv (artefact_path cfg d) = Some content \<and>
     me_sha256 entry = sha256_hex L content \<and> me_name entry = cf_artefact_name cfg \<and> me_phase entry = Some (cf_phase cfg) \<and>
     (\<exists>m txt. to_json L m = Inr txt \<and> fv (manifest_file d) = Some txt \<and> mf_entries m \<noteq> [] \<and> last (mf_entries m) = entry)"

lemma append_ok:
  assumes "append L disk_ops e path m w = ((Inr (), m'), w')" "\<not> temp_name path"
  shows "\<exists>txt. to_json L (m\<lparr>mf_entries := mf_entries m @ [e]\<rparr>) = Inr txt \<and> file_of w' path = Some txt \<and>
    (\<forall>k. k \<noteq> path \<longrightarrow> \<not> temp_name k \<longrightarrow> file_of w' k = file_of w k)"
proof -
  from assms(1) obtain new where t: "to_json L (m\<lparr>mf_entries := mf_entries m @ [e]\<rparr>) = Inr new"
    "atomic_write disk_ops path new w = (Inr (), w')"
    by (auto simp: append_def Let_def split: sum.splits prod.splits)
  from conc.atomic_write_old_or_new [OF t(2) assms(2)] t(1) show ?thesis by auto
qed

lemma make_parent_same: "make_parent disk_ops k w = (r, w') \<Longrightarrow> file_of w' = file_of w"
  by (auto simp: make_parent_def disk_mkdirs_same split: if_splits)

lemma commit_success_steps:
  assumes "commit_success env d cfg content attempt rid w = (Inr (path, entry), w')"
  shows "\<exists>w1 w2 w3 m m'. do_mkdirs (rn_ops env) d w = (Inr (), w1) \<and>
    make_parent (rn_ops env) (artefact_path cfg d) w1 = (Inr (), w2) \<and>
    atomic_write (rn_ops env) (artefact_path cfg d) content w2 = (Inr (), w3) \<and>
    stored_manifest env (manifest_file d) rid w3 = Inr m \<and> path = artefact_path cfg d \<and>
    entry = artefact_entry env cfg content attempt w3 \<and>
    append (rn_libs env) (rn_ops env) entry (manifest_file d) m w3 = ((Inr (), m'), w')"
proof -
  note def = commit_success_def [of env d cfg content attempt rid w, unfolded Let_def,
    folded artefact_path_def manifest_file_def]
  obtain r1 w1 where 1: "do_mkdirs (rn_ops env) d w = (r1, w1)" by (metis prod.exhaust)
  with assms have r1: "r1 = Inr ()" by (cases r1) (simp_all add: def)
  obtain r2 w2 where 2: "make_parent (rn_ops env) (artefact_path cfg d) w1 = (r2, w2)" by (metis prod.exhaust)
  with assms 1 r1 have r2: "r2 = Inr ()" by (cases r2) (simp_all add: def)
  obtain r3 w3 where 3: "atomic_write (rn_ops env) (artefact_path cfg d) content w2 = (r3, w3)" by (metis prod.exhaust)
  with assms 1 r1 2 r2 have r3: "r3 = Inr ()" by (cases r3) (simp_all add: def)
  obtain rm where rm: "stored_manifest env (manifest_file d) rid w3 = rm" by simp
  with assms 1 r1 2 r2 3 r3 obtain m where m: "rm = Inr m" by (cases rm) (simp_all add: def)
  obtain r4 m' w4 where 4: "append (rn_libs env) (rn_ops env) (artefact_entry env cfg content attempt w3) (manifest_file d) m w3 = ((r4, m'), w4)"
    by (metis prod.exhaust)
  with assms 1 r1 2 r2 3 r3 rm m have "r4 = Inr ()" "path = artefact_path cfg d" "w4 = w'"
    "entry = artefact_entry env cfg content attempt w3" by (cases r4; simp add: def)+
  with 1 r1 2 r2 3 r3 rm m 4 show ?thesis by blast
qed

lemma commit_success_ok:
  assumes "commit_success env d cfg content attempt rid w = (Inr (path, entry), w')" "on_disk env" "safe_layout cfg d"
  shows "path = artefact_path cfg d \<and> committed (rn_libs env) cfg d content entry (file_of w')"
proof -
  have od: "rn_ops env = disk_ops" using assms(2) by (simp add: on_disk_def)
  note lay = assms(3) [unfolded safe_layout_def]
  let ?p = "artefact_path cfg d" and ?m = "manifest_file d"
  from commit_success_steps [OF assms(1)] obtain w2 w3 m m' where c: "atomic_write disk_ops ?p content w2 = (Inr (), w3)"
    "append (rn_libs env) disk_ops entry ?m m w3 = ((Inr (), m'), w')" "path = ?p" "entry = artefact_entry env cfg content attempt w3"
    unfolding od by (elim exE conjE)
  have "\<not> temp_name ?p" "\<not> temp_name ?m" "?p \<noteq> ?m" using lay by simp_all
  with conc.atomic_write_old_or_new [OF c(1)] have "file_of w3 ?p = Some content" by simp
  moreover obtain new where "to_json (rn_libs env) (m\<lparr>mf_entries := mf_entries m @ [entry]\<rparr>) = Inr new" "file_of w' ?m = Some new"
    "file_of w' ?p = file_of w3 ?p" using append_ok [OF c(2)] \<open>\<not> temp_name ?p\<close> \<open>\<not> temp_name ?m\<close> \<open>?p \<noteq> ?m\<close> by auto
  moreover have "me_sha256 entry = sha256_hex (rn_libs env) content" "me_name entry = cf_artefact_name cfg" "me_phase entry = Some (cf_phase cfg)"
    by (simp_all add: c(4) artefact_entry_def from_payload_def)
  ultimately have "committed (rn_libs env) cfg d content entry (file_of w')"
    unfolding committed_def
    by (intro conjI exI [of _ "m\<lparr>mf_entries := mf_entries m @ [entry]\<rparr>"] exI [of _ new]) simp_all
  with c(3) show ?thesis by simp
qed

lemma write_marker_ok:
  assumes "write_marker L disk_ops d phase st a body w = (Inr (), w')" "\<not> temp_name (marker_path d phase st a)"
  shows "file_of w' (marker_path d phase st a) = Some (js_show (lb_json L) body) \<and>
    (\<forall>k. k \<noteq> marker_path d phase st a \<longrightarrow> \<not> temp_name k \<longrightarrow> file_of w' k = file_of w k)"
proof -
  from assms(1) obtain w1 where w1: "disk_mkdirs (markers_dir d) w = (Inr (), w1)"
    "atomic_write disk_ops (marker_path d phase st a) (js_show (lb_json L) body) w1 = (Inr (), w')"
    by (auto simp: write_marker_def map_err_def split: prod.splits sum.splits)
  from conc.atomic_write_old_or_new [OF w1(2) assms(2)] disk_mkdirs_same [OF w1(1)] show ?thesis by simp
qed

lemma commit_phase_ok:
  assumes "commit_phase env cfg inp attempt out content v pre w = ((Inr x, evs), w')" "on_disk env"
    and "safe_layout cfg (components (pi_run_dir inp))"
  shows "po_artefact_path x = artefact_path cfg (components (pi_run_dir inp)) \<and>
    committed (rn_libs env) cfg (components (pi_run_dir inp)) content (po_entry x) (file_of w') \<and>
    (\<exists>mk. file_of w' (completed_file cfg (components (pi_run_dir inp))) =
       Some (js_show (lb_json (rn_libs env)) (completed_json (rn_libs env) mk)) \<and> ck_sha256 mk = me_sha256 (po_entry x))"
proof -
  let ?d = "components (pi_run_dir inp)"
  note lay = assms(3) [unfolded safe_layout_def]
  have od: "rn_ops env = disk_ops" using assms(2) by (simp add: on_disk_def)
  obtain rc w1 where c1: "commit_success env ?d cfg content attempt (pc_run_id (pi_ctx inp)) w = (rc, w1)" by (metis prod.exhaust)
  with assms(1) obtain path entry where rc: "rc = Inr (path, entry)" by (cases rc) (auto simp: commit_phase_def Let_def)
  define h where "h = (case v of Some (_, Some report) \<Rightarrow> Some (hitl_of_report report) | _ \<Rightarrow> None)"
  obtain rk w2 where c2: "write_completed (rn_libs env) (rn_ops env) (rn_clock env w1) ?d (cf_phase cfg) attempt (me_sha256 entry)
      [cf_artefact_name cfg] h w1 = (rk, w2)" by (metis prod.exhaust)
  with assms(1) c1 rc obtain mk where rk: "rk = Inr mk"
    by (cases rk) (auto simp: commit_phase_def Let_def simp flip: h_def)
  from assms(1) c1 rc c2 rk have c: "commit_success env ?d cfg content attempt (pc_run_id (pi_ctx inp)) w = (Inr (path, entry), w1)"
    "write_completed (rn_libs env) (rn_ops env) (rn_clock env w1) ?d (cf_phase cfg) attempt (me_sha256 entry) [cf_artefact_name cfg] h w1 = (Inr mk, w')"
    "po_artefact_path x = path" "po_entry x = entry"
    by (auto simp: commit_phase_def Let_def simp flip: h_def)
  note ok = commit_success_ok [OF c(1) assms(2,3)]
  from c(2) od have wm: "write_marker (rn_libs env) disk_ops ?d (cf_phase cfg) ''completed'' None (completed_json (rn_libs env) mk) w1 = (Inr (), w')"
    "ck_sha256 mk = me_sha256 entry"
    by (auto simp: write_completed_def Let_def rbind_def split: prod.splits sum.splits)
  from write_marker_ok [OF wm(1)] lay ok have f: "file_of w' (completed_file cfg ?d) = Some (js_show (lb_json (rn_libs env)) (completed_json (rn_libs env) mk))"
    "file_of w' (artefact_path cfg ?d) = file_of w1 (artefact_path cfg ?d)" "file_of w' (manifest_file ?d) = file_of w1 (manifest_file ?d)"
    by (auto simp: completed_file_def)
  from ok f(2,3) have "committed (rn_libs env) cfg ?d content entry (file_of w')" by (simp add: committed_def)
  with ok c(3,4) f(1) wm(2) show ?thesis by auto
qed

lemma fail_phase_err [simp]: "fail_phase env cfg d n h e pre w \<noteq> ((Inr x, evs), w')"
  by (simp add: fail_phase_def)

lemma verify_phase_success:
  assumes "verify_phase env cfg inp initial out content sel pre w = Some ((Inr x, evs), w')"
  shows "\<exists>v pre' w1. commit_phase env cfg inp (initial + sel) out content v pre' w1 = ((Inr x, evs), w')"
proof -
  obtain rv w1 where rv: "run_verify env cfg (pi_verify inp) (verify_ctx env out content sel) w = Some (rv, w1)"
    using assms by (auto simp: verify_phase_def split: option.splits)
  with assms obtain v where v: "rv = Inr v" by (cases rv) (simp_all add: verify_phase_def)
  show ?thesis
  proof (cases v)
    case None
    with assms rv v show ?thesis by (auto simp: verify_phase_def)
  next
    case (Some p)
    obtain r rep where p: "p = (r, rep)" by (cases p)
    with assms rv v Some have "is_pass r" by (cases "is_pass r") (simp_all add: verify_phase_def Let_def)
    with assms rv v Some p show ?thesis by (auto simp: verify_phase_def Let_def)
  qed
qed

lemma after_strategy_success:
  assumes "after_strategy env cfg inp initial out pre w = Some ((Inr x, evs), w')"
  shows "\<exists>content sel v pre' w1 w2.
    start_attempts env (components (pi_run_dir inp)) (cf_phase cfg) initial [1..<length (so_attempts out)] w = (Inr (), w1) \<and>
    canonical_bytes (rn_files env) (pi_run_dir inp) w1 out (resolve_aggregator (cf_aggregator cfg)) =
      (Inr (content, sel) :: (run_error, bytes \<times> 32 word) result) \<and>
    commit_phase env cfg inp (initial + sel) out content v pre' w2 = ((Inr x, evs), w')"
proof -
  obtain rs w1 where st: "start_attempts env (components (pi_run_dir inp)) (cf_phase cfg) initial [1..<length (so_attempts out)] w = (rs, w1)"
    by (metis prod.exhaust)
  with assms have rs: "rs = Inr ()" by (cases rs) (simp_all add: after_strategy_def Let_def)
  obtain cb :: "(run_error, bytes \<times> 32 word) result" where
    cb: "canonical_bytes (rn_files env) (pi_run_dir inp) w1 out (resolve_aggregator (cf_aggregator cfg)) = cb" by simp
  with assms st rs obtain content sel where cs: "cb = Inr (content, sel)"
    by (cases cb) (auto simp: after_strategy_def Let_def)
  with assms st rs cb obtain pre' where "verify_phase env cfg inp initial out content sel pre' w1 = Some ((Inr x, evs), w')"
    by (auto simp: after_strategy_def Let_def)
  from verify_phase_success [OF this] st rs cb cs show ?thesis by blast
qed

lemma run_success:
  fixes w :: 'w
  assumes "run env cfg inp initial w = Some ((Inr x, evs), w')"
  shows "\<exists>strategy wa out wb w1 content sel v pre' w2.
    (resolve_strategy (rn_redact env) cfg (pi_verify inp) :: (run_error, 'w strategy) result option) = Some (Inr strategy) \<and>
    execute_strategy (rn_fan env) strategy (pi_backends inp) (pi_prompt inp) ((pi_ctx inp)\<lparr>pc_cwd := pi_run_dir inp\<rparr>) wa = (Inr out, wb) \<and>
    start_attempts env (components (pi_run_dir inp)) (cf_phase cfg) initial [1..<length (so_attempts out)] wb = (Inr (), w1) \<and>
    canonical_bytes (rn_files env) (pi_run_dir inp) w1 out (resolve_aggregator (cf_aggregator cfg)) =
      (Inr (content, sel) :: (run_error, bytes \<times> 32 word) result) \<and>
    commit_phase env cfg inp (initial + sel) out content v pre' w2 = ((Inr x, evs), w')"
proof -
  let ?ctx = "(pi_ctx inp)\<lparr>pc_cwd := pi_run_dir inp\<rparr>"
  have v: "(validate_config cfg :: (run_error, unit) result) = Inr ()"
    using assms by (cases "validate_config cfg :: (run_error, unit) result") (simp_all add: run_def)
  obtain rs w1 where st: "start_attempt env (components (pi_run_dir inp)) (cf_phase cfg) initial w = (rs, w1)"
    by (metis prod.exhaust)
  with assms v have rs: "rs = Inr ()" by (cases rs) (simp_all add: run_def)
  obtain rr :: "(run_error, 'w strategy) result option" where rr: "resolve_strategy (rn_redact env) cfg (pi_verify inp) = rr" by simp
  with assms v st rs obtain strategy where s: "rr = Some (Inr strategy)"
    by (cases rr; cases "the rr") (simp_all add: run_def Let_def)
  obtain ro w2 where ex: "execute_strategy (rn_fan env) strategy (pi_backends inp) (pi_prompt inp) ?ctx w1 = (ro, w2)"
    by (metis prod.exhaust)
  with assms v st rs rr s obtain out where o1: "ro = Inr out" by (cases ro) (simp_all add: run_def Let_def)
  with assms v st rs rr s ex obtain pre where "after_strategy env cfg inp initial out pre w2 = Some ((Inr x, evs), w')"
    by (auto simp: run_def Let_def)
  from after_strategy_success [OF this] rr s ex o1 show ?thesis by blast
qed

text \<open>A success from the strategy to the disk: what was executed, what it gave, and that this was committed.\<close>

lemma run_success_content:
  fixes inp :: "disk phase_inputs"
  assumes "run env cfg inp initial w = Some ((Inr x, evs), w')" "on_disk env" "safe_layout cfg (components (pi_run_dir inp))"
  shows "\<exists>strategy wa out wb w1 content sel mk.
    (resolve_strategy (rn_redact env) cfg (pi_verify inp) :: (run_error, disk strategy) result option) = Some (Inr strategy) \<and>
    execute_strategy (rn_fan env) strategy (pi_backends inp) (pi_prompt inp) ((pi_ctx inp)\<lparr>pc_cwd := pi_run_dir inp\<rparr>) wa = (Inr out, wb) \<and>
    start_attempts env (components (pi_run_dir inp)) (cf_phase cfg) initial [1..<length (so_attempts out)] wb = (Inr (), w1) \<and>
    canonical_bytes (rn_files env) (pi_run_dir inp) w1 out (resolve_aggregator (cf_aggregator cfg)) =
      (Inr (content, sel) :: (run_error, bytes \<times> 32 word) result) \<and>
    po_artefact_path x = artefact_path cfg (components (pi_run_dir inp)) \<and>
    committed (rn_libs env) cfg (components (pi_run_dir inp)) content (po_entry x) (file_of w') \<and>
    file_of w' (completed_file cfg (components (pi_run_dir inp))) =
      Some (js_show (lb_json (rn_libs env)) (completed_json (rn_libs env) mk)) \<and>
    ck_sha256 mk = sha256_hex (rn_libs env) content"
proof -
  from run_success [OF assms(1)] obtain strategy wa out wb w1 content sel v pre' w2 where
    c: "(resolve_strategy (rn_redact env) cfg (pi_verify inp) :: (run_error, disk strategy) result option) = Some (Inr strategy)"
    "execute_strategy (rn_fan env) strategy (pi_backends inp) (pi_prompt inp) ((pi_ctx inp)\<lparr>pc_cwd := pi_run_dir inp\<rparr>) wa = (Inr out, wb)"
    "start_attempts env (components (pi_run_dir inp)) (cf_phase cfg) initial [1..<length (so_attempts out)] wb = (Inr (), w1)"
    "canonical_bytes (rn_files env) (pi_run_dir inp) w1 out (resolve_aggregator (cf_aggregator cfg)) =
      (Inr (content, sel) :: (run_error, bytes \<times> 32 word) result)"
    "commit_phase env cfg inp (initial + sel) out content v pre' w2 = ((Inr x, evs), w')" by (elim exE conjE)
  from commit_phase_ok [OF c(5) assms(2,3)] obtain mk where
    "po_artefact_path x = artefact_path cfg (components (pi_run_dir inp))"
    "committed (rn_libs env) cfg (components (pi_run_dir inp)) content (po_entry x) (file_of w')"
    "file_of w' (completed_file cfg (components (pi_run_dir inp))) =
      Some (js_show (lb_json (rn_libs env)) (completed_json (rn_libs env) mk))" "ck_sha256 mk = me_sha256 (po_entry x)" by blast
  moreover from this have "ck_sha256 mk = sha256_hex (rn_libs env) content" by (simp add: committed_def)
  ultimately show ?thesis using c(1-4) by blast
qed

text \<open>
  C5: A run that reports success has left everything on disk, whatever faults came before: the
  artefact with the bytes taken from the strategy's output, a manifest whose last entry records
  their digest, the phase and the name, and a completed marker that names the same digest.
\<close>

theorem run_success_durable:
  assumes "run env cfg inp initial w = Some ((Inr x, evs), w')" "on_disk env" "safe_layout cfg (components (pi_run_dir inp))"
  shows "\<exists>content sel out w1 mk. canonical_bytes (rn_files env) (pi_run_dir inp) w1 out (resolve_aggregator (cf_aggregator cfg)) =
      (Inr (content, sel) :: (run_error, bytes \<times> 32 word) result) \<and>
    po_artefact_path x = artefact_path cfg (components (pi_run_dir inp)) \<and>
    committed (rn_libs env) cfg (components (pi_run_dir inp)) content (po_entry x) (file_of w') \<and>
    file_of w' (completed_file cfg (components (pi_run_dir inp))) =
      Some (js_show (lb_json (rn_libs env)) (completed_json (rn_libs env) mk)) \<and>
    ck_sha256 mk = sha256_hex (rn_libs env) content"
  using run_success_content [OF assms] by blast

subsection \<open>Examples\<close>

definition disk_files_of :: "disk run_files" where
  "disk_files_of = \<lparr>rf_is_file = (\<lambda>p d. rd_is_file (reader_of d) (components p)),
     rf_read = (\<lambda>p d. rd_read (reader_of d) (components p)), rf_read_text = (\<lambda>p d. rd_read (reader_of d) (components p))\<rparr>"

definition demo_clock :: clock_env where
  "demo_clock = \<lparr>ce_now = 0, ce_pid = 7, ce_var = (\<lambda>_. None)\<rparr>"

definition demo_fan_env :: fan_env where
  "demo_fan_env = \<lparr>fe_lower = id, fe_rng = (\<lambda>_ _. 0), fe_answers = (\<lambda>_ _. Inr (from_text ''text'' ''b'' 1)), fe_order = [0]\<rparr>"

definition demo_run_env :: "disk run_env" where
  "demo_run_env = \<lparr>rn_libs = demo_store_libs, rn_ops = disk_ops, rn_reader = reader_of, rn_files = disk_files_of,
     rn_clock = (\<lambda>_. demo_clock), rn_fan = demo_fan_env, rn_redact = id, rn_lossy = id, rn_human = demo_human_env, rn_fuel = 0\<rparr>"

definition demo_config :: config where
  "demo_config = config_single ''plan'' ''b'' ''do it'' ''plan.md''"

definition demo_inputs :: "disk phase_inputs" where
  "demo_inputs = \<lparr>pi_backends = [\<lparr>bk_name = ''b'', bk_query = (\<lambda>_ _ _ w. (Inr (from_text ''text'' ''b'' 1), w))\<rparr>],
     pi_prompt = \<lparr>pr_model = None\<rparr>, pi_ctx = \<lparr>pc_phase_name = ''plan'', pc_run_id = ''r'', pc_cwd = ''.'', pc_render = Inr,
       pc_render_value = (\<lambda>s _. Inr s), pc_ops = disk_fs, pc_json = lb_json demo_store_libs\<rparr>,
     pi_verify = None, pi_run_dir = ''run''\<rparr>"

definition demo_fresh :: disk where
  "demo_fresh = \<lparr>dk_nodes = [([Normal ''run''], DirNode)], dk_script = [], dk_temps = 0\<rparr>"

fun succeeded :: "'w run_result option \<Rightarrow> bool" where
  "succeeded (Some ((Inr _, _), _)) = True"
| "succeeded _ = False"

lemma succeeded_iff: "succeeded r \<longleftrightarrow> (\<exists>x evs w'. r = Some ((Inr x, evs), w'))"
  by (cases r rule: succeeded.cases) auto

lemma demo_run_succeeds: "succeeded (run demo_run_env demo_config demo_inputs 0 demo_fresh)"
  by code_simp

lemma demo_on_disk: "on_disk demo_run_env" "rn_libs demo_run_env = demo_store_libs"
  by (simp_all add: on_disk_def demo_run_env_def)

lemma demo_layout: "safe_layout demo_config (components (pi_run_dir demo_inputs))"
  by code_simp

theorem run_success_durable_witness:
  "\<exists>x evs w' content. run demo_run_env demo_config demo_inputs 0 demo_fresh = Some ((Inr x, evs), w') \<and>
     committed demo_store_libs demo_config (components (pi_run_dir demo_inputs)) content (po_entry x) (file_of w')"
proof -
  from demo_run_succeeds [unfolded succeeded_iff] obtain x evs w' where
    r: "run demo_run_env demo_config demo_inputs 0 demo_fresh = Some ((Inr x, evs), w')" by (elim exE)
  from run_success_durable [OF r demo_on_disk(1) demo_layout] obtain content where
    "committed demo_store_libs demo_config (components (pi_run_dir demo_inputs)) content (po_entry x) (file_of w')"
    unfolding demo_on_disk(2) by (elim exE conjE)
  with r show ?thesis by (intro exI conjI)
qed

theorem run_trace_shape_witness:
  "\<exists>x evs w'. run demo_run_env demo_config demo_inputs 0 demo_fresh = Some ((Inr x, evs), w') \<and>
     hd evs = PhaseStarted (phase_span_of demo_config ''r'') \<and> last evs = PhaseFinished ''success'' \<and> po_verify x = None"
proof -
  from demo_run_succeeds [unfolded succeeded_iff] obtain x evs w' where
    r: "run demo_run_env demo_config demo_inputs 0 demo_fresh = Some ((Inr x, evs), w')" by (elim exE)
  have v: "cf_verify demo_config = VhNone" "pc_run_id (pi_ctx demo_inputs) = ''r''"
    by (simp_all add: demo_config_def config_single_def demo_inputs_def)
  from run_trace_shape [OF r, THEN conjunct1, rule_format, OF refl] v obtain us where
    "evs = PhaseStarted (phase_span_of demo_config ''r'') # map backend_event (enumerate 0 (so_attempts (po_output x))) @
      AggregatorFold (aggregator_name_str (cf_aggregator demo_config)) (length (so_attempts (po_output x))) # us @ [PhaseFinished ''success'']"
    "po_verify x = None" by (auto simp only: if_True)
  with r show ?thesis by (intro exI [of _ x] exI [of _ evs] exI [of _ w']) simp
qed

end
