(* ===== verification/CrashSafety.thy ===== *)
theory CrashSafety
  imports PhaseProps
begin

text \<open>
  Crashes between any two operations: the commit of a phase is run on a disk that keeps the list
  of all the states it has been in (newest first), and what a crash would leave behind is one of
  them.
\<close>

subsection \<open>A disk with its history\<close>

definition journaled :: "(disk \<Rightarrow> 'r \<times> disk) \<Rightarrow> disk list \<Rightarrow> 'r \<times> disk list" where
  "journaled f h = (case f (hd h) of (r, d) \<Rightarrow> (r, d # h))"

definition journal_ops :: "disk list disk_ops" where
  "journal_ops = \<lparr>do_temp = (\<lambda>k. journaled (disk_temp k)), do_write = (\<lambda>k c. journaled (disk_write k c)),
     do_sync = (\<lambda>k. journaled (disk_sync k)), do_rename = (\<lambda>a b. journaled (disk_rename a b)),
     do_unlink = (\<lambda>k. journaled (disk_unlink k)), do_mkdirs = (\<lambda>k. journaled (disk_mkdirs k))\<rparr>"

lemma journal_ops_simps [simp]:
  "do_temp journal_ops k = journaled (disk_temp k)" "do_write journal_ops k c = journaled (disk_write k c)"
  "do_sync journal_ops k = journaled (disk_sync k)" "do_rename journal_ops a b = journaled (disk_rename a b)"
  "do_unlink journal_ops k = journaled (disk_unlink k)" "do_mkdirs journal_ops k = journaled (disk_mkdirs k)"
  by (simp_all add: journal_ops_def)

lemma journaled_step: "journaled f h = (r, h') \<longleftrightarrow> (\<exists>d. f (hd h) = (r, d) \<and> h' = d # h)"
  by (auto simp: journaled_def split: prod.splits)

text \<open>The journal is a disk store, by the state it is in.\<close>

interpretation journal: disk_store journal_ops "\<lambda>h. file_of (hd h)"
proof
  fix h h' :: "disk list" and k k' a b t :: dir and c :: string and e :: io_error and r
  show "do_temp journal_ops k h = (Inr t, h') \<Longrightarrow> file_of (hd h) t = None \<and> temp_name t \<and> file_of (hd h') = (file_of (hd h))(t \<mapsto> [])"
    using conc.temp_new by (auto simp: journaled_step)
  show "do_temp journal_ops k h = (Inl e, h') \<Longrightarrow> file_of (hd h') = file_of (hd h)"
    using conc.temp_fail by (auto simp: journaled_step)
  show "do_write journal_ops k c h = (Inr (), h') \<Longrightarrow> file_of (hd h') = (file_of (hd h))(k \<mapsto> c)"
    using conc.write_ok by (auto simp: journaled_step)
  show "do_write journal_ops k c h = (Inl e, h') \<Longrightarrow> k' \<noteq> k \<Longrightarrow> file_of (hd h') k' = file_of (hd h) k'"
    using conc.write_frame by (auto simp: journaled_step)
  show "do_sync journal_ops k h = (r, h') \<Longrightarrow> file_of (hd h') = file_of (hd h)"
    using conc.sync_same by (auto simp: journaled_step)
  show "do_rename journal_ops a b h = (Inr (), h') \<Longrightarrow> file_of (hd h') = (file_of (hd h))(a := None, b := file_of (hd h) a)"
    using conc.rename_ok by (auto simp: journaled_step)
  show "do_rename journal_ops a b h = (Inl e, h') \<Longrightarrow> file_of (hd h') = file_of (hd h)"
    using conc.rename_fail by (auto simp: journaled_step)
  show "do_unlink journal_ops k h = (r, h') \<Longrightarrow> file_of (hd h') = file_of (hd h) \<or> file_of (hd h') = (file_of (hd h))(k := None)"
    using conc.unlink_any [of k "hd h" r] by (auto simp: journaled_step)
  show "do_mkdirs journal_ops k h = (r, h') \<Longrightarrow> file_of (hd h') = file_of (hd h)"
    using conc.mkdirs_same by (auto simp: journaled_step)
qed

text \<open>
  A stretch of a run, by the disks it goes through: each keeps every file outside a set of targets
  and, of a target, the old text or the new one.
\<close>

definition keeps :: "dir \<Rightarrow> string \<Rightarrow> (dir \<Rightarrow> string option) \<Rightarrow> disk \<Rightarrow> bool" where
  "keeps k c v d \<longleftrightarrow> (file_of d k = v k \<or> file_of d k = Some c) \<and>
     (\<forall>k'. k' \<noteq> k \<longrightarrow> \<not> temp_name k' \<longrightarrow> file_of d k' = v k')"

lemma keeps_refl: "file_of d = v \<Longrightarrow> keeps k c v d"
  by (simp add: keeps_def)

text \<open>In every state of an atomic write the target has its old contents or all of the new ones.\<close>

lemma journal_atomic_write:
  assumes "atomic_write journal_ops k c h = (r, h')" "\<not> temp_name k"
  shows "\<exists>ds. h' = ds @ h \<and> (\<forall>d \<in> set ds. keeps k c (file_of (hd h)) d)"
proof -
  let ?v = "file_of (hd h)" and ?K = "keeps k c (file_of (hd h))"
  obtain rt d1 where t: "disk_temp (parent_dir k) (hd h) = (rt, d1)" by (metis prod.exhaust)
  show ?thesis
  proof (cases rt)
    case (Inl e)
    with t conc.temp_fail [of "parent_dir k" "hd h" e d1] have "?K d1" by (simp add: keeps_refl)
    with assms(1) t Inl show ?thesis by (intro exI [of _ "[d1]"]) (auto simp: atomic_write_def journaled_def)
  next
    case (Inr tmp)
    note new = conc.temp_new [of "parent_dir k" "hd h" tmp d1, simplified, OF t [unfolded Inr]]
    have kt: "k \<noteq> tmp" using new assms(2) by auto
    have pass: "?K d'" if "?K d" "\<And>k'. k' \<noteq> tmp \<Longrightarrow> file_of d' k' = file_of d k'" for d d'
      using that kt new unfolding keeps_def by metis
    have K1: "?K d1" using new kt by (auto simp: keeps_def)
    obtain r2 d2 where 2: "disk_write tmp c d1 = (r2, d2)" by (metis prod.exhaust)
    have f2: "file_of d2 k' = file_of d1 k'" if "k' \<noteq> tmp" for k'
      using conc.write_ok [of tmp c d1 d2] conc.write_frame [of tmp c d1 _ d2 k'] 2 that by (cases r2) auto
    have K2: "?K d2" by (rule pass [OF K1]) (rule f2)
    have unlink: "?K (snd (disk_unlink tmp d))" if "?K d" for d
      by (rule pass [OF that]) (use conc.unlink_frame [of _ tmp d] in simp)
    show ?thesis
    proof (cases r2)
      case (Inl e)
      with assms(1) t Inr 2 K1 K2 unlink [OF K2] show ?thesis
        by (intro exI [of _ "[snd (disk_unlink tmp d2), d2, d1]"]) (auto simp: atomic_write_def journaled_def split: prod.splits)
    next
      case r2: (Inr u)
      obtain r3 d3 where 3: "disk_sync tmp d2 = (r3, d3)" by (metis prod.exhaust)
      have f3: "file_of d3 = file_of d2" using conc.sync_same 3 by simp
      have K3: "?K d3" using K2 f3 by (simp add: keeps_def)
      show ?thesis
      proof (cases r3)
        case (Inl e)
        with assms(1) t Inr 2 r2 3 K1 K2 K3 unlink [OF K3] show ?thesis
          by (intro exI [of _ "[snd (disk_unlink tmp d3), d3, d2, d1]"]) (auto simp: atomic_write_def journaled_def split: prod.splits)
      next
        case r3: (Inr u)
        obtain r4 d4 where 4: "disk_rename tmp k d3 = (r4, d4)" by (metis prod.exhaust)
        have c3: "file_of d3 tmp = Some c" using conc.write_ok 2 r2 f3 by simp
        show ?thesis
        proof (cases r4)
          case (Inl e)
          have K4: "?K d4" using conc.rename_fail 4 Inl K3 by (simp add: keeps_def)
          with Inl assms(1) t Inr 2 r2 3 r3 4 K1 K2 K3 unlink [OF K4] show ?thesis
            by (intro exI [of _ "[snd (disk_unlink tmp d4), d4, d3, d2, d1]"]) (auto simp: atomic_write_def journaled_def split: prod.splits)
        next
          case r4: (Inr u)
          have f4: "file_of d4 = (file_of d3)(tmp := None, k := file_of d3 tmp)" using conc.rename_ok 4 r4 by simp
          have K4: "?K d4" using K3 new unfolding keeps_def f4 by (auto simp: c3)
          obtain r5 d5 where 5: "disk_sync (parent_dir k) d4 = (r5, d5)" by (metis prod.exhaust)
          have K5: "?K d5" using conc.sync_same 5 K4 by (simp add: keeps_def)
          with assms(1) t Inr 2 r2 3 r3 4 r4 5 K1 K2 K3 K4 show ?thesis
            by (intro exI [of _ "[d5, d4, d3, d2, d1]"]) (auto simp: atomic_write_def journaled_def split: prod.splits)
        qed
      qed
    qed
  qed
qed

subsection \<open>The commit of a phase\<close>

definition journaled_env :: "disk list run_env \<Rightarrow> bool" where
  "journaled_env env \<longleftrightarrow> rn_ops env = journal_ops \<and> rn_reader env = (\<lambda>h. reader_of (hd h))"

lemma journal_mkdirs:
  assumes "do_mkdirs journal_ops k h = (r, h')"
  shows "\<exists>d. h' = d # h \<and> file_of d = file_of (hd h)"
  using assms journal.mkdirs_same [OF assms] by (auto simp: journaled_step)

lemma journal_make_parent:
  assumes "make_parent journal_ops k h = (r, h')"
  shows "\<exists>ds. h' = ds @ h \<and> (\<forall>d \<in> set ds. file_of d = file_of (hd h)) \<and> file_of (hd h') = file_of (hd h)"
proof (cases "k = [] \<or> last k = RootDir \<or> butlast k = []")
  case True
  with assms show ?thesis by (auto simp: make_parent_def intro: exI [of _ "[]"])
next
  case False
  with assms have "do_mkdirs journal_ops (butlast k) h = (r, h')" by (simp add: make_parent_def)
  from journal_mkdirs [OF this] obtain d where "h' = d # h" "file_of d = file_of (hd h)" by auto
  then show ?thesis by (intro exI [of _ "[d]"]) simp
qed

text \<open>What is true of every state of a commit.\<close>

definition commit_state :: "libs \<Rightarrow> config \<Rightarrow> dir \<Rightarrow> bytes \<Rightarrow> disk \<Rightarrow> disk \<Rightarrow> bool" where
  "commit_state L cfg d content d0 x \<longleftrightarrow>
     file_of x (artefact_path cfg d) \<in> {file_of d0 (artefact_path cfg d), Some content} \<and>
     (file_of x (manifest_file d) = file_of d0 (manifest_file d) \<or>
        (\<exists>entry. committed L cfg d content entry (file_of x))) \<and>
     (file_of x (completed_file cfg d) = file_of d0 (completed_file cfg d) \<or>
        (\<exists>entry mk. committed L cfg d content entry (file_of x) \<and> ck_sha256 mk = me_sha256 entry \<and>
           file_of x (completed_file cfg d) = Some (js_show (lb_json L) (completed_json L mk))))"

lemma commit_success_states:
  assumes "commit_success env d cfg content attempt rid h = (r, h')" "journaled_env env" "safe_layout cfg d"
  shows "\<exists>ds. h' = ds @ h \<and>
    (\<forall>x \<in> set ds. commit_state (rn_libs env) cfg d content (hd h) x \<and>
       file_of x (completed_file cfg d) = file_of (hd h) (completed_file cfg d)) \<and>
    (\<forall>path entry. r = Inr (path, entry) \<longrightarrow> committed (rn_libs env) cfg d content entry (file_of (hd h')))"
proof -
  have jo: "rn_ops env = journal_ops" using assms(2) by (simp add: journaled_env_def)
  note lay = assms(3) [unfolded safe_layout_def]
  note def = commit_success_def [of env d cfg content attempt rid h, unfolded Let_def jo,
    folded artefact_path_def manifest_file_def]
  let ?p = "artefact_path cfg d" and ?m = "manifest_file d" and ?k = "completed_file cfg d"
  let ?S = "commit_state (rn_libs env) cfg d content (hd h)" and ?v = "file_of (hd h)"
  have ne: "?p \<noteq> ?m" "?p \<noteq> ?k" "?m \<noteq> ?k" "\<not> temp_name ?p" "\<not> temp_name ?m" "\<not> temp_name ?k" using lay by auto
  have same: "?S x \<and> file_of x ?k = ?v ?k" if "file_of x = ?v" for x
    using that by (simp add: commit_state_def)
  have art: "?S x \<and> file_of x ?k = ?v ?k" if "keeps ?p content ?v x" for x
    using that ne unfolding keeps_def commit_state_def by auto
  obtain r1 h1 where 1: "do_mkdirs journal_ops d h = (r1, h1)" by (metis prod.exhaust)
  from journal_mkdirs [OF 1] obtain d1 where h1: "h1 = d1 # h" "file_of d1 = ?v" by auto
  show ?thesis
  proof (cases r1)
    case (Inl e)
    with assms(1) 1 h1 same show ?thesis by (intro exI [of _ "[d1]"]) (auto simp: def)
  next
    case r1: (Inr u)
    obtain r2 h2 where 2: "make_parent journal_ops ?p h1 = (r2, h2)" by (metis prod.exhaust)
    from journal_make_parent [OF 2] h1 obtain ds2 where h2: "h2 = ds2 @ d1 # h" "\<forall>x \<in> set ds2. file_of x = ?v" "file_of (hd h2) = ?v" by auto
    show ?thesis
    proof (cases r2)
      case (Inl e)
      with assms(1) 1 r1 2 h1 h2 same show ?thesis by (intro exI [of _ "ds2 @ [d1]"]) (auto simp: def)
    next
      case r2: (Inr u)
      obtain r3 h3 where 3: "atomic_write journal_ops ?p content h2 = (r3, h3)" by (metis prod.exhaust)
      from journal_atomic_write [OF 3 ne(4)] h2 obtain ds3 where
        h3: "h3 = ds3 @ ds2 @ d1 # h" "\<forall>x \<in> set ds3. keeps ?p content ?v x" by auto
      have S3: "\<forall>x \<in> set (ds3 @ ds2 @ [d1]). ?S x \<and> file_of x ?k = ?v ?k" using h1 h2 h3 same art by auto
      show ?thesis
      proof (cases r3)
        case (Inl e)
        with assms(1) 1 r1 2 r2 3 h3 S3 show ?thesis by (intro exI [of _ "ds3 @ ds2 @ [d1]"]) (auto simp: def)
      next
        case r3: (Inr u)
        note w3 = journal.atomic_write_old_or_new [OF 3 ne(4)]
        have p3: "file_of (hd h3) ?p = Some content" "file_of (hd h3) ?k = ?v ?k" "file_of (hd h3) ?m = ?v ?m"
          using w3 r3 ne h2(3) by auto
        obtain rm where rm: "stored_manifest env ?m rid h3 = rm" by simp
        show ?thesis
        proof (cases rm)
          case (Inl e)
          with assms(1) 1 r1 2 r2 3 r3 rm h3 S3 show ?thesis by (intro exI [of _ "ds3 @ ds2 @ [d1]"]) (auto simp: def)
        next
          case (Inr m)
          let ?e = "artefact_entry env cfg content attempt h3"
          let ?m' = "m\<lparr>mf_entries := mf_entries m @ [?e]\<rparr>"
          show ?thesis
          proof (cases "to_json (rn_libs env) ?m'")
            case (Inl err)
            with assms(1) 1 r1 2 r2 3 r3 rm Inr h3 S3 show ?thesis
              by (intro exI [of _ "ds3 @ ds2 @ [d1]"]) (auto simp: def append_def Let_def)
          next
            case j: (Inr new)
            obtain r4 h4 where 4: "atomic_write journal_ops ?m new h3 = (r4, h4)" by (metis prod.exhaust)
            from journal_atomic_write [OF 4 ne(5)] obtain ds4 where
              h4: "h4 = ds4 @ h3" "\<forall>x \<in> set ds4. keeps ?m new (file_of (hd h3)) x" by auto
            have com: "committed (rn_libs env) cfg d content ?e (file_of x)"
              if "file_of x ?p = Some content" "file_of x ?m = Some new" for x
              unfolding committed_def
              by (intro conjI exI [of _ ?m'] exI [of _ new])
                (use that j in \<open>simp_all add: artefact_entry_def from_payload_def\<close>)
            have S4: "?S x \<and> file_of x ?k = ?v ?k" if "x \<in> set ds4" for x
            proof -
              from that h4 have x: "file_of x ?p = Some content" "file_of x ?k = ?v ?k"
                "file_of x ?m = ?v ?m \<or> file_of x ?m = Some new"
                using p3 ne by (auto simp: keeps_def)
              with com [of x] show ?thesis by (auto simp: commit_state_def)
            qed
            have last: "r4 = Inr () \<Longrightarrow> committed (rn_libs env) cfg d content ?e (file_of (hd h4))"
              using journal.atomic_write_old_or_new [OF 4 ne(5)] p3 ne by (intro com) auto
            have "(r = Inr (?p, ?e) \<and> r4 = Inr () \<or> (\<exists>e. r = Inl e)) \<and> h' = h4"
              using assms(1) 1 r1 2 r2 3 r3 rm Inr j 4 by (cases r4) (auto simp: def append_def Let_def)
            with last S3 S4 h3 h4 show ?thesis
              by (intro exI [of _ "ds4 @ ds3 @ ds2 @ [d1]"]) auto
          qed
        qed
      qed
    qed
  qed
qed

text \<open>Writing the completed marker keeps every other file, in every state.\<close>

lemma journal_completed:
  assumes "write_completed L journal_ops clk d (cf_phase cfg) attempt sha arts hc h = (r, h')" "\<not> temp_name (completed_file cfg d)"
  shows "\<exists>ds mk. h' = ds @ h \<and> ck_sha256 mk = sha \<and>
    (\<forall>x \<in> set ds. keeps (completed_file cfg d) (js_show (lb_json L) (completed_json L mk)) (file_of (hd h)) x)"
proof -
  define mk where "mk = \<lparr>ck_phase = cf_phase cfg, ck_attempt = attempt, ck_completed_at = ce_now clk, ck_sha256 = sha,
      ck_artefacts = arts, ck_hitl = hc\<rparr>"
  let ?k = "completed_file cfg d" and ?new = "js_show (lb_json L) (completed_json L mk)"
  obtain rm hm where m: "do_mkdirs journal_ops (markers_dir d) h = (rm, hm)" by (metis prod.exhaust)
  from journal_mkdirs [OF m] obtain dm where hm: "hm = dm # h" "file_of dm = file_of (hd h)" by auto
  have sha: "ck_sha256 mk = sha" by (simp add: mk_def)
  show ?thesis
  proof (cases rm)
    case (Inl e)
    with assms(1) m have "h' = hm" by (auto simp: write_completed_def write_marker_def Let_def)
    with hm sha show ?thesis by (intro exI [of _ "[dm]"] exI [of _ mk]) (simp add: keeps_refl)
  next
    case (Inr u)
    obtain ra ha where a: "atomic_write journal_ops ?k ?new hm = (ra, ha)" by (metis prod.exhaust)
    from journal_atomic_write [OF a assms(2)] hm obtain ds where
      ds: "ha = ds @ hm" "\<forall>x \<in> set ds. keeps ?k ?new (file_of (hd h)) x" by auto
    from assms(1) m Inr a have "h' = ha"
      by (auto simp: write_completed_def write_marker_def Let_def completed_file_def simp flip: mk_def split: prod.splits)
    with hm sha ds show ?thesis by (intro exI [of _ "ds @ [dm]"] exI [of _ mk]) (auto simp: keeps_refl)
  qed
qed

lemma marker_commit_state:
  assumes "committed L cfg d content entry (file_of y)" "file_of y (completed_file cfg d) = file_of d0 (completed_file cfg d)"
    and "keeps (completed_file cfg d) (js_show (lb_json L) (completed_json L mk)) (file_of y) x" "ck_sha256 mk = me_sha256 entry"
    and "safe_layout cfg d"
  shows "commit_state L cfg d content d0 x"
proof -
  have "file_of x (artefact_path cfg d) = file_of y (artefact_path cfg d)" "file_of x (manifest_file d) = file_of y (manifest_file d)"
    using assms(3,5) by (auto simp: keeps_def safe_layout_def)
  with assms(1) have cx: "committed L cfg d content entry (file_of x)" by (simp add: committed_def)
  moreover from cx have "file_of x (artefact_path cfg d) = Some content" by (simp add: committed_def)
  moreover have "file_of x (completed_file cfg d) = file_of d0 (completed_file cfg d) \<or>
      file_of x (completed_file cfg d) = Some (js_show (lb_json L) (completed_json L mk))"
    using assms(2,3) by (auto simp: keeps_def)
  ultimately show ?thesis using assms(4) unfolding commit_state_def by blast
qed

text \<open>
  C4: A commit is safe against a crash at any operation. In every state the disk goes through, the
  artefact is the old one or the new one; the manifest is the old one, or it records the new
  artefact, which is there; and the completed marker is the old one, or it names the digest of an
  artefact that is on disk and in the manifest.
\<close>

theorem commit_crash_safe:
  assumes "commit_phase env cfg inp attempt out content v pre [d0] = ((r, evs), h)" "journaled_env env"
    and "safe_layout cfg (components (pi_run_dir inp))"
  shows "\<forall>x \<in> set h. commit_state (rn_libs env) cfg (components (pi_run_dir inp)) content d0 x"
proof -
  let ?d = "components (pi_run_dir inp)" and ?L = "rn_libs env"
  let ?S = "commit_state ?L cfg ?d content d0" and ?k = "completed_file cfg ?d"
  have jo: "rn_ops env = journal_ops" using assms(2) by (simp add: journaled_env_def)
  have S0: "?S d0" by (simp add: commit_state_def)
  obtain rc h1 where c: "commit_success env ?d cfg content attempt (pc_run_id (pi_ctx inp)) [d0] = (rc, h1)" by (metis prod.exhaust)
  from commit_success_states [OF c assms(2,3)] obtain ds1 where h1: "h1 = ds1 @ [d0]"
    "\<forall>x \<in> set ds1. ?S x \<and> file_of x ?k = file_of d0 ?k"
    "\<forall>path entry. rc = Inr (path, entry) \<longrightarrow> committed ?L cfg ?d content entry (file_of (hd h1))" by auto
  show ?thesis
  proof (cases rc)
    case (Inl e)
    with assms(1) c have "h = h1" by (auto simp: commit_phase_def Let_def)
    with h1 S0 show ?thesis by auto
  next
    case (Inr pe)
    obtain path entry where pe: "rc = Inr (path, entry)" using Inr by (cases pe) auto
    have kd: "file_of (hd h1) ?k = file_of d0 ?k" using h1(1,2) by (cases ds1) auto
    from h1(3) pe have com: "committed ?L cfg ?d content entry (file_of (hd h1))" by blast
    define hc where "hc = (case v of Some (_, Some report) \<Rightarrow> Some (hitl_of_report report) | _ \<Rightarrow> None)"
    obtain rk h2 where k: "write_completed ?L journal_ops (rn_clock env h1) ?d (cf_phase cfg) attempt (me_sha256 entry)
        [cf_artefact_name cfg] hc h1 = (rk, h2)" by (metis prod.exhaust)
    have "h = h2" using assms(1) c pe k by (cases rk) (auto simp: commit_phase_def Let_def jo simp flip: hc_def)
    moreover have "\<not> temp_name ?k" using assms(3) by (simp add: safe_layout_def)
    from journal_completed [OF k this] obtain ds mk where ds: "h2 = ds @ h1" "ck_sha256 mk = me_sha256 entry"
      "\<forall>x \<in> set ds. keeps ?k (js_show (lb_json ?L) (completed_json ?L mk)) (file_of (hd h1)) x" by blast
    have "?S x" if "x \<in> set ds" for x
      using marker_commit_state [OF com kd _ ds(2) assms(3)] ds(3) that by blast
    ultimately show ?thesis using h1 S0 ds(1) by auto
  qed
qed

subsection \<open>Examples\<close>

definition journal_files :: "disk list run_files" where
  "journal_files = \<lparr>rf_is_file = (\<lambda>p h. rf_is_file disk_files_of p (hd h)), rf_read = (\<lambda>p h. rf_read disk_files_of p (hd h)),
     rf_read_text = (\<lambda>p h. rf_read_text disk_files_of p (hd h))\<rparr>"

definition journal_fs :: "disk list fs_ops" where
  "journal_fs = \<lparr>fs_read = (\<lambda>p h. fs_read disk_fs p (hd h)), fs_write = (\<lambda>p c. journaled (fs_write disk_fs p c)),
     fs_remove = (\<lambda>p. journaled (fs_remove disk_fs p)), fs_mkdir = (\<lambda>k. journaled (fs_mkdir disk_fs k))\<rparr>"

definition demo_journal_env :: "disk list run_env" where
  "demo_journal_env = \<lparr>rn_libs = demo_store_libs, rn_ops = journal_ops, rn_reader = (\<lambda>h. reader_of (hd h)),
     rn_files = journal_files, rn_clock = (\<lambda>_. demo_clock), rn_fan = demo_fan_env, rn_redact = id, rn_lossy = id,
     rn_human = \<lparr>he_json = lb_json demo_store_libs, he_serde_str = (\<lambda>_. []), he_show_time = (\<lambda>_. ''t1''),
       he_parse_time = (\<lambda>_. Inr 5), he_ops = journal_ops, he_reader = (\<lambda>h. reader_of (hd h)), he_now = (\<lambda>_. 10),
       he_server = (\<lambda>_ _ w. (Inl ''none'', w))\<rparr>, rn_fuel = 0\<rparr>"

definition demo_journal_inputs :: "disk list phase_inputs" where
  "demo_journal_inputs = \<lparr>pi_backends = [], pi_prompt = \<lparr>pr_model = None\<rparr>,
     pi_ctx = \<lparr>pc_phase_name = ''plan'', pc_run_id = ''r'', pc_cwd = ''.'', pc_render = Inr,
       pc_render_value = (\<lambda>s _. Inr s), pc_ops = journal_fs, pc_json = lb_json demo_store_libs\<rparr>,
     pi_verify = None, pi_run_dir = ''run''\<rparr>"

definition demo_out :: strategy_output where
  "demo_out = \<lparr>so_schema_version = 1, so_strategy = KSingle, so_phase = ''plan'', so_run_id = ''r'', so_attempts = [],
     so_final_status = None, so_aggregator = None, so_aggregate_path = None, so_verify = None\<rparr>"

lemma demo_commit_states:
  "12 < length (snd (commit_phase demo_journal_env demo_config demo_journal_inputs 0 demo_out ''text'' None [] [demo_fresh]))"
  by code_simp

theorem commit_crash_safe_witness:
  "case commit_phase demo_journal_env demo_config demo_journal_inputs 0 demo_out ''text'' None [] [demo_fresh] of
     (_, h) \<Rightarrow> 12 < length h \<and> list_all (commit_state demo_store_libs demo_config [Normal ''run''] ''text'' demo_fresh) h"
proof -
  obtain r evs h where c: "commit_phase demo_journal_env demo_config demo_journal_inputs 0 demo_out ''text'' None [] [demo_fresh] = ((r, evs), h)"
    by (metis prod.exhaust)
  have env: "journaled_env demo_journal_env" "rn_libs demo_journal_env = demo_store_libs"
    by (simp_all add: journaled_env_def demo_journal_env_def)
  have d: "components (pi_run_dir demo_journal_inputs) = [Normal ''run'']" by code_simp
  have "safe_layout demo_config (components (pi_run_dir demo_journal_inputs))" by code_simp
  from commit_crash_safe [OF c env(1) this] demo_commit_states c show ?thesis
    by (simp add: d env(2) list_all_iff)
qed

end
