(* ===== verification/Grammar.thy ===== *)
theory Grammar
  imports RustStr "HOL-Library.AList"
begin

text \<open>
  \<open>src/workflow/grammar.rs\<close>: the phase-based workflow files. The values that the grammar only
  stores (defaults and contracts) are a type variable; the TOML reader is an argument.
\<close>

subsection \<open>The syntax tree\<close>

datatype wf_strategy = WfSingle | WfParallel nat | WfEscalating bool

record 'v phase =
  ph_name :: string
  ph_strategy :: wf_strategy
  ph_backends :: "string list"
  ph_prompt_template :: string
  ph_inputs :: "string list"
  ph_output :: string
  ph_contract :: "'v option"

record 'v workflow =
  wf_name :: string
  wf_description :: "string option"
  wf_phases :: "'v phase list"
  wf_defaults :: "'v option"

datatype backend_ref = RefTensorZero string | RefClaude | RefCodex | RefGemini | RefOllama string

datatype input_ref = PhaseRef string | VarRef string | SpecRef

datatype workflow_error =
    TomlParse string
  | UnknownBackendScheme string
  | ForwardInputRef string string
  | UnknownPhaseRef string string
  | MinResponsesExceedsBackends string nat nat
  | TooFewBackendsForEscalating string nat
  | NoPhases
  | DuplicatePhaseName string
  | InvalidInputRef string
  | MalformedBackendRef string

subsection \<open>References\<close>

definition split_once :: "char \<Rightarrow> string \<Rightarrow> (string \<times> string) option" where
  "split_once c s = map_option (\<lambda>i. (take i s, drop (Suc i) s)) (find_char c s)"

definition resolve_backend_scheme :: "string \<Rightarrow> (workflow_error, backend_ref) result" where
  "resolve_backend_scheme s =
     (case split_once (CHR ''/'') s of
        None \<Rightarrow> Inl (MalformedBackendRef s)
      | Some (scheme, rest) \<Rightarrow>
          if scheme = ''tensorzero'' then (if rest = [] then Inl (MalformedBackendRef s) else Inr (RefTensorZero rest))
          else if scheme = ''claude'' then (if rest \<noteq> [] then Inl (MalformedBackendRef s) else Inr RefClaude)
          else if scheme = ''codex'' then (if rest \<noteq> [] then Inl (MalformedBackendRef s) else Inr RefCodex)
          else if scheme = ''gemini'' then (if rest \<noteq> [] then Inl (MalformedBackendRef s) else Inr RefGemini)
          else if scheme = ''ollama'' then (if rest = [] then Inl (MalformedBackendRef s) else Inr (RefOllama rest))
          else Inl (UnknownBackendScheme s))"

definition parse_input_ref :: "string \<Rightarrow> (workflow_error, input_ref) result" where
  "parse_input_ref s =
     (if s = ''spec'' then Inr SpecRef
      else case strip_prefix ''phase:'' s of
        Some name \<Rightarrow> if name = [] then Inl (InvalidInputRef s) else Inr (PhaseRef name)
      | None \<Rightarrow> (case strip_prefix ''var:'' s of
          Some name \<Rightarrow> if name = [] then Inl (InvalidInputRef s) else Inr (VarRef name)
        | None \<Rightarrow> Inl (InvalidInputRef s)))"

text \<open>Every item is tried; the results, or all the errors.\<close>

definition resolve_all :: "('a \<Rightarrow> ('e, 'b) result) \<Rightarrow> 'a list \<Rightarrow> ('e list, 'b list) result" where
  "resolve_all f xs =
     (let errs = List.map_filter (\<lambda>x. case f x of Inl e \<Rightarrow> Some e | Inr _ \<Rightarrow> None) xs;
          refs = List.map_filter (\<lambda>x. case f x of Inl _ \<Rightarrow> None | Inr r \<Rightarrow> Some r) xs
      in if errs = [] then Inr refs else Inl errs)"

definition resolve_backends :: "'v phase \<Rightarrow> (workflow_error list, backend_ref list) result" where
  "resolve_backends p = resolve_all resolve_backend_scheme (ph_backends p)"

definition resolve_inputs :: "'v phase \<Rightarrow> (workflow_error list, input_ref list) result" where
  "resolve_inputs p = resolve_all parse_input_ref (ph_inputs p)"

subsection \<open>Validation\<close>

fun duplicate_names :: "string list \<Rightarrow> 'v phase list \<Rightarrow> workflow_error list" where
  "duplicate_names seen [] = []"
| "duplicate_names seen (p # ps) =
     (if ph_name p \<in> set seen then DuplicatePhaseName (ph_name p) # duplicate_names seen ps
      else duplicate_names (ph_name p # seen) ps)"

text \<open>Collecting pairs into a map keeps the last value of a key.\<close>

definition phase_indices :: "'v phase list \<Rightarrow> string \<rightharpoonup> nat" where
  "phase_indices ps = map_of (rev (zip (map ph_name ps) [0..<length ps]))"

definition GRAMMAR_USIZE_MAX :: nat where
  "GRAMMAR_USIZE_MAX = 2 ^ 64 - 1"

definition check_input :: "(string \<rightharpoonup> nat) \<Rightarrow> 'v phase \<Rightarrow> input_ref \<Rightarrow> workflow_error list" where
  "check_input indices p i =
     (case i of
        PhaseRef target \<Rightarrow> (case indices target of
            Some target_idx \<Rightarrow>
              let phase_idx = unwrap_or GRAMMAR_USIZE_MAX (indices (ph_name p)) in
              if target_idx \<ge> phase_idx then [ForwardInputRef (ph_name p) target] else []
          | None \<Rightarrow> [UnknownPhaseRef (ph_name p) target])
      | _ \<Rightarrow> [])"

definition check_strategy :: "'v phase \<Rightarrow> nat \<Rightarrow> workflow_error list" where
  "check_strategy p count =
     (case ph_strategy p of
        WfParallel min_responses \<Rightarrow>
          if min_responses > count then [MinResponsesExceedsBackends (ph_name p) min_responses count] else []
      | WfEscalating _ \<Rightarrow> if count < 2 then [TooFewBackendsForEscalating (ph_name p) count] else []
      | WfSingle \<Rightarrow> [])"

definition errors_of :: "('e list, 'b list) result \<Rightarrow> 'e list" where
  "errors_of r = (case r of Inl es \<Rightarrow> es | Inr _ \<Rightarrow> [])"

definition refs_of :: "('e list, 'b list) result \<Rightarrow> 'b list" where
  "refs_of r = (case r of Inl _ \<Rightarrow> [] | Inr rs \<Rightarrow> rs)"

definition validate_phase :: "(string \<rightharpoonup> nat) \<Rightarrow> 'v phase \<Rightarrow> workflow_error list" where
  "validate_phase indices p =
     (let backends = resolve_backends p; inputs = resolve_inputs p in
      errors_of backends @ errors_of inputs @ concat (map (check_input indices p) (refs_of inputs)) @
      check_strategy p (length (refs_of backends)))"

definition validate :: "'v workflow \<Rightarrow> workflow_error list" where
  "validate flow =
     (let ps = wf_phases flow in
      if ps = [] then [NoPhases]
      else duplicate_names [] ps @ concat (map (validate_phase (phase_indices ps)) ps))"

definition workflow_from_str :: "(string \<Rightarrow> (string, 'v workflow) result) \<Rightarrow> string \<Rightarrow> (workflow_error list, 'v workflow) result" where
  "workflow_from_str toml s =
     (case toml s of
        Inl e \<Rightarrow> Inl [TomlParse e]
      | Inr flow \<Rightarrow> (let errors = validate flow in if errors = [] then Inr flow else Inl errors))"

definition lint :: "'v workflow \<Rightarrow> string list" where
  "lint flow = map (\<lambda>p. ''WARN: phase.contract reserved for post-v0; ignored (phase '' @ [CHR 0x27] @ ph_name p @ [CHR 0x27] @ '')'')
     (filter (\<lambda>p. ph_contract p \<noteq> None) (wf_phases flow))"

subsection \<open>What a valid workflow is\<close>

definition fits_strategy :: "'v phase \<Rightarrow> bool" where
  "fits_strategy p \<longleftrightarrow> (case ph_strategy p of
     WfParallel n \<Rightarrow> n \<le> length (ph_backends p) | WfEscalating _ \<Rightarrow> 2 \<le> length (ph_backends p) | WfSingle \<Rightarrow> True)"

definition phase_ok :: "string set \<Rightarrow> 'v phase \<Rightarrow> bool" where
  "phase_ok earlier p \<longleftrightarrow> list_all (is_ok \<circ> resolve_backend_scheme) (ph_backends p) \<and>
     list_all (is_ok \<circ> parse_input_ref) (ph_inputs p) \<and>
     (\<forall>t. ''phase:'' @ t \<in> set (ph_inputs p) \<longrightarrow> t \<in> earlier) \<and> fits_strategy p"

definition workflow_ok :: "'v workflow \<Rightarrow> bool" where
  "workflow_ok flow \<longleftrightarrow> wf_phases flow \<noteq> [] \<and> distinct (map ph_name (wf_phases flow)) \<and>
     (\<forall>i < length (wf_phases flow). phase_ok (ph_name ` set (take i (wf_phases flow))) (wf_phases flow ! i))"

lemma map_filter_Nil: "List.map_filter f xs = [] \<longleftrightarrow> (\<forall>x \<in> set xs. f x = None)"
  by (induction xs) (auto simp: List.map_filter_def split: option.splits)

lemma resolve_all_ok:
  assumes "list_all (is_ok \<circ> f) xs"
  shows "resolve_all f xs = Inr (map (projr \<circ> f) xs)"
  using assms
proof -
  from assms have "List.map_filter (\<lambda>x. case f x of Inl e \<Rightarrow> Some e | Inr _ \<Rightarrow> None) xs = []"
    by (auto simp: map_filter_Nil list_all_iff is_ok_def split: sum.splits)
  moreover from assms have "List.map_filter (\<lambda>x. case f x of Inl _ \<Rightarrow> None | Inr r \<Rightarrow> Some r) xs = map (projr \<circ> f) xs"
    by (induction xs) (auto simp: List.map_filter_def is_ok_def split: sum.splits)
  ultimately show ?thesis by (simp add: resolve_all_def)
qed

lemma resolve_all_errors: "errors_of (resolve_all f xs) = [] \<longleftrightarrow> list_all (is_ok \<circ> f) xs"
proof -
  have "(case f x of Inl e \<Rightarrow> Some e | Inr _ \<Rightarrow> None) = None \<longleftrightarrow> is_ok (f x)" for x
    by (cases "f x") simp_all
  then show ?thesis
    by (auto simp: resolve_all_def errors_of_def map_filter_Nil list_all_iff Let_def)
qed

lemma duplicate_names_Nil:
  "duplicate_names seen ps = [] \<longleftrightarrow> distinct (map ph_name ps) \<and> set seen \<inter> ph_name ` set ps = {}"
  by (induction ps arbitrary: seen) auto

lemma phase_indices_distinct:
  assumes "distinct (map ph_name ps)"
  shows "phase_indices ps t = Some i \<longleftrightarrow> i < length ps \<and> ph_name (ps ! i) = t"
proof -
  have "map fst (rev (zip (map ph_name ps) [0..<length ps])) = rev (map ph_name ps)"
    by (simp add: rev_map [symmetric])
  then have "distinct (map fst (rev (zip (map ph_name ps) [0..<length ps])))" using assms by simp
  then show ?thesis unfolding phase_indices_def
    by (auto simp: map_of_eq_Some_iff in_set_zip intro!: exI [of _ i])
qed

lemma phase_indices_dom: "phase_indices ps t = None \<longleftrightarrow> t \<notin> ph_name ` set ps"
proof -
  have "fst ` set (rev (zip (map ph_name ps) [0..<length ps])) = set (map fst (zip (map ph_name ps) [0..<length ps]))"
    by (simp only: set_rev set_map)
  also have "\<dots> = ph_name ` set ps" by (simp add: map_fst_zip)
  finally show ?thesis by (simp add: phase_indices_def map_of_eq_None_iff)
qed

lemma parse_input_phase: "parse_input_ref s = Inr (PhaseRef t) \<longleftrightarrow> s = ''phase:'' @ t \<and> t \<noteq> []"
  by (auto simp: parse_input_ref_def strip_prefix_eq_Some split: option.splits)

text \<open>A reference is accepted exactly when it names an earlier phase.\<close>

lemma check_input_ok:
  assumes "distinct (map ph_name ps)" "i < length ps"
  shows "check_input (phase_indices ps) (ps ! i) r = [] \<longleftrightarrow> (\<forall>t. r = PhaseRef t \<longrightarrow> t \<in> ph_name ` set (take i ps))"
proof (cases r)
  case (PhaseRef t)
  have own: "phase_indices ps (ph_name (ps ! i)) = Some i"
    using assms by (simp add: phase_indices_distinct)
  have earlier: "t \<in> ph_name ` set (take i ps) \<longleftrightarrow> (\<exists>j < i. ph_name (ps ! j) = t)"
  proof
    assume "t \<in> ph_name ` set (take i ps)"
    then obtain x where "x \<in> set (take i ps)" "t = ph_name x" by blast
    then show "\<exists>j < i. ph_name (ps ! j) = t" by (auto simp: in_set_conv_nth)
  next
    assume "\<exists>j < i. ph_name (ps ! j) = t"
    then obtain j where j: "j < i" "t = ph_name (ps ! j)" by blast
    with assms(2) have "ps ! j \<in> set (take i ps)" by (auto simp: in_set_conv_nth)
    with j(2) show "t \<in> ph_name ` set (take i ps)" by blast
  qed
  show ?thesis
  proof (cases "phase_indices ps t")
    case None
    then have "t \<notin> ph_name ` set (take i ps)" by (auto simp: phase_indices_dom dest: in_set_takeD)
    with None PhaseRef show ?thesis by (simp add: check_input_def)
  next
    case (Some j)
    then have j: "j < length ps" "ph_name (ps ! j) = t" using assms(1) by (simp_all add: phase_indices_distinct)
    have "(\<exists>k < i. ph_name (ps ! k) = t) \<longleftrightarrow> j < i"
    proof
      assume "\<exists>k < i. ph_name (ps ! k) = t"
      then obtain k where "k < i" "ph_name (ps ! k) = t" by blast
      with assms have "phase_indices ps t = Some k" by (simp add: phase_indices_distinct)
      with Some \<open>k < i\<close> show "j < i" by simp
    qed (use j in auto)
    with Some own earlier PhaseRef show ?thesis by (auto simp: check_input_def)
  qed
qed (simp_all add: check_input_def)

lemma check_strategy_ok: "check_strategy p (length (ph_backends p)) = [] \<longleftrightarrow> fits_strategy p"
  by (auto simp: check_strategy_def fits_strategy_def split: wf_strategy.splits)

lemma validate_phase_ok:
  assumes "distinct (map ph_name ps)" "i < length ps"
  shows "validate_phase (phase_indices ps) (ps ! i) = [] \<longleftrightarrow> phase_ok (ph_name ` set (take i ps)) (ps ! i)"
proof -
  let ?p = "ps ! i"
  have b: "errors_of (resolve_backends ?p) = [] \<longleftrightarrow> list_all (is_ok \<circ> resolve_backend_scheme) (ph_backends ?p)"
    by (simp add: resolve_backends_def resolve_all_errors)
  have s: "list_all (is_ok \<circ> parse_input_ref) (ph_inputs ?p) \<longleftrightarrow> errors_of (resolve_inputs ?p) = []"
    by (simp add: resolve_inputs_def resolve_all_errors)
  have r: "concat (map (check_input (phase_indices ps) ?p) (refs_of (resolve_inputs ?p))) = [] \<longleftrightarrow>
      (\<forall>t. ''phase:'' @ t \<in> set (ph_inputs ?p) \<longrightarrow> t \<in> ph_name ` set (take i ps))"
    if ok: "list_all (is_ok \<circ> parse_input_ref) (ph_inputs ?p)"
  proof -
    have "refs_of (resolve_inputs ?p) = map (projr \<circ> parse_input_ref) (ph_inputs ?p)"
      by (simp add: resolve_inputs_def resolve_all_ok [OF ok] refs_of_def)
    moreover have "projr (parse_input_ref s) = PhaseRef t \<longleftrightarrow> s = ''phase:'' @ t" if "s \<in> set (ph_inputs ?p)" for s t
    proof -
      from ok that have "is_ok (parse_input_ref s)" by (simp add: list_all_iff)
      then obtain y where y: "parse_input_ref s = Inr y" by (auto simp: is_ok_iff)
      have "t \<noteq> []" if "s = ''phase:'' @ t"
      proof
        assume "t = []"
        with that y show False by (simp add: parse_input_ref_def)
      qed
      with y parse_input_phase [of s t] show ?thesis by auto
    qed
    ultimately show ?thesis
      using check_input_ok [OF assms] by (auto simp: concat_eq_Nil_conv)
  qed
  have c: "check_strategy ?p (length (refs_of (resolve_backends ?p))) = [] \<longleftrightarrow> fits_strategy ?p"
    if ok: "list_all (is_ok \<circ> resolve_backend_scheme) (ph_backends ?p)"
    using check_strategy_ok [of ?p] by (simp add: resolve_backends_def resolve_all_ok [OF ok] refs_of_def)
  show ?thesis
    unfolding validate_phase_def Let_def phase_ok_def append_is_Nil_conv b s [symmetric]
    using r c by blast
qed

lemma validate_Nil: "validate flow = [] \<longleftrightarrow> workflow_ok flow"
proof (cases "wf_phases flow = [] \<or> \<not> distinct (map ph_name (wf_phases flow))")
  case True
  then show ?thesis by (auto simp: validate_def workflow_ok_def duplicate_names_Nil Let_def)
next
  case False
  then have d: "distinct (map ph_name (wf_phases flow))" "wf_phases flow \<noteq> []" by simp_all
  have "validate flow = [] \<longleftrightarrow> (\<forall>i < length (wf_phases flow). validate_phase (phase_indices (wf_phases flow)) (wf_phases flow ! i) = [])"
    using d by (auto simp: validate_def duplicate_names_Nil concat_eq_Nil_conv all_set_conv_all_nth Let_def)
  with d show ?thesis by (auto simp: workflow_ok_def validate_phase_ok)
qed

lemma from_str_valid: "workflow_from_str toml s = Inr flow \<longleftrightarrow> toml s = Inr flow \<and> workflow_ok flow"
  by (auto simp: workflow_from_str_def validate_Nil Let_def split: sum.splits)

text \<open>
  C16: Validation reports nothing exactly for the workflows that are well-formed: they have a phase,
  their names are distinct, every reference parses, every phase it names comes earlier, and every
  strategy has the backends it needs.
\<close>

theorem validate_iff_ok: "validate flow = [] \<longleftrightarrow> workflow_ok flow"
  by (rule validate_Nil)

text \<open>The scheme of a reference that parses is the name of its backend.\<close>

fun scheme_of :: "backend_ref \<Rightarrow> string \<times> string" where
  "scheme_of (RefTensorZero f) = (''tensorzero'', f)"
| "scheme_of RefClaude = (''claude'', [])"
| "scheme_of RefCodex = (''codex'', [])"
| "scheme_of RefGemini = (''gemini'', [])"
| "scheme_of (RefOllama m) = (''ollama'', m)"

lemma resolve_backend_roundtrip:
  "resolve_backend_scheme s = Inr r \<Longrightarrow> s = fst (scheme_of r) @ CHR ''/'' # snd (scheme_of r)"
  by (auto simp: resolve_backend_scheme_def split_once_def dest!: find_char_split split: if_splits option.splits)

end
