(* ===== verification/PhaseTemplate.thy ===== *)
theory PhaseTemplate
  imports Grammar
begin

text \<open>
  \<open>src/workflow/template.rs\<close>: the substitution of \<open>{{ ... }}\<close> in the prompt of a phase. The pattern of
  a placeholder is two opening braces, at least one character other than a closing brace, and two
  closing braces; its name is what is between them without the white space around it (one white
  space character when there is nothing else).
\<close>

subsection \<open>Rendering\<close>

datatype template_error = UnresolvedPlaceholder string | MalformedPlaceholder string

record phase_output =
  px_content :: string
  px_path :: string

record template_ctx =
  tc_spec :: "string option"
  tc_phases :: "string \<rightharpoonup> phase_output"
  tc_vars :: "string \<rightharpoonup> string"

definition empty_template_ctx :: template_ctx where
  "empty_template_ctx = \<lparr>tc_spec = None, tc_phases = Map.empty, tc_vars = Map.empty\<rparr>"

definition with_spec :: "string \<Rightarrow> template_ctx \<Rightarrow> template_ctx" where
  "with_spec spec ctx = ctx\<lparr>tc_spec := Some spec\<rparr>"

definition with_phase_output :: "string \<Rightarrow> phase_output \<Rightarrow> template_ctx \<Rightarrow> template_ctx" where
  "with_phase_output name out ctx = ctx\<lparr>tc_phases := (tc_phases ctx)(name \<mapsto> out)\<rparr>"

definition with_var :: "string \<Rightarrow> string \<Rightarrow> template_ctx \<Rightarrow> template_ctx" where
  "with_var name value ctx = ctx\<lparr>tc_vars := (tc_vars ctx)(name \<mapsto> value)\<rparr>"

text \<open>The field and the optional rest of \<open>name.field.rest\<close>.\<close>

definition phase_placeholder :: "template_ctx \<Rightarrow> string \<Rightarrow> string \<Rightarrow> (template_error, string) result" where
  "phase_placeholder ctx inner rest =
     (case split_once (CHR ''.'') rest of
        None \<Rightarrow> Inl (MalformedPlaceholder inner)
      | Some (phase_name, after) \<Rightarrow>
          (let (field, subfield) = (case split_once (CHR ''.'') after of None \<Rightarrow> (after, None) | Some (f, s) \<Rightarrow> (f, Some s)) in
           if field \<noteq> ''output'' then Inl (MalformedPlaceholder inner)
           else case tc_phases ctx phase_name of
               None \<Rightarrow> Inl (UnresolvedPlaceholder (''phase.'' @ phase_name @ ''.output''))
             | Some out \<Rightarrow> (case subfield of
                   None \<Rightarrow> Inr (px_content out)
                 | Some s \<Rightarrow> if s = ''path'' then Inr (px_path out)
                     else Inl (MalformedPlaceholder (''phase.'' @ phase_name @ ''.output.'' @ s)))))"

definition resolve_placeholder :: "template_ctx \<Rightarrow> string \<Rightarrow> (template_error, string) result" where
  "resolve_placeholder ctx inner =
     (if inner = ''spec'' then (case tc_spec ctx of Some s \<Rightarrow> Inr s | None \<Rightarrow> Inl (UnresolvedPlaceholder inner))
      else case strip_prefix ''phase.'' inner of
        Some rest \<Rightarrow> phase_placeholder ctx inner rest
      | None \<Rightarrow> (case strip_prefix ''var.'' inner of
          Some name \<Rightarrow>
            if name = [] then Inl (MalformedPlaceholder inner)
            else (case tc_vars ctx name of Some v \<Rightarrow> Inr v | None \<Rightarrow> Inl (UnresolvedPlaceholder (''var.'' @ name)))
        | None \<Rightarrow> Inl (UnresolvedPlaceholder inner)))"

definition last_char :: "string \<Rightarrow> string" where
  "last_char s = drop (length s - Suc (length (takeWhile is_cont (rev s)))) s"

definition placeholder_name :: "string \<Rightarrow> string" where
  "placeholder_name raw = (if trim raw = [] then last_char raw else trim raw)"

text \<open>The placeholder that starts a text, as the raw text between the braces and the rest of the text.\<close>

definition placeholder_at :: "string \<Rightarrow> (string \<times> string) option" where
  "placeholder_at s =
     (case strip_prefix ''{{'' s of
        None \<Rightarrow> None
      | Some body \<Rightarrow>
          let raw = takeWhile (\<lambda>c. c \<noteq> CHR ''}'') body in
          if raw = [] then None
          else map_option (\<lambda>rest. (raw, rest)) (strip_prefix ''}}'' (drop (length raw) body)))"

lemma placeholder_at_Some: "placeholder_at s = Some (raw, rest) \<Longrightarrow> s = ''{{'' @ raw @ ''}}'' @ rest"
proof -
  assume a: "placeholder_at s = Some (raw, rest)"
  then obtain body where b: "s = ''{{'' @ body" "raw = takeWhile (\<lambda>c. c \<noteq> CHR ''}'') body"
    "drop (length raw) body = ''}}'' @ rest"
    by (auto simp: placeholder_at_def Let_def strip_prefix_eq_Some split: option.splits if_splits)
  have "take (length raw) body = raw" unfolding b(2) by (metis takeWhile_eq_take)
  with b(1,3) show ?thesis by (metis append_take_drop_id)
qed

function render_template :: "template_ctx \<Rightarrow> string \<Rightarrow> (template_error, string) result" where
  "render_template ctx s =
     (case s of
        [] \<Rightarrow> Inr []
      | c # cs \<Rightarrow> (case placeholder_at s of
            Some (raw, rest) \<Rightarrow> rbind (resolve_placeholder ctx (placeholder_name raw))
              (\<lambda>replacement. rbind (render_template ctx rest) (\<lambda>out. Inr (replacement @ out)))
          | None \<Rightarrow> rbind (render_template ctx cs) (\<lambda>out. Inr (c # out))))"
  by pat_completeness auto
termination
  by (relation "measure (\<lambda>(ctx, s). length s)") (auto dest: placeholder_at_Some)

declare render_template.simps [simp del]

subsection \<open>Templates by their segments\<close>

text \<open>
  A template as its author writes it: text without opening braces, and placeholders with white
  space around their names. What rendering should give is plain: every placeholder is replaced, in
  order, and the first that cannot be is the error.
\<close>

datatype segment = Lit string | Hole string string string

fun print_segment :: "segment \<Rightarrow> string" where
  "print_segment (Lit t) = t"
| "print_segment (Hole a n b) = ''{{'' @ a @ n @ b @ ''}}''"

fun segment_ok :: "segment \<Rightarrow> bool" where
  "segment_ok (Lit t) \<longleftrightarrow> CHR ''{'' \<notin> set t"
| "segment_ok (Hole a n b) \<longleftrightarrow> n \<noteq> [] \<and> trim (a @ n @ b) = n \<and> CHR ''}'' \<notin> set (a @ n @ b)"

fun fill_segment :: "template_ctx \<Rightarrow> segment \<Rightarrow> (template_error, string) result" where
  "fill_segment ctx (Lit t) = Inr t"
| "fill_segment ctx (Hole a n b) = resolve_placeholder ctx n"

fun fill_all :: "template_ctx \<Rightarrow> segment list \<Rightarrow> (template_error, string) result" where
  "fill_all ctx [] = Inr []"
| "fill_all ctx (g # gs) = rbind (fill_segment ctx g) (\<lambda>t. rbind (fill_all ctx gs) (\<lambda>ts. Inr (t @ ts)))"

lemma placeholder_at_hole:
  assumes "raw \<noteq> []" "CHR ''}'' \<notin> set raw"
  shows "placeholder_at (''{{'' @ raw @ ''}}'' @ rest) = Some (raw, rest)"
proof -
  have t: "takeWhile (\<lambda>c. c \<noteq> CHR ''}'') (raw @ ''}}'' @ rest) = raw"
    using assms(2) by (subst takeWhile_append2) auto
  have "strip_prefix ''{{'' (''{{'' @ raw @ ''}}'' @ rest) = Some (raw @ ''}}'' @ rest)"
    "strip_prefix ''}}'' (''}}'' @ rest) = Some rest" by simp_all
  with assms(1) t show ?thesis by (simp add: placeholder_at_def Let_def)
qed

lemma placeholder_at_other: "c \<noteq> CHR ''{'' \<Longrightarrow> placeholder_at (c # s) = None"
  by (simp add: placeholder_at_def)

lemma render_literal:
  "CHR ''{'' \<notin> set t \<Longrightarrow> render_template ctx (t @ s) = rbind (render_template ctx s) (\<lambda>out. Inr (t @ out))"
proof (induction t)
  case Nil
  show ?case by (cases "render_template ctx s") simp_all
next
  case (Cons c t)
  then have "placeholder_at (c # t @ s) = None" by (intro placeholder_at_other) auto
  with Cons show ?case
    by (subst render_template.simps) (cases "render_template ctx s"; simp)
qed

lemma render_hole:
  assumes "segment_ok (Hole a n b)"
  shows "render_template ctx (print_segment (Hole a n b) @ s) =
    rbind (resolve_placeholder ctx n) (\<lambda>t. rbind (render_template ctx s) (\<lambda>out. Inr (t @ out)))"
proof -
  have "placeholder_name (a @ n @ b) = n" using assms by (simp add: placeholder_name_def)
  moreover have "placeholder_at (''{{'' @ (a @ n @ b) @ ''}}'' @ s) = Some (a @ n @ b, s)"
    using assms by (intro placeholder_at_hole) auto
  ultimately show ?thesis by (subst render_template.simps) simp
qed

text \<open>
  Rendering a template replaces every placeholder once, in order, and changes nothing else: what
  is inserted is not looked at again.
\<close>

theorem render_segments:
  assumes "list_all segment_ok gs"
  shows "render_template ctx (concat (map print_segment gs)) = fill_all ctx gs"
  using assms
proof (induction gs)
  case Nil
  show ?case by (simp add: render_template.simps)
next
  case (Cons g gs)
  show ?case
  proof (cases g)
    case (Lit t)
    with Cons show ?thesis by (simp add: render_literal)
  next
    case (Hole a n b)
    with Cons have "segment_ok (Hole a n b)" by simp
    from render_hole [OF this, of ctx] Cons Hole show ?thesis by simp
  qed
qed

definition demo_segments :: "segment list" where
  "demo_segments = [Lit ''Read '', Hole '' '' ''spec'' '' '', Lit '' and '', Hole [] ''phase.design.output.path'' [], Lit ''.'']"

definition demo_template_ctx :: template_ctx where
  "demo_template_ctx = with_phase_output ''design'' \<lparr>px_content = ''Use a queue'', px_path = ''design.md''\<rparr>
     (with_spec ''the {{ secret }}'' empty_template_ctx)"

theorem render_segments_witness:
  "render_template demo_template_ctx (concat (map print_segment demo_segments)) = Inr ''Read the {{ secret }} and design.md.''"
proof -
  have "list_all segment_ok demo_segments" by code_simp
  from render_segments [OF this, of demo_template_ctx] show ?thesis
    by (simp only:) code_simp
qed

end
