(* ===== verification/PhaseBridge.thy ===== *)
theory PhaseBridge
  imports PhaseTemplate PhaseProps DispatchProps
begin

text \<open>
  \<open>src/workflow/phase_bridge.rs\<close>: a phase of a workflow file becomes the configuration of a run, and
  a workflow runs its phases one after the other, each fed with the artefacts of those before it.
  The construction of backends from the configuration file, and the second template engine, are
  arguments.
\<close>

subsection \<open>From a phase to its configuration\<close>

definition backend_scheme :: "string \<Rightarrow> string" where
  "backend_scheme raw = hd (split_slash (trim_end_slashes raw))"

definition backend_model :: "string \<Rightarrow> string option" where
  "backend_model raw = opt_filter (\<lambda>rest. rest \<noteq> []) (map_option snd (split_once (CHR ''/'') raw))"

definition file_name :: "path \<Rightarrow> string option" where
  "file_name p = (case rev (components p) of Normal s # _ \<Rightarrow> Some s | _ \<Rightarrow> None)"

definition kind_from_filename :: "path \<Rightarrow> kind" where
  "kind_from_filename output =
     (let name = map lower_char (unwrap_or [] (file_name output)) in
      if name = ''design.md'' then DesignMd
      else if name = ''review.md'' then ReviewMd
      else if name = ''plan.md'' then PlanMd
      else if is_valid_other_md name then projr (other_md name)
      else if ends_with name ''.json'' then VerifyJson
      else PhaseResultJson)"

datatype bridge_error =
    TemplateFailed string template_error
  | BackendNotConfigured string string
  | BackendCreation string string string
  | PhaseFailedErr string run_error
  | OutputUnreadable dir io_error

type_synonym phase_outputs = "string \<rightharpoonup> string \<times> dir"

definition medium_rung :: "string \<Rightarrow> phase_rung" where
  "medium_rung raw = \<lparr>pg_tier = Medium, pg_backend = backend_scheme raw\<rparr>"

definition target_of :: "string \<Rightarrow> target_spec" where
  "target_of raw = \<lparr>ts_backend = backend_scheme raw, ts_model = backend_model raw\<rparr>"

definition strategy_parts :: "'v phase \<Rightarrow> strategy_name \<times> aggregator_name \<times> phase_rung list \<times> target_spec list" where
  "strategy_parts p =
     (case ph_strategy p of
        WfSingle \<Rightarrow> (NmSingle, AgFirst,
          [medium_rung (case ph_backends p of [] \<Rightarrow> [] | b # _ \<Rightarrow> b)], [])
      | WfParallel _ \<Rightarrow> (NmParallel, AgConcat, map medium_rung (ph_backends p), map target_of (ph_backends p))
      | WfEscalating _ \<Rightarrow> (NmEscalatingRetry, AgFirst, map medium_rung (ph_backends p), []))"

definition producer_of :: "wf_strategy \<Rightarrow> producer" where
  "producer_of s = (case s of WfSingle \<Rightarrow> PrSingle | WfParallel _ \<Rightarrow> PrParallel | WfEscalating _ \<Rightarrow> PrEscalating)"

definition min_responses_of :: "wf_strategy \<Rightarrow> nat" where
  "min_responses_of s = (case s of WfSingle \<Rightarrow> 1 | WfParallel n \<Rightarrow> n | WfEscalating _ \<Rightarrow> 1)"

definition failure_context_of :: "wf_strategy \<Rightarrow> bool" where
  "failure_context_of s = (case s of WfEscalating b \<Rightarrow> b | _ \<Rightarrow> False)"

text \<open>All the entries of the maps are inserted; paths are shown in normal form.\<close>

definition bridge_ctx :: "phase_outputs \<Rightarrow> string option \<Rightarrow> (string \<rightharpoonup> string) \<Rightarrow> template_ctx" where
  "bridge_ctx outs spec vars = \<lparr>tc_spec = spec,
     tc_phases = (\<lambda>n. map_option (\<lambda>(content, p). \<lparr>px_content = content, px_path = show_dir p\<rparr>) (outs n)),
     tc_vars = vars\<rparr>"

definition build_phase_config ::
  "'v phase \<Rightarrow> phase_outputs \<Rightarrow> string option \<Rightarrow> (string \<rightharpoonup> string) \<Rightarrow> (bridge_error, config) result" where
  "build_phase_config p outs spec vars =
     (case strategy_parts p of (strategy, aggregator, rungs, targets) \<Rightarrow>
        rbind (map_err (TemplateFailed (ph_name p)) (render_template (bridge_ctx outs spec vars) (ph_prompt_template p)))
          (\<lambda>rendered. Inr \<lparr>cf_phase = ph_name p, cf_strategy = strategy, cf_aggregator = aggregator, cf_verify = VhNone,
             cf_artefact_name = ph_output p, cf_artefact_kind = kind_from_filename (ph_output p),
             cf_producer = producer_of (ph_strategy p), cf_prompt_template = rendered,
             cf_backend = map_option backend_scheme (case ph_backends p of [] \<Rightarrow> None | b # _ \<Rightarrow> Some b),
             cf_targets = targets, cf_min_responses = min_responses_of (ph_strategy p), cf_rungs = rungs,
             cf_pass_failure_context = failure_context_of (ph_strategy p)\<rparr>))"

subsection \<open>Running a workflow\<close>

record ('w, 'c) bridge_env =
  be_run :: "'w run_env"
  be_config :: "string \<rightharpoonup> 'c"
  be_create :: "string \<Rightarrow> 'c \<Rightarrow> (string, 'w backend) result"
  be_render :: "string list \<Rightarrow> string option \<Rightarrow> (string \<rightharpoonup> string) \<Rightarrow> string \<Rightarrow> (string, string) result"
  be_render_value :: "string \<Rightarrow> json \<Rightarrow> (string, string) result"
  be_ops :: "'w fs_ops"

definition resolve_phase_backends :: "('w, 'c) bridge_env \<Rightarrow> 'v phase \<Rightarrow> (bridge_error, 'w backend list) result" where
  "resolve_phase_backends env p =
     seq_results (map (\<lambda>raw. let scheme = backend_scheme raw in
       case be_config env scheme of
         None \<Rightarrow> Inl (BackendNotConfigured (ph_name p) scheme)
       | Some c \<Rightarrow> map_err (BackendCreation (ph_name p) scheme) (be_create env scheme c)) (ph_backends p))"

definition workflow_inputs ::
  "('w, 'c) bridge_env \<Rightarrow> string option \<Rightarrow> (string \<rightharpoonup> string) \<Rightarrow> path \<Rightarrow> string \<Rightarrow> 'v phase \<Rightarrow> 'w backend list \<Rightarrow> path \<Rightarrow> 'w phase_inputs" where
  "workflow_inputs env spec vars run_dir run_id p backends cwd =
     \<lparr>pi_backends = backends, pi_prompt = \<lparr>pr_model = None\<rparr>,
      pi_ctx = \<lparr>pc_phase_name = ph_name p, pc_run_id = run_id, pc_cwd = cwd,
        pc_render = be_render env (map bk_name backends) spec vars, pc_render_value = be_render_value env,
        pc_ops = be_ops env, pc_json = lb_json (rn_libs (be_run env))\<rparr>,
      pi_verify = None, pi_run_dir = run_dir\<rparr>"

text \<open>\<open>None\<close> is a panic of a phase.\<close>

fun run_phases ::
  "('w, 'c) bridge_env \<Rightarrow> string option \<Rightarrow> (string \<rightharpoonup> string) \<Rightarrow> path \<Rightarrow> path \<Rightarrow> string \<Rightarrow> 'v phase list \<Rightarrow> phase_outputs \<Rightarrow>
     dir list \<Rightarrow> 'w \<Rightarrow> ((bridge_error, dir list) result \<times> 'w) option" where
  "run_phases env spec vars cwd run_dir run_id [] outs paths w = Some (Inr paths, w)"
| "run_phases env spec vars cwd run_dir run_id (p # ps) outs paths w =
     (case build_phase_config p outs spec vars of
        Inl e \<Rightarrow> Some (Inl e, w)
      | Inr cfg \<Rightarrow> (case resolve_phase_backends env p of
          Inl e \<Rightarrow> Some (Inl e, w)
        | Inr backends \<Rightarrow>
            (case run (be_run env) cfg (workflow_inputs env spec vars run_dir run_id p backends cwd) 0 w of
               None \<Rightarrow> None
             | Some ((Inl e, _), w1) \<Rightarrow> Some (Inl (PhaseFailedErr (ph_name p) e), w1)
             | Some ((Inr x, _), w1) \<Rightarrow>
                 (case rd_read (rn_reader (be_run env) w1) (po_artefact_path x) of
                    Inl e \<Rightarrow> Some (Inl (OutputUnreadable (po_artefact_path x) e), w1)
                  | Inr content \<Rightarrow> run_phases env spec vars cwd run_dir run_id ps
                      (outs(ph_name p \<mapsto> (content, po_artefact_path x))) (paths @ [po_artefact_path x]) w1))))"

definition run_phase_workflow ::
  "('w, 'c) bridge_env \<Rightarrow> 'v workflow \<Rightarrow> string option \<Rightarrow> (string \<rightharpoonup> string) \<Rightarrow> path \<Rightarrow> path \<Rightarrow> string \<Rightarrow> 'w \<Rightarrow>
     ((bridge_error, dir list) result \<times> 'w) option" where
  "run_phase_workflow env flow spec vars cwd run_dir run_id w =
     run_phases env spec vars cwd run_dir run_id (wf_phases flow) Map.empty [] w"

subsection \<open>What a phase is given\<close>

lemma build_phase_config_ok:
  assumes "build_phase_config p outs spec vars = Inr cfg"
  shows "render_template (bridge_ctx outs spec vars) (ph_prompt_template p) = Inr (cf_prompt_template cfg)"
    and "cf_phase cfg = ph_name p" "cf_artefact_name cfg = ph_output p" "cf_verify cfg = VhNone"
    and "cf_strategy cfg = fst (strategy_parts p)" "cf_min_responses cfg = min_responses_of (ph_strategy p)"
  using assms by (auto simp: build_phase_config_def map_err_def split: prod.splits sum.splits)

text \<open>
  Where the text of a phase comes from, given the rendered prompt: in a single phase the first backend is
  asked the prompt, after the second engine, and its answer is the text; in a parallel phase the text is the
  concatenation for a fan-out of the prompt to all backends. An escalating phase gives none.
\<close>

definition phase_text ::
  "(disk, 'c) bridge_env \<Rightarrow> string option \<Rightarrow> (string \<rightharpoonup> string) \<Rightarrow> path \<Rightarrow> string \<Rightarrow> 'v phase \<Rightarrow> string \<Rightarrow> string \<Rightarrow> bool" where
  "phase_text env spec vars run_dir run_id p prompt content \<longleftrightarrow>
     (\<exists>backends. resolve_phase_backends env p = Inr backends \<and>
       (case ph_strategy p of
          WfSingle \<Rightarrow> (\<exists>chosen asked w q w1. find_backend (backend_scheme (hd (ph_backends p))) backends = Some chosen \<and>
            be_render env (map bk_name backends) spec vars prompt = Inr asked \<and>
            bk_query chosen asked run_dir None w = (Inr q, w1) \<and> content = qo_stdout q)
        | WfParallel n \<Rightarrow> (\<exists>w out w1 w2 sel.
            exec_fan (rn_fan (be_run env)) \<lparr>pf_targets = map target_of (ph_backends p), pf_min_responses = n,
              pf_prompt_template = prompt, pf_aggregator = Concat ''## {backend_id}''\<rparr> backends \<lparr>pr_model = None\<rparr>
              (pi_ctx (workflow_inputs env spec vars run_dir run_id p backends run_dir)) w = (Inr out, w1) \<and>
            canonical_bytes (rn_files (be_run env)) run_dir w2 out (Concat ''## {backend_id}'') =
              (Inr (content, sel) :: (run_error, bytes \<times> 32 word) result))
        | WfEscalating _ \<Rightarrow> False))"

text \<open>
  The run of a workflow, phase by phase: the prompt is rendered from the texts of the phases before, and the
  text that comes of it is committed and given to the phases behind.
\<close>

inductive phase_chain ::
  "(disk, 'c) bridge_env \<Rightarrow> string option \<Rightarrow> (string \<rightharpoonup> string) \<Rightarrow> path \<Rightarrow> string \<Rightarrow> 'v phase list \<Rightarrow> phase_outputs \<Rightarrow> dir list \<Rightarrow> bool"
  for env spec vars run_dir run_id where
  chain_end: "phase_chain env spec vars run_dir run_id [] outs []"
| chain_step: "build_phase_config p outs spec vars = Inr cfg \<Longrightarrow>
    render_template (bridge_ctx outs spec vars) (ph_prompt_template p) = Inr (cf_prompt_template cfg) \<Longrightarrow>
    phase_text env spec vars run_dir run_id p (cf_prompt_template cfg) content \<Longrightarrow>
    committed (rn_libs (be_run env)) cfg (components run_dir) content entry (file_of w) \<Longrightarrow>
    phase_chain env spec vars run_dir run_id ps (outs(ph_name p \<mapsto> (content, pjoin (components run_dir) (ph_output p)))) paths \<Longrightarrow>
    phase_chain env spec vars run_dir run_id (p # ps) outs (pjoin (components run_dir) (ph_output p) # paths)"

inductive_cases chain_consE: "phase_chain env spec vars run_dir run_id (p # ps) outs paths"

text \<open>Everything is on one disk: the runner, the strategies and the reading of attempts.\<close>

definition bridge_on_disk :: "(disk, 'c) bridge_env \<Rightarrow> bool" where
  "bridge_on_disk env \<longleftrightarrow> on_disk (be_run env) \<and> rn_files (be_run env) = disk_files_of \<and> be_ops env = disk_fs"

text \<open>The artefact of a single phase is the answer: it is written as the first attempt and read again.\<close>

lemma single_answer:
  assumes "single_execute sm backends p ctx w = (Inr out, w')" "pc_ops ctx = disk_fs" "\<not> is_cur_dir (pc_cwd ctx)"
    and "canonical_bytes disk_files_of (pc_cwd ctx) w' out First = (Inr (content, sel) :: (run_error, bytes \<times> 32 word) result)"
  shows "\<exists>chosen asked q w1. find_backend (sm_backend sm) backends = Some chosen \<and>
    pc_render ctx (sm_prompt_template sm) = Inr asked \<and>
    bk_query chosen asked (pc_cwd ctx) (pr_model p) w = (Inr q, w1) \<and> content = qo_stdout q"
proof -
  let ?f = "path_join (pc_cwd ctx) ''attempts/0.txt''"
  from assms(1) obtain chosen asked q w1 where run: "find_backend (sm_backend sm) backends = Some chosen"
    "pc_render ctx (sm_prompt_template sm) = Inr asked" "bk_query chosen asked (pc_cwd ctx) (pr_model p) w = (Inr q, w1)"
    "single_write_output ctx ''attempts/0.txt'' (qo_stdout q) w1 = (Inr (), w')"
    "out = single_output ctx (single_attempt chosen q p)"
    by (auto simp: single_execute_def split: if_splits option.splits sum.splits prod.splits)
  from run(4) assms(2,3) obtain w2 where "fs_write disk_fs ?f (qo_stdout q) w2 = (Inr (), w')"
    by (auto simp: single_write_output_def Let_def simp del: disk_fs_simps split: prod.splits sum.splits)
  then have "file_of w' (components ?f) = Some (qo_stdout q)" by (simp only: disk_files.write_ok) simp
  moreover have "resolve_output_path (pc_cwd ctx) ''attempts/0.txt'' = ?f" by (simp add: resolve_output_path_def is_absolute_def)
  ultimately have "content = qo_stdout q"
    using assms(4) by (auto simp: run(5) canonical_bytes_def canonical_by_aggregator_def winning_success_bytes_def attempt_bytes_def
        single_output_def single_attempt_def wins_def no_error_def vo_skipped_def disk_files_of_def reader_of_def file_of_def
        split: option.splits node.splits)
  with run(1-3) show ?thesis by blast
qed

lemma workflow_inputs_simps [simp]:
  "pi_run_dir (workflow_inputs env spec vars run_dir run_id p backends cwd) = run_dir"
  "pi_verify (workflow_inputs env spec vars run_dir run_id p backends cwd) = None"
  "pi_backends (workflow_inputs env spec vars run_dir run_id p backends cwd) = backends"
  "pi_prompt (workflow_inputs env spec vars run_dir run_id p backends cwd) = \<lparr>pr_model = None\<rparr>"
  "(pi_ctx (workflow_inputs env spec vars run_dir run_id p backends cwd))\<lparr>pc_cwd := d\<rparr> =
     pi_ctx (workflow_inputs env spec vars run_dir run_id p backends d)"
  by (simp_all add: workflow_inputs_def)

lemma executed_text:
  assumes "build_phase_config p outs spec vars = Inr cfg" "resolve_phase_backends env p = Inr backends"
    and "bridge_on_disk env" "\<not> is_cur_dir run_dir"
    and "(resolve_strategy redact cfg None :: (run_error, disk strategy) result option) = Some (Inr strategy)"
    and "execute_strategy (rn_fan (be_run env)) strategy backends \<lparr>pr_model = None\<rparr>
      (pi_ctx (workflow_inputs env spec vars run_dir run_id p backends run_dir)) wa = (Inr out, wb)"
    and "start_attempts (be_run env) d (cf_phase cfg) 0 [1..<length (so_attempts out)] wb = (Inr (), w1)"
    and "canonical_bytes (rn_files (be_run env)) run_dir w1 out (resolve_aggregator (cf_aggregator cfg)) =
      (Inr (content, sel) :: (run_error, bytes \<times> 32 word) result)"
  shows "phase_text env spec vars run_dir run_id p (cf_prompt_template cfg) content"
proof -
  let ?ctx = "pi_ctx (workflow_inputs env spec vars run_dir run_id p backends run_dir)"
  have cfg: "cf_strategy cfg = fst (strategy_parts p)" "cf_aggregator cfg = fst (snd (strategy_parts p))"
    "cf_targets cfg = snd (snd (snd (strategy_parts p)))" "cf_min_responses cfg = min_responses_of (ph_strategy p)"
    "cf_backend cfg = map_option backend_scheme (case ph_backends p of [] \<Rightarrow> None | b # _ \<Rightarrow> Some b)"
    using assms(1) by (auto simp: build_phase_config_def map_err_def split: prod.splits sum.splits)
  have ctx: "pc_ops ?ctx = disk_fs" "pc_cwd ?ctx = run_dir" "pc_render ?ctx = be_render env (map bk_name backends) spec vars"
    using assms(3) by (simp_all add: workflow_inputs_def bridge_on_disk_def)
  show ?thesis
  proof (cases "ph_strategy p")
    case WfSingle
    with cfg assms(5) obtain raw more where b: "ph_backends p = raw # more"
      by (cases "ph_backends p") (simp_all add: resolve_strategy_def strategy_parts_def)
    let ?sm = "\<lparr>sm_backend = backend_scheme raw, sm_prompt_template = cf_prompt_template cfg\<rparr>"
    from WfSingle b cfg assms(5,6) have x: "single_execute ?sm backends \<lparr>pr_model = None\<rparr> ?ctx wa = (Inr out, wb)"
      by (auto simp: resolve_strategy_def strategy_parts_def)
    then have "length (so_attempts out) = 1"
      by (auto simp: single_execute_def single_output_def split: if_splits option.splits sum.splits prod.splits)
    with assms(3,7,8) WfSingle cfg(2) have cb: "canonical_bytes disk_files_of (pc_cwd ?ctx) wb out First =
        (Inr (content, sel) :: (run_error, bytes \<times> 32 word) result)"
      by (simp add: bridge_on_disk_def strategy_parts_def ctx(2))
    have "\<not> is_cur_dir (pc_cwd ?ctx)" using assms(4) by (simp add: ctx(2))
    note single_answer [OF x ctx(1) this cb, unfolded ctx(2,3) single_model.simps prompt.simps]
    then have "\<exists>chosen asked w q w1. find_backend (backend_scheme raw) backends = Some chosen \<and>
        be_render env (map bk_name backends) spec vars (cf_prompt_template cfg) = Inr asked \<and>
        bk_query chosen asked run_dir None w = (Inr q, w1) \<and> content = qo_stdout q" by blast
    with WfSingle b assms(2) show ?thesis by (simp add: phase_text_def)
  next
    case (WfParallel n)
    with cfg assms(5) have "strategy = StParallel \<lparr>pf_targets = map target_of (ph_backends p), pf_min_responses = n,
        pf_prompt_template = cf_prompt_template cfg, pf_aggregator = Concat ''## {backend_id}''\<rparr>"
      by (auto simp: resolve_strategy_def strategy_parts_def min_responses_of_def parallel_fanout_new_def split: if_splits)
    with WfParallel assms(2,6,8) cfg(2) show ?thesis
      unfolding phase_text_def by (auto simp: exec_fan_def strategy_parts_def)
  next
    case (WfEscalating b)
    with cfg assms(5) show ?thesis by (simp add: resolve_strategy_def strategy_parts_def)
  qed
qed

definition phase_layout :: "dir \<Rightarrow> 'v phase \<Rightarrow> bool" where
  "phase_layout d p \<longleftrightarrow> safe_layout (config_single (ph_name p) [] [] (ph_output p)) d"

lemma phase_layout_cfg:
  "cf_phase cfg = ph_name p \<Longrightarrow> cf_artefact_name cfg = ph_output p \<Longrightarrow> phase_layout d p \<longleftrightarrow> safe_layout cfg d"
  by (simp add: phase_layout_def safe_layout_def artefact_path_def completed_file_def config_single_def)

lemma run_phases_chain:
  assumes "run_phases env spec vars cwd run_dir run_id ps outs pre w = Some (Inr paths, w')"
    and "bridge_on_disk env" "\<not> is_cur_dir run_dir" "list_all (phase_layout (components run_dir)) ps"
  shows "\<exists>new. paths = pre @ new \<and> phase_chain env spec vars run_dir run_id ps outs new"
  using assms
proof (induction ps arbitrary: outs pre w)
  case Nil
  then show ?case by (auto intro: chain_end)
next
  case (Cons p ps)
  let ?d = "components run_dir"
  have od: "on_disk (be_run env)" using Cons.prems(2) by (simp add: bridge_on_disk_def)
  obtain cfg where cfg: "build_phase_config p outs spec vars = Inr cfg"
    using Cons.prems(1) by (cases "build_phase_config p outs spec vars") simp_all
  obtain backends where b: "resolve_phase_backends env p = Inr backends"
    using Cons.prems(1) cfg by (cases "resolve_phase_backends env p") simp_all
  let ?inp = "workflow_inputs env spec vars run_dir run_id p backends cwd"
  obtain x evs w1 where r: "run (be_run env) cfg ?inp 0 w = Some ((Inr x, evs), w1)"
    using Cons.prems(1) cfg b by (auto split: option.splits prod.splits sum.splits)
  note ok = build_phase_config_ok [OF cfg]
  have "safe_layout cfg (components (pi_run_dir ?inp))"
    using Cons.prems(4) phase_layout_cfg [OF ok(2,3), of ?d] by simp
  from run_success_content [OF r od this] obtain strategy wa out wb v content sel where
    c: "(resolve_strategy (rn_redact (be_run env)) cfg None :: (run_error, disk strategy) result option) = Some (Inr strategy)"
      "execute_strategy (rn_fan (be_run env)) strategy backends \<lparr>pr_model = None\<rparr>
        (pi_ctx (workflow_inputs env spec vars run_dir run_id p backends run_dir)) wa = (Inr out, wb)"
      "start_attempts (be_run env) ?d (cf_phase cfg) 0 [1..<length (so_attempts out)] wb = (Inr (), v)"
      "canonical_bytes (rn_files (be_run env)) run_dir v out (resolve_aggregator (cf_aggregator cfg)) =
        (Inr (content, sel) :: (run_error, bytes \<times> 32 word) result)"
      "po_artefact_path x = artefact_path cfg ?d" "committed (rn_libs (be_run env)) cfg ?d content (po_entry x) (file_of w1)"
    unfolding workflow_inputs_simps by (elim exE conjE)
  note given = executed_text [OF cfg b Cons.prems(2,3) c(1-4)]
  have path: "artefact_path cfg ?d = pjoin ?d (ph_output p)" by (simp add: artefact_path_def ok(3))
  have "rd_read (rn_reader (be_run env) w1) (po_artefact_path x) = Inr content"
    using c(5,6) od by (auto simp: committed_def on_disk_def reader_of_def file_of_def split: option.splits node.splits)
  with Cons.prems(1) cfg b r c(5) path have rest: "run_phases env spec vars cwd run_dir run_id ps
      (outs(ph_name p \<mapsto> (content, pjoin ?d (ph_output p)))) (pre @ [pjoin ?d (ph_output p)]) w1 = Some (Inr paths, w')"
    by simp
  have "list_all (phase_layout ?d) ps" using Cons.prems(4) by simp
  from Cons.IH [OF rest Cons.prems(2,3) this] obtain new where
    new: "paths = (pre @ [pjoin ?d (ph_output p)]) @ new"
      "phase_chain env spec vars run_dir run_id ps (outs(ph_name p \<mapsto> (content, pjoin ?d (ph_output p)))) new" by (elim exE conjE)
  from chain_step [OF cfg ok(1) given c(6) new(2)] new(1) show ?case by auto
qed

lemma chain_paths: "phase_chain env spec vars run_dir run_id ps outs paths \<Longrightarrow> paths = map (\<lambda>p. pjoin (components run_dir) (ph_output p)) ps"
  by (induction rule: phase_chain.induct) simp_all


subsection \<open>Phases that cannot run\<close>

lemma run_needs_strategy:
  fixes env :: "'w run_env"
  assumes "run env cfg inp initial w = Some ((Inr x, evs), w')"
  shows "\<exists>s. (resolve_strategy (rn_redact env) cfg (pi_verify inp) :: (run_error, 'w strategy) result option) = Some (Inr s)"
proof -
  obtain rs w1 where st: "start_attempt env (components (pi_run_dir inp)) (cf_phase cfg) initial w = (rs, w1)"
    by (metis prod.exhaust)
  show ?thesis
  proof (cases "resolve_strategy (rn_redact env) cfg (pi_verify inp) :: (run_error, 'w strategy) result option")
    case None
    with assms st show ?thesis by (auto simp: run_def Let_def split: sum.splits)
  next
    case (Some r)
    with assms st show ?thesis by (cases r) (auto simp: run_def Let_def split: sum.splits)
  qed
qed

lemma run_phases_all_succeed:
  assumes "run_phases env spec vars cwd run_dir run_id ps outs pre w = Some (Inr paths, w')" "p \<in> set ps"
  shows "\<exists>outs cfg backends w x evs w1. build_phase_config p outs spec vars = Inr cfg \<and>
    run (be_run env) cfg (workflow_inputs env spec vars run_dir run_id p backends cwd) 0 w = Some ((Inr x, evs), w1)"
  using assms
proof (induction ps arbitrary: outs pre w)
  case (Cons q ps)
  obtain cfg where cfg: "build_phase_config q outs spec vars = Inr cfg"
    using Cons.prems(1) by (cases "build_phase_config q outs spec vars") simp_all
  obtain backends where b: "resolve_phase_backends env q = Inr backends"
    using Cons.prems(1) cfg by (cases "resolve_phase_backends env q") simp_all
  obtain x evs w1 where r: "run (be_run env) cfg (workflow_inputs env spec vars run_dir run_id q backends cwd) 0 w = Some ((Inr x, evs), w1)"
    using Cons.prems(1) cfg b by (auto split: option.splits prod.splits sum.splits)
  show ?case
  proof (cases "p = q")
    case True
    with cfg r show ?thesis by blast
  next
    case False
    from Cons.prems(1) cfg b r obtain content where
      "run_phases env spec vars cwd run_dir run_id ps (outs(ph_name q \<mapsto> (content, po_artefact_path x)))
        (pre @ [po_artefact_path x]) w1 = Some (Inr paths, w')" by (auto split: sum.splits)
    from Cons.IH [OF this] False Cons.prems(2) show ?thesis by simp
  qed
qed simp

text \<open>
  No workflow with an escalating phase, or with a parallel phase that asks for no response, ever
  succeeds: the runner insists on a verification hook that the bridge never passes, and on a
  positive number of responses. The grammar accepts both.
\<close>

theorem unsupported_phase_never_succeeds:
  assumes "p \<in> set (wf_phases flow)" "ph_strategy p = WfEscalating c \<or> ph_strategy p = WfParallel 0"
  shows "run_phase_workflow env flow spec vars cwd run_dir run_id w \<noteq> Some (Inr paths, w')"
proof
  assume "run_phase_workflow env flow spec vars cwd run_dir run_id w = Some (Inr paths, w')"
  from run_phases_all_succeed [OF this [unfolded run_phase_workflow_def] assms(1)] obtain outs cfg backends w1 x evs w2 where
    r: "build_phase_config p outs spec vars = Inr cfg"
      "run (be_run env) cfg (workflow_inputs env spec vars run_dir run_id p backends cwd) 0 w1 = Some ((Inr x, evs), w2)"
    by (elim exE conjE)
  from run_needs_strategy [OF r(2)] assms(2) build_phase_config_ok(5,6) [OF r(1)] show False
    by (auto simp: resolve_strategy_def strategy_parts_def min_responses_of_def workflow_inputs_def parallel_fanout_new_def)
qed

lemma hd_split_slash: "hd (split_slash s) = takeWhile (\<lambda>c. c \<noteq> CHR ''/'') s"
  by (induction s) (auto split: list.splits)

lemma takeWhile_append_stop: "list_all (\<lambda>c. \<not> P c) t \<Longrightarrow> takeWhile P (s @ t) = takeWhile P s"
  by (induction s) (cases t; simp)+

lemma backend_scheme_before_slash: "backend_scheme raw = takeWhile (\<lambda>c. c \<noteq> CHR ''/'') raw"
proof -
  define tail where "tail = rev (takeWhile (\<lambda>c. c = CHR ''/'') (rev raw))"
  have raw: "raw = trim_end_slashes raw @ tail"
    by (simp add: trim_end_slashes_def tail_def flip: rev_append)
  have "list_all (\<lambda>c. \<not> c \<noteq> CHR ''/'') tail"
    unfolding tail_def by (auto simp: list_all_iff dest: set_takeWhileD)
  from takeWhile_append_stop [OF this, of "trim_end_slashes raw"]
  have "takeWhile (\<lambda>c. c \<noteq> CHR ''/'') raw = takeWhile (\<lambda>c. c \<noteq> CHR ''/'') (trim_end_slashes raw)"
    by (simp flip: raw)
  then show ?thesis by (simp add: backend_scheme_def hd_split_slash)
qed

text \<open>The model of a backend reference is dropped unless the phase is parallel.\<close>

lemma model_dropped:
  assumes "ph_strategy p = WfSingle" "CHR ''/'' \<notin> set s"
  shows "build_phase_config (p\<lparr>ph_backends := [s @ CHR ''/'' # m]\<rparr>) outs spec vars =
    build_phase_config (p\<lparr>ph_backends := [s @ CHR ''/'' # m']\<rparr>) outs spec vars"
proof -
  have "backend_scheme (s @ CHR ''/'' # t) = s" for t
    using assms(2) by (simp add: backend_scheme_before_slash takeWhile_append takeWhile_tail)
  with assms(1) show ?thesis by (simp add: build_phase_config_def strategy_parts_def medium_rung_def)
qed

subsection \<open>Examples\<close>

definition demo_bridge :: "(disk, unit) bridge_env" where
  "demo_bridge = \<lparr>be_run = demo_run_env, be_config = [''claude'' \<mapsto> ()],
     be_create = (\<lambda>n _. Inr \<lparr>bk_name = n, bk_query = (\<lambda>_ _ _ w. (Inr (from_text ''text'' ''b'' 1), w))\<rparr>),
     be_render = (\<lambda>_ _ _ s. Inr s), be_render_value = (\<lambda>s _. Inr s), be_ops = disk_fs\<rparr>"

definition demo_phase :: "string \<Rightarrow> wf_strategy \<Rightarrow> string list \<Rightarrow> string \<Rightarrow> string \<Rightarrow> unit phase" where
  "demo_phase name strategy backends template output = \<lparr>ph_name = name, ph_strategy = strategy, ph_backends = backends,
     ph_prompt_template = template, ph_inputs = [''spec''], ph_output = output, ph_contract = None\<rparr>"

definition demo_flow :: "unit phase list \<Rightarrow> unit workflow" where
  "demo_flow ps = \<lparr>wf_name = ''w'', wf_description = None, wf_phases = ps, wf_defaults = None\<rparr>"

definition demo_two_phases :: "unit phase list" where
  "demo_two_phases = [demo_phase ''a'' WfSingle [''claude/''] ''{{ spec }}'' ''a.md'',
     demo_phase ''b'' WfSingle [''claude/''] ''{{ phase.a.output }}'' ''b.md'']"

definition demo_escalating :: "unit workflow" where
  "demo_escalating = demo_flow [demo_phase ''a'' (WfEscalating False) [''claude/'', ''codex/''] ''x'' ''a.md'']"

definition demo_no_responses :: "unit workflow" where
  "demo_no_responses = demo_flow [demo_phase ''a'' (WfParallel 0) [''claude/''] ''x'' ''a.md'']"

fun finished :: "((bridge_error, dir list) result \<times> 'w) option \<Rightarrow> bool" where
  "finished (Some (Inr _, _)) = True"
| "finished _ = False"

lemma demo_workflow_finishes: "finished (run_phase_workflow demo_bridge (demo_flow demo_two_phases) (Some ''s'') Map.empty ''.'' ''run'' ''r'' demo_fresh)"
  by code_simp

lemma demo_no_responses_panics:
  "run_phase_workflow demo_bridge demo_no_responses None Map.empty ''.'' ''run'' ''r'' demo_fresh = None"
  by code_simp

lemma demo_both_valid: "validate demo_escalating = []" "validate demo_no_responses = []"
  by code_simp+

lemma finished_iff: "finished r \<longleftrightarrow> (\<exists>paths w'. r = Some (Inr paths, w'))"
  by (cases r rule: finished.cases) auto


theorem unsupported_phase_never_succeeds_witness:
  "validate demo_escalating = [] \<and>
     \<not> finished (run_phase_workflow demo_bridge demo_escalating None Map.empty ''.'' ''run'' ''r'' demo_fresh)"
proof -
  let ?p = "demo_phase ''a'' (WfEscalating False) [''claude/'', ''codex/''] ''x'' ''a.md''"
  have p: "?p \<in> set (wf_phases demo_escalating)" by (simp add: demo_escalating_def demo_flow_def)
  have s: "ph_strategy ?p = WfEscalating False \<or> ph_strategy ?p = WfParallel 0" by (simp add: demo_phase_def)
  show ?thesis
  proof (intro conjI notI demo_both_valid(1))
    assume "finished (run_phase_workflow demo_bridge demo_escalating None Map.empty ''.'' ''run'' ''r'' demo_fresh)"
    then show False unfolding finished_iff by (elim exE) (rule notE [OF unsupported_phase_never_succeeds [OF p s]])
  qed
qed

end
