(* ===== verification/Resume.thy ===== *)
theory Resume
  imports PhaseProps RunStateProps PhaseLock
begin

text \<open>
  \<open>src/resume.rs\<close>: the plan of a resume from the state of a run and its execution under the lock of
  each phase. The rename of a
  directory, the advisory locks and the faults of the lock file are functions of the world.
  Attempt numbers wrap at \<open>2\<^sup>3\<^sup>2\<close>, as in a release build.
\<close>

subsection \<open>Types\<close>

datatype resume_error =
    RsRunInProgress int
  | RsManifest manifest_error
  | RsLoad load_error
  | RsPhase run_error
  | RsMarker marker_error
  | RsIo io_error
  | RsLockInUse
  | RsPhaseLocked string "32 word" string int
  | RsPhaseLock lock_error

datatype phase_action = Skip | ResumeAt "32 word" | RunFresh

record resume_plan =
  rp_run_dir :: path
  rp_actions :: "(config \<times> phase_action) list"
  rp_swept :: "dir list"
  rp_run_id :: string

record 'w resume_env =
  re_run :: "'w run_env"
  re_backends :: "'w backend list"
  re_move :: "dir \<Rightarrow> dir \<Rightarrow> ('w, unit) io"
  re_real_dir :: "dir \<Rightarrow> 'w \<Rightarrow> bool"
  re_lock :: "'w \<Rightarrow> lock_env"
  re_lock_io :: "'w \<Rightarrow> acquire_io"
  re_lock_file :: "dir \<Rightarrow> string \<Rightarrow> 'w \<Rightarrow> string option \<times> bool"
  re_set_lock :: "dir \<Rightarrow> string \<Rightarrow> string option \<times> bool \<Rightarrow> 'w \<Rightarrow> 'w"
  re_render :: "string \<Rightarrow> (string, string) result"
  re_render_value :: "string \<Rightarrow> json \<Rightarrow> (string, string) result"
  re_ops :: "'w fs_ops"
  re_uuid :: "string \<Rightarrow> string"

subsection \<open>Archiving\<close>

definition archive_current_attempt ::
  "'w resume_env \<Rightarrow> dir \<Rightarrow> string \<Rightarrow> 32 word \<Rightarrow> 'w \<Rightarrow> (resume_error, dir) result \<times> 'w" where
  "archive_current_attempt env run_dir phase attempt w =
     (let src = pjoin run_dir phase; ops = rn_ops (re_run env); rd = rn_reader (re_run env) in
      if \<not> rd_exists (rd w) src then (Inr src, w)
      else let dest_parent = pjoin (pjoin run_dir ''attempts'') phase in
        (case do_mkdirs ops dest_parent w of
           (Inl e, w1) \<Rightarrow> (Inl (RsIo e), w1)
         | (Inr _, w1) \<Rightarrow>
             let dest = pjoin dest_parent (nat_str (unat attempt)) in
             if rd_exists (rd w1) dest then
               (Inl (RsIo (Io (''archive destination already exists: '' @ show_dir dest))), w1)
             else (case re_move env src dest w1 of
                 (Inl e, w2) \<Rightarrow> (Inl (RsIo e), w2)
               | (Inr _, w2) \<Rightarrow> (Inr dest, snd (do_sync ops dest_parent w2)))))"

subsection \<open>The plan\<close>

definition plan_phase :: "libs \<Rightarrow> reader \<Rightarrow> dir \<Rightarrow> run_state \<Rightarrow> config \<Rightarrow> (resume_error, config \<times> phase_action) result" where
  "plan_phase L rd run_dir st cfg =
     (let resume = rbind (map_err RsMarker (next_attempt L rd run_dir (cf_phase cfg))) (\<lambda>n. Inr (cfg, ResumeAt n)) in
      case rs_status st (cf_phase cfg) of
        None \<Rightarrow> Inr (cfg, RunFresh)
      | Some PsCompleted \<Rightarrow> Inr (cfg, Skip)
      | Some PsFailed \<Rightarrow> resume
      | Some PsStarted \<Rightarrow> resume
      | Some PsNone \<Rightarrow> Inr (cfg, RunFresh))"

definition plan_resume ::
  "(string \<Rightarrow> string) \<Rightarrow> libs \<Rightarrow> reader \<Rightarrow> path \<Rightarrow> run_state \<Rightarrow> config list \<Rightarrow> dir list \<Rightarrow> (resume_error, resume_plan) result" where
  "plan_resume uuid L rd run_dir st phases swept =
     rbind (seq_results (map (plan_phase L rd (components run_dir) st) phases)) (\<lambda>actions.
       Inr \<lparr>rp_run_dir = run_dir, rp_actions = actions, rp_swept = swept, rp_run_id = uuid (rs_run_id st)\<rparr>)"

subsection \<open>Execution\<close>

definition lock_failure :: "lock_error \<Rightarrow> resume_error" where
  "lock_failure e = (case e of LockInUse phase pid host since \<Rightarrow> RsPhaseLocked phase pid host since | _ \<Rightarrow> RsPhaseLock e)"

definition resume_inputs :: "'w resume_env \<Rightarrow> string \<Rightarrow> path \<Rightarrow> string \<Rightarrow> 'w phase_inputs" where
  "resume_inputs env phase run_dir run_id = \<lparr>pi_backends = re_backends env, pi_prompt = \<lparr>pr_model = None\<rparr>,
     pi_ctx = \<lparr>pc_phase_name = phase, pc_run_id = run_id, pc_cwd = ''.'', pc_render = re_render env,
       pc_render_value = re_render_value env, pc_ops = re_ops env, pc_json = lb_json (rn_libs (re_run env))\<rparr>,
     pi_verify = None, pi_run_dir = run_dir\<rparr>"

text \<open>The lock is dropped when the run is over, whatever its result. \<open>None\<close> is a panic.\<close>

definition resume_phase ::
  "'w resume_env \<Rightarrow> config \<Rightarrow> path \<Rightarrow> 32 word \<Rightarrow> string \<Rightarrow> 'w \<Rightarrow> ((resume_error, unit) result \<times> 'w) option" where
  "resume_phase env cfg run_dir attempt run_id w =
     (let d = components run_dir; phase = cf_phase cfg in
      case acquire (re_lock_io env w) (re_lock env w) (re_real_dir env d w) phase run_id None (re_lock_file env d phase w) of
        (r, s) \<Rightarrow>
          let w1 = re_set_lock env d phase s w in
          (case r of
             Inl e \<Rightarrow> Some (Inl (lock_failure e), w1)
           | Inr _ \<Rightarrow> (case run (re_run env) cfg (resume_inputs env phase run_dir run_id) attempt w1 of
                 None \<Rightarrow> None
               | Some ((r', _), w2) \<Rightarrow>
                   Some (case r' of Inl e \<Rightarrow> Inl (RsPhase e) | Inr _ \<Rightarrow> Inr (),
                     re_set_lock env d phase (PhaseLock.release (re_lock_file env d phase w2)) w2))))"

fun execute_actions ::
  "'w resume_env \<Rightarrow> path \<Rightarrow> string \<Rightarrow> (config \<times> phase_action) list \<Rightarrow> 'w \<Rightarrow> ((resume_error, unit) result \<times> 'w) option" where
  "execute_actions env run_dir run_id [] w = Some (Inr (), w)"
| "execute_actions env run_dir run_id ((cfg, action) # rest) w =
     (let next_phase = (\<lambda>attempt w. case resume_phase env cfg run_dir attempt run_id w of
          None \<Rightarrow> None
        | Some (Inl e, w') \<Rightarrow> Some (Inl e, w')
        | Some (Inr _, w') \<Rightarrow> execute_actions env run_dir run_id rest w')
      in case action of
        Skip \<Rightarrow> execute_actions env run_dir run_id rest w
      | RunFresh \<Rightarrow> next_phase 0 w
      | ResumeAt attempt \<Rightarrow> (case archive_current_attempt env (components run_dir) (cf_phase cfg) (attempt - 1) w of
            (Inl e, w') \<Rightarrow> Some (Inl e, w')
          | (Inr _, w') \<Rightarrow> next_phase attempt w'))"

definition execute_resume :: "'w resume_env \<Rightarrow> resume_plan \<Rightarrow> 'w \<Rightarrow> ((resume_error, unit) result \<times> 'w) option" where
  "execute_resume env plan w = execute_actions env (rp_run_dir plan) (rp_run_id plan) (rp_actions plan) w"

subsection \<open>What a plan says\<close>

lemma plan_phase_action:
  "plan_phase L rd d st cfg = Inr (cfg', a) \<longleftrightarrow> cfg' = cfg \<and> (case a of
     Skip \<Rightarrow> rs_status st (cf_phase cfg) = Some PsCompleted
   | RunFresh \<Rightarrow> rs_status st (cf_phase cfg) \<in> {None, Some PsNone}
   | ResumeAt n \<Rightarrow> rs_status st (cf_phase cfg) \<in> {Some PsFailed, Some PsStarted} \<and>
       next_attempt L rd d (cf_phase cfg) = Inr n)"
  by (cases a; cases "next_attempt L rd d (cf_phase cfg)")
    (auto simp: plan_phase_def Let_def split: option.splits phase_status.splits)

text \<open>
  C22: A plan has one action for each phase, in order: a completed phase is skipped, a phase that failed
  or was started is resumed at the next attempt, and a phase without markers is run afresh.
\<close>

theorem plan_resume_spec:
  assumes "plan_resume uuid L rd run_dir st phases swept = Inr plan"
  shows "map fst (rp_actions plan) = phases \<and> list_all (\<lambda>(cfg, a). case a of
     Skip \<Rightarrow> rs_status st (cf_phase cfg) = Some PsCompleted
   | RunFresh \<Rightarrow> rs_status st (cf_phase cfg) \<in> {None, Some PsNone}
   | ResumeAt n \<Rightarrow> rs_status st (cf_phase cfg) \<in> {Some PsFailed, Some PsStarted} \<and>
       next_attempt L rd (components run_dir) (cf_phase cfg) = Inr n) (rp_actions plan)"
proof -
  from assms have "map (plan_phase L rd (components run_dir) st) phases = map Inr (rp_actions plan)"
    by (auto simp: plan_resume_def rbind_Inr seq_results_Inr)
  then show ?thesis
  proof (induction phases arbitrary: plan)
    case (Cons cfg phases)
    then obtain a as where as: "rp_actions plan = a # as" by (cases "rp_actions plan") auto
    with Cons.IH [of "plan\<lparr>rp_actions := as\<rparr>"] Cons.prems
      plan_phase_action [of L rd "components run_dir" st cfg "fst a" "snd a"] show ?case
      by (cases a; cases "snd a") auto
  qed simp
qed

text \<open>Resuming a run whose phases are all completed does nothing.\<close>

theorem completed_run_resumes_quietly:
  assumes "list_all (\<lambda>cfg. rs_status st (cf_phase cfg) = Some PsCompleted) phases"
  shows "\<exists>plan. plan_resume uuid L rd run_dir st phases swept = Inr plan \<and> execute_resume env plan w = Some (Inr (), w)"
proof -
  have "map (plan_phase L rd (components run_dir) st) phases = map Inr (map (\<lambda>cfg. (cfg, Skip)) phases)"
    using assms by (induction phases) (simp_all add: plan_phase_def Let_def)
  then have "seq_results (map (plan_phase L rd (components run_dir) st) phases) = Inr (map (\<lambda>cfg. (cfg, Skip)) phases)"
    by (simp only: seq_results_Inr)
  moreover have "execute_actions env run_dir rid (map (\<lambda>cfg. (cfg, Skip)) phases) w = Some (Inr (), w)" for rid
    by (induction phases) simp_all
  ultimately show ?thesis by (simp add: plan_resume_def execute_resume_def)
qed

subsection \<open>A failure that blocks its own resume\<close>

lemma attempt_path_plain:
  "attempt_path d phase n = pjoin (pjoin d ''attempts'') phase @ [Normal (nat_str (unat n))]"
proof -
  have ne: "pjoin ks p \<noteq> []" if "ks \<noteq> []" for ks p
    using that by (auto simp: pjoin_def components_def lead_components_def)
  have "pjoin d ''attempts'' \<noteq> []"
    by (cases "d = []") (simp_all add: pjoin_def components_def body_components_def to_component_def)
  note ne = ne [OF this, of phase]
  have digits: "CHR ''.'' \<notin> set (nat_str m)" "CHR ''/'' \<notin> set (nat_str m)" for m
    using nat_str_digits [of "CHR ''.''" m] nat_str_digits [of "CHR ''/''" m] by auto
  have "nat_str m \<noteq> ''.''" "nat_str m \<noteq> ''..''" for m
    using digits(1) [of m] by auto
  with ne digits show ?thesis
    unfolding attempt_path_def by (intro pjoin_plain) simp_all
qed

lemma failure_dir_stays:
  assumes "record_terminal_failure_with_hitl env d cfg n cls hitl w = (Inr u, w')" "rn_ops env = disk_ops" "n \<noteq> 0"
  shows "node_at w' (attempt_path d (cf_phase cfg) (n - 1)) = Some DirNode"
proof -
  let ?a = "attempt_path d (cf_phase cfg) (n - 1)"
  obtain r1 w1 where 1: "disk_mkdirs ?a w = (r1, w1)" by (metis prod.exhaust)
  with assms obtain u1 where r1: "r1 = Inr u1"
    by (cases r1) (auto simp: record_terminal_failure_with_hitl_def archive_failed_attempt_def Let_def)
  have d1: "node_at w1 ?a = Some DirNode"
    using mkdirs_makes_dir [of ?a w u1 w1] 1 r1 by (simp add: attempt_path_plain)
  obtain c r2 w2 where 2: "atomic_write disk_ops (pjoin ?a ''failure-summary.json'') c w1 = (r2, w2)"
    "c = js_show (lb_json (rn_libs env)) (failure_summary (cf_phase cfg) (n - 1) cls)" by (metis prod.exhaust)
  have d2: "node_at w2 ?a = Some DirNode"
    using atomic_write_keeps_dirs [of w1 "pjoin ?a ''failure-summary.json''" c] 2 d1 by (simp add: keeps_dirs_def)
  obtain L ck body r3 w3 where 3: "write_marker L disk_ops d (cf_phase cfg) ''failed'' None body w2 = (r3, w3)" "w' = w3"
    using assms 1 r1 2
    by (auto simp: record_terminal_failure_with_hitl_def archive_failed_attempt_def Let_def write_failed_def split: sum.splits prod.splits)
  from 3(1) have "keeps_dirs w2 w3"
  proof (cases "disk_mkdirs (markers_dir d) w2")
    case (Pair r w4)
    have "keeps_dirs w2 w4" using disk_keeps_dirs(6) [of w2 "markers_dir d"] Pair by simp
    moreover have "w3 = w4 \<or> (\<exists>k c. w3 = snd (atomic_write disk_ops k c w4))"
      using 3(1) Pair by (cases r) (auto simp: write_marker_def split: prod.splits, metis snd_conv)
    ultimately show ?thesis using atomic_write_keeps_dirs keeps_dirs_trans by blast
  qed
  with d2 3(2) show ?thesis by (simp add: keeps_dirs_def)
qed

text \<open>
  The record of a failure creates the directory that the resume wants to move the phase's
  directory to. So a failed phase that has a directory of its own (those of the fan-out and of the
  ladder have one) cannot be resumed: with the number the planner computes for it, the archiving
  finds its destination there and gives up, and nothing of the plan runs.
\<close>

theorem failed_phase_not_resumable:
  assumes "record_terminal_failure_with_hitl (re_run env) (components run_dir) cfg n cls hitl w = (Inr (), w')"
    and "on_disk (re_run env)" "n \<noteq> 0" "node_at w' (pjoin (components run_dir) (cf_phase cfg)) \<noteq> None"
  shows "\<exists>e w''. execute_actions env run_dir run_id ((cfg, ResumeAt n) # rest) w' = Some (Inl e, w'')"
proof -
  let ?d = "components run_dir"
  let ?parent = "pjoin (pjoin ?d ''attempts'') (cf_phase cfg)"
  have env: "rn_ops (re_run env) = disk_ops" "rn_reader (re_run env) = reader_of" using assms(2) by (simp_all add: on_disk_def)
  have dest: "pjoin ?parent (nat_str (unat (n - 1))) = attempt_path ?d (cf_phase cfg) (n - 1)" by (simp add: attempt_path_def)
  have there: "node_at w' (attempt_path ?d (cf_phase cfg) (n - 1)) = Some DirNode"
    by (rule failure_dir_stays [OF assms(1) env(1) assms(3)])
  obtain r w1 where m: "disk_mkdirs ?parent w' = (r, w1)" by (metis prod.exhaust)
  have "node_at w1 (attempt_path ?d (cf_phase cfg) (n - 1)) = Some DirNode"
    using there disk_keeps_dirs(6) [of w' ?parent] m by (simp add: keeps_dirs_def)
  then have "\<exists>e w''. archive_current_attempt env ?d (cf_phase cfg) (n - 1) w' = (Inl e, w'')"
    using assms(4) m dest by (cases r) (auto simp: archive_current_attempt_def Let_def env reader_of_def)
  then obtain e w'' where "archive_current_attempt env ?d (cf_phase cfg) (n - 1) w' = (Inl e, w'')" by (elim exE)
  then show ?thesis by (simp add: Let_def)
qed

subsection \<open>Examples\<close>

definition demo_resume :: "disk resume_env" where
  "demo_resume = \<lparr>re_run = demo_run_env, re_backends = pi_backends demo_inputs, re_move = disk_rename, re_real_dir = (\<lambda>_ _. True),
     re_lock = (\<lambda>_. demo_lock_env), re_lock_io = (\<lambda>_. quiet_io), re_lock_file = (\<lambda>_ _ _. (None, False)),
     re_set_lock = (\<lambda>_ _ _ w. w), re_render = Inr, re_render_value = (\<lambda>s _. Inr s), re_ops = disk_fs, re_uuid = id\<rparr>"

text \<open>A run directory in which the phase has a directory of its own.\<close>

definition demo_phase_dir :: disk where
  "demo_phase_dir = \<lparr>dk_nodes = [([Normal ''run''], DirNode), ([Normal ''run'', Normal ''plan''], DirNode)], dk_script = [], dk_temps = 0\<rparr>"

definition demo_state :: "phase_status \<Rightarrow> run_state" where
  "demo_state s = \<lparr>rs_run_id = ''r'', rs_entries = [], rs_dropped = [], rs_status = [''plan'' \<mapsto> s], rs_heartbeat = None\<rparr>"

fun recorded_beside :: "dir \<Rightarrow> (run_error, unit) result \<times> disk \<Rightarrow> bool" where
  "recorded_beside k (Inr _, w) = (case node_at w k of Some DirNode \<Rightarrow> True | _ \<Rightarrow> False)"
| "recorded_beside k (Inl _, w) = False"

lemma recorded_beside_iff: "recorded_beside k r \<longleftrightarrow> (\<exists>w. r = (Inr (), w) \<and> node_at w k = Some DirNode)"
  by (cases "(k, r)" rule: recorded_beside.cases) (auto split: option.splits node.splits)

lemma demo_failure_recorded:
  "recorded_beside [Normal ''run'', Normal ''plan'']
     (record_terminal_failure_with_hitl demo_run_env [Normal ''run''] demo_config 1 ''strategy_failed'' None demo_phase_dir)"
  by code_simp

theorem failed_phase_not_resumable_witness:
  "\<exists>w' e w''. record_terminal_failure_with_hitl demo_run_env [Normal ''run''] demo_config 1 ''strategy_failed'' None demo_phase_dir = (Inr (), w') \<and>
     execute_actions demo_resume ''run'' ''r'' [(demo_config, ResumeAt 1)] w' = Some (Inl e, w'')"
proof -
  have env: "re_run demo_resume = demo_run_env" "components ''run'' = [Normal ''run'']" by (simp add: demo_resume_def) code_simp
  have p: "pjoin [Normal ''run''] (cf_phase demo_config) = [Normal ''run'', Normal ''plan'']" by code_simp
  from demo_failure_recorded [unfolded recorded_beside_iff] obtain w' where
    r: "record_terminal_failure_with_hitl demo_run_env [Normal ''run''] demo_config 1 ''strategy_failed'' None demo_phase_dir = (Inr (), w')"
    and f: "node_at w' [Normal ''run'', Normal ''plan''] = Some DirNode" by (elim exE conjE)
  have "record_terminal_failure_with_hitl (re_run demo_resume) (components ''run'') demo_config 1 ''strategy_failed'' None demo_phase_dir = (Inr (), w')"
    using r by (simp only: env)
  moreover have "on_disk (re_run demo_resume)" using demo_on_disk(1) by (simp only: env)
  moreover have "(1::32 word) \<noteq> 0" by simp
  moreover have "node_at w' (pjoin (components ''run'') (cf_phase demo_config)) \<noteq> None" using f by (simp only: env p) simp
  ultimately have "\<exists>e w''. execute_actions demo_resume ''run'' ''r'' [(demo_config, ResumeAt 1)] w' = Some (Inl e, w'')"
    by (rule failed_phase_not_resumable)
  then obtain e w'' where "execute_actions demo_resume ''run'' ''r'' [(demo_config, ResumeAt 1)] w' = Some (Inl e, w'')"
    by (elim exE)
  with r show ?thesis by (intro exI [of _ w'] exI [of _ e] exI [of _ w'']) (rule conjI)
qed

theorem plan_resume_spec_witness:
  "case plan_resume id demo_store_libs attempts_reader ''run'' (demo_state PsCompleted) [demo_config] [] of
     Inr plan \<Rightarrow> map fst (rp_actions plan) = [demo_config] | Inl _ \<Rightarrow> False"
proof -
  have "\<exists>plan. plan_resume id demo_store_libs attempts_reader ''run'' (demo_state PsCompleted) [demo_config] [] = Inr plan"
    by (simp add: plan_resume_def plan_phase_def demo_state_def demo_config_def config_single_def)
  then obtain plan where p: "plan_resume id demo_store_libs attempts_reader ''run'' (demo_state PsCompleted) [demo_config] [] = Inr plan"
    by (elim exE)
  from plan_resume_spec [OF this] p show ?thesis by simp
qed

theorem completed_run_resumes_quietly_witness:
  "\<exists>plan. plan_resume id demo_store_libs attempts_reader ''run'' (demo_state PsCompleted) [demo_config] [] = Inr plan \<and>
     execute_resume demo_resume plan demo_fresh = Some (Inr (), demo_fresh)"
  by (rule completed_run_resumes_quietly) (simp add: demo_state_def demo_config_def config_single_def)

end
