(* ===== verification/Sweep.thy ===== *)
theory Sweep
  imports Disk "HOL-Library.Word"
begin

text \<open>
  \<open>src/resume/sweep.rs\<close>: stale \<open>*.tmp\<close> files of a run directory are moved below its \<open>attempts\<close>
  directory before a resume is planned. Times of change, symbolic links and the clock are functions
  of the world; the fuel bounds the depth of the directories.
\<close>

record 'w sweep_env =
  sv_ops :: "'w disk_ops"
  sv_reader :: "'w \<Rightarrow> reader"
  sv_is_link :: "'w \<Rightarrow> dir \<Rightarrow> (io_error, bool) result"
  sv_mtime :: "'w \<Rightarrow> dir \<Rightarrow> (io_error, nat option) result"
  sv_now :: "'w \<Rightarrow> nat option"
  sv_stamp :: "'w \<Rightarrow> string"

text \<open>\<open>Path::extension\<close>: what follows the last dot, unless that is the first character.\<close>

definition file_extension :: "string \<Rightarrow> string option" where
  "file_extension s =
     (if s = ''..'' then None
      else case rfind_char (CHR ''.'') s of
          None \<Rightarrow> None
        | Some i \<Rightarrow> if i = 0 then None else Some (drop (Suc i) s))"

fun collect_tmp_files ::
  "nat \<Rightarrow> reader \<Rightarrow> (dir \<Rightarrow> (io_error, bool) result) \<Rightarrow> dir \<Rightarrow> string list \<Rightarrow> (io_error, dir list) result option" where
  "collect_tmp_files fuel rd is_link d [] = Some (Inr [])"
| "collect_tmp_files fuel rd is_link d (n # ns) =
     (let path = d @ [Normal n] in
      case (case is_link path of
              Inl e \<Rightarrow> Some (Inl e)
            | Inr True \<Rightarrow> Some (Inr [])
            | Inr False \<Rightarrow>
                if rd_is_dir rd path then
                  (if n = ''attempts'' then Some (Inr [])
                   else case fuel of
                       0 \<Rightarrow> None
                     | Suc fuel' \<Rightarrow>
                         if \<not> rd_exists rd path then Some (Inr [])
                         else (case rd_list rd path of
                             Inl e \<Rightarrow> Some (Inl e)
                           | Inr names \<Rightarrow> collect_tmp_files fuel' rd is_link path names))
                else if file_extension n = Some ''tmp'' then Some (Inr [path])
                else Some (Inr [])) of
        None \<Rightarrow> None
      | Some (Inl e) \<Rightarrow> Some (Inl e)
      | Some (Inr xs) \<Rightarrow> (case collect_tmp_files fuel rd is_link d ns of
            None \<Rightarrow> None
          | Some (Inl e) \<Rightarrow> Some (Inl e)
          | Some (Inr ys) \<Rightarrow> Some (Inr (xs @ ys))))"

definition collect_run :: "nat \<Rightarrow> reader \<Rightarrow> (dir \<Rightarrow> (io_error, bool) result) \<Rightarrow> dir \<Rightarrow> (io_error, dir list) result option" where
  "collect_run fuel rd is_link run_dir =
     (if \<not> rd_exists rd run_dir then Some (Inr [])
      else case rd_list rd run_dir of
          Inl e \<Rightarrow> Some (Inl e)
        | Inr names \<Rightarrow> collect_tmp_files fuel rd is_link run_dir names)"

fun stale_files :: "(dir \<Rightarrow> (io_error, nat option) result) \<Rightarrow> nat \<Rightarrow> dir list \<Rightarrow> (io_error, dir list) result" where
  "stale_files mtime cutoff [] = Inr []"
| "stale_files mtime cutoff (p # ps) =
     rbind (mtime p) (\<lambda>t. rbind (stale_files mtime cutoff ps) (\<lambda>qs.
       Inr (case t of Some secs \<Rightarrow> if secs < cutoff then p # qs else qs | None \<Rightarrow> qs)))"

fun move_all :: "'w disk_ops \<Rightarrow> dir \<Rightarrow> dir \<Rightarrow> dir list \<Rightarrow> dir list \<Rightarrow> 'w \<Rightarrow> (io_error, dir list) result \<times> 'w" where
  "move_all ops run_dir orphan_dir [] swept w = (Inr swept, w)"
| "move_all ops run_dir orphan_dir (p # ps) swept w =
     (let dest = orphan_dir @ drop (length run_dir) p in
      case do_mkdirs ops (parent_dir dest) w of
        (Inl e, w1) \<Rightarrow> (Inl e, w1)
      | (Inr _, w1) \<Rightarrow> (case do_rename ops p dest w1 of
            (Inl e, w2) \<Rightarrow> (Inl e, w2)
          | (Inr _, w2) \<Rightarrow> move_all ops run_dir orphan_dir ps (swept @ [dest]) w2))"

definition orphan_dir_of :: "dir \<Rightarrow> string \<Rightarrow> dir" where
  "orphan_dir_of run_dir stamp = pjoin (pjoin (pjoin run_dir ''attempts'') ''_orphan_tmp'') stamp"

definition sweep_stale_tmp ::
  "nat \<Rightarrow> 'w sweep_env \<Rightarrow> dir \<Rightarrow> 64 word \<Rightarrow> 'w \<Rightarrow> ((io_error, dir list) result \<times> 'w) option" where
  "sweep_stale_tmp fuel env run_dir ttl_seconds w =
     (case sv_now env w of
        None \<Rightarrow> Some (Inr [], w)
      | Some now \<Rightarrow>
          (case collect_run fuel (sv_reader env w) (sv_is_link env w) run_dir of
             None \<Rightarrow> None
           | Some (Inl e) \<Rightarrow> Some (Inl e, w)
           | Some (Inr tmps) \<Rightarrow>
               Some (case stale_files (sv_mtime env w) (now - unat ttl_seconds) tmps of
                   Inl e \<Rightarrow> (Inl e, w)
                 | Inr stale \<Rightarrow>
                     if stale = [] then (Inr [], w)
                     else let orphan_dir = orphan_dir_of run_dir (sv_stamp env w) in
                       (case do_mkdirs (sv_ops env) orphan_dir w of
                          (Inl e, w1) \<Rightarrow> (Inl e, w1)
                        | (Inr _, w1) \<Rightarrow> (case move_all (sv_ops env) run_dir orphan_dir stale [] w1 of
                              (Inl e, w2) \<Rightarrow> (Inl e, w2)
                            | (Inr swept, w2) \<Rightarrow> (Inr swept, snd (do_sync (sv_ops env) (parent_dir orphan_dir) w2)))))))"

subsection \<open>What is swept\<close>

text \<open>A file that a sweep may move: a \<open>*.tmp\<close> file not below an \<open>attempts\<close> directory, older than the cut-off.\<close>

definition tmp_below :: "dir \<Rightarrow> dir \<Rightarrow> bool" where
  "tmp_below d p \<longleftrightarrow> (\<exists>rel n. p = d @ rel @ [Normal n] \<and> file_extension n = Some ''tmp'' \<and> Normal ''attempts'' \<notin> set rel)"

lemma collect_Cons:
  assumes "collect_tmp_files fuel rd is_link d (n # ns) = Some (Inr ps)"
  shows "\<exists>xs ys. ps = xs @ ys \<and> collect_tmp_files fuel rd is_link d ns = Some (Inr ys) \<and>
    (xs = [] \<or> (xs = [d @ [Normal n]] \<and> file_extension n = Some ''tmp'') \<or>
     (n \<noteq> ''attempts'' \<and> (\<exists>fuel' names. fuel = Suc fuel' \<and> collect_tmp_files fuel' rd is_link (d @ [Normal n]) names = Some (Inr xs))))"
  using assms
  by (simp add: Let_def split: option.splits sum.splits bool.splits if_splits nat.splits) blast+

lemma collect_tmp_below:
  "collect_tmp_files fuel rd is_link d ns = Some (Inr ps) \<Longrightarrow> p \<in> set ps \<Longrightarrow> tmp_below d p"
proof (induction fuel arbitrary: d ns ps rule: less_induct)
  case (less fuel)
  from less.prems show ?case
  proof (induction ns arbitrary: ps)
    case (Cons n ns)
    let ?path = "d @ [Normal n]"
    from collect_Cons [OF Cons.prems(1)] obtain xs ys where xy: "ps = xs @ ys" "collect_tmp_files fuel rd is_link d ns = Some (Inr ys)"
      and x: "xs = [] \<or> (xs = [?path] \<and> file_extension n = Some ''tmp'') \<or>
        (n \<noteq> ''attempts'' \<and> (\<exists>fuel' names. fuel = Suc fuel' \<and> collect_tmp_files fuel' rd is_link ?path names = Some (Inr xs)))"
      by (elim exE conjE)
    show ?case
    proof (cases "p \<in> set ys")
      case True
      then show ?thesis by (rule Cons.IH [OF xy(2)])
    next
      case False
      with Cons.prems(2) xy(1) have px: "p \<in> set xs" by simp
      from x show ?thesis
      proof (elim disjE conjE exE)
        assume "xs = [?path]" "file_extension n = Some ''tmp''"
        with px show ?thesis unfolding tmp_below_def by (intro exI [of _ "[]"] exI [of _ n]) simp
      next
        fix fuel' names
        assume n: "n \<noteq> ''attempts''" and f: "fuel = Suc fuel'" "collect_tmp_files fuel' rd is_link ?path names = Some (Inr xs)"
        have "tmp_below ?path p" using less.IH [OF _ f(2) px] f(1) by simp
        then obtain rel m where "p = ?path @ rel @ [Normal m]" "file_extension m = Some ''tmp''" "Normal ''attempts'' \<notin> set rel"
          unfolding tmp_below_def by (elim exE conjE)
        with n show ?thesis unfolding tmp_below_def
          by (intro exI [of _ "Normal n # rel"] exI [of _ m]) simp
      qed (use px in simp)
    qed
  qed simp
qed

text \<open>
  A \<open>*.tmp\<close> file that is reached from a directory by listings, without passing a link or an \<open>attempts\<close>
  directory; such a file is collected.
\<close>

fun found :: "reader \<Rightarrow> (dir \<Rightarrow> (io_error, bool) result) \<Rightarrow> dir \<Rightarrow> string list \<Rightarrow> bool" where
  "found rd is_link d [] \<longleftrightarrow> False"
| "found rd is_link d (n # ns) \<longleftrightarrow>
     (\<exists>names. rd_list rd d = Inr names \<and> n \<in> set names) \<and> is_link (d @ [Normal n]) = Inr False \<and>
     (if ns = [] then \<not> rd_is_dir rd (d @ [Normal n]) \<and> file_extension n = Some ''tmp''
      else rd_is_dir rd (d @ [Normal n]) \<and> rd_exists rd (d @ [Normal n]) \<and> n \<noteq> ''attempts'' \<and> found rd is_link (d @ [Normal n]) ns)"

lemma collect_member:
  assumes "collect_tmp_files fuel rd is_link d names = Some (Inr ps)" "n \<in> set names" "is_link (d @ [Normal n]) = Inr False"
  shows "(\<not> rd_is_dir rd (d @ [Normal n]) \<longrightarrow> file_extension n = Some ''tmp'' \<longrightarrow> d @ [Normal n] \<in> set ps) \<and>
    (rd_is_dir rd (d @ [Normal n]) \<longrightarrow> rd_exists rd (d @ [Normal n]) \<longrightarrow> n \<noteq> ''attempts'' \<longrightarrow>
      (\<exists>fuel' names' xs. rd_list rd (d @ [Normal n]) = Inr names' \<and>
        collect_tmp_files fuel' rd is_link (d @ [Normal n]) names' = Some (Inr xs) \<and> set xs \<subseteq> set ps))"
  using assms(1,2)
proof (induction names arbitrary: ps)
  case (Cons m names)
  from collect_Cons [OF Cons.prems(1)] obtain xs ys where xy: "ps = xs @ ys" "collect_tmp_files fuel rd is_link d names = Some (Inr ys)"
    by (elim exE conjE)
  show ?case
  proof (cases "n \<in> set names")
    case True
    from Cons.IH [OF xy(2) True] xy(1) show ?thesis by (auto 4 4)
  next
    case False
    with Cons.prems have "m = n" by simp
    with Cons.prems(1) assms(3) show ?thesis
      by (auto simp: Let_def split: option.splits sum.splits if_splits nat.splits) blast+
  qed
qed simp

lemma collect_complete:
  "collect_tmp_files fuel rd is_link d names = Some (Inr ps) \<Longrightarrow> rd_list rd d = Inr names \<Longrightarrow> found rd is_link d ns \<Longrightarrow>
     d @ map Normal ns \<in> set ps"
proof (induction ns arbitrary: fuel d names ps)
  case (Cons n ns)
  from Cons.prems(2,3) have n: "n \<in> set names" "is_link (d @ [Normal n]) = Inr False" by auto
  note m = collect_member [OF Cons.prems(1) n]
  show ?case
  proof (cases "ns = []")
    case True
    with m Cons.prems(3) show ?thesis by simp
  next
    case False
    with m Cons.prems(3) obtain fuel' names' xs where c: "rd_list rd (d @ [Normal n]) = Inr names'"
      "collect_tmp_files fuel' rd is_link (d @ [Normal n]) names' = Some (Inr xs)" "set xs \<subseteq> set ps" by auto
    from False Cons.prems(3) have "found rd is_link (d @ [Normal n]) ns" by simp
    from Cons.IH [OF c(2,1) this] c(3) show ?thesis by auto
  qed
qed simp

lemma collect_run_below: "collect_run fuel rd is_link d = Some (Inr ps) \<Longrightarrow> p \<in> set ps \<Longrightarrow> tmp_below d p"
  by (auto simp: collect_run_def split: if_splits sum.splits intro: collect_tmp_below)

lemma stale_files_sub:
  "stale_files mtime cutoff ps = Inr qs \<Longrightarrow> set qs = {p \<in> set ps. \<exists>t < cutoff. mtime p = Inr (Some t)}"
proof (induction ps arbitrary: qs)
  case (Cons p ps)
  then obtain t qs' where "mtime p = Inr t" "stale_files mtime cutoff ps = Inr qs'"
    "qs = (case t of Some secs \<Rightarrow> if secs < cutoff then p # qs' else qs' | None \<Rightarrow> qs')"
    by (auto simp: rbind_Inr)
  with Cons.IH show ?case by (cases t) auto
qed simp

text \<open>The names that an interrupted atomic write leaves behind have no extension at all.\<close>

lemma temp_no_extension: "CHR ''.'' \<notin> set r \<Longrightarrow> file_extension (''.tmp'' @ r) = None"
proof -
  assume "CHR ''.'' \<notin> set r"
  then have "CHR ''.'' \<notin> set (''tmp'' @ r)" by simp
  from rfind_char_append [OF this, of "[]"] show ?thesis by (simp add: file_extension_def)
qed

context disk_store
begin

text \<open>Moving files touches only them and their destinations.\<close>

lemma move_all_frame:
  "move_all ops run_dir orphan ps swept w = (r, w') \<Longrightarrow> k \<notin> set ps \<Longrightarrow> k \<notin> (\<lambda>p. orphan @ drop (length run_dir) p) ` set ps \<Longrightarrow>
     files_of w' k = files_of w k"
proof (induction ps arbitrary: swept w)
  case (Cons p ps)
  let ?dest = "orphan @ drop (length run_dir) p"
  obtain r1 w1 where 1: "do_mkdirs ops (parent_dir ?dest) w = (r1, w1)" by (metis prod.exhaust)
  note f1 = mkdirs_same [OF 1]
  obtain r2 w2 where 2: "do_rename ops p ?dest w1 = (r2, w2)" by (metis prod.exhaust)
  have k: "k \<noteq> p" "k \<noteq> ?dest" using Cons.prems(2,3) by auto
  have f2: "files_of w2 k = files_of w1 k"
    using rename_ok [of p ?dest w1 w2] rename_fail [of p ?dest w1 _ w2] 2 k by (cases r2) auto
  show ?case
  proof (cases r1)
    case (Inl e)
    with Cons.prems(1) 1 f1 show ?thesis by (simp add: Let_def)
  next
    case r1: (Inr u)
    show ?thesis
    proof (cases r2)
      case (Inl e)
      with Cons.prems(1) 1 r1 2 f1 f2 show ?thesis by (simp add: Let_def)
    next
      case (Inr v)
      with Cons.prems(1) 1 r1 2 have "move_all ops run_dir orphan ps (swept @ [?dest]) w2 = (r, w')" by (simp add: Let_def)
      from Cons.IH [OF this] Cons.prems(2,3) f1 f2 show ?thesis by simp
    qed
  qed
qed simp

text \<open>So a sweep changes a file only when it was collected as a stale temporary file.\<close>

lemma sweep_frame:
  assumes "sweep_stale_tmp fuel env run_dir ttl w = Some (r, w')" "sv_ops env = ops"
    and "\<not> prefix (orphan_dir_of run_dir (sv_stamp env w)) k" "files_of w' k \<noteq> files_of w k"
  shows "\<exists>now t. sv_now env w = Some now \<and> tmp_below run_dir k \<and> sv_mtime env w k = Inr (Some t) \<and> t < now - unat ttl"
proof -
  obtain now where now: "sv_now env w = Some now" using assms(1,4) by (cases "sv_now env w") (auto simp: sweep_stale_tmp_def)
  obtain rc where rc: "collect_run fuel (sv_reader env w) (sv_is_link env w) run_dir = Some rc"
    using assms(1) now by (cases "collect_run fuel (sv_reader env w) (sv_is_link env w) run_dir") (auto simp: sweep_stale_tmp_def)
  obtain tmps where tmps: "rc = Inr tmps" using assms(1,4) now rc by (cases rc) (auto simp: sweep_stale_tmp_def)
  obtain rs where rs: "stale_files (sv_mtime env w) (now - unat ttl) tmps = rs" by simp
  obtain stale where stale: "rs = Inr stale" "stale \<noteq> []"
    using assms(1,4) now rc tmps rs by (cases rs) (auto simp: sweep_stale_tmp_def split: if_splits)
  let ?o = "orphan_dir_of run_dir (sv_stamp env w)"
  obtain r1 w1 where 1: "do_mkdirs ops ?o w = (r1, w1)" by (metis prod.exhaust)
  obtain r2 w2 where 2: "move_all ops run_dir ?o stale [] w1 = (r2, w2)" by (metis prod.exhaust)
  obtain r3 w3 where 3: "do_sync ops (parent_dir ?o) w2 = (r3, w3)" by (metis prod.exhaust)
  have "k \<in> set stale"
  proof (rule ccontr)
    assume "k \<notin> set stale"
    moreover have "k \<notin> (\<lambda>p. ?o @ drop (length run_dir) p) ` set stale" using assms(3) by auto
    ultimately have "files_of w2 k = files_of w1 k" by (rule move_all_frame [OF 2])
    with mkdirs_same [OF 1] sync_same [OF 3]
    have "files_of w1 k = files_of w k" "files_of w2 k = files_of w k" "files_of w3 k = files_of w k" by simp_all
    with assms(1,2,4) now rc tmps rs stale 1 2 3 show False
      by (cases r1; cases r2) (auto simp: sweep_stale_tmp_def Let_def)
  qed
  with stale_files_sub [OF rs [unfolded stale(1)]] obtain t where
    t: "k \<in> set tmps" "t < now - unat ttl" "sv_mtime env w k = Inr (Some t)" by blast
  from collect_run_below [OF rc [unfolded tmps] t(1)] t now show ?thesis by blast
qed

end

subsection \<open>What is stale is moved\<close>

lemma renamed_existed: "do_rename disk_ops a b d = (Inr (), d') \<Longrightarrow> file_of d a \<noteq> None"
  by (auto simp: disk_rename_def file_of_def dest!: with_fault_ok split: option.splits node.splits)

lemma move_all_moves:
  assumes "move_all disk_ops run_dir orphan ps swept w = (Inr moved, w')"
    and "\<forall>p \<in> set ps. prefix run_dir p \<and> \<not> prefix orphan p" "k \<in> set ps"
  shows "file_of w' k = None \<and> file_of w k \<noteq> None \<and> file_of w' (orphan @ drop (length run_dir) k) = file_of w k"
  using assms
proof (induction ps arbitrary: swept w k)
  case (Cons p ps)
  let ?dest = "\<lambda>p. orphan @ drop (length run_dir) p"
  from Cons.prems(1) obtain w1 w2 where s: "do_mkdirs disk_ops (parent_dir (?dest p)) w = (Inr (), w1)"
    "do_rename disk_ops p (?dest p) w1 = (Inr (), w2)" "move_all disk_ops run_dir orphan ps (swept @ [?dest p]) w2 = (Inr moved, w')"
    by (auto simp: Let_def split: prod.splits sum.splits)
  note w1 = conc.mkdirs_same [OF s(1)] and w2 = conc.rename_ok [OF s(2)]
  have p: "prefix run_dir p" "\<not> prefix orphan p" "\<forall>q \<in> set ps. prefix run_dir q \<and> \<not> prefix orphan q" using Cons.prems(2) by simp_all
  have "p \<noteq> ?dest p" using p(2) by (metis prefixI)
  with w2 have gone: "file_of w2 p = None" by simp
  note rest = Cons.IH [OF s(3) p(3)]
  from rest [of p] gone have new: "p \<notin> set ps" by blast
  show ?case
  proof (cases "k = p")
    case True
    have "?dest p \<notin> ?dest ` set ps"
    proof
      assume "?dest p \<in> ?dest ` set ps"
      then obtain q where "q \<in> set ps" "drop (length run_dir) p = drop (length run_dir) q" by auto
      with p(1,3) have "p = q" by (auto simp: prefix_def)
      with \<open>q \<in> set ps\<close> new show False by simp
    qed
    moreover have "?dest p \<notin> set ps" using p(3) by auto
    ultimately have "file_of w' (?dest p) = file_of w2 (?dest p)" by (intro conc.move_all_frame [OF s(3)])
    moreover have "file_of w' p = file_of w2 p" using new p(2) by (intro conc.move_all_frame [OF s(3)]) auto
    ultimately show ?thesis using True w1 w2 gone renamed_existed [OF s(2)] by simp
  next
    case False
    with Cons.prems(3) have k: "k \<in> set ps" by simp
    then have "k \<noteq> ?dest p" using p(3) by auto
    with rest [OF k] w1 w2 False show ?thesis by simp
  qed
qed simp

text \<open>The stale files of a run: reached by listings, and older than the lifetime.\<close>

definition stale_tmp :: "'w sweep_env \<Rightarrow> dir \<Rightarrow> 64 word \<Rightarrow> 'w \<Rightarrow> string list \<Rightarrow> bool" where
  "stale_tmp env run_dir ttl w ns \<longleftrightarrow> rd_exists (sv_reader env w) run_dir \<and> found (sv_reader env w) (sv_is_link env w) run_dir ns \<and>
     (\<exists>now t. sv_now env w = Some now \<and> sv_mtime env w (run_dir @ map Normal ns) = Inr (Some t) \<and> t < now - unat ttl)"

lemma orphan_dir_plain:
  assumes "run_dir \<noteq> []" "CHR ''/'' \<notin> set stamp" "stamp \<noteq> []" "stamp \<noteq> ''.''" "stamp \<noteq> ''..''"
  shows "orphan_dir_of run_dir stamp = run_dir @ [Normal ''attempts'', Normal ''_orphan_tmp'', Normal stamp]"
  using assms by (simp add: orphan_dir_of_def pjoin_plain)

lemma tmp_not_orphan: "tmp_below run_dir p \<Longrightarrow> \<not> prefix (run_dir @ [Normal ''attempts'', Normal ''_orphan_tmp'', Normal stamp]) p"
  by (auto simp: tmp_below_def prefix_def Cons_eq_append_conv append_eq_Cons_conv)

lemma sweep_moves_stale:
  assumes "sweep_stale_tmp fuel env run_dir ttl w = Some (Inr swept, w')" "sv_ops env = disk_ops" "stale_tmp env run_dir ttl w ns"
    and "orphan_dir_of run_dir (sv_stamp env w) = run_dir @ [Normal ''attempts'', Normal ''_orphan_tmp'', Normal (sv_stamp env w)]"
  shows "file_of w' (run_dir @ map Normal ns) = None \<and> file_of w (run_dir @ map Normal ns) \<noteq> None \<and>
    file_of w' (orphan_dir_of run_dir (sv_stamp env w) @ map Normal ns) = file_of w (run_dir @ map Normal ns)"
proof -
  let ?o = "orphan_dir_of run_dir (sv_stamp env w)" and ?k = "run_dir @ map Normal ns"
  from assms(3) obtain now t where st: "rd_exists (sv_reader env w) run_dir" "found (sv_reader env w) (sv_is_link env w) run_dir ns"
    "sv_now env w = Some now" "sv_mtime env w ?k = Inr (Some t)" "t < now - unat ttl"
    unfolding stale_tmp_def by blast
  obtain rc where rc: "collect_run fuel (sv_reader env w) (sv_is_link env w) run_dir = Some rc"
    using assms(1) st(3) by (cases "collect_run fuel (sv_reader env w) (sv_is_link env w) run_dir") (auto simp: sweep_stale_tmp_def)
  obtain tmps where tmps: "rc = Inr tmps" using assms(1) st(3) rc by (cases rc) (auto simp: sweep_stale_tmp_def)
  obtain stale where stale: "stale_files (sv_mtime env w) (now - unat ttl) tmps = Inr stale"
    using assms(1) st(3) rc tmps by (cases "stale_files (sv_mtime env w) (now - unat ttl) tmps") (auto simp: sweep_stale_tmp_def)
  have "?k \<in> set tmps"
    using rc tmps st(1,2) collect_complete by (auto simp: collect_run_def split: sum.splits elim: found.elims)
  then have k: "?k \<in> set stale" using stale_files_sub [OF stale] st(4,5) by blast
  then have "stale \<noteq> []" by auto
  with assms(1,2) st(3) rc tmps stale obtain w1 w2 where m: "do_mkdirs disk_ops ?o w = (Inr (), w1)"
    "move_all disk_ops run_dir ?o stale [] w1 = (Inr swept, w2)" "w' = snd (do_sync disk_ops (parent_dir ?o) w2)"
    by (auto simp: sweep_stale_tmp_def Let_def split: prod.splits sum.splits)
  have below: "tmp_below run_dir p" if "p \<in> set stale" for p
    using that stale_files_sub [OF stale] collect_run_below [OF rc [unfolded tmps]] by blast
  have "\<forall>p \<in> set stale. prefix run_dir p \<and> \<not> prefix ?o p"
    using below tmp_not_orphan unfolding assms(4) by (metis prefixI tmp_below_def)
  from move_all_moves [OF m(2) this k] have "file_of w2 ?k = None" "file_of w1 ?k \<noteq> None" "file_of w2 (?o @ map Normal ns) = file_of w1 ?k"
    by simp_all
  moreover have "file_of w1 = file_of w" using conc.mkdirs_same [OF m(1)] .
  moreover have "file_of w' = file_of w2" using conc.sync_same [of "parent_dir ?o" w2 "fst (do_sync disk_ops (parent_dir ?o) w2)" w'] m(3) by simp
  ultimately show ?thesis by simp
qed


text \<open>
  The leftovers of an interrupted atomic write, which the design says a resume sweeps, are none of them: their
  names begin with \<open>.tmp\<close> and have no extension.
\<close>

lemma leftovers_not_swept:
  assumes "sweep_stale_tmp fuel env run_dir ttl w = Some (r, w')" "sv_ops env = disk_ops"
    and "\<not> prefix (orphan_dir_of run_dir (sv_stamp env w)) (d @ [Normal (''.tmp'' @ x)])" "CHR ''.'' \<notin> set x"
  shows "file_of w' (d @ [Normal (''.tmp'' @ x)]) = file_of w (d @ [Normal (''.tmp'' @ x)])"
proof (rule ccontr)
  assume "\<not> ?thesis"
  from conc.sweep_frame [OF assms(1-3) this] obtain rel n where
    k: "d @ [Normal (''.tmp'' @ x)] = run_dir @ rel @ [Normal n]" "file_extension n = Some ''tmp''" unfolding tmp_below_def by blast
  then have "n = ''.tmp'' @ x" by (metis append_assoc component.inject last_snoc)
  with temp_no_extension [OF assms(4)] k(2) show False by simp
qed

subsection \<open>Examples\<close>

text \<open>An old \<open>a.tmp\<close> and the leftover of an atomic write; only the first is moved.\<close>

definition demo_sweep :: "disk sweep_env" where
  "demo_sweep = \<lparr>sv_ops = disk_ops, sv_reader = reader_of, sv_is_link = (\<lambda>_ _. Inr False), sv_mtime = (\<lambda>_ _. Inr (Some 0)),
     sv_now = (\<lambda>_. Some 1000), sv_stamp = (\<lambda>_. ''t'')\<rparr>"

definition demo_littered :: disk where
  "demo_littered = \<lparr>dk_nodes = [([Normal ''run''], DirNode), ([Normal ''run'', Normal ''a.tmp''], FileNode ''x''),
     ([Normal ''run'', Normal ''.tmp7''], FileNode ''y'')], dk_script = [], dk_temps = 0\<rparr>"

lemma demo_sweep_run:
  "map_option (\<lambda>(r, w'). (is_ok r, file_of w' [Normal ''run'', Normal ''a.tmp''], file_of w' [Normal ''run'', Normal ''.tmp7'']))
     (sweep_stale_tmp 1 demo_sweep [Normal ''run''] 300 demo_littered) = Some (True, None, Some ''y'')"
  by code_simp


end
