(* ===== verification/RunCommand.thy ===== *)
theory RunCommand
  imports Strategy Verification
begin

text \<open>
  \<open>src/strategy/verify/run_command.rs\<close>: the hook that runs a command, with a cleared environment,
  bounded capture of its output and redaction of secrets, and the verdict from how it ended. Finding
  a program, the environment of the process, its child, and the redaction of known patterns are
  arguments; limits that the operating system enforces are not modelled.
\<close>

subsection \<open>The command\<close>

record run_command =
  rc_cmd :: string
  rc_args :: "string list"
  rc_env_allowlist :: "string list"
  rc_cwd :: "path option"
  rc_wall_timeout :: nat
  rc_cpu_timeout :: "nat option"
  rc_stdout_cap :: nat
  rc_stderr_cap :: nat

definition default_run_command :: "string \<Rightarrow> run_command" where
  "default_run_command cmd = \<lparr>rc_cmd = cmd, rc_args = [], rc_env_allowlist = [], rc_cwd = None, rc_wall_timeout = 30000,
     rc_cpu_timeout = None, rc_stdout_cap = 4096, rc_stderr_cap = 4096\<rparr>"

record captured_output =
  co_data :: string
  co_truncated :: bool
  co_elided_bytes :: nat

text \<open>What is read until end of file or an error is counted, not kept.\<close>

fun drain_stream :: "read_event list \<Rightarrow> nat" where
  "drain_stream [] = 0"
| "drain_stream (ReadError # evs) = 0"
| "drain_stream (Chunk c # evs) = (if c = [] then 0 else length c + drain_stream evs)"

fun read_stream_bounded :: "nat \<Rightarrow> string \<Rightarrow> read_event list \<Rightarrow> captured_output" where
  "read_stream_bounded cap buf [] = \<lparr>co_data = buf, co_truncated = False, co_elided_bytes = 0\<rparr>"
| "read_stream_bounded cap buf (ReadError # evs) = \<lparr>co_data = buf, co_truncated = False, co_elided_bytes = 0\<rparr>"
| "read_stream_bounded cap buf (Chunk c # evs) =
     (if c = [] then \<lparr>co_data = buf, co_truncated = False, co_elided_bytes = 0\<rparr>
      else
        let remaining = cap - length buf in
        if remaining = 0 then \<lparr>co_data = buf, co_truncated = True, co_elided_bytes = length c + drain_stream evs\<rparr>
        else
          let n = min (length c) remaining; buf' = buf @ take n c in
          if n < length c
          then \<lparr>co_data = buf', co_truncated = True, co_elided_bytes = length c - n + drain_stream evs\<rparr>
          else read_stream_bounded cap buf' evs)"

definition to_reason_text :: "captured_output \<Rightarrow> string" where
  "to_reason_text c = from_utf8_lossy (co_data c) @
     (if co_truncated c
      then '' '' @ [CHR 0xE2, CHR 0x80, CHR 0xA6] @ ''[truncated, '' @ nat_str (co_elided_bytes c) @ '' bytes elided]'' else [])"

definition redact_output :: "(string \<Rightarrow> string) \<Rightarrow> string \<Rightarrow> string list \<Rightarrow> string" where
  "redact_output redact text secrets =
     foldl (\<lambda>t secret. if secret \<noteq> [] \<and> contains t secret then str_replace secret ''[REDACTED]'' t else t) (redact text) secrets"

definition upper_char :: "char \<Rightarrow> char" where
  "upper_char c = (let n = of_char c :: nat in if 97 \<le> n \<and> n \<le> 122 then char_of (n - 32) else c)"

definition is_secret_like_env_key :: "string \<Rightarrow> bool" where
  "is_secret_like_env_key key =
     (let k = map upper_char key in
      contains k ''SECRET'' \<or> contains k ''TOKEN'' \<or> contains k ''PASSWORD'' \<or> contains k ''API_KEY'' \<or> contains k ''AUTH'')"

subsection \<open>Running it\<close>

text \<open>
  How a child ended: it may not start, waiting for it may fail, it ends in time, or it is killed at
  the deadline and reaped.
\<close>

datatype exit_status = ExitCode int | Killed int

fun status_code :: "exit_status \<Rightarrow> int option" where
  "status_code (ExitCode c) = Some c"
| "status_code (Killed s) = None"

fun status_signal :: "exit_status \<Rightarrow> int option" where
  "status_signal (ExitCode c) = None"
| "status_signal (Killed s) = Some s"

datatype child_end = SpawnFails string | WaitFails string | ReapFails string | EndsWith exit_status | KilledAtDeadline exit_status

record child_run =
  cr_stdout_events :: "read_event list"
  cr_stderr_events :: "read_event list"
  cr_end :: child_end
  cr_time :: nat

record launch =
  la_program :: path
  la_args :: "string list"
  la_env :: "(string \<times> string) list"
  la_cwd :: "path option"

record command_world =
  cw_which :: "string \<Rightarrow> path option \<Rightarrow> path option"
  cw_env :: "string \<Rightarrow> string option"
  cw_child :: "launch \<Rightarrow> nat \<Rightarrow> child_run"
  cw_redact :: "string \<Rightarrow> string"

record command_run =
  cm_status :: exit_status
  cm_timed_out :: bool
  cm_stdout :: captured_output
  cm_stderr :: captured_output
  cm_secrets :: "string list"
  cm_elapsed_ms :: nat

definition resolve_command :: "command_world \<Rightarrow> run_command \<Rightarrow> (string, path) result" where
  "resolve_command cw rc =
     (if rc_cmd rc = [] then Inl ''no command configured''
      else if starts_with (rc_cmd rc) ''/'' then Inr (rc_cmd rc)
      else case cw_which cw (rc_cmd rc) (rc_cwd rc) of
          None \<Rightarrow> Inl (''command not found: '' @ rc_cmd rc)
        | Some p \<Rightarrow> Inr p)"

definition build_environment :: "command_world \<Rightarrow> run_command \<Rightarrow> (string \<times> string) list" where
  "build_environment cw rc = List.map_filter (\<lambda>name. map_option (\<lambda>v. (name, v)) (cw_env cw name)) (rc_env_allowlist rc)"

definition secret_values :: "(string \<times> string) list \<Rightarrow> string list" where
  "secret_values vars = map snd (filter (\<lambda>(name, _). is_secret_like_env_key name) vars)"

definition run_of_command :: "command_world \<Rightarrow> run_command \<Rightarrow> (string, command_run) result" where
  "run_of_command cw rc =
     rbind (resolve_command cw rc) (\<lambda>program.
       let vars = build_environment cw rc;
           child = cw_child cw \<lparr>la_program = program, la_args = rc_args rc, la_env = vars, la_cwd = rc_cwd rc\<rparr> (rc_wall_timeout rc);
           ended = (\<lambda>status late. Inr \<lparr>cm_status = status, cm_timed_out = late,
             cm_stdout = read_stream_bounded (rc_stdout_cap rc) [] (cr_stdout_events child),
             cm_stderr = read_stream_bounded (rc_stderr_cap rc) [] (cr_stderr_events child),
             cm_secrets = secret_values vars, cm_elapsed_ms = cr_time child\<rparr>)
       in case cr_end child of
            SpawnFails e \<Rightarrow> Inl (''failed to spawn command '' @ quoted (rc_cmd rc) @ '': '' @ e)
          | WaitFails e \<Rightarrow> Inl (''failed to wait for command '' @ quoted (rc_cmd rc) @ '': '' @ e)
          | ReapFails e \<Rightarrow> Inl (''failed to reap timed-out command '' @ quoted (rc_cmd rc) @ '': '' @ e)
          | EndsWith status \<Rightarrow> ended status False
          | KilledAtDeadline status \<Rightarrow> ended status True)"

definition reason_of :: "command_world \<Rightarrow> command_run \<Rightarrow> string \<Rightarrow> failure_reason" where
  "reason_of cw run summary = (failure_reason_new summary)\<lparr>
     fr_stdout := redact_output (cw_redact cw) (to_reason_text (cm_stdout run)) (cm_secrets run),
     fr_stderr := redact_output (cw_redact cw) (to_reason_text (cm_stderr run)) (cm_secrets run),
     fr_truncated := co_truncated (cm_stdout run) \<or> co_truncated (cm_stderr run)\<rparr>"

definition verify_command_run :: "command_world \<Rightarrow> run_command \<Rightarrow> command_run \<Rightarrow> hook_result" where
  "verify_command_run cw rc run =
     (if cm_timed_out run
      then HookFail ((reason_of cw run (''command timed out: '' @ rc_cmd rc))\<lparr>fr_sandbox := Some SbTimeout\<rparr>)
      else case status_code (cm_status run) of
          Some code \<Rightarrow>
            if code = 0 then HookPass
            else HookFail ((reason_of cw run (''command exited with status '' @ int_str code))\<lparr>
              fr_exit_code := Some code, fr_sandbox := Some (SbNonZeroExit code)\<rparr>)
        | None \<Rightarrow> (case status_signal (cm_status run) of
              Some sig \<Rightarrow> HookFail ((reason_of cw run (''command killed by signal '' @ int_str sig))\<lparr>fr_sandbox := Some (SbSignal sig)\<rparr>)
            | None \<Rightarrow> HookFail (reason_of cw run (''command terminated unexpectedly: '' @ rc_cmd rc))))"

definition verify_run_command :: "command_world \<Rightarrow> run_command \<Rightarrow> (string, hook_result) result" where
  "verify_run_command cw rc = rbind (run_of_command cw rc) (\<lambda>run. Inr (verify_command_run cw rc run))"

subsection \<open>Capture\<close>

lemma drain_stream_length: "drain_stream evs = length (stream_data evs)"
  by (induction evs rule: drain_stream.induct) auto

lemma read_stream_from:
  "length buf \<le> cap \<Longrightarrow> read_stream_bounded cap buf evs =
     \<lparr>co_data = take cap (buf @ stream_data evs), co_truncated = (cap < length buf + length (stream_data evs)),
      co_elided_bytes = length buf + length (stream_data evs) - cap\<rparr>"
proof (induction cap buf evs rule: read_stream_bounded.induct)
  case (3 cap buf c evs)
  show ?case
  proof (cases "c = [] \<or> length c > cap - length buf")
    case True
    with 3(2) show ?thesis by (auto simp: Let_def drain_stream_length min_def)
  next
    case False
    then have fit: "c \<noteq> []" "length c \<le> cap - length buf" by auto
    then have "0 < length c" by simp
    with fit 3(2) have room: "0 < cap - length buf" "length (buf @ c) \<le> cap" by (linarith, simp)
    have eq: "read_stream_bounded cap buf (Chunk c # evs) = read_stream_bounded cap (buf @ c) evs"
      using fit room(1) by (simp add: Let_def min_def)
    have "read_stream_bounded cap (buf @ c) evs =
       \<lparr>co_data = take cap ((buf @ c) @ stream_data evs), co_truncated = (cap < length (buf @ c) + length (stream_data evs)),
        co_elided_bytes = length (buf @ c) + length (stream_data evs) - cap\<rparr>"
      using 3(1) [OF fit(1) refl _ refl refl] fit room by (simp add: min_def)
    then show ?thesis unfolding eq using fit(1) by (simp add: add.assoc)
  qed
qed simp_all

text \<open>
  The capture of a stream keeps its first bytes up to the cap and counts exactly those it leaves out;
  it is marked as truncated when there are any.
\<close>

theorem capture_exact:
  "co_data (read_stream_bounded cap [] evs) = take cap (stream_data evs) \<and>
   co_elided_bytes (read_stream_bounded cap [] evs) = length (stream_data evs) - cap \<and>
   (co_truncated (read_stream_bounded cap [] evs) \<longleftrightarrow> 0 < co_elided_bytes (read_stream_bounded cap [] evs))"
  by (auto simp: read_stream_from)

subsection \<open>Redaction\<close>

lemma prefix_no_sep: "prefix q (a @ x # b) \<Longrightarrow> x \<notin> set q \<Longrightarrow> prefix q a"
  by (induction a arbitrary: q) (auto simp: prefix_Cons)

lemma contains_Cons: "contains (c # s) q \<longleftrightarrow> prefix q (c # s) \<or> contains s q"
  by (simp add: contains_sublist sublist_Cons_right)

lemma contains_no_sep:
  assumes "x \<notin> set q" "q \<noteq> []"
  shows "contains (a @ x # b) q \<Longrightarrow> contains a q \<or> contains b q"
proof (induction a)
  case Nil
  with assms show ?case by (auto simp: contains_Cons prefix_Cons)
next
  case (Cons c a)
  then show ?case using prefix_no_sep [of q "c # a" x b] assms(1) by (auto simp: contains_Cons)
qed

definition bracket_free :: "string \<Rightarrow> bool" where
  "bracket_free q \<longleftrightarrow> CHR ''['' \<notin> set q \<and> CHR '']'' \<notin> set q"

lemma redacted_prefix:
  "prefix q (replace_from p ''[REDACTED]'' 0 s) \<Longrightarrow> q \<noteq> [] \<Longrightarrow> bracket_free q \<Longrightarrow> prefix q s \<and> \<not> prefix p s"
proof (induction q arbitrary: s)
  case (Cons c q)
  then obtain d s' where s: "s = d # s'" by (cases s) auto
  have no: "\<not> prefix p s"
    using Cons.prems(1,3) unfolding s by (auto simp: starts_with_prefix bracket_free_def)
  with Cons.prems(1) have c: "c = d" "prefix q (replace_from p ''[REDACTED]'' 0 s')"
    unfolding s by (auto simp: starts_with_prefix)
  show ?case
  proof (cases "q = []")
    case False
    with Cons.IH [OF c(2)] Cons.prems(3) c(1) no show ?thesis by (simp add: s bracket_free_def)
  qed (use c no in \<open>simp add: s\<close>)
qed simp

lemma redacted_contains:
  assumes "q \<noteq> []" "bracket_free q" "\<not> contains ''REDACTED'' q"
  shows "contains (replace_from p ''[REDACTED]'' k s) q \<Longrightarrow> contains s q \<and> q \<noteq> p"
proof (induction p "''[REDACTED]''" k s rule: replace_from.induct)
  case (1 p k)
  with assms(1) show ?case by (simp add: contains_sublist)
next
  case (2 p k c cs)
  then show ?case by (simp add: contains_Cons)
next
  case (3 p c cs)
  show ?case
  proof (cases "starts_with (c # cs) p")
    case True
    let ?r = "replace_from p ''[REDACTED]'' (length p - 1) cs"
    from True 3(3) have "contains ([] @ CHR ''['' # (''REDACTED'' @ CHR '']'' # ?r)) q" by simp
    from contains_no_sep [OF _ assms(1) this] assms have "contains (''REDACTED'' @ CHR '']'' # ?r) q"
      by (auto simp: bracket_free_def contains_sublist)
    from contains_no_sep [OF _ assms(1) this] assms have "contains ?r q" by (auto simp: bracket_free_def)
    from 3(1) [OF True this] show ?thesis by (simp add: contains_Cons)
  next
    case False
    let ?r = "replace_from p ''[REDACTED]'' 0 cs"
    from False have eq: "replace_from p ''[REDACTED]'' 0 (c # cs) = c # ?r" by simp
    from 3(3) consider "prefix q (replace_from p ''[REDACTED]'' 0 (c # cs))" | "contains ?r q"
      unfolding eq contains_Cons by blast
    then show ?thesis
    proof cases
      case 1
      from redacted_prefix [OF this assms(1,2)] show ?thesis by (auto simp: contains_Cons)
    next
      case 2
      from 3(2) [OF False this] show ?thesis by (simp add: contains_Cons)
    qed
  qed
qed

lemma redact_fold:
  assumes "q \<noteq> []" "bracket_free q" "\<not> contains ''REDACTED'' q"
  shows "contains (foldl (\<lambda>t secret. if secret \<noteq> [] \<and> contains t secret then str_replace secret ''[REDACTED]'' t else t) t secrets) q
    \<Longrightarrow> contains t q \<and> q \<notin> set secrets"
proof (induction secrets arbitrary: t)
  case (Cons s secrets)
  from Cons.IH [of "if s \<noteq> [] \<and> contains t s then str_replace s ''[REDACTED]'' t else t"] Cons.prems
  have "contains (if s \<noteq> [] \<and> contains t s then str_replace s ''[REDACTED]'' t else t) q \<and> q \<notin> set secrets" by simp
  then show ?case
    using redacted_contains [OF assms, of s 0 t] assms(1) by (auto simp: str_replace_def split: if_splits)
qed simp

text \<open>
  C28: A secret value is not in a redacted text, unless it holds a bracket or is a part of the mark that
  takes its place. So it is in no reason that the hook gives for a failure.
\<close>

theorem redacted_secret_absent:
  assumes "q \<in> set secrets" "q \<noteq> []" "CHR ''['' \<notin> set q" "CHR '']'' \<notin> set q" "\<not> contains ''REDACTED'' q"
  shows "\<not> contains (redact_output redact text secrets) q"
  using redact_fold [of q "redact text" secrets] assms by (auto simp: redact_output_def bracket_free_def)

theorem redacted_secret_absent_witness:
  "\<not> contains (redact_output id ''key=hunter2 hunter2'' [''hunter2'']) ''hunter2''"
  by (rule redacted_secret_absent) (simp_all add: contains_def)

text \<open>
  The redaction comes after the cut: a secret that the cap divides is not seen, and its beginning
  stays. And secrets are replaced in the order of the list: one that contains an earlier one is
  left with its rest.
\<close>

lemma cut_secret_stays:
  "redact_output id (to_reason_text (read_stream_bounded 8 [] [Chunk ''key=hunter2''])) [''hunter2''] =
     ''key=hunt '' @ [CHR 0xE2, CHR 0x80, CHR 0xA6] @ ''[truncated, 3 bytes elided]''"
  by code_simp

lemma longer_secret_stays:
  "redact_output id ''token=ab-cd'' [''ab'', ''ab-cd''] = ''token=[REDACTED]-cd''"
  by code_simp

subsection \<open>The verdict\<close>

text \<open>
  The hook passes exactly when the command is found, starts, and ends within its time with status 0;
  its output has no part in it. The child sees the variables of the allow-list that are set, and
  no others.
\<close>

theorem run_command_pass_iff:
  "verify_run_command cw rc = Inr HookPass \<longleftrightarrow> (\<exists>program.
     resolve_command cw rc = Inr program \<and>
     cr_end (cw_child cw \<lparr>la_program = program, la_args = rc_args rc, la_env = build_environment cw rc, la_cwd = rc_cwd rc\<rparr>
       (rc_wall_timeout rc)) = EndsWith (ExitCode 0)) \<and>
   set (build_environment cw rc) = {(n, v). n \<in> set (rc_env_allowlist rc) \<and> cw_env cw n = Some v}"
proof -
  have env: "set (build_environment cw rc) = {(n, v). n \<in> set (rc_env_allowlist rc) \<and> cw_env cw n = Some v}"
    by (force simp: build_environment_def List.map_filter_def image_iff)
  have pass: "verify_command_run cw rc run = HookPass \<longleftrightarrow> \<not> cm_timed_out run \<and> cm_status run = ExitCode 0" for run
    by (cases "cm_status run") (auto simp: verify_command_run_def)
  show ?thesis
    unfolding env
    by (cases "resolve_command cw rc"; simp add: verify_run_command_def run_of_command_def Let_def)
      (simp add: pass split: child_end.splits)
qed

end
