(* ===== verification/TestRunner.thy ===== *)
theory TestRunner
  imports RunCommand Json
begin

text \<open>
  \<open>src/strategy/verify/test_runner.rs\<close>: a test suite is run as a command, its report is read into
  counts, and the verdict is drawn from the counts and from how the command ended. Reading JSON, and
  reading one JSON value at the start of a text, are arguments. Counts are 32-bit and wrap, as in a
  release build.
\<close>

subsection \<open>Runners\<close>

datatype test_runner_kind = Cargo | Pytest

record sandbox_opts =
  sb_env_allowlist :: "string list"
  sb_wall_timeout :: nat
  sb_stdout_cap :: nat
  sb_stderr_cap :: nat

definition default_sandbox :: sandbox_opts where
  "default_sandbox = \<lparr>sb_env_allowlist = [], sb_wall_timeout = 120000, sb_stdout_cap = 8192, sb_stderr_cap = 8192\<rparr>"

record test_runner =
  te_runner :: test_runner_kind
  te_cwd :: path
  te_extra_args :: "string list"
  te_sandbox :: sandbox_opts

record test_result =
  tt_passed :: "32 word"
  tt_failed :: "32 word"
  tt_first_name :: "string option"
  tt_first_excerpt :: "string option"

record report_reader =
  re_json :: json_lib
  re_first_value :: "string \<Rightarrow> json option"

definition build_run_command :: "test_runner \<Rightarrow> run_command" where
  "build_run_command t = (default_run_command (case te_runner t of Cargo \<Rightarrow> ''cargo'' | Pytest \<Rightarrow> ''pytest''))\<lparr>
     rc_args := (case te_runner t of
         Cargo \<Rightarrow> [''test'', ''--message-format=json'', ''--no-fail-fast'']
       | Pytest \<Rightarrow> [''--json-report'', ''--json-report-file=-'']) @ te_extra_args t,
     rc_cwd := Some (te_cwd t), rc_env_allowlist := sb_env_allowlist (te_sandbox t),
     rc_wall_timeout := sb_wall_timeout (te_sandbox t), rc_stdout_cap := sb_stdout_cap (te_sandbox t),
     rc_stderr_cap := sb_stderr_cap (te_sandbox t)\<rparr>"

definition test_excerpt :: "string \<Rightarrow> nat \<Rightarrow> string" where
  "test_excerpt text m =
     (let t = trim text in take_chars m t @ (if m < char_count t then [CHR 0xE2, CHR 0x80, CHR 0xA6] else []))"

fun as_bool :: "json \<Rightarrow> bool option" where
  "as_bool (JBool b) = Some b"
| "as_bool _ = None"

fun as_array :: "json \<Rightarrow> json list option" where
  "as_array (JArr xs) = Some xs"
| "as_array _ = None"

definition get_as :: "(json \<Rightarrow> 'a option) \<Rightarrow> string \<Rightarrow> json \<Rightarrow> 'a option" where
  "get_as conv k v = (case json_get k v of None \<Rightarrow> None | Some x \<Rightarrow> conv x)"

subsection \<open>The report of cargo\<close>

definition no_tests :: test_result where
  "no_tests = \<lparr>tt_passed = 0, tt_failed = 0, tt_first_name = None, tt_first_excerpt = None\<rparr>"

datatype test_event = TestPassed | TestFailed | NotCounted

definition test_event_of :: "json \<Rightarrow> test_event" where
  "test_event_of v =
     (if get_as as_str ''type'' v \<noteq> Some ''test'' then NotCounted
      else
        let event = unwrap_or [] (get_as as_str ''event'' v); ignored = unwrap_or False (get_as as_bool ''ignored'' v) in
        if event = ''ok'' then (if ignored then NotCounted else TestPassed)
        else if event = ''failed'' \<or> event = ''timeout'' then TestFailed
        else NotCounted)"

definition count_event :: "test_result \<Rightarrow> json \<Rightarrow> test_result" where
  "count_event r v =
     (case test_event_of v of
        NotCounted \<Rightarrow> r
      | TestPassed \<Rightarrow> r\<lparr>tt_passed := tt_passed r + 1\<rparr>
      | TestFailed \<Rightarrow>
          let r' = r\<lparr>tt_failed := tt_failed r + 1\<rparr> in
          if tt_first_name r = None
          then r'\<lparr>tt_first_name := get_as as_str ''name'' v,
                  tt_first_excerpt := map_option (\<lambda>s. test_excerpt (trim s) 200) (get_as as_str ''stdout'' v)\<rparr>
          else r')"

definition cargo_values :: "json_lib \<Rightarrow> string \<Rightarrow> json list" where
  "cargo_values js stdout =
     List.map_filter (\<lambda>line. let l = trim line in
       if l = [] then None else case js_parse js l of Inr v \<Rightarrow> Some v | Inl _ \<Rightarrow> None) (str_lines stdout)"

definition parse_cargo_output :: "json_lib \<Rightarrow> string \<Rightarrow> test_result" where
  "parse_cargo_output js stdout = foldl count_event no_tests (cargo_values js stdout)"

subsection \<open>The report of pytest\<close>

definition unread_report :: "string \<Rightarrow> test_result" where
  "unread_report msg = no_tests\<lparr>tt_first_excerpt := Some msg\<rparr>"

definition count_of :: "string \<Rightarrow> json \<Rightarrow> 32 word" where
  "count_of k summary = of_nat (unwrap_or 0 (get_as as_u64 k summary))"

definition failed_outcome :: "json \<Rightarrow> bool" where
  "failed_outcome t \<longleftrightarrow> get_as as_str ''outcome'' t \<in> {Some ''failed'', Some ''error''}"

definition longrepr :: "json \<Rightarrow> json option" where
  "longrepr t = or_else (case json_get ''call'' t of Some c \<Rightarrow> json_get ''longrepr'' c | None \<Rightarrow> None) (json_get ''longrepr'' t)"

definition read_summary :: "json \<Rightarrow> json \<Rightarrow> test_result" where
  "read_summary value summary =
     (let first = (case get_as as_array ''tests'' value of Some ts \<Rightarrow> List.find failed_outcome ts | None \<Rightarrow> None) in
      \<lparr>tt_passed = count_of ''passed'' summary, tt_failed = count_of ''failed'' summary + count_of ''error'' summary,
       tt_first_name = (case first of Some t \<Rightarrow> get_as as_str ''nodeid'' t | None \<Rightarrow> None),
       tt_first_excerpt = (case first of
           Some t \<Rightarrow> (case longrepr t of Some l \<Rightarrow> map_option (\<lambda>s. test_excerpt s 200) (as_str l) | None \<Rightarrow> None)
         | None \<Rightarrow> None)\<rparr>)"

definition report_value :: "report_reader \<Rightarrow> string \<Rightarrow> json option" where
  "report_value rd stdout =
     (case js_parse (re_json rd) stdout of
        Inr v \<Rightarrow> Some v
      | Inl _ \<Rightarrow> (case find_char (CHR ''{'') stdout of
            Some start \<Rightarrow> re_first_value rd (drop start stdout)
          | None \<Rightarrow> None))"

definition parse_pytest_output :: "report_reader \<Rightarrow> string \<Rightarrow> test_result" where
  "parse_pytest_output rd stdout =
     (case report_value rd stdout of
        None \<Rightarrow> unread_report ''could not parse pytest JSON report from stdout''
      | Some value \<Rightarrow> (case json_get ''summary'' value of
            None \<Rightarrow> unread_report ([CHR ''p''] @ ''ytest report missing '' @ [CHR 0x60] @ ''summary'' @ [CHR 0x60] @ '' field'')
          | Some summary \<Rightarrow> read_summary value summary))"

definition parse_test_output :: "report_reader \<Rightarrow> test_runner_kind \<Rightarrow> string \<Rightarrow> test_result" where
  "parse_test_output rd kind stdout =
     (case kind of Cargo \<Rightarrow> parse_cargo_output (re_json rd) stdout | Pytest \<Rightarrow> parse_pytest_output rd stdout)"

subsection \<open>The verdict\<close>

definition failure_summary :: "test_result \<Rightarrow> string" where
  "failure_summary r =
     (let n = nat_str (unat (tt_failed r)) in
      case tt_first_name r of
        Some name \<Rightarrow> (case tt_first_excerpt r of
            Some e \<Rightarrow> n @ '' test(s) failed (first: '' @ name @ '': '' @ e @ '')''
          | None \<Rightarrow> n @ '' test(s) failed (first: '' @ name @ '')'')
      | None \<Rightarrow> n @ '' test(s) failed'')"

definition to_verify_result :: "command_world \<Rightarrow> command_run \<Rightarrow> test_result \<Rightarrow> hook_result" where
  "to_verify_result cw run r =
     (let reason = reason_of cw run; code = status_code (cm_status run); no_code = unwrap_or 1 code in
      if cm_timed_out run then HookFail ((reason ''test runner timed out'')\<lparr>fr_sandbox := Some SbTimeout\<rparr>)
      else case status_signal (cm_status run) of
        Some sig \<Rightarrow> HookFail ((reason (''test runner killed by signal '' @ int_str sig))\<lparr>fr_sandbox := Some (SbSignal sig)\<rparr>)
      | None \<Rightarrow>
          if code \<noteq> None \<and> code \<noteq> Some 0 \<and> tt_failed r = 0
          then HookFail ((reason (if tt_passed r = 0 then ''no tests ran'' else ''test runner exited with status '' @ int_str (the code)))\<lparr>
            fr_exit_code := code, fr_sandbox := Some (SbNonZeroExit (the code))\<rparr>)
          else if tt_passed r = 0 \<and> tt_failed r = 0 then HookFail ((reason ''no tests ran'')\<lparr>fr_exit_code := Some no_code\<rparr>)
          else if 0 < tt_failed r then HookFail ((reason (failure_summary r))\<lparr>fr_exit_code := Some no_code\<rparr>)
          else HookPass)"

definition verify_test_runner :: "command_world \<Rightarrow> report_reader \<Rightarrow> test_runner \<Rightarrow> (string, hook_result) result" where
  "verify_test_runner cw rd t =
     rbind (run_of_command cw (build_run_command t)) (\<lambda>run.
       Inr (to_verify_result cw run (parse_test_output rd (te_runner t) (to_reason_text (cm_stdout run)))))"

subsection \<open>Counting\<close>

definition events :: "test_event \<Rightarrow> json list \<Rightarrow> nat" where
  "events e vs = length (filter (\<lambda>v. test_event_of v = e) vs)"

lemma events_simps [simp]:
  "events e [] = 0" "events e (v # vs) = (if test_event_of v = e then 1 else 0) + events e vs"
  by (simp_all add: events_def)

lemma count_events:
  "tt_passed (foldl count_event r vs) = tt_passed r + of_nat (events TestPassed vs) \<and>
   tt_failed (foldl count_event r vs) = tt_failed r + of_nat (events TestFailed vs)"
  by (induction vs arbitrary: r) (auto simp: count_event_def Let_def split: test_event.splits)

text \<open>
  The counts of a cargo report are the numbers of its passed and failed tests, lines that are not
  JSON, messages of other types and ignored tests left out, up to the width of the counters.
\<close>

theorem cargo_counts:
  "tt_passed (parse_cargo_output js stdout) = of_nat (events TestPassed (cargo_values js stdout)) \<and>
   tt_failed (parse_cargo_output js stdout) = of_nat (events TestFailed (cargo_values js stdout))"
  using count_events [of no_tests "cargo_values js stdout"] by (simp add: parse_cargo_output_def no_tests_def)

text \<open>
  The hook passes exactly when the suite ends within its time with status 0 and its report, read
  from the capture of its output, has passed tests and no failed one.
\<close>

theorem test_runner_pass_iff:
  "verify_test_runner cw rd t = Inr HookPass \<longleftrightarrow> (\<exists>run.
     run_of_command cw (build_run_command t) = Inr run \<and> \<not> cm_timed_out run \<and> cm_status run = ExitCode 0 \<and>
     (let r = parse_test_output rd (te_runner t) (to_reason_text (cm_stdout run)) in 0 < tt_passed r \<and> tt_failed r = 0))"
proof -
  have pass: "to_verify_result cw run r = HookPass \<longleftrightarrow>
    \<not> cm_timed_out run \<and> cm_status run = ExitCode 0 \<and> 0 < tt_passed r \<and> tt_failed r = 0" for run r
    by (cases "cm_status run") (auto simp: to_verify_result_def Let_def word_gt_0)
  show ?thesis by (auto simp: verify_test_runner_def rbind_Inr pass Let_def)
qed

text \<open>A count of \<open>2\<^sup>3\<^sup>2\<close> failed tests is read as none.\<close>

lemma huge_count_lost: "tt_failed (read_summary v (JObj [(''failed'', JInt (2 ^ 32))])) = 0"
  by (simp add: read_summary_def count_of_def get_as_def Let_def)

end
