(* ===== verification/LlmVerifier.thy ===== *)
theory LlmVerifier
  imports Strategy SortOrder
begin

text \<open>
  \<open>src/strategy/verify/llm_verifier.rs\<close>: the hook that asks a backend about a candidate and reads
  yes or no from the first word of its answer. The order of iteration over the parameters, a
  \<open>HashMap\<close>, is that of the list here; which characters beyond ASCII are alphanumeric is an argument.
\<close>

subsection \<open>The verifier\<close>

record 'w llm_verifier =
  lv_client :: "'w backend"
  lv_model :: "string option"
  lv_template :: string
  lv_system :: "string option"
  lv_params :: "(string \<times> string) list"

definition llm_verifier_new :: "'w backend \<Rightarrow> string \<Rightarrow> 'w llm_verifier" where
  "llm_verifier_new client template = \<lparr>lv_client = client, lv_model = None, lv_template = template,
     lv_system = None, lv_params = []\<rparr>"

definition needle :: "string \<Rightarrow> string" where
  "needle key = ''{'' @ key @ ''}''"

definition by_length :: "(string \<times> string) list \<Rightarrow> (string \<times> string) list" where
  "by_length params = sort_key (\<lambda>(key, _). - int (length key)) params"

definition fill_params :: "(string \<times> string) list \<Rightarrow> string \<Rightarrow> string" where
  "fill_params params template = foldl (\<lambda>p (key, v). str_replace (needle key) v p) template (by_length params)"

definition rendered_prompt :: "'w llm_verifier \<Rightarrow> string \<Rightarrow> string" where
  "rendered_prompt v candidate =
     (let prompt = str_replace ''{candidate}'' candidate (fill_params (lv_params v) (lv_template v)) in
      case lv_system v of Some system \<Rightarrow> system @ [CHR 0x0A, CHR 0x0A] @ prompt | None \<Rightarrow> prompt)"

subsection \<open>The answer\<close>

text \<open>\<open>split_whitespace().next()\<close>, and the characters of a string.\<close>

fun until_ws :: "string \<Rightarrow> string" where
  "until_ws [] = []"
| "until_ws (c # cs) = (if strip_any ws_encodings (c # cs) \<noteq> None then [] else c # until_ws cs)"

definition first_word :: "string \<Rightarrow> string option" where
  "first_word s = (let w = until_ws (trim_start s) in if w = [] then None else Some w)"

fun characters :: "string \<Rightarrow> string list" where
  "characters [] = []"
| "characters (c # cs) =
     (case characters cs of
        [] \<Rightarrow> [[c]]
      | ch # chs \<Rightarrow> if is_cont (hd ch) then (c # ch) # chs else [c] # ch # chs)"

fun alphanumeric :: "(string \<Rightarrow> bool) \<Rightarrow> string \<Rightarrow> bool" where
  "alphanumeric wide [c] = is_ascii_alnum c"
| "alphanumeric wide ch = wide ch"

definition trim_matches :: "(string \<Rightarrow> bool) \<Rightarrow> string \<Rightarrow> string" where
  "trim_matches p s = concat (rev (dropWhile p (rev (dropWhile p (characters s)))))"

definition verdict_word :: "(string \<Rightarrow> bool) \<Rightarrow> string \<Rightarrow> string" where
  "verdict_word wide raw =
     (case first_word raw of
        None \<Rightarrow> []
      | Some token \<Rightarrow> map lower_char (trim_matches (\<lambda>c. \<not> alphanumeric wide c) (trim token)))"

definition parse_answer :: "(string \<Rightarrow> bool) \<Rightarrow> string \<Rightarrow> hook_result" where
  "parse_answer wide raw =
     (let word = verdict_word wide raw in
      if word = ''yes'' then HookPass
      else if word = ''no'' then HookFail ((failure_reason_new ''no'')\<lparr>fr_stdout := raw\<rparr>)
      else HookFail ((failure_reason_new ''unparseable verifier response'')\<lparr>fr_stdout := raw\<rparr>))"

definition verify_llm :: "(string \<Rightarrow> bool) \<Rightarrow> 'w llm_verifier \<Rightarrow> hook_ctx \<Rightarrow> 'w \<Rightarrow> (string, hook_result) result \<times> 'w" where
  "verify_llm wide v ctx w =
     (case bk_query (lv_client v) (rendered_prompt v (hc_stdout ctx)) ''.'' (lv_model v) w of
        (Inr q, w') \<Rightarrow> (Inr (parse_answer wide (qo_stdout q)), w')
      | (Inl e, w') \<Rightarrow> (Inl (''backend error: '' @ backend_error_str e), w'))"

subsection \<open>Rendering\<close>

lemma replace_parts: "\<exists>parts. parts \<noteq> [] \<and> (\<forall>r. replace_from p r k s = str_join r parts)"
proof (induction s arbitrary: k)
  case Nil
  show ?case by (intro exI [of _ "[[]]"]) simp
next
  case (Cons c cs)
  show ?case
  proof (cases k)
    case 0
    show ?thesis
    proof (cases "starts_with (c # cs) p")
      case True
      from Cons obtain parts where "parts \<noteq> []" "\<forall>r. replace_from p r (length p - 1) cs = str_join r parts" by blast
      with True 0 show ?thesis by (intro exI [of _ "[] # parts"]) (cases parts; simp)
    next
      case False
      from Cons obtain q parts where "\<forall>r. replace_from p r 0 cs = str_join r (q # parts)" by (metis list.exhaust)
      moreover have "c # str_join r (q # parts) = str_join r ((c # q) # parts)" for r by (cases parts) simp_all
      ultimately show ?thesis using False 0 by (intro exI [of _ "(c # q) # parts"]) simp
    qed
  next
    case (Suc j)
    with Cons [of j] show ?thesis by simp
  qed
qed

text \<open>
  The candidate is put into the prompt as it is, between parts that do not depend on it: nothing in
  it is taken for a parameter.
\<close>

theorem candidate_verbatim:
  "\<exists>parts. parts \<noteq> [] \<and> (\<forall>candidate. rendered_prompt v candidate = str_join candidate parts)"
proof -
  obtain q parts where parts: "\<forall>r. str_replace ''{candidate}'' r (fill_params (lv_params v) (lv_template v)) = str_join r (q # parts)"
    using replace_parts [of "''{candidate}''" 0 "fill_params (lv_params v) (lv_template v)"]
    unfolding str_replace_def by (metis list.exhaust)
  show ?thesis
  proof (cases "lv_system v")
    case None
    with parts show ?thesis by (intro exI [of _ "q # parts"]) (simp add: rendered_prompt_def Let_def)
  next
    case (Some system)
    have "a @ str_join r (q # parts) = str_join r ((a @ q) # parts)" for a r by (cases parts) simp_all
    with parts Some show ?thesis
      by (intro exI [of _ "(system @ [CHR 0x0A, CHR 0x0A] @ q) # parts"]) (cases parts; simp add: rendered_prompt_def Let_def)
  qed
qed

text \<open>
  The order of the parameters, which is arbitrary in a \<open>HashMap\<close>, has no effect when the lengths
  of their keys differ. It has when two are the same and a value mentions the other key.
\<close>

theorem params_any_order:
  assumes "mset ps = mset qs" "distinct (map (\<lambda>(key, _). length key) ps)"
  shows "rendered_prompt (v\<lparr>lv_params := ps\<rparr>) candidate = rendered_prompt (v\<lparr>lv_params := qs\<rparr>) candidate"
proof -
  let ?l = "\<lambda>(key :: string, _ :: string). length key" and ?k = "\<lambda>(key :: string, _ :: string). - int (length key)"
  from assms(2) have "inj_on ?l (set ps)" by (auto simp: distinct_map)
  moreover have "?k = (\<lambda>x. - int (?l x))" by auto
  ultimately have "inj_on ?k (set ps)" by (simp add: inj_on_def)
  from sort_key_perm [OF assms(1) [symmetric] this] show ?thesis
    by (simp add: rendered_prompt_def fill_params_def by_length_def)
qed

definition demo_client :: "unit backend" where
  "demo_client = \<lparr>bk_name = ''mock'', bk_query = (\<lambda>prompt cwd model w. (Inr (from_text '' **Yes**, it does'' ''mock'' 0), w))\<rparr>"

theorem params_any_order_witness:
  "rendered_prompt ((llm_verifier_new demo_client ''{env_name} {env} {candidate}'')\<lparr>lv_params := [(''env'', ''x''), (''env_name'', ''y'')]\<rparr>) ''c'' = ''y x c''"
proof -
  have "rendered_prompt ((llm_verifier_new demo_client ''{env_name} {env} {candidate}'')\<lparr>lv_params := [(''env_name'', ''y''), (''env'', ''x'')]\<rparr>) ''c'' = ''y x c''"
    by code_simp
  then show ?thesis
    by (subst params_any_order [where qs = "[(''env_name'', ''y''), (''env'', ''x'')]"]) simp_all
qed

lemma equal_lengths_depend:
  "fill_params [(''a'', ''{b}''), (''b'', ''x'')] ''{a}'' = ''x'' \<and> fill_params [(''b'', ''x''), (''a'', ''{b}'')] ''{a}'' = ''{b}''"
  by code_simp

text \<open>A word that is marked up, and one that only begins with a yes.\<close>

lemma answers:
  "trim_matches (\<lambda>c. \<not> alphanumeric (\<lambda>_. False) c) ''**Yes**,'' = ''Yes'' \<and>
   trim_matches (\<lambda>c. \<not> alphanumeric (\<lambda>_. False) c) ''yes/no'' = ''yes/no''"
  by code_simp

end
