(* ===== verification/Trace.thy ===== *)
theory Trace
  imports RustMap Json "HOL-Library.List_Lexorder" "HOL-Library.Char_ord" "HOL-Library.Word"
begin

text \<open>
  \<open>src/trace.rs\<close> and its two sinks, \<open>src/trace/writer.rs\<close> and \<open>src/trace/memory.rs\<close>: the spans of a
  run, one JSON object per line of \<open>trace.jsonl\<close> or one value of a list in memory. The calls of the
  sink trait are data here. The clock, the fresh span identifiers and the printer of JSON are
  arguments, and so is whether a write succeeds.
\<close>

subsection \<open>Calls\<close>

record phase_span_ctx =
  ps_trace_id :: string
  ps_span_id :: string
  ps_phase :: string
  ps_strategy :: string
  ps_aggregator :: string
  ps_verify_hook :: "string option"

record attempt_span =
  as_span_id :: string
  as_attempt :: nat
  as_backend :: string
  as_model :: "string option"

record backend_span =
  bs_duration_ms :: "64 word"
  bs_input_tokens :: "64 word option"
  bs_output_tokens :: "64 word option"
  bs_finish_reasons :: "string list"
  bs_error :: "string option"

record hitl_trace =
  ht_severity :: string
  ht_timeout_at :: "string option"
  ht_timeout_action :: string
  ht_timeout_outcome :: string

record verify_span =
  vs_passed :: bool
  vs_message :: "string option"
  vs_duration_ms :: "64 word"
  vs_hitl :: "hitl_trace option"

datatype trace_call =
    PhaseStarted phase_span_ctx
  | BackendCall phase_span_ctx attempt_span backend_span
  | AggregatorFold phase_span_ctx string nat
  | VerifySpan phase_span_ctx string verify_span
  | PhaseFinished phase_span_ctx string "64 word"
  | ErrorSpan phase_span_ctx string string "64 word"

subsection \<open>Objects\<close>

text \<open>\<open>serde_json::Map\<close> is a \<open>BTreeMap\<close>.\<close>

type_synonym members = "(string \<times> json) list"

definition put :: "string \<Rightarrow> json \<Rightarrow> members \<Rightarrow> members" where
  "put k v m = bt_upd k (\<lambda>_. v) m"

definition put_opt :: "string \<Rightarrow> json option \<Rightarrow> members \<Rightarrow> members" where
  "put_opt k ov m = (case ov of Some v \<Rightarrow> put k v m | None \<Rightarrow> m)"

definition put_all :: "(string \<times> json option) list \<Rightarrow> members \<Rightarrow> members" where
  "put_all kvs m = foldl (\<lambda>m (k, ov). put_opt k ov m) m kvs"

definition u64_json :: "64 word \<Rightarrow> json" where
  "u64_json n = JInt (uint n)"

definition build_span_skeleton :: "string \<Rightarrow> string \<Rightarrow> string \<Rightarrow> string option \<Rightarrow> string \<Rightarrow> members" where
  "build_span_skeleton now trace_id span_id parent name =
     put_all [(''trace_id'', Some (JStr trace_id)), (''span_id'', Some (JStr span_id)),
       (''parent_span_id'', map_option JStr parent), (''timestamp'', Some (JStr now)), (''name'', Some (JStr name))] []"

definition common :: "phase_span_ctx \<Rightarrow> (string \<times> json option) list" where
  "common c = [(''loker.run_id'', Some (JStr (ps_trace_id c))), (''loker.phase'', Some (JStr (ps_phase c)))]"

definition hitl_members :: "hitl_trace option \<Rightarrow> (string \<times> json option) list" where
  "hitl_members h = (case h of None \<Rightarrow> []
     | Some t \<Rightarrow> [(''loker.hitl.severity'', Some (JStr (ht_severity t))),
         (''loker.hitl.timeout_at'', map_option JStr (ht_timeout_at t)),
         (''loker.hitl.timeout_action'', Some (JStr (ht_timeout_action t))),
         (''loker.hitl.timeout_outcome'', Some (JStr (ht_timeout_outcome t)))])"

definition outcome_json :: "verify_span \<Rightarrow> json" where
  "outcome_json r = JStr (if vs_passed r then ''verify_passed'' else ''verify_failed'')"

subsection \<open>The spans of the writer\<close>

fun call_ctx :: "trace_call \<Rightarrow> phase_span_ctx" where
  "call_ctx (PhaseStarted c) = c"
| "call_ctx (BackendCall c a r) = c"
| "call_ctx (AggregatorFold c k n) = c"
| "call_ctx (VerifySpan c h r) = c"
| "call_ctx (PhaseFinished c s d) = c"
| "call_ctx (ErrorSpan c k m d) = c"

text \<open>The identifier, the parent and the name of the span of a call.\<close>

fun span_head :: "string \<Rightarrow> trace_call \<Rightarrow> string \<times> string option \<times> string" where
  "span_head fresh (PhaseStarted c) = (ps_span_id c, None, ''phase.'' @ ps_phase c)"
| "span_head fresh (BackendCall c a r) = (as_span_id a, Some (ps_span_id c), ''backend.'' @ as_backend a)"
| "span_head fresh (AggregatorFold c kind n) = (fresh, Some (ps_span_id c), ''aggregator.'' @ kind)"
| "span_head fresh (VerifySpan c hook r) = (fresh, Some (ps_span_id c), ''verify.'' @ hook)"
| "span_head fresh (PhaseFinished c outcome d) = (fresh, Some (ps_span_id c), ''phase.'' @ ps_phase c @ ''.finished'')"
| "span_head fresh (ErrorSpan c kind msg d) = (fresh, Some (ps_span_id c), ''phase.'' @ ps_phase c @ ''.error'')"

definition skeleton_of :: "string \<Rightarrow> string \<Rightarrow> trace_call \<Rightarrow> members" where
  "skeleton_of now fresh call =
     (case span_head fresh call of (span_id, parent, name) \<Rightarrow>
        build_span_skeleton now (ps_trace_id (call_ctx call)) span_id parent name)"

fun extras :: "trace_call \<Rightarrow> (string \<times> json option) list" where
  "extras (PhaseStarted c) = common c @ [(''loker.strategy'', Some (JStr (ps_strategy c))),
     (''loker.aggregator'', Some (JStr (ps_aggregator c))), (''loker.verify_hook'', map_option JStr (ps_verify_hook c))]"
| "extras (BackendCall c a r) = common c @ [(''loker.attempt'', Some (JInt (int (as_attempt a)))),
     (''gen_ai.system'', Some (JStr (as_backend a))), (''gen_ai.request.model'', map_option JStr (as_model a)),
     (''duration_ms'', Some (u64_json (bs_duration_ms r))),
     (''gen_ai.usage.input_tokens'', map_option u64_json (bs_input_tokens r)),
     (''gen_ai.usage.output_tokens'', map_option u64_json (bs_output_tokens r)),
     (''gen_ai.response.finish_reasons'', if bs_finish_reasons r = [] then None else Some (JArr (map JStr (bs_finish_reasons r)))),
     (''error.message'', map_option JStr (bs_error r))]"
| "extras (AggregatorFold c kind n) = common c @ [(''loker.aggregator'', Some (JStr kind)),
     (''loker.input_count'', Some (JInt (int n)))]"
| "extras (VerifySpan c hook r) = common c @ [(''loker.verify_hook'', Some (JStr hook)),
     (''loker.outcome'', Some (outcome_json r)), (''duration_ms'', Some (u64_json (vs_duration_ms r))),
     (''error.message'', map_option JStr (vs_message r))] @ hitl_members (vs_hitl r)"
| "extras (PhaseFinished c outcome d) = common c @ [(''loker.outcome'', Some (JStr outcome)), (''duration_ms'', Some (u64_json d))]"
| "extras (ErrorSpan c kind msg d) = common c @ [(''error.kind'', Some (JStr kind)), (''error.message'', Some (JStr msg)),
     (''duration_ms'', Some (u64_json d))]"

text \<open>The extras are collected in an object of their own, which is then copied over the skeleton.\<close>

definition writer_span :: "string \<Rightarrow> string \<Rightarrow> trace_call \<Rightarrow> members" where
  "writer_span now fresh call = foldl (\<lambda>m (k, v). put k v m) (skeleton_of now fresh call) (put_all (extras call) [])"

text \<open>
  The writer: the bytes that are in the file and those that wait in the buffer, which is flushed
  after each line when the writer syncs, and at some time otherwise. A write that fails is
  reported and loses its line.
\<close>

record trace_file =
  tf_written :: string
  tf_buffered :: string

datatype write_outcome = LineOk | LineFails | LineFlushFails

definition flush_trace :: "trace_file \<Rightarrow> trace_file" where
  "flush_trace f = \<lparr>tf_written = tf_written f @ tf_buffered f, tf_buffered = []\<rparr>"

definition write_line :: "json_lib \<Rightarrow> bool \<Rightarrow> write_outcome \<Rightarrow> members \<Rightarrow> trace_file \<Rightarrow> trace_file" where
  "write_line js fsync oc m f =
     (let f' = f\<lparr>tf_buffered := tf_buffered f @ js_show js (JObj m) @ [CHR 0x0A]\<rparr> in
      case oc of
        LineFails \<Rightarrow> f
      | LineFlushFails \<Rightarrow> f'
      | LineOk \<Rightarrow> if fsync then flush_trace f' else f')"

record trace_env =
  tn_now :: "nat \<Rightarrow> string"
  tn_fresh :: "nat \<Rightarrow> string"

definition write_calls :: "json_lib \<Rightarrow> trace_env \<Rightarrow> bool \<Rightarrow> trace_call list \<Rightarrow> trace_file \<Rightarrow> trace_file" where
  "write_calls js env fsync calls f =
     foldl (\<lambda>f (i, call). write_line js fsync LineOk (writer_span (tn_now env i) (tn_fresh env i) call) f) f (enumerate 0 calls)"

subsection \<open>The spans of the memory sink\<close>

fun memory_extras :: "trace_call \<Rightarrow> (string \<times> json option) list" where
  "memory_extras (AggregatorFold c kind n) = common c @ [(''loker.aggregator'', Some (JStr kind))]"
| "memory_extras (VerifySpan c hook r) = common c @ [(''loker.outcome'', Some (outcome_json r)),
     (''duration_ms'', Some (u64_json (vs_duration_ms r))), (''error.message'', map_option JStr (vs_message r))] @
     hitl_members (vs_hitl r)"
| "memory_extras call = extras call"

definition memory_span :: "string \<Rightarrow> string \<Rightarrow> trace_call \<Rightarrow> members" where
  "memory_span now fresh call = put_all (memory_extras call) (skeleton_of now fresh call)"

definition memory_calls :: "trace_env \<Rightarrow> trace_call list \<Rightarrow> json list" where
  "memory_calls env calls = map (\<lambda>(i, call). JObj (memory_span (tn_now env i) (tn_fresh env i) call)) (enumerate 0 calls)"

subsection \<open>Members of spans\<close>

lemma put_look: "bt_inv m \<Longrightarrow> bt_inv (put k v m) \<and> map_of (put k v m) = (map_of m)(k \<mapsto> v)"
  by (auto simp: put_def bt_inv_upd bt_map_of_upd fun_eq_iff)

lemma put_opt_look:
  "bt_inv m \<Longrightarrow> bt_inv (put_opt k ov m) \<and>
     map_of (put_opt k ov m) = (case ov of Some v \<Rightarrow> (map_of m)(k \<mapsto> v) | None \<Rightarrow> map_of m)"
  using put_look [of m k] by (auto simp: put_opt_def split: option.splits)

text \<open>The members that a list of puts leaves: the last value given for a key.\<close>

definition given :: "(string \<times> json option) list \<Rightarrow> string \<Rightarrow> json option" where
  "given kvs = map_of (rev (List.map_filter (\<lambda>(k, ov). map_option (Pair k) ov) kvs))"

lemma given_simps [simp]:
  "given [] = (\<lambda>_. None)"
  "given ((k, ov) # kvs) = (case ov of Some v \<Rightarrow> [k \<mapsto> v] ++ given kvs | None \<Rightarrow> given kvs)"
  by (auto simp: given_def List.map_filter_simps fun_eq_iff map_add_def split: option.splits)

lemma given_append: "given (as @ bs) = given as ++ given bs"
  by (induction as) (auto split: option.splits)

lemma put_all_look: "bt_inv m \<Longrightarrow> bt_inv (put_all kvs m) \<and> map_of (put_all kvs m) = map_of m ++ given kvs"
proof (induction kvs arbitrary: m)
  case Nil
  then show ?case by (simp add: put_all_def)
next
  case (Cons kv kvs)
  obtain k ov where kv: "kv = (k, ov)" by fastforce
  from put_opt_look [OF Cons.prems, of k ov] Cons.IH [of "put_opt k ov m"]
  have "bt_inv (put_all (kv # kvs) m) \<and> map_of (put_all (kv # kvs) m) = map_of (put_opt k ov m) ++ given kvs"
    by (simp add: put_all_def kv)
  with put_opt_look [OF Cons.prems, of k ov] show ?case by (auto simp: kv split: option.splits)
qed

lemma put_members_look:
  "bt_inv m \<Longrightarrow> distinct (map fst kvs) \<Longrightarrow> bt_inv (foldl (\<lambda>m (k, v). put k v m) m kvs) \<and>
     map_of (foldl (\<lambda>m (k, v). put k v m) m kvs) = map_of m ++ map_of kvs"
proof (induction kvs arbitrary: m)
  case (Cons kv kvs)
  obtain k v where kv: "kv = (k, v)" by fastforce
  from Cons.prems(2) have "map_of kvs k = None" by (simp add: kv map_of_eq_None_iff image_image)
  then have "(map_of m)(k \<mapsto> v) ++ map_of kvs = map_of m ++ map_of (kv # kvs)"
    by (auto simp: kv fun_eq_iff map_add_def split: option.splits)
  moreover have "distinct (map fst kvs)" using Cons.prems(2) by simp
  note Cons.IH [OF conjunct1 [OF put_look [OF Cons.prems(1), of k v]] this]
  ultimately show ?case by (simp only: foldl_Cons kv prod.case conjunct2 [OF put_look [OF Cons.prems(1), of k v]])
qed simp

lemma skeleton_inv [simp]: "bt_inv (skeleton_of now fresh call)"
  using put_all_look [of "[]"] by (auto simp: skeleton_of_def build_span_skeleton_def bt_inv_facts split: prod.splits)

lemma writer_span_look:
  "bt_inv (writer_span now fresh call) \<and>
   map_of (writer_span now fresh call) = map_of (skeleton_of now fresh call) ++ given (extras call)"
proof -
  have e: "bt_inv (put_all (extras call) [])" "map_of (put_all (extras call) []) = given (extras call)"
    using put_all_look [of "[]" "extras call"] by (simp_all add: bt_inv_facts)
  from put_members_look [OF skeleton_inv bt_inv_facts(2) [OF e(1)]] e(2) show ?thesis by (simp add: writer_span_def)
qed

lemma memory_span_look:
  "bt_inv (memory_span now fresh call) \<and>
   map_of (memory_span now fresh call) = map_of (skeleton_of now fresh call) ++ given (memory_extras call)"
  using put_all_look [OF skeleton_inv] by (simp add: memory_span_def)

text \<open>
  The two sinks agree: for the same call, time and identifier their spans have the same members,
  except for the number of inputs of an aggregation and the name of a verification hook, which
  the one in memory leaves out.
\<close>

theorem sinks_agree:
  "map_of (memory_span now fresh call) k =
     (if (\<exists>c kind n. call = AggregatorFold c kind n) \<and> k = ''loker.input_count'' \<or>
         (\<exists>c hook r. call = VerifySpan c hook r) \<and> k = ''loker.verify_hook''
      then None else map_of (writer_span now fresh call) k)"
proof -
  have skel: "map_of (skeleton_of now fresh call) ''loker.input_count'' = None"
    "map_of (skeleton_of now fresh call) ''loker.verify_hook'' = None"
    using put_all_look [of "[]"]
    by (simp_all add: skeleton_of_def build_span_skeleton_def bt_inv_facts map_add_def split: prod.splits option.splits)
  show ?thesis
    using skel conjunct2 [OF memory_span_look, of now fresh call] conjunct2 [OF writer_span_look, of now fresh call]
    by (cases call) (auto simp: given_append common_def hitl_members_def map_add_def split: option.splits)
qed

end
