(* ===== verification/TraceReader.thy ===== *)
theory TraceReader
  imports Trace FileStore "HOL-Library.Product_Lexorder"
begin

text \<open>
  \<open>src/summary/reader.rs\<close> and \<open>src/summary/prices.rs\<close>: the token usage that a trace file records, per
  backend and model, and its cost. Reading JSON and TOML and the arithmetic of \<open>f64\<close> are arguments.
\<close>

subsection \<open>Usage\<close>

record 'f backend_usage =
  bu_name :: string
  bu_model :: string
  bu_input :: "64 word"
  bu_output :: "64 word"
  bu_cost :: "'f option"

datatype trace_reader_error = TrIo string | TrParse nat string

type_synonym usage_key = "string \<times> string"
type_synonym tokens = "64 word \<times> 64 word"

definition saturating_add :: "64 word \<Rightarrow> 64 word \<Rightarrow> 64 word" where
  "saturating_add a b = (if unat a + unat b < 2 ^ 64 then a + b else - 1)"

definition u64_of :: "json \<Rightarrow> 64 word option" where
  "u64_of v = map_option of_nat (as_u64 v)"

text \<open>
  The backend, the model and the tokens of a span of a backend call: an object with a system that
  is not empty and both counts.
\<close>

definition span_usage :: "json \<Rightarrow> (usage_key \<times> tokens) option" where
  "span_usage v =
     (case Option.bind (json_get ''gen_ai.system'' v) as_str of
        None \<Rightarrow> None
      | Some system \<Rightarrow>
          if system = [] then None
          else
            let model = unwrap_or ''default'' (Option.bind (json_get ''gen_ai.request.model'' v) as_str) in
            case Option.bind (json_get ''gen_ai.usage.input_tokens'' v) u64_of of
              None \<Rightarrow> None
            | Some i \<Rightarrow> (case Option.bind (json_get ''gen_ai.usage.output_tokens'' v) u64_of of
                  None \<Rightarrow> None
                | Some n \<Rightarrow> Some ((system, model), (i, n))))"

definition add_usage :: "tokens \<Rightarrow> tokens option \<Rightarrow> tokens" where
  "add_usage t old = (case unwrap_or (0, 0) old of (i, n) \<Rightarrow> (saturating_add i (fst t), saturating_add n (snd t)))"

fun read_usage :: "json_lib \<Rightarrow> nat \<Rightarrow> string list \<Rightarrow> (usage_key \<times> tokens) list \<Rightarrow>
    (trace_reader_error, (usage_key \<times> tokens) list) result" where
  "read_usage js idx [] groups = Inr groups"
| "read_usage js idx (l # ls) groups =
     (let line = trim l in
      if line = [] then read_usage js (Suc idx) ls groups
      else case js_parse js line of
          Inl e \<Rightarrow> Inl (TrParse (Suc idx) (''invalid JSON: '' @ e))
        | Inr value \<Rightarrow> (case span_usage value of
              None \<Rightarrow> read_usage js (Suc idx) ls groups
            | Some (key, t) \<Rightarrow> read_usage js (Suc idx) ls (hm_upd key (add_usage t) groups)))"

text \<open>The groups are in a \<open>HashMap\<close>; they are sorted by their keys, which are distinct.\<close>

definition usage_entry :: "usage_key \<times> tokens \<Rightarrow> 'f backend_usage" where
  "usage_entry g = \<lparr>bu_name = fst (fst g), bu_model = snd (fst g), bu_input = fst (snd g), bu_output = snd (snd g), bu_cost = None\<rparr>"

definition aggregate :: "json_lib \<Rightarrow> (io_error, string) result \<Rightarrow> (trace_reader_error, 'f backend_usage list) result" where
  "aggregate js contents =
     (case contents of
        Inl e \<Rightarrow> Inl (TrIo (''cannot read trace file: '' @ io_str e))
      | Inr content \<Rightarrow>
          if trim content = [] then Inr []
          else rbind (read_usage js 0 (str_lines content) []) (\<lambda>groups.
            Inr (sort_key (\<lambda>b. (bu_name b, bu_model b)) (map usage_entry groups))))"

subsection \<open>Prices\<close>

record 'f f64_ops =
  fl_of_u64 :: "64 word \<Rightarrow> 'f"
  fl_zero :: 'f
  fl_million :: 'f
  fl_add :: "'f \<Rightarrow> 'f \<Rightarrow> 'f"
  fl_mul :: "'f \<Rightarrow> 'f \<Rightarrow> 'f"
  fl_div :: "'f \<Rightarrow> 'f \<Rightarrow> 'f"
  fl_gt :: "'f \<Rightarrow> 'f \<Rightarrow> bool"

record 'f model_price =
  mp_input :: 'f
  mp_output :: 'f

type_synonym 'f price_table = "string \<rightharpoonup> 'f model_price"

definition load_prices :: "(string \<Rightarrow> 'f price_table option) \<Rightarrow> (io_error, string) result \<Rightarrow> 'f price_table" where
  "load_prices toml contents =
     (case contents of
        Inl e \<Rightarrow> Map.empty
      | Inr content \<Rightarrow> (case toml content of None \<Rightarrow> Map.empty | Some prices \<Rightarrow> prices))"

definition price_lookup :: "'f price_table \<Rightarrow> string \<Rightarrow> string \<Rightarrow> 'f model_price option" where
  "price_lookup prices backend model = prices (backend @ '':'' @ model)"

definition compute_cost :: "'f f64_ops \<Rightarrow> 'f price_table \<Rightarrow> string \<Rightarrow> string \<Rightarrow> 64 word \<Rightarrow> 64 word \<Rightarrow> 'f option" where
  "compute_cost fl prices backend model input output =
     map_option (\<lambda>price.
       fl_add fl (fl_mul fl (fl_div fl (fl_of_u64 fl input) (fl_million fl)) (mp_input price))
         (fl_mul fl (fl_div fl (fl_of_u64 fl output) (fl_million fl)) (mp_output price)))
       (price_lookup prices backend model)"

subsection \<open>Saturating sums\<close>

definition saturated :: "nat \<Rightarrow> 64 word" where
  "saturated n = of_nat (min n (2 ^ 64 - 1))"

lemma unat_saturated: "unat (saturated n) = min n (2 ^ 64 - 1)"
  by (simp add: saturated_def unat_of_nat)

lemma saturating_add_unat: "unat (saturating_add a b) = min (unat a + unat b) (2 ^ 64 - 1)"
proof (cases "unat a + unat b < 2 ^ 64")
  case True
  then show ?thesis by (simp add: saturating_add_def unat_word_ariths)
next
  case False
  then show ?thesis by (simp add: saturating_add_def unsigned_minus_1_eq_mask mask_eq_exp_minus_1)
qed

lemma saturating_add_of: "saturating_add (saturated n) w = saturated (n + unat w)"
  by (auto simp: word_unat_eq_iff saturating_add_unat unat_saturated min_def)

lemma saturated_0 [simp]: "saturated 0 = 0"
  by (simp add: saturated_def)

subsection \<open>The usage of calls\<close>

text \<open>What a call of the trace should count for: a call of a named backend with both counts.\<close>

fun call_usage :: "trace_call \<Rightarrow> (usage_key \<times> tokens) option" where
  "call_usage (BackendCall c a r) =
     (case (bs_input_tokens r, bs_output_tokens r) of
        (Some i, Some n) \<Rightarrow> if as_backend a = [] then None else Some ((as_backend a, unwrap_or ''default'' (as_model a)), (i, n))
      | _ \<Rightarrow> None)"
| "call_usage _ = None"

definition usages :: "trace_call list \<Rightarrow> (usage_key \<times> tokens) list" where
  "usages calls = List.map_filter call_usage calls"

definition used :: "(tokens \<Rightarrow> 64 word) \<Rightarrow> usage_key \<Rightarrow> (usage_key \<times> tokens) list \<Rightarrow> nat" where
  "used side k us = sum_list (map (\<lambda>(k', t). if k' = k then unat (side t) else 0) us)"

lemma used_simps [simp]:
  "used side k [] = 0" "used side k ((k', t) # us) = (if k' = k then unat (side t) else 0) + used side k us"
  by (simp_all add: used_def)

definition usage_of :: "(usage_key \<times> tokens) list \<Rightarrow> usage_key \<Rightarrow> 'f backend_usage" where
  "usage_of us k = \<lparr>bu_name = fst k, bu_model = snd k, bu_input = saturated (used fst k us),
     bu_output = saturated (used snd k us), bu_cost = None\<rparr>"

definition group_all :: "(usage_key \<times> tokens) list \<Rightarrow> (usage_key \<times> tokens) list \<Rightarrow> (usage_key \<times> tokens) list" where
  "group_all us groups = foldl (\<lambda>g (k, t). hm_upd k (add_usage t) g) groups us"

lemma used_append: "used side k (as @ bs) = used side k as + used side k bs"
  by (simp add: used_def)

lemma group_all_look:
  "hm_inv (group_all us []) \<and> map_of (group_all us []) k =
     (if k \<in> fst ` set us then Some (saturated (used fst k us), saturated (used snd k us)) else None)"
proof (induction us arbitrary: k rule: rev_induct)
  case Nil
  show ?case by (simp add: group_all_def hm_inv_facts)
next
  case (snoc u us)
  obtain k' t where u: "u = (k', t)" by (cases u)
  have "used side k us = 0" if "k \<notin> fst ` set us" for side k
    using that unfolding used_def by (induction us) (auto split: prod.splits)
  then have add: "add_usage t (map_of (group_all us []) k) = (saturated (used fst k us + unat (fst t)), saturated (used snd k us + unat (snd t)))" for k
    using conjunct2 [OF snoc, of k] saturating_add_of [of 0] by (auto simp: add_usage_def saturating_add_of)
  have step: "group_all (us @ [(k', t)]) [] = hm_upd k' (add_usage t) (group_all us [])" by (simp add: group_all_def u)
  show ?case
  proof (cases "k = k'")
    case True
    with conjunct1 [OF snoc] show ?thesis by (simp add: step hm_inv_upd hm_map_of_upd add used_append u)
  next
    case False
    with snoc show ?thesis by (auto simp: step hm_inv_upd hm_map_of_upd used_append u)
  qed
qed

lemma sort_keys:
  assumes "distinct (map key xs)"
  shows "sort_key key xs = map (\<lambda>k. the (map_of (map (\<lambda>x. (key x, x)) xs) k)) (sorted_list_of_set (key ` set xs))"
proof -
  let ?look = "\<lambda>k. the (map_of (map (\<lambda>x. (key x, x)) xs) k)"
  have look: "?look (key x) = x" if "x \<in> set xs" for x
  proof -
    have "map_of (map (\<lambda>x. (key x, x)) xs) (key x) = Some x"
      by (rule map_of_is_SomeI) (use assms that in \<open>auto simp: comp_def\<close>)
    then show ?thesis by simp
  qed
  have "distinct (map key (sort_key key xs))"
    using assms by (metis distinct_map distinct_sort set_sort)
  then have "map key (sort_key key xs) = sorted_list_of_set (key ` set xs)"
    by (intro sorted_distinct_set_unique) auto
  then have "map (\<lambda>k. ?look k) (sorted_list_of_set (key ` set xs)) = map (\<lambda>x. ?look (key x)) (sort_key key xs)"
    by (metis (no_types, lifting) map_map comp_apply map_eq_conv)
  also have "\<dots> = sort_key key xs" by (rule map_idI) (simp add: look)
  finally show ?thesis by simp
qed

lemma aggregate_groups:
  "sort_key (\<lambda>b. (bu_name b, bu_model b)) (map usage_entry (group_all us [])) =
     map (usage_of us :: _ \<Rightarrow> 'f backend_usage) (sorted_list_of_set (fst ` set us))"
proof -
  let ?g = "group_all us []"
  let ?key = "\<lambda>b :: 'f backend_usage. (bu_name b, bu_model b)"
  note look = group_all_look [of us]
  have key: "?key (usage_entry g) = fst g" for g by (simp add: usage_entry_def)
  have keys: "fst ` set ?g = fst ` set us"
    using look by (metis (no_types, lifting) map_of_eq_None_iff option.distinct(1) subsetI subset_antisym)
  have dist: "distinct (map ?key (map usage_entry ?g))" using look [of undefined] by (simp add: comp_def key hm_inv_facts)
  have "the (map_of (map (\<lambda>x. (?key x, x)) (map usage_entry ?g)) k) = usage_of us k" if "k \<in> fst ` set us" for k
  proof -
    have "map_of (map (\<lambda>x. (?key x, x)) (map usage_entry g)) k = map_option (\<lambda>t. usage_entry (k, t)) (map_of g k)" for g
      by (induction g) (auto simp: key)
    from this [of ?g] show ?thesis using look [of k] that by (simp only: if_True option.map option.sel) (simp add: usage_entry_def usage_of_def)
  qed
  moreover have "?key ` set (map usage_entry ?g) = fst ` set us" using keys by (simp add: image_image key)
  ultimately show ?thesis by (simp add: sort_keys [OF dist])
qed

subsection \<open>From calls to usage\<close>

text \<open>What \<open>serde_json\<close> does with an object: one line between braces, which is read back.\<close>

definition readable :: "json_lib \<Rightarrow> members \<Rightarrow> bool" where
  "readable js m \<longleftrightarrow> js_parse js (js_show js (JObj m)) = Inr (JObj m) \<and> line_ok (js_show js (JObj m)) \<and>
     starts_with (js_show js (JObj m)) ''{'' \<and> ends_with (js_show js (JObj m)) ''}''"

definition empty_trace :: trace_file where
  "empty_trace = \<lparr>tf_written = [], tf_buffered = []\<rparr>"

definition trace_lines :: "json_lib \<Rightarrow> trace_env \<Rightarrow> (nat \<times> trace_call) list \<Rightarrow> string list" where
  "trace_lines js env ics = map (\<lambda>(i, call). js_show js (JObj (writer_span (tn_now env i) (tn_fresh env i) call))) ics"

lemma written_lines:
  "foldl (\<lambda>f (i, call). write_line js True LineOk (writer_span (tn_now env i) (tn_fresh env i) call) f) \<lparr>tf_written = w, tf_buffered = []\<rparr> ics =
     \<lparr>tf_written = w @ unlines (trace_lines js env ics), tf_buffered = []\<rparr>"
  by (induction ics arbitrary: w) (auto simp: trace_lines_def write_line_def flush_trace_def Let_def)

lemma ws_no_brace: "e \<in> set ws_encodings \<Longrightarrow> CHR ''{'' \<notin> set e \<and> CHR ''}'' \<notin> set e"
proof -
  have "list_all (\<lambda>e. CHR ''{'' \<notin> set e \<and> CHR ''}'' \<notin> set e) ws_encodings" by code_simp
  then show "e \<in> set ws_encodings \<Longrightarrow> CHR ''{'' \<notin> set e \<and> CHR ''}'' \<notin> set e" by (simp add: list_all_iff)
qed

lemma strip_any_foreign: "\<forall>e \<in> set es. c \<notin> set e \<Longrightarrow> strip_any es (c # s) = None"
  unfolding strip_any_None starts_with_iff by (auto simp: Cons_eq_append_conv)

lemma trim_with_keeps: "c \<in> set s \<Longrightarrow> \<forall>e \<in> set es. c \<notin> set e \<Longrightarrow> c \<in> set (trim_with es s)"
proof (induction es s rule: trim_with.induct)
  case (1 es s)
  show ?case
    by (subst trim_with.simps) (use 1 in \<open>fastforce split: option.splits dest: strip_any_Some\<close>)
qed

lemma trim_keeps_brace: "CHR ''{'' \<in> set s \<Longrightarrow> trim s \<noteq> []"
  using trim_with_keeps [of "CHR ''{''" s ws_encodings] trim_with_keeps [of "CHR ''{''" "rev (trim_start s)" "map rev ws_encodings"]
    ws_no_brace by (fastforce simp: trim_def trim_end_def trim_start_def)

lemma trim_braces:
  assumes "starts_with s ''{''" "ends_with s ''}''"
  shows "trim s = s"
proof -
  from assms(1) obtain r where r: "s = CHR ''{'' # r" by (auto simp: starts_with_iff)
  from assms(2) obtain q where q: "s = q @ ''}''" by (auto simp: ends_with_def strip_suffix_eq_Some)
  have "strip_any ws_encodings s = None" unfolding r by (rule strip_any_foreign) (use ws_no_brace in auto)
  moreover have "strip_any (map rev ws_encodings) (rev s) = None"
    unfolding q by (simp, rule strip_any_foreign) (use ws_no_brace in auto)
  ultimately show ?thesis by (simp add: trim_def trim_start_def trim_end_def trim_with_id)
qed

lemma no_system: "\<forall>c a r. call \<noteq> BackendCall c a r \<Longrightarrow> given (extras call) ''gen_ai.system'' = None"
  by (cases call) (auto simp: common_def hitl_members_def split: option.splits)

lemma span_usage_written: "span_usage (JObj (writer_span now fresh call)) = call_usage call"
proof -
  have u64: "u64_of (u64_json n) = Some n" for n
    using uint_lt2p [of n] by (simp add: u64_of_def u64_json_def)
  have skel: "map_of (skeleton_of now fresh call) k = None" if "k \<in> {''gen_ai.system'', ''gen_ai.request.model'',
    ''gen_ai.usage.input_tokens'', ''gen_ai.usage.output_tokens''}" for k
    using put_all_look [of "[]"] that
    by (auto simp: skeleton_of_def build_span_skeleton_def bt_inv_facts map_add_def split: prod.splits option.splits)
  have look: "json_get k (JObj (writer_span now fresh call)) = (map_of (skeleton_of now fresh call) ++ given (extras call)) k" for k
    using conjunct2 [OF writer_span_look, of now fresh call] by simp
  show ?thesis
  proof (cases "\<exists>c a r. call = BackendCall c a r")
    case True
    then obtain c a r where BackendCall: "call = BackendCall c a r" by blast
    let ?m = "JObj (writer_span now fresh call)"
    have "json_get ''gen_ai.system'' ?m = Some (JStr (as_backend a))"
      "json_get ''gen_ai.request.model'' ?m = map_option JStr (as_model a)"
      "json_get ''gen_ai.usage.input_tokens'' ?m = map_option u64_json (bs_input_tokens r)"
      "json_get ''gen_ai.usage.output_tokens'' ?m = map_option u64_json (bs_output_tokens r)"
      unfolding look
      by (simp_all add: BackendCall skel [unfolded BackendCall] common_def map_add_def split: option.splits)
    then show ?thesis
      unfolding BackendCall span_usage_def
      by (cases "as_model a"; cases "bs_input_tokens r"; cases "bs_output_tokens r") (simp_all add: u64)
  next
    case False
    then have "given (extras call) ''gen_ai.system'' = None" by (intro no_system) blast
    then have "json_get ''gen_ai.system'' (JObj (writer_span now fresh call)) = None"
      unfolding look by (simp add: skel map_add_def)
    moreover have "call_usage call = None" using False by (cases call) auto
    ultimately show ?thesis unfolding span_usage_def by simp
  qed
qed

lemma read_usage_lines:
  "\<forall>(i, call) \<in> set ics. readable js (writer_span (tn_now env i) (tn_fresh env i) call) \<Longrightarrow>
     read_usage js n (trace_lines js env ics) groups = Inr (group_all (usages (map snd ics)) groups)"
proof (induction ics arbitrary: n groups)
  case Nil
  show ?case by (simp add: trace_lines_def usages_def group_all_def List.map_filter_simps)
next
  case (Cons ic ics)
  obtain i call where ic: "ic = (i, call)" by (cases ic)
  let ?m = "writer_span (tn_now env i) (tn_fresh env i) call"
  have ok: "readable js ?m" using Cons.prems ic by auto
  then have "trim (js_show js (JObj ?m)) = js_show js (JObj ?m)" "js_show js (JObj ?m) \<noteq> []"
    by (auto simp: readable_def trim_braces starts_with_iff)
  with ok have "read_usage js n (trace_lines js env (ic # ics)) groups = (case call_usage call of
      None \<Rightarrow> read_usage js (Suc n) (trace_lines js env ics) groups
    | Some (key, t) \<Rightarrow> read_usage js (Suc n) (trace_lines js env ics) (hm_upd key (add_usage t) groups))"
    by (simp add: trace_lines_def ic readable_def span_usage_written Let_def split: option.splits)
  with Cons show ?case
    by (auto simp: ic usages_def group_all_def List.map_filter_simps split: option.splits)
qed

text \<open>
  C30: What the summary reports of the usage of a run is what the calls of its trace used: one entry for
  each backend and model, in their order, with the sums of their counts, up to the width of the
  counters. Calls of which a count is not known are left out.
\<close>

theorem traced_usage:
  assumes "\<forall>(i, call) \<in> set (enumerate 0 calls). readable js (writer_span (tn_now env i) (tn_fresh env i) call)"
  shows "aggregate js (Inr (tf_written (write_calls js env True calls empty_trace))) =
     Inr (map (usage_of (usages calls)) (sorted_list_of_set (fst ` set (usages calls))))"
proof -
  let ?ics = "enumerate 0 calls"
  let ?ls = "trace_lines js env ?ics"
  have written: "tf_written (write_calls js env True calls empty_trace) = unlines ?ls"
    using written_lines [of js env "[]" ?ics] by (simp add: write_calls_def empty_trace_def)
  have ok: "line_ok l \<and> CHR ''{'' \<in> set l" if "l \<in> set ?ls" for l
    using that assms by (auto simp: trace_lines_def readable_def starts_with_iff)
  then have lines: "str_lines (unlines ?ls) = ?ls" by (simp add: str_lines_unlines)
  note read = read_usage_lines [OF assms, of 0 "[]"]
  show ?thesis
  proof (cases calls)
    case Nil
    with written have "tf_written (write_calls js env True calls empty_trace) = []" by (simp add: trace_lines_def)
    then show ?thesis by (simp add: Nil aggregate_def usages_def List.map_filter_simps)
  next
    case (Cons c cs)
    then obtain l where "l \<in> set ?ls" by (cases ?ls) (auto simp: trace_lines_def)
    with ok have "CHR ''{'' \<in> set (unlines ?ls)" by (auto simp: unlines_def)
    from trim_keeps_brace [OF this] show ?thesis
      by (simp add: aggregate_def written lines read aggregate_groups)
  qed
qed

definition demo_trace_ctx :: phase_span_ctx where
  "demo_trace_ctx = \<lparr>ps_trace_id = ''run'', ps_span_id = ''s'', ps_phase = ''design'', ps_strategy = ''single'',
     ps_aggregator = ''none'', ps_verify_hook = None\<rparr>"

definition demo_backend_call :: "64 word \<Rightarrow> 64 word \<Rightarrow> trace_call" where
  "demo_backend_call i n = BackendCall demo_trace_ctx
     \<lparr>as_span_id = ''a'', as_attempt = 0, as_backend = ''mock'', as_model = Some ''m''\<rparr>
     \<lparr>bs_duration_ms = 5, bs_input_tokens = Some i, bs_output_tokens = Some n, bs_finish_reasons = [], bs_error = None\<rparr>"

definition demo_trace_env :: trace_env where
  "demo_trace_env = \<lparr>tn_now = (\<lambda>_. ''t''), tn_fresh = (\<lambda>_. ''f'')\<rparr>"

definition demo_trace_js :: "trace_call \<Rightarrow> trace_call \<Rightarrow> json_lib" where
  "demo_trace_js a b = (let u = JObj (writer_span ''t'' ''f'' a); v = JObj (writer_span ''t'' ''f'' b) in
     \<lparr>js_parse = (\<lambda>s. if s = ''{1}'' then Inr u else if s = ''{2}'' then Inr v else Inl ''unread''),
      js_show = (\<lambda>w. if w = u then ''{1}'' else ''{2}'')\<rparr>)"

theorem traced_usage_witness:
  "aggregate (demo_trace_js (demo_backend_call 3 1) (demo_backend_call 4 2))
     (Inr (tf_written (write_calls (demo_trace_js (demo_backend_call 3 1) (demo_backend_call 4 2)) demo_trace_env True
       [demo_backend_call 3 1, demo_backend_call 4 2] empty_trace))) =
     Inr [\<lparr>bu_name = ''mock'', bu_model = ''m'', bu_input = 7, bu_output = 3, bu_cost = None\<rparr>]"
proof -
  let ?calls = "[demo_backend_call 3 1, demo_backend_call 4 2]"
  let ?js = "demo_trace_js (demo_backend_call 3 1) (demo_backend_call 4 2)"
  have "\<forall>(i, call) \<in> set (enumerate 0 ?calls). readable ?js (writer_span (tn_now demo_trace_env i) (tn_fresh demo_trace_env i) call)"
    by (auto simp: readable_def demo_trace_js_def demo_trace_env_def Let_def line_ok_def ends_with_def strip_suffix_def)
  from traced_usage [OF this] show ?thesis
    by (simp add: usages_def List.map_filter_simps demo_backend_call_def usage_of_def saturated_def)
qed

end
