(* ===== verification/Summary.thy ===== *)
theory Summary
  imports TraceReader RunState
begin

text \<open>
  \<open>src/summary/mod.rs\<close>: the summary of a run, from its trace, the prices and the markers of its phases,
  and its registration in the manifest. The clock, the printers of times and of JSON and the table
  of prices that is compiled in are arguments. A time is a number of nanoseconds; the attempts of
  a completed phase and the totals are added in machine arithmetic that wraps, as in a release build.
\<close>

subsection \<open>Types\<close>

datatype summary_phase_status = SpCompleted | SpFailed | SpSkipped

datatype run_status = RunSuccess | RunFailed | RunPartial | RunAborted

record 'f totals =
  to_input :: "64 word"
  to_output :: "64 word"
  to_cost :: "'f option"

record phase_summary =
  pm_phase :: string
  pm_status :: summary_phase_status
  pm_attempts :: "32 word"
  pm_duration :: "64 word"
  pm_strategy :: "string option"

record 'f summary =
  sm_run_id :: string
  sm_version :: nat
  sm_started :: string
  sm_finished :: string
  sm_duration :: "64 word"
  sm_status :: run_status
  sm_totals :: "'f totals"
  sm_backends :: "'f backend_usage list"
  sm_phases :: "phase_summary list"
  sm_budget :: "'f option"
  sm_warning :: "bool option"

datatype summary_error = SmIo io_error | SmTrace trace_reader_error | SmManifest manifest_error

record 'f summary_env =
  sn_fl :: "'f f64_ops"
  sn_num :: "'f \<Rightarrow> json"
  sn_toml :: "string \<Rightarrow> 'f price_table option"
  sn_builtin :: "'f price_table"
  sn_now :: int
  sn_rfc3339 :: "int \<Rightarrow> string"
  sn_pretty :: "json \<Rightarrow> string"

subsection \<open>Reading markers\<close>

fun all_strs :: "json list \<Rightarrow> string list option" where
  "all_strs [] = Some []"
| "all_strs (v # vs) = (case (as_str v, all_strs vs) of (Some s, Some ss) \<Rightarrow> Some (s # ss) | _ \<Rightarrow> None)"

fun as_hitl :: "json \<Rightarrow> hitl_context option" where
  "as_hitl (JObj m) =
     (case rbind (fields_ok [''severity'', ''timeout_at'', ''timeout_action'', ''timeout_outcome''] m) (\<lambda>_.
        rbind (required ''severity'' as_str m) (\<lambda>severity.
        rbind (optional ''timeout_at'' as_str m) (\<lambda>at.
        rbind (required ''timeout_action'' as_str m) (\<lambda>action.
        rbind (required ''timeout_outcome'' as_str m) (\<lambda>outcome.
          Inr \<lparr>hm_severity = severity, hm_timeout_at = at, hm_timeout_action = action, hm_timeout_outcome = outcome\<rparr>))))) of
      Inr h \<Rightarrow> Some h | Inl _ \<Rightarrow> None)"
| "as_hitl _ = None"

fun completed_of :: "libs \<Rightarrow> json \<Rightarrow> (serde_error, completed_marker) result" where
  "completed_of L (JObj m) =
     rbind (fields_ok [''phase'', ''attempt'', ''completed_at'', ''manifest_entry_sha256'', ''artefact_paths'', ''hitl''] m) (\<lambda>_.
     rbind (required ''phase'' as_str m) (\<lambda>phase.
     rbind (required ''attempt'' as_u32 m) (\<lambda>attempt.
     rbind (required ''completed_at'' (as_time L) m) (\<lambda>t.
     rbind (required ''manifest_entry_sha256'' as_str m) (\<lambda>sha.
     rbind (required ''artefact_paths'' (\<lambda>v. Option.bind (as_arr v) all_strs) m) (\<lambda>paths.
     rbind (optional ''hitl'' as_hitl m) (\<lambda>hitl.
       Inr \<lparr>ck_phase = phase, ck_attempt = attempt, ck_completed_at = t, ck_sha256 = sha, ck_artefacts = paths, ck_hitl = hitl\<rparr>)))))))"
| "completed_of L _ = Inl (InvalidValue ''marker'')"

fun failed_of :: "libs \<Rightarrow> json \<Rightarrow> (serde_error, failed_marker) result" where
  "failed_of L (JObj m) =
     rbind (fields_ok [''phase'', ''attempts_made'', ''failed_at'', ''error_class'', ''last_attempt_path'', ''hitl''] m) (\<lambda>_.
     rbind (required ''phase'' as_str m) (\<lambda>phase.
     rbind (required ''attempts_made'' as_u32 m) (\<lambda>attempts.
     rbind (required ''failed_at'' (as_time L) m) (\<lambda>t.
     rbind (required ''error_class'' as_str m) (\<lambda>cls.
     rbind (required ''last_attempt_path'' as_str m) (\<lambda>path.
     rbind (optional ''hitl'' as_hitl m) (\<lambda>hitl.
       Inr \<lparr>fk_phase = phase, fk_attempts_made = attempts, fk_failed_at = t, fk_error_class = cls,
            fk_last_attempt_path = path, fk_hitl = hitl\<rparr>)))))))"
| "failed_of L _ = Inl (InvalidValue ''marker'')"

definition marker_at :: "(libs \<Rightarrow> json \<Rightarrow> (serde_error, 'm) result) \<Rightarrow> libs \<Rightarrow> reader \<Rightarrow> dir \<Rightarrow> string \<Rightarrow> 'm option" where
  "marker_at conv L rd d n =
     (case rd_read rd (d @ [Normal n]) of
        Inl _ \<Rightarrow> None
      | Inr content \<Rightarrow> (case js_parse (lb_json L) content of
            Inl _ \<Rightarrow> None
          | Inr v \<Rightarrow> (case conv L v of Inr mk \<Rightarrow> Some mk | Inl _ \<Rightarrow> None)))"

abbreviation "started_at \<equiv> marker_at read_started"
abbreviation "completed_at \<equiv> marker_at completed_of"
abbreviation "failed_at \<equiv> marker_at failed_of"

subsection \<open>The phases\<close>

definition rsplit_once :: "string \<Rightarrow> string \<Rightarrow> (string \<times> string) option" where
  "rsplit_once p s =
     (case find_sub (rev p) (rev s) of
        None \<Rightarrow> None
      | Some i \<Rightarrow> Some (take (length s - i - length p) s, drop (length s - i) s))"

definition trim_end_matches :: "string \<Rightarrow> string \<Rightarrow> string" where
  "trim_end_matches p s = rev (trim_with [rev p] (rev s))"

definition collect_started :: "libs \<Rightarrow> reader \<Rightarrow> dir \<Rightarrow> string list \<Rightarrow> (string \<times> int list) list" where
  "collect_started L rd d names = foldl (\<lambda>m n.
     case rsplit_once ''.started.'' n of
       None \<Rightarrow> m
     | Some (phase, attempt) \<Rightarrow>
         if parse_u32 attempt = None then m
         else case started_at L rd d n of
             None \<Rightarrow> m
           | Some mk \<Rightarrow> hm_upd phase (\<lambda>ts. unwrap_or [] ts @ [sk_started_at mk]) m) [] names"

definition millis :: "int \<Rightarrow> int \<Rightarrow> 64 word" where
  "millis start end_t = of_int (max 0 (end_t - start) div 1000000)"

definition terminal_marker :: "libs \<Rightarrow> reader \<Rightarrow> dir \<Rightarrow> string \<Rightarrow>
    (string \<times> summary_phase_status \<times> 32 word \<times> int option) option" where
  "terminal_marker L rd d n =
     (if contains n ''.started.'' then None
      else if ends_with n ''.completed'' then
        (let phase = trim_end_matches ''.completed'' n in
         case completed_at L rd d n of
           Some mk \<Rightarrow> Some (phase, SpCompleted, ck_attempt mk + 1, Some (ck_completed_at mk))
         | None \<Rightarrow> Some (phase, SpCompleted, 1, None))
      else if ends_with n ''.failed'' then
        (let phase = trim_end_matches ''.failed'' n in
         case failed_at L rd d n of
           Some mk \<Rightarrow> Some (phase, SpFailed, fk_attempts_made mk, Some (fk_failed_at mk))
         | None \<Rightarrow> Some (phase, SpFailed, 1, None))
      else None)"

definition phase_entry :: "(string \<times> int list) list \<Rightarrow> string \<times> summary_phase_status \<times> 32 word \<times> int option \<Rightarrow> phase_summary" where
  "phase_entry started t =
     (case t of (phase, status, attempts, end_t) \<Rightarrow>
        \<lparr>pm_phase = phase, pm_status = status, pm_attempts = attempts,
         pm_duration = (case end_t of
             None \<Rightarrow> 0
           | Some e \<Rightarrow> (case map_of started phase of
                 None \<Rightarrow> 0
               | Some ts \<Rightarrow> (case ts of [] \<Rightarrow> 0 | _ \<Rightarrow> millis (Min (set ts)) e))),
         pm_strategy = None\<rparr>)"

definition dir_names :: "reader \<Rightarrow> dir \<Rightarrow> string list" where
  "dir_names rd d = (case rd_list rd d of Inl _ \<Rightarrow> [] | Inr names \<Rightarrow> names)"

definition collect_phases :: "libs \<Rightarrow> reader \<Rightarrow> dir \<Rightarrow> phase_summary list" where
  "collect_phases L rd run_dir =
     (let d = markers_dir run_dir; names = dir_names rd d in
      if \<not> rd_is_dir rd d then []
      else sort_key pm_phase
        (map (phase_entry (collect_started L rd d names)) (List.map_filter (terminal_marker L rd d) names)))"

subsection \<open>Times\<close>

definition earlier :: "int option \<Rightarrow> int option \<Rightarrow> int option" where
  "earlier acc t = (case (acc, t) of (Some a, Some b) \<Rightarrow> Some (if b < a then b else a) | (None, _) \<Rightarrow> t | (_, None) \<Rightarrow> acc)"

definition later :: "int option \<Rightarrow> int option \<Rightarrow> int option" where
  "later acc t = (case (acc, t) of (Some a, Some b) \<Rightarrow> Some (if a < b then b else a) | (None, _) \<Rightarrow> t | (_, None) \<Rightarrow> acc)"

definition run_start :: "libs \<Rightarrow> reader \<Rightarrow> dir \<Rightarrow> int option" where
  "run_start L rd run_dir =
     (let d = markers_dir run_dir in
      if \<not> rd_is_dir rd d then None
      else foldl (\<lambda>acc n. if contains n ''.started.'' then earlier acc (map_option sk_started_at (started_at L rd d n)) else acc)
        None (dir_names rd d))"

text \<open>A started marker counts only while no other time is known.\<close>

definition finish_step :: "libs \<Rightarrow> reader \<Rightarrow> dir \<Rightarrow> int option \<Rightarrow> string \<Rightarrow> int option" where
  "finish_step L rd d acc n =
     (if ends_with n ''.completed'' then later acc (map_option ck_completed_at (completed_at L rd d n))
      else if ends_with n ''.failed'' then later acc (map_option fk_failed_at (failed_at L rd d n))
      else if contains n ''.started.'' \<and> acc = None then map_option sk_started_at (started_at L rd d n)
      else acc)"

definition run_finish :: "libs \<Rightarrow> reader \<Rightarrow> dir \<Rightarrow> int option" where
  "run_finish L rd run_dir =
     (let d = markers_dir run_dir in
      if \<not> rd_is_dir rd d then None else foldl (finish_step L rd d) None (dir_names rd d))"

definition span_step :: "libs \<Rightarrow> reader \<Rightarrow> dir \<Rightarrow> int option \<times> int option \<Rightarrow> string \<Rightarrow> int option \<times> int option" where
  "span_step L rd d acc n =
     (case acc of (start, end_t) \<Rightarrow>
        if contains n ''.started.'' then (earlier start (map_option sk_started_at (started_at L rd d n)), end_t)
        else if ends_with n ''.completed'' then (start, later end_t (map_option ck_completed_at (completed_at L rd d n)))
        else if ends_with n ''.failed'' then (start, later end_t (map_option fk_failed_at (failed_at L rd d n)))
        else (start, end_t))"

definition run_duration :: "libs \<Rightarrow> reader \<Rightarrow> dir \<Rightarrow> 64 word" where
  "run_duration L rd run_dir =
     (let d = markers_dir run_dir in
      if \<not> rd_is_dir rd d then 0
      else case foldl (span_step L rd d) (None, None) (dir_names rd d) of
          (Some start, Some end_t) \<Rightarrow> millis start end_t
        | _ \<Rightarrow> 0)"

definition compute_run_status :: "phase_summary list \<Rightarrow> run_status" where
  "compute_run_status phases =
     (if phases = [] then RunFailed
      else if list_all (\<lambda>p. pm_status p = SpCompleted) phases then RunSuccess
      else if list_ex (\<lambda>p. pm_status p = SpFailed) phases then RunPartial
      else RunAborted)"

subsection \<open>The summary\<close>

definition cost_backends :: "'f f64_ops \<Rightarrow> 'f price_table \<Rightarrow> 'f backend_usage list \<Rightarrow> 'f backend_usage list \<times> 'f \<times> bool" where
  "cost_backends fl prices bs = foldl (\<lambda>(priced, tot, known) b.
     case compute_cost fl prices (bu_name b) (bu_model b) (bu_input b) (bu_output b) of
       Some cost \<Rightarrow> (priced @ [b\<lparr>bu_cost := Some cost\<rparr>], fl_add fl tot cost, True)
     | None \<Rightarrow> (priced @ [b], tot, known)) ([], fl_zero fl, False) bs"

text \<open>The first table of prices that exists near the run, or the one that is compiled in.\<close>

definition find_prices :: "'f summary_env \<Rightarrow> reader \<Rightarrow> dir \<Rightarrow> 'f price_table" where
  "find_prices E rd run_dir =
     (case List.find (rd_exists rd) [pjoin run_dir ''docs/prices.toml'', pjoin run_dir ''../../docs/prices.toml''] of
        Some p \<Rightarrow> load_prices (sn_toml E) (rd_read rd p)
      | None \<Rightarrow> sn_builtin E)"

definition budget_warning :: "'f f64_ops \<Rightarrow> 'f option \<Rightarrow> 'f option \<Rightarrow> bool option" where
  "budget_warning fl budget cost =
     (case (budget, cost) of (Some b, Some c) \<Rightarrow> if fl_gt fl c b then Some True else None | _ \<Rightarrow> None)"

definition build_summary :: "libs \<Rightarrow> 'f summary_env \<Rightarrow> reader \<Rightarrow> dir \<Rightarrow> dir \<Rightarrow> 'f option \<Rightarrow> string \<Rightarrow>
    (trace_reader_error, 'f summary) result" where
  "build_summary L E rd run_dir trace_path budget run_id =
     rbind (aggregate (lb_json L) (rd_read rd trace_path)) (\<lambda>usage.
       case cost_backends (sn_fl E) (find_prices E rd run_dir) usage of (backends, tot, known) \<Rightarrow>
         let phases = collect_phases L rd run_dir;
             show_time = (\<lambda>t. sn_rfc3339 E (unwrap_or (sn_now E) t));
             cost = (if known then Some tot else None)
         in Inr \<lparr>sm_run_id = run_id, sm_version = 1, sm_started = show_time (run_start L rd run_dir),
              sm_finished = show_time (run_finish L rd run_dir), sm_duration = run_duration L rd run_dir,
              sm_status = compute_run_status phases,
              sm_totals = \<lparr>to_input = sum_list (map bu_input backends), to_output = sum_list (map bu_output backends), to_cost = cost\<rparr>,
              sm_backends = backends, sm_phases = phases, sm_budget = budget,
              sm_warning = budget_warning (sn_fl E) budget cost\<rparr>)"

fun phase_status_str :: "summary_phase_status \<Rightarrow> string" where
  "phase_status_str SpCompleted = ''completed''"
| "phase_status_str SpFailed = ''failed''"
| "phase_status_str SpSkipped = ''skipped''"

fun run_status_str :: "run_status \<Rightarrow> string" where
  "run_status_str RunSuccess = ''success''"
| "run_status_str RunFailed = ''failed''"
| "run_status_str RunPartial = ''partial''"
| "run_status_str RunAborted = ''aborted''"

definition some_field :: "string \<Rightarrow> json option \<Rightarrow> (string \<times> json) list" where
  "some_field k v = (case v of None \<Rightarrow> [] | Some j \<Rightarrow> [(k, j)])"

definition usage_json :: "('f \<Rightarrow> json) \<Rightarrow> 'f backend_usage \<Rightarrow> json" where
  "usage_json num b = JObj ([(''name'', JStr (bu_name b)), (''model'', JStr (bu_model b)), (''input_tokens'', u64_json (bu_input b)),
     (''output_tokens'', u64_json (bu_output b))] @ some_field ''cost_usd'' (map_option num (bu_cost b)))"

definition totals_json :: "('f \<Rightarrow> json) \<Rightarrow> 'f totals \<Rightarrow> json" where
  "totals_json num t = JObj ([(''input_tokens'', u64_json (to_input t)), (''output_tokens'', u64_json (to_output t))] @
     some_field ''cost_usd'' (map_option num (to_cost t)))"

definition phase_json :: "phase_summary \<Rightarrow> json" where
  "phase_json p = JObj ([(''phase'', JStr (pm_phase p)), (''status'', JStr (phase_status_str (pm_status p))),
     (''attempts'', word_json (pm_attempts p)), (''duration_ms'', u64_json (pm_duration p))] @
     some_field ''strategy'' (map_option JStr (pm_strategy p)))"

definition summary_json :: "('f \<Rightarrow> json) \<Rightarrow> 'f summary \<Rightarrow> json" where
  "summary_json num s = JObj ([(''loker.run_id'', JStr (sm_run_id s)), (''schema_version'', JInt (int (sm_version s))),
     (''started_at'', JStr (sm_started s)), (''finished_at'', JStr (sm_finished s)), (''duration_ms'', u64_json (sm_duration s)),
     (''status'', JStr (run_status_str (sm_status s))), (''totals'', totals_json num (sm_totals s)),
     (''backends'', JArr (map (usage_json num) (sm_backends s))), (''phases'', JArr (map phase_json (sm_phases s)))] @
     some_field ''cost_budget_usd'' (map_option num (sm_budget s)) @ some_field ''budget_warning'' (map_option JBool (sm_warning s)))"

definition summary_path :: "dir \<Rightarrow> dir" where
  "summary_path run_dir = pjoin run_dir ''summary.json''"

definition finalize :: "'f summary_env \<Rightarrow> 'w disk_ops \<Rightarrow> 'f summary \<Rightarrow> dir \<Rightarrow> 'w \<Rightarrow> (summary_error, unit) result \<times> 'w" where
  "finalize E ops s run_dir w =
     (case atomic_write ops (summary_path run_dir) (sn_pretty E (summary_json (sn_num E) s)) w of
        (r, w') \<Rightarrow> (map_err SmIo r, w'))"

definition write_summary :: "libs \<Rightarrow> 'f summary_env \<Rightarrow> 'w disk_ops \<Rightarrow> ('w \<Rightarrow> reader) \<Rightarrow> dir \<Rightarrow> dir \<Rightarrow> 'f option \<Rightarrow>
    manifest \<Rightarrow> 'w \<Rightarrow> ((summary_error, 'f summary) result \<times> manifest) \<times> 'w" where
  "write_summary L E ops rd run_dir trace_path budget m w =
     (case build_summary L E (rd w) run_dir trace_path budget (mf_run_id m) of
        Inl e \<Rightarrow> ((Inl (SmTrace e), m), w)
      | Inr s \<Rightarrow> (case finalize E ops s run_dir w of
            (Inl e, w1) \<Rightarrow> ((Inl e, m), w1)
          | (Inr _, w1) \<Rightarrow>
              let entry = from_payload L (sn_now E) ''summary.json'' SummaryJson 1 PrSingle None None
                    (sn_pretty E (summary_json (sn_num E) s))
              in case replace_by_name L ops rd entry (manifest_path run_dir) m w1 of
                  ((Inl e, m'), w2) \<Rightarrow> ((Inl (SmManifest e), m'), w2)
                | ((Inr _, m'), w2) \<Rightarrow> ((Inr s, m'), w2)))"

subsection \<open>Phases and status\<close>

lemma terminal_status: "terminal_marker L rd d n = Some (p, st, a, e) \<Longrightarrow> st = SpCompleted \<or> st = SpFailed"
  by (auto simp: terminal_marker_def Let_def split: if_splits option.splits)

lemma in_map_filter: "y \<in> set (List.map_filter f xs) \<longleftrightarrow> (\<exists>x. x \<in> set xs \<and> f x = Some y)"
  by (force simp: List.map_filter_def)

lemma collect_phases_status: "p \<in> set (collect_phases L rd run_dir) \<Longrightarrow> pm_status p = SpCompleted \<or> pm_status p = SpFailed"
  by (auto simp: collect_phases_def Let_def phase_entry_def in_map_filter dest: terminal_status split: if_splits)

text \<open>
  The status of a run follows from the markers of its phases: failed when no phase has a terminal
  marker, partial when one has failed, even when all have, and a success otherwise, also when a
  phase has only been started. A run is never reported as aborted.
\<close>

theorem summary_status:
  "compute_run_status (collect_phases L rd run_dir) =
     (if collect_phases L rd run_dir = [] then RunFailed
      else if \<exists>p. p \<in> set (collect_phases L rd run_dir) \<and> pm_status p = SpFailed then RunPartial else RunSuccess)"
  using collect_phases_status [of _ L rd run_dir]
  by (fastforce simp: compute_run_status_def list_all_iff list_ex_iff)

subsection \<open>Start, finish and duration\<close>

text \<open>The times that the markers of a directory give for starts and for ends.\<close>

definition start_times :: "libs \<Rightarrow> reader \<Rightarrow> dir \<Rightarrow> string list \<Rightarrow> int list" where
  "start_times L rd d names = List.map_filter (\<lambda>n.
     if contains n ''.started.'' then map_option sk_started_at (started_at L rd d n) else None) names"

definition end_times :: "libs \<Rightarrow> reader \<Rightarrow> dir \<Rightarrow> string list \<Rightarrow> int list" where
  "end_times L rd d names = List.map_filter (\<lambda>n.
     if contains n ''.started.'' then None
     else if ends_with n ''.completed'' then map_option ck_completed_at (completed_at L rd d n)
     else if ends_with n ''.failed'' then map_option fk_failed_at (failed_at L rd d n)
     else None) names"

definition first_of :: "int option \<Rightarrow> int list \<Rightarrow> int option" where
  "first_of acc ts = foldl (\<lambda>a t. earlier a (Some t)) acc ts"

definition last_of :: "int option \<Rightarrow> int list \<Rightarrow> int option" where
  "last_of acc ts = foldl (\<lambda>a t. later a (Some t)) acc ts"

lemma first_of_simps [simp]: "first_of acc [] = acc" "first_of acc (t # ts) = first_of (earlier acc (Some t)) ts"
  by (simp_all add: first_of_def)

lemma last_of_simps [simp]: "last_of acc [] = acc" "last_of acc (t # ts) = last_of (later acc (Some t)) ts"
  by (simp_all add: last_of_def)

lemma earlier_simps [simp]: "earlier acc None = acc" "earlier None t = t" "earlier (Some a) (Some b) = Some (min b a)"
  by (auto simp: earlier_def split: option.splits)

lemma later_simps [simp]: "later acc None = acc" "later None t = t" "later (Some a) (Some b) = Some (max b a)"
  by (auto simp: later_def split: option.splits)

lemma first_of_Min: "first_of None ts = (if ts = [] then None else Some (Min (set ts)))"
proof -
  have "first_of (Some x) ts = Some (fold min ts x)" for x ts by (induction ts arbitrary: x) auto
  then show ?thesis by (cases ts) (simp, simp only: first_of_simps earlier_simps Min.set_eq_fold list.distinct if_True if_False)
qed

lemma last_of_Max: "last_of None ts = (if ts = [] then None else Some (Max (set ts)))"
proof -
  have "last_of (Some x) ts = Some (fold max ts x)" for x ts by (induction ts arbitrary: x) auto
  then show ?thesis by (cases ts) (simp, simp only: last_of_simps later_simps Max.set_eq_fold list.distinct if_True if_False)
qed

lemma span_fold:
  "foldl (span_step L rd d) (a, b) names = (first_of a (start_times L rd d names), last_of b (end_times L rd d names))"
  by (induction names arbitrary: a b)
    (auto simp: span_step_def start_times_def end_times_def List.map_filter_simps split: option.splits)

lemma start_fold:
  "foldl (\<lambda>acc n. if contains n ''.started.'' then earlier acc (map_option sk_started_at (started_at L rd d n)) else acc) a names =
     first_of a (start_times L rd d names)"
  by (induction names arbitrary: a) (auto simp: start_times_def List.map_filter_simps split: option.splits)

text \<open>
  The duration of a run is the time from its earliest start to its latest end, whatever the order in
  which the directory is read, and 0 without either or when the clock went back; and its start is
  its earliest start.
\<close>

theorem run_times:
  "run_duration L rd run_dir =
     (let d = markers_dir run_dir; starts = set (start_times L rd d (dir_names rd d)); ends = set (end_times L rd d (dir_names rd d)) in
      if rd_is_dir rd d \<and> starts \<noteq> {} \<and> ends \<noteq> {} then millis (Min starts) (Max ends) else 0) \<and>
   run_start L rd run_dir =
     (let d = markers_dir run_dir; starts = set (start_times L rd d (dir_names rd d)) in
      if rd_is_dir rd d \<and> starts \<noteq> {} then Some (Min starts) else None)"
  by (auto simp: run_duration_def run_start_def Let_def span_fold start_fold first_of_Min last_of_Max)

text \<open>The end that is reported depends on the order: a start that is read first is not forgotten.\<close>

definition demo_sum_libs :: libs where
  "demo_sum_libs = \<lparr>lb_json = \<lparr>js_parse = (\<lambda>s.
       if s = ''s'' then Inr (JObj [(''phase'', JStr ''a''), (''attempt'', JInt 0), (''started_at'', JStr ''11111''), (''writer_pid'', JInt 1),
         (''writer_host'', JStr ''h''), (''heartbeat_ttl_seconds'', JInt 300)])
       else if s = ''c'' then Inr (JObj [(''phase'', JStr ''a''), (''attempt'', JInt 0), (''completed_at'', JStr ''111''),
         (''manifest_entry_sha256'', JStr ''0''), (''artefact_paths'', JArr [])])
       else Inl ''bad''), js_show = (\<lambda>_. [])\<rparr>,
     lb_time_show = (\<lambda>_. []), lb_time_parse = (\<lambda>s. Some (int (length s))), lb_digest = id\<rparr>"

definition demo_sum_reader :: "string list \<Rightarrow> reader" where
  "demo_sum_reader names = \<lparr>rd_read = (\<lambda>k. case k of
       [_, _, Normal n] \<Rightarrow> if n = ''a.started.0'' then Inr ''s'' else if n = ''a.completed'' then Inr ''c'' else Inr [] | _ \<Rightarrow> Inl NotFound),
     rd_exists = (\<lambda>_. True), rd_is_file = (\<lambda>_. True), rd_is_dir = (\<lambda>_. True), rd_list = (\<lambda>_. Inr names)\<rparr>"

lemma finish_by_order:
  "run_finish demo_sum_libs (demo_sum_reader [''a.started.0'', ''a.completed'']) [Normal ''r''] = Some 5 \<and>
   run_finish demo_sum_libs (demo_sum_reader [''a.completed'', ''a.started.0'']) [Normal ''r''] = Some 3"
  by code_simp

lemma both_markers_twice:
  "map (\<lambda>p. (pm_phase p, pm_status p)) (collect_phases demo_sum_libs (demo_sum_reader [''a.failed'', ''a.completed'']) [Normal ''r'']) =
     [(''a'', SpFailed), (''a'', SpCompleted)]"
  by code_simp

text \<open>Sums of saturated counts wrap.\<close>

lemma totals_wrap: "sum_list (map bu_input [usage_of [((''a'', ''m''), (18446744073709551615, 0))] (''a'', ''m''), usage_of [((''b'', ''m''), (1, 0))] (''b'', ''m'')]) = 0"
  by (simp add: usage_of_def saturated_def)

subsection \<open>Registration\<close>

lemma pjoin_new: "run_dir \<noteq> [] \<Longrightarrow> summary_path run_dir = run_dir @ [Normal ''summary.json''] \<and>
    manifest_path run_dir = run_dir @ [Normal ''manifest.json'']"
  by (simp add: summary_path_def manifest_path_def pjoin_plain)

text \<open>
  C29: When writing a summary succeeds, the file holds its text, and the manifest, in memory and as
  it is on disk, has an entry for it with the digest of that text; what was recorded for other names
  is unchanged.
\<close>

theorem summary_registered:
  assumes ok: "write_summary L E disk_ops rd run_dir trace_path budget m w = ((Inr s, m'), w')" and dir: "run_dir \<noteq> []"
  shows "file_of w' (summary_path run_dir) = Some (sn_pretty E (summary_json (sn_num E) s)) \<and>
    (\<exists>txt. to_json L m' = Inr txt \<and> file_of w' (manifest_path run_dir) = Some txt) \<and>
    sha256_for m' ''summary.json'' = Some (sha256_hex L (sn_pretty E (summary_json (sn_num E) s))) \<and>
    (\<forall>n. n \<noteq> ''summary.json'' \<longrightarrow> sha256_for m' n = sha256_for m n)"
proof -
  let ?txt = "sn_pretty E (summary_json (sn_num E) s)"
  let ?e = "from_payload L (sn_now E) ''summary.json'' SummaryJson 1 PrSingle None None ?txt"
  obtain w1 where fin: "atomic_write disk_ops (summary_path run_dir) ?txt w = (Inr (), w1)"
    and rep: "replace_by_name L disk_ops rd ?e (manifest_path run_dir) m w1 = ((Inr (), m'), w')"
    using ok by (auto simp: write_summary_def finalize_def Let_def map_err_def split: sum.splits prod.splits)
  obtain out where json: "to_json L m' = Inr out" and m': "m' = m\<lparr>mf_entries := put_entry ?e (mf_entries m)\<rparr>"
    and aw: "atomic_write disk_ops (manifest_path run_dir) out w1 = (Inr (), w')"
    using rep by (auto simp: replace_by_name_def Let_def split: sum.splits prod.splits)
  have paths: "\<not> temp_name (summary_path run_dir)" "\<not> temp_name (manifest_path run_dir)" "summary_path run_dir \<noteq> manifest_path run_dir"
    using pjoin_new [OF dir] by (auto simp: temp_name_def)
  note first = conc.atomic_write_old_or_new [OF fin paths(1)]
  note second = conc.atomic_write_old_or_new [OF aw paths(2)]
  have name: "me_name ?e = ''summary.json''" "me_sha256 ?e = sha256_hex L ?txt" by (simp_all add: from_payload_def)
  have look: "sha256_for m' n = (if n = ''summary.json'' then Some (sha256_hex L ?txt) else sha256_for m n)" for n
    using find_put_entry [of n ?e "mf_entries m"] name by (simp add: sha256_for_def m')
  from first second paths json look show ?thesis by auto
qed

definition demo_f64 :: "int f64_ops" where
  "demo_f64 = \<lparr>fl_of_u64 = uint, fl_zero = 0, fl_million = 1000000, fl_add = (+), fl_mul = (*), fl_div = (div), fl_gt = (>)\<rparr>"

definition demo_summary_env :: "int summary_env" where
  "demo_summary_env = \<lparr>sn_fl = demo_f64, sn_num = JInt, sn_toml = (\<lambda>_. None), sn_builtin = Map.empty, sn_now = 0,
     sn_rfc3339 = (\<lambda>_. ''now''), sn_pretty = (\<lambda>_. ''summary'')\<rparr>"

definition demo_run_disk :: disk where
  "demo_run_disk = demo_disk\<lparr>dk_nodes := ([Normal ''run'', Normal ''trace.jsonl''], FileNode []) # dk_nodes demo_disk\<rparr>"

theorem summary_registered_witness:
  "\<exists>s m' w'. write_summary demo_store_libs demo_summary_env disk_ops reader_of [Normal ''run''] [Normal ''run'', Normal ''trace.jsonl'']
       (Some 5) (manifest_new ''r'' None) demo_run_disk = ((Inr s, m'), w') \<and>
     file_of w' [Normal ''run'', Normal ''summary.json''] = Some ''summary'' \<and>
     sha256_for m' ''summary.json'' = Some (sha256_hex demo_store_libs ''summary'')"
proof -
  let ?d = "[Normal ''run'']" and ?t = "[Normal ''run'', Normal ''trace.jsonl'']" and ?m = "manifest_new ''r'' None"
  have paths: "summary_path ?d = [Normal ''run'', Normal ''summary.json'']" "manifest_path ?d = [Normal ''run'', Normal ''manifest.json'']"
    using pjoin_new [of ?d] by simp_all
  have "rd_read (reader_of demo_run_disk) ?t = Inr []" by (simp add: reader_of_def demo_run_disk_def node_at_def)
  then obtain s where s: "build_summary demo_store_libs demo_summary_env (reader_of demo_run_disk) ?d ?t (Some 5) (mf_run_id ?m) = Inr s"
    by (simp add: build_summary_def aggregate_def cost_backends_def Let_def)
  have "\<exists>m' w'. write_summary demo_store_libs demo_summary_env disk_ops reader_of ?d ?t (Some 5) ?m demo_run_disk = ((Inr s, m'), w')"
    unfolding write_summary_def s
    by (simp add: finalize_def paths replace_by_name_def manifest_new_def atomic_write_def disk_temp_def with_fault.simps disk_write_def
        disk_sync_def disk_rename_def demo_run_disk_def demo_disk_def node_at_def parent_dir_def set_node_def del_node_def Let_def
        to_json_def manifest_json_def entry_json_def from_payload_def)
  then obtain m' w' where ok: "write_summary demo_store_libs demo_summary_env disk_ops reader_of ?d ?t (Some 5) ?m demo_run_disk = ((Inr s, m'), w')"
    by blast
  from summary_registered [OF ok] ok show ?thesis by (auto simp: paths demo_summary_env_def)
qed

end
