(* ===== verification/Gates.thy ===== *)
theory Gates
  imports HumanVerifier PhaseLock
begin

text \<open>
  The two servers on which a human answers a gate: \<open>src/hitl_server\<close> (one gate, one answer) and the
  daemon of \<open>src/ui\<close> with its guard on requests (\<open>src/ui/security.rs\<close>). A request is a list of headers,
  with names in lower case as \<open>HeaderMap\<close> keeps them, and a comment; a page is represented by its
  message. The HTTP library, the sockets and the HTML of the daemon are not modelled.
\<close>

subsection \<open>Requests and responses\<close>

type_synonym headers = "(string \<times> string) list"

record web_response =
  wr_status :: nat
  wr_headers :: headers
  wr_body :: string

definition header_get :: "headers \<Rightarrow> string \<Rightarrow> string option" where
  "header_get h name = map_of h (map lower_char name)"

text \<open>\<open>HeaderValue::to_str().unwrap_or("")\<close>\<close>

definition header_text :: "string \<Rightarrow> string" where
  "header_text v = (if list_all (\<lambda>c. let n = (of_char c :: nat) in n = 9 \<or> 32 \<le> n \<and> n < 127) v then v else [])"

definition header_insert :: "string \<Rightarrow> string \<Rightarrow> headers \<Rightarrow> headers" where
  "header_insert name v h = (let k = map lower_char name in (k, v) # filter (\<lambda>(k', _). k' \<noteq> k) h)"

definition security_headers :: headers where
  "security_headers =
     [(''Content-Security-Policy'',
       ''default-src '' @ quoted ''self'' @ ''; script-src '' @ quoted ''self'' @ ''; style-src '' @ quoted ''self'' @
       ''; frame-ancestors '' @ quoted ''none'' @ ''; base-uri '' @ quoted ''self''),
      (''X-Frame-Options'', ''DENY''), (''Cross-Origin-Resource-Policy'', ''same-origin''),
      (''Referrer-Policy'', ''no-referrer''), (''X-Content-Type-Options'', ''nosniff'')]"

definition add_security_headers :: "web_response \<Rightarrow> web_response" where
  "add_security_headers r = r\<lparr>wr_headers := foldl (\<lambda>h (k, v). header_insert k v h) (wr_headers r) security_headers\<rparr>"

definition page :: "nat \<Rightarrow> string \<Rightarrow> web_response" where
  "page status msg = add_security_headers \<lparr>wr_status = status, wr_headers = [], wr_body = msg\<rparr>"

subsection \<open>The guards\<close>

record post_guard =
  pg_origins :: "string list"
  pg_content_type :: "string option"

definition loopback_origins :: "16 word \<Rightarrow> string list" where
  "loopback_origins port = [''http://127.0.0.1:'' @ nat_str (unat port), ''http://localhost:'' @ nat_str (unat port)]"

definition for_loopback :: "16 word \<Rightarrow> post_guard" where
  "for_loopback port = \<lparr>pg_origins = loopback_origins port, pg_content_type = Some ''application/x-www-form-urlencoded''\<rparr>"

definition check_post_origin :: "headers \<Rightarrow> post_guard \<Rightarrow> (nat \<times> string, unit) result" where
  "check_post_origin h guard =
     (if \<not> (case header_get h ''Origin'' of Some origin \<Rightarrow> origin \<in> set (pg_origins guard) | None \<Rightarrow> False)
      then Inl (403, ''Invalid or missing Origin header'')
      else case pg_content_type guard of
          None \<Rightarrow> Inr ()
        | Some wanted \<Rightarrow>
            if (case header_get h ''Content-Type'' of
                  Some ct \<Rightarrow> starts_with (header_text ct) (header_text wanted)
                | None \<Rightarrow> False)
            then Inr () else Inl (415, ''Unsupported Content-Type''))"

definition check_sse_origin :: "headers \<Rightarrow> 16 word \<Rightarrow> (nat \<times> string, unit) result" where
  "check_sse_origin h port =
     (if (case header_get h ''Origin'' of Some origin \<Rightarrow> origin \<notin> set (loopback_origins port) | None \<Rightarrow> False)
      then Inl (403, ''Invalid Origin header'')
      else if (case header_get h ''Sec-Fetch-Site'' of Some site \<Rightarrow> header_text site = ''cross-site'' | None \<Rightarrow> False)
      then Inl (403, ''Cross-site request rejected'')
      else Inr ())"

definition validate_run_id :: "string \<Rightarrow> bool" where
  "validate_run_id run_id \<longleftrightarrow> run_id \<noteq> [] \<and> \<not> contains run_id ''..'' \<and> CHR ''/'' \<notin> set run_id \<and>
     CHR 0x5C \<notin> set run_id \<and> CHR 0x00 \<notin> set run_id"

subsection \<open>Writing a decision\<close>

fun lock_error_str :: "lock_env \<Rightarrow> (int \<Rightarrow> string) \<Rightarrow> lock_error \<Rightarrow> string" where
  "lock_error_str env show_time (LockInUse phase pid host since) = ''phase '' @ quoted phase @ '' is already locked by pid '' @
     nat_str (unat pid) @ '' on '' @ host @ '' since '' @ show_time since"
| "lock_error_str env show_time (StaleReclaimFailed phase reason) =
     ''stale lock detected for phase '' @ quoted phase @ '' but could not reclaim: '' @ reason"
| "lock_error_str env show_time (InvalidPhaseName phase) =
     ''invalid phase name '' @ quoted phase @ '': contains path separator or is empty''"
| "lock_error_str env show_time (LockIo e) = ''io error: '' @ io_str e"
| "lock_error_str env show_time (LockJson m) = ''json error: '' @ m"

datatype gate_error = GateLocked | GateAnswered | GateIo string

record 'w gate_env =
  gd_human :: "'w human_env"
  gd_lock :: lock_env
  gd_lock_io :: acquire_io
  gd_show_time :: "int \<Rightarrow> string"
  gd_real_dir :: "'w \<Rightarrow> dir \<Rightarrow> bool"

definition human_response_json :: "human_response \<Rightarrow> json" where
  "human_response_json r = JObj [(''schema_version'', word_json (rp_schema_version r)), (''phase'', JStr (rp_phase r)),
     (''claimed_by'', JStr (rp_claimed_by r)), (''decided_at'', JStr (rp_decided_at r)),
     (''decision'', JStr (decision_str (rp_decision r))), (''global_comment'', str_opt_json (rp_comment r)),
     (''inline_comments_path'', str_opt_json (rp_inline_path r))]"

definition decision_response :: "'w gate_env \<Rightarrow> string \<Rightarrow> string \<Rightarrow> human_decision \<Rightarrow> string option \<Rightarrow> 'w \<Rightarrow> human_response" where
  "decision_response env claimed_by phase decision comment w = \<lparr>rp_schema_version = 1, rp_phase = phase, rp_claimed_by = claimed_by,
     rp_decided_at = he_show_time (gd_human env) (he_now (gd_human env) w), rp_decision = decision, rp_comment = comment,
     rp_inline_path = None\<rparr>"

definition store_decision ::
  "'w gate_env \<Rightarrow> string \<Rightarrow> dir \<Rightarrow> string \<Rightarrow> human_decision \<Rightarrow> string option \<Rightarrow> 'w \<Rightarrow> (gate_error, unit) result \<times> 'w" where
  "store_decision env claimed_by run_dir phase decision comment w =
     (let H = gd_human env; path = pjoin (pjoin run_dir ''responses'') (phase @ ''.json'') in
      if rd_exists (he_reader H w) path then (Inl GateAnswered, w)
      else case do_mkdirs (he_ops H) (parent_dir path) w of
          (Inl e, w1) \<Rightarrow> (Inl (GateIo (io_str e)), w1)
        | (Inr _, w1) \<Rightarrow> (case atomic_write (he_ops H) path
              (js_show (he_json H) (human_response_json (decision_response env claimed_by phase decision comment w))) w1 of
            (r, w2) \<Rightarrow> (map_err (\<lambda>e. GateIo (io_str e)) r, w2)))"

text \<open>
  Under the lock of the phase, whose file and flag are threaded through, and which is dropped at the
  end. The name of the phase, which comes from the request, is checked by the lock.
\<close>

definition write_decision ::
  "'w gate_env \<Rightarrow> string \<Rightarrow> dir \<Rightarrow> string \<Rightarrow> string \<Rightarrow> human_decision \<Rightarrow> string option \<Rightarrow> (string option \<times> bool) \<times> 'w \<Rightarrow>
     (gate_error, unit) result \<times> ((string option \<times> bool) \<times> 'w)" where
  "write_decision env claimed_by run_dir run_id phase decision comment sw =
     (case sw of (s, w) \<Rightarrow>
      case acquire (gd_lock_io env) (gd_lock env) (gd_real_dir env w run_dir) phase run_id None s of
        (Inl e, s1) \<Rightarrow> (Inl (case e of LockInUse _ _ _ _ \<Rightarrow> GateLocked
                              | _ \<Rightarrow> GateIo (lock_error_str (gd_lock env) (gd_show_time env) e)), (s1, w))
      | (Inr _, s1) \<Rightarrow> (case store_decision env claimed_by run_dir phase decision comment w of
            (r, w') \<Rightarrow> (r, (release s1, w'))))"

subsection \<open>The routes\<close>

fun gate_error_str :: "gate_error \<Rightarrow> string" where
  "gate_error_str GateLocked = ''gate is locked''"
| "gate_error_str GateAnswered = ''response already exists''"
| "gate_error_str (GateIo msg) = ''IO error: '' @ msg"

definition redirect :: "string \<Rightarrow> web_response" where
  "redirect msg = add_security_headers \<lparr>wr_status = 303, wr_headers = [(''location'', ''/pending'')], wr_body = msg\<rparr>"

definition decided_page :: "string \<Rightarrow> string \<Rightarrow> (gate_error, unit) result \<Rightarrow> web_response" where
  "decided_page run_id phase r =
     (case r of
        Inr _ \<Rightarrow> redirect ''Redirecting...''
      | Inl GateAnswered \<Rightarrow> redirect ''Already decided''
      | Inl GateLocked \<Rightarrow> page 423 (''Gate '' @ quoted phase @ '' on run '' @ quoted run_id @ '' is locked by another process'')
      | Inl e \<Rightarrow> page 500 (''Failed to write response: '' @ gate_error_str e))"

definition guarded :: "post_guard option \<Rightarrow> headers \<Rightarrow> web_response option" where
  "guarded guard h = (case guard of
     None \<Rightarrow> None
   | Some g \<Rightarrow> (case check_post_origin h g of Inl (status, msg) \<Rightarrow> Some (page status msg) | Inr _ \<Rightarrow> None))"

text \<open>The daemon: \<open>hitl_approve\<close> and \<open>hitl_reject\<close> are the same but for the decision.\<close>

definition ui_decide ::
  "'w gate_env \<Rightarrow> post_guard option \<Rightarrow> dir \<Rightarrow> headers \<Rightarrow> string \<Rightarrow> string \<Rightarrow> human_decision \<Rightarrow> string option \<Rightarrow>
     (string option \<times> bool) \<times> 'w \<Rightarrow> web_response \<times> ((string option \<times> bool) \<times> 'w)" where
  "ui_decide env guard root h run_id phase decision comment sw =
     (case guarded guard h of
        Some r \<Rightarrow> (r, sw)
      | None \<Rightarrow>
          if \<not> validate_run_id run_id then (page 400 (''Invalid run ID: '' @ run_id), sw)
          else let run_dir = pjoin (pjoin root ''runs'') run_id in
            if \<not> rd_exists (he_reader (gd_human env) (snd sw)) run_dir then (page 404 (''Run not found: '' @ run_id), sw)
            else case write_decision env ''loker_ui_daemon'' run_dir run_id phase decision comment sw of
                (r, sw') \<Rightarrow> (decided_page run_id phase r, sw'))"

text \<open>The server of one gate; its channel for the decision is used at most once.\<close>

definition one_shot_decide ::
  "'w gate_env \<Rightarrow> post_guard option \<Rightarrow> gate_config \<Rightarrow> headers \<Rightarrow> human_decision \<Rightarrow> string option \<Rightarrow>
     server_outcome option \<times> (string option \<times> bool) \<times> 'w \<Rightarrow> web_response \<times> (server_outcome option \<times> (string option \<times> bool) \<times> 'w)" where
  "one_shot_decide env guard g h decision comment sent_sw =
     (case sent_sw of (sent, sw) \<Rightarrow>
      case guarded guard h of
        Some r \<Rightarrow> (r, (sent, sw))
      | None \<Rightarrow> (case write_decision env ''hitl_server'' (gc_run_dir g) (gc_run_id g) (gc_phase g) decision comment sw of
            (Inr _, sw') \<Rightarrow> (page 200 [], (or_else sent (Some (Decided decision comment)), sw'))
          | (Inl GateLocked, sw') \<Rightarrow> (page 423 [], (sent, sw'))
          | (Inl GateAnswered, sw') \<Rightarrow> (page 409 [], (sent, sw'))
          | (Inl _, sw') \<Rightarrow> (page 500 [], (sent, sw'))))"

subsection \<open>Safety of the routes\<close>

lemma header_insert_look: "map_of (header_insert name v h) k = (if k = map lower_char name then Some v else map_of h k)"
  by (induction h) (auto simp: header_insert_def Let_def)

lemma security_headers_kept:
  "\<forall>(k, v) \<in> set security_headers. header_get (wr_headers (add_security_headers r)) k = Some v"
  by (auto simp: security_headers_def add_security_headers_def header_get_def header_insert_look lower_char_def is_upper_def)

lemma guarded_headers: "guarded guard h = Some r \<Longrightarrow> \<exists>r0. r = add_security_headers r0"
  by (auto simp: guarded_def page_def split: option.splits sum.splits prod.splits)

lemma decided_headers: "\<exists>r0. decided_page run_id phase r = add_security_headers r0"
  by (cases r) (auto simp: decided_page_def redirect_def page_def split: gate_error.splits)

text \<open>Every answer of the daemon to a decision carries the headers of \<open>security.rs\<close>.\<close>

lemma ui_security_headers:
  "\<forall>(k, v) \<in> set security_headers. header_get (wr_headers (fst (ui_decide env guard root h run_id phase decision comment sw))) k = Some v"
proof -
  have "\<exists>r0. fst (ui_decide env guard root h run_id phase decision comment sw) = add_security_headers r0"
    using guarded_headers [of guard h] decided_headers [of run_id phase]
    by (auto simp: ui_decide_def Let_def page_def split: option.splits prod.splits)
  then show ?thesis using security_headers_kept by metis
qed

text \<open>
  A request changes something only when it comes from a page of the server itself: its origin is
  the loopback address with the server's port and its content is a form; and only under a
  run that exists and whose name is a plain directory name.
\<close>

theorem ui_forged_request_ignored:
  assumes "ui_decide env (Some (for_loopback port)) root h run_id phase decision comment sw = (resp, sw')" "sw' \<noteq> sw"
  shows "(\<exists>origin. header_get h ''Origin'' = Some origin \<and> origin \<in> set (loopback_origins port)) \<and>
    (\<exists>ct. header_get h ''Content-Type'' = Some ct \<and> starts_with (header_text ct) ''application/x-www-form-urlencoded'') \<and>
    validate_run_id run_id \<and> rd_exists (he_reader (gd_human env) (snd sw)) (pjoin (pjoin root ''runs'') run_id)"
proof -
  from assms have g: "guarded (Some (for_loopback port)) h = None"
    by (auto simp: ui_decide_def split: option.splits)
  have t: "header_text ''application/x-www-form-urlencoded'' = ''application/x-www-form-urlencoded''" by code_simp
  from g have "check_post_origin h (for_loopback port) = Inr ()"
    by (auto simp: guarded_def split: sum.splits)
  then show ?thesis
    using assms g
    by (auto simp: check_post_origin_def for_loopback_def t ui_decide_def Let_def split: option.splits if_splits)
qed

subsection \<open>From the decision to the gate\<close>

lemma read_human_response: "read_response (human_response_json r) = Inr r"
  by (cases r; cases "rp_decision r"; cases "rp_comment r"; cases "rp_inline_path r")
    (simp_all add: human_response_json_def known_fields_def response_fields_def required_def optional_def as_decision_def str_opt_json_def)

text \<open>What the JSON library does with a response: its text is read back.\<close>

definition response_text_ok :: "'w human_env \<Rightarrow> human_response \<Rightarrow> bool" where
  "response_text_ok env r \<longleftrightarrow> js_parse (he_json env) (js_show (he_json env) (human_response_json r)) = Inr (human_response_json r)"

lemma write_decision_ok:
  assumes "write_decision env who run_dir run_id phase d c (s, w) = (Inr (), (s', w'))"
  shows "validate_phase_name phase = Inr () \<and> \<not> snd s \<and> s' = (Some [], False) \<and>
    store_decision env who run_dir phase d c w = (Inr (), w')"
proof -
  obtain r s1 where a: "acquire (gd_lock_io env) (gd_lock env) (gd_real_dir env w run_dir) phase run_id None s = (r, s1)"
    by (cases "acquire (gd_lock_io env) (gd_lock env) (gd_real_dir env w run_dir) phase run_id None s")
  obtain f t where s: "s = (f, t)" by (cases s)
  obtain f1 t1 where s1: "s1 = (f1, t1)" by (cases s1)
  from assms a obtain b where b: "r = Inr b" by (cases r) (auto simp: write_decision_def)
  from acquire_outcome [OF a [unfolded s s1]] b have "validate_phase_name phase = Inr ()" "\<not> t" by auto
  with assms a b s show ?thesis by (auto simp: write_decision_def release_def split: prod.splits)
qed

lemma read_file: "file_of w k = Some c \<Longrightarrow> rd_read (reader_of w) k = Inr c \<and> rd_exists (reader_of w) k"
  by (auto simp: reader_of_def file_of_def split: option.splits node.splits)

lemma store_decision_ok:
  assumes "store_decision env who run_dir phase d c w = (Inr (), w')" "disk_env (gd_human env)"
    and path: "path = pjoin (pjoin run_dir ''responses'') (phase @ ''.json'')" "\<not> temp_name path"
  shows "\<not> rd_exists (reader_of w) path \<and>
    file_of w' path = Some (js_show (he_json (gd_human env)) (human_response_json (decision_response env who phase d c w)))"
proof -
  have env: "he_ops (gd_human env) = disk_ops" "he_reader (gd_human env) = reader_of" using assms(2) by (simp_all add: disk_env_def)
  from assms(1) obtain w1 where "\<not> rd_exists (reader_of w) path"
    and aw: "atomic_write disk_ops path (js_show (he_json (gd_human env)) (human_response_json (decision_response env who phase d c w))) w1 = (Inr (), w')"
    by (auto simp: store_decision_def Let_def env path(1) [symmetric] map_err_def split: if_splits prod.splits sum.splits)
  with conc.atomic_write_old_or_new [OF aw path(2)] show ?thesis by simp
qed

text \<open>
  C27: A decision that a server has taken is the one that the gate reads: there was no response before,
  afterwards there is one with the decision, the comment and the phase, and the gate is answered with
  it. The gate is any one of the run and the phase.
\<close>

theorem decision_reaches_gate:
  assumes "write_decision env who (hv_run_dir cfg) run_id (hv_phase cfg) d c (s, w) = (Inr (), (s', w'))"
    and "disk_env (gd_human env)" "\<not> temp_name (response_path cfg)"
    and "response_text_ok (gd_human env) (decision_response env who (hv_phase cfg) d c w)"
  shows "parse_response (gd_human env) cfg w = Inr None \<and>
    (\<exists>r. parse_response (gd_human env) cfg w' = Inr (Some r) \<and> rp_decision r = d \<and> rp_phase r = hv_phase cfg \<and> rp_comment r = c \<and>
       verify_with_report fuel (gd_human env) cfg ctx w' =
         Some (answered (gd_human env) cfg (prompt_summary ctx) (preview_lines ctx) r w'))"
proof -
  let ?H = "gd_human env" and ?r = "decision_response env who (hv_phase cfg) d c w"
  have env: "he_reader ?H = reader_of" using assms(2) by (simp add: disk_env_def)
  from write_decision_ok [OF assms(1)] have "store_decision env who (hv_run_dir cfg) (hv_phase cfg) d c w = (Inr (), w')" by simp
  from store_decision_ok [OF this assms(2) response_path_def assms(3)]
  have before: "\<not> rd_exists (reader_of w) (response_path cfg)"
    and after: "rd_read (reader_of w') (response_path cfg) = Inr (js_show (he_json ?H) (human_response_json ?r))"
      "rd_exists (reader_of w') (response_path cfg)"
    using read_file by auto
  have "rp_schema_version ?r = SCHEMA_V1" by (simp add: decision_response_def SCHEMA_V1_def)
  with after assms(4) have parsed: "parse_response ?H cfg w' = Inr (Some ?r)"
    by (simp add: parse_response_def Let_def env parse_json_def response_text_ok_def read_human_response)
  then have "verify_with_report fuel ?H cfg ctx w' = Some (answered ?H cfg (prompt_summary ctx) (preview_lines ctx) ?r w')"
    by (subst verify_with_report.simps) (simp add: Let_def)
  moreover have "parse_response ?H cfg w = Inr None" using before by (simp add: parse_response_def Let_def env)
  ultimately show ?thesis using parsed by (intro conjI exI [of _ ?r]) (simp_all add: decision_response_def)
qed

lemma store_decision_frame:
  assumes "store_decision env who run_dir phase d c w = (r, w')" "disk_env (gd_human env)"
    and path: "path = pjoin (pjoin run_dir ''responses'') (phase @ ''.json'')" "\<not> temp_name path"
    and k: "file_of w k = Some text" "\<not> temp_name k"
  shows "file_of w' k = Some text"
proof (cases "rd_exists (reader_of w) path")
  case True
  with assms show ?thesis by (simp add: store_decision_def Let_def disk_env_def)
next
  case False
  then have ne: "k \<noteq> path" using read_file [OF k(1)] by auto
  have env: "he_ops (gd_human env) = disk_ops" "he_reader (gd_human env) = reader_of" using assms(2) by (simp_all add: disk_env_def)
  let ?txt = "js_show (he_json (gd_human env)) (human_response_json (decision_response env who phase d c w))"
  obtain r1 w1 where mk: "do_mkdirs disk_ops (parent_dir path) w = (r1, w1)" by fastforce
  from conc.mkdirs_same [OF mk] have same: "file_of w1 = file_of w" .
  show ?thesis
  proof (cases r1)
    case (Inl e)
    with assms(1) mk False have "w' = w1" by (auto simp: store_decision_def Let_def env path(1) [symmetric])
    with same k show ?thesis by simp
  next
    case (Inr u)
    obtain r2 w2 where aw: "atomic_write disk_ops path ?txt w1 = (r2, w2)" by fastforce
    with assms(1) mk False Inr have "w' = w2" by (auto simp: store_decision_def Let_def env path(1) [symmetric])
    with conc.atomic_write_old_or_new [OF aw path(2)] ne k same show ?thesis by simp
  qed
qed

lemma response_name:
  assumes "validate_phase_name phase = Inr ()" "\<not> starts_with phase ''.tmp''" "ks \<noteq> []"
  shows "\<not> temp_name (pjoin (pjoin ks ''responses'') (phase @ ''.json''))"
proof -
  from assms(1) have ph: "CHR ''/'' \<notin> set phase" "phase \<noteq> []" by (auto simp: validate_phase_name_def split: if_splits)
  have "pjoin (pjoin ks ''responses'') (phase @ ''.json'') = pjoin ks ''responses'' @ [Normal (phase @ ''.json'')]"
    using json_names [OF ph(1) pjoin_ne [OF assms(3)], of "''responses''" "[]"] by simp
  moreover have "\<not> starts_with (phase @ ''.json'') ''.tmp''"
  proof
    assume "starts_with (phase @ ''.json'') ''.tmp''"
    then obtain r where "phase @ ''.json'' = ''.tmp'' @ r" by (auto simp: starts_with_iff)
    then obtain us where "phase = ''.tmp'' @ us \<or> (phase @ us = ''.tmp'' \<and> ''.json'' = us @ r)"
      unfolding append_eq_append_conv2 by blast
    moreover have "us = []" if us: "phase @ us = ''.tmp''" "''.json'' = us @ r"
    proof (rule ccontr)
      assume "us \<noteq> []"
      with us(2) have dot: "CHR ''.'' \<in> set us" by (cases us) auto
      obtain x xs where "phase = x # xs" using ph(2) by (cases phase) auto
      with us(1) have "xs @ us = ''tmp''" by simp
      then have "set us \<subseteq> set ''tmp''" by (metis set_append Un_upper2)
      with dot show False by auto
    qed
    ultimately show False using assms(2) by (auto simp: starts_with_iff)
  qed
  ultimately show ?thesis by (simp add: temp_name_def)
qed

text \<open>No decision replaces one that is there, or changes any other file.\<close>

theorem decisions_never_overwrite:
  assumes "ui_decide env guard root h run_id phase d c (s, w) = (resp, (s', w'))" "disk_env (gd_human env)" "\<not> starts_with phase ''.tmp''"
    and "file_of w k = Some text" "\<not> temp_name k"
  shows "file_of w' k = Some text"
proof -
  let ?dir = "pjoin (pjoin root ''runs'') run_id"
  have dir: "?dir \<noteq> []"
  proof (cases root)
    case Nil
    have "pjoin [] ''runs'' \<noteq> []" by code_simp
    with Nil show ?thesis by (simp add: pjoin_ne)
  qed (simp add: pjoin_ne)
  show ?thesis
  proof (cases "w' = w")
    case False
    with assms(1) obtain r where wd: "write_decision env ''loker_ui_daemon'' ?dir run_id phase d c (s, w) = (r, (s', w'))"
      by (auto simp: ui_decide_def Let_def split: option.splits if_splits prod.splits)
    obtain ra s1 where a: "acquire (gd_lock_io env) (gd_lock env) (gd_real_dir env w ?dir) phase run_id None s = (ra, s1)"
      by (rule prod.exhaust)
    obtain f t where s: "s = (f, t)" by (cases s)
    obtain f1 t1 where s1: "s1 = (f1, t1)" by (cases s1)
    from wd a False obtain b where b: "ra = Inr b" by (cases ra) (auto simp: write_decision_def)
    from acquire_outcome [OF a [unfolded s s1]] b have v: "validate_phase_name phase = Inr ()" by auto
    from wd a b have "store_decision env ''loker_ui_daemon'' ?dir phase d c w = (r, w')"
      by (auto simp: write_decision_def split: prod.splits)
    from store_decision_frame [OF this assms(2) refl response_name [OF v assms(3) dir] assms(4,5)] show ?thesis .
  qed (use assms(4) in simp)
qed

text \<open>
  While another holds the lock of the phase no decision is taken. A resume holds it for as long as
  the phase runs, and so also while a gate of the phase waits for its answer.
\<close>

theorem no_decision_while_locked:
  assumes "write_decision env who run_dir run_id phase d c ((f, True), w) = (r, ((f', t'), w'))"
  shows "(\<exists>e. r = Inl e) \<and> w' = w \<and> t'"
proof -
  obtain ra s1 where a: "acquire (gd_lock_io env) (gd_lock env) (gd_real_dir env w run_dir) phase run_id None (f, True) = (ra, s1)"
    by (rule prod.exhaust)
  obtain f1 t1 where s1: "s1 = (f1, t1)" by (cases s1)
  from acquire_outcome [OF a [unfolded s1]] obtain e where "ra = Inl e" "t1" by auto
  with assms a s1 show ?thesis by (auto simp: write_decision_def)
qed

subsection \<open>Examples\<close>

text \<open>A daemon over a quiet disk with one run, and a gate of it that is waiting.\<close>

definition demo_decision :: human_response where
  "demo_decision = \<lparr>rp_schema_version = 1, rp_phase = ''review'', rp_claimed_by = ''hitl_server'', rp_decided_at = ''t1'',
     rp_decision = Approve, rp_comment = Some ''ok'', rp_inline_path = None\<rparr>"

definition demo_gate_env :: "disk gate_env" where
  "demo_gate_env = \<lparr>gd_human = demo_human_env\<lparr>he_json := \<lparr>js_parse = (\<lambda>s. if s = ''d'' then Inr (human_response_json demo_decision)
       else Inl ''no json''), js_show = (\<lambda>_. ''d'')\<rparr>\<rparr>, gd_lock = demo_lock_env, gd_lock_io = quiet_io,
     gd_show_time = (\<lambda>_. ''t''), gd_real_dir = (\<lambda>w k. node_at w k = Some DirNode)\<rparr>"

definition demo_daemon_disk :: disk where
  "demo_daemon_disk = \<lparr>dk_nodes = [([Normal ''s''], DirNode), ([Normal ''s'', Normal ''runs''], DirNode),
     ([Normal ''s'', Normal ''runs'', Normal ''r''], DirNode), ([Normal ''s'', Normal ''runs'', Normal ''r'', Normal ''a.md''], FileNode ''text''),
     ([Normal ''run''], DirNode)], dk_script = [], dk_temps = 0\<rparr>"

definition demo_form :: headers where
  "demo_form = [(''origin'', ''http://localhost:80''), (''content-type'', ''application/x-www-form-urlencoded'')]"

lemma demo_ui_decide:
  "case ui_decide demo_gate_env (Some (for_loopback 80)) [Normal ''s''] demo_form ''r'' ''review'' Approve (Some ''ok'') ((None, False), demo_daemon_disk)
   of (resp, (s', w')) \<Rightarrow> wr_status resp = 303 \<and> s' = (Some [], False) \<and>
     file_of w' [Normal ''s'', Normal ''runs'', Normal ''r'', Normal ''responses'', Normal ''review.json''] = Some ''d''"
  by code_simp

lemma demo_gate_disk_env: "disk_env (gd_human demo_gate_env)"
  by (simp add: disk_env_def demo_gate_env_def demo_human_env_def)

theorem ui_forged_request_ignored_witness:
  "case ui_decide demo_gate_env (Some (for_loopback 80)) [Normal ''s''] demo_form ''r'' ''review'' Approve (Some ''ok'') ((None, False), demo_daemon_disk)
   of (resp, sw') \<Rightarrow> sw' \<noteq> ((None, False), demo_daemon_disk) \<and> validate_run_id ''r'' \<and>
     (\<exists>origin. header_get demo_form ''Origin'' = Some origin \<and> origin \<in> set (loopback_origins 80))"
proof -
  let ?u = "ui_decide demo_gate_env (Some (for_loopback 80)) [Normal ''s''] demo_form ''r'' ''review'' Approve (Some ''ok'') ((None, False), demo_daemon_disk)"
  obtain resp sw' where u: "?u = (resp, sw')" by (rule prod.exhaust)
  with demo_ui_decide have "sw' \<noteq> ((None, False), demo_daemon_disk)" by auto
  from ui_forged_request_ignored [OF u this] this u show ?thesis by simp
qed

theorem decisions_never_overwrite_witness:
  "case ui_decide demo_gate_env (Some (for_loopback 80)) [Normal ''s''] demo_form ''r'' ''review'' Approve (Some ''ok'') ((None, False), demo_daemon_disk)
   of (resp, (s', w')) \<Rightarrow> wr_status resp = 303 \<and> file_of w' [Normal ''s'', Normal ''runs'', Normal ''r'', Normal ''a.md''] = Some ''text''"
proof -
  let ?u = "ui_decide demo_gate_env (Some (for_loopback 80)) [Normal ''s''] demo_form ''r'' ''review'' Approve (Some ''ok'') ((None, False), demo_daemon_disk)"
  let ?k = "[Normal ''s'', Normal ''runs'', Normal ''r'', Normal ''a.md'']"
  obtain resp s' w' where u: "?u = (resp, (s', w'))" by (metis prod.exhaust)
  have "\<not> starts_with ''review'' ''.tmp''" "file_of demo_daemon_disk ?k = Some ''text''" "\<not> temp_name ?k" by code_simp+
  from decisions_never_overwrite [OF u demo_gate_disk_env this] u demo_ui_decide show ?thesis by simp
qed

lemma demo_write_decision:
  "case write_decision demo_gate_env ''hitl_server'' (hv_run_dir demo_gate) ''r'' (hv_phase demo_gate) Approve (Some ''ok'') ((None, False), demo_daemon_disk)
   of (r, _) \<Rightarrow> r = Inr ()"
  by code_simp

theorem decision_reaches_gate_witness:
  "case write_decision demo_gate_env ''hitl_server'' (hv_run_dir demo_gate) ''r'' (hv_phase demo_gate) Approve (Some ''ok'') ((None, False), demo_daemon_disk)
   of (r, (_, w')) \<Rightarrow> r = Inr () \<and> parse_response (gd_human demo_gate_env) demo_gate demo_daemon_disk = Inr None \<and>
     (\<exists>r. parse_response (gd_human demo_gate_env) demo_gate w' = Inr (Some r) \<and> rp_decision r = Approve \<and> rp_comment r = Some ''ok'')"
proof -
  let ?u = "write_decision demo_gate_env ''hitl_server'' (hv_run_dir demo_gate) ''r'' (hv_phase demo_gate) Approve (Some ''ok'') ((None, False), demo_daemon_disk)"
  obtain s' w' where u: "?u = (Inr (), (s', w'))" using demo_write_decision by (auto split: prod.splits)
  have d: "decision_response demo_gate_env ''hitl_server'' (hv_phase demo_gate) Approve (Some ''ok'') demo_daemon_disk = demo_decision"
    by (simp add: decision_response_def demo_gate_env_def demo_human_env_def demo_gate_def demo_decision_def)
  have "\<not> temp_name (response_path demo_gate)" unfolding demo_gate_paths by code_simp
  moreover have "response_text_ok (gd_human demo_gate_env) demo_decision" by (simp add: response_text_ok_def demo_gate_env_def)
  ultimately show ?thesis
    using decision_reaches_gate [OF u demo_gate_disk_env, unfolded d, of 0 demo_hook_ctx] u by auto
qed

theorem no_decision_while_locked_witness:
  "case write_decision demo_gate_env ''hitl_server'' (hv_run_dir demo_gate) ''r'' (hv_phase demo_gate) Approve None ((Some ''body'', True), demo_daemon_disk)
   of (r, ((_, t), w')) \<Rightarrow> r \<noteq> Inr () \<and> w' = demo_daemon_disk \<and> t"
proof -
  let ?u = "write_decision demo_gate_env ''hitl_server'' (hv_run_dir demo_gate) ''r'' (hv_phase demo_gate) Approve None ((Some ''body'', True), demo_daemon_disk)"
  obtain r f t w' where u: "?u = (r, ((f, t), w'))" by (metis prod.exhaust)
  from no_decision_while_locked [OF u] u show ?thesis by auto
qed

end
