(* ===== verification/Role.thy ===== *)
theory Role
  imports RustStr "HOL-Library.Word"
begin

text \<open>
  Routing of roles to backends (\<open>src/role/mod.rs\<close>). A \<open>HashMap\<close> is an association list with distinct keys;
  the order of the list is the order of iteration, and no theorem assumes one.
\<close>

subsection \<open>Roles, teams and resolutions\<close>

datatype routing = RouteFirst | RouteParallel nat "64 word option" | RouteFallback "64 word option"

definition default_routing :: routing where
  "default_routing = RouteFallback None"

datatype role_error = RoleNotFound string | NoBackendsAvailable string | RoleInvalid string string

fun role_error_str :: "role_error \<Rightarrow> string" where
  "role_error_str (RoleNotFound role) = ''Role '' @ quoted role @ '' not found in configuration''"
| "role_error_str (NoBackendsAvailable role) = ''No backends available for role '' @ quoted role"
| "role_error_str (RoleInvalid role msg) = ''Validation error for role '' @ quoted role @ '': '' @ msg"

record resolution =
  re_role :: string
  re_team :: "string option"
  re_backends :: "string list"
  re_strategy :: routing
  re_from_team :: bool

definition resolution_new :: "string \<Rightarrow> resolution" where
  "resolution_new role = \<lparr>re_role = role, re_team = None, re_backends = [], re_strategy = default_routing, re_from_team = False\<rparr>"

record role_config =
  ro_backends :: "string list"
  ro_strategy :: routing

definition role_config_new :: "string list \<Rightarrow> role_config" where
  "role_config_new bs = \<lparr>ro_backends = bs, ro_strategy = default_routing\<rparr>"

record team_config =
  te_roles :: "(string \<times> role_config) list"

record role_resolver =
  rr_roles :: "(string \<times> role_config) list"
  rr_teams :: "(string \<times> team_config) list"
  rr_default_team :: "string option"

record role_warning =
  rw_role :: string
  rw_message :: string

definition role_warning_str :: "role_warning \<Rightarrow> string" where
  "role_warning_str w = ''Warning for role '' @ quoted (rw_role w) @ '': '' @ rw_message w"

subsection \<open>Resolving\<close>

definition active_team :: "role_resolver \<Rightarrow> string option \<Rightarrow> string option" where
  "active_team r team_override = or_else team_override (rr_default_team r)"

definition team_role :: "role_resolver \<Rightarrow> string option \<Rightarrow> string \<Rightarrow> role_config option" where
  "team_role r team role = Option.bind team (\<lambda>t. Option.bind (map_of (rr_teams r) t) (\<lambda>tc. map_of (te_roles tc) role))"

definition resolve_role :: "role_resolver \<Rightarrow> string \<Rightarrow> string option \<Rightarrow> string list \<Rightarrow> (role_error, resolution) result" where
  "resolve_role r role team_override available =
     (let team = active_team r team_override; own = team_role r team role in
      case or_else own (map_of (rr_roles r) role) of
        None \<Rightarrow> Inl (RoleNotFound role)
      | Some cfg \<Rightarrow>
          let bs = filter (\<lambda>b. b \<in> set available) (ro_backends cfg) in
          if bs = [] then Inl (NoBackendsAvailable role)
          else Inr ((resolution_new role)\<lparr>re_team := team, re_backends := bs, re_strategy := ro_strategy cfg,
                 re_from_team := (own \<noteq> None)\<rparr>))"

subsection \<open>Validating\<close>

definition quorum_errors :: "string \<Rightarrow> role_config \<Rightarrow> role_error list" where
  "quorum_errors label cfg =
     (case ro_strategy cfg of
        RouteParallel n _ \<Rightarrow>
          (if n < 1 then [RoleInvalid label (''Parallel strategy min_success must be >= 1, got '' @ nat_str n)] else []) @
          (if n > length (ro_backends cfg)
           then [RoleInvalid label (''Parallel strategy min_success ('' @ nat_str n @ '') exceeds number of backends ('' @
                   nat_str (length (ro_backends cfg)) @ '')'')] else [])
      | _ \<Rightarrow> [])"

definition unknown_warnings :: "string list \<Rightarrow> string \<Rightarrow> role_config \<Rightarrow> role_warning list" where
  "unknown_warnings known label cfg =
     map (\<lambda>b. \<lparr>rw_role = label, rw_message = ''Unknown backend reference: '' @ quoted b\<rparr>)
       (filter (\<lambda>b. b \<notin> set known) (ro_backends cfg))"

text \<open>The configurations in the order in which they are checked, with the labels of the messages.\<close>

definition labelled_roles :: "role_resolver \<Rightarrow> (string \<times> role_config) list" where
  "labelled_roles r = rr_roles r @
     concat (map (\<lambda>(t, tc). map (\<lambda>(n, cfg). (t @ ''/'' @ n, cfg)) (te_roles tc)) (rr_teams r))"

definition validate_roles :: "role_resolver \<Rightarrow> string list \<Rightarrow> role_warning list \<times> role_error list" where
  "validate_roles r known =
     (concat (map (\<lambda>(l, cfg). unknown_warnings known l cfg) (labelled_roles r)),
      concat (map (\<lambda>(l, cfg). quorum_errors l cfg) (labelled_roles r)))"

subsection \<open>Properties\<close>

text \<open>
  What a role resolves to: the configuration of the active team when it has the role and the global
  one otherwise, with the backends that are available, in the configured order.
\<close>

theorem resolve_role_spec:
  "resolve_role r role ov available = Inr res \<longleftrightarrow>
     (\<exists>cfg. or_else (team_role r (active_team r ov) role) (map_of (rr_roles r) role) = Some cfg \<and>
        re_backends res = filter (\<lambda>b. b \<in> set available) (ro_backends cfg) \<and> re_backends res \<noteq> [] \<and>
        re_strategy res = ro_strategy cfg \<and> re_role res = role \<and> re_team res = active_team r ov \<and>
        (re_from_team res \<longleftrightarrow> team_role r (active_team r ov) role \<noteq> None))"
  by (cases "or_else (team_role r (active_team r ov) role) (map_of (rr_roles r) role)"; cases res)
    (auto simp: resolve_role_def Let_def resolution_new_def)

text \<open>A team that is named explicitly hides the default team also for the roles it does not have.\<close>

lemma default_team_hidden:
  assumes "team_role r (Some t) role = None" "map_of (rr_roles r) role = None"
  shows "resolve_role r role (Some t) available = Inl (RoleNotFound role)"
  using assms by (simp add: resolve_role_def active_team_def Let_def)

lemma default_team_hidden_example:
  "let r = \<lparr>rr_roles = [], rr_teams = [(''a'', \<lparr>te_roles = []\<rparr>), (''b'', \<lparr>te_roles = [(''fix'', role_config_new [''codex''])]\<rparr>)],
       rr_default_team = Some ''b''\<rparr> in
   is_ok (resolve_role r ''fix'' None [''codex'']) \<and> resolve_role r ''fix'' (Some ''a'') [''codex''] = Inl (RoleNotFound ''fix'')"
  by code_simp

lemma quorum_errors_none:
  "quorum_errors l cfg = [] \<longleftrightarrow>
     (case ro_strategy cfg of RouteParallel n _ \<Rightarrow> 1 \<le> n \<and> n \<le> length (ro_backends cfg) | _ \<Rightarrow> True)"
  by (auto simp: quorum_errors_def split: routing.splits)

text \<open>
  There is no error exactly when every parallel role, global or of a team, asks for at least one
  success and for no more than it has backends; and no warning exactly when every backend is known.
\<close>

theorem validate_roles_spec:
  "(snd (validate_roles r known) = [] \<longleftrightarrow>
      (\<forall>(l, cfg) \<in> set (labelled_roles r).
         case ro_strategy cfg of RouteParallel n _ \<Rightarrow> 1 \<le> n \<and> n \<le> length (ro_backends cfg) | _ \<Rightarrow> True)) \<and>
   (fst (validate_roles r known) = [] \<longleftrightarrow>
      (\<forall>(l, cfg) \<in> set (labelled_roles r). set (ro_backends cfg) \<subseteq> set known))"
  by (fastforce simp: validate_roles_def quorum_errors_none unknown_warnings_def filter_empty_conv)

text \<open>A role that is valid may still ask, once the unavailable backends are gone, for more successes than it has backends.\<close>

lemma quorum_lost:
  "let r = \<lparr>rr_roles = [(''vote'', \<lparr>ro_backends = [''claude'', ''codex''], ro_strategy = RouteParallel 2 None\<rparr>)], rr_teams = [],
       rr_default_team = None\<rparr> in
   validate_roles r [''claude'', ''codex''] = ([], []) \<and>
   (case resolve_role r ''vote'' None [''codex''] of
      Inr res \<Rightarrow> re_strategy res = RouteParallel 2 None \<and> length (re_backends res) = 1 | Inl _ \<Rightarrow> False)"
  by code_simp

end
