(* ===== verification/Cache.thy ===== *)
theory Cache
  imports ManifestStore Backend
begin

text \<open>
  The cache of answers (\<open>src/cache.rs\<close>). Files are operations under the contract of \<open>FileStore\<close>; reading and
  printing JSON, SHA-256 and the clock are arguments. Times and lifetimes are 64-bit: arithmetic that
  overflows panics in a build with overflow checks (the result \<open>None\<close>) and wraps in one without.
\<close>

subsection \<open>Results, warnings, entries\<close>

record query_result =
  qr_backend :: string
  qr_output :: string
  qr_success :: bool
  qr_elapsed_ms :: "64 word"
  qr_error :: "backend_error option"

datatype cache_operation = CacheInit | CacheRead | CacheParse | CacheWrite | CacheDelete | CacheClock

fun cache_operation_str :: "cache_operation \<Rightarrow> string" where
  "cache_operation_str CacheInit = ''init''"
| "cache_operation_str CacheRead = ''read''"
| "cache_operation_str CacheParse = ''parse''"
| "cache_operation_str CacheWrite = ''write''"
| "cache_operation_str CacheDelete = ''delete''"
| "cache_operation_str CacheClock = ''clock''"

record cache_warning =
  cw_operation :: cache_operation
  cw_path :: "path option"
  cw_error :: string

definition cache_warning_str :: "cache_warning \<Rightarrow> string" where
  "cache_warning_str w = ''cache '' @ cache_operation_str (cw_operation w) @ '': '' @ cw_error w @
     (case cw_path w of Some p \<Rightarrow> '' ('' @ p @ '')'' | None \<Rightarrow> [])"

record cache_config =
  cg_enabled :: bool
  cg_ttl_hours :: "64 word"

definition default_cache_config :: cache_config where
  "default_cache_config = \<lparr>cg_enabled = True, cg_ttl_hours = 24\<rparr>"

record cached_result =
  cr_backend :: string
  cr_output :: string
  cr_success :: bool
  cr_elapsed_ms :: "64 word"

record cache_entry =
  cn_timestamp :: "64 word"
  cn_results :: "cached_result list"

definition to_cached :: "query_result \<Rightarrow> cached_result" where
  "to_cached r = \<lparr>cr_backend = qr_backend r, cr_output = qr_output r, cr_success = qr_success r, cr_elapsed_ms = qr_elapsed_ms r\<rparr>"

definition from_cached :: "cached_result \<Rightarrow> query_result" where
  "from_cached r = \<lparr>qr_backend = cr_backend r, qr_output = cr_output r, qr_success = cr_success r,
     qr_elapsed_ms = cr_elapsed_ms r, qr_error = None\<rparr>"

subsection \<open>The JSON form\<close>

definition cached_json :: "cached_result \<Rightarrow> json" where
  "cached_json r = JObj [(''backend'', JStr (cr_backend r)), (''output'', JStr (cr_output r)), (''success'', JBool (cr_success r)),
     (''elapsed_ms'', JInt (uint (cr_elapsed_ms r)))]"

definition cache_entry_json :: "cache_entry \<Rightarrow> json" where
  "cache_entry_json e = JObj [(''timestamp'', JInt (uint (cn_timestamp e))), (''results'', JArr (map cached_json (cn_results e)))]"

fun as_word64 :: "json \<Rightarrow> 64 word option" where
  "as_word64 (JInt n) = (if 0 \<le> n \<and> n < 2 ^ 64 then Some (word_of_int n) else None)"
| "as_word64 _ = None"

fun as_bool :: "json \<Rightarrow> bool option" where
  "as_bool (JBool b) = Some b"
| "as_bool _ = None"

fun as_array :: "json \<Rightarrow> json list option" where
  "as_array (JArr vs) = Some vs"
| "as_array _ = None"

text \<open>A known field that is given twice is an error, unknown ones are passed over.\<close>

definition once :: "string list \<Rightarrow> (string \<times> json) list \<Rightarrow> (serde_error, unit) result" where
  "once known m = (if distinct (filter (\<lambda>k. k \<in> set known) (map fst m)) then Inr () else Inl DuplicateField)"

fun read_cached :: "json \<Rightarrow> (serde_error, cached_result) result" where
  "read_cached (JObj m) =
     rbind (once [''backend'', ''output'', ''success'', ''elapsed_ms''] m) (\<lambda>_.
     rbind (required ''backend'' as_str m) (\<lambda>b.
     rbind (required ''output'' as_str m) (\<lambda>out.
     rbind (required ''success'' as_bool m) (\<lambda>s.
     rbind (required ''elapsed_ms'' as_word64 m) (\<lambda>t.
     Inr \<lparr>cr_backend = b, cr_output = out, cr_success = s, cr_elapsed_ms = t\<rparr>)))))"
| "read_cached _ = Inl (InvalidValue ''CachedResult'')"

fun read_cache_entry :: "json \<Rightarrow> (serde_error, cache_entry) result" where
  "read_cache_entry (JObj m) =
     rbind (once [''timestamp'', ''results''] m) (\<lambda>_.
     rbind (required ''timestamp'' as_word64 m) (\<lambda>t.
     rbind (required ''results'' as_array m) (\<lambda>vs.
     rbind (seq_results (map read_cached vs)) (\<lambda>rs.
     Inr \<lparr>cn_timestamp = t, cn_results = rs\<rparr>))))"
| "read_cache_entry _ = Inl (InvalidValue ''CacheEntry'')"

lemma uint64_less [simp]: "uint (w :: 64 word) < 18446744073709551616"
  using uint_bounded [of w] by simp

lemma read_cached_written [simp]: "read_cached (cached_json r) = Inr r"
  by (simp add: cached_json_def once_def required_def)

lemma seq_cached [simp]: "seq_results (map (read_cached \<circ> cached_json) rs) = Inr rs"
  by (induction rs) simp_all

lemma read_entry_json: "read_cache_entry (cache_entry_json e) = Inr e"
  by (cases e) (simp add: cache_entry_json_def once_def required_def)

subsection \<open>The cache\<close>

record cache =
  ca_dir :: path
  ca_ttl :: "64 word"
  ca_enabled :: bool
  ca_warnings :: "cache_warning list"
  ca_seen :: "(cache_operation \<times> path option) list"

record 'w cache_env =
  ce_ops :: "'w fs_ops"
  ce_json :: json_lib
  ce_serde_str :: "serde_error \<Rightarrow> string"
  ce_now :: "'w \<Rightarrow> 64 word option"
  ce_sha :: "bytes \<Rightarrow> string"
  ce_checks :: bool

definition cache_new :: "bool \<Rightarrow> path option \<Rightarrow> cache_config \<Rightarrow> cache option" where
  "cache_new checks cache_dir config =
     (if checks \<and> 2 ^ 64 \<le> unat (cg_ttl_hours config) * 3600 then None
      else Some \<lparr>ca_dir = (case cache_dir of Some d \<Rightarrow> path_join d ''lok'' | None \<Rightarrow> ''/tmp/lok''),
        ca_ttl = cg_ttl_hours config * 3600, ca_enabled = cg_enabled config, ca_warnings = [], ca_seen = []\<rparr>)"

definition cache_warn :: "cache_operation \<Rightarrow> path option \<Rightarrow> string \<Rightarrow> cache \<Rightarrow> cache" where
  "cache_warn op path msg c =
     (if (op, path) \<in> set (ca_seen c) then c
      else c\<lparr>ca_seen := ca_seen c @ [(op, path)], ca_warnings := ca_warnings c @ [\<lparr>cw_operation = op, cw_path = path, cw_error = msg\<rparr>]\<rparr>)"

definition take_warnings :: "cache \<Rightarrow> cache_warning list \<times> cache" where
  "take_warnings c = (ca_warnings c, c\<lparr>ca_warnings := [], ca_seen := []\<rparr>)"

definition cache_key :: "(bytes \<Rightarrow> string) \<Rightarrow> string \<Rightarrow> string list \<Rightarrow> string \<Rightarrow> string" where
  "cache_key sha prompt backends cwd = sha (prompt @ concat backends @ cwd)"

definition cache_path :: "cache \<Rightarrow> string \<Rightarrow> path" where
  "cache_path c key = path_join (ca_dir c) (key @ ''.json'')"

definition parse_entry :: "'w cache_env \<Rightarrow> string \<Rightarrow> (string, cache_entry) result" where
  "parse_entry env content =
     (case js_parse (ce_json env) content of
        Inl e \<Rightarrow> Inl e
      | Inr v \<Rightarrow> map_err (ce_serde_str env) (read_cache_entry v))"

definition cache_get :: "'w cache_env \<Rightarrow> string \<Rightarrow> cache \<times> 'w \<Rightarrow> query_result list option option \<times> (cache \<times> 'w)" where
  "cache_get env key cw =
     (case cw of (c, w) \<Rightarrow>
      if \<not> ca_enabled c then (Some None, (c, w))
      else let p = cache_path c key in
        case fs_read (ce_ops env) p w of
          Inl NotFound \<Rightarrow> (Some None, (c, w))
        | Inl e \<Rightarrow> (Some None, (cache_warn CacheRead (Some p) (io_str e) c, w))
        | Inr content \<Rightarrow> (case parse_entry env content of
              Inl e \<Rightarrow> (Some None, (cache_warn CacheParse (Some p) e c, w))
            | Inr entry \<Rightarrow> (case ce_now env w of
                  None \<Rightarrow> (Some None, (cache_warn CacheClock None ''system clock before UNIX epoch'' c, w))
                | Some now \<Rightarrow>
                    if ce_checks env \<and> now < cn_timestamp entry then (None, (c, w))
                    else if now - cn_timestamp entry > ca_ttl c
                    then (case fs_remove (ce_ops env) p w of
                        (Inl e, w') \<Rightarrow> (Some None, (cache_warn CacheDelete (Some p) (io_str e) c, w'))
                      | (Inr _, w') \<Rightarrow> (Some None, (c, w')))
                    else (Some (Some (map from_cached (cn_results entry))), (c, w)))))"

definition cache_set :: "'w cache_env \<Rightarrow> string \<Rightarrow> query_result list \<Rightarrow> cache \<times> 'w \<Rightarrow> cache \<times> 'w" where
  "cache_set env key results cw =
     (case cw of (c, w) \<Rightarrow>
      if \<not> ca_enabled c then (c, w)
      else case ce_now env w of
          None \<Rightarrow> (cache_warn CacheClock None ''system clock before UNIX epoch'' c, w)
        | Some timestamp \<Rightarrow> (case fs_mkdir (ce_ops env) (components (ca_dir c)) w of
              (Inl e, w1) \<Rightarrow> (cache_warn CacheInit (Some (ca_dir c)) (io_str e) c, w1)
            | (Inr _, w1) \<Rightarrow>
                let p = cache_path c key; entry = \<lparr>cn_timestamp = timestamp, cn_results = map to_cached results\<rparr> in
                (case fs_write (ce_ops env) p (js_show (ce_json env) (cache_entry_json entry)) w1 of
                   (Inl e, w2) \<Rightarrow> (cache_warn CacheWrite (Some p) (io_str e) c, w2)
                 | (Inr _, w2) \<Rightarrow> (c, w2))))"

subsection \<open>Properties\<close>

text \<open>
  The key does not tell where the prompt ends and the backends begin, and it depends on the order
  of the backends, which is that of a \<open>HashMap\<close>.
\<close>

lemma cache_key_collides:
  "cache_key sha (prompt @ b) bs cwd = cache_key sha prompt (b # bs) cwd"
  "cache_key sha prompt (bs @ [b]) cwd = cache_key sha prompt bs (b @ cwd)"
  by (simp_all add: cache_key_def)

lemma cache_key_order: "cache_key id [] [''codex'', ''gemini''] [] \<noteq> cache_key id [] [''gemini'', ''codex''] []"
  by (simp add: cache_key_def)

lemma cache_warn_frame [simp]:
  "ca_dir (cache_warn op p m c) = ca_dir c" "ca_ttl (cache_warn op p m c) = ca_ttl c" "ca_enabled (cache_warn op p m c) = ca_enabled c"
  by (simp_all add: cache_warn_def)

lemma cache_warn_fresh: "(op, p) \<notin> set (ca_seen c) \<Longrightarrow> ca_warnings (cache_warn op p m c) \<noteq> ca_warnings c"
  by (simp add: cache_warn_def)

text \<open>No operation is reported twice for one path until the warnings are taken.\<close>

definition warnings_once :: "cache \<Rightarrow> bool" where
  "warnings_once c \<longleftrightarrow> map (\<lambda>w. (cw_operation w, cw_path w)) (ca_warnings c) = ca_seen c \<and> distinct (ca_seen c)"

lemma warn_once: "warnings_once c \<Longrightarrow> warnings_once (cache_warn op p m c)"
  by (auto simp: warnings_once_def cache_warn_def)

lemma cache_ops_warn_once:
  assumes "warnings_once c"
  shows "warnings_once (fst (snd (cache_get env key (c, w))))" "warnings_once (fst (cache_set env key rs (c, w)))"
    "warnings_once (snd (take_warnings c))"
proof -
  show "warnings_once (fst (snd (cache_get env key (c, w))))"
    using assms by (auto simp: cache_get_def Let_def warn_once split: sum.splits option.splits io_error.splits prod.splits)
  show "warnings_once (fst (cache_set env key rs (c, w)))"
    using assms by (auto simp: cache_set_def Let_def warn_once split: sum.splits option.splits prod.splits)
  show "warnings_once (snd (take_warnings c))" by (simp add: take_warnings_def warnings_once_def)
qed

text \<open>
  What is stored without a warning is what is read back within the lifetime, but for the errors;
  answers of a backend that failed are among it.
\<close>

theorem cache_roundtrip:
  assumes "file_store (ce_ops env) view" "ca_enabled c" "ca_seen c = []" "ca_warnings c = []"
    and "cache_set env key rs (c, w) = (c', w')" "ca_warnings c' = []" "ce_now env w = Some t"
    and "view w2 (components (cache_path c key)) = view w' (components (cache_path c key))"
    and "fs_read (ce_ops env) (cache_path c key) w2 = Inr content" "ce_now env w2 = Some now" "t \<le> now" "now - t \<le> ca_ttl c"
    and "\<And>v. js_parse (ce_json env) (js_show (ce_json env) v) = Inr v"
  shows "cache_get env key (c', w2) = (Some (Some (map (\<lambda>r. r\<lparr>qr_error := None\<rparr>) rs)), (c', w2))"
proof -
  let ?p = "cache_path c key" and ?e = "\<lparr>cn_timestamp = t, cn_results = map to_cached rs\<rparr>"
  have fresh: "ca_warnings (cache_warn op p m c) \<noteq> []" for op p m using assms(3) by (simp add: cache_warn_def)
  obtain r1 w1 where mk: "fs_mkdir (ce_ops env) (components (ca_dir c)) w = (r1, w1)" by fastforce
  obtain r2 w2' where wr: "fs_write (ce_ops env) ?p (js_show (ce_json env) (cache_entry_json ?e)) w1 = (r2, w2')" by fastforce
  from assms(2,5-7) mk wr fresh have "r1 = Inr ()" "r2 = Inr ()" "c' = c" "w' = w2'"
    by (auto simp: cache_set_def Let_def split: sum.splits)
  with file_store.write_ok [OF assms(1)] wr have "view w' (components ?p) = Some (js_show (ce_json env) (cache_entry_json ?e))" by simp
  with assms(8) file_store.read_ok [OF assms(1,9)] have "content = js_show (ce_json env) (cache_entry_json ?e)" by simp
  then have "parse_entry env content = Inr ?e" using assms(13) by (simp add: parse_entry_def read_entry_json)
  moreover have "map (from_cached \<circ> to_cached) rs = map (\<lambda>r. r\<lparr>qr_error := None\<rparr>) rs"
    by (simp add: from_cached_def to_cached_def)
  ultimately show ?thesis
    using assms(2,9-12) \<open>c' = c\<close> by (auto simp: cache_get_def Let_def)
qed

text \<open>A lifetime in hours that overflows as seconds becomes a short one: just under an hour here.\<close>

lemma ttl_wraps: "map_option ca_ttl (cache_new False None \<lparr>cg_enabled = True, cg_ttl_hours = 5124095576030432\<rparr>) = Some 3584"
  by (simp add: cache_new_def)

lemma cache_expired_removed:
  assumes "ca_enabled c" "fs_read (ce_ops env) (cache_path c key) w = Inr content" "parse_entry env content = Inr entry"
    and "ce_now env w = Some now" "cn_timestamp entry \<le> now" "ca_ttl c < now - cn_timestamp entry"
    and "file_store (ce_ops env) view" "cache_get env key (c, w) = (r, (c', w'))" "ca_seen c = []" "ca_warnings c' = []"
  shows "r = Some None \<and> view w' (components (cache_path c key)) = None"
proof -
  obtain r1 w1 where rm: "fs_remove (ce_ops env) (cache_path c key) w = (r1, w1)" by fastforce
  from assms(5) have "\<not> now < cn_timestamp entry" by simp
  with assms rm have "r = Some None" "r1 = Inr ()" "w' = w1" "ca_warnings c' = ca_warnings (if r1 = Inr () then c else c')"
    by (auto simp: cache_get_def Let_def cache_warn_def split: sum.splits)
  with file_store.remove_ok [OF assms(7)] rm show ?thesis by simp
qed

subsection \<open>Examples\<close>

definition demo_cache_entry :: cache_entry where
  "demo_cache_entry = \<lparr>cn_timestamp = 100, cn_results = [\<lparr>cr_backend = ''codex'', cr_output = ''Error: x'', cr_success = False, cr_elapsed_ms = 5\<rparr>]\<rparr>"

end
