(* ===== verification/Config.thy ===== *)
theory Config
  imports Role Cache
begin

text \<open>
  The configuration (\<open>src/config.rs\<close>): its records with their defaults, the merging of TOML tables, and
  the layers of files. Reading and printing TOML, the derived reader of \<open>Config\<close> and the scheme of
  a URL are arguments.
\<close>

subsection \<open>The records and their defaults\<close>

datatype attempt_retention = Unbounded | Keep nat

record defaults_config =
  df_parallel :: bool
  df_timeout :: "64 word"
  df_max_retries :: nat
  df_retry_delay_ms :: "64 word"
  df_command_wrapper :: "string option"
  df_team :: "string option"

definition default_defaults :: defaults_config where
  "default_defaults = \<lparr>df_parallel = True, df_timeout = 300, df_max_retries = 0, df_retry_delay_ms = 1000,
     df_command_wrapper = None, df_team = None\<rparr>"

record conductor_config =
  cd_max_rounds :: nat
  cd_max_tokens :: nat

definition default_conductor :: conductor_config where
  "default_conductor = \<lparr>cd_max_rounds = 5, cd_max_tokens = 4096\<rparr>"

record backend_config =
  bc_enabled :: bool
  bc_command :: "string option"
  bc_args :: "string list"
  bc_skip_lines :: nat
  bc_api_key_env :: "string option"
  bc_model :: "string option"
  bc_timeout :: "64 word option"
  bc_max_retries :: "nat option"
  bc_retry_delay_ms :: "64 word option"

record retry_policy_config =
  rt_max_retries :: nat
  rt_delay_ms :: "64 word"

definition default_retry_config :: retry_policy_config where
  "default_retry_config = \<lparr>rt_max_retries = 0, rt_delay_ms = 1000\<rparr>"

record tensorzero_config =
  tz_endpoint :: string
  tz_default_model :: string
  tz_api_key_env :: "string option"
  tz_timeout_secs :: "64 word"
  tz_retry_policy :: retry_policy_config

record task_prompt =
  tp_name :: string
  tp_prompt :: string

record task_config =
  tk_description :: "string option"
  tk_backends :: "string list"
  tk_prompts :: "task_prompt list"

record config =
  cf_defaults :: defaults_config
  cf_conductor :: conductor_config
  cf_cache :: cache_config
  cf_tensorzero :: "tensorzero_config option"
  cf_backends :: "(string \<times> backend_config) list"
  cf_tasks :: "(string \<times> task_config) list"
  cf_roles :: "(string \<times> role_config) list"
  cf_teams :: "(string \<times> team_config) list"
  cf_keep_attempts :: attempt_retention

definition plain_backend :: "string \<Rightarrow> backend_config" where
  "plain_backend command = \<lparr>bc_enabled = True, bc_command = Some command, bc_args = [], bc_skip_lines = 0, bc_api_key_env = None,
     bc_model = None, bc_timeout = None, bc_max_retries = None, bc_retry_delay_ms = None\<rparr>"

definition default_backends :: "(string \<times> backend_config) list" where
  "default_backends =
     [(''codex'', (plain_backend ''codex'')\<lparr>bc_args := [''exec'', ''--json'', ''-s'', ''read-only'']\<rparr>),
      (''gemini'', (plain_backend ''npx'')\<lparr>bc_args := [''@google/gemini-cli''], bc_skip_lines := 1, bc_timeout := Some 600\<rparr>),
      (''claude'', plain_backend ''claude''),
      (''ollama'', (plain_backend ''http://localhost:11434'')\<lparr>bc_model := Some ''llama3.2''\<rparr>)]"

definition default_tasks :: "(string \<times> task_config) list" where
  "default_tasks =
     [(''hunt'', \<lparr>tk_description = Some ''Find bugs and code issues'', tk_backends = [''codex''], tk_prompts =
        [\<lparr>tp_name = ''errors'', tp_prompt = ''Find error handling problems in this codebase. Look for: unchecked errors, panics/crashes waiting to happen, missing input validation, swallowed exceptions. List up to 5 specific issues with file:line. Be concise.''\<rparr>,
         \<lparr>tp_name = ''perf'', tp_prompt = ''Find performance issues in this codebase. Look for: inefficient loops, unnecessary allocations, blocking calls in async code, O(n^2) patterns, missing caching opportunities. List up to 5 specific issues with file:line. Be concise.''\<rparr>,
         \<lparr>tp_name = ''dead-code'', tp_prompt = ''Find unused or dead code in this codebase. Look for: unreachable code, unused functions/methods, redundant conditions, commented-out code that should be removed. List up to 5 specific issues with file:line. Be concise.''\<rparr>]\<rparr>),
      (''audit'', \<lparr>tk_description = Some ''Security audit'', tk_backends = [''gemini''], tk_prompts =
        [\<lparr>tp_name = ''injection'', tp_prompt = ''Search for injection vulnerabilities (SQL, command, code injection). Look for: unsanitized user input in queries/commands, string interpolation in SQL, shell command construction. List up to 5 specific issues with file:line. Be concise.''\<rparr>,
         \<lparr>tp_name = ''auth'', tp_prompt = ''Search for authentication/authorization issues. Look for: missing auth checks, privilege escalation, insecure token handling, hardcoded credentials. List up to 5 specific issues with file:line. Be concise.''\<rparr>,
         \<lparr>tp_name = ''secrets'', tp_prompt = ''Search for exposed secrets and sensitive data. Look for: hardcoded API keys, passwords in code, secrets in logs, sensitive data in error messages. List up to 5 specific issues with file:line. Be concise.''\<rparr>]\<rparr>)]"

definition default_config :: config where
  "default_config = \<lparr>cf_defaults = default_defaults, cf_conductor = default_conductor, cf_cache = default_cache_config,
     cf_tensorzero = None, cf_backends = default_backends, cf_tasks = default_tasks, cf_roles = [], cf_teams = [],
     cf_keep_attempts = Unbounded\<rparr>"

subsection \<open>TensorZero\<close>

record tensorzero_opts =
  to_endpoint :: string
  to_model :: string
  to_api_key :: "string option"
  to_timeout :: nat

definition api_key_of :: "(string \<Rightarrow> string option) \<Rightarrow> string option \<Rightarrow> (string, string option) result" where
  "api_key_of env var =
     (case var of
        Some v \<Rightarrow> if v \<noteq> [] then (case env v of Some k \<Rightarrow> Inr (Some k) | None \<Rightarrow> Inl (''Missing environment variable: '' @ v)) else Inr None
      | None \<Rightarrow> Inr None)"

text \<open>Durations are in nanoseconds.\<close>

definition to_backend_opts :: "(string \<Rightarrow> string option) \<Rightarrow> tensorzero_config \<Rightarrow> (string, tensorzero_opts) result" where
  "to_backend_opts env tz = rbind (api_key_of env (tz_api_key_env tz)) (\<lambda>key.
     Inr \<lparr>to_endpoint = tz_endpoint tz, to_model = tz_default_model tz, to_api_key = key,
       to_timeout = unat (tz_timeout_secs tz) * 10 ^ 9\<rparr>)"

text \<open>The argument gives the scheme of a valid URL.\<close>

definition validate_tensorzero :: "(string \<Rightarrow> string option) \<Rightarrow> tensorzero_config \<Rightarrow> (string, unit) result" where
  "validate_tensorzero scheme_of tz =
     (if tz_endpoint tz = [] then Inl ''tensorzero.endpoint: must not be empty''
      else case scheme_of (tz_endpoint tz) of
          None \<Rightarrow> Inl (''tensorzero.endpoint: not a valid URL: '' @ quoted (tz_endpoint tz))
        | Some scheme \<Rightarrow>
            if scheme \<noteq> ''http'' \<and> scheme \<noteq> ''https''
            then Inl (''tensorzero.endpoint: scheme must be http or https, got '' @ quoted scheme @ '' in '' @ quoted (tz_endpoint tz))
            else if tz_default_model tz = [] then Inl ''tensorzero.default_model: must not be empty''
            else if tz_timeout_secs tz = 0 then Inl ''tensorzero.timeout_secs: must be greater than zero''
            else Inr ())"

subsection \<open>Merging\<close>

datatype toml = TStr string | TInt int | TFloat string | TBool bool | TDate string | TArr "toml list" | TTable "(string \<times> toml) list"

function deep_merge :: "toml \<Rightarrow> toml \<Rightarrow> toml"
  and merge_table :: "(string \<times> toml) list \<Rightarrow> (string \<times> toml) list \<Rightarrow> (string \<times> toml) list" where
  "deep_merge base overlay =
     (case (base, overlay) of (TTable b, TTable ov) \<Rightarrow> TTable (merge_table b ov) | _ \<Rightarrow> overlay)"
| "merge_table b [] = b"
| "merge_table b ((k, v) # ov) =
     merge_table (case map_of b k of
         Some existing \<Rightarrow> map (\<lambda>(k', x). if k' = k then (k', deep_merge existing v) else (k', x)) b
       | None \<Rightarrow> b @ [(k, v)]) ov"
  by pat_completeness auto
termination
  by (relation "measure (\<lambda>x. case x of Inl (b, ov) \<Rightarrow> size ov | Inr (b, ov) \<Rightarrow> size_list (size_prod (\<lambda>_. 0) size) ov)")
    (auto simp: less_Suc_eq_le)

declare deep_merge.simps [simp del]

lemma deep_merge_tables [simp]: "deep_merge (TTable b) (TTable ov) = TTable (merge_table b ov)"
  by (simp add: deep_merge.simps)

lemma deep_merge_other: "(\<nexists>m. b = TTable m) \<or> (\<nexists>m. ov = TTable m) \<Longrightarrow> deep_merge b ov = ov"
  by (auto simp: deep_merge.simps split: toml.splits)

subsection \<open>Loading\<close>

record config_env =
  cl_read :: "path \<Rightarrow> (io_error, string) result"
  cl_exists :: "path \<Rightarrow> bool"
  cl_parse :: "string \<Rightarrow> (string, toml) result"
  cl_config :: "toml \<Rightarrow> (string, config) result"
  cl_toml :: "config \<Rightarrow> (string, toml) result"
  cl_scheme :: "string \<Rightarrow> string option"

text \<open>A file is checked on its own before it is merged; one that does not exist is passed over.\<close>

definition merge_toml_file :: "config_env \<Rightarrow> path \<Rightarrow> toml \<Rightarrow> (string, toml) result" where
  "merge_toml_file env path base =
     (case cl_read env path of
        Inl NotFound \<Rightarrow> Inr base
      | Inl e \<Rightarrow> Inl (''Error reading '' @ path @ '': '' @ io_str e)
      | Inr content \<Rightarrow> (case rbind (cl_parse env content) (\<lambda>ov. rbind (cl_config env ov) (\<lambda>_. Inr ov)) of
            Inl _ \<Rightarrow> Inl (''Error parsing '' @ path)
          | Inr ov \<Rightarrow> Inr (deep_merge base ov)))"

definition checked_config :: "config_env \<Rightarrow> string \<Rightarrow> toml \<Rightarrow> (string, config) result" where
  "checked_config env context base =
     (case cl_config env base of
        Inl _ \<Rightarrow> Inl context
      | Inr cfg \<Rightarrow> (case cf_tensorzero cfg of
            None \<Rightarrow> Inr cfg
          | Some tz \<Rightarrow> rbind (validate_tensorzero (cl_scheme env) tz) (\<lambda>_. Inr cfg)))"

definition preferred :: "config_env \<Rightarrow> path \<Rightarrow> path \<Rightarrow> path" where
  "preferred env new legacy = (if cl_exists env new then new else legacy)"

definition user_file :: "config_env \<Rightarrow> path \<Rightarrow> path" where
  "user_file env home = preferred env (path_join home ''.config/loker/loker.toml'') (path_join home ''.config/lok/lok.toml'')"

definition project_file :: "config_env \<Rightarrow> path \<Rightarrow> path" where
  "project_file env cwd = preferred env (path_join cwd ''loker.toml'') (path_join cwd ''lok.toml'')"

definition load_config :: "config_env \<Rightarrow> path \<Rightarrow> path option \<Rightarrow> path option \<Rightarrow> (string, config) result" where
  "load_config env cwd home_dir explicit_path =
     (case cl_toml env default_config of
        Inl _ \<Rightarrow> Inl ''Failed to serialize default config''
      | Inr base \<Rightarrow> (case explicit_path of
            Some p \<Rightarrow> rbind (merge_toml_file env p base) (checked_config env (''Error parsing '' @ p))
          | None \<Rightarrow>
              rbind (case home_dir of Some home \<Rightarrow> merge_toml_file env (user_file env home) base | None \<Rightarrow> Inr base) (\<lambda>base1.
              rbind (merge_toml_file env (project_file env cwd) base1) (checked_config env ''Failed to deserialize merged config''))))"

subsection \<open>Which file gives a setting\<close>

fun toml_at :: "string list \<Rightarrow> toml \<Rightarrow> toml option" where
  "toml_at [] t = Some t"
| "toml_at (k # ks) (TTable m) = (case map_of m k of None \<Rightarrow> None | Some v \<Rightarrow> toml_at ks v)"
| "toml_at (k # ks) _ = None"

text \<open>A document is silent on a path when it has tables, and then nothing, along it.\<close>

fun silent :: "string list \<Rightarrow> toml \<Rightarrow> bool" where
  "silent (k # ks) (TTable m) = (case map_of m k of None \<Rightarrow> True | Some v \<Rightarrow> silent ks v)"
| "silent _ _ = False"

fun toml_ok :: "toml \<Rightarrow> bool" where
  "toml_ok (TTable m) = (distinct (map fst m) \<and> list_all (\<lambda>(_, v). toml_ok v) m)"
| "toml_ok _ = True"

lemma map_of_update: "map_of (map (\<lambda>(k', x). if k' = k then (k', y) else (k', x)) b) j =
    (if j = k then map_option (\<lambda>_. y) (map_of b k) else map_of b j)"
  by (induction b) auto

lemma merge_look:
  "distinct (map fst ov) \<Longrightarrow> map_of (merge_table b ov) k =
     (case map_of ov k of None \<Rightarrow> map_of b k | Some v \<Rightarrow> Some (case map_of b k of None \<Rightarrow> v | Some x \<Rightarrow> deep_merge x v))"
proof (induction ov arbitrary: b)
  case (Cons p ov)
  obtain k' v where p: "p = (k', v)" by (cases p)
  from Cons.prems p have "map_of ov k' = None" "distinct (map fst ov)" by (auto simp: map_of_eq_None_iff)
  with Cons.IH p show ?case
    by (auto simp: map_of_update map_of_append map_add_def split: option.splits)
qed simp

lemma toml_ok_at: "toml_ok (TTable m) \<Longrightarrow> map_of m k = Some v \<Longrightarrow> toml_ok v"
  by (auto simp: list_all_iff dest!: map_of_SomeD)

lemma silent_nothing: "silent p t \<Longrightarrow> toml_at p t = None"
  by (induction p t rule: silent.induct) (auto split: option.splits)

lemma toml_at_other: "\<nexists>m. t = TTable m \<Longrightarrow> toml_at (k # ks) t = None \<and> \<not> silent (k # ks) t"
  by (cases t) auto

text \<open>What is at a path after a merge.\<close>

theorem deep_merge_at:
  assumes "toml_ok ov"
  shows "toml_at p (deep_merge b ov) =
    (if silent p ov then toml_at p b
     else case toml_at p ov of
         None \<Rightarrow> None
       | Some v \<Rightarrow> Some (case toml_at p b of None \<Rightarrow> v | Some x \<Rightarrow> deep_merge x v))"
  using assms
proof (induction p arbitrary: b ov)
  case (Cons k ks)
  show ?case
  proof (cases "(\<exists>m. ov = TTable m) \<and> (\<exists>n. b = TTable n)")
    case True
    then obtain m n where t: "ov = TTable m" "b = TTable n" by blast
    show ?thesis
      using Cons.prems Cons.IH [OF toml_ok_at [OF Cons.prems [unfolded t]]]
      by (auto simp: t merge_look silent_nothing split: option.splits)
  next
    case False
    then have "deep_merge b ov = ov" by (auto intro: deep_merge_other)
    then show ?thesis using False toml_at_other [of ov k ks] toml_at_other [of b k ks] silent_nothing [of "k # ks" ov]
      by (auto split: option.splits)
  qed
qed simp

definition table :: "toml \<Rightarrow> bool" where
  "table t = (case t of TTable _ \<Rightarrow> True | _ \<Rightarrow> False)"

lemma deep_merge_value: "\<not> table v \<Longrightarrow> deep_merge x v = v"
  by (rule deep_merge_other) (auto simp: table_def)

text \<open>What TOML demands of a document: no key is given twice in a table.\<close>

definition unique_keys :: "config_env \<Rightarrow> bool" where
  "unique_keys env \<longleftrightarrow> (\<forall>c t. cl_parse env c = Inr t \<longrightarrow> toml_ok t)"

text \<open>The document of a file: empty when there is no file.\<close>

definition document :: "config_env \<Rightarrow> path \<Rightarrow> toml" where
  "document env path = (case cl_read env path of Inr content \<Rightarrow> (case cl_parse env content of Inr t \<Rightarrow> t | Inl _ \<Rightarrow> TTable []) | Inl _ \<Rightarrow> TTable [])"

lemma merge_file_at:
  assumes "merge_toml_file env path base = Inr t" "unique_keys env" "p \<noteq> []"
  shows "(\<not> table v \<longrightarrow> toml_at p (document env path) = Some v \<longrightarrow> toml_at p t = Some v) \<and>
    (silent p (document env path) \<longrightarrow> toml_at p t = toml_at p base)"
proof (cases "cl_read env path")
  case (Inl e)
  with assms(1,3) show ?thesis
    by (cases e; cases p) (auto simp: merge_toml_file_def document_def)
next
  case (Inr c)
  with assms(1) obtain ov where ov: "cl_parse env c = Inr ov" "t = deep_merge base ov"
    by (auto simp: merge_toml_file_def rbind_def split: sum.splits)
  then have d: "document env path = ov" using Inr by (simp add: document_def)
  show ?thesis
    unfolding d ov(2) deep_merge_at [OF assms(2) [unfolded unique_keys_def, rule_format, OF ov(1)]]
    using silent_nothing [of p ov] by (auto simp: deep_merge_value split: option.splits)
qed

text \<open>The files that are read, the most specific one first: the one that is named, or those of the project and the user.\<close>

definition config_files :: "config_env \<Rightarrow> path \<Rightarrow> path option \<Rightarrow> path option \<Rightarrow> path list" where
  "config_files env cwd home explicit_path =
     (case explicit_path of
        Some p \<Rightarrow> [p]
      | None \<Rightarrow> project_file env cwd # (case home of None \<Rightarrow> [] | Some h \<Rightarrow> [user_file env h]))"

fun merged :: "config_env \<Rightarrow> path list \<Rightarrow> toml \<Rightarrow> (string, toml) result" where
  "merged env [] base = Inr base"
| "merged env (f # fs) base = rbind (merged env fs base) (merge_toml_file env f)"

lemma load_config_merged:
  assumes "load_config env cwd home explicit_path = Inr cfg"
  obtains base t where "cl_toml env default_config = Inr base" "merged env (config_files env cwd home explicit_path) base = Inr t"
    "cl_config env t = Inr cfg"
proof -
  have "cl_config env t = Inr cfg" if "checked_config env c t = Inr cfg" for c t
    using that by (auto simp: checked_config_def rbind_Inr split: sum.splits option.splits)
  with assms that show thesis
    by (cases home) (auto simp: load_config_def config_files_def rbind_Inr split: sum.splits option.splits)
qed

lemma merged_at:
  assumes "unique_keys env" "p \<noteq> []" "\<not> table v"
  shows "merged env fs base = Inr t \<Longrightarrow>
    (\<forall>above f below. fs = above @ f # below \<longrightarrow> (\<forall>g \<in> set above. silent p (document env g)) \<longrightarrow>
       toml_at p (document env f) = Some v \<longrightarrow> toml_at p t = Some v) \<and>
    ((\<forall>f \<in> set fs. silent p (document env f)) \<longrightarrow> toml_at p t = toml_at p base)"
proof (induction fs arbitrary: t)
  case (Cons g fs)
  then obtain t1 where t1: "merged env fs base = Inr t1" "merge_toml_file env g t1 = Inr t" by (auto simp: rbind_Inr)
  note top = merge_file_at [OF t1(2) assms(1,2), of v]
  show ?case
  proof (intro conjI allI impI)
    fix above f below
    assume h: "g # fs = above @ f # below" "\<forall>g \<in> set above. silent p (document env g)" "toml_at p (document env f) = Some v"
    show "toml_at p t = Some v"
    proof (cases above)
      case Nil
      with h top assms(3) show ?thesis by simp
    next
      case (Cons a above')
      with h have "fs = above' @ f # below" "\<forall>g \<in> set above'. silent p (document env g)" "silent p (document env g)" by auto
      with Cons.IH [OF t1(1)] h(3) top show ?thesis by auto
    qed
  next
    assume "\<forall>f \<in> set (g # fs). silent p (document env f)"
    with Cons.IH [OF t1(1)] top show "toml_at p t = toml_at p base" by auto
  qed
qed simp

text \<open>
  C26: A setting of a loaded configuration is the one of the first file that is not silent on it, and the
  default one when all are. The files are the one that is named on the command line, alone, or else that
  of the project and then, if there is a home directory, that of the user. Settings are the values that
  are not tables.
\<close>

theorem config_layers:
  assumes "load_config env cwd home explicit_path = Inr cfg" "unique_keys env"
  shows "\<exists>base t. cl_toml env default_config = Inr base \<and> cl_config env t = Inr cfg \<and>
    (\<forall>p v. p \<noteq> [] \<longrightarrow> \<not> table v \<longrightarrow>
      (\<forall>above f below. config_files env cwd home explicit_path = above @ f # below \<longrightarrow>
         (\<forall>g \<in> set above. silent p (document env g)) \<longrightarrow> toml_at p (document env f) = Some v \<longrightarrow> toml_at p t = Some v) \<and>
      ((\<forall>f \<in> set (config_files env cwd home explicit_path). silent p (document env f)) \<longrightarrow> toml_at p t = toml_at p base))"
proof -
  from load_config_merged [OF assms(1)] obtain base t where l: "cl_toml env default_config = Inr base"
    "merged env (config_files env cwd home explicit_path) base = Inr t" "cl_config env t = Inr cfg" .
  from merged_at [OF assms(2) _ _ l(2)] l(1,3) show ?thesis by blast
qed

lemma checked_tensorzero:
  "checked_config env context t = Inr cfg \<Longrightarrow> cf_tensorzero cfg = Some tz \<Longrightarrow> validate_tensorzero (cl_scheme env) tz = Inr ()"
  by (auto simp: checked_config_def rbind_Inr split: sum.splits option.splits)

text \<open>A configuration that is loaded has no TensorZero section or a valid one.\<close>

lemma loaded_tensorzero:
  assumes "load_config env cwd home explicit_path = Inr cfg" "cf_tensorzero cfg = Some tz"
  shows "validate_tensorzero (cl_scheme env) tz = Inr ()"
  using assms checked_tensorzero by (fastforce simp: load_config_def rbind_Inr split: sum.splits option.splits)

text \<open>A file that is named explicitly and does not exist is passed over without an error.\<close>

lemma missing_explicit_ignored:
  assumes "cl_toml env default_config = Inr base" "cl_read env path = Inl NotFound"
  shows "load_config env cwd home (Some path) = checked_config env (''Error parsing '' @ path) base"
  using assms by (simp add: load_config_def merge_toml_file_def)

text \<open>
  A strategy that one layer gives as a table and a later layer as another becomes a table with both
  variants, which the derived reader of an enumeration does not accept.
\<close>

lemma merged_strategy_two_variants:
  "toml_at [''strategy''] (deep_merge (TTable [(''strategy'', TTable [(''Parallel'', TTable [(''min_success'', TInt 2)])])])
     (TTable [(''strategy'', TTable [(''Fallback'', TTable [])])])) =
   Some (TTable [(''Parallel'', TTable [(''min_success'', TInt 2)]), (''Fallback'', TTable [])])"
  by simp

subsection \<open>Examples\<close>

definition demo_config_env :: config_env where
  "demo_config_env = \<lparr>cl_read = (\<lambda>p. if p = ''h/.config/loker/loker.toml'' then Inr ''u'' else if p = ''c/lok.toml'' then Inr ''p'' else Inl NotFound),
     cl_exists = (\<lambda>p. p = ''h/.config/loker/loker.toml''),
     cl_parse = (\<lambda>s. if s = ''u'' then Inr (TTable [(''defaults'', TTable [(''timeout'', TInt 60), (''max_retries'', TInt 2)])])
       else if s = ''p'' then Inr (TTable [(''defaults'', TTable [(''timeout'', TInt 5)])]) else Inl ''no TOML''),
     cl_config = (\<lambda>t. case toml_at [''defaults'', ''timeout''] t of
        Some (TInt n) \<Rightarrow> Inr (default_config\<lparr>cf_defaults := default_defaults\<lparr>df_timeout := word_of_int n\<rparr>\<rparr>) | _ \<Rightarrow> Inl ''missing field''),
     cl_toml = (\<lambda>c. Inr (TTable [(''defaults'', TTable [(''timeout'', TInt (uint (df_timeout (cf_defaults c)))), (''parallel'', TBool True)])])),
     cl_scheme = (\<lambda>_. None)\<rparr>"

lemma demo_config_load: "is_ok (load_config demo_config_env ''c'' (Some ''h'') None)"
  by code_simp

theorem config_layers_witness:
  "\<exists>cfg t. load_config demo_config_env ''c'' (Some ''h'') None = Inr cfg \<and> cl_config demo_config_env t = Inr cfg \<and>
     toml_at [''defaults'', ''timeout''] t = Some (TInt 5)"
proof -
  obtain cfg where l: "load_config demo_config_env ''c'' (Some ''h'') None = Inr cfg" using demo_config_load by (auto simp: is_ok_iff)
  have ok: "unique_keys demo_config_env" by (auto simp: unique_keys_def demo_config_env_def split: if_splits)
  have "\<not> table (TInt 5)" by (simp add: table_def)
  moreover have "toml_at [''defaults'', ''timeout''] (document demo_config_env (project_file demo_config_env ''c'')) = Some (TInt 5)" by code_simp
  moreover have "config_files demo_config_env ''c'' (Some ''h'') None =
      [] @ project_file demo_config_env ''c'' # [user_file demo_config_env ''h'']" by (simp add: config_files_def)
  moreover obtain t where "cl_config demo_config_env t = Inr cfg" "\<forall>p v. p \<noteq> [] \<longrightarrow> \<not> table v \<longrightarrow>
      (\<forall>above f below. config_files demo_config_env ''c'' (Some ''h'') None = above @ f # below \<longrightarrow>
         (\<forall>g \<in> set above. silent p (document demo_config_env g)) \<longrightarrow> toml_at p (document demo_config_env f) = Some v \<longrightarrow> toml_at p t = Some v)"
    using config_layers [OF l ok] by blast
  ultimately have "toml_at [''defaults'', ''timeout''] t = Some (TInt 5)" "cl_config demo_config_env t = Inr cfg"
    by (metis empty_iff list.distinct(1) list.set(1))+
  with l show ?thesis by blast
qed

end
