(* ===== verification/Backends.thy ===== *)
theory Backends
  imports Config Verification BackendRetry
begin

text \<open>
  The concrete backends (\<open>src/backend/codex.rs\<close>, \<open>gemini.rs\<close>, \<open>claude.rs\<close>, \<open>ollama.rs\<close>, \<open>tensorzero.rs\<close>): what
  they ask of a process or a service and how they read its answer. Starting a process, sending a
  request, the \<open>genai\<close> client, the search path, the environment and the clock are arguments. The
  Bedrock backend needs an optional feature of the build and is left out.
\<close>

subsection \<open>Processes and services\<close>

record child_output =
  ch_code :: "int option"
  ch_stdout :: bytes
  ch_stderr :: bytes

datatype http_failure = HttpTimedOut string | HttpNoConnect string | HttpFailed string

fun http_failure_str :: "http_failure \<Rightarrow> string" where
  "http_failure_str (HttpTimedOut m) = m"
| "http_failure_str (HttpNoConnect m) = m"
| "http_failure_str (HttpFailed m) = m"

record http_answer =
  ha_status :: nat
  ha_status_text :: string
  ha_body :: string

record chat_answer =
  ct_prompt_tokens :: "int option"
  ct_completion_tokens :: "int option"
  ct_text :: "string option"

text \<open>A request has the time allowed for it, if any, its address, headers and body.\<close>

record 'w backend_env =
  be_spawn :: "string \<Rightarrow> string list \<Rightarrow> path \<Rightarrow> 'w \<Rightarrow> (string, child_output) result \<times> 'w"
  be_post :: "nat option \<Rightarrow> string \<Rightarrow> (string \<times> string) list \<Rightarrow> json \<Rightarrow> 'w \<Rightarrow> (http_failure, http_answer) result \<times> 'w"
  be_chat :: "string \<Rightarrow> string \<Rightarrow> nat \<Rightarrow> string \<Rightarrow> string \<Rightarrow> 'w \<Rightarrow> (genai_error, chat_answer) result \<times> 'w"
  be_elapsed :: "'w \<Rightarrow> 'w \<Rightarrow> nat"
  be_which :: "string \<Rightarrow> bool"
  be_var :: "string \<Rightarrow> string option"
  be_json :: json_lib
  be_serde_str :: "serde_error \<Rightarrow> string"
  be_scheme :: "string \<Rightarrow> (string, string) result"

definition chosen_model :: "string option \<Rightarrow> string option \<Rightarrow> string option" where
  "chosen_model model own = or_else (opt_filter (\<lambda>m. m \<noteq> []) model) own"

definition model_args :: "string option \<Rightarrow> string list" where
  "model_args m = (case m of Some m \<Rightarrow> [''--model'', m] | None \<Rightarrow> [])"

definition exit_code_of :: "child_output \<Rightarrow> int" where
  "exit_code_of out = unwrap_or (- 1) (ch_code out)"

text \<open>A failure of a process, classified by its message; the exit code is put back.\<close>

definition process_error :: "string \<Rightarrow> child_output \<Rightarrow> backend_error" where
  "process_error label out =
     (case error_of_message (label @ '' failed: '' @ from_utf8_lossy (ch_stderr out)) of
        ExecutionFailed m _ \<Rightarrow> ExecutionFailed m (Some (exit_code_of out))
      | e \<Rightarrow> e)"

definition process_output :: "string \<Rightarrow> (string \<Rightarrow> string) \<Rightarrow> string option \<Rightarrow> child_output \<Rightarrow> nat \<Rightarrow> query_output" where
  "process_output name parse model out elapsed =
     (from_process (parse (from_utf8_lossy (ch_stdout out))) (from_utf8_lossy (ch_stderr out)) (exit_code_of out) name elapsed)
       \<lparr>qo_model := model\<rparr>"

subsection \<open>Codex\<close>

record codex_backend =
  cx_command :: string
  cx_args :: "string list"
  cx_model :: "string option"

definition codex_new :: "backend_config \<Rightarrow> codex_backend" where
  "codex_new c = \<lparr>cx_command = unwrap_or ''codex'' (bc_command c),
     cx_args = (if bc_args c = [] then [''exec'', ''--json'', ''-s'', ''read-only''] else bc_args c), cx_model = bc_model c\<rparr>"

definition completed_mark :: string where
  "completed_mark = [CHR 0x22] @ ''type'' @ [CHR 0x22] @ '':'' @ [CHR 0x22] @ ''item.completed'' @ [CHR 0x22]"

definition codex_message :: "json_lib \<Rightarrow> string \<Rightarrow> string option" where
  "codex_message js line =
     (if contains line completed_mark \<and> contains line ''agent_message''
      then (case js_parse js line of
          Inr v \<Rightarrow> Option.bind (Option.bind (json_get ''item'' v) (json_get ''text'')) as_str
        | Inl _ \<Rightarrow> None)
      else None)"

definition codex_parse :: "json_lib \<Rightarrow> string \<Rightarrow> string" where
  "codex_parse js output =
     unwrap_or output (foldl (\<lambda>last line. or_else (codex_message js line) last) None (str_lines output))"

definition codex_query :: "'w backend_env \<Rightarrow> codex_backend \<Rightarrow> string \<Rightarrow> path \<Rightarrow> string option \<Rightarrow> 'w \<Rightarrow> (backend_error, query_output) result \<times> 'w" where
  "codex_query env b prompt cwd model w =
     (let m = chosen_model model (cx_model b) in
      case be_spawn env (cx_command b) (cx_args b @ model_args m @ [''--'', prompt]) cwd w of
        (Inl e, w') \<Rightarrow> (Inl (Unavailable (''Failed to execute codex command: '' @ e)), w')
      | (Inr out, w') \<Rightarrow>
          (if ch_code out \<noteq> Some 0 then Inl (process_error ''Codex'' out)
           else Inr (process_output ''codex'' (codex_parse (be_json env)) m out (be_elapsed env w w')), w'))"

subsection \<open>Gemini\<close>

record gemini_backend =
  gm_command :: string
  gm_args :: "string list"
  gm_skip_lines :: nat
  gm_model :: "string option"

definition gemini_new :: "backend_config \<Rightarrow> gemini_backend" where
  "gemini_new c = \<lparr>gm_command = unwrap_or ''npx'' (bc_command c),
     gm_args = (if bc_args c = [] then [''@google/gemini-cli''] else bc_args c), gm_skip_lines = bc_skip_lines c, gm_model = bc_model c\<rparr>"

definition gemini_parse :: "nat \<Rightarrow> string \<Rightarrow> string" where
  "gemini_parse skip output = str_join [CHR 0x0A] (drop skip (str_lines output))"

definition quote_mark :: char where
  "quote_mark = CHR 0x27"

definition shell_escape :: "string \<Rightarrow> string" where
  "shell_escape s = str_replace [quote_mark] [quote_mark, CHR 0x5C, quote_mark, quote_mark] s"

definition gemini_shell :: "gemini_backend \<Rightarrow> string option \<Rightarrow> string \<Rightarrow> string" where
  "gemini_shell b m prompt = ''echo '' @ quoted [] @ '' | '' @ gm_command b @ '' '' @ str_join '' '' (gm_args b) @
     (case m of Some m \<Rightarrow> '' --model '' @ quoted (shell_escape m) | None \<Rightarrow> []) @ '' '' @ quoted (shell_escape prompt)"

definition gemini_query :: "'w backend_env \<Rightarrow> gemini_backend \<Rightarrow> string \<Rightarrow> path \<Rightarrow> string option \<Rightarrow> 'w \<Rightarrow> (backend_error, query_output) result \<times> 'w" where
  "gemini_query env b prompt cwd model w =
     (let m = chosen_model model (gm_model b) in
      case be_spawn env ''sh'' [''-c'', gemini_shell b m prompt] cwd w of
        (Inl e, w') \<Rightarrow> (Inl (Unavailable (''Failed to execute gemini command: '' @ e)), w')
      | (Inr out, w') \<Rightarrow>
          (if ch_code out \<noteq> Some 0 then Inl (process_error ''Gemini'' out)
           else Inr (process_output ''gemini'' (gemini_parse (gm_skip_lines b)) m out (be_elapsed env w w')), w'))"

subsection \<open>Claude\<close>

datatype claude_mode = ClaudeApi string string | ClaudeCli string "string option"

definition claude_new :: "(string \<Rightarrow> string option) \<Rightarrow> backend_config \<Rightarrow> (string, claude_mode) result" where
  "claude_new var c =
     (case bc_command c of
        Some cmd \<Rightarrow> Inr (ClaudeCli cmd (bc_model c))
      | None \<Rightarrow> let key_env = unwrap_or ''ANTHROPIC_API_KEY'' (bc_api_key_env c) in
          (case var key_env of
             None \<Rightarrow> Inl (''Missing environment variable: '' @ key_env)
           | Some key \<Rightarrow> Inr (ClaudeApi key (unwrap_or ''claude-sonnet-4-20250514'' (bc_model c)))))"

definition classify_http_error :: "nat \<Rightarrow> string \<Rightarrow> string \<Rightarrow> backend_error" where
  "classify_http_error status status_text body =
     (let msg = ''Claude API error '' @ status_text @ '': '' @ body in
      if status \<in> {401, 403} then Auth msg
      else if status = 429 \<or> status = 529 then RateLimit msg None
      else ExecutionFailed msg None)"

text \<open>The derived readers, in which unknown fields are passed over.\<close>

fun read_block :: "json \<Rightarrow> (serde_error, string option) result" where
  "read_block (JObj m) = rbind (once [''text''] m) (\<lambda>_. optional ''text'' as_str m)"
| "read_block _ = Inl (InvalidValue ''ContentBlock'')"

fun read_claude_usage :: "json \<Rightarrow> (serde_error, token_usage) result" where
  "read_claude_usage (JObj m) =
     rbind (once [''input_tokens'', ''output_tokens''] m) (\<lambda>_.
     rbind (required ''input_tokens'' as_u32 m) (\<lambda>i.
     rbind (required ''output_tokens'' as_u32 m) (\<lambda>n. Inr (token_usage_new i n))))"
| "read_claude_usage _ = Inl (InvalidValue ''ClaudeUsage'')"

definition nested :: "string \<Rightarrow> (json \<Rightarrow> (serde_error, 'a) result) \<Rightarrow> (string \<times> json) list \<Rightarrow> (serde_error, 'a option) result" where
  "nested k read m =
     (case map_of m k of None \<Rightarrow> Inr None | Some JNull \<Rightarrow> Inr None | Some v \<Rightarrow> rbind (read v) (\<lambda>x. Inr (Some x)))"

fun read_claude_response :: "json \<Rightarrow> (serde_error, string option list \<times> string option \<times> token_usage option) result" where
  "read_claude_response (JObj m) =
     rbind (once [''content'', ''model'', ''usage''] m) (\<lambda>_.
     rbind (required ''content'' as_array m) (\<lambda>vs.
     rbind (seq_results (map read_block vs)) (\<lambda>blocks.
     rbind (optional ''model'' as_str m) (\<lambda>model.
     rbind (nested ''usage'' read_claude_usage m) (\<lambda>usage. Inr (blocks, model, usage))))))"
| "read_claude_response _ = Inl (InvalidValue ''ClaudeResponse'')"

definition parse_body :: "'w backend_env \<Rightarrow> (json \<Rightarrow> (serde_error, 'a) result) \<Rightarrow> string \<Rightarrow> (string, 'a) result" where
  "parse_body env read body =
     (case js_parse (be_json env) body of Inl e \<Rightarrow> Inl e | Inr v \<Rightarrow> map_err (be_serde_str env) (read v))"

definition send_error :: "string \<Rightarrow> string \<Rightarrow> string \<Rightarrow> string \<Rightarrow> nat \<Rightarrow> http_failure \<Rightarrow> backend_error" where
  "send_error timed_out no_connect other sep elapsed f =
     (case f of
        HttpTimedOut e \<Rightarrow> Timeout (timed_out @ sep @ e) (word_of_nat (elapsed div 10 ^ 6))
      | HttpNoConnect e \<Rightarrow> Network (no_connect @ sep @ e)
      | HttpFailed e \<Rightarrow> Network (other @ sep @ e))"

definition claude_request :: "string \<Rightarrow> string \<Rightarrow> string \<Rightarrow> json" where
  "claude_request model system prompt = JObj [(''model'', JStr model), (''max_tokens'', JInt 4096), (''system'', JStr system),
     (''messages'', JArr [JObj [(''role'', JStr ''user''), (''content'', JStr prompt)]])]"

definition claude_headers :: "string \<Rightarrow> (string \<times> string) list" where
  "claude_headers key = [(''x-api-key'', key), (''anthropic-version'', ''2023-06-01''), (''content-type'', ''application/json'')]"

definition is_success :: "nat \<Rightarrow> bool" where
  "is_success status \<longleftrightarrow> 200 \<le> status \<and> status < 300"

definition claude_query_api ::
  "'w backend_env \<Rightarrow> claude_mode \<Rightarrow> string \<Rightarrow> string \<Rightarrow> string option \<Rightarrow> 'w \<Rightarrow> (backend_error, query_output) result \<times> 'w" where
  "claude_query_api env mode system prompt model w =
     (case mode of
        ClaudeCli _ _ \<Rightarrow> (Inl (ConfigError ''API mode required for this operation''), w)
      | ClaudeApi key own \<Rightarrow>
          let m = unwrap_or own (opt_filter (\<lambda>m. m \<noteq> []) model) in
          (case be_post env None ''https://api.anthropic.com/v1/messages'' (claude_headers key) (claude_request m system prompt) w of
             (Inl f, w') \<Rightarrow> (Inl (send_error ''Claude API request timed out'' ''Claude API connection failed''
                ''Failed to send request to Claude API'' '': '' (be_elapsed env w w') f), w')
           | (Inr a, w') \<Rightarrow>
               (if \<not> is_success (ha_status a) then Inl (classify_http_error (ha_status a) (ha_status_text a) (ha_body a))
                else case parse_body env read_claude_response (ha_body a) of
                    Inl e \<Rightarrow> Inl (ParseFailed (''Failed to parse Claude response: '' @ e))
                  | Inr (blocks, answered, usage) \<Rightarrow>
                      Inr ((from_text (str_join [CHR 0x0A] (List.map_filter id blocks)) ''claude'' (be_elapsed env w w'))
                        \<lparr>qo_model := or_else answered (Some m), qo_usage := usage\<rparr>), w')))"

definition claude_query_cli ::
  "'w backend_env \<Rightarrow> claude_mode \<Rightarrow> string \<Rightarrow> path \<Rightarrow> string option \<Rightarrow> 'w \<Rightarrow> (string, query_output) result \<times> 'w" where
  "claude_query_cli env mode prompt cwd model w =
     (case mode of
        ClaudeApi _ _ \<Rightarrow> (Inl ''CLI mode required for this operation'', w)
      | ClaudeCli command own \<Rightarrow>
          let m = chosen_model model own in
          (case be_spawn env command ([''-p'', ''--output-format'', ''text''] @ model_args m @ [''--'', prompt]) cwd w of
             (Inl _, w') \<Rightarrow> (Inl ''Failed to execute claude command'', w')
           | (Inr out, w') \<Rightarrow>
               (if ch_code out \<noteq> Some 0 then Inl (''Claude CLI failed: '' @ from_utf8_lossy (ch_stderr out))
                else Inr (process_output ''claude'' trim m out (be_elapsed env w w')), w')))"

definition claude_query :: "'w backend_env \<Rightarrow> claude_mode \<Rightarrow> string \<Rightarrow> path \<Rightarrow> string option \<Rightarrow> 'w \<Rightarrow> (backend_error, query_output) result \<times> 'w" where
  "claude_query env mode prompt cwd model w =
     (case mode of
        ClaudeApi _ _ \<Rightarrow> claude_query_api env mode ''You are a helpful assistant.'' prompt model w
      | ClaudeCli _ _ \<Rightarrow> (case claude_query_cli env mode prompt cwd model w of (r, w') \<Rightarrow> (map_err error_of_message r, w')))"

definition claude_available :: "'w backend_env \<Rightarrow> claude_mode \<Rightarrow> bool" where
  "claude_available env mode = (case mode of ClaudeApi key _ \<Rightarrow> key \<noteq> [] | ClaudeCli command _ \<Rightarrow> be_which env command)"

subsection \<open>Ollama\<close>

record ollama_backend =
  ol_base_url :: string
  ol_model :: string
  ol_timeout :: nat

text \<open>Timeouts in seconds; zero is a year.\<close>

definition a_year :: nat where
  "a_year = 365 * 24 * 60 * 60"

definition ollama_new :: "backend_config \<Rightarrow> ollama_backend" where
  "ollama_new c = \<lparr>ol_base_url = unwrap_or ''http://localhost:11434'' (bc_command c), ol_model = unwrap_or ''llama3.2'' (bc_model c),
     ol_timeout = (let t = unat (unwrap_or 300 (bc_timeout c)) in if t = 0 then a_year else t)\<rparr>"

definition chat_request :: "string \<Rightarrow> string \<Rightarrow> json" where
  "chat_request model prompt = JObj [(''model'', JStr model),
     (''messages'', JArr [JObj [(''role'', JStr ''user''), (''content'', JStr prompt)]]), (''stream'', JBool False)]"

fun read_chat_message :: "json \<Rightarrow> (serde_error, string) result" where
  "read_chat_message (JObj m) =
     rbind (once [''role'', ''content''] m) (\<lambda>_. rbind (required ''role'' as_str m) (\<lambda>_. required ''content'' as_str m))"
| "read_chat_message _ = Inl (InvalidValue ''ChatMessage'')"

fun read_chat_response :: "json \<Rightarrow> (serde_error, string option \<times> string option \<times> 32 word option \<times> 32 word option) result" where
  "read_chat_response (JObj m) =
     rbind (once [''message'', ''model'', ''prompt_eval_count'', ''eval_count''] m) (\<lambda>_.
     rbind (nested ''message'' read_chat_message m) (\<lambda>msg.
     rbind (optional ''model'' as_str m) (\<lambda>model.
     rbind (optional ''prompt_eval_count'' as_u32 m) (\<lambda>p.
     rbind (optional ''eval_count'' as_u32 m) (\<lambda>e. Inr (msg, model, p, e))))))"
| "read_chat_response _ = Inl (InvalidValue ''ChatResponse'')"

definition ollama_query :: "'w backend_env \<Rightarrow> ollama_backend \<Rightarrow> string \<Rightarrow> path \<Rightarrow> string option \<Rightarrow> 'w \<Rightarrow> (backend_error, query_output) result \<times> 'w" where
  "ollama_query env b prompt cwd model w =
     (let m = unwrap_or (ol_model b) (opt_filter (\<lambda>m. m \<noteq> []) model) in
      case be_post env (Some (ol_timeout b)) (ol_base_url b @ ''/api/chat'') [] (chat_request m prompt) w of
        (Inl f, w') \<Rightarrow> (Inl (send_error ''Ollama request timed out'' ''Ollama connection failed'' ''Ollama request failed'' '': ''
           (be_elapsed env w w') f), w')
      | (Inr a, w') \<Rightarrow>
          (if \<not> is_success (ha_status a)
           then let msg = ''Ollama error '' @ ha_status_text a @ '': '' @ ha_body a in
             Inl (if ha_status a = 429 then RateLimit msg None else ExecutionFailed msg None)
           else case parse_body env read_chat_response (ha_body a) of
               Inl e \<Rightarrow> Inl (ParseFailed (''Failed to parse Ollama response: '' @ e))
             | Inr (msg, answered, p, e) \<Rightarrow>
                 Inr ((from_text (unwrap_or [] msg) ''ollama'' (be_elapsed env w w'))
                   \<lparr>qo_model := or_else answered (Some m),
                    qo_usage := (case (p, e) of (Some p, Some e) \<Rightarrow> Some (token_usage_new p e) | _ \<Rightarrow> None)\<rparr>), w'))"

subsection \<open>TensorZero\<close>

definition normalize_endpoint :: "string \<Rightarrow> string" where
  "normalize_endpoint raw =
     (let trimmed = trim_end_slashes raw in
      if ends_with trimmed ''/openai/v1'' then trimmed @ ''/'' else trimmed @ ''/openai/v1/'')"

definition canonical_model :: "string \<Rightarrow> string" where
  "canonical_model model =
     (if starts_with model ''tensorzero::'' then model
      else if starts_with model ''function_name::'' \<or> starts_with model ''model_name::'' then ''tensorzero::'' @ model
      else if \<not> contains model ''::'' then ''tensorzero::function_name::'' @ model
      else model)"

definition canonicalize_wire_model :: "string \<Rightarrow> string" where
  "canonicalize_wire_model model = ''loker::'' @ canonical_model model"

text \<open>\<open>c.max(0) as u32\<close>\<close>

definition token_usage_from_genai :: "chat_answer \<Rightarrow> token_usage option" where
  "token_usage_from_genai a =
     (case (ct_prompt_tokens a, ct_completion_tokens a) of
        (Some p, Some c) \<Rightarrow> Some (token_usage_new (word_of_int (max p 0)) (word_of_int (max c 0)))
      | _ \<Rightarrow> None)"

text \<open>The client is given the endpoint, the key, the time, the model on the wire and the prompt.\<close>

definition tensorzero_query :: "'w backend_env \<Rightarrow> tensorzero_opts \<Rightarrow> string \<Rightarrow> path \<Rightarrow> string option \<Rightarrow> 'w \<Rightarrow> (backend_error, query_output) result \<times> 'w" where
  "tensorzero_query env b prompt cwd model w =
     (let m = unwrap_or (to_model b) (opt_filter (\<lambda>m. m \<noteq> []) model) in
      case be_chat env (normalize_endpoint (to_endpoint b)) (unwrap_or [] (to_api_key b)) (to_timeout b) (canonicalize_wire_model m) prompt w of
        (Inl e, w') \<Rightarrow> (Inl (with_elapsed (be_elapsed env w w' div 10 ^ 6) (map_genai_error e)), w')
      | (Inr a, w') \<Rightarrow>
          (Inr ((from_text (unwrap_or [] (ct_text a)) ''tensorzero'' (be_elapsed env w w'))
             \<lparr>qo_model := Some m, qo_usage := token_usage_from_genai a\<rparr>), w'))"

subsection \<open>Properties\<close>

lemma replace_char: "str_replace [c] r s = concat (map (\<lambda>x. if x = c then r else [x]) s)"
proof -
  have "replace_from [c] r 0 s = concat (map (\<lambda>x. if x = c then r else [x]) s)"
    by (induction s) (auto simp: starts_with_iff)
  then show ?thesis by (simp add: str_replace_def)
qed

text \<open>
  How a shell reads a word: up to a blank, with what stands between single quotes as it is and what
  follows a backslash too. Other special characters outside quotes are not words: the result
  is \<open>None\<close>, as it is for a quotation that does not end.
\<close>

fun sh_word :: "bool \<Rightarrow> string \<Rightarrow> (string \<times> string) option" where
  "sh_word True [] = None"
| "sh_word True (c # s) = (if c = quote_mark then sh_word False s else map_option (\<lambda>(v, r). (c # v, r)) (sh_word True s))"
| "sh_word False [] = Some ([], [])"
| "sh_word False [c] = (if c = quote_mark then None else if c = CHR '' '' then Some ([], [])
     else if c \<in> set ''|&;<>()$`*?[]#~=%!{}'' \<union> {CHR 0x5C, CHR 0x22, CHR 0x0A, CHR 0x09} then None else Some ([c], []))"
| "sh_word False (c # d # s) =
     (if c = quote_mark then sh_word True (d # s)
      else if c = CHR '' '' then Some ([], d # s)
      else if c = CHR 0x5C then map_option (\<lambda>(v, r). (d # v, r)) (sh_word False s)
      else if c \<in> set ''|&;<>()$`*?[]#~=%!{}'' \<union> {CHR 0x22, CHR 0x0A, CHR 0x09} then None
      else map_option (\<lambda>(v, r). (c # v, r)) (sh_word False (d # s)))"

lemma sh_open: "u \<noteq> [] \<Longrightarrow> sh_word False (quote_mark # u) = sh_word True u"
  by (cases u) simp_all

lemma shell_escape_Cons:
  "shell_escape (c # s) = (if c = quote_mark then [quote_mark, CHR 0x5C, quote_mark, quote_mark] else [c]) @ shell_escape s"
  by (simp add: shell_escape_def replace_char)

lemma sh_quoted_body:
  "sh_word True (shell_escape s @ quote_mark # t) = map_option (\<lambda>(v, r). (s @ v, r)) (sh_word False t)"
proof (induction s)
  case Nil
  then show ?case by (simp add: shell_escape_def replace_char option.map_ident case_prod_beta)
next
  case (Cons c s)
  show ?case
  proof (cases "c = quote_mark")
    case True
    have "sh_word False (CHR 0x5C # quote_mark # quote_mark # shell_escape s @ quote_mark # t) =
        map_option (\<lambda>(v, r). (quote_mark # v, r)) (sh_word True (shell_escape s @ quote_mark # t))"
      by (simp add: sh_open) (simp add: quote_mark_def)
    with True Cons show ?thesis by (simp add: shell_escape_Cons option.map_comp comp_def case_prod_beta)
  next
    case False
    with Cons show ?thesis by (simp add: shell_escape_Cons option.map_comp comp_def case_prod_beta)
  qed
qed

lemma sh_quoted: "sh_word False (quoted (shell_escape s) @ t) = map_option (\<lambda>(v, r). (s @ v, r)) (sh_word False t)"
  using sh_quoted_body [of s t] sh_open [of "shell_escape s @ quote_mark # t"] by (simp add: quoted_def quote_mark_def)

text \<open>
  C37: Whatever the prompt and the model are, the shell takes each of them for one word that is just
  that text, after a beginning of the command that does not depend on them.
\<close>

theorem gemini_prompt_literal:
  "\<exists>pre. (\<forall>prompt. \<exists>tail. gemini_shell b None prompt = pre @ tail \<and> sh_word False tail = Some (prompt, [])) \<and>
     (\<forall>m prompt. \<exists>tail1 tail2. gemini_shell b (Some m) prompt = pre @ ''--model '' @ tail1 \<and>
        sh_word False tail1 = Some (m, tail2) \<and> sh_word False tail2 = Some (prompt, []))"
proof (intro exI conjI allI)
  let ?pre = "''echo '' @ quoted [] @ '' | '' @ gm_command b @ '' '' @ str_join '' '' (gm_args b) @ '' ''"
  fix m prompt
  have p: "sh_word False (quoted (shell_escape prompt)) = Some (prompt, [])" using sh_quoted [of prompt "[]"] by simp
  then show "gemini_shell b None prompt = ?pre @ quoted (shell_escape prompt)" "sh_word False (quoted (shell_escape prompt)) = Some (prompt, [])"
    by (simp_all add: gemini_shell_def)
  let ?t = "'' '' @ quoted (shell_escape prompt)"
  show "gemini_shell b (Some m) prompt = ?pre @ ''--model '' @ quoted (shell_escape m) @ ?t" by (simp add: gemini_shell_def)
  have "sh_word False ?t = Some ([], quoted (shell_escape prompt))" by (simp add: quoted_def quote_mark_def)
  then show "sh_word False (quoted (shell_escape m) @ ?t) = Some (m, quoted (shell_escape prompt))" using sh_quoted [of m ?t] by simp
  show "sh_word False (quoted (shell_escape prompt)) = Some (prompt, [])" by (rule p)
qed

text \<open>The answer of Codex is the text of the last message, and the output as it is when there is none.\<close>

lemma fold_last: "foldl (\<lambda>acc x. or_else (f x) acc) a xs = or_else (case rev (List.map_filter f xs) of [] \<Rightarrow> None | m # _ \<Rightarrow> Some m) a"
proof (induction xs arbitrary: a)
  case (Cons x xs)
  then show ?case
    by (cases "f x"; cases "rev (List.map_filter f xs)") (auto simp: map_filter_simps)
qed (simp add: map_filter_simps)

theorem codex_last_message:
  "codex_parse js output =
     (case rev (List.map_filter (codex_message js) (str_lines output)) of [] \<Rightarrow> output | m # _ \<Rightarrow> m)"
  by (auto simp: codex_parse_def fold_last split: list.splits)

text \<open>
  The command-line backends return an answer exactly when the process ends with status 0, and never
  an empty model name.
\<close>

lemma codex_answers_iff:
  "fst (codex_query env b prompt cwd model w) = Inr q \<Longrightarrow>
     \<exists>out. fst (be_spawn env (cx_command b) (cx_args b @ model_args (chosen_model model (cx_model b)) @ [''--'', prompt]) cwd w) = Inr out \<and>
       ch_code out = Some 0 \<and> qo_exit_code q = Some 0 \<and> qo_stdout q = codex_parse (be_json env) (from_utf8_lossy (ch_stdout out))"
  by (auto simp: codex_query_def Let_def process_output_def from_process_def exit_code_of_def split: prod.splits sum.splits if_splits)

text \<open>The exit code is kept exactly when the message is not classified.\<close>

lemma process_error_code:
  "process_error label out = ExecutionFailed m c \<Longrightarrow> c = Some (exit_code_of out)"
  by (auto simp: process_error_def error_of_message_def split: backend_error_kind.splits)

text \<open>
  A missing command is unavailable for Codex and Gemini; for Claude the cause is dropped from the
  message, and it is reported as a failed execution.
\<close>

lemma claude_missing_command:
  assumes "be_spawn env cmd ([''-p'', ''--output-format'', ''text''] @ model_args (chosen_model model own) @ [''--'', prompt]) cwd w = (Inl e, w')"
  shows "fst (claude_query env (ClaudeCli cmd own) prompt cwd model w) = Inl (ExecutionFailed ''Failed to execute claude command'' None)"
proof -
  have "error_of_message ''Failed to execute claude command'' = ExecutionFailed ''Failed to execute claude command'' None" by code_simp
  with assms show ?thesis by (simp add: claude_query_def claude_query_cli_def)
qed

text \<open>An endpoint that has been normalized stays as it is, and it ends in the path of the interface.\<close>

lemma trim_slash_idem: "trim_end_slashes (s @ ''/'') = trim_end_slashes s"
  by (simp add: trim_end_slashes_def)

lemma trim_end_slashes_keep: "s \<noteq> [] \<Longrightarrow> last s \<noteq> CHR ''/'' \<Longrightarrow> trim_end_slashes s = s"
  by (cases s rule: rev_cases) (simp_all add: trim_end_slashes_def)

theorem endpoint_normal:
  "ends_with (normalize_endpoint raw) ''/openai/v1/'' \<and> normalize_endpoint (normalize_endpoint raw) = normalize_endpoint raw"
proof -
  obtain t where n: "normalize_endpoint raw = (t @ ''/openai/v1'') @ ''/''"
    by (cases "ends_with (trim_end_slashes raw) ''/openai/v1''")
      (auto simp: normalize_endpoint_def Let_def ends_with_def strip_suffix_eq_Some)
  have "trim_end_slashes (normalize_endpoint raw) = t @ ''/openai/v1''"
    unfolding n trim_slash_idem by (rule trim_end_slashes_keep) simp_all
  moreover have "ends_with (t @ ''/openai/v1'') ''/openai/v1''" by (auto simp: ends_with_def strip_suffix_eq_Some)
  moreover have "ends_with (t @ ''/openai/v1/'') ''/openai/v1/''" by (auto simp: ends_with_def strip_suffix_eq_Some)
  ultimately show ?thesis using n by (simp add: normalize_endpoint_def)
qed

text \<open>
  The client splits a model at its first pair of colons and sends what follows: the function, or the
  canonical name as it was given.
\<close>

lemma wire_model_sent: "find_sub ''::'' (canonicalize_wire_model m) = Some 5 \<and> drop 7 (canonicalize_wire_model m) = canonical_model m"
  by (simp add: canonicalize_wire_model_def starts_with_iff)

lemma canonical_idem:
  "canonical_model (canonical_model m) = canonical_model m"
  by (auto simp: canonical_model_def starts_with_iff)

end
