(* ===== verification/Delegation.thy ===== *)
theory Delegation
  imports RustStr SortOrder "HOL-Library.List_Lexorder" "HOL-Library.Char_ord" "HOL-Library.Product_Lexorder"
begin

text \<open>
  The choice of a backend by the words of a task (\<open>src/delegation.rs\<close>). The profiles are a \<open>HashMap\<close>: the
  order of their list is that of the iteration.
\<close>

datatype task_category = CodeAnalysis | SecurityAudit | DeadCode | Performance | Architecture | General

record backend_profile =
  bp_name :: string
  bp_strengths :: "task_category list"
  bp_style :: string

definition default_profiles :: "backend_profile list" where
  "default_profiles =
     [\<lparr>bp_name = ''codex'', bp_strengths = [CodeAnalysis, DeadCode, Performance, General],
        bp_style = ''Efficient, direct answers. Good for pattern matching and quick analysis.''\<rparr>,
      \<lparr>bp_name = ''gemini'', bp_strengths = [SecurityAudit, Architecture, General],
        bp_style = ''Thorough, investigative. Goes deep with multi-step analysis.''\<rparr>,
      \<lparr>bp_name = ''claude'', bp_strengths = [General, Architecture, CodeAnalysis],
        bp_style = ''Balanced, good at orchestration and nuanced analysis.''\<rparr>]"

definition classify_task :: "string \<Rightarrow> task_category list" where
  "classify_task prompt =
     (let has = contains (to_lowercase prompt);
          found =
            (if has ''n+1'' \<or> has ''query'' \<or> has ''code smell'' \<or> has ''refactor'' \<or> has ''pattern'' then [CodeAnalysis] else []) @
            (if has ''security'' \<or> has ''injection'' \<or> has ''xss'' \<or> has ''auth'' \<or> has ''vulnerability'' \<or> has ''audit''
             then [SecurityAudit] else []) @
            (if has ''dead code'' \<or> has ''unused'' \<or> has ''remove'' \<or> has ''cleanup'' then [DeadCode] else []) @
            (if has ''performance'' \<or> has ''slow'' \<or> has ''optimize'' \<or> has ''speed'' then [Performance] else []) @
            (if has ''architecture'' \<or> has ''design'' \<or> has ''structure'' \<or> has ''organize'' then [Architecture] else [])
      in if found = [] then [General] else found)"

fun index_of :: "'a \<Rightarrow> 'a list \<Rightarrow> nat option" where
  "index_of x [] = None"
| "index_of x (y # ys) = (if y = x then Some 0 else map_option Suc (index_of x ys))"

definition profile_score :: "task_category list \<Rightarrow> backend_profile \<Rightarrow> nat" where
  "profile_score categories p =
     sum_list (List.map_filter (\<lambda>cat. map_option (\<lambda>pos. 10 - min pos 9) (index_of cat (bp_strengths p))) categories)"

definition recommend :: "backend_profile list \<Rightarrow> string \<Rightarrow> backend_profile list" where
  "recommend profiles prompt =
     (let cats = classify_task prompt in
      sort_key (\<lambda>p. (- int (profile_score cats p), bp_name p)) (filter (\<lambda>p. profile_score cats p > 0) profiles))"

definition best_for :: "backend_profile list \<Rightarrow> string \<Rightarrow> string option" where
  "best_for profiles prompt = (case recommend profiles prompt of [] \<Rightarrow> None | p # _ \<Rightarrow> Some (bp_name p))"

fun category_str :: "task_category \<Rightarrow> string" where
  "category_str CodeAnalysis = ''CodeAnalysis''"
| "category_str SecurityAudit = ''SecurityAudit''"
| "category_str DeadCode = ''DeadCode''"
| "category_str Performance = ''Performance''"
| "category_str Architecture = ''Architecture''"
| "category_str General = ''General''"

text \<open>The upper case of a name is an argument: it is that of Unicode.\<close>

definition explain_task :: "(string \<Rightarrow> string) \<Rightarrow> backend_profile list \<Rightarrow> string \<Rightarrow> string" where
  "explain_task upper profiles prompt =
     ''Task categories detected: ['' @ str_join '', '' (map (debug_str \<circ> category_str) (classify_task prompt)) @ '']'' @ [CHR 0x0A, CHR 0x0A] @
     ''Recommended backends:'' @ [CHR 0x0A] @
     concat (map (\<lambda>(i, p). nat_str (i + 1) @ ''. '' @ upper (bp_name p) @ '' - '' @ bp_style p @ [CHR 0x0A])
       (enumerate 0 (recommend profiles prompt)))"

subsection \<open>Properties\<close>

lemma classify_nonempty: "classify_task prompt \<noteq> []"
  by (simp add: classify_task_def Let_def)

text \<open>The recommendation is the same in every order of the profiles, when their names differ.\<close>

theorem recommend_any_order:
  assumes "mset ps = mset qs" "distinct (map bp_name ps)"
  shows "recommend ps prompt = recommend qs prompt"
proof -
  let ?s = "profile_score (classify_task prompt)"
  let ?k = "\<lambda>p. (- int (?s p), bp_name p)" and ?f = "filter (\<lambda>p. ?s p > 0)"
  from assms(2) have "inj_on bp_name (set ps)" by (simp add: distinct_map)
  then have "inj_on ?k (set (?f ps))" by (auto simp: inj_on_def)
  moreover have "mset (?f qs) = mset (?f ps)" using assms(1) by simp
  ultimately have "sort_key ?k (?f qs) = sort_key ?k (?f ps)" by (intro sort_key_perm)
  then show ?thesis by (simp add: recommend_def Let_def)
qed

text \<open>
  The first recommendation has the highest score, and among those the least name; there is one
  exactly when some profile has a strength that the task asks for.
\<close>

theorem best_for_spec:
  "(best_for ps prompt = None \<longleftrightarrow> (\<forall>p \<in> set ps. set (classify_task prompt) \<inter> set (bp_strengths p) = {})) \<and>
   (\<forall>n. best_for ps prompt = Some n \<longrightarrow> (\<exists>p \<in> set ps. bp_name p = n \<and>
      (\<forall>q \<in> set ps. profile_score (classify_task prompt) q \<le> profile_score (classify_task prompt) p \<and>
         (profile_score (classify_task prompt) q = profile_score (classify_task prompt) p \<longrightarrow> n \<le> bp_name q))))"
proof (intro conjI allI impI)
  let ?c = "classify_task prompt"
  let ?k = "\<lambda>p. (- int (profile_score ?c p), bp_name p)"
  let ?r = "recommend ps prompt"
  have "index_of x xs = None \<longleftrightarrow> x \<notin> set xs" for x and xs :: "task_category list" by (induction xs) auto
  then have index: "index_of x xs = None \<Longrightarrow> x \<notin> set xs" "index_of x xs = Some n \<Longrightarrow> x \<in> set xs" for x n and xs :: "task_category list"
    by (metis, metis option.distinct(1))
  have pos: "profile_score cs p > 0 \<longleftrightarrow> set cs \<inter> set (bp_strengths p) \<noteq> {}" for cs p
    by (induction cs) (auto simp: profile_score_def map_filter_simps split: option.splits dest: index)
  have r: "set ?r = {p \<in> set ps. profile_score ?c p > 0}" by (auto simp: recommend_def Let_def)
  show "best_for ps prompt = None \<longleftrightarrow> (\<forall>p \<in> set ps. set ?c \<inter> set (bp_strengths p) = {})"
  proof -
    have "best_for ps prompt = None \<longleftrightarrow> set ?r = {}" by (auto simp: best_for_def split: list.splits)
    then show ?thesis using r pos by auto
  qed
  fix n assume "best_for ps prompt = Some n"
  then obtain p rest where p: "?r = p # rest" "bp_name p = n" by (auto simp: best_for_def split: list.splits)
  have "sorted (map ?k ?r)" by (simp add: recommend_def Let_def)
  with p(1) have least: "\<forall>q \<in> set ?r. ?k p \<le> ?k q" by auto
  have "p \<in> set ps" "profile_score ?c p > 0" using r p(1) by auto
  moreover have "profile_score ?c q \<le> profile_score ?c p \<and> (profile_score ?c q = profile_score ?c p \<longrightarrow> n \<le> bp_name q)"
    if "q \<in> set ps" for q
    using least r that p(2) \<open>profile_score ?c p > 0\<close> by (cases "profile_score ?c q > 0") (auto simp: less_eq_prod_def)
  ultimately show "\<exists>p \<in> set ps. bp_name p = n \<and> (\<forall>q \<in> set ps. profile_score ?c q \<le> profile_score ?c p \<and>
         (profile_score ?c q = profile_score ?c p \<longrightarrow> n \<le> bp_name q))"
    using p(2) by blast
qed

lemma best_for_examples:
  "best_for default_profiles ''Find N+1 problems'' = Some ''codex''"
  "best_for default_profiles ''hello'' = Some ''claude''"
  by code_simp+

end
