(* ===== verification/Pool.thy ===== *)
theory Pool
  imports Backends Delegation Steps
begin

text \<open>
  The backends of a configuration and a query of them all (\<open>src/backend/mod.rs\<close>), and the commands
  \<open>ask\<close>, with its cache, and \<open>smart\<close>, with its roles (\<open>src/main.rs\<close>). What is printed is left out. The
  limit on the time of a query and the joining of concurrent queries are arguments; the entries
  of the configuration come in the order of their list, for the arbitrary one of a \<open>HashMap\<close>.
\<close>

subsection \<open>Creating backends\<close>

definition policy_of :: "backend_config \<Rightarrow> defaults_config \<Rightarrow> retry_policy" where
  "policy_of c d = \<lparr>rp_max_retries = unwrap_or (df_max_retries d) (bc_max_retries c),
     rp_base_delay = unat (unwrap_or (df_retry_delay_ms d) (bc_retry_delay_ms c)) * 10 ^ 6, rp_max_delay = 30 * 10 ^ 9\<rparr>"

definition trimmed :: "string option \<Rightarrow> string option" where
  "trimmed s = opt_filter (\<lambda>t. t \<noteq> []) (map_option trim s)"

definition tensorzero_opts_of :: "'w backend_env \<Rightarrow> backend_config \<Rightarrow> (string, tensorzero_opts) result" where
  "tensorzero_opts_of env c =
     (case trimmed (bc_command c) of
        None \<Rightarrow> Inl ''tensorzero backend requires command endpoint''
      | Some endpoint \<Rightarrow> (case be_scheme env endpoint of
            Inl e \<Rightarrow> Inl (''tensorzero backend endpoint: not a valid URL: '' @ e)
          | Inr scheme \<Rightarrow>
              if scheme \<noteq> ''http'' \<and> scheme \<noteq> ''https'' then Inl ''tensorzero backend endpoint: scheme must be http or https''
              else (case trimmed (bc_model c) of
                  None \<Rightarrow> Inl ''tensorzero backend requires model''
                | Some model \<Rightarrow>
                    let secs = unwrap_or 60 (bc_timeout c) in
                    if secs = 0 then Inl ''tensorzero backend timeout must be greater than zero''
                    else rbind (api_key_of (be_var env) (bc_api_key_env c)) (\<lambda>key.
                      Inr \<lparr>to_endpoint = endpoint, to_model = model, to_api_key = key, to_timeout = unat secs * 10 ^ 9\<rparr>))))"

text \<open>A backend of the pool; its query may panic, in the arithmetic of the delays.\<close>

record 'w pool_backend =
  pb_name :: string
  pb_query :: "string \<Rightarrow> path \<Rightarrow> string option \<Rightarrow> 'w \<Rightarrow> (backend_error, query_output) result option \<times> 'w"
  pb_available :: bool

definition plain_pool_backend ::
  "string \<Rightarrow> (string \<Rightarrow> path \<Rightarrow> string option \<Rightarrow> 'w \<Rightarrow> (backend_error, query_output) result \<times> 'w) \<Rightarrow> bool \<Rightarrow> 'w pool_backend" where
  "plain_pool_backend name query available = \<lparr>pb_name = name,
     pb_query = (\<lambda>p d m w. case query p d m w of (r, w') \<Rightarrow> (Some r, w')), pb_available = available\<rparr>"

definition inner_backend :: "'w backend_env \<Rightarrow> string \<Rightarrow> backend_config \<Rightarrow> (string, 'w backend \<times> bool) result" where
  "inner_backend env name c =
     (if name = ''codex'' then let b = codex_new c in
        Inr (\<lparr>bk_name = name, bk_query = codex_query env b\<rparr>, be_which env (cx_command b))
      else if name = ''gemini'' then let b = gemini_new c in
        Inr (\<lparr>bk_name = name, bk_query = gemini_query env b\<rparr>, be_which env (gm_command b))
      else if name = ''claude'' then rbind (claude_new (be_var env) c) (\<lambda>b.
        Inr (\<lparr>bk_name = name, bk_query = claude_query env b\<rparr>, claude_available env b))
      else if name = ''ollama'' then Inr (\<lparr>bk_name = name, bk_query = ollama_query env (ollama_new c)\<rparr>, True)
      else if name = ''tensorzero'' then rbind (tensorzero_opts_of env c) (\<lambda>b.
        Inr (\<lparr>bk_name = name, bk_query = tensorzero_query env b\<rparr>, True))
      else if name = ''bedrock'' then
        Inl ''Bedrock backend requires the 'bedrock' feature. Rebuild with: cargo build --features bedrock''
      else Inl (''Unknown backend: '' @ name))"

definition create_backend ::
  "bool \<Rightarrow> (nat \<Rightarrow> nat) \<Rightarrow> 'w backend_env \<Rightarrow> string \<Rightarrow> backend_config \<Rightarrow> retry_policy \<Rightarrow> (string, 'w pool_backend) result" where
  "create_backend checked jitter env name c policy =
     rbind (inner_backend env name c) (\<lambda>(b, available).
       Inr (if rp_max_retries policy > 0
         then \<lparr>pb_name = bk_name b,
            pb_query = (\<lambda>p d m w. case retry_query checked jitter policy b p d m w of ((r, _), w') \<Rightarrow> (r, w')), pb_available = available\<rparr>
         else plain_pool_backend (bk_name b) (bk_query b) available))"

record 'w pool_env =
  po_backend :: "'w backend_env"
  po_checked :: bool
  po_jitter :: "nat \<Rightarrow> nat"
  po_timeout :: "nat \<Rightarrow> ('w \<Rightarrow> (backend_error, query_output) result option \<times> 'w) \<Rightarrow> 'w \<Rightarrow>
      ((backend_error, query_output) result option option \<times> 64 word) \<times> 'w"
  po_join :: "('w \<Rightarrow> query_result option \<times> 'w) list \<Rightarrow> 'w \<Rightarrow> query_result option list \<times> 'w"
  po_canonical :: "path \<Rightarrow> path"

definition selected :: "string option \<Rightarrow> string \<times> backend_config \<Rightarrow> bool" where
  "selected flt e \<longleftrightarrow> bc_enabled (snd e) \<and> (case flt of None \<Rightarrow> True | Some f \<Rightarrow> fst e \<in> set (split_comma f))"

definition usable_backend :: "'w pool_env \<Rightarrow> config \<Rightarrow> string \<times> backend_config \<Rightarrow> 'w pool_backend option" where
  "usable_backend env cfg e =
     (case create_backend (po_checked env) (po_jitter env) (po_backend env) (fst e) (snd e) (policy_of (snd e) (cf_defaults cfg)) of
        Inr b \<Rightarrow> if pb_available b then Some b else None
      | Inl _ \<Rightarrow> None)"

definition configured_backends :: "'w pool_env \<Rightarrow> config \<Rightarrow> string option \<Rightarrow> (string, 'w pool_backend list) result" where
  "configured_backends env cfg flt =
     (let bs = List.map_filter (usable_backend env cfg) (filter (selected flt) (cf_backends cfg)) in
      if bs = [] then Inl ''No backends available'' else Inr bs)"

subsection \<open>Querying them\<close>

definition timeout_of :: "config \<Rightarrow> string \<Rightarrow> nat" where
  "timeout_of cfg name =
     (let t = unat (unwrap_or (df_timeout (cf_defaults cfg)) (Option.bind (map_of (cf_backends cfg) name) bc_timeout)) in
      if t = 0 then a_year else t)"

definition query_one :: "'w pool_env \<Rightarrow> 'w pool_backend \<Rightarrow> string \<Rightarrow> path \<Rightarrow> nat \<Rightarrow> 'w \<Rightarrow> query_result option \<times> 'w" where
  "query_one env b prompt cwd timeout w =
     (case po_timeout env timeout (pb_query b prompt cwd None) w of
        ((r, ms), w') \<Rightarrow>
          (case r of
             Some None \<Rightarrow> None
           | Some (Some (Inr out)) \<Rightarrow> Some \<lparr>qr_backend = pb_name b, qr_output = qo_stdout out, qr_success = True,
               qr_elapsed_ms = ms, qr_error = None\<rparr>
           | Some (Some (Inl e)) \<Rightarrow> Some \<lparr>qr_backend = pb_name b, qr_output = ''Error: '' @ backend_error_str e, qr_success = False,
               qr_elapsed_ms = ms, qr_error = Some e\<rparr>
           | None \<Rightarrow> let e = Timeout (''Timeout ('' @ nat_str timeout @ ''s)'') ms in
               Some \<lparr>qr_backend = pb_name b, qr_output = ''Error: '' @ backend_error_str e, qr_success = False,
                 qr_elapsed_ms = ms, qr_error = Some e\<rparr>, w'))"

text \<open>One after the other; a panic ends the program.\<close>

fun run_in_turn :: "('w \<Rightarrow> query_result option \<times> 'w) list \<Rightarrow> 'w \<Rightarrow> query_result list option \<times> 'w" where
  "run_in_turn [] w = (Some [], w)"
| "run_in_turn (f # fs) w =
     (case f w of
        (None, w') \<Rightarrow> (None, w')
      | (Some r, w') \<Rightarrow> (case run_in_turn fs w' of (rs, w2) \<Rightarrow> (map_option ((#) r) rs, w2)))"

definition all_some :: "'a option list \<Rightarrow> 'a list option" where
  "all_some xs = (if None \<in> set xs then None else Some (List.map_filter id xs))"

definition run_query :: "'w pool_env \<Rightarrow> 'w pool_backend list \<Rightarrow> string \<Rightarrow> path \<Rightarrow> config \<Rightarrow> 'w \<Rightarrow> query_result list option \<times> 'w" where
  "run_query env bs prompt cwd cfg w =
     (let fs = map (\<lambda>b. query_one env b prompt (po_canonical env cwd) (timeout_of cfg (pb_name b))) bs in
      if df_parallel (cf_defaults cfg) then (case po_join env fs w of (rs, w') \<Rightarrow> (all_some rs, w'))
      else run_in_turn fs w)"

subsection \<open>The commands ask and smart\<close>

text \<open>The cache is emptied of its warnings when they are printed.\<close>

definition ask ::
  "'w pool_env \<Rightarrow> 'w cache_env \<Rightarrow> path option \<Rightarrow> config \<Rightarrow> string \<Rightarrow> string option \<Rightarrow> path \<Rightarrow> bool \<Rightarrow> 'w \<Rightarrow>
     (string, query_result list) result option \<times> 'w" where
  "ask env ce cache_dir cfg prompt backend dir no_cache w =
     (case configured_backends env cfg backend of
        Inl e \<Rightarrow> (Some (Inl e), w)
      | Inr bs \<Rightarrow> (case cache_new (ce_checks ce) cache_dir (cf_cache cfg) of
            None \<Rightarrow> (None, w)
          | Some c \<Rightarrow>
              let key = cache_key (ce_sha ce) prompt (map pb_name bs) (po_canonical env dir) in
              (case (if no_cache then (Some None, (c, w)) else cache_get ce key (c, w)) of
                 (None, (_, w1)) \<Rightarrow> (None, w1)
               | (Some (Some rs), (_, w1)) \<Rightarrow> (Some (Inr rs), w1)
               | (Some None, (c1, w1)) \<Rightarrow> (case run_query env bs prompt dir cfg w1 of
                     (None, w2) \<Rightarrow> (None, w2)
                   | (Some rs, w2) \<Rightarrow> (Some (Inr rs), if no_cache then w2 else snd (cache_set ce key rs (c1, w2)))))))"

definition available_names :: "'w pool_env \<Rightarrow> config \<Rightarrow> string list" where
  "available_names env cfg = (case configured_backends env cfg None of Inr bs \<Rightarrow> map pb_name bs | Inl _ \<Rightarrow> [])"

definition delegated :: "'w pool_env \<Rightarrow> config \<Rightarrow> backend_profile list \<Rightarrow> string \<Rightarrow> string \<Rightarrow> resolution" where
  "delegated env cfg profiles role prompt =
     (resolution_new role)\<lparr>re_backends :=
        (case List.find (\<lambda>p. is_ok (configured_backends env cfg (Some (bp_name p)))) (recommend profiles prompt) of
           Some p \<Rightarrow> [bp_name p] | None \<Rightarrow> []),
      re_strategy := RouteFirst\<rparr>"

definition strategy_config :: "routing \<Rightarrow> config \<Rightarrow> config" where
  "strategy_config s cfg =
     (let d = cf_defaults cfg in
      case s of
        RouteParallel _ t \<Rightarrow> cfg\<lparr>cf_defaults := d\<lparr>df_parallel := True, df_timeout := unwrap_or (df_timeout d) t\<rparr>\<rparr>
      | RouteFirst \<Rightarrow> cfg\<lparr>cf_defaults := d\<lparr>df_parallel := False\<rparr>\<rparr>
      | RouteFallback t \<Rightarrow> cfg\<lparr>cf_defaults := d\<lparr>df_parallel := False, df_timeout := unwrap_or (df_timeout d) t\<rparr>\<rparr>)"

definition resolver_of :: "config \<Rightarrow> role_resolver" where
  "resolver_of cfg = \<lparr>rr_roles = cf_roles cfg, rr_teams = cf_teams cfg, rr_default_team = df_team (cf_defaults cfg)\<rparr>"

definition smart_resolution ::
  "'w pool_env \<Rightarrow> config \<Rightarrow> backend_profile list \<Rightarrow> string \<Rightarrow> string option \<Rightarrow> string \<Rightarrow> (string, resolution) result" where
  "smart_resolution env cfg profiles prompt team role =
     (case resolve_role (resolver_of cfg) role team (available_names env cfg) of
        Inr res \<Rightarrow> Inr res
      | Inl (RoleNotFound _) \<Rightarrow> Inr (delegated env cfg profiles role prompt)
      | Inl e \<Rightarrow> Inl (''Role resolution failed: '' @ role_error_str e))"

definition smart ::
  "'w pool_env \<Rightarrow> config \<Rightarrow> backend_profile list \<Rightarrow> string \<Rightarrow> path \<Rightarrow> string option \<Rightarrow> string \<Rightarrow> 'w \<Rightarrow>
     (string, query_result list) result option \<times> 'w" where
  "smart env cfg profiles prompt dir team role w =
     (case rbind (smart_resolution env cfg profiles prompt team role) (\<lambda>res.
         rbind (configured_backends env cfg (if re_backends res = [] then None else Some (str_join '','' (re_backends res)))) (\<lambda>bs.
         Inr (res, bs))) of
        Inl e \<Rightarrow> (Some (Inl e), w)
      | Inr (res, bs) \<Rightarrow> (case run_query env bs prompt dir (strategy_config (re_strategy res) cfg) w of
            (None, w') \<Rightarrow> (None, w')
          | (Some rs, w') \<Rightarrow> (Some (Inr rs), w')))"

subsection \<open>Properties\<close>

text \<open>What \<open>join_all\<close> promises: one result for each future, in their order, which the future gave.\<close>

definition join_ok :: "(('w \<Rightarrow> 'r \<times> 'w) list \<Rightarrow> 'w \<Rightarrow> 'r list \<times> 'w) \<Rightarrow> bool" where
  "join_ok join \<longleftrightarrow> (\<forall>fs w. list_all2 (\<lambda>r f. \<exists>w1. r = fst (f w1)) (fst (join fs w)) fs)"

definition well_reported :: "query_result \<Rightarrow> bool" where
  "well_reported r \<longleftrightarrow> (qr_success r \<longleftrightarrow> qr_error r = None) \<and> (\<forall>e. qr_error r = Some e \<longrightarrow> qr_output r = ''Error: '' @ backend_error_str e)"

lemma query_one_reports:
  "fst (query_one env b prompt cwd timeout w) = Some r \<Longrightarrow> qr_backend r = pb_name b \<and> well_reported r"
  by (auto simp: query_one_def well_reported_def Let_def split: prod.splits option.splits sum.splits)

lemma in_turn_results:
  "run_in_turn fs w = (Some rs, w') \<Longrightarrow> list_all2 (\<lambda>r f. \<exists>w1. Some r = fst (f w1)) rs fs"
proof (induction fs arbitrary: w rs w')
  case (Cons f fs)
  obtain r w1 where f: "f w = (r, w1)" by (rule prod.exhaust)
  obtain q w2 where q: "run_in_turn fs w1 = (q, w2)" by (rule prod.exhaust)
  from Cons.prems f q obtain x xs where "r = Some x" "q = Some xs" "rs = x # xs" by (cases r; cases q) auto
  with Cons.IH [of w1 xs w2] q f show ?case by (auto intro: exI [of _ w])
qed simp

lemma all_some_eq: "all_some xs = Some ys \<longleftrightarrow> xs = map Some ys"
proof (induction xs arbitrary: ys)
  case (Cons x xs)
  show ?case by (cases x; cases ys) (auto simp: all_some_def map_filter_simps Cons.IH [unfolded all_some_def, symmetric] split: if_splits)
qed (auto simp: all_some_def map_filter_simps)

lemma run_query_results:
  assumes "join_ok (po_join env)" "run_query env bs prompt cwd cfg w = (Some rs, w')"
  shows "list_all2 (\<lambda>r b. qr_backend r = pb_name b \<and> well_reported r) rs bs"
proof -
  let ?fs = "map (\<lambda>b. query_one env b prompt (po_canonical env cwd) (timeout_of cfg (pb_name b))) bs"
  have "list_all2 (\<lambda>r f. \<exists>w1. Some r = fst (f w1)) rs ?fs"
  proof (cases "df_parallel (cf_defaults cfg)")
    case True
    obtain qs w1 where j: "po_join env ?fs w = (qs, w1)" by (rule prod.exhaust)
    with assms(2) True have "qs = map Some rs" by (simp add: run_query_def Let_def all_some_eq)
    moreover have "list_all2 (\<lambda>r f. \<exists>w1. r = fst (f w1)) qs ?fs" using assms(1) [unfolded join_ok_def, rule_format, of ?fs w] j by simp
    ultimately show ?thesis by (simp add: list_all2_map1)
  next
    case False
    with assms(2) have "run_in_turn ?fs w = (Some rs, w')" by (simp add: run_query_def Let_def)
    then show ?thesis by (rule in_turn_results)
  qed
  then have "list_all2 (\<lambda>r b. \<exists>w1. Some r = fst (query_one env b prompt (po_canonical env cwd) (timeout_of cfg (pb_name b)) w1)) rs bs"
    by (simp add: list_all2_map2)
  then show ?thesis by (rule list_all2_mono) (metis query_one_reports)
qed

text \<open>
  A query of several backends, in turn or at once, has one result for each, in their order; it is a
  success exactly when it has no error.
\<close>

theorem run_query_complete:
  assumes "join_ok (po_join env)" "run_query env bs prompt cwd cfg w = (Some rs, w')"
  shows "map qr_backend rs = map pb_name bs \<and> list_all well_reported rs"
  using run_query_results [OF assms] by (induction rs bs rule: list_all2_induct) auto

lemma created_name: "create_backend checked jitter env name c policy = Inr b \<Longrightarrow> pb_name b = name"
  by (auto simp: create_backend_def inner_backend_def plain_pool_backend_def Let_def rbind_Inr split: if_splits)

lemma usable_name: "usable_backend env cfg e = Some b \<Longrightarrow> pb_name b = fst e"
  by (auto simp: usable_backend_def created_name split: sum.splits if_splits)

lemma usable_names:
  "map pb_name (List.map_filter (usable_backend env cfg) es) = map fst (filter (\<lambda>e. usable_backend env cfg e \<noteq> None) es)"
  by (induction es) (auto simp: map_filter_simps usable_name split: option.splits)

lemma available_names_eq:
  "available_names env cfg = map fst (filter (\<lambda>e. bc_enabled (snd e) \<and> usable_backend env cfg e \<noteq> None) (cf_backends cfg))"
proof -
  let ?bs = "List.map_filter (usable_backend env cfg) (filter (selected None) (cf_backends cfg))"
  have "available_names env cfg = map pb_name ?bs"
    by (simp add: available_names_def configured_backends_def Let_def)
  also have "\<dots> = map fst (filter (\<lambda>e. usable_backend env cfg e \<noteq> None) (filter (selected None) (cf_backends cfg)))"
    by (rule usable_names)
  finally show ?thesis by (simp add: selected_def conj_commute)
qed

text \<open>A filter picks among the backends that are available without it, in the order of the configuration.\<close>

lemma configured_names:
  assumes "configured_backends env cfg (Some f) = Inr bs"
  shows "map pb_name bs = filter (\<lambda>n. n \<in> set (split_comma f)) (available_names env cfg)"
proof -
  from assms have "bs = List.map_filter (usable_backend env cfg) (filter (selected (Some f)) (cf_backends cfg))"
    by (auto simp: configured_backends_def Let_def split: if_splits)
  then have "map pb_name bs = map fst (filter (\<lambda>e. usable_backend env cfg e \<noteq> None) (filter (selected (Some f)) (cf_backends cfg)))"
    by (simp only: usable_names)
  then show ?thesis
    by (simp add: available_names_eq filter_map comp_def selected_def conj_ac)
qed

lemma split_comma_ne [simp]: "split_comma s \<noteq> []"
  by (induction s) (auto split: list.splits)

lemma split_comma_plain: "CHR '','' \<notin> set s \<Longrightarrow> split_comma s = [s]"
  by (induction s) auto

lemma split_comma_append: "CHR '','' \<notin> set s \<Longrightarrow> split_comma (s @ CHR '','' # t) = s # split_comma t"
  by (induction s) (auto split: list.splits)

lemma split_join: "xs \<noteq> [] \<Longrightarrow> \<forall>x \<in> set xs. CHR '','' \<notin> set x \<Longrightarrow> split_comma (str_join '','' xs) = xs"
proof (induction xs)
  case (Cons x xs)
  then show ?case by (cases xs) (simp_all add: split_comma_plain split_comma_append)
qed simp

text \<open>
  The command \<open>smart\<close> asks every available backend of the role, whatever its strategy: it does not stop
  at the first success or at a quorum, and it keeps the order of the configuration and not
  that of the role.
\<close>

theorem smart_asks_every_backend:
  assumes "smart env cfg profiles prompt dir team role w = (Some (Inr rs), w')" "join_ok (po_join env)"
    and "resolve_role (resolver_of cfg) role team (available_names env cfg) = Inr res"
    and "\<forall>n \<in> set (re_backends res). CHR '','' \<notin> set n"
  shows "map qr_backend rs = filter (\<lambda>n. n \<in> set (re_backends res)) (available_names env cfg)"
proof -
  from assms(3) have ne: "re_backends res \<noteq> []" by (auto simp: resolve_role_def Let_def split: option.splits if_splits)
  have "smart_resolution env cfg profiles prompt team role = Inr res" using assms(3) by (simp add: smart_resolution_def)
  with assms(1) ne obtain bs where bs: "configured_backends env cfg (Some (str_join '','' (re_backends res))) = Inr bs"
    and q: "run_query env bs prompt dir (strategy_config (re_strategy res) cfg) w = (Some rs, w')"
    by (auto simp: smart_def rbind_def split: sum.splits prod.splits option.splits)
  from run_query_results [OF assms(2) q] have "map qr_backend rs = map pb_name bs"
    by (induction rs bs rule: list_all2_induct) auto
  with configured_names [OF bs] split_join [OF ne assms(4)] show ?thesis by simp
qed

text \<open>An answer from the cache asks no backend and changes nothing.\<close>

lemma ask_cached:
  assumes "configured_backends env cfg backend = Inr bs" "cache_new (ce_checks ce) cache_dir (cf_cache cfg) = Some c"
    and "cache_get ce (cache_key (ce_sha ce) prompt (map pb_name bs) (po_canonical env dir)) (c, w) = (Some (Some rs), (c', w1))"
  shows "ask env ce cache_dir cfg prompt backend dir False w = (Some (Inr rs), w1) \<and> w1 = w"
proof -
  from assms(3) have "w1 = w"
    by (auto simp: cache_get_def Let_def split: if_splits sum.splits option.splits io_error.splits prod.splits)
  with assms show ?thesis by (simp add: ask_def Let_def)
qed

subsection \<open>Examples\<close>

text \<open>Two command-line backends that always answer, and a role that prefers the second of them.\<close>

fun demo_join :: "('w \<Rightarrow> 'r \<times> 'w) list \<Rightarrow> 'w \<Rightarrow> 'r list \<times> 'w" where
  "demo_join [] w = ([], w)"
| "demo_join (f # fs) w = (case f w of (r, w1) \<Rightarrow> (case demo_join fs w1 of (rs, w2) \<Rightarrow> (r # rs, w2)))"

lemma demo_join_ok: "join_ok (demo_join :: ('w \<Rightarrow> 'r \<times> 'w) list \<Rightarrow> _)"
proof -
  have "list_all2 (\<lambda>r f. \<exists>w1. r = fst (f w1)) (fst (demo_join fs w)) fs" for fs :: "('w \<Rightarrow> 'r \<times> 'w) list" and w
  proof (induction fs arbitrary: w)
    case (Cons f fs)
    obtain r w1 where f: "f w = (r, w1)" by (rule prod.exhaust)
    obtain rs w2 where "demo_join fs w1 = (rs, w2)" by (rule prod.exhaust)
    with Cons.IH [of w1] f show ?case by (auto intro: exI [of _ w])
  qed simp
  then show ?thesis by (simp add: join_ok_def)
qed

definition demo_backend_env :: "unit backend_env" where
  "demo_backend_env = \<lparr>be_spawn = (\<lambda>_ _ _ w. (Inr \<lparr>ch_code = Some 0, ch_stdout = [], ch_stderr = []\<rparr>, w)),
     be_post = (\<lambda>_ _ _ _ w. (Inl (HttpFailed []), w)), be_chat = (\<lambda>_ _ _ _ _ w. (Inl (OtherError []), w)), be_elapsed = (\<lambda>_ _. 0),
     be_which = (\<lambda>_. True), be_var = (\<lambda>_. None), be_json = \<lparr>js_parse = (\<lambda>_. Inl []), js_show = (\<lambda>_. [])\<rparr>,
     be_serde_str = (\<lambda>_. []), be_scheme = (\<lambda>_. Inl [])\<rparr>"

definition demo_pool :: "unit pool_env" where
  "demo_pool = \<lparr>po_backend = demo_backend_env, po_checked = False, po_jitter = id,
     po_timeout = (\<lambda>_ f w. case f w of (r, w') \<Rightarrow> ((Some r, 7), w')), po_join = demo_join, po_canonical = id\<rparr>"

definition demo_pool_config :: config where
  "demo_pool_config = \<lparr>cf_defaults = default_defaults\<lparr>df_parallel := False\<rparr>, cf_conductor = default_conductor, cf_cache = default_cache_config,
     cf_tensorzero = None, cf_backends = [(''codex'', plain_backend ''codex''), (''gemini'', plain_backend ''npx'')], cf_tasks = [],
     cf_roles = [(''fix'', \<lparr>ro_backends = [''gemini'', ''codex''], ro_strategy = RouteFirst\<rparr>)], cf_teams = [],
     cf_keep_attempts = Unbounded\<rparr>"

lemma demo_answers:
  "\<exists>rs w'. run_in_turn (map (\<lambda>b. query_one demo_pool b prompt cwd (t b)) (map (\<lambda>(n, q). plain_pool_backend n q True) qs)) w = (Some rs, w')"
proof (induction qs arbitrary: w)
  case (Cons nq qs)
  obtain n q where nq: "nq = (n, q)" by (cases nq)
  obtain r w1 where "q prompt cwd None w = (r, w1)" by (rule prod.exhaust)
  with Cons.IH [of w1] show ?case
    by (cases r) (auto simp: nq query_one_def demo_pool_def plain_pool_backend_def Let_def)
qed simp

lemma demo_names: "available_names demo_pool demo_pool_config = [''codex'', ''gemini'']"
  by (simp add: available_names_eq demo_pool_config_def usable_backend_def create_backend_def inner_backend_def plain_backend_def
      plain_pool_backend_def demo_pool_def demo_backend_env_def policy_of_def default_defaults_def codex_new_def gemini_new_def Let_def)

lemma demo_role:
  "resolve_role (resolver_of demo_pool_config) ''fix'' None (available_names demo_pool demo_pool_config) =
     Inr \<lparr>re_role = ''fix'', re_team = None, re_backends = [''gemini'', ''codex''], re_strategy = RouteFirst, re_from_team = False\<rparr>"
  unfolding demo_names by (simp add: resolve_role_def resolver_of_def demo_pool_config_def active_team_def default_defaults_def team_role_def
      resolution_new_def Let_def)

lemma demo_configured:
  "configured_backends demo_pool demo_pool_config (Some ''gemini,codex'') =
     Inr (map (\<lambda>(n, q). plain_pool_backend n q True)
       [(''codex'', codex_query demo_backend_env (codex_new (plain_backend ''codex''))),
        (''gemini'', gemini_query demo_backend_env (gemini_new (plain_backend ''npx'')))])"
  by (simp add: configured_backends_def selected_def demo_pool_config_def usable_backend_def create_backend_def inner_backend_def
      demo_pool_def policy_of_def default_defaults_def plain_backend_def plain_pool_backend_def map_filter_simps Let_def)
    (simp add: demo_backend_env_def)

lemma demo_smart_ok: "\<exists>rs w'. smart demo_pool demo_pool_config [] ''hi'' ''.'' None ''fix'' () = (Some (Inr rs), w')"
proof -
  let ?qs = "[(''codex'', codex_query demo_backend_env (codex_new (plain_backend ''codex''))),
        (''gemini'', gemini_query demo_backend_env (gemini_new (plain_backend ''npx'')))]"
  let ?bs = "map (\<lambda>(n, q). plain_pool_backend n q True) ?qs"
  have r: "smart_resolution demo_pool demo_pool_config [] ''hi'' None ''fix'' =
      Inr \<lparr>re_role = ''fix'', re_team = None, re_backends = [''gemini'', ''codex''], re_strategy = RouteFirst, re_from_team = False\<rparr>"
    by (simp add: smart_resolution_def demo_role)
  have "\<exists>rs w'. run_query demo_pool ?bs ''hi'' ''.'' (strategy_config RouteFirst demo_pool_config) () = (Some rs, w')"
    unfolding run_query_def Let_def using demo_answers [of "''hi''" "po_canonical demo_pool ''.''" _ ?qs "()"]
    by (simp add: strategy_config_def Let_def del: list.map)
  then show ?thesis by (auto simp: smart_def r demo_configured simp del: list.map)
qed

theorem smart_asks_every_backend_witness:
  "\<exists>rs. fst (smart demo_pool demo_pool_config [] ''hi'' ''.'' None ''fix'' ()) = Some (Inr rs) \<and> map qr_backend rs = [''codex'', ''gemini'']"
proof -
  obtain rs w' where s: "smart demo_pool demo_pool_config [] ''hi'' ''.'' None ''fix'' () = (Some (Inr rs), w')"
    using demo_smart_ok by blast
  have "join_ok (po_join demo_pool)" by (simp add: demo_pool_def demo_join_ok)
  from smart_asks_every_backend [OF s this demo_role] s show ?thesis by (simp add: demo_names)
qed

theorem run_query_complete_witness:
  "\<exists>rs. fst (run_query demo_pool (map (\<lambda>(n, q). plain_pool_backend n q True) [(''codex'', codex_query demo_backend_env (codex_new (plain_backend ''codex'')))])
     ''hi'' ''.'' demo_pool_config ()) = Some rs \<and> map qr_backend rs = [''codex''] \<and> list_all well_reported rs"
proof -
  let ?qs = "[(''codex'', codex_query demo_backend_env (codex_new (plain_backend ''codex'')))]"
  have "\<exists>rs w'. run_query demo_pool (map (\<lambda>(n, q). plain_pool_backend n q True) ?qs) ''hi'' ''.'' demo_pool_config () = (Some rs, w')"
    unfolding run_query_def Let_def using demo_answers [of "''hi''" "po_canonical demo_pool ''.''" _ ?qs "()"]
    by (simp add: demo_pool_config_def del: list.map)
  then obtain rs w' where q: "run_query demo_pool (map (\<lambda>(n, q). plain_pool_backend n q True) ?qs) ''hi'' ''.'' demo_pool_config () = (Some rs, w')"
    by blast
  have "join_ok (po_join demo_pool)" by (simp add: demo_pool_def demo_join_ok)
  from run_query_complete [OF this q] q show ?thesis by (simp add: plain_pool_backend_def)
qed

end
