(* ===== verification/Codebase.thy ===== *)
theory Codebase
  imports RustStr
begin

text \<open>
  What a code base is made of and the commands that follow from it (\<open>src/context.rs\<close>). The files are
  two functions: the text of a file that can be read, and whether a path exists. The fields are grouped
  as their comments in the source group them.
\<close>

subsection \<open>The context\<close>

record ruby_context =
  is_rails :: bool
  has_goldiloader :: bool
  has_bullet :: bool
  has_brakeman :: bool
  has_rubocop :: bool
  has_strong_migrations :: bool
  has_rspec :: bool
  has_sidekiq :: bool
  has_sorbet :: bool

record js_context =
  has_typescript :: bool
  has_eslint :: bool
  has_prettier :: bool
  has_jest :: bool
  has_vitest :: bool
  has_react :: bool
  has_vue :: bool
  has_nextjs :: bool
  has_tailwind :: bool

record python_context =
  is_python :: bool
  is_django :: bool
  is_fastapi :: bool
  has_sqlalchemy :: bool
  has_pytest :: bool
  has_mypy :: bool
  has_ruff :: bool
  has_alembic :: bool

record rust_context =
  is_rust :: bool
  has_tokio :: bool
  has_diesel :: bool
  has_sqlx :: bool

record go_context =
  is_go :: bool
  has_golangci_lint :: bool

record infra_context =
  has_docker :: bool
  has_kubernetes :: bool
  has_terraform :: bool
  has_github_actions :: bool
  has_gitlab_ci :: bool

record codebase =
  cb_ruby :: ruby_context
  cb_js :: js_context
  cb_python :: python_context
  cb_rust :: rust_context
  cb_go :: go_context
  cb_infra :: infra_context
  cb_language :: "string option"

definition no_ruby :: ruby_context where
  "no_ruby = \<lparr>is_rails = False, has_goldiloader = False, has_bullet = False, has_brakeman = False, has_rubocop = False,
     has_strong_migrations = False, has_rspec = False, has_sidekiq = False, has_sorbet = False\<rparr>"

definition no_js :: js_context where
  "no_js = \<lparr>has_typescript = False, has_eslint = False, has_prettier = False, has_jest = False, has_vitest = False,
     has_react = False, has_vue = False, has_nextjs = False, has_tailwind = False\<rparr>"

definition no_python :: python_context where
  "no_python = \<lparr>is_python = False, is_django = False, is_fastapi = False, has_sqlalchemy = False, has_pytest = False,
     has_mypy = False, has_ruff = False, has_alembic = False\<rparr>"

subsection \<open>Detection\<close>

type_synonym reading = "string \<Rightarrow> string option"
type_synonym existing = "string \<Rightarrow> bool"

definition dquoted :: "string \<Rightarrow> string" where
  "dquoted s = [CHR 0x22] @ s @ [CHR 0x22]"

definition detect_ruby :: "reading \<Rightarrow> ruby_context \<times> string option" where
  "detect_ruby rd =
     (case rd ''Gemfile'' of
        None \<Rightarrow> (no_ruby, None)
      | Some gemfile \<Rightarrow> let has = contains gemfile in
          (\<lparr>is_rails = has ''rails'', has_goldiloader = has ''goldiloader'', has_bullet = has ''bullet'', has_brakeman = has ''brakeman'',
             has_rubocop = has ''rubocop'', has_strong_migrations = has ''strong_migrations'', has_rspec = has ''rspec'',
             has_sidekiq = has ''sidekiq'', has_sorbet = has ''sorbet''\<rparr>,
           if has ''rails'' then Some ''ruby/rails'' else if has ''gem '' then Some ''ruby'' else None))"

definition detect_js :: "reading \<Rightarrow> existing \<Rightarrow> js_context \<times> string option" where
  "detect_js rd ex =
     (case rd ''package.json'' of
        None \<Rightarrow> (no_js, None)
      | Some package_json \<Rightarrow>
          let has = contains package_json; ts = has ''typescript'' \<or> ex ''tsconfig.json'' in
          (\<lparr>has_typescript = ts, has_eslint = has ''eslint'' \<or> ex ''.eslintrc'' \<or> ex ''eslint.config'',
             has_prettier = has ''prettier'' \<or> ex ''.prettierrc'', has_jest = has (dquoted ''jest''), has_vitest = has ''vitest'',
             has_react = has (dquoted ''react''), has_vue = has (dquoted ''vue''), has_nextjs = has (dquoted ''next''),
             has_tailwind = has ''tailwindcss'' \<or> ex ''tailwind.config.js''\<rparr>,
           Some (if ts then ''typescript'' else ''javascript'')))"

definition detect_python :: "reading \<Rightarrow> existing \<Rightarrow> python_context \<times> string option" where
  "detect_python rd ex =
     (let requirements = unwrap_or [] (rd ''requirements.txt''); pyproject = unwrap_or [] (rd ''pyproject.toml'') in
      if requirements \<noteq> [] \<or> pyproject \<noteq> [] \<or> ex ''setup.py''
      then let has = contains (requirements @ [CHR 0x0A] @ pyproject) in
        (\<lparr>is_python = True, is_django = has ''django'', is_fastapi = has ''fastapi'', has_sqlalchemy = has ''sqlalchemy'',
           has_pytest = has ''pytest'', has_mypy = has ''mypy'', has_ruff = has ''ruff'', has_alembic = has ''alembic''\<rparr>,
         Some (if has ''django'' then ''python/django'' else if has ''fastapi'' then ''python/fastapi'' else ''python''))
      else (no_python, None))"

definition detect_rust :: "reading \<Rightarrow> rust_context \<times> string option" where
  "detect_rust rd =
     (case rd ''Cargo.toml'' of
        None \<Rightarrow> (\<lparr>is_rust = False, has_tokio = False, has_diesel = False, has_sqlx = False\<rparr>, None)
      | Some cargo_toml \<Rightarrow> let has = contains cargo_toml in
          (\<lparr>is_rust = True, has_tokio = has ''tokio'', has_diesel = has ''diesel'', has_sqlx = has ''sqlx''\<rparr>, Some ''rust''))"

definition detect_go :: "reading \<Rightarrow> existing \<Rightarrow> go_context \<times> string option" where
  "detect_go rd ex =
     (case rd ''go.mod'' of
        None \<Rightarrow> (\<lparr>is_go = False, has_golangci_lint = False\<rparr>, None)
      | Some go_mod \<Rightarrow>
          (\<lparr>is_go = True, has_golangci_lint = ex ''.golangci.yml'' \<or> ex ''.golangci.yaml'' \<or> contains go_mod ''golangci''\<rparr>, Some ''go''))"

definition detect_infra :: "existing \<Rightarrow> infra_context" where
  "detect_infra ex = \<lparr>has_docker = ex ''Dockerfile'' \<or> ex ''docker-compose.yml'',
     has_kubernetes = ex ''k8s'' \<or> ex ''kubernetes'' \<or> ex ''helm'', has_terraform = ex ''main.tf'' \<or> ex ''terraform'',
     has_github_actions = ex ''.github/workflows'', has_gitlab_ci = ex ''.gitlab-ci.yml''\<rparr>"

text \<open>A language that is found keeps its place against those that are looked for later.\<close>

definition detect_codebase :: "reading \<Rightarrow> existing \<Rightarrow> codebase" where
  "detect_codebase rd ex =
     (let (ruby, l1) = detect_ruby rd; (js, l2) = detect_js rd ex; (python, l3) = detect_python rd ex;
          (rust, l4) = detect_rust rd; (go, l5) = detect_go rd ex
      in \<lparr>cb_ruby = ruby, cb_js = js, cb_python = python, cb_rust = rust, cb_go = go, cb_infra = detect_infra ex,
          cb_language = or_else l1 (or_else l2 (or_else l3 (or_else l4 l5)))\<rparr>)"

subsection \<open>Notes for prompts\<close>

definition notes_context :: "string list \<Rightarrow> string option" where
  "notes_context notes = (if notes = [] then None
     else Some (''CODEBASE CONTEXT:'' @ [CHR 0x0A] @ str_join [CHR 0x0A] notes @ [CHR 0x0A, CHR 0x0A]))"

definition n1_context :: "codebase \<Rightarrow> string option" where
  "n1_context cb = notes_context (
     (if has_goldiloader (cb_ruby cb) then [''This codebase uses Goldiloader, which automatically eager-loads associations to prevent N+1 queries at runtime. Only report N+1 patterns that Goldiloader cannot fix: queries in views/serializers, queries across request boundaries, or queries in background jobs where associations aren'' @ [CHR 0x27] @ ''t auto-loaded.''] else []) @
     (if has_bullet (cb_ruby cb) then [''This codebase uses Bullet gem for N+1 detection in development. Focus on patterns Bullet might miss: complex joins, polymorphic associations, or N+1s in production-only code paths.''] else []))"

definition security_context :: "codebase \<Rightarrow> string option" where
  "security_context cb = notes_context (
     (if has_brakeman (cb_ruby cb) then [''This codebase uses Brakeman for static security analysis. Focus on issues Brakeman might miss: logic flaws, business logic vulnerabilities, race conditions, and authorization bypasses.''] else []) @
     (if has_eslint (cb_js cb) then [''This codebase uses ESLint. Security-focused ESLint plugins may catch basic XSS. Focus on framework-specific issues and logic vulnerabilities.''] else []) @
     (if has_rubocop (cb_ruby cb) then [''This codebase uses RuboCop which has some security cops. Focus on issues beyond static analysis: auth logic, IDOR, race conditions.''] else []) @
     (if has_sorbet (cb_ruby cb) \<or> has_typescript (cb_js cb) \<or> has_mypy (cb_python cb) then [''This codebase uses static typing which catches some classes of bugs. Focus on runtime issues, type coercion vulnerabilities, and logic flaws.''] else []))"

subsection \<open>Commands\<close>

definition cb_format_command :: "codebase \<Rightarrow> string option" where
  "cb_format_command cb =
     (case cb_language cb of
        None \<Rightarrow> None
      | Some l \<Rightarrow>
          if l = ''rust'' then Some ''cargo fmt''
          else if l = ''go'' then Some ''go fmt ./...''
          else if l \<in> {''python'', ''python/django'', ''python/fastapi''} then (if has_ruff (cb_python cb) then Some ''ruff format .'' else None)
          else if l \<in> {''typescript'', ''javascript''} then (if has_prettier (cb_js cb) then Some ''npm run format --if-present'' else None)
          else if l \<in> {''ruby/rails'', ''ruby''} then (if has_rubocop (cb_ruby cb) then Some ''bundle exec rubocop -a'' else None)
          else None)"

definition cb_verify_command :: "codebase \<Rightarrow> string option" where
  "cb_verify_command cb =
     (case cb_language cb of
        None \<Rightarrow> None
      | Some l \<Rightarrow>
          if l = ''rust'' then Some ''cargo clippy -- -D warnings && cargo build''
          else if l = ''go'' then Some (''go vet ./...'' @ (if has_golangci_lint (cb_go cb) then '' && golangci-lint run'' else []) @ '' && go build ./...'')
          else if l \<in> {''python'', ''python/django'', ''python/fastapi''} then
            (if has_ruff (cb_python cb) then Some ''ruff check .'' else if has_mypy (cb_python cb) then Some ''mypy .'' else None)
          else if l \<in> {''typescript'', ''javascript''} then
            Some (str_join '' && '' ((if has_eslint (cb_js cb) then [''npm run lint --if-present''] else []) @ [''npm run build --if-present'']))
          else if l \<in> {''ruby/rails'', ''ruby''} then
            (let parts = (if has_rubocop (cb_ruby cb) then [''bundle exec rubocop --lint''] else []) @
                (if has_rspec (cb_ruby cb) then [''bundle exec rspec --dry-run''] else [])
             in if parts = [] then None else Some (str_join '' && '' parts))
          else None)"

definition named_command :: "(string list \<times> string) list \<Rightarrow> string option \<Rightarrow> string \<Rightarrow> string option" where
  "named_command table detected text =
     (let name = to_lowercase (trim text) in
      if name = ''true'' then detected
      else if name \<in> {''false'', []} then None
      else case List.find (\<lambda>(names, _). name \<in> set names) table of
          Some (_, cmd) \<Rightarrow> Some cmd
        | None \<Rightarrow> Some text)"

definition resolve_format_command :: "string \<Rightarrow> codebase \<Rightarrow> string option" where
  "resolve_format_command text cb = named_command
     [([''rust''], ''cargo fmt''), ([''go'', ''golang''], ''go fmt ./...''), ([''python'', ''py''], ''ruff format .''),
      ([''node'', ''nodejs'', ''javascript'', ''typescript''], ''npm run format --if-present''), ([''ruby''], ''bundle exec rubocop -a'')]
     (cb_format_command cb) text"

definition resolve_verify_command :: "string \<Rightarrow> codebase \<Rightarrow> string option" where
  "resolve_verify_command text cb = named_command
     [([''rust''], ''cargo clippy -- -D warnings && cargo build''), ([''go'', ''golang''], ''go vet ./... && go build ./...''),
      ([''python'', ''py''], ''ruff check .''),
      ([''node'', ''nodejs'', ''javascript'', ''typescript''], ''npm run lint --if-present && npm run build --if-present''),
      ([''ruby''], ''bundle exec rubocop --lint'')]
     (cb_verify_command cb) text"

subsection \<open>Properties\<close>

text \<open>
  The language is the first one that is found, in the order Ruby, JavaScript, Python, Rust, Go; there
  is none exactly when nothing of any is found.
\<close>

theorem language_order:
  "cb_language (detect_codebase rd ex) =
     (case List.find (\<lambda>l. l \<noteq> None)
        [snd (detect_ruby rd), snd (detect_js rd ex), snd (detect_python rd ex), snd (detect_rust rd), snd (detect_go rd ex)] of
        Some l \<Rightarrow> l | None \<Rightarrow> None)"
  by (cases "snd (detect_ruby rd)"; cases "snd (detect_js rd ex)"; cases "snd (detect_python rd ex)"; cases "snd (detect_rust rd)")
    (auto simp: detect_codebase_def split: prod.splits)

text \<open>
  A Rust project with a \<open>package.json\<close> in it is taken for JavaScript: it is verified by a script that
  passes when there is none, and nothing of Rust is built.
\<close>

theorem mixed_project_unbuilt:
  assumes "rd ''Gemfile'' = None" "rd ''package.json'' = Some ''{}''" "rd ''Cargo.toml'' \<noteq> None" "\<And>p. ex p = False"
  shows "is_rust (cb_rust (detect_codebase rd ex)) \<and>
    resolve_verify_command ''true'' (detect_codebase rd ex) = Some ''npm run build --if-present''"
proof -
  have "trim ''true'' = ''true''" by (simp add: trim_def trim_start_def trim_end_def trim_with_id ws_encodings_def)
  then have t: "to_lowercase (trim ''true'') = ''true''" by (simp add: lower_char_def is_upper_def char_of_def bit_simps)
  have c: "\<not> contains ''{}'' ''typescript''" "\<not> contains ''{}'' ''eslint''" by (simp_all add: contains_def)
  from assms(2,4) c have js: "snd (detect_js rd ex) = Some ''javascript''" "\<not> has_eslint (fst (detect_js rd ex))"
    by (simp_all add: detect_js_def Let_def)
  have ruby: "snd (detect_ruby rd) = None" using assms(1) by (simp add: detect_ruby_def)
  obtain cargo where "rd ''Cargo.toml'' = Some cargo" using assms(3) by blast
  then have "is_rust (cb_rust (detect_codebase rd ex))" by (simp add: detect_codebase_def detect_rust_def Let_def case_prod_beta)
  moreover have "cb_language (detect_codebase rd ex) = Some ''javascript''" "cb_js (detect_codebase rd ex) = fst (detect_js rd ex)"
    using js ruby by (simp_all add: detect_codebase_def case_prod_beta)
  ultimately show ?thesis
    using js(2) by (simp add: resolve_verify_command_def named_command_def Let_def t cb_verify_command_def)
qed

theorem mixed_project_unbuilt_witness:
  "let rd = (\<lambda>p. if p = ''package.json'' then Some ''{}'' else if p = ''Cargo.toml'' then Some ''[package]'' else None); ex = (\<lambda>_. False) in
   resolve_verify_command ''true'' (detect_codebase rd ex) = Some ''npm run build --if-present''"
  unfolding Let_def by (rule conjunct2 [OF mixed_project_unbuilt]) simp_all

text \<open>A command that is none of the names is used as it was written, and some names switch it off.\<close>

lemma custom_command:
  "to_lowercase (trim text) \<notin> {''true'', ''false'', [], ''rust'', ''go'', ''golang'', ''python'', ''py'', ''node'', ''nodejs'', ''javascript'',
     ''typescript'', ''ruby''} \<Longrightarrow> resolve_verify_command text cb = Some text \<and> resolve_format_command text cb = Some text"
  by (simp add: resolve_verify_command_def resolve_format_command_def named_command_def Let_def)

text \<open>A Python project without Ruff and mypy, and an unknown one, are not verified at all.\<close>

lemma nothing_to_verify:
  "cb_language cb = Some ''python'' \<Longrightarrow> \<not> has_ruff (cb_python cb) \<Longrightarrow> \<not> has_mypy (cb_python cb) \<Longrightarrow> cb_verify_command cb = None"
  "cb_language cb = None \<Longrightarrow> cb_verify_command cb = None"
  by (simp_all add: cb_verify_command_def)

end
