(* ===== verification/TraceTail.thy ===== *)
theory TraceTail
  imports Verification Json
begin

text \<open>
  Following a trace (\<open>src/ui/trace_reader.rs\<close>, \<open>src/ui/sse.rs\<close>): the lines of a file from an offset on, the
  events sent for them, and what the pages show of them. A file is its bytes; the notifications of
  the file system are the contents that the reader sees one after the other.
\<close>

abbreviation line_end :: char where
  "line_end \<equiv> CHR 0x0A"

subsection \<open>Reading from an offset\<close>

text \<open>The lines of a part that ends with a line end, each with the offset at which it begins; blank lines are left out.\<close>

function tail_lines :: "nat \<Rightarrow> bytes \<Rightarrow> (nat \<times> string) list \<times> nat" where
  "tail_lines pos s =
     (case find_char line_end s of
        None \<Rightarrow> ([], pos)
      | Some e \<Rightarrow>
          let line = from_utf8_lossy (take e s); rest = tail_lines (pos + e + 1) (drop (Suc e) s)
          in ((if trim line = [] then [] else [(pos, line)]) @ fst rest, snd rest))"
  by pat_completeness auto
termination
  by (relation "measure (length \<circ> snd)") (auto dest: find_char_Some)

declare tail_lines.simps [simp del]

text \<open>The file is \<open>None\<close> when it cannot be opened or read.\<close>

definition read_from_offset :: "bytes option \<Rightarrow> nat \<Rightarrow> (nat \<times> string) list \<times> nat" where
  "read_from_offset file offset =
     (case file of
        None \<Rightarrow> ([], offset)
      | Some content \<Rightarrow>
          if length content \<le> offset then ([], offset)
          else let buffer = drop offset content in
            (case rfind_char line_end buffer of
               Some p \<Rightarrow> tail_lines offset (take (Suc p) buffer)
             | None \<Rightarrow> ([], offset)))"

text \<open>The watcher reads once at the start and once for each change that it is told of.\<close>

fun watch_trace :: "nat \<Rightarrow> bytes option list \<Rightarrow> (nat \<times> string) list" where
  "watch_trace offset [] = []"
| "watch_trace offset (c # cs) = (case read_from_offset c offset of (ls, offset') \<Rightarrow> ls @ watch_trace offset' cs)"

subsection \<open>Events\<close>

definition to_sse :: "string \<Rightarrow> string \<Rightarrow> string" where
  "to_sse event_id data_json = ''event: trace_event'' @ [line_end] @ ''id: '' @ event_id @ [line_end] @ ''data: '' @ data_json @
     [line_end, line_end]"

definition format_line_as_sse :: "json_lib \<Rightarrow> string \<Rightarrow> string \<Rightarrow> string option" where
  "format_line_as_sse js event_id line =
     (if trim line = [] then None
      else case js_parse js line of Inl _ \<Rightarrow> None | Inr v \<Rightarrow> Some (to_sse event_id (js_show js v)))"

text \<open>The stream of a run that is finished, and the event of a live one.\<close>

definition terminal_stream :: "json_lib \<Rightarrow> (nat \<times> string) list \<Rightarrow> string list" where
  "terminal_stream js ls = List.map_filter (\<lambda>(pos, line). format_line_as_sse js (nat_str pos) line) ls @
     [''event: end'' @ [line_end] @ ''data: '' @ [line_end, line_end]]"

definition live_event :: "json_lib \<Rightarrow> nat \<times> string \<Rightarrow> string" where
  "live_event js l = unwrap_or (''data: Error parsing line'' @ [line_end, line_end]) (format_line_as_sse js (nat_str (fst l)) (snd l))"

text \<open>Where a stream begins: the offset of the query, the last event that the client has seen, or the end of the file.\<close>

definition initial_offset :: "nat option \<Rightarrow> nat option \<Rightarrow> nat option \<Rightarrow> nat option" where
  "initial_offset query last_id file_length = or_else query (or_else last_id file_length)"

subsection \<open>What the pages show\<close>

record trace_display =
  td_timestamp :: string
  td_event_type :: string
  td_summary :: string

text \<open>\<open>&s[..120]\<close> panics when the cut is inside a character: the result \<open>None\<close>.\<close>

definition cut_summary :: "string \<Rightarrow> string option" where
  "cut_summary s =
     (if length s > 120 then (if is_char_boundary s 120 then Some (take 120 s @ map char_of [226, 128, 166 :: nat]) else None) else Some s)"

definition parse_trace_line :: "json_lib \<Rightarrow> string \<Rightarrow> trace_display option option" where
  "parse_trace_line js line =
     (if trim line = [] then Some None
      else case js_parse js line of
          Inl _ \<Rightarrow> Some None
        | Inr v \<Rightarrow>
            let first_of = (\<lambda>a b. or_else (json_get a v) (json_get b v)) in
            map_option (\<lambda>summary. Some \<lparr>td_timestamp = unwrap_or [] (Option.bind (first_of ''timestamp'' ''time'') as_str),
                td_event_type = unwrap_or ''event'' (Option.bind (first_of ''event_type'' ''type'') as_str), td_summary = summary\<rparr>)
              (case first_of ''summary'' ''message'' of
                 Some x \<Rightarrow> Some (unwrap_or [] (as_str x))
               | None \<Rightarrow> cut_summary (js_show js v)))"

fun displays :: "json_lib \<Rightarrow> string list \<Rightarrow> trace_display list option" where
  "displays js [] = Some []"
| "displays js (l # ls) =
     (case parse_trace_line js l of
        None \<Rightarrow> None
      | Some d \<Rightarrow> map_option (\<lambda>ds. (case d of None \<Rightarrow> ds | Some x \<Rightarrow> x # ds)) (displays js ls))"

definition parse_trace_lines :: "json_lib \<Rightarrow> string \<Rightarrow> nat \<Rightarrow> trace_display list option" where
  "parse_trace_lines js content n = (let ls = str_lines content in displays js (drop (length ls - n) ls))"

definition tail_trace_file :: "json_lib \<Rightarrow> string option \<Rightarrow> nat \<Rightarrow> trace_display list option" where
  "tail_trace_file js file n = (case file of None \<Rightarrow> Some [] | Some content \<Rightarrow> parse_trace_lines js content n)"

subsection \<open>Properties\<close>

lemma tail_lines_none: "line_end \<notin> set s \<Longrightarrow> tail_lines pos s = ([], pos)"
  by (subst tail_lines.simps) (simp add: iffD2 [OF find_char_None])

lemma tail_lines_step:
  "line_end \<notin> set l \<Longrightarrow> tail_lines pos (l @ line_end # s) =
     ((if trim (from_utf8_lossy l) = [] then [] else [(pos, from_utf8_lossy l)]) @ fst (tail_lines (pos + length l + 1) s),
      snd (tail_lines (pos + length l + 1) s))"
  by (subst tail_lines.simps) (simp add: Let_def)

lemma ends_split:
  assumes "s \<noteq> []" "last s = line_end"
  obtains l t where "s = l @ line_end # t" "line_end \<notin> set l" "t = [] \<or> last t = line_end"
proof -
  have "line_end \<in> set s" using assms last_in_set by metis
  then obtain l t where "s = l @ line_end # t" "line_end \<notin> set l" by (meson split_list_first)
  with that assms(2) show ?thesis by (cases t) auto
qed

lemma tail_lines_append:
  "a = [] \<or> last a = line_end \<Longrightarrow> tail_lines pos (a @ b) =
     (fst (tail_lines pos a) @ fst (tail_lines (pos + length a) b), snd (tail_lines (pos + length a) b))"
proof (induction "length a" arbitrary: a pos rule: less_induct)
  case less
  show ?case
  proof (cases "a = []")
    case True
    then show ?thesis by (simp add: tail_lines_none)
  next
    case False
    with less.prems obtain l t where a: "a = l @ line_end # t" "line_end \<notin> set l" "t = [] \<or> last t = line_end"
      by (auto elim: ends_split)
    from less.hyps [OF _ a(3), of "pos + length l + 1"] a(1) show ?thesis
      by (simp add: a(1) tail_lines_step [OF a(2)] add.assoc)
  qed
qed

lemma tail_lines_end: "a = [] \<or> last a = line_end \<Longrightarrow> snd (tail_lines pos a) = pos + length a"
proof -
  assume "a = [] \<or> last a = line_end"
  from tail_lines_append [OF this, of pos "[]"] have "tail_lines pos a = (fst (tail_lines pos a), pos + length a)"
    by (simp add: tail_lines_none)
  then show ?thesis by (metis snd_conv)
qed

text \<open>The whole lines of a text, and the rest.\<close>

lemma whole_lines:
  obtains a r where "s = a @ r" "a = [] \<or> last a = line_end" "line_end \<notin> set r"
    "(case rfind_char line_end s of Some p \<Rightarrow> tail_lines pos (take (Suc p) s) | None \<Rightarrow> ([], pos)) = tail_lines pos a"
proof (cases "line_end \<in> set s")
  case False
  then show ?thesis using that [of "[]" s] by (simp add: iffD2 [OF rfind_char_None] tail_lines_none)
next
  case True
  then obtain u r where s: "s = u @ line_end # r" "line_end \<notin> set r" by (meson split_list_last)
  then have "rfind_char line_end s = Some (length u)" by simp
  with s that [of "u @ [line_end]" r] show ?thesis by simp
qed

lemma read_part:
  obtains a r where "drop offset content = a @ r" "a = [] \<or> last a = line_end" "line_end \<notin> set r"
    "read_from_offset (Some content) offset = tail_lines offset a"
proof (cases "length content \<le> offset")
  case True
  then show ?thesis using that [of "[]" "[]"] by (simp add: read_from_offset_def tail_lines_none)
next
  case False
  obtain a r where h: "drop offset content = a @ r" "a = [] \<or> last a = line_end" "line_end \<notin> set r"
    "(case rfind_char line_end (drop offset content) of Some p \<Rightarrow> tail_lines offset (take (Suc p) (drop offset content)) | None \<Rightarrow> ([], offset))
       = tail_lines offset a"
    by (rule whole_lines)
  show ?thesis by (rule that [OF h(1-3)]) (use h(4) False in \<open>simp add: read_from_offset_def Let_def\<close>)
qed

lemma same_whole:
  assumes "a @ r = b @ q" "a = [] \<or> last a = line_end" "b = [] \<or> last b = line_end" "line_end \<notin> set r" "line_end \<notin> set q"
  shows "a = b"
proof -
  from assms(1) obtain us where "a @ us = b \<and> r = us @ q \<or> a = b @ us \<and> us @ r = q"
    by (auto simp: append_eq_append_conv2)
  moreover have "us = []" if "line_end \<notin> set us" "us = [] \<or> last us = line_end" using that last_in_set by metis
  ultimately show ?thesis using assms(2-5) by (cases "us = []") (auto simp: last_append)
qed

text \<open>
  Reading on where the last reading ended, of a file that has only grown, gives the lines that one
  reading of the grown file gives from the start: none is lost, none comes twice, none is cut.
\<close>

lemma read_on:
  assumes "read_from_offset (Some c) offset = (ls, offset')" "offset \<le> length c"
  shows "read_from_offset (Some (c @ added)) offset =
     (ls @ fst (read_from_offset (Some (c @ added)) offset'), snd (read_from_offset (Some (c @ added)) offset'))"
    and "offset' \<le> length c"
proof -
  obtain a r where a: "drop offset c = a @ r" "a = [] \<or> last a = line_end" "line_end \<notin> set r" "(ls, offset') = tail_lines offset a"
    using assms(1) by (metis read_part)
  have o': "offset' = offset + length a" using tail_lines_end [OF a(2), of offset] a(4) by (metis snd_conv)
  have "length c - offset = length a + length r" using a(1) by (metis length_append length_drop)
  with assms(2) o' show "offset' \<le> length c" by simp
  have d: "drop offset' c = r" using a(1) o' by (metis add.commute append_eq_conv_conj drop_drop)
  obtain b q where b: "drop offset (c @ added) = b @ q" "b = [] \<or> last b = line_end" "line_end \<notin> set q"
    "read_from_offset (Some (c @ added)) offset = tail_lines offset b" by (rule read_part)
  obtain b' q' where b': "drop offset' (c @ added) = b' @ q'" "b' = [] \<or> last b' = line_end" "line_end \<notin> set q'"
    "read_from_offset (Some (c @ added)) offset' = tail_lines offset' b'" by (rule read_part)
  have "b' @ q' = r @ added" using b'(1) d \<open>offset' \<le> length c\<close> by simp
  moreover have "b @ q = a @ r @ added" using b(1) a(1) assms(2) by simp
  ultimately have "b @ q = (a @ b') @ q'" by simp
  from same_whole [OF this b(2) _ b(3) b'(3)] a(2) b'(2) have "b = a @ b'" by (auto simp: last_append)
  with b(4) b'(4) tail_lines_append [OF a(2), of offset b'] a(4) o'
  show "read_from_offset (Some (c @ added)) offset =
     (ls @ fst (read_from_offset (Some (c @ added)) offset'), snd (read_from_offset (Some (c @ added)) offset'))"
    by (metis fst_conv)
qed


lemma tail_last:
  "a = [] \<or> last a = line_end \<Longrightarrow> fst (tail_lines pos a) = ls @ [(p, l)] \<Longrightarrow>
     \<exists>u v. a = u @ v \<and> p = pos + length u \<and> (v = [] \<or> last v = line_end) \<and> fst (tail_lines p v) = [(p, l)]"
proof (induction "length a" arbitrary: a pos ls rule: less_induct)
  case less
  show ?case
  proof (cases "a = []")
    case True
    with less.prems show ?thesis by (simp add: tail_lines_none)
  next
    case False
    with less.prems obtain m t where a: "a = m @ line_end # t" "line_end \<notin> set m" "t = [] \<or> last t = line_end"
      by (auto elim: ends_split)
    let ?h = "if trim (from_utf8_lossy m) = [] then [] else [(pos, from_utf8_lossy m)]" and ?q = "pos + length m + 1"
    have eq: "?h @ fst (tail_lines ?q t) = ls @ [(p, l)]" using less.prems(2) by (simp add: a(1) tail_lines_step [OF a(2)])
    show ?thesis
    proof (cases "fst (tail_lines ?q t) = []")
      case True
      with eq have "p = pos" "fst (tail_lines pos a) = [(p, l)]"
        using less.prems(2) by (auto simp: a(1) tail_lines_step [OF a(2)] split: if_splits)
      with less.prems(1) show ?thesis by (intro exI [of _ "[]"] exI [of _ a]) auto
    next
      case False
      then have "last (fst (tail_lines ?q t)) = (p, l)" using eq by (metis last_appendR last_snoc)
      with False obtain ls' where "fst (tail_lines ?q t) = ls' @ [(p, l)]" by (metis append_butlast_last_id)
      from less.hyps [OF _ a(3) this] obtain u v where
        "t = u @ v" "p = ?q + length u" "v = [] \<or> last v = line_end" "fst (tail_lines p v) = [(p, l)]"
        by (auto simp: a(1))
      then show ?thesis by (intro exI [of _ "m @ line_end # u"] exI [of _ v]) (simp add: a(1))
    qed
  qed
qed

text \<open>
  A client that comes back names the event that it has seen last, whose offset is where its line
  begins: that line is sent again.
\<close>

theorem last_event_repeated:
  assumes "read_from_offset (Some content) offset = (ls @ [(pos, line)], offset')" "offset \<le> length content"
  shows "fst (read_from_offset (Some content) pos) = [(pos, line)]"
proof -
  obtain a r where a: "drop offset content = a @ r" "a = [] \<or> last a = line_end" "line_end \<notin> set r"
    "read_from_offset (Some content) offset = tail_lines offset a" by (rule read_part)
  then have "fst (tail_lines offset a) = ls @ [(pos, line)]" using assms(1) by (metis fst_conv)
  from tail_last [OF a(2) this] obtain u v where uv: "a = u @ v" "pos = offset + length u" "v = [] \<or> last v = line_end"
    "fst (tail_lines pos v) = [(pos, line)]" by blast
  then have d: "drop pos content = v @ r" using a(1) by (metis add.commute append.assoc append_eq_conv_conj drop_drop)
  obtain b q where b: "drop pos content = b @ q" "b = [] \<or> last b = line_end" "line_end \<notin> set q"
    "read_from_offset (Some content) pos = tail_lines pos b" by (rule read_part)
  from same_whole [OF _ b(2) uv(3) b(3) a(3)] b(1) d have "b = v" by simp
  with b(4) uv(4) show ?thesis by simp
qed

text \<open>
  A printer that makes no line ends (it escapes them) gives events that are one message each: three
  fields and the blank line that ends it, whatever the trace holds.
\<close>

theorem sse_one_message:
  assumes "format_line_as_sse js (nat_str pos) line = Some event" "\<forall>v. line_end \<notin> set (js_show js v)"
  shows "\<exists>v. js_parse js line = Inr v \<and>
    split_nl event = [''event: trace_event'', ''id: '' @ nat_str pos, ''data: '' @ js_show js v, [], []]"
proof -
  from assms(1) obtain v where v: "js_parse js line = Inr v" "event = to_sse (nat_str pos) (js_show js v)"
    by (auto simp: format_line_as_sse_def split: if_splits sum.splits)
  have id: "line_end \<notin> set (''id: '' @ nat_str pos)" using nat_str_digits [of line_end pos] by auto
  have data: "line_end \<notin> set (''data: '' @ js_show js v)" using assms(2) by simp
  have "split_nl event = split_nl (''event: trace_event'' @ line_end # ((''id: '' @ nat_str pos) @ line_end # ((''data: '' @ js_show js v) @ line_end # [line_end])))"
    by (simp add: v(2) to_sse_def del: split_nl.simps)
  moreover have "split_nl (''event: trace_event'' @ line_end # s) = ''event: trace_event'' # split_nl s" for s
    by (rule split_nl_cons) simp
  moreover have "split_nl [line_end] = [[], []]" by simp
  ultimately have "split_nl event = [''event: trace_event'', ''id: '' @ nat_str pos, ''data: '' @ js_show js v, [], []]"
    by (simp only: split_nl_cons [OF id] split_nl_cons [OF data])
  with v(1) show ?thesis by blast
qed

text \<open>A page of a run panics when the text of an event is cut inside a character.\<close>

lemma summary_cut_panics: "cut_summary (replicate 119 (CHR ''a'') @ map char_of [195, 169 :: nat]) = None"
  by (simp add: cut_summary_def is_char_boundary_def is_cont_def nth_append)

subsection \<open>Examples\<close>


theorem last_event_repeated_witness:
  "fst (read_from_offset (Some ([CHR ''a'', line_end, CHR ''b'', line_end])) 2) = [(2, ''b'')]"
proof -
  let ?c = "[CHR ''a'', line_end, CHR ''b'', line_end]"
  have t: "trim ''a'' = ''a''" "trim ''b'' = ''b''"
    by (simp_all add: trim_def trim_start_def trim_end_def trim_with_id ws_encodings_def)
  have u: "from_utf8_lossy ''a'' = ''a''" "from_utf8_lossy ''b'' = ''b''" by code_simp+
  have "tail_lines (Suc (Suc 0)) [CHR ''b'', line_end] = ([(2, ''b'')], 4)"
    using tail_lines_step [of "''b''" "Suc (Suc 0)" "[]"] by (simp add: t u tail_lines_none del: from_utf8_lossy.simps)
  then have "tail_lines 0 ?c = ([(0, ''a'')] @ [(2, ''b'')], 4)"
    using tail_lines_step [of "''a''" 0 "[CHR ''b'', line_end]"] by (simp add: t u del: from_utf8_lossy.simps)
  moreover have "rfind_char line_end ?c = Some 3" by code_simp
  ultimately have "read_from_offset (Some ?c) 0 = ([(0, ''a'')] @ [(2, ''b'')], 4)" by (simp add: read_from_offset_def)
  from last_event_repeated [OF this] show ?thesis by simp
qed

theorem sse_one_message_witness:
  "let js = \<lparr>js_parse = (\<lambda>_. Inr JNull), js_show = (\<lambda>_. ''null'')\<rparr> in
   \<exists>event. format_line_as_sse js (nat_str 7) ''x'' = Some event \<and>
     split_nl event = [''event: trace_event'', ''id: '' @ nat_str 7, ''data: null'', [], []]"
proof -
  let ?js = "\<lparr>js_parse = (\<lambda>_. Inr JNull), js_show = (\<lambda>_. ''null'')\<rparr>"
  have "trim ''x'' = ''x''" by (simp add: trim_def trim_start_def trim_end_def trim_with_id ws_encodings_def)
  then have f: "format_line_as_sse ?js (nat_str 7) ''x'' = Some (to_sse (nat_str 7) ''null'')" by (simp add: format_line_as_sse_def)
  from sse_one_message [OF this] show ?thesis by (simp add: f Let_def)
qed

end
