(* ===== verification/RunDirs.thy ===== *)
theory RunDirs
  imports ManifestStore
begin

text \<open>
  The creation of the directory of a run (\<open>src/run_state/run_dir.rs\<close>) and the paths in it. The slug of a
  name, the stamp of a time and fresh identifiers are arguments; making one directory and removing a
  tree are operations beside those of \<open>Disk\<close>, under a contract that the concrete disk keeps.
\<close>

subsection \<open>Trees\<close>

datatype mkdir_error = DirExists | DirFailed io_error

record 'w tree_ops =
  tr_mkdir :: "dir \<Rightarrow> 'w \<Rightarrow> (mkdir_error, unit) result \<times> 'w"
  tr_remove_all :: "dir \<Rightarrow> ('w, unit) io"

locale tree_store = disk_store ops files_of for ops :: "'w disk_ops" and files_of +
  fixes tree :: "'w tree_ops"
  assumes mkdir_new: "tr_mkdir tree k w = (Inr (), w') \<Longrightarrow> files_of w' = files_of w \<and> (\<forall>p. prefix k p \<longrightarrow> files_of w p = None)"
    and mkdir_fail: "tr_mkdir tree k w = (Inl e, w') \<Longrightarrow> files_of w' = files_of w"
    and remove_all_ok: "tr_remove_all tree k w = (Inr (), w') \<Longrightarrow> files_of w' p = (if prefix k p then None else files_of w p)"

subsection \<open>Creating the directory of a run\<close>

record 'w run_dir_env =
  ne_ops :: "'w disk_ops"
  ne_tree :: "'w tree_ops"
  ne_libs :: libs
  ne_slug :: "string \<Rightarrow> string"
  ne_stamp :: "'w \<Rightarrow> string"
  ne_uuid :: "'w \<Rightarrow> string \<times> 'w"

datatype run_dir_error = RunCollision dir | RunDirIo io_error | RunDirJson serde_error | RunDirManifest manifest_error

record run_dir =
  nd_path :: dir
  nd_run_id :: string
  nd_slug :: string

definition generate_dir_name :: "string \<Rightarrow> string \<Rightarrow> string \<Rightarrow> string" where
  "generate_dir_name slug stamp run_id = slug @ ''-'' @ stamp @ ''-'' @ take 8 run_id"

text \<open>What is done under the guard, which removes the directory unless it is disarmed.\<close>

definition fill_run_dir :: "'w run_dir_env \<Rightarrow> dir \<Rightarrow> string \<Rightarrow> string \<Rightarrow> 'w \<Rightarrow> (run_dir_error, unit) result \<times> 'w" where
  "fill_run_dir env path run_id workflow w =
     (case to_json (ne_libs env) (manifest_new run_id (Some workflow)) of
        Inl e \<Rightarrow> (Inl (RunDirJson e), w)
      | Inr text \<Rightarrow> (case atomic_write (ne_ops env) (pjoin path ''manifest.json'') text w of
            (Inl e, w1) \<Rightarrow> (Inl (RunDirIo e), w1)
          | (Inr _, w1) \<Rightarrow> (case do_mkdirs (ne_ops env) (pjoin path ''attempts'') w1 of
                (Inl e, w2) \<Rightarrow> (Inl (RunDirIo e), w2)
              | (Inr _, w2) \<Rightarrow> (Inr (), w2))))"

definition with_cleanup :: "'w run_dir_env \<Rightarrow> dir \<Rightarrow> string \<Rightarrow> string \<Rightarrow> string \<Rightarrow> 'w \<Rightarrow> (run_dir_error, run_dir) result \<times> 'w" where
  "with_cleanup env path run_id slug workflow w =
     (case fill_run_dir env path run_id workflow w of
        (Inl e, w1) \<Rightarrow> (Inl e, snd (tr_remove_all (ne_tree env) path w1))
      | (Inr _, w1) \<Rightarrow> (Inr \<lparr>nd_path = path, nd_run_id = run_id, nd_slug = slug\<rparr>, w1))"

definition create_with_time ::
  "'w run_dir_env \<Rightarrow> dir \<Rightarrow> string \<Rightarrow> string \<Rightarrow> string \<Rightarrow> 'w \<Rightarrow> (run_dir_error, run_dir) result \<times> 'w" where
  "create_with_time env base workflow stamp run_id w =
     (let slug = ne_slug env workflow; runs = pjoin base ''runs''; path_of = (\<lambda>i. pjoin runs (generate_dir_name slug stamp i)) in
      case do_mkdirs (ne_ops env) runs w of
        (Inl e, w1) \<Rightarrow> (Inl (RunDirIo e), w1)
      | (Inr _, w1) \<Rightarrow> (case tr_mkdir (ne_tree env) (path_of run_id) w1 of
            (Inr _, w2) \<Rightarrow> with_cleanup env (path_of run_id) run_id slug workflow w2
          | (Inl (DirFailed e), w2) \<Rightarrow> (Inl (RunDirIo e), w2)
          | (Inl DirExists, w2) \<Rightarrow> (case ne_uuid env w2 of
                (run_id', w3) \<Rightarrow> (case tr_mkdir (ne_tree env) (path_of run_id') w3 of
                    (Inr _, w4) \<Rightarrow> with_cleanup env (path_of run_id') run_id' slug workflow w4
                  | (Inl DirExists, w4) \<Rightarrow> (Inl (RunCollision (path_of run_id')), w4)
                  | (Inl (DirFailed e), w4) \<Rightarrow> (Inl (RunDirIo e), w4)))))"

definition create_run_dir :: "'w run_dir_env \<Rightarrow> dir \<Rightarrow> string \<Rightarrow> 'w \<Rightarrow> (run_dir_error, run_dir) result \<times> 'w" where
  "create_run_dir env base workflow w =
     (case ne_uuid env w of (run_id, w1) \<Rightarrow> create_with_time env base workflow (ne_stamp env w) run_id w1)"

text \<open>The directory of an attempt, which is not created with the run.\<close>

definition attempt_dir_path :: "dir \<Rightarrow> string \<Rightarrow> 32 word \<Rightarrow> dir" where
  "attempt_dir_path run_dir phase attempt = pjoin (pjoin (pjoin run_dir ''attempts'') phase) (nat_str (unat attempt))"

subsection \<open>All or nothing\<close>

text \<open>
  The result of a creation: the first manifest in a directory that held no file, or the files as they
  were, but for temporary ones; unless the removal of the directory fails too.
\<close>

definition run_dir_result ::
  "'w run_dir_env \<Rightarrow> ('w \<Rightarrow> dir \<rightharpoonup> string) \<Rightarrow> string \<Rightarrow> 'w \<Rightarrow> (run_dir_error, run_dir) result \<Rightarrow> 'w \<Rightarrow> bool" where
  "run_dir_result env files_of workflow w r w' \<longleftrightarrow> (case r of
     Inr d \<Rightarrow> (\<forall>p. prefix (nd_path d) p \<longrightarrow> files_of w p = None) \<and>
       (\<exists>text. to_json (ne_libs env) (manifest_new (nd_run_id d) (Some workflow)) = Inr text \<and>
         (\<forall>p. \<not> temp_name p \<longrightarrow> files_of w' p = (if p = pjoin (nd_path d) ''manifest.json'' then Some text else files_of w p)))
   | Inl e \<Rightarrow> (\<forall>p. \<not> temp_name p \<longrightarrow> files_of w' p = files_of w p) \<or>
       (\<exists>path w2 e'. tr_remove_all (ne_tree env) path w2 = (Inl e', w')))"

lemma manifest_in_run:
  "\<not> temp_name (pjoin (pjoin (pjoin base ''runs'') n) ''manifest.json'')"
  "prefix (pjoin (pjoin base ''runs'') n) (pjoin (pjoin (pjoin base ''runs'') n) ''manifest.json'')"
  using pjoin_plain [OF pjoin_ne [OF runs_dir_ne], of "''manifest.json''" base n]
  by (simp_all add: temp_name_def starts_with_iff)

context tree_store
begin

lemma fill_frame:
  assumes "fill_run_dir env path run_id workflow w = (r, w')" "ne_ops env = ops" "\<not> temp_name (pjoin path ''manifest.json'')"
  shows "(\<forall>p. \<not> temp_name p \<longrightarrow> p \<noteq> pjoin path ''manifest.json'' \<longrightarrow> files_of w' p = files_of w p) \<and>
    (r = Inr () \<longrightarrow> (\<exists>text. to_json (ne_libs env) (manifest_new run_id (Some workflow)) = Inr text \<and>
       files_of w' (pjoin path ''manifest.json'') = Some text))"
proof (cases "to_json (ne_libs env) (manifest_new run_id (Some workflow))")
  case (Inl e)
  with assms(1) show ?thesis by (auto simp: fill_run_dir_def)
next
  case (Inr t)
  obtain r1 w1 where 1: "atomic_write ops (pjoin path ''manifest.json'') t w = (r1, w1)" by (metis prod.exhaust)
  obtain r2 w2 where 2: "do_mkdirs ops (pjoin path ''attempts'') w1 = (r2, w2)" by (metis prod.exhaust)
  from atomic_write_old_or_new [OF 1 assms(3)] mkdirs_same [OF 2] assms(1,2) Inr 1 2 show ?thesis
    by (cases r1; cases r2) (auto simp: fill_run_dir_def)
qed

lemma with_cleanup_result:
  assumes "with_cleanup env path run_id slug workflow w = (r, w')" "ne_ops env = ops" "ne_tree env = tree"
    and "\<not> temp_name (pjoin path ''manifest.json'')" "prefix path (pjoin path ''manifest.json'')"
    and "\<forall>p. prefix path p \<longrightarrow> files_of w p = None"
  shows "run_dir_result env files_of workflow w r w'"
proof -
  obtain rf w1 where f: "fill_run_dir env path run_id workflow w = (rf, w1)" by (metis prod.exhaust)
  note frame = fill_frame [OF f assms(2,4)]
  show ?thesis
  proof (cases rf)
    case (Inr u)
    with assms(1) f have "r = Inr \<lparr>nd_path = path, nd_run_id = run_id, nd_slug = slug\<rparr>" "w' = w1" by (auto simp: with_cleanup_def)
    with frame Inr assms(6) show ?thesis by (auto simp: run_dir_result_def)
  next
    case (Inl e)
    obtain rr w2 where rm: "tr_remove_all tree path w1 = (rr, w2)" by (metis prod.exhaust)
    with assms(1,3) f Inl have w: "r = Inl e" "w' = w2" by (auto simp: with_cleanup_def)
    show ?thesis
    proof (cases rr)
      case (Inl e')
      with w rm assms(3) show ?thesis by (auto simp: run_dir_result_def)
    next
      case (Inr u)
      have "files_of w2 p = files_of w p" if "\<not> temp_name p" for p
        using remove_all_ok [of path w1 w2 p] rm Inr frame that assms(5,6) by (cases "prefix path p") auto
      with w show ?thesis by (auto simp: run_dir_result_def)
    qed
  qed
qed

lemma run_dir_result_cong:
  "files_of v = files_of w \<Longrightarrow> run_dir_result env files_of workflow v r w' \<Longrightarrow> run_dir_result env files_of workflow w r w'"
  by (simp only: run_dir_result_def)

lemma create_with_time_result:
  assumes "create_with_time env base workflow stamp run_id w = (r, w')" "ne_ops env = ops" "ne_tree env = tree"
    and "\<forall>w. files_of (snd (ne_uuid env w)) = files_of w"
  shows "run_dir_result env files_of workflow w r w'"
proof -
  let ?path = "\<lambda>i. pjoin (pjoin base ''runs'') (generate_dir_name (ne_slug env workflow) stamp i)"
  have same: ?thesis if "files_of w' = files_of w" "r = Inl e" for e using that by (simp add: run_dir_result_def)
  obtain r1 w1 where 1: "do_mkdirs ops (pjoin base ''runs'') w = (r1, w1)" by (metis prod.exhaust)
  note v1 = mkdirs_same [OF 1]
  have made: ?thesis if "tr_mkdir tree (?path i) v = (Inr (), v')" "with_cleanup env (?path i) i (ne_slug env workflow) workflow v' = (r, w')"
    "files_of v = files_of w" for i v v'
  proof -
    note m = mkdir_new [OF that(1)] manifest_in_run [of base "generate_dir_name (ne_slug env workflow) stamp i"]
    from m(1) have "\<forall>p. prefix (?path i) p \<longrightarrow> files_of v' p = None" "files_of v' = files_of w" using that(3) by auto
    with with_cleanup_result [OF that(2) assms(2,3) m(2,3)] run_dir_result_cong show ?thesis by blast
  qed
  obtain r2 w2 where 2: "tr_mkdir tree (?path run_id) w1 = (r2, w2)" by (metis prod.exhaust)
  obtain id w3 where 3: "ne_uuid env w2 = (id, w3)" by (metis prod.exhaust)
  obtain r4 w4 where 4: "tr_mkdir tree (?path id) w3 = (r4, w4)" by (metis prod.exhaust)
  have v3: "files_of w3 = files_of w2" using assms(4) 3 by (metis snd_conv)
  note run = assms(1) [unfolded create_with_time_def Let_def assms(2,3) 1]
  show ?thesis
  proof (cases r1)
    case (Inl e)
    with run v1 show ?thesis by (intro same [of "RunDirIo e"]) auto
  next
    case r1: (Inr u)
    show ?thesis
    proof (cases r2)
      case (Inr u)
      with run r1 2 v1 show ?thesis by (intro made [of run_id w1 w2]) auto
    next
      case (Inl e)
      note v2 = mkdir_fail [OF 2 [unfolded Inl]]
      show ?thesis
      proof (cases "e = DirExists \<and> r4 = Inr ()")
        case True
        with run r1 Inl 2 3 4 v1 v2 v3 show ?thesis by (intro made [of id w3 w4]) auto
      next
        case False
        have v4: "files_of w4 = files_of w3" if "r4 = Inl e'" for e' using mkdir_fail [OF 4 [unfolded that]] .
        from False run r1 Inl 2 3 4 have "(\<exists>e. r = Inl e) \<and> (w' = w2 \<or> w' = w4 \<and> r4 \<noteq> Inr ())"
          by (cases e; cases r4) (auto split: mkdir_error.splits)
        then obtain e' where "r = Inl e'" "w' = w2 \<or> w' = w4 \<and> r4 \<noteq> Inr ()" by blast
        moreover from this(2) v1 v2 v3 v4 have "files_of w' = files_of w" by (cases r4) auto
        ultimately show ?thesis by (intro same)
      qed
    qed
  qed
qed

end

subsection \<open>On the concrete disk\<close>

definition disk_mkdir :: "dir \<Rightarrow> disk \<Rightarrow> (mkdir_error, unit) result \<times> disk" where
  "disk_mkdir k d =
     (if list_ex (\<lambda>(p, _). prefix k p) (dk_nodes d) then (Inl DirExists, d)
      else case with_fault (\<lambda>d. if node_at d (parent_dir k) = Some DirNode then (Inr (), set_node k DirNode d) else (Inl NotFound, d)) d of
        (r, d') \<Rightarrow> (map_err DirFailed r, d'))"

definition disk_remove_all :: "dir \<Rightarrow> (disk, unit) io" where
  "disk_remove_all k = with_fault (\<lambda>d. (Inr (), d\<lparr>dk_nodes := filter (\<lambda>(p, _). \<not> prefix k p) (dk_nodes d)\<rparr>))"

definition disk_tree :: "disk tree_ops" where
  "disk_tree = \<lparr>tr_mkdir = disk_mkdir, tr_remove_all = disk_remove_all\<rparr>"

lemma map_err_ok [simp]: "map_err f r = Inr x \<longleftrightarrow> r = Inr x" "Inr x = map_err f r \<longleftrightarrow> r = Inr x"
  by (cases r; auto)+

lemma map_err_err: "map_err f r = Inl e \<longleftrightarrow> (\<exists>e'. r = Inl e' \<and> e = f e')"
  by (cases r) auto

lemma file_of_filter: "file_of (d\<lparr>dk_nodes := filter (\<lambda>(p, _). \<not> prefix k p) (dk_nodes d)\<rparr>) p = (if prefix k p then None else file_of d p)"
proof -
  have "map_of (filter (\<lambda>(p, _). \<not> prefix k p) xs) p = (if prefix k p then None else map_of xs p)" for xs :: "(dir \<times> node) list"
    by (induction xs) auto
  then show ?thesis by (simp add: file_of_def node_at_def)
qed

lemma no_file_below: "\<not> list_ex (\<lambda>(p, _). prefix k p) (dk_nodes d) \<Longrightarrow> prefix k p \<Longrightarrow> file_of d p = None"
  by (auto simp: list_ex_iff file_of_def node_at_def split: option.splits node.splits dest!: map_of_SomeD)

lemma file_of_new_dir: "file_of d k = None \<Longrightarrow> file_of (set_node k DirNode d) = file_of d"
  by (auto simp: file_of_def fun_eq_iff)

interpretation tree: tree_store disk_ops file_of disk_tree
proof
  fix k p :: dir and d d' :: disk and e
  show "file_of d' = file_of d \<and> (\<forall>p. prefix k p \<longrightarrow> file_of d p = None)" if "tr_mkdir disk_tree k d = (Inr (), d')"
  proof -
    from that have ne: "\<not> list_ex (\<lambda>(p, _). prefix k p) (dk_nodes d)" by (auto simp: disk_tree_def disk_mkdir_def split: if_splits)
    with that obtain fs where "d' = set_node k DirNode (d\<lparr>dk_script := fs\<rparr>)"
      by (auto simp: disk_tree_def disk_mkdir_def split: prod.splits if_splits dest!: with_fault_ok)
    with no_file_below [OF ne] show ?thesis by (simp add: file_of_new_dir)
  qed
  show "file_of d' = file_of d" if "tr_mkdir disk_tree k d = (Inl e, d')"
    using that by (auto simp: disk_tree_def disk_mkdir_def split: prod.splits if_splits simp: map_err_err dest!: with_fault_err)
  show "file_of d' p = (if prefix k p then None else file_of d p)" if "tr_remove_all disk_tree k d = (Inr (), d')"
  proof -
    from that have "disk_remove_all k d = (Inr (), d')" by (simp add: disk_tree_def)
    from with_fault_ok [OF this [unfolded disk_remove_all_def]] obtain fs where
      "d' = (d\<lparr>dk_script := fs\<rparr>)\<lparr>dk_nodes := filter (\<lambda>(p, _). \<not> prefix k p) (dk_nodes d)\<rparr>" by auto
    with file_of_filter [where d = "d\<lparr>dk_script := fs\<rparr>"] show ?thesis by simp
  qed
qed

text \<open>
  The creation of the directory of a run is all or nothing, whatever operation fails: the directory
  is new and holds the first manifest, or no file has changed; unless the removal of the half-made
  directory fails as well.
\<close>

lemma run_dir_all_or_nothing:
  assumes "create_run_dir env base workflow d = (r, d')" "ne_ops env = disk_ops" "ne_tree env = disk_tree"
    and "\<forall>d. file_of (snd (ne_uuid env d)) = file_of d"
  shows "run_dir_result env file_of workflow d r d'"
proof -
  obtain i d1 where i: "ne_uuid env d = (i, d1)" by (metis prod.exhaust)
  then have "file_of d1 = file_of d" using assms(4) by (metis snd_conv)
  moreover have "create_with_time env base workflow (ne_stamp env d) i d1 = (r, d')"
    using assms(1) i by (simp add: create_run_dir_def)
  from tree.create_with_time_result [OF this assms(2-4)] have "run_dir_result env file_of workflow d1 r d'" .
  ultimately show ?thesis by (rule tree.run_dir_result_cong)
qed

end
