(* ===== verification/UiRuns.thy ===== *)
theory UiRuns
  imports Gates RunState SortOrder "HOL-Library.Product_Lexorder"
begin

text \<open>
  What the pages of the daemon read from the runs of a project: the file of an artefact
  (\<open>src/ui/artefact.rs\<close>, with its route), the list of runs and the phases of a run
  (\<open>src/ui/discovery.rs\<close>, \<open>src/ui/manifest.rs\<close>), and the gates that wait (\<open>src/ui/gate_discovery.rs\<close>).
  The decoding of percent signs, links, canonical paths, times of files and types of content are
  arguments; the order of the names of a directory is the one that it lists.
\<close>

subsection \<open>Artefacts\<close>

datatype artefact_error = ArtTraversal | ArtNotFound | ArtSymlink | ArtIo io_error

record link_env =
  lk_is_link :: "dir \<Rightarrow> (io_error, bool) result"
  lk_canonical :: "dir \<Rightarrow> (io_error, dir) result"
  lk_is_file :: "dir \<Rightarrow> (io_error, bool) result"
  lk_decode :: "string \<Rightarrow> string"

definition is_symlink :: "link_env \<Rightarrow> dir \<Rightarrow> (artefact_error, bool) result" where
  "is_symlink env p = (case lk_is_link env p of Inr b \<Rightarrow> Inr b | Inl NotFound \<Rightarrow> Inr False | Inl e \<Rightarrow> Inl (ArtIo e))"

definition plain_part :: "string \<Rightarrow> bool" where
  "plain_part c \<longleftrightarrow> c \<noteq> [] \<and> c \<noteq> ''.'' \<and> c \<noteq> ''..'' \<and> CHR 0x00 \<notin> set c \<and> CHR 0x5C \<notin> set c"

fun walk_links :: "link_env \<Rightarrow> dir \<Rightarrow> string list \<Rightarrow> (artefact_error, unit) result" where
  "walk_links env p cs = rbind (is_symlink env p) (\<lambda>b. if b then Inl ArtSymlink
     else case cs of [] \<Rightarrow> Inr () | c # cs' \<Rightarrow> walk_links env (pjoin p c) cs')"

declare walk_links.simps [simp del]

definition resolve_artefact :: "link_env \<Rightarrow> dir \<Rightarrow> string \<Rightarrow> string \<Rightarrow> (artefact_error, dir) result" where
  "resolve_artefact env root run_id rel =
     (if \<not> validate_run_id run_id then Inl ArtTraversal
      else let run_root = pjoin (pjoin root ''runs'') run_id; parts = split_slash (lk_decode env rel) in
        if \<not> list_all plain_part parts then Inl ArtTraversal
        else rbind (walk_links env run_root parts) (\<lambda>_.
          case lk_canonical env (foldl pjoin run_root parts) of
            Inl NotFound \<Rightarrow> Inl ArtNotFound
          | Inl e \<Rightarrow> Inl (ArtIo e)
          | Inr path \<Rightarrow> (case lk_canonical env run_root of
                Inl e \<Rightarrow> Inl (ArtIo e)
              | Inr base \<Rightarrow>
                  if \<not> prefix base path then Inl ArtTraversal
                  else case lk_is_file env path of
                      Inr True \<Rightarrow> Inr path
                    | Inr False \<Rightarrow> Inl ArtNotFound
                    | Inl NotFound \<Rightarrow> Inl ArtNotFound
                    | Inl e \<Rightarrow> Inl (ArtIo e))))"

text \<open>The route; the arguments have been decoded once by the router.\<close>

definition get_artefact :: "link_env \<Rightarrow> (dir \<Rightarrow> (io_error, string) result) \<Rightarrow> (dir \<Rightarrow> string) \<Rightarrow> dir \<Rightarrow> string \<Rightarrow> string \<Rightarrow> web_response" where
  "get_artefact env rd mime root run_id path =
     (if \<not> validate_run_id run_id then page 400 ''Invalid run ID''
      else case resolve_artefact env root run_id path of
          Inr p \<Rightarrow> (case rd p of
              Inr body \<Rightarrow> add_security_headers \<lparr>wr_status = 200,
                wr_headers = [(''content-type'', mime p), (''content-disposition'', ''attachment'')], wr_body = body\<rparr>
            | Inl _ \<Rightarrow> page 404 ''Not found'')
        | Inl ArtTraversal \<Rightarrow> page 400 ''Invalid path''
        | Inl ArtSymlink \<Rightarrow> page 403 ''Symlink not allowed''
        | Inl _ \<Rightarrow> page 404 ''Not found'')"

subsection \<open>The phases of a run\<close>

definition classify_marker :: "string \<Rightarrow> (string \<times> string \<times> nat) option" where
  "classify_marker n =
     (case strip_suffix ''.completed'' n of
        Some phase \<Rightarrow> Some (phase, ''completed'', 3)
      | None \<Rightarrow> (case strip_suffix ''.failed'' n of
            Some phase \<Rightarrow> Some (phase, ''failed'', 2)
          | None \<Rightarrow> (case strip_suffix ''.started'' n of
                Some phase \<Rightarrow> Some (phase, ''started'', 1)
              | None \<Rightarrow> (case find_sub ''.started.'' n of
                    Some i \<Rightarrow> if i \<noteq> 0 then Some (take i n, ''started'', 1) else None
                  | None \<Rightarrow> None))))"

definition mark_phase :: "(string \<times> (nat \<times> string)) list \<Rightarrow> string \<Rightarrow> (string \<times> (nat \<times> string)) list" where
  "mark_phase m n =
     (case classify_marker n of
        None \<Rightarrow> m
      | Some (phase, status, rank) \<Rightarrow>
          bt_upd phase (\<lambda>c. let (r, s) = unwrap_or (0, []) c in if r < rank then (rank, status) else (r, s)) m)"

definition phase_marks :: "string list \<Rightarrow> (string \<times> (nat \<times> string)) list" where
  "phase_marks names = foldl mark_phase [] names"

definition scan_markers :: "reader \<Rightarrow> dir \<Rightarrow> (string \<times> string) list" where
  "scan_markers rd d =
     (case rd_list rd d of Inl _ \<Rightarrow> [] | Inr names \<Rightarrow> map (\<lambda>(phase, _, status). (phase, status)) (phase_marks names))"

record phase_step =
  ph_name :: string
  ph_status :: string
  ph_started_at :: "string option"
  ph_completed_at :: "string option"

definition build_phase_timeline :: "reader \<Rightarrow> dir \<Rightarrow> phase_step list" where
  "build_phase_timeline rd run_dir =
     map (\<lambda>(n, s). \<lparr>ph_name = n, ph_status = s, ph_started_at = None, ph_completed_at = None\<rparr>) (scan_markers rd (pjoin run_dir ''markers''))"

record shown_entry =
  se_name :: string
  se_kind :: string
  se_version :: "32 word"
  se_sha256 :: "string option"

definition shown_entry_of :: "json \<Rightarrow> shown_entry option" where
  "shown_entry_of v =
     (case (Option.bind (json_get ''name'' v) as_str, Option.bind (json_get ''kind'' v) as_str,
            Option.bind (json_get ''schema_version'' v) as_u64) of
        (Some n, Some k, Some i) \<Rightarrow> Some \<lparr>se_name = n, se_kind = k, se_version = of_nat i,
          se_sha256 = Option.bind (json_get ''sha256'' v) as_str\<rparr>
      | _ \<Rightarrow> None)"

definition read_document :: "json_lib \<Rightarrow> reader \<Rightarrow> dir \<Rightarrow> json option" where
  "read_document js rd p = (case rd_read rd p of Inl _ \<Rightarrow> None | Inr text \<Rightarrow> (case js_parse js text of Inl _ \<Rightarrow> None | Inr v \<Rightarrow> Some v))"

definition read_manifest_entries :: "json_lib \<Rightarrow> reader \<Rightarrow> dir \<Rightarrow> shown_entry list" where
  "read_manifest_entries js rd p =
     (case Option.bind (read_document js rd p) (json_get ''entries'') of
        Some (JArr es) \<Rightarrow> List.map_filter shown_entry_of es
      | _ \<Rightarrow> [])"

subsection \<open>The runs of a project\<close>

record run_overview =
  ru_id :: string
  ru_path :: dir
  ru_workflow :: "string option"
  ru_run_id :: "string option"
  ru_created_at :: "string option"
  ru_phases :: "(string \<times> string) list"

text \<open>\<open>None\<close> is an error, which is written to the log.\<close>

definition load_run_summary :: "json_lib \<Rightarrow> reader \<Rightarrow> (dir \<Rightarrow> string option) \<Rightarrow> dir \<Rightarrow> string \<Rightarrow> run_overview option" where
  "load_run_summary js rd created run_dir name =
     map_option (\<lambda>v. \<lparr>ru_id = name, ru_path = run_dir, ru_workflow = Option.bind (json_get ''workflow_name'' v) as_str,
         ru_run_id = Option.bind (json_get ''loker.run_id'' v) as_str, ru_created_at = created run_dir,
         ru_phases = scan_markers rd (pjoin run_dir ''markers'')\<rparr>)
       (read_document js rd (pjoin run_dir ''manifest.json''))"

definition run_dirs :: "reader \<Rightarrow> dir \<Rightarrow> string list" where
  "run_dirs rd runs =
     (if \<not> rd_exists rd runs then []
      else case rd_list rd runs of Inl _ \<Rightarrow> [] | Inr names \<Rightarrow> filter (\<lambda>n. rd_is_dir rd (runs @ [Normal n])) names)"

definition discover_runs :: "json_lib \<Rightarrow> reader \<Rightarrow> (dir \<Rightarrow> string option) \<Rightarrow> dir \<Rightarrow> run_overview list" where
  "discover_runs js rd created root =
     (let runs = pjoin root ''runs'' in
      sort_key ru_id (List.map_filter (\<lambda>n. load_run_summary js rd created (runs @ [Normal n]) n) (run_dirs rd runs)))"

subsection \<open>The gates that wait\<close>

record waiting_gate =
  wg_run_id :: string
  wg_run_dir :: dir
  wg_phase :: string
  wg_workflow :: string
  wg_severity :: string
  wg_artefact :: string
  wg_pending :: dir

definition severity_rank :: "string \<Rightarrow> nat" where
  "severity_rank s = (if s \<in> {''high'', ''critical''} then 0 else if s = ''medium'' then 1 else if s = ''low'' then 2 else 3)"

definition gate_facts :: "json option \<Rightarrow> string \<times> string" where
  "gate_facts v =
     (case v of
        None \<Rightarrow> (''medium'', [])
      | Some v \<Rightarrow> (unwrap_or ''medium'' (Option.bind (json_get ''severity'' v) as_str),
          unwrap_or [] (Option.bind (Option.bind (json_get ''artefact'' v) (json_get ''path'')) as_str)))"

definition gate_at :: "json_lib \<Rightarrow> reader \<Rightarrow> dir \<Rightarrow> string \<Rightarrow> string \<Rightarrow> string \<Rightarrow> waiting_gate option" where
  "gate_at js rd run_dir run_id workflow n =
     (let p = pjoin run_dir ''pending'' @ [Normal n]; phase = unwrap_or [] (strip_suffix ''.json'' n) in
      if \<not> rd_is_file rd p \<or> phase = [] \<or> rd_exists rd (pjoin (pjoin run_dir ''responses'') (phase @ ''.json'')) then None
      else let (severity, artefact) = gate_facts (read_document js rd p) in
        Some \<lparr>wg_run_id = run_id, wg_run_dir = run_dir, wg_phase = phase, wg_workflow = workflow, wg_severity = severity,
          wg_artefact = artefact, wg_pending = p\<rparr>)"

definition gates_of_run :: "json_lib \<Rightarrow> reader \<Rightarrow> dir \<Rightarrow> string \<Rightarrow> waiting_gate list" where
  "gates_of_run js rd run_dir run_id =
     (let d = pjoin run_dir ''pending'' in
      if \<not> rd_exists rd d then []
      else case rd_list rd d of
          Inl _ \<Rightarrow> []
        | Inr names \<Rightarrow>
            let workflow = unwrap_or [] (Option.bind (Option.bind (read_document js rd (pjoin run_dir ''manifest.json''))
              (json_get ''workflow_name'')) as_str)
            in List.map_filter (gate_at js rd run_dir run_id workflow) names)"

definition gate_key :: "waiting_gate \<Rightarrow> nat \<times> string" where
  "gate_key g = (severity_rank (wg_severity g), wg_run_id g)"

definition discover_pending_gates :: "json_lib \<Rightarrow> reader \<Rightarrow> dir \<Rightarrow> waiting_gate list" where
  "discover_pending_gates js rd root =
     (let runs = pjoin root ''runs'' in
      sort_key gate_key (concat (map (\<lambda>n. gates_of_run js rd (runs @ [Normal n]) n) (run_dirs rd runs))))"

subsection \<open>Which files are served\<close>

lemma split_slash_parts: "c \<in> set (split_slash s) \<Longrightarrow> CHR ''/'' \<notin> set c"
  by (induction s arbitrary: c) (auto split: if_splits list.splits)

lemma run_root_ne: "pjoin (pjoin root ''runs'') run_id \<noteq> []"
  by (rule pjoin_ne) (rule runs_dir_ne)

lemma join_parts:
  "k \<noteq> [] \<Longrightarrow> list_all plain_part cs \<Longrightarrow> \<forall>c \<in> set cs. CHR ''/'' \<notin> set c \<Longrightarrow> foldl pjoin k cs = k @ map Normal cs"
  by (induction cs arbitrary: k) (simp_all add: plain_part_def pjoin_plain)

lemma walk_links_ok:
  "walk_links env p cs = Inr () \<longleftrightarrow> (\<forall>i \<le> length cs. is_symlink env (foldl pjoin p (take i cs)) = Inr False)"
proof (induction cs arbitrary: p)
  case Nil
  show ?case by (subst walk_links.simps) (auto simp: rbind_Inr split: if_splits)
next
  case (Cons c cs)
  have "walk_links env p (c # cs) = Inr () \<longleftrightarrow> is_symlink env p = Inr False \<and> walk_links env (pjoin p c) cs = Inr ()"
    by (subst walk_links.simps) (auto simp: rbind_Inr split: if_splits)
  moreover have "(\<forall>i \<le> Suc n. Q i) \<longleftrightarrow> Q 0 \<and> (\<forall>i \<le> n. Q (Suc i))" for Q n
    by (metis Suc_le_mono le0 not0_implies_Suc)
  from this [of "length cs" "\<lambda>i. is_symlink env (foldl pjoin p (take i (c # cs))) = Inr False"]
  have "(\<forall>i \<le> length (c # cs). is_symlink env (foldl pjoin p (take i (c # cs))) = Inr False) \<longleftrightarrow>
      is_symlink env p = Inr False \<and> (\<forall>i \<le> length cs. is_symlink env (foldl pjoin (pjoin p c) (take i cs)) = Inr False)" by simp
  ultimately show ?case by (simp only: Cons.IH)
qed

text \<open>What \<open>canonicalize\<close> does with a component that is no link: it puts it behind the canonical path of the rest,
  on a file system that keeps names as they are given (one that ignores case may not).\<close>

definition canonical_by_steps :: "link_env \<Rightarrow> bool" where
  "canonical_by_steps env \<longleftrightarrow> (\<forall>p c q. p \<noteq> [] \<longrightarrow> lk_is_link env (p @ [Normal c]) \<noteq> Inr True \<longrightarrow>
     lk_canonical env (p @ [Normal c]) = Inr q \<longrightarrow> (\<exists>q'. lk_canonical env p = Inr q' \<and> q = q' @ [Normal c]))"

lemma canonical_parts:
  "canonical_by_steps env \<Longrightarrow> k \<noteq> [] \<Longrightarrow> \<forall>i \<le> length cs. is_symlink env (k @ map Normal (take i cs)) = Inr False \<Longrightarrow>
     lk_canonical env (k @ map Normal cs) = Inr q \<Longrightarrow> \<exists>base. lk_canonical env k = Inr base \<and> q = base @ map Normal cs"
proof (induction cs arbitrary: q rule: rev_induct)
  case (snoc c cs)
  have "is_symlink env ((k @ map Normal cs) @ [Normal c]) = Inr False"
    using snoc.prems(3) [rule_format, of "Suc (length cs)"] by simp
  then have "lk_is_link env ((k @ map Normal cs) @ [Normal c]) \<noteq> Inr True" by (auto simp: is_symlink_def)
  moreover have "lk_canonical env ((k @ map Normal cs) @ [Normal c]) = Inr q" using snoc.prems(4) by simp
  ultimately obtain q' where q': "lk_canonical env (k @ map Normal cs) = Inr q'" "q = q' @ [Normal c]"
    using snoc.prems(1,2) unfolding canonical_by_steps_def by blast
  have "is_symlink env (k @ map Normal (take i cs)) = Inr False" if "i \<le> length cs" for i
    using snoc.prems(3) [rule_format, of i] that by simp
  with snoc.IH [OF snoc.prems(1,2) _ q'(1)] q'(2) show ?case by auto
qed simp

text \<open>
  C36: Which file is served: the one whose canonical path is that of the directory of the run with the
  decoded parts of the request behind it. It is a file, no part leads up or is empty, and no directory on
  the way, nor the file, is a link. The test for the prefix never fails by itself.
\<close>

theorem artefact_served_iff:
  assumes "canonical_by_steps env"
  shows "resolve_artefact env root run_id rel = Inr path \<longleftrightarrow>
    (let run_root = pjoin (pjoin root ''runs'') run_id; parts = split_slash (lk_decode env rel) in
      validate_run_id run_id \<and> list_all plain_part parts \<and>
      (\<forall>i \<le> length parts. is_symlink env (run_root @ map Normal (take i parts)) = Inr False) \<and>
      lk_canonical env (run_root @ map Normal parts) = Inr path \<and> lk_is_file env path = Inr True \<and>
      (\<exists>base. lk_canonical env run_root = Inr base \<and> path = base @ map Normal parts))"
    (is "?L \<longleftrightarrow> ?R")
proof (cases "validate_run_id run_id \<and> list_all plain_part (split_slash (lk_decode env rel))")
  case True
  let ?r = "pjoin (pjoin root ''runs'') run_id" and ?ps = "split_slash (lk_decode env rel)"
  have sub: "list_all plain_part (take i ?ps) \<and> (\<forall>c \<in> set (take i ?ps). CHR ''/'' \<notin> set c)" for i
    using True split_slash_parts by (auto simp: list_all_iff dest: in_set_takeD)
  then have join: "foldl pjoin ?r (take i ?ps) = ?r @ map Normal (take i ?ps)" for i
    using join_parts run_root_ne True by blast
  let ?free = "\<forall>i \<le> length ?ps. is_symlink env (?r @ map Normal (take i ?ps)) = Inr False"
  have walk: "walk_links env ?r ?ps = Inr () \<longleftrightarrow> ?free" by (simp only: walk_links_ok join)
  have "?L \<longleftrightarrow> ?free \<and> lk_canonical env (?r @ map Normal ?ps) = Inr path \<and> lk_is_file env path = Inr True \<and>
      (\<exists>base. lk_canonical env ?r = Inr base \<and> prefix base path)"
    using True join [of "length ?ps"]
    by (auto simp: resolve_artefact_def Let_def rbind_Inr walk split: sum.splits io_error.splits bool.splits if_splits)
  also have "\<dots> \<longleftrightarrow> ?R"
    using True canonical_parts [OF assms run_root_ne [of root run_id], where cs = ?ps and q = path] by (auto simp: Let_def)
  finally show ?thesis .
next
  case False
  then show ?thesis by (auto simp: resolve_artefact_def Let_def)
qed

subsection \<open>What is shown of a run\<close>

fun status_text :: "phase_status \<Rightarrow> string" where
  "status_text PsStarted = ''started''"
| "status_text PsFailed = ''failed''"
| "status_text PsCompleted = ''completed''"
| "status_text PsNone = []"

text \<open>A name that the loader of the run and the page read alike, and a completed marker that can be read.\<close>

definition regular_marker :: "libs \<Rightarrow> reader \<Rightarrow> dir \<Rightarrow> string \<Rightarrow> bool" where
  "regular_marker L rd d n \<longleftrightarrow> rd_is_file rd (d @ [Normal n]) \<and> (classify_marker n = None \<longrightarrow> \<not> contains n ''.started'') \<and>
     (ends_with n ''.completed'' \<longrightarrow> (\<exists>c sha. rd_read rd (d @ [Normal n]) = Inr c \<and> read_completed L c = Some sha))"

definition shown_as :: "(string \<times> (nat \<times> string)) list \<Rightarrow> (string \<rightharpoonup> phase_status) \<Rightarrow> bool" where
  "shown_as m st \<longleftrightarrow> bt_inv m \<and> (\<forall>p. st p \<noteq> Some PsNone) \<and> (\<forall>p. map_of m p = map_option (\<lambda>x. (status_rank x, status_text x)) (st p))"

lemma shown_as_update:
  assumes "shown_as m st" "x \<noteq> PsNone" "rank = status_rank x" "status = status_text x"
  shows "shown_as (bt_upd phase (\<lambda>c. let (r, s) = unwrap_or (0, []) c in if r < rank then (rank, status) else (r, s)) m)
    (fst (update_phase_status st phase x))"
  using assms by (cases x; cases "st phase") (auto simp: shown_as_def update_phase_status_def bt_inv_upd bt_map_of_upd)

lemma scan_one_shown:
  assumes "shown_as m (sc_status s)" "regular_marker L rd d n"
  shows "shown_as (mark_phase m n) (sc_status (scan_one L rd d n s))"
proof -
  note up = shown_as_update [OF assms(1)]
  have isf: "rd_is_file rd (d @ [Normal n])" using assms(2) by (simp add: regular_marker_def)
  consider (completed) p where "strip_suffix ''.completed'' n = Some p"
    | (failed) p where "strip_suffix ''.completed'' n = None" "strip_suffix ''.failed'' n = Some p"
    | (started) "strip_suffix ''.completed'' n = None" "strip_suffix ''.failed'' n = None"
    by (cases "strip_suffix ''.completed'' n"; cases "strip_suffix ''.failed'' n") auto
  then show ?thesis
  proof cases
    case completed
    then obtain c sha where "rd_read rd (d @ [Normal n]) = Inr c" "read_completed L c = Some sha"
      using assms(2) by (auto simp: regular_marker_def ends_with_def)
    with completed isf up [of PsCompleted 3 "''completed''" p] show ?thesis
      by (simp add: mark_phase_def classify_marker_def scan_one_def marker_phase_def ends_with_def set_status_def)
  next
    case failed
    with isf up [of PsFailed 2 "''failed''" p] show ?thesis
      by (simp add: mark_phase_def classify_marker_def scan_one_def marker_phase_def ends_with_def set_status_def)
  next
    case started
    show ?thesis
    proof (cases "classify_marker n")
      case None
      then have "\<not> contains n ''.started''" using assms(2) by (simp add: regular_marker_def)
      with None started assms(1) show ?thesis
        by (simp add: mark_phase_def scan_one_def ends_with_def split: option.splits)
    next
      case (Some c)
      then obtain p where p: "c = (p, ''started'', 1)" "marker_phase n = Some p"
        using started by (auto simp: classify_marker_def marker_phase_def split: option.splits if_splits)
      have "contains n ''.started''"
        using Some started by (auto simp: classify_marker_def contains_iff strip_suffix_eq_Some dest!: find_sub_Some split: option.splits if_splits)
          (metis append.assoc append_Cons append_Nil)+
      with Some p started isf up [of PsStarted "Suc 0" "''started''" p] show ?thesis
        by (simp add: mark_phase_def scan_one_def ends_with_def set_status_def)
    qed
  qed
qed

text \<open>
  The page of a run and the loader that a resume relies on agree on every phase, when the names of the markers
  are regular and the completed ones can be read.
\<close>

theorem timeline_agrees:
  assumes "load_markers L rd run_dir = Inr sc" "rd_list rd (pjoin run_dir ''markers'') = Inr names" "rd_exists rd (pjoin run_dir ''markers'')"
    and "\<forall>n \<in> set names. regular_marker L rd (pjoin run_dir ''markers'') n"
  shows "map_of (scan_markers rd (pjoin run_dir ''markers'')) phase = map_option status_text (sc_status sc phase)"
proof -
  let ?d = "pjoin run_dir ''markers''"
  have "shown_as m (sc_status s) \<Longrightarrow> \<forall>n \<in> set ns. regular_marker L rd ?d n \<Longrightarrow>
      shown_as (foldl mark_phase m ns) (sc_status (foldl (\<lambda>s n. scan_one L rd ?d n s) s ns))" for m s ns
    by (induction ns arbitrary: m s) (simp_all add: scan_one_shown)
  from this [of "[]" no_markers names] assms have "shown_as (phase_marks names) (sc_status sc)"
    by (simp add: shown_as_def no_markers_def bt_inv_def phase_marks_def load_markers_def Let_def)
  then have "map_of (phase_marks names) phase = map_option (\<lambda>x. (status_rank x, status_text x)) (sc_status sc phase)"
    by (simp add: shown_as_def)
  moreover have "map_of (map (\<lambda>(p, _, st). (p, st)) m) phase = map_option snd (map_of m phase)" for m :: "(string \<times> nat \<times> string) list"
    by (induction m) auto
  ultimately show ?thesis using assms(2) by (simp add: scan_markers_def option.map_comp comp_def)
qed

text \<open>A gate that is listed waits: its request is a file and it has no response. The most severe ones come first.\<close>

lemma gate_at_waits:
  "gate_at js rd run_dir run_id workflow n = Some g \<Longrightarrow>
     rd_is_file rd (wg_pending g) \<and> \<not> rd_exists rd (pjoin (pjoin (wg_run_dir g) ''responses'') (wg_phase g @ ''.json''))"
  by (auto simp: gate_at_def Let_def split: if_splits prod.splits)

lemma listed_gates_wait:
  assumes "g \<in> set (discover_pending_gates js rd root)"
  shows "rd_is_file rd (wg_pending g) \<and> \<not> rd_exists rd (pjoin (pjoin (wg_run_dir g) ''responses'') (wg_phase g @ ''.json''))"
proof -
  from assms obtain n where "g \<in> set (gates_of_run js rd (pjoin root ''runs'' @ [Normal n]) n)"
    by (auto simp: discover_pending_gates_def Let_def)
  then obtain w m where "gate_at js rd (pjoin root ''runs'' @ [Normal n]) n w m = Some g"
    by (auto simp: gates_of_run_def Let_def map_filter_def split: if_splits sum.splits)
  then show ?thesis by (rule gate_at_waits)
qed

lemma listed_gates_sorted: "sorted (map gate_key (discover_pending_gates js rd root))"
  by (simp add: discover_pending_gates_def Let_def)

subsection \<open>Examples\<close>

definition demo_links :: link_env where
  "demo_links = \<lparr>lk_is_link = (\<lambda>_. Inr False), lk_canonical = (\<lambda>p. Inr p), lk_is_file = (\<lambda>_. Inr True), lk_decode = (\<lambda>s. s)\<rparr>"

theorem artefact_served_iff_witness:
  "resolve_artefact demo_links [RootDir, Normal ''p''] ''r1'' ''artefacts/a.md'' =
     Inr [RootDir, Normal ''p'', Normal ''runs'', Normal ''r1'', Normal ''artefacts'', Normal ''a.md''] \<and>
   (\<forall>path. resolve_artefact demo_links [RootDir, Normal ''p''] ''r1'' ''artefacts/../../r2/a.md'' \<noteq> Inr path)"
proof -
  have steps: "canonical_by_steps demo_links" by (simp add: canonical_by_steps_def demo_links_def)
  have ok: "validate_run_id ''r1''" by (simp add: validate_run_id_def contains_def)
  have free: "is_symlink demo_links p = Inr False" for p by (simp add: is_symlink_def demo_links_def)
  have root: "pjoin (pjoin [RootDir, Normal ''p''] ''runs'') ''r1'' = [RootDir, Normal ''p'', Normal ''runs'', Normal ''r1'']" by (simp add: pjoin_plain)
  have fields: "lk_decode demo_links s = s" "lk_canonical demo_links p = Inr p" "lk_is_file demo_links p = Inr True" for s p
    by (simp_all add: demo_links_def)
  show ?thesis
    unfolding artefact_served_iff [OF steps] Let_def root
    by (simp add: ok free fields plain_part_def)
qed

definition demo_markers :: "string list \<Rightarrow> reader" where
  "demo_markers names = \<lparr>rd_read = (\<lambda>_. Inl NotFound), rd_exists = (\<lambda>_. True), rd_is_file = (\<lambda>_. True), rd_is_dir = (\<lambda>_. True),
     rd_list = (\<lambda>_. Inr names)\<rparr>"

theorem timeline_agrees_witness:
  "\<exists>sc. load_markers demo_libs (demo_markers [''b.started.1'', ''b.failed'']) [RootDir] = Inr sc \<and>
     map_of (scan_markers (demo_markers [''b.started.1'', ''b.failed'']) (pjoin [RootDir] ''markers'')) ''b'' =
       map_option status_text (sc_status sc ''b'')"
proof -
  let ?names = "[''b.started.1'', ''b.failed'']"
  obtain sc where l: "load_markers demo_libs (demo_markers ?names) [RootDir] = Inr sc"
    by (simp add: load_markers_def demo_markers_def Let_def)
  have "\<forall>n \<in> set ?names. regular_marker demo_libs (demo_markers ?names) (pjoin [RootDir] ''markers'') n"
    by (simp add: regular_marker_def demo_markers_def classify_marker_def ends_with_def strip_suffix_def)
  from timeline_agrees [OF l _ _ this] l show ?thesis by (simp add: demo_markers_def)
qed

text \<open>A name that is no marker counts as a phase for the loader, and not for the page.\<close>

lemma stray_name_loaded:
  "classify_marker ''x.startedfoo'' = None"
  "sc_status (scan_one L (demo_markers [''x.startedfoo'']) d ''x.startedfoo'' no_markers) ''x.startedfoo'' = Some PsStarted"
proof -
  have n: "strip_suffix ''.completed'' ''x.startedfoo'' = None" "strip_suffix ''.failed'' ''x.startedfoo'' = None"
    "strip_suffix ''.started'' ''x.startedfoo'' = None" "find_sub ''.started.'' ''x.startedfoo'' = None" "contains ''x.startedfoo'' ''.started''"
    by code_simp+
  then show "classify_marker ''x.startedfoo'' = None" by (simp add: classify_marker_def)
  from n show "sc_status (scan_one L (demo_markers [''x.startedfoo'']) d ''x.startedfoo'' no_markers) ''x.startedfoo'' = Some PsStarted"
    by (simp add: scan_one_def marker_phase_def ends_with_def set_status_def update_phase_status_def demo_markers_def no_markers_def)
qed

text \<open>The directory of all runs passes for a run: its identifier is a dot.\<close>

lemma dot_run_accepted:
  "validate_run_id ''.''" "pjoin (pjoin root ''runs'') ''.'' = pjoin root ''runs''"
  using runs_dir_ne [of root]
  by (simp_all add: validate_run_id_def contains_def pjoin_def [of "pjoin root ''runs''"] is_absolute_def body_components_def)

end
