(* ===== verification/Spec2Isabelle.thy ===== *)
theory Spec2Isabelle
  imports Family RetryLoop BackendRetry AggregatorProps VoteProps Consensus Escalating FanOutProps StepProps
    DispatchProps PhaseLock PhaseOrder RunStateProps CrashSafety PhaseBridge Resume Sweep
    TestRunner LlmVerifier Summary Gates Pool Codebase TraceTail RunDirs UiRuns
begin

text \<open>
  The verification development of loker, root theory.

  Loker drives language models from files that describe workflows. There are two kinds of them. A
  step-based workflow (\<open>src/workflow/mod.rs\<close>) is a graph of steps, each a shell command, a query of
  one backend or of several, or a loop over an array. A phase-based workflow (\<open>src/workflow/grammar.rs\<close>)
  is a sequence of phases; each runs a strategy (\<open>src/strategy\<close>) over backends (\<open>src/backend\<close>), combines
  the answers by an aggregator (\<open>src/aggregator\<close>), asks a verification hook (\<open>src/strategy/verify\<close>) and
  commits an artefact to the run directory (\<open>src/phase_runner\<close>, \<open>src/manifest.rs\<close>, \<open>src/run_state\<close>), from
  which a later process resumes (\<open>src/resume.rs\<close>). Answers that hold edits of files go through
  \<open>src/apply_verify\<close>: parsed, applied, verified, and rolled back when the verification fails.

  \<^bold>\<open>Foundations.\<close> \<open>Prelude\<close> has results (\<open>Inl\<close> an error, \<open>Inr\<close> a value) and shared lemmas; \<open>RustStr\<close>
  strings as lists of UTF-8 bytes; \<open>RustMap\<close> the maps (\<open>HashMap\<close> as an association list whose order of
  iteration is an argument wherever it shows, \<open>BTreeMap\<close> sorted) behind the locale \<open>entry_map\<close>; \<open>FileStore\<close>
  paths and the locale \<open>file_store\<close> of file operations with its extensions, interpreted on an in-memory
  store; \<open>Json\<close> the values of \<open>serde_json\<close>.

  \<^bold>\<open>Edits.\<close> \<open>EditParser\<close> models \<open>src/apply_verify/edit_parser.rs\<close>, \<open>DiffApplier\<close> the files
  \<open>diff_applier.rs\<close> and \<open>rollback.rs\<close>, \<open>Verification\<close> the result of a verification command, \<open>RetryLoop\<close>
  the loop of parsing, applying, verifying and asking again. \<open>ApplyProps\<close> holds the theorems: on a
  store whose writes do not fail a rollback leaves the files as they were, what a complete report of it
  means on any store, and that no edit leaves the working directory. The recursion of the loop is over
  the attempts that are left.

  \<^bold>\<open>Backends and answers.\<close> \<open>Family\<close>, \<open>Backend\<close> and \<open>BackendRetry\<close> model the families, the errors and their
  classification, and the retrying decorator, whose recursion is over the retries that are left.
  \<open>Backends\<close> models \<open>codex.rs\<close>, \<open>gemini.rs\<close>, \<open>claude.rs\<close>, \<open>ollama.rs\<close> and \<open>tensorzero.rs\<close> of \<open>src/backend\<close>: the
  command or the request of each and the reading of its answer; its theorems say that a shell reads a
  prompt as the one word it is, which message of a stream is the answer, and what an endpoint becomes.
  \<open>Pool\<close> models the creation of backends, the query of several (\<open>src/backend/mod.rs\<close>) and the commands
  \<open>ask\<close> and \<open>smart\<close> of \<open>src/main.rs\<close>. \<open>Aggregator\<close>, \<open>Vote\<close>, \<open>LlmJudge\<close>, \<open>Consensus\<close> and \<open>WeightedVote\<close> (with
  \<open>AggregatorProps\<close> and \<open>VoteProps\<close>) model the ways several answers become one: which answer wins, who
  wins a tie, that a judge comes from another family.

  \<^bold>\<open>Configuration and routing.\<close> \<open>Config\<close> models \<open>src/config.rs\<close>: the records with their defaults and the
  layers of files, with the theorem that says which layer a setting comes from. \<open>Role\<close> resolves roles
  and teams to backends (\<open>src/role/mod.rs\<close>), \<open>Delegation\<close> recommends backends for a prompt
  (\<open>src/delegation.rs\<close>), \<open>Cache\<close> keeps answers (\<open>src/cache.rs\<close>), and \<open>Codebase\<close> detects what a project is
  made of and the commands that format and verify it (\<open>src/context.rs\<close>).

  \<^bold>\<open>Strategies.\<close> \<open>Strategy\<close> has the outputs and their wire form, \<open>SingleModel\<close>, \<open>Escalating\<close> and \<open>FanOut\<close>
  (\<open>FanOutProps\<close>) the three strategies; concurrent branches are a list of answers in the order in
  which they arrive. \<open>Dispatch\<close> resolves a configuration to a strategy, and \<open>DispatchProps\<close> shows that
  each resolved strategy keeps the contract that the phase runner relies on (a locale, interpreted on
  every strategy).

  \<^bold>\<open>Verification hooks.\<close> \<open>RunCommand\<close>, \<open>TestRunner\<close> and \<open>LlmVerifier\<close> model the files \<open>run_command.rs\<close>,
  \<open>test_runner.rs\<close> and \<open>llm_verifier.rs\<close> of \<open>src/strategy/verify\<close>: the environment and the output of a
  command, the report of a test suite, the verdict of a model, and exactly when each of them passes.
  \<open>HumanVerifier\<close> is the gate that waits for a human (a fallback server may serve it again and again,
  which a fuel counts; without the server none is used), and \<open>Gates\<close> the routes by which the decision
  arrives (\<open>src/ui/security.rs\<close>, \<open>src/ui/routes.rs\<close>, \<open>src/hitl_server\<close>), with the guards on a request.

  \<^bold>\<open>Pages.\<close> \<open>UiRuns\<close> models what the daemon reads from the runs of a project: which file an artefact
  request serves (\<open>src/ui/artefact.rs\<close>), the list of runs and the phases and entries of a run
  (\<open>src/ui/discovery.rs\<close>, \<open>src/ui/manifest.rs\<close>), and the gates that wait (\<open>src/ui/gate_discovery.rs\<close>).
  Its theorems say exactly which files are served, and that a page and the loading of a run agree.

  \<^bold>\<open>Runs.\<close> \<open>Manifest\<close> and \<open>ManifestStore\<close> model the registry of artefacts; \<open>Disk\<close> the run directory as
  its readers and writers see it, with a concrete disk; \<open>Markers\<close> the markers of a phase;
  \<open>PhaseLock\<close> the lock files, as functions and as a step relation of several processes; \<open>PhaseOrder\<close> the
  guard of the order of a phase's life; \<open>RunState\<close> and \<open>RunStateProps\<close> the loading of a run, on the
  sorting lemmas of \<open>SortOrder\<close>; \<open>PhaseRun\<close> and \<open>PhaseProps\<close> a run of a phase from its started
  marker to its committed artefact; \<open>RunDirs\<close> the creation of the directory of a run
  (\<open>src/run_state/run_dir.rs\<close>), which is all or nothing; \<open>CrashSafety\<close> the states a crash may leave behind; \<open>Resume\<close> and
  \<open>Sweep\<close> the resumption of a run: which stale files a resume moves away, and that the leftovers of
  interrupted atomic writes are not among them, against \<open>docs/run-state.md\<close>. Attempt numbers wrap at
  their width.

  \<^bold>\<open>Traces and summaries.\<close> \<open>Trace\<close> models the spans and the two sinks (\<open>src/trace.rs\<close>, \<open>src/trace\<close>),
  \<open>TraceReader\<close> the usage that is read back from a trace (\<open>src/summary/reader.rs\<close>), \<open>Summary\<close> prices and
  the summary of a run (\<open>src/summary\<close>), and \<open>TraceTail\<close> the following of a trace that grows
  (\<open>src/ui/trace_reader.rs\<close>, \<open>src/ui/sse.rs\<close>). The theorems compare the sinks with one another, the
  usage with the calls, and what a follower has sent with the file.

  \<^bold>\<open>Phase-based workflows.\<close> \<open>Grammar\<close> models the checks of a workflow file, \<open>PhaseTemplate\<close> the
  substitution in prompts, \<open>PhaseBridge\<close> the way from a phase of a file to a run, with what one phase
  feeds to the next.

  \<^bold>\<open>Step-based workflows.\<close> \<open>Steps\<close> models steps, the checks at load time and inheritance (at most ten
  deep, as in the code); \<open>StepGraph\<close> the schedule, with the exact condition for there being one;
  \<open>StepOutput\<close> JSON in answers and the validation of outputs; \<open>StepEdits\<close> the application of edits on top
  of \<open>RetryLoop\<close>; \<open>StepRunner\<close> the execution of a level of steps and of a workflow; \<open>StepProps\<close> what a
  run guarantees: results come in the order of the dependencies, no step runs after a failed
  dependency that may not fail, and marks of success agree with what is recorded.

  \<^bold>\<open>Parameters.\<close> Backends, processes, clocks, locks of the operating system, the readers of JSON and TOML,
  SHA-256, regular expressions and the template engine are arguments: functions of the world, or
  records of functions. Where a theorem needs a property of them, it is a hypothesis, and a witness
  shows that it can hold. Walks of directories have a fuel for their depth. A panic of the code is
  a value of its own where it can occur (\<open>None\<close> for a debug assertion of the guard).

  \<^bold>\<open>Not modelled.\<close> What is printed; the HTML of the pages and their sockets; the drivers of several
  agents and the fixed tasks, which are prompts; the parsing of command lines; the template engine,
  which is outside the repository; the Bedrock backend, which needs an optional feature of the build;
  the link to the latest run, the promotion of the directory of an attempt, and the task that writes
  a heartbeat at intervals.
\<close>

end
